(* ===== verification/Fuse_Prelude.thy ===== *)
theory Fuse_Prelude
  imports Main "HOL-Library.Word" "HOL-Library.Monad_Syntax"
begin

text \<open>
  Shared vocabulary of the development: the machine types the C sources use, the errno
  values, the tape of allocation results that stands for \<open>malloc\<close>, \<open>calloc\<close>,
  \<open>realloc\<close> and \<open>strdup\<close>, and the generic lemmas on lists and options that the
  component theories use.

  Code that may kill the process (\<open>abort()\<close>, a failed \<open>assert\<close>, a null
  dereference or a use after free) returns an \<open>option\<close>: \<open>None\<close> is the death of the
  process, and the theorems that an operation yields \<open>Some\<close> say that it cannot happen.
  An errno result is an ordinary value (a negative \<open>int\<close>, as in the sources).
\<close>

unbundle bit_operations_syntax

named_theorems tab_simps \<open>projections and updates of hash tables\<close>
named_theorems node_frame \<open>what the node operations leave unchanged\<close>

section \<open>Types of the C sources\<close>

type_synonym u8 = "8 word"
type_synonym u16 = "16 word"
type_synonym u32 = "32 word"
type_synonym u64 = "64 word"
type_synonym fuse_ino = u64
type_synonym timespec = "int \<times> int"

section \<open>Errno values used by the library\<close>

definition ENOENT :: int where "ENOENT = 2"
definition EINTR :: int where "EINTR = 4"
definition EIO :: int where "EIO = 5"
definition EAGAIN :: int where "EAGAIN = 11"
definition ENOMEM :: int where "ENOMEM = 12"
definition EBUSY :: int where "EBUSY = 16"
definition EINVAL :: int where "EINVAL = 22"
definition ENOLCK :: int where "ENOLCK = 37"
definition ENOSYS :: int where "ENOSYS = 38"
definition ENOTEMPTY :: int where "ENOTEMPTY = 39"
definition ESTALE :: int where "ESTALE = 116"
definition EPERM :: int where "EPERM = 1"

lemmas errno_defs = ENOENT_def EINTR_def EIO_def EAGAIN_def ENOMEM_def EBUSY_def EINVAL_def
  ENOLCK_def ENOSYS_def ENOTEMPTY_def ESTALE_def EPERM_def

section \<open>The allocation tape\<close>

text \<open>
  Each allocation consumes one entry of a list of results (\<open>True\<close>: the allocator
  returned memory); an exhausted tape means success. Every theorem that holds for all tapes
  holds for every finite pattern of allocation failures.
\<close>

type_synonym tape = "bool list"

fun alloc_pop :: "tape \<Rightarrow> bool \<times> tape" where
  "alloc_pop [] = (True, [])"
| "alloc_pop (b # bs) = (b, bs)"

section \<open>Lists\<close>

lemma find_Some_iff_in: "find P xs = Some x \<Longrightarrow> x \<in> set xs \<and> P x"
  by (auto simp: find_Some_iff)

lemma find_unique:
  assumes "x \<in> set xs" "P x" "\<And>y. y \<in> set xs \<Longrightarrow> P y \<Longrightarrow> y = x"
  shows "find P xs = Some x"
proof -
  have "find P xs \<noteq> None"
    using assms(1,2) by (auto simp: find_None_iff)
  then obtain y where y: "find P xs = Some y" by blast
  from find_Some_iff_in [OF y] assms(3) have "y = x" by blast
  with y show ?thesis by simp
qed

lemma sum_list_update_less:
  fixes f :: "'a list \<Rightarrow> nat"
  assumes "i < length xs" "f y < f (xs ! i)"
  shows "sum_list (map f (xs[i := y])) < sum_list (map f xs)"
  using assms
proof (induction xs arbitrary: i)
  case Nil
  then show ?case by simp
next
  case (Cons x xs)
  show ?case
  proof (cases i)
    case 0
    with Cons.prems show ?thesis by simp
  next
    case (Suc j)
    with Cons show ?thesis by simp
  qed
qed

lemma length_remove1_less: "x \<in> set xs \<Longrightarrow> length (remove1 x xs) < length xs"
  using length_pos_if_in_set [of x xs] by (simp add: length_remove1)

section \<open>Natural numbers modulo a doubled table size\<close>

lemma mod_half: "even (s::nat) \<Longrightarrow> (h mod s) mod (s div 2) = h mod (s div 2)"
  by (metis dvd_div_mult_self dvd_triv_left mod_mod_cancel)

lemma mod_double_cases:
  fixes h m :: nat
  assumes "0 < m"
  shows "h mod (2 * m) = h mod m \<or> h mod (2 * m) = h mod m + m"
proof -
  have "h mod (m * 2) = m * (h div m mod 2) + h mod m"
    by (rule mod_mult2_eq)
  moreover have "h div m mod 2 = 0 \<or> h div m mod 2 = 1" by auto
  ultimately show ?thesis by (auto simp: mult.commute)
qed

end
