(* ===== verification/Node_Table.thy ===== *)
theory Node_Table
  imports Fuse_Prelude
begin

text \<open>
  The linear-hashing tables of \<open>lib/fuse.c\<close> (\<open>struct node_table\<close>): an array of chains, of
  which the first \<open>split\<close> buckets of the lower half have already been split into the upper
  half. The C code has two copies of every operation, one chaining nodes by \<open>id_next\<close> and
  hashing the node id, one chaining by \<open>name_next\<close> and hashing parent and name. Here each
  operation is written once, over the function \<open>key\<close> that gives the full hash of a node;
  \<open>Fuse_State\<close> instantiates it for the two tables. A chain is the list of the addresses
  of its nodes.
\<close>

type_synonym ptr = nat

definition NODE_TABLE_MIN_SIZE :: nat where "NODE_TABLE_MIN_SIZE = 8192"

record node_table =
  tab_array :: "ptr list list"
  tab_use :: nat
  tab_size :: nat
  tab_split :: nat

section \<open>Operations\<close>

definition bucket_of :: "node_table \<Rightarrow> nat \<Rightarrow> nat" where
  "bucket_of t h =
     (let hash = h mod tab_size t; oldhash = hash mod (tab_size t div 2)
      in if oldhash \<ge> tab_split t then oldhash else hash)"

definition node_table_init :: "tape \<Rightarrow> (int \<times> node_table option) \<times> tape" where
  "node_table_init a =
     (case alloc_pop a of
        (False, a') \<Rightarrow> ((-1, None), a')
      | (True, a') \<Rightarrow>
          ((0, Some \<lparr>tab_array = replicate NODE_TABLE_MIN_SIZE [], tab_use = 0,
                     tab_size = NODE_TABLE_MIN_SIZE, tab_split = 0\<rparr>), a'))"

definition node_table_reduce :: "tape \<Rightarrow> node_table \<Rightarrow> tape \<times> node_table" where
  "node_table_reduce a t =
     (let newsize = tab_size t div 2
      in if newsize < NODE_TABLE_MIN_SIZE then (a, t)
         else let (ok, a') = alloc_pop a;
                  t' = (if ok then t\<lparr>tab_array := take newsize (tab_array t)\<rparr> else t)
              in (a', t'\<lparr>tab_size := newsize, tab_split := newsize div 2\<rparr>))"

definition node_table_resize :: "tape \<Rightarrow> node_table \<Rightarrow> (int \<times> tape) \<times> node_table" where
  "node_table_resize a t =
     (let newsize = tab_size t * 2; (ok, a') = alloc_pop a
      in if \<not> ok then ((-1, a'), t)
         else ((0, a'), t\<lparr>tab_array := take (tab_size t) (tab_array t) @ replicate (tab_size t) [],
                          tab_size := newsize, tab_split := 0\<rparr>))"

text \<open>The \<open>for\<close> loop of \<open>remerge_id\<close> and \<open>remerge_name\<close>; the counter is \<open>iter\<close>.\<close>

fun remerge_loop :: "nat \<Rightarrow> node_table \<Rightarrow> node_table" where
  "remerge_loop 0 t = t"
| "remerge_loop (Suc iter) t =
     (if tab_split t > 0 then
        let s = tab_split t - 1; upper = s + tab_size t div 2; arr = tab_array t
        in if arr ! upper \<noteq> []
           then t\<lparr>tab_split := s, tab_array := arr[s := arr ! s @ arr ! upper, upper := []]\<rparr>
           else remerge_loop iter (t\<lparr>tab_split := s\<rparr>)
      else t)"

definition remerge :: "tape \<Rightarrow> node_table \<Rightarrow> tape \<times> node_table" where
  "remerge a t =
     (let (a', t') = (if tab_split t = 0 then node_table_reduce a t else (a, t))
      in (a', remerge_loop 8 t'))"

text \<open>
  The chain walk of \<open>rehash_id\<close> and \<open>rehash_name\<close>: a node whose bucket changed is
  unlinked and pushed on the front of its new chain, the others stay in order.
\<close>

fun rehash_loop :: "(ptr \<Rightarrow> nat) \<Rightarrow> nat \<Rightarrow> ptr list \<Rightarrow> ptr list \<Rightarrow> ptr list list \<Rightarrow> ptr list list" where
  "rehash_loop newhash hash kept [] arr = arr[hash := kept]"
| "rehash_loop newhash hash kept (n # ns) arr =
     (if newhash n \<noteq> hash
      then rehash_loop newhash hash kept ns (arr[newhash n := n # arr ! newhash n])
      else rehash_loop newhash hash (kept @ [n]) ns arr)"

definition rehash :: "(ptr \<Rightarrow> nat) \<Rightarrow> tape \<Rightarrow> node_table \<Rightarrow> tape \<times> node_table" where
  "rehash key a t =
     (if tab_split t = tab_size t div 2 then (a, t)
      else let hash = tab_split t;
               t1 = t\<lparr>tab_split := hash + 1\<rparr>;
               t2 = t1\<lparr>tab_array :=
                 rehash_loop (\<lambda>n. bucket_of t1 (key n)) hash [] (tab_array t1 ! hash) (tab_array t1)\<rparr>
           in if tab_split t2 = tab_size t2 div 2
              then (let ((_, a'), t3) = node_table_resize a t2 in (a', t3))
              else (a, t2))"

text \<open>Linking a node into its chain (the tail of \<open>hash_id\<close> and \<open>hash_name\<close>).\<close>

definition table_link :: "(ptr \<Rightarrow> nat) \<Rightarrow> ptr \<Rightarrow> tape \<Rightarrow> node_table \<Rightarrow> tape \<times> node_table" where
  "table_link key n a t =
     (let hash = bucket_of t (key n);
          t' = t\<lparr>tab_array := (tab_array t)[hash := n # tab_array t ! hash], tab_use := tab_use t + 1\<rparr>
      in if tab_use t' \<ge> tab_size t' div 2 then rehash key a t' else (a, t'))"

text \<open>
  Unlinking from the chain of bucket \<open>hash\<close> (the loop of \<open>unhash_id\<close> and
  \<open>unhash_name\<close>): \<open>None\<close> when the node is not on the chain (an index outside the array
  has no chain).
\<close>

definition table_unlink :: "nat \<Rightarrow> ptr \<Rightarrow> node_table \<Rightarrow> node_table option" where
  "table_unlink hash n t =
     (if hash < length (tab_array t) \<and> n \<in> set (tab_array t ! hash)
      then Some (t\<lparr>tab_array := (tab_array t)[hash := remove1 n (tab_array t ! hash)]\<rparr>)
      else None)"

definition table_shrink :: "tape \<Rightarrow> node_table \<Rightarrow> tape \<times> node_table" where
  "table_shrink a t =
     (let t' = t\<lparr>tab_use := tab_use t - 1\<rparr>
      in if tab_use t' < tab_size t' div 4 then remerge a t' else (a, t'))"

definition table_find :: "nat \<Rightarrow> (ptr \<Rightarrow> bool) \<Rightarrow> node_table \<Rightarrow> ptr option" where
  "table_find hash P t = find P (tab_array t ! hash)"

definition table_entries :: "node_table \<Rightarrow> nat" where
  "table_entries t = sum_list (map length (tab_array t))"

section \<open>Well-formedness\<close>

definition buckets :: "node_table \<Rightarrow> ptr set" where
  "buckets t = (\<Union>i<tab_size t. set (tab_array t ! i))"

text \<open>
  \<open>table_inv key S d t\<close>: the chains of \<open>t\<close> hold exactly the nodes of \<open>S\<close>, each once and
  in its own bucket; the use counter exceeds their number by \<open>d\<close> (the C code decrements it
  only after the node has been unlinked and its parent released).
\<close>

definition table_shape :: "node_table \<Rightarrow> bool" where
  "table_shape t \<longleftrightarrow> (\<exists>k. tab_size t = NODE_TABLE_MIN_SIZE * 2 ^ k) \<and>
     tab_split t \<le> tab_size t div 2 \<and> tab_size t \<le> length (tab_array t)"

definition chains_ok :: "(ptr \<Rightarrow> nat) \<Rightarrow> node_table \<Rightarrow> bool" where
  "chains_ok key t \<longleftrightarrow> (\<forall>i<tab_size t. distinct (tab_array t ! i) \<and>
     (\<forall>n\<in>set (tab_array t ! i). bucket_of t (key n) = i))"

definition table_inv :: "(ptr \<Rightarrow> nat) \<Rightarrow> ptr set \<Rightarrow> nat \<Rightarrow> node_table \<Rightarrow> bool" where
  "table_inv key S d t \<longleftrightarrow> table_shape t \<and> chains_ok key t \<and> buckets t = S \<and>
     tab_use t = card S + d"

lemma table_shapeD:
  assumes "table_shape t"
  shows "even (tab_size t)" "0 < tab_size t div 2" "tab_size t = 2 * (tab_size t div 2)"
    "tab_split t \<le> tab_size t div 2" "tab_size t \<le> length (tab_array t)"
  using assms by (auto simp: table_shape_def NODE_TABLE_MIN_SIZE_def)

lemma bucket_of_less:
  assumes "table_shape t"
  shows "bucket_of t h < tab_size t"
proof -
  have "0 < tab_size t" "0 < tab_size t div 2"
    using table_shapeD [OF assms] by auto
  then have "h mod tab_size t < tab_size t"
    and "h mod tab_size t mod (tab_size t div 2) < tab_size t div 2" by auto
  then show ?thesis by (auto simp: bucket_of_def Let_def)
qed

text \<open>The bucket in terms of residues modulo the half size, the form the proofs use.\<close>

lemma bucket_of_eq:
  assumes "table_shape t" and m: "m = tab_size t div 2"
  shows "bucket_of t h = (if tab_split t \<le> h mod m then h mod m else h mod (2 * m))"
proof -
  have sz: "tab_size t = 2 * m"
    unfolding m by (rule table_shapeD(3) [OF assms(1)])
  have "h mod (2 * m) mod m = h mod m"
    by (rule mod_mod_cancel) simp
  then show ?thesis
    by (simp add: bucket_of_def Let_def sz)
qed

lemma chains_finite [simp]: "finite (buckets t)"
  by (simp add: buckets_def)

lemma chains_okD:
  "\<lbrakk>chains_ok key t; i < tab_size t; n \<in> set (tab_array t ! i)\<rbrakk> \<Longrightarrow> bucket_of t (key n) = i"
  "\<lbrakk>chains_ok key t; i < tab_size t\<rbrakk> \<Longrightarrow> distinct (tab_array t ! i)"
  by (auto simp: chains_ok_def)

text \<open>A node is found in the bucket of its key, and nowhere else.\<close>

lemma in_bucket_iff:
  assumes "table_shape t" "chains_ok key t"
  shows "n \<in> set (tab_array t ! bucket_of t (key n)) \<longleftrightarrow> n \<in> buckets t"
  using assms bucket_of_less [OF assms(1)] by (auto simp: buckets_def chains_ok_def)

section \<open>Linking and unlinking keep the table well formed\<close>

lemma bucket_of_array [simp]: "bucket_of (t\<lparr>tab_array := a\<rparr>) = bucket_of t"
  by (rule ext) (simp add: bucket_of_def)

lemma bucket_of_use [simp]: "bucket_of (t\<lparr>tab_use := u\<rparr>) = bucket_of t"
  by (rule ext) (simp add: bucket_of_def)

lemma table_shape_use [simp]: "table_shape (t\<lparr>tab_use := u\<rparr>) = table_shape t"
  by (simp add: table_shape_def)

lemma table_shape_array:
  "table_shape t \<Longrightarrow> length a = length (tab_array t) \<Longrightarrow> table_shape (t\<lparr>tab_array := a\<rparr>)"
  by (simp add: table_shape_def)

lemma chains_ok_use [simp]: "chains_ok key (t\<lparr>tab_use := u\<rparr>) = chains_ok key t"
  by (simp add: chains_ok_def)

lemma buckets_use [simp]: "buckets (t\<lparr>tab_use := u\<rparr>) = buckets t"
  by (simp add: buckets_def)

lemma table_push_inv:
  assumes inv: "table_inv key S d t" and n: "n \<notin> S"
    and t': "t' = t\<lparr>tab_array := (tab_array t)[bucket_of t (key n) := n # tab_array t ! bucket_of t (key n)],
                 tab_use := tab_use t + 1\<rparr>"
  shows "table_inv key (insert n S) d t'"
proof -
  let ?b = "bucket_of t (key n)"
  have sh: "table_shape t" and ch: "chains_ok key t" and S: "buckets t = S"
    and u: "tab_use t = card S + d"
    using inv by (auto simp: table_inv_def)
  have b: "?b < tab_size t" by (rule bucket_of_less [OF sh])
  have len: "?b < length (tab_array t)"
    using b table_shapeD(5) [OF sh] by simp
  have nin: "n \<notin> set (tab_array t ! ?b)"
    using n S b by (auto simp: buckets_def)
  have "table_shape t'"
    unfolding t' by (simp add: table_shape_array [OF sh])
  moreover have "chains_ok key t'"
    using ch b len nin by (auto simp: t' chains_ok_def nth_list_update)
  moreover have "buckets t' = insert n S"
  proof -
    have "set (tab_array t' ! i) = (if i = ?b then insert n (set (tab_array t ! i)) else set (tab_array t ! i))"
      for i using len by (simp add: t' nth_list_update)
    then show ?thesis using b by (auto simp: t' buckets_def S [symmetric])
  qed
  moreover have "tab_use t' = card (insert n S) + d"
    using u n S chains_finite [of t] by (simp add: t')
  ultimately show ?thesis by (simp add: table_inv_def)
qed

lemma table_unlink_entries:
  "table_unlink h n t = Some t' \<Longrightarrow> table_entries t' < table_entries t"
  by (auto simp: table_unlink_def table_entries_def sum_list_update_less length_remove1_less
      split: if_splits)

lemma table_unlink_Some:
  assumes inv: "table_inv key S d t" and n: "n \<in> S"
  shows "\<exists>t'. table_unlink (bucket_of t (key n)) n t = Some t' \<and> table_inv key (S - {n}) (Suc d) t' \<and>
    table_entries t' < table_entries t \<and> tab_use t' = tab_use t"
proof -
  let ?b = "bucket_of t (key n)"
  let ?t = "t\<lparr>tab_array := (tab_array t)[?b := remove1 n (tab_array t ! ?b)]\<rparr>"
  have sh: "table_shape t" and ch: "chains_ok key t" and S: "buckets t = S"
    and u: "tab_use t = card S + d"
    using inv by (auto simp: table_inv_def)
  have b: "?b < tab_size t" by (rule bucket_of_less [OF sh])
  have len: "?b < length (tab_array t)"
    using b table_shapeD(5) [OF sh] by simp
  have nin: "n \<in> set (tab_array t ! ?b)"
    using in_bucket_iff [OF sh ch] n S by simp
  have dist: "distinct (tab_array t ! ?b)"
    by (rule chains_okD(2) [OF ch b])
  have elem: "tab_array ?t ! i = (if i = ?b then remove1 n (tab_array t ! i) else tab_array t ! i)" for i
    using len by (simp add: nth_list_update)
  have set_eq: "set (tab_array ?t ! i) = set (tab_array t ! i) - {n}" if "i < tab_size t" for i
  proof (cases "i = ?b")
    case True
    then show ?thesis unfolding elem using dist by simp
  next
    case False
    then have "n \<notin> set (tab_array t ! i)"
      using chains_okD(1) [OF ch that, of n] by auto
    with False show ?thesis unfolding elem by simp
  qed
  have ch': "chains_ok key ?t"
    unfolding chains_ok_def
  proof (intro allI impI conjI ballI)
    fix i assume "i < tab_size ?t"
    then have i: "i < tab_size t" by simp
    from chains_okD(2) [OF ch i] show "distinct (tab_array ?t ! i)"
      unfolding elem by auto
    fix x assume "x \<in> set (tab_array ?t ! i)"
    then have "x \<in> set (tab_array t ! i)" using set_eq [OF i] by blast
    from chains_okD(1) [OF ch i this] show "bucket_of ?t (key x) = i" by simp
  qed
  have "buckets ?t = S - {n}"
    using set_eq by (auto simp: buckets_def S [symmetric] simp del: node_table.simps)
  moreover have "card (S - {n}) + Suc d = card S + d"
  proof -
    have "finite S" using S chains_finite by metis
    then show ?thesis using n card_Suc_Diff1 [of S n] by simp
  qed
  ultimately have "table_inv key (S - {n}) (Suc d) ?t"
    using ch' u by (simp add: table_inv_def table_shape_array [OF sh])
  moreover have "table_entries ?t < table_entries t"
    using len nin by (simp add: table_entries_def sum_list_update_less length_remove1_less)
  ultimately show ?thesis using nin len by (simp add: table_unlink_def)
qed

section \<open>Growing\<close>

lemma length_rehash_loop [simp]:
  "length (rehash_loop nh h kept ns arr) = length arr"
  by (induction nh h kept ns arr rule: rehash_loop.induct) auto

text \<open>The chain walk, pointwise: the split bucket keeps its nodes in order, the moved nodes
  arrive in reverse order in front of their new chains.\<close>

lemma rehash_loop_nth:
  assumes "h < length arr" "\<And>n. n \<in> set ns \<Longrightarrow> nh n < length arr" "i < length arr"
  shows "rehash_loop nh h kept ns arr ! i =
    (if i = h then kept @ filter (\<lambda>n. nh n = h) ns
     else rev (filter (\<lambda>n. nh n = i) ns) @ arr ! i)"
  using assms
  by (induction nh h kept ns arr rule: rehash_loop.induct) (auto simp: nth_list_update)

lemma bucket_of_split:
  assumes sh: "table_shape t" and m: "m = tab_size t div 2" and s: "tab_split t < m"
  shows "bucket_of (t\<lparr>tab_split := tab_split t + 1\<rparr>) h =
    (if h mod m = tab_split t then h mod (2 * m) else bucket_of t h)"
proof -
  have "table_shape (t\<lparr>tab_split := tab_split t + 1\<rparr>)"
    using sh s by (auto simp: table_shape_def m)
  from bucket_of_eq [OF this, of m] bucket_of_eq [OF sh m] show ?thesis
    by (simp add: m [symmetric])
qed

lemma bucket_of_eq_split:
  assumes sh: "table_shape t" and m: "m = tab_size t div 2" and s: "tab_split t < m"
  shows "bucket_of t h = tab_split t \<longleftrightarrow> h mod m = tab_split t"
proof -
  have "h mod (2 * m) mod m = h mod m"
    by (rule mod_mod_cancel) simp
  with s have "h mod (2 * m) = tab_split t \<Longrightarrow> h mod m = tab_split t"
    by (metis mod_less)
  then show ?thesis by (auto simp: bucket_of_eq [OF sh m])
qed

lemma rehash_walk_inv:
  assumes inv: "table_inv key S d t" and m: "m = tab_size t div 2" and s: "tab_split t < m"
    and t1: "t1 = t\<lparr>tab_split := tab_split t + 1\<rparr>"
    and t2: "t2 = t1\<lparr>tab_array := rehash_loop (\<lambda>n. bucket_of t1 (key n)) (tab_split t) []
                       (tab_array t1 ! tab_split t) (tab_array t1)\<rparr>"
  shows "table_inv key S d t2"
proof -
  have sh: "table_shape t" and ch: "chains_ok key t" and S: "buckets t = S"
    and u: "tab_use t = card S + d"
    using inv by (auto simp: table_inv_def)
  have sh1: "table_shape t1" using sh s by (auto simp: t1 table_shape_def m)
  have sz: "tab_size t = 2 * m" using table_shapeD(3) [OF sh] m by simp
  have len: "tab_size t \<le> length (tab_array t)" using table_shapeD(5) [OF sh] .
  let ?nh = "\<lambda>n. bucket_of t1 (key n)" and ?h = "tab_split t"
  have h: "?h < tab_size t" using s sz by simp
  have nh: "?nh n < tab_size t" for n
    using bucket_of_less [OF sh1] by (simp add: t1)
  have el: "tab_array t2 ! i = (if i = ?h then filter (\<lambda>n. ?nh n = ?h) (tab_array t ! ?h)
      else rev (filter (\<lambda>n. ?nh n = i) (tab_array t ! ?h)) @ tab_array t ! i)"
    if "i < tab_size t" for i
  proof -
    have a1: "tab_array t1 = tab_array t" by (simp add: t1)
    have "?nh n < length (tab_array t)" for n using nh [of n] len by linarith
    then show ?thesis
      using rehash_loop_nth [of ?h "tab_array t" "tab_array t ! ?h" ?nh i "[]"] h len that
      by (simp add: t2 a1)
  qed
  have stay: "?nh n = i" if "i < tab_size t" "i \<noteq> ?h" "n \<in> set (tab_array t ! i)" for i n
    using chains_okD(1) [OF ch that(1,3)] that(2) bucket_of_split [OF sh m s, of "key n"]
      bucket_of_eq_split [OF sh m s, of "key n"] by (auto simp: t1)
  have disj: "n \<notin> set (tab_array t ! i)" if "i < tab_size t" "i \<noteq> ?h" "n \<in> set (tab_array t ! ?h)" for i n
    using chains_okD(1) [OF ch that(1)] chains_okD(1) [OF ch h that(3)] that(2) by auto
  have "chains_ok key t2"
    unfolding chains_ok_def
  proof (intro allI impI conjI ballI)
    fix i assume "i < tab_size t2"
    then have i: "i < tab_size t" by (simp add: t2 t1)
    have di: "distinct (tab_array t ! i)" "distinct (tab_array t ! ?h)"
      using chains_okD(2) [OF ch] i h by auto
    show "distinct (tab_array t2 ! i)"
      using di disj [OF i] by (auto simp: el [OF i])
    fix n assume "n \<in> set (tab_array t2 ! i)"
    then have "?nh n = i"
      using stay [OF i] by (auto simp: el [OF i] split: if_splits)
    then show "bucket_of t2 (key n) = i" by (simp add: t2)
  qed
  moreover have "buckets t2 = S"
  proof -
    have "n \<in> set (tab_array t2 ! ?nh n)" if "n \<in> buckets t" for n
    proof -
      from that obtain i where i: "i < tab_size t" "n \<in> set (tab_array t ! i)"
        by (auto simp: buckets_def)
      show ?thesis
      proof (cases "i = ?h")
        case True
        with i show ?thesis by (simp add: el [OF nh])
      next
        case False
        with stay [OF i(1) False i(2)] i show ?thesis by (simp add: el [OF i(1)])
      qed
    qed
    then have "buckets t \<subseteq> buckets t2"
      using nh by (auto simp: buckets_def t2 t1)
    moreover have "buckets t2 \<subseteq> buckets t"
      using h el by (fastforce simp: buckets_def t2 t1 split: if_splits)
    ultimately show ?thesis using S by blast
  qed
  moreover have "table_shape t2"
    using sh1 by (simp add: t2 table_shape_array)
  moreover have "tab_use t2 = card S + d" using u by (simp add: t2 t1)
  ultimately show ?thesis by (simp add: table_inv_def)
qed

lemma node_table_resize_inv:
  assumes inv: "table_inv key S d t" and full: "tab_split t = tab_size t div 2"
  shows "table_inv key S d (snd (node_table_resize a t))"
proof (cases "fst (alloc_pop a)")
  case False
  then show ?thesis using inv by (cases "alloc_pop a") (simp add: node_table_resize_def Let_def)
next
  case True
  define m where "m = tab_size t div 2"
  have sh: "table_shape t" and ch: "chains_ok key t" and S: "buckets t = S"
    using inv by (auto simp: table_inv_def)
  have sz: "tab_size t = 2 * m" using table_shapeD(3) [OF sh] m_def by simp
  have m0: "0 < m" using table_shapeD(2) [OF sh] m_def by simp
  have len: "2 * m \<le> length (tab_array t)" using table_shapeD(5) [OF sh] sz by simp
  define t' where "t' = t\<lparr>tab_array := take (tab_size t) (tab_array t) @ replicate (tab_size t) [],
    tab_size := tab_size t * 2, tab_split := 0\<rparr>"
  have res: "snd (node_table_resize a t) = t'"
    using True by (cases "alloc_pop a") (simp add: node_table_resize_def t'_def Let_def)
  obtain k where "tab_size t = NODE_TABLE_MIN_SIZE * 2 ^ k"
    using sh by (auto simp: table_shape_def)
  then have "tab_size t' = NODE_TABLE_MIN_SIZE * 2 ^ Suc k"
    by (simp add: t'_def)
  then have "\<exists>k. tab_size t' = NODE_TABLE_MIN_SIZE * 2 ^ k" by blast
  moreover have "tab_size t' \<le> length (tab_array t')" using len sz by (simp add: t'_def)
  ultimately have sh': "table_shape t'"
    unfolding table_shape_def by (simp add: t'_def)
  have bk: "bucket_of t' h = bucket_of t h" for h
  proof -
    have "\<not> m \<le> h mod m" using m0 by (simp add: not_le)
    then show ?thesis
      using bucket_of_eq [OF sh' refl, of h] bucket_of_eq [OF sh m_def, of h] full sz
      by (simp add: t'_def m_def [symmetric])
  qed
  have el: "tab_array t' ! i = (if i < tab_size t then tab_array t ! i else [])"
    if "i < tab_size t'" for i
    using that len sz by (simp add: t'_def nth_append)
  have "chains_ok key t'"
    using ch by (auto simp: chains_ok_def el bk)
  moreover have "buckets t' = S"
    using el sz by (fastforce simp: buckets_def S [symmetric] t'_def split: if_splits)
  ultimately show ?thesis
    using inv sh' unfolding res by (simp add: table_inv_def t'_def)
qed

lemma rehash_inv:
  assumes inv: "table_inv key S d t"
  shows "table_inv key S d (snd (rehash key a t))"
proof (cases "tab_split t = tab_size t div 2")
  case True
  then show ?thesis using inv by (simp add: rehash_def)
next
  case False
  define t1 where "t1 = t\<lparr>tab_split := tab_split t + 1\<rparr>"
  define t2 where "t2 = t1\<lparr>tab_array := rehash_loop (\<lambda>n. bucket_of t1 (key n)) (tab_split t) []
                       (tab_array t1 ! tab_split t) (tab_array t1)\<rparr>"
  have "tab_split t < tab_size t div 2"
    using False inv table_shapeD(4) [of t] by (simp add: table_inv_def)
  from rehash_walk_inv [OF inv refl this t1_def t2_def] have i2: "table_inv key S d t2" .
  have "snd (rehash key a t) =
      (if tab_split t2 = tab_size t2 div 2 then snd (node_table_resize a t2) else t2)"
    using False unfolding rehash_def t1_def [symmetric] Let_def
    by (simp add: t2_def [symmetric] split: prod.splits)
  then show ?thesis using i2 node_table_resize_inv [OF i2] by simp
qed

section \<open>Shrinking\<close>

lemma node_table_reduce_inv:
  assumes inv: "table_inv key S d t" and z: "tab_split t = 0"
  shows "table_inv key S d (snd (node_table_reduce a t))"
proof (cases "tab_size t div 2 < NODE_TABLE_MIN_SIZE")
  case True
  then show ?thesis using inv by (simp add: node_table_reduce_def Let_def)
next
  case False
  define m where "m = tab_size t div 2"
  have sh: "table_shape t" and ch: "chains_ok key t" and S: "buckets t = S"
    using inv by (auto simp: table_inv_def)
  have sz: "tab_size t = 2 * m" using table_shapeD(3) [OF sh] m_def by simp
  have m0: "0 < m" using table_shapeD(2) [OF sh] m_def by simp
  have len: "2 * m \<le> length (tab_array t)" using table_shapeD(5) [OF sh] sz by simp
  define t' where "t' = snd (node_table_reduce a t)"
  have t': "tab_size t' = m" "tab_split t' = m div 2" "tab_use t' = tab_use t"
    "tab_array t' = (if fst (alloc_pop a) then take m (tab_array t) else tab_array t)"
    using False by (auto simp: t'_def node_table_reduce_def Let_def m_def split: prod.splits)
  obtain k where k: "tab_size t = NODE_TABLE_MIN_SIZE * 2 ^ k"
    using sh by (auto simp: table_shape_def)
  with False obtain j where "k = Suc j" by (cases k) (auto simp: NODE_TABLE_MIN_SIZE_def)
  with k have mk: "m = NODE_TABLE_MIN_SIZE * 2 ^ j" by (simp add: m_def)
  then have sh': "table_shape t'"
    unfolding table_shape_def using t' len m0 by auto
  have bk: "bucket_of t' h = bucket_of t h" for h
  proof -
    have "m = 2 * (m div 2)" using table_shapeD(3) [OF sh'] t' by simp
    moreover have "h mod (m div 2) < m div 2" using table_shapeD(2) [OF sh'] t' by simp
    ultimately show ?thesis
      using bucket_of_eq [OF sh' refl, of h] bucket_of_eq [OF sh m_def, of h] z t' by simp
  qed
  have upper: "tab_array t ! i = []" if "m \<le> i" "i < 2 * m" for i
  proof (rule ccontr)
    assume "tab_array t ! i \<noteq> []"
    then obtain n where "n \<in> set (tab_array t ! i)" by (cases "tab_array t ! i") auto
    from chains_okD(1) [OF ch _ this] that sz have "bucket_of t (key n) = i" by simp
    moreover have "bucket_of t (key n) < m"
      using bucket_of_eq [OF sh m_def, of "key n"] z m0 by simp
    ultimately show False using that by simp
  qed
  have el: "tab_array t' ! i = tab_array t ! i" if "i < m" for i
    using that by (simp add: t')
  have "chains_ok key t'"
    using ch sz by (auto simp: chains_ok_def el bk t')
  moreover have "buckets t' = S"
  proof -
    have "buckets t = (\<Union>i<m. set (tab_array t ! i))"
    proof -
      have "i < m" if "i < 2 * m" "n \<in> set (tab_array t ! i)" for i n
        using upper [of i] that by (cases "i < m") auto
      then show ?thesis unfolding buckets_def sz by fastforce
    qed
    then show ?thesis using S by (simp add: buckets_def t'(1) el)
  qed
  ultimately show ?thesis
    using inv sh' t' unfolding t'_def [symmetric] by (simp add: table_inv_def)
qed

lemma merge_step_inv:
  assumes inv: "table_inv key S d t" and s: "tab_split t = Suc s"
    and up: "up = s + tab_size t div 2"
    and t': "t' = t\<lparr>tab_split := s,
       tab_array := (tab_array t)[s := tab_array t ! s @ tab_array t ! up, up := []]\<rparr>"
  shows "table_inv key S d t'"
proof -
  define m where "m = tab_size t div 2"
  have sh: "table_shape t" and ch: "chains_ok key t" and S: "buckets t = S"
    using inv by (auto simp: table_inv_def)
  have sz: "tab_size t = 2 * m" using table_shapeD(3) [OF sh] m_def by simp
  have m0: "0 < m" using table_shapeD(2) [OF sh] m_def by simp
  have len: "2 * m \<le> length (tab_array t)" using table_shapeD(5) [OF sh] sz by simp
  have sm: "s < m" "up = s + m" using s up table_shapeD(4) [OF sh] m_def by auto
  have sh': "table_shape t'"
    using sh sm by (auto simp: table_shape_def t' m_def)
  have bk: "bucket_of t' h = (if bucket_of t h = up then s else bucket_of t h)" for h
  proof -
    have old: "bucket_of t h = (if Suc s \<le> h mod m then h mod m else h mod (2 * m))"
      using bucket_of_eq [OF sh m_def, of h] s by simp
    have new: "bucket_of t' h = (if s \<le> h mod m then h mod m else h mod (2 * m))"
      using bucket_of_eq [OF sh' refl, of h] by (simp add: t' m_def [symmetric])
    obtain r where r: "h mod m = r" "r < m" using m0 by simp
    from mod_double_cases [OF m0, of h] show ?thesis
      unfolding old new r(1) using sm r(2) by auto
  qed
  have el: "tab_array t' ! i = (if i = up then [] else if i = s then tab_array t ! s @ tab_array t ! up
      else tab_array t ! i)" if "i < tab_size t" for i
    using that len sm sz by (simp add: t' nth_list_update)
  have lts: "s < tab_size t" "up < tab_size t" "s \<noteq> up" using sm sz m0 by auto
  have dj: "set (tab_array t ! s) \<inter> set (tab_array t ! up) = {}"
    using chains_okD(1) [OF ch lts(1)] chains_okD(1) [OF ch lts(2)] lts(3) by blast
  have "chains_ok key t'"
    unfolding chains_ok_def
  proof (intro allI impI conjI ballI)
    fix i assume "i < tab_size t'"
    then have i: "i < tab_size t" by (simp add: t')
    show "distinct (tab_array t' ! i)"
      using chains_okD(2) [OF ch] i dj sm sz by (auto simp: el [OF i])
    fix n assume "n \<in> set (tab_array t' ! i)"
    then show "bucket_of t' (key n) = i"
      using chains_okD(1) [OF ch, of _ n] i sm sz by (auto simp: el [OF i] bk split: if_splits)
  qed
  moreover have "buckets t' = S"
  proof -
    have "(\<Union>i<2 * m. set (tab_array t' ! i)) = (\<Union>i<2 * m. set (tab_array t ! i))" (is "?L = ?R")
    proof
      show "?L \<subseteq> ?R" using el sz sm by (fastforce split: if_splits)
      show "?R \<subseteq> ?L"
      proof
        fix n assume "n \<in> ?R"
        then obtain i where "i < 2 * m" "n \<in> set (tab_array t ! i)" by auto
        then have "n \<in> set (tab_array t' ! (if i = up then s else i))"
          using el sz sm by auto
        then show "n \<in> ?L" using \<open>i < 2 * m\<close> sm by (auto split: if_splits)
      qed
    qed
    then show ?thesis using S sz by (simp add: buckets_def t')
  qed
  ultimately show ?thesis using inv sh' by (simp add: table_inv_def t')
qed

lemma remerge_loop_inv: "table_inv key S d t \<Longrightarrow> table_inv key S d (remerge_loop iter t)"
proof (induction iter t rule: remerge_loop.induct)
  case (1 t)
  then show ?case by simp
next
  case (2 iter t)
  show ?case
  proof (cases "tab_split t")
    case 0
    then show ?thesis using "2.prems" by simp
  next
    case (Suc s)
    define up where "up = s + tab_size t div 2"
    note step = merge_step_inv [OF "2.prems" Suc up_def refl]
    show ?thesis
    proof (cases "tab_array t ! up = []")
      case False
      with Suc step show ?thesis by (simp add: Let_def up_def [symmetric])
    next
      case True
      have "(tab_array t)[s := tab_array t ! s @ tab_array t ! up, up := []] = tab_array t"
        using True by (metis append_Nil2 list_update_id)
      with step have "table_inv key S d (t\<lparr>tab_split := s\<rparr>)" by simp
      with "2.IH" Suc True show ?thesis
        by (simp add: Let_def up_def [symmetric])
    qed
  qed
qed

lemma remerge_inv:
  assumes "table_inv key S d t"
  shows "table_inv key S d (snd (remerge a t))"
  using assms node_table_reduce_inv [OF assms, of a] remerge_loop_inv
  by (auto simp: remerge_def Let_def split: prod.splits)

lemma table_link_inv:
  assumes "table_inv key S d t" "n \<notin> S"
  shows "table_inv key (insert n S) d (snd (table_link key n a t))"
  using table_push_inv [OF assms refl] rehash_inv
  by (simp add: table_link_def Let_def)

lemma table_shrink_inv:
  assumes "table_inv key S (Suc d) t"
  shows "table_inv key S d (snd (table_shrink a t))"
proof -
  have "table_inv key S d (t\<lparr>tab_use := tab_use t - 1\<rparr>)"
    using assms by (simp add: table_inv_def)
  then show ?thesis using remerge_inv by (simp add: table_shrink_def Let_def)
qed

lemma node_table_init_inv:
  assumes "node_table_init a = ((res, Some t), a')"
  shows "table_inv key {} 0 t"
proof -
  have t: "t = \<lparr>tab_array = replicate NODE_TABLE_MIN_SIZE [], tab_use = 0,
                tab_size = NODE_TABLE_MIN_SIZE, tab_split = 0\<rparr>"
    using assms by (auto simp: node_table_init_def split: prod.splits bool.splits)
  have "table_shape t"
    unfolding table_shape_def t by (auto intro: exI [of _ 0])
  then show ?thesis
    by (simp add: table_inv_def chains_ok_def buckets_def t)
qed

text \<open>The table only sees its keys on the nodes it holds.\<close>

lemma table_inv_cong:
  assumes "\<And>n. n \<in> S \<Longrightarrow> key n = key' n" "table_inv key S d t"
  shows "table_inv key' S d t"
proof -
  have "n \<in> S" if "i < tab_size t" "n \<in> set (tab_array t ! i)" for i n
    using assms(2) that by (auto simp: table_inv_def buckets_def)
  then have "chains_ok key' t"
    using assms by (auto simp: table_inv_def chains_ok_def)
  then show ?thesis using assms(2) by (simp add: table_inv_def)
qed

lemma table_find_Some:
  assumes inv: "table_inv key S d t" and h: "\<And>n. P n \<Longrightarrow> n \<in> S \<Longrightarrow> key n = k"
    and n: "n \<in> S" "P n" and uniq: "\<And>m. m \<in> S \<Longrightarrow> P m \<Longrightarrow> m = n"
  shows "table_find (bucket_of t k) P t = Some n"
proof -
  have sh: "table_shape t" and ch: "chains_ok key t" and S: "buckets t = S"
    using inv by (auto simp: table_inv_def)
  have "n \<in> set (tab_array t ! bucket_of t k)"
    using in_bucket_iff [OF sh ch, of n] h [OF n(2,1)] n(1) S by simp
  moreover have "m \<in> S" if "m \<in> set (tab_array t ! bucket_of t k)" for m
    using that bucket_of_less [OF sh] S by (auto simp: buckets_def)
  ultimately show ?thesis
    unfolding table_find_def using n(2) uniq by (intro find_unique) auto
qed

lemma table_find_SomeD:
  assumes inv: "table_inv key S d t" and f: "table_find (bucket_of t k) P t = Some n"
  shows "n \<in> S \<and> P n"
proof -
  have sh: "table_shape t" and S: "buckets t = S"
    using inv by (auto simp: table_inv_def)
  have "n \<in> set (tab_array t ! bucket_of t k)" "P n"
    using f find_Some_iff_in unfolding table_find_def by metis+
  then show ?thesis using bucket_of_less [OF sh] S by (auto simp: buckets_def)
qed

section \<open>The interface the node store relies on\<close>

text \<open>
  What the rest of \<open>fuse.c\<close> needs of a node table: a set of nodes that grows by linking,
  shrinks by unlinking, and in which a search by key is exact.
\<close>

locale node_index =
  fixes inv :: "'k \<Rightarrow> ptr set \<Rightarrow> nat \<Rightarrow> 't \<Rightarrow> bool"
    and link :: "'k \<Rightarrow> ptr \<Rightarrow> tape \<Rightarrow> 't \<Rightarrow> tape \<times> 't"
    and unlink :: "'k \<Rightarrow> ptr \<Rightarrow> 't \<Rightarrow> 't option"
    and shrink :: "tape \<Rightarrow> 't \<Rightarrow> tape \<times> 't"
  assumes link_inv: "inv k S d t \<Longrightarrow> n \<notin> S \<Longrightarrow> inv k (insert n S) d (snd (link k n a t))"
    and unlink_inv: "inv k S d t \<Longrightarrow> n \<in> S \<Longrightarrow> \<exists>t'. unlink k n t = Some t' \<and> inv k (S - {n}) (Suc d) t'"
    and shrink_inv: "inv k S (Suc d) t \<Longrightarrow> inv k S d (snd (shrink a t))"
begin

definition drop_node :: "'k \<Rightarrow> ptr \<Rightarrow> tape \<Rightarrow> 't \<Rightarrow> (tape \<times> 't) option" where
  "drop_node k n a t = map_option (shrink a) (unlink k n t)"

lemma drop_node_inv:
  assumes "inv k S d t" "n \<in> S"
  shows "\<exists>r. drop_node k n a t = Some r \<and> inv k (S - {n}) d (snd r)"
proof -
  obtain t' where "unlink k n t = Some t'" "inv k (S - {n}) (Suc d) t'"
    using unlink_inv [OF assms] by blast
  then show ?thesis using shrink_inv by (simp add: drop_node_def)
qed

lemma drop_after_link:
  assumes "inv k S d t" "n \<notin> S" "link k n a t = (a', t')"
  shows "\<exists>r. drop_node k n a' t' = Some r \<and> inv k S d (snd r)"
proof -
  have "inv k (insert n S) d t'" using link_inv [OF assms(1,2), of a] assms(3) by simp
  from drop_node_inv [OF this, of n a'] assms(2) show ?thesis by simp
qed

end

interpretation ht: node_index table_inv table_link "\<lambda>key n t. table_unlink (bucket_of t (key n)) n t" table_shrink
proof
  show "table_inv k (insert n S) d (snd (table_link k n a t))"
    if "table_inv k S d t" "n \<notin> S" for k S d t n a
    by (rule table_link_inv [OF that])
  show "\<exists>t'. table_unlink (bucket_of t (k n)) n t = Some t' \<and> table_inv k (S - {n}) (Suc d) t'"
    if "table_inv k S d t" "n \<in> S" for k S d t n
    using table_unlink_Some [OF that] by blast
  show "table_inv k S d (snd (table_shrink a t))" if "table_inv k S (Suc d) t" for k S d t a
    by (rule table_shrink_inv [OF that])
qed

end
