(* ===== verification/Posix_Locks.thy ===== *)
theory Posix_Locks
  imports Fuse_Prelude
begin

text \<open>
  The byte-range locks the library caches per node (\<open>struct lock\<close> of \<open>lib/fuse.c\<close>): the
  search for a conflicting lock, the insertion that splits and merges ranges, and the
  conversion from and to \<open>struct flock\<close>.
\<close>

datatype lock_type = F_RDLCK | F_WRLCK | F_UNLCK

text \<open>
  \<open>start\<close> and \<open>end\<close> are \<open>off_t\<close>. Offsets of locks are between 0 and \<open>OFFSET_MAX\<close>, so
  none of the additions below leaves the 64-bit range and the model uses \<open>int\<close>.
\<close>

record lock =
  lk_type :: lock_type
  lk_start :: int
  lk_end :: int
  lk_pid :: int
  lk_owner :: u64

definition OFFSET_MAX :: int where "OFFSET_MAX = 0x7fffffffffffffff"


section \<open>Operations\<close>

definition locks_conflict :: "lock list \<Rightarrow> lock \<Rightarrow> lock option" where
  "locks_conflict ls lk =
     find (\<lambda>l. lk_owner l \<noteq> lk_owner lk \<and> lk_start lk \<le> lk_end l \<and> lk_start l \<le> lk_end lk \<and>
               (lk_type l = F_WRLCK \<or> lk_type lk = F_WRLCK)) ls"

text \<open>
  The end of \<open>locks_insert\<close> after \<open>break\<close>, in front of the rest of the list; a null \<open>newl1\<close>
  would be dereferenced.
\<close>

definition insert_newl1 :: "bool \<Rightarrow> lock \<Rightarrow> lock list \<Rightarrow> lock list option" where
  "insert_newl1 newl1 lk rest =
     (if lk_type lk = F_UNLCK then Some rest else if newl1 then Some (lk # rest) else None)"

text \<open>
  The loop over the node's locks; \<open>newl2\<close> says whether \<open>newl2\<close> is not null. After a split the
  loop goes on with the upper half.
\<close>

function locks_loop :: "bool \<Rightarrow> bool \<Rightarrow> lock \<Rightarrow> lock list \<Rightarrow> lock list option" where
  "locks_loop newl1 newl2 lk [] = insert_newl1 newl1 lk []"
| "locks_loop newl1 newl2 lk (l # ls) =
     (if lk_owner l \<noteq> lk_owner lk then map_option ((#) l) (locks_loop newl1 newl2 lk ls)
      else if lk_type lk = lk_type l then
        (if lk_end l < lk_start lk - 1 then map_option ((#) l) (locks_loop newl1 newl2 lk ls)
         else if lk_end lk < lk_start l - 1 then insert_newl1 newl1 lk (l # ls)
         else if lk_start l \<le> lk_start lk \<and> lk_end lk \<le> lk_end l then Some (l # ls)
         else let lk1 = (if lk_start l < lk_start lk then lk\<lparr>lk_start := lk_start l\<rparr> else lk);
                  lk2 = (if lk_end lk1 < lk_end l then lk1\<lparr>lk_end := lk_end l\<rparr> else lk1)
              in locks_loop newl1 newl2 lk2 ls)
      else if lk_end l < lk_start lk then map_option ((#) l) (locks_loop newl1 newl2 lk ls)
      else if lk_end lk < lk_start l then insert_newl1 newl1 lk (l # ls)
      else if lk_start lk \<le> lk_start l \<and> lk_end l \<le> lk_end lk then locks_loop newl1 newl2 lk ls
      else if lk_end l \<le> lk_end lk then
        map_option ((#) (l\<lparr>lk_end := lk_start lk - 1\<rparr>)) (locks_loop newl1 newl2 lk ls)
      else if lk_start lk \<le> lk_start l then insert_newl1 newl1 lk (l\<lparr>lk_start := lk_end lk + 1\<rparr> # ls)
      else if \<not> newl2 then None
      else map_option ((#) (l\<lparr>lk_end := lk_start lk - 1\<rparr>))
             (locks_loop newl1 False lk (l\<lparr>lk_start := lk_end lk + 1\<rparr> # ls)))"
  by pat_completeness auto
termination by (relation "measure (\<lambda>(_, newl2, _, ls). length ls + (if newl2 then 1 else 0))") auto

definition locks_insert :: "tape \<Rightarrow> lock list \<Rightarrow> lock \<Rightarrow> ((int \<times> lock list) \<times> tape) option" where
  "locks_insert t ls lk =
     (let alloc = (lk_type lk \<noteq> F_UNLCK \<or> lk_start lk \<noteq> 0 \<or> lk_end lk \<noteq> OFFSET_MAX);
          (ok1, t1) = (if alloc then alloc_pop t else (False, t));
          (ok2, t2) = (if alloc then alloc_pop t1 else (False, t1))
      in if alloc \<and> \<not> (ok1 \<and> ok2) then Some ((- ENOLCK, ls), t2)
         else map_option (\<lambda>ls'. ((0, ls'), t2)) (locks_loop ok1 ok2 lk ls))"

record flock =
  l_type :: lock_type
  l_whence :: int
  l_start :: int
  l_len :: int
  l_pid :: int

definition flock_to_lock :: "flock \<Rightarrow> lock" where
  "flock_to_lock fl = \<lparr>lk_type = l_type fl, lk_start = l_start fl,
     lk_end = (if l_len fl \<noteq> 0 then l_start fl + l_len fl - 1 else OFFSET_MAX), lk_pid = l_pid fl, lk_owner = 0\<rparr>"

definition lock_to_flock :: "lock \<Rightarrow> flock \<Rightarrow> flock" where
  "lock_to_flock lk fl = fl\<lparr>l_type := lk_type lk, l_start := lk_start lk,
     l_len := (if lk_end lk = OFFSET_MAX then 0 else lk_end lk - lk_start lk + 1), l_pid := lk_pid lk\<rparr>"

end
