(* ===== verification/Fuse_State.thy ===== *)
theory Fuse_State
  imports Node_Table Posix_Locks
begin

text \<open>
  The state of the high-level library (\<open>struct fuse\<close> and \<open>struct node\<close> of \<open>lib/fuse.c\<close>) and
  the operations on its nodes, in the order of the source: hashing, lookup, reference
  counting, allocation of node ids, forgetting, unlinking, renaming.

  Nodes live in a heap \<open>nodes\<close> from addresses to records; a freed node has no entry, so
  every access to one yields \<open>None\<close>. Addresses are handed out by \<open>next_ptr\<close> and not reused.
  \<open>allocs\<close> is the tape of allocation results and \<open>clock\<close> the tape of the values that
  \<open>clock_gettime\<close> returns. The mutex \<open>f->lock\<close> makes each operation here one atomic step.
  \<open>nlookup\<close>, \<open>refctr\<close>, \<open>open_count\<close> and the table sizes are unbounded numbers: the model
  does not cover more than \<open>2 ^ 31\<close> references to one node. Debug output is left out.
  Timeouts (\<open>double\<close> seconds in C) are exact numbers of nanoseconds.
\<close>

section \<open>State\<close>

record node =
  nodeid :: fuse_ino
  n_generation :: u32
  refctr :: int
  parent :: "ptr option"
  n_name :: "string option"
  nlookup :: nat
  open_count :: int
  stat_updated :: timespec
  mtime :: timespec
  n_size :: int
  n_locks :: "lock list"
  is_hidden :: bool
  cache_valid :: bool
  treelock :: int
  forget_time :: timespec

text \<open>The configuration fields the library reads (\<open>struct fuse_config\<close>).\<close>

record fuse_config =
  set_gid :: bool
  c_gid :: u32
  set_uid :: bool
  c_uid :: u32
  set_mode :: bool
  c_umask :: u32
  c_fmask :: u32
  c_dmask :: u32
  entry_timeout :: int
  negative_timeout :: int
  attr_timeout :: int
  intr :: bool
  remember :: int
  hard_remove :: bool
  use_ino :: bool
  readdir_ino :: bool
  direct_io :: bool
  kernel_cache :: bool
  auto_cache :: bool
  no_rofd_flush :: bool
  ac_attr_timeout :: int
  nullpath_ok :: bool
  parallel_direct_writes :: bool

text \<open>
  \<open>struct lock_queue_element\<close>: \<open>wants_path\<close> and \<open>wants_node\<close> say that the pointers
  \<open>path1\<close>, \<open>path2\<close>, \<open>wnode1\<close>, \<open>wnode2\<close> are not null, the \<open>out\<close> fields hold what is
  stored through them; \<open>qe_id\<close> is the address of the element (on the waiter's stack) and
  \<open>signalled\<close> records that its condition variable was signalled.
\<close>

record lock_queue_element =
  qe_id :: nat
  nodeid1 :: fuse_ino
  name1 :: "string option"
  wants_path1 :: bool
  out_path1 :: "string option"
  wants_node1 :: bool
  out_node1 :: "ptr option"
  nodeid2 :: fuse_ino
  name2 :: "string option"
  wants_path2 :: bool
  out_path2 :: "string option"
  wants_node2 :: bool
  out_node2 :: "ptr option"
  qe_err :: int
  qe_done :: bool
  signalled :: bool

record fuse =
  name_table :: node_table
  id_table :: node_table
  lru_table :: "ptr list"
  ctr :: fuse_ino
  f_generation :: u32
  hidectr :: u32
  conf :: fuse_config
  lockq :: "lock_queue_element list"
  nodes :: "ptr \<rightharpoonup> node"
  next_ptr :: ptr
  allocs :: tape
  clock :: "timespec list"

definition FUSE_ROOT_ID :: fuse_ino where "FUSE_ROOT_ID = 1"
definition FUSE_UNKNOWN_INO :: fuse_ino where "FUSE_UNKNOWN_INO = 0xffffffff"

definition zero_node :: node where
  "zero_node = \<lparr>nodeid = 0, n_generation = 0, refctr = 0, parent = None, n_name = None,
     nlookup = 0, open_count = 0, stat_updated = (0, 0), mtime = (0, 0), n_size = 0,
     n_locks = [], is_hidden = False, cache_valid = False, treelock = 0, forget_time = (0, 0)\<rparr>"

definition put_node :: "ptr \<Rightarrow> node \<Rightarrow> fuse \<Rightarrow> fuse" where
  "put_node p n f = f\<lparr>nodes := (nodes f)(p \<mapsto> n)\<rparr>"

definition lru_enabled :: "fuse \<Rightarrow> bool" where
  "lru_enabled f \<longleftrightarrow> remember (conf f) > 0"

definition curr_time :: "fuse \<Rightarrow> timespec \<times> fuse" where
  "curr_time f = (case clock f of [] \<Rightarrow> ((0, 0), f) | t # ts \<Rightarrow> (t, f\<lparr>clock := ts\<rparr>))"

section \<open>Allocation\<close>

definition alloc_node :: "fuse \<Rightarrow> ptr option \<times> fuse" where
  "alloc_node f =
     (case alloc_pop (allocs f) of
        (False, a) \<Rightarrow> (None, f\<lparr>allocs := a\<rparr>)
      | (True, a) \<Rightarrow> (Some (next_ptr f),
          put_node (next_ptr f) zero_node (f\<lparr>allocs := a, next_ptr := Suc (next_ptr f)\<rparr>)))"

definition free_node :: "fuse \<Rightarrow> ptr \<Rightarrow> fuse" where
  "free_node f p = f\<lparr>nodes := (nodes f)(p := None)\<rparr>"

section \<open>The table of node ids\<close>

definition id_hash_full :: "fuse_ino \<Rightarrow> nat" where
  "id_hash_full ino = unat ((ucast ino :: u32) * 2654435761)"

definition id_hash :: "fuse \<Rightarrow> fuse_ino \<Rightarrow> nat" where
  "id_hash f ino = bucket_of (id_table f) (id_hash_full ino)"

definition id_key :: "(ptr \<rightharpoonup> node) \<Rightarrow> ptr \<Rightarrow> nat" where
  "id_key ns p = (case ns p of None \<Rightarrow> 0 | Some n \<Rightarrow> id_hash_full (nodeid n))"

definition id_match :: "fuse \<Rightarrow> fuse_ino \<Rightarrow> ptr \<Rightarrow> bool" where
  "id_match f ino p = (case nodes f p of None \<Rightarrow> False | Some n \<Rightarrow> nodeid n = ino)"

definition get_node_nocheck :: "fuse \<Rightarrow> fuse_ino \<Rightarrow> ptr option" where
  "get_node_nocheck f ino = table_find (id_hash f ino) (id_match f ino) (id_table f)"

text \<open>\<open>get_node\<close> aborts the process where \<open>get_node_nocheck\<close> returns null.\<close>

definition get_node :: "fuse \<Rightarrow> fuse_ino \<Rightarrow> ptr option" where
  "get_node f ino = get_node_nocheck f ino"

definition remerge_id :: "fuse \<Rightarrow> fuse" where
  "remerge_id f = (let (a, t) = remerge (allocs f) (id_table f) in f\<lparr>id_table := t, allocs := a\<rparr>)"

definition unhash_id :: "fuse \<Rightarrow> ptr \<Rightarrow> fuse option" where
  "unhash_id f p = do {
     n \<leftarrow> nodes f p;
     (case table_unlink (id_hash f (nodeid n)) p (id_table f) of
        None \<Rightarrow> Some f
      | Some t \<Rightarrow>
          (let f1 = f\<lparr>id_table := t\<lparr>tab_use := tab_use t - 1\<rparr>\<rparr>
           in Some (if tab_use (id_table f1) < tab_size (id_table f1) div 4
                    then remerge_id f1 else f1))) }"

definition rehash_id :: "fuse \<Rightarrow> fuse" where
  "rehash_id f =
     (let (a, t) = rehash (id_key (nodes f)) (allocs f) (id_table f)
      in f\<lparr>id_table := t, allocs := a\<rparr>)"

definition hash_id :: "fuse \<Rightarrow> ptr \<Rightarrow> fuse option" where
  "hash_id f p = do {
     n \<leftarrow> nodes f p;
     let hash = id_hash f (nodeid n);
     let t = id_table f;
     let f1 = f\<lparr>id_table := t\<lparr>tab_array := (tab_array t)[hash := p # tab_array t ! hash],
                               tab_use := tab_use t + 1\<rparr>\<rparr>;
     Some (if tab_use (id_table f1) \<ge> tab_size (id_table f1) div 2 then rehash_id f1 else f1) }"

section \<open>The table of names\<close>

fun name_hash_loop :: "u64 \<Rightarrow> string \<Rightarrow> u64" where
  "name_hash_loop hash [] = hash"
| "name_hash_loop hash (c # cs) = name_hash_loop (hash * 31 + of_char c) cs"

definition name_hash_full :: "fuse_ino \<Rightarrow> string \<Rightarrow> nat" where
  "name_hash_full par name = unat (name_hash_loop par name)"

definition name_hash :: "fuse \<Rightarrow> fuse_ino \<Rightarrow> string \<Rightarrow> nat" where
  "name_hash f par name = bucket_of (name_table f) (name_hash_full par name)"

text \<open>
  The hash of a linked node, read through \<open>node->parent->nodeid\<close> and \<open>node->name\<close>. Both
  pointers are valid for every node of the name table (the invariant of \<open>Node_Refs\<close>), so
  the value 0 for a dangling one is never used.
\<close>

definition name_key :: "(ptr \<rightharpoonup> node) \<Rightarrow> ptr \<Rightarrow> nat" where
  "name_key ns p =
     (case ns p of None \<Rightarrow> 0 | Some n \<Rightarrow>
        (case (parent n, n_name n) of
           (Some q, Some name) \<Rightarrow> (case ns q of None \<Rightarrow> 0 | Some pn \<Rightarrow> name_hash_full (nodeid pn) name)
         | _ \<Rightarrow> 0))"

definition remerge_name :: "fuse \<Rightarrow> fuse" where
  "remerge_name f =
     (let (a, t) = remerge (allocs f) (name_table f) in f\<lparr>name_table := t, allocs := a\<rparr>)"

definition rehash_name :: "fuse \<Rightarrow> fuse" where
  "rehash_name f =
     (let (a, t) = rehash (name_key (nodes f)) (allocs f) (name_table f)
      in f\<lparr>name_table := t, allocs := a\<rparr>)"

text \<open>
  \<open>hash_name\<close> stores short names in the node and duplicates longer ones; when the
  duplication fails the name is left null and the node is not linked.
\<close>

definition hash_name :: "fuse \<Rightarrow> ptr \<Rightarrow> fuse_ino \<Rightarrow> string \<Rightarrow> (int \<times> fuse) option" where
  "hash_name f p parentid name = do {
     let hash = name_hash f parentid name;
     q \<leftarrow> get_node f parentid;
     n \<leftarrow> nodes f p;
     let (ok, a) = (if length name < 32 then (True, allocs f) else alloc_pop (allocs f));
     let f1 = put_node p (n\<lparr>n_name := (if ok then Some name else None)\<rparr>) (f\<lparr>allocs := a\<rparr>);
     if \<not> ok then Some (-1, f1)
     else do {
       qn \<leftarrow> nodes f1 q;
       let f2 = put_node q (qn\<lparr>refctr := refctr qn + 1\<rparr>) f1;
       n2 \<leftarrow> nodes f2 p;
       let f3 = put_node p (n2\<lparr>parent := Some q\<rparr>) f2;
       let t = name_table f3;
       let f4 = f3\<lparr>name_table := t\<lparr>tab_array := (tab_array t)[hash := p # tab_array t ! hash],
                                     tab_use := tab_use t + 1\<rparr>\<rparr>;
       Some (0, if tab_use (name_table f4) \<ge> tab_size (name_table f4) div 2
                then rehash_name f4 else f4) } }"

section \<open>Releasing nodes\<close>

definition remove_node_lru :: "fuse \<Rightarrow> ptr \<Rightarrow> fuse" where
  "remove_node_lru f p = f\<lparr>lru_table := removeAll p (lru_table f)\<rparr>"

definition set_forget_time :: "fuse \<Rightarrow> ptr \<Rightarrow> fuse option" where
  "set_forget_time f p = do {
     let f1 = f\<lparr>lru_table := removeAll p (lru_table f) @ [p]\<rparr>;
     let (now, f2) = curr_time f1;
     n \<leftarrow> nodes f2 p;
     Some (put_node p (n\<lparr>forget_time := now\<rparr>) f2) }"

definition name_unlink :: "fuse \<Rightarrow> ptr \<Rightarrow> (ptr \<times> fuse) option" where
  "name_unlink f p = do {
     n \<leftarrow> nodes f p;
     name \<leftarrow> n_name n;
     q \<leftarrow> parent n;
     pn \<leftarrow> nodes f q;
     t \<leftarrow> table_unlink (name_hash f (nodeid pn) name) p (name_table f);
     Some (q, f\<lparr>name_table := t\<rparr>) }"

definition name_unlinked :: "fuse \<Rightarrow> ptr \<Rightarrow> fuse option" where
  "name_unlinked f p = do {
     n \<leftarrow> nodes f p;
     let f1 = put_node p (n\<lparr>n_name := None, parent := None\<rparr>) f;
     let t = name_table f1;
     let f2 = f1\<lparr>name_table := t\<lparr>tab_use := tab_use t - 1\<rparr>\<rparr>;
     Some (if tab_use (name_table f2) < tab_size (name_table f2) div 4
           then remerge_name f2 else f2) }"

text \<open>
  \<open>unhash_name\<close>, \<open>delete_node\<close> and \<open>unref_node\<close> call each other up the tree: unlinking a
  name drops a reference to the parent, which may delete the parent. \<open>name_unlink\<close> and
  \<open>name_unlinked\<close> are what \<open>unhash_name\<close> does before and after that call. Every round
  takes a node off the name table, which is the measure of termination.
\<close>

lemma name_unlink_entries:
  "name_unlink f p = Some (q, f') \<Longrightarrow> table_entries (name_table f') < table_entries (name_table f)"
  by (auto simp: name_unlink_def bind_eq_Some_conv dest: table_unlink_entries)

function unref_node :: "fuse \<Rightarrow> ptr \<Rightarrow> fuse option"
  and delete_node :: "fuse \<Rightarrow> ptr \<Rightarrow> fuse option"
  and unhash_name :: "fuse \<Rightarrow> ptr \<Rightarrow> fuse option"
where
  "unref_node f p =
     (case nodes f p of
        None \<Rightarrow> None
      | Some n \<Rightarrow>
          if refctr n \<le> 0 then None
          else let f1 = put_node p (n\<lparr>refctr := refctr n - 1\<rparr>) f
               in if refctr n - 1 = 0 then delete_node f1 p else Some f1)"
| "delete_node f p =
     (case nodes f p of
        None \<Rightarrow> None
      | Some n \<Rightarrow>
          if treelock n \<noteq> 0 then None
          else do {
            f1 \<leftarrow> unhash_name f p;
            let f2 = (if lru_enabled f1 then remove_node_lru f1 p else f1);
            f3 \<leftarrow> unhash_id f2 p;
            Some (free_node f3 p) })"
| "unhash_name f p =
     (case nodes f p of
        None \<Rightarrow> None
      | Some n \<Rightarrow>
          if n_name n = None then Some f
          else (case name_unlink f p of
                  None \<Rightarrow> None
                | Some (q, f1) \<Rightarrow> do { f2 \<leftarrow> unref_node f1 q; name_unlinked f2 p }))"
  by pat_completeness auto
termination
  by (relation "measure (\<lambda>x. case x of
        Inl (f, p) \<Rightarrow> 3 * table_entries (name_table f) + 2
      | Inr (Inl (f, p)) \<Rightarrow> 3 * table_entries (name_table f) + 1
      | Inr (Inr (f, p)) \<Rightarrow> 3 * table_entries (name_table f))")
    (auto simp: put_node_def dest!: name_unlink_entries)

declare unref_node.simps [simp del] delete_node.simps [simp del] unhash_name.simps [simp del]

section \<open>Finding and creating nodes\<close>

text \<open>
  The search for an unused id: it does not return (\<open>None\<close>) when all ids are taken.
\<close>

partial_function (option) next_id :: "fuse \<Rightarrow> (fuse_ino \<times> fuse) option" where
  "next_id f =
     (let c = (ctr f + 1) AND 0xffffffff;
          f1 = f\<lparr>ctr := c, f_generation := (if c = 0 then f_generation f + 1 else f_generation f)\<rparr>
      in if c = 0 \<or> c = FUSE_UNKNOWN_INO \<or> get_node_nocheck f1 c \<noteq> None
         then next_id f1 else Some (c, f1))"

definition name_match :: "fuse \<Rightarrow> fuse_ino \<Rightarrow> string \<Rightarrow> ptr \<Rightarrow> bool" where
  "name_match f par name p =
     (case nodes f p of None \<Rightarrow> False | Some n \<Rightarrow>
        (case parent n of None \<Rightarrow> False | Some q \<Rightarrow>
           (case nodes f q of None \<Rightarrow> False | Some pn \<Rightarrow> nodeid pn = par \<and> n_name n = Some name)))"

definition lookup_node :: "fuse \<Rightarrow> fuse_ino \<Rightarrow> string \<Rightarrow> ptr option" where
  "lookup_node f par name = table_find (name_hash f par name) (name_match f par name) (name_table f)"

definition inc_nlookup :: "node \<Rightarrow> node" where
  "inc_nlookup n =
     (let n1 = (if nlookup n = 0 then n\<lparr>refctr := refctr n + 1\<rparr> else n)
      in n1\<lparr>nlookup := nlookup n1 + 1\<rparr>)"

text \<open>
  \<open>find_node\<close> returns the node (and its address) for a child name, or for the node id itself
  when the name is null; a missing node is created. The result \<open>None\<close> inside the pair is
  the null pointer returned when memory is short.
\<close>

definition find_node :: "fuse \<Rightarrow> fuse_ino \<Rightarrow> string option \<Rightarrow> (ptr option \<times> fuse) option" where
  "find_node f par name_opt =
     (case (case name_opt of
              None \<Rightarrow> map_option Some (get_node f par)
            | Some name \<Rightarrow> Some (lookup_node f par name)) of
        None \<Rightarrow> None
      | Some None \<Rightarrow>
          (case alloc_node f of
             (None, f1) \<Rightarrow> Some (None, f1)
           | (Some p, f1) \<Rightarrow> do {
               name \<leftarrow> name_opt;
               (ino, f2) \<leftarrow> next_id f1;
               n \<leftarrow> nodes f2 p;
               let n1 = n\<lparr>nodeid := ino, n_generation := f_generation f2\<rparr>;
               let n2 = (if remember (conf f2) \<noteq> 0 then inc_nlookup n1 else n1);
               (res, f3) \<leftarrow> hash_name (put_node p n2 f2) p par name;
               if res = -1 then Some (None, free_node f3 p)
               else do {
                 f4 \<leftarrow> hash_id f3 p;
                 n4 \<leftarrow> nodes f4 p;
                 Some (Some p, put_node p (inc_nlookup n4) f4) } })
      | Some (Some p) \<Rightarrow> do {
          n \<leftarrow> nodes f p;
          let f1 = (if lru_enabled f \<and> nlookup n = 1 then remove_node_lru f p else f);
          Some (Some p, put_node p (inc_nlookup n) f1) })"

text \<open>\<open>strtok_r\<close> with the delimiter \<open>/\<close>: the maximal runs of other characters.\<close>

fun path_elements_aux :: "string \<Rightarrow> string \<Rightarrow> string list" where
  "path_elements_aux acc [] = (if acc = [] then [] else [rev acc])"
| "path_elements_aux acc (c # cs) =
     (if c = CHR ''/'' then (if acc = [] then path_elements_aux [] cs
                             else rev acc # path_elements_aux [] cs)
      else path_elements_aux (c # acc) cs)"

definition path_elements :: "string \<Rightarrow> string list" where
  "path_elements path = path_elements_aux [] path"

fun walk_elements :: "fuse \<Rightarrow> fuse_ino \<Rightarrow> string list \<Rightarrow> (int \<times> fuse_ino) option" where
  "walk_elements f ino [] = Some (0, ino)"
| "walk_elements f ino (e # es) =
     (case lookup_node f ino e of
        None \<Rightarrow> Some (- ENOENT, ino)
      | Some p \<Rightarrow> do { n \<leftarrow> nodes f p; walk_elements f (nodeid n) es })"

definition lookup_path_in_cache :: "fuse \<Rightarrow> string \<Rightarrow> ((int \<times> fuse_ino option) \<times> fuse) option" where
  "lookup_path_in_cache f path =
     (case alloc_pop (allocs f) of
        (False, a) \<Rightarrow> Some ((- ENOMEM, None), f\<lparr>allocs := a\<rparr>)
      | (True, a) \<Rightarrow> do {
          (err, ino) \<leftarrow> walk_elements f FUSE_ROOT_ID (path_elements path);
          Some ((err, if err = 0 then Some ino else None), f\<lparr>allocs := a\<rparr>) })"

section \<open>Forgetting, unlinking and renaming\<close>

text \<open>
  \<open>forget_node\<close> waits while the last lookup would be dropped from a locked node; then the
  result is \<open>(False, f)\<close> with the waiter queued. \<open>(True, f)\<close> is completion.
\<close>

definition blank_qe :: "nat \<Rightarrow> fuse_ino \<Rightarrow> lock_queue_element" where
  "blank_qe i ino = \<lparr>qe_id = i, nodeid1 = ino, name1 = None, wants_path1 = False, out_path1 = None,
     wants_node1 = False, out_node1 = None, nodeid2 = 0, name2 = None, wants_path2 = False,
     out_path2 = None, wants_node2 = False, out_node2 = None, qe_err = 0, qe_done = False,
     signalled = False\<rparr>"

definition queue_path :: "fuse \<Rightarrow> lock_queue_element \<Rightarrow> fuse" where
  "queue_path f qe = f\<lparr>lockq := lockq f @ [qe\<lparr>qe_done := False, signalled := False\<rparr>]\<rparr>"

definition forget_finish :: "fuse \<Rightarrow> ptr \<Rightarrow> nat \<Rightarrow> fuse option" where
  "forget_finish f p n_forget = do {
     n \<leftarrow> nodes f p;
     if nlookup n < n_forget then None
     else let f1 = put_node p (n\<lparr>nlookup := nlookup n - n_forget\<rparr>) f
          in if nlookup n - n_forget = 0 then unref_node f1 p
             else if lru_enabled f1 \<and> nlookup n - n_forget = 1 then set_forget_time f1 p
             else Some f1 }"

definition forget_node :: "nat \<Rightarrow> fuse \<Rightarrow> fuse_ino \<Rightarrow> nat \<Rightarrow> (bool \<times> fuse) option" where
  "forget_node i f ino n_forget =
     (if ino = FUSE_ROOT_ID then Some (True, f)
      else do {
        p \<leftarrow> get_node f ino;
        n \<leftarrow> nodes f p;
        if nlookup n = n_forget \<and> treelock n \<noteq> 0
        then Some (False, queue_path f (blank_qe i ino))
        else do { f1 \<leftarrow> forget_finish f p n_forget; Some (True, f1) } })"

definition unlink_node :: "fuse \<Rightarrow> ptr \<Rightarrow> fuse option" where
  "unlink_node f p = do {
     n \<leftarrow> nodes f p;
     if remember (conf f) \<noteq> 0
     then (if nlookup n > 1 then unhash_name (put_node p (n\<lparr>nlookup := nlookup n - 1\<rparr>) f) p else None)
     else unhash_name f p }"

definition remove_node :: "fuse \<Rightarrow> fuse_ino \<Rightarrow> string \<Rightarrow> fuse option" where
  "remove_node f dir name =
     (case lookup_node f dir name of None \<Rightarrow> Some f | Some p \<Rightarrow> unlink_node f p)"

definition rename_node :: "fuse \<Rightarrow> fuse_ino \<Rightarrow> string \<Rightarrow> fuse_ino \<Rightarrow> string \<Rightarrow> bool \<Rightarrow> (int \<times> fuse) option" where
  "rename_node f olddir oldname newdir newname hide =
     (let node_opt = lookup_node f olddir oldname; newnode_opt = lookup_node f newdir newname
      in case node_opt of
           None \<Rightarrow> Some (0, f)
         | Some p \<Rightarrow>
             if newnode_opt \<noteq> None \<and> hide then Some (- EBUSY, f)
             else do {
               f1 \<leftarrow> (case newnode_opt of None \<Rightarrow> Some f | Some q \<Rightarrow> unlink_node f q);
               f2 \<leftarrow> unhash_name f1 p;
               (res, f3) \<leftarrow> hash_name f2 p newdir newname;
               if res = -1 then Some (- ENOMEM, f3)
               else if hide then do {
                 n \<leftarrow> nodes f3 p;
                 Some (0, put_node p (n\<lparr>is_hidden := True\<rparr>) f3) }
               else Some (0, f3) })"

definition exchange_node :: "fuse \<Rightarrow> fuse_ino \<Rightarrow> string \<Rightarrow> fuse_ino \<Rightarrow> string \<Rightarrow> (int \<times> fuse) option" where
  "exchange_node f olddir oldname newdir newname = do {
     let old_opt = lookup_node f olddir oldname;
     let new_opt = lookup_node f newdir newname;
     f1 \<leftarrow> (case old_opt of None \<Rightarrow> Some f | Some p \<Rightarrow> unhash_name f p);
     f2 \<leftarrow> (case new_opt of None \<Rightarrow> Some f1 | Some q \<Rightarrow> unhash_name f1 q);
     (r1, f3) \<leftarrow> (case old_opt of None \<Rightarrow> Some (0, f2) | Some p \<Rightarrow> hash_name f2 p newdir newname);
     if r1 = -1 then Some (- ENOMEM, f3)
     else do {
       (r2, f4) \<leftarrow> (case new_opt of None \<Rightarrow> Some (0, f3) | Some q \<Rightarrow> hash_name f3 q olddir oldname);
       if r2 = -1 then Some (- ENOMEM, f4) else Some (0, f4) } }"

end
