(* ===== verification/Node_Refs.thy ===== *)
theory Node_Refs
  imports Fuse_State
begin

text \<open>
  The invariant of the node store and its preservation by reference counting. A node lives
  exactly as long as it is referenced: by a lookup of the kernel, or by a child linked in
  the name table. The recursion of \<open>unref_node\<close>, \<open>delete_node\<close> and \<open>unhash_name\<close> passes
  through states that break this, so the invariant \<open>ninv\<close> is stated for the intermediate
  states too: \<open>P\<close> is the set of nodes taken off the name table that still carry their name,
  \<open>d\<close> the number of table decrements still due, \<open>r\<close> the references about to be dropped.
  \<open>rank\<close> orders the tree: a linked node is ranked above its parent, which excludes cycles.
\<close>

section \<open>The invariant\<close>

definition par :: "(ptr \<rightharpoonup> node) \<Rightarrow> ptr \<Rightarrow> ptr option" where
  "par ns c = Option.bind (ns c) parent"

definition children :: "(ptr \<rightharpoonup> node) \<Rightarrow> ptr set \<Rightarrow> ptr \<Rightarrow> ptr set" where
  "children ns H p = {c \<in> H. par ns c = Some p}"

definition refs :: "(ptr \<rightharpoonup> node) \<Rightarrow> ptr set \<Rightarrow> ptr \<Rightarrow> node \<Rightarrow> int" where
  "refs ns H p n = (if nlookup n > 0 then 1 else 0) + int (card (children ns H p))"

definition linked_ok :: "(ptr \<rightharpoonup> node) \<Rightarrow> ptr set \<Rightarrow> bool" where
  "linked_ok ns H \<longleftrightarrow> (\<forall>p\<in>H. \<exists>n q nm. ns p = Some n \<and> n_name n = Some nm \<and> parent n = Some q \<and>
     ns q \<noteq> None \<and> nodeid n \<noteq> FUSE_ROOT_ID)"

definition refs_ok :: "(ptr \<rightharpoonup> node) \<Rightarrow> ptr set \<Rightarrow> (ptr \<Rightarrow> int) \<Rightarrow> bool" where
  "refs_ok ns H r \<longleftrightarrow> (\<forall>p n. ns p = Some n \<longrightarrow> refctr n = refs ns H p n + r p)"

definition ids_unique :: "(ptr \<rightharpoonup> node) \<Rightarrow> bool" where
  "ids_unique ns \<longleftrightarrow> (\<forall>p q n m. ns p = Some n \<longrightarrow> ns q = Some m \<longrightarrow> nodeid n = nodeid m \<longrightarrow> p = q)"

definition names_unique :: "(ptr \<rightharpoonup> node) \<Rightarrow> ptr set \<Rightarrow> bool" where
  "names_unique ns H \<longleftrightarrow> (\<forall>p\<in>H. \<forall>q\<in>H. par ns p = par ns q \<longrightarrow>
     map_option n_name (ns p) = map_option n_name (ns q) \<longrightarrow> p = q)"

definition root_ok :: "(ptr \<rightharpoonup> node) \<Rightarrow> bool" where
  "root_ok ns \<longleftrightarrow> (\<exists>p n. ns p = Some n \<and> nodeid n = FUSE_ROOT_ID \<and> nlookup n > 0)"

definition unnamed_ok :: "(ptr \<rightharpoonup> node) \<Rightarrow> ptr set \<Rightarrow> ptr set \<Rightarrow> bool" where
  "unnamed_ok ns H P \<longleftrightarrow> (\<forall>p n. ns p = Some n \<longrightarrow> p \<notin> H \<longrightarrow> p \<notin> P \<longrightarrow> nodeid n \<noteq> FUSE_ROOT_ID \<longrightarrow>
     n_name n = None \<and> parent n = None)"

definition root_kept :: "(ptr \<rightharpoonup> node) \<Rightarrow> bool" where
  "root_kept ns \<longleftrightarrow> (\<forall>p n. ns p = Some n \<longrightarrow> nodeid n = FUSE_ROOT_ID \<longrightarrow> nlookup n > 0)"

definition ranked :: "(ptr \<rightharpoonup> node) \<Rightarrow> ptr set \<Rightarrow> (ptr \<Rightarrow> nat) \<Rightarrow> bool" where
  "ranked ns H rank \<longleftrightarrow> (\<forall>c\<in>H. \<forall>q. par ns c = Some q \<longrightarrow> rank q < rank c)"

text \<open>Locked nodes are looked up: the kernel holds a lookup on every node of a path it uses.\<close>

definition pinned :: "(ptr \<rightharpoonup> node) \<Rightarrow> bool" where
  "pinned ns \<longleftrightarrow> (\<forall>p n. ns p = Some n \<longrightarrow> treelock n \<noteq> 0 \<longrightarrow> nlookup n > 0)"

definition store_inv :: "(ptr \<rightharpoonup> node) \<Rightarrow> ptr set \<Rightarrow> ptr set \<Rightarrow> (ptr \<Rightarrow> int) \<Rightarrow> (ptr \<Rightarrow> nat) \<Rightarrow> bool" where
  "store_inv ns H P r rank \<longleftrightarrow> linked_ok ns H \<and> refs_ok ns H r \<and> ids_unique ns \<and>
     names_unique ns H \<and> root_ok ns \<and> root_kept ns \<and> unnamed_ok ns H P \<and> ranked ns H rank \<and>
     pinned ns"

definition ninv :: "fuse \<Rightarrow> ptr set \<Rightarrow> ptr set \<Rightarrow> nat \<Rightarrow> (ptr \<Rightarrow> int) \<Rightarrow> (ptr \<Rightarrow> nat) \<Rightarrow> bool" where
  "ninv f H P d r rank \<longleftrightarrow>
     table_inv (id_key (nodes f)) (dom (nodes f)) 0 (id_table f) \<and>
     table_inv (name_key (nodes f)) H d (name_table f) \<and>
     store_inv (nodes f) H P r rank \<and>
     (\<forall>p\<in>dom (nodes f). p < next_ptr f)"

definition alive :: "(ptr \<rightharpoonup> node) \<Rightarrow> ptr set \<Rightarrow> bool" where
  "alive ns X \<longleftrightarrow> (\<forall>p n. ns p = Some n \<longrightarrow> p \<notin> X \<longrightarrow> refctr n > 0)"

lemmas store_defs = store_inv_def linked_ok_def refs_ok_def ids_unique_def names_unique_def
  root_ok_def root_kept_def unnamed_ok_def ranked_def pinned_def

lemma linkedE:
  assumes "store_inv ns H P r rank" "p \<in> H"
  obtains n q nm m where "ns p = Some n" "n_name n = Some nm" "parent n = Some q" "ns q = Some m"
    "nodeid n \<noteq> FUSE_ROOT_ID" "par ns p = Some q" "rank q < rank p"
proof -
  obtain n q nm where "ns p = Some n" "n_name n = Some nm" "parent n = Some q" "ns q \<noteq> None"
    "nodeid n \<noteq> FUSE_ROOT_ID"
    using assms unfolding store_inv_def linked_ok_def by blast
  moreover from this have "par ns p = Some q" by (simp add: par_def)
  moreover from this have "rank q < rank p"
    using assms unfolding store_inv_def ranked_def by blast
  ultimately show thesis using that by blast
qed

lemma nodes_put_node [simp]: "nodes (put_node p n f) = (nodes f)(p \<mapsto> n)"
  by (simp add: put_node_def)

lemma put_node_simps [simp]:
  "name_table (put_node p n f) = name_table f" "id_table (put_node p n f) = id_table f"
  "lru_table (put_node p n f) = lru_table f" "ctr (put_node p n f) = ctr f"
  "f_generation (put_node p n f) = f_generation f" "hidectr (put_node p n f) = hidectr f"
  "conf (put_node p n f) = conf f" "lockq (put_node p n f) = lockq f"
  "next_ptr (put_node p n f) = next_ptr f" "allocs (put_node p n f) = allocs f"
  "clock (put_node p n f) = clock f"
  by (simp_all add: put_node_def)

lemma lru_enabled_put [simp]: "lru_enabled (put_node p n f) = lru_enabled f"
  by (simp add: lru_enabled_def)

section \<open>Changing one node\<close>

text \<open>
  A node may change every field but its id; if it is linked it keeps name and parent. Its
  reference count may be off by what \<open>r\<close> records.
\<close>

lemma children_put:
  assumes "ns p = Some n" "p \<in> H \<Longrightarrow> parent n' = parent n"
  shows "children (ns(p \<mapsto> n')) H = children ns H"
  using assms by (auto simp: children_def par_def fun_eq_iff)

lemma par_put:
  "p \<in> H \<Longrightarrow> (p = x \<Longrightarrow> parent n' = parent n) \<Longrightarrow> ns x = Some n \<Longrightarrow> par (ns(x \<mapsto> n')) p = par ns p"
  by (auto simp: par_def)

lemma store_inv_put:
  assumes inv: "store_inv ns H P r rank" and p: "ns p = Some n"
    and id: "nodeid n' = nodeid n"
    and keep: "p \<in> H \<Longrightarrow> n_name n' = n_name n \<and> parent n' = parent n"
    and P': "P \<subseteq> insert p P'"
    and unnamed: "p \<notin> H \<Longrightarrow> p \<notin> P' \<Longrightarrow> nodeid n \<noteq> FUSE_ROOT_ID \<Longrightarrow> n_name n' = None \<and> parent n' = None"
    and root: "nodeid n = FUSE_ROOT_ID \<Longrightarrow> nlookup n' > 0"
    and pin: "treelock n' \<noteq> 0 \<Longrightarrow> nlookup n' > 0"
    and r': "r' p = refctr n' - refs ns H p n'" "\<And>x. x \<noteq> p \<Longrightarrow> r' x = r x"
  shows "store_inv (ns(p \<mapsto> n')) H P' r' rank"
proof -
  have ch: "children (ns(p \<mapsto> n')) H = children ns H"
    using children_put [of ns p n H n'] p keep by blast
  have pr: "par (ns(p \<mapsto> n')) x = par ns x" if "x \<in> H" for x
    using that keep p by (auto simp: par_def)
  have nm: "map_option n_name ((ns(p \<mapsto> n')) x) = map_option n_name (ns x)" if "x \<in> H" for x
    using that keep p by auto
  have "linked_ok (ns(p \<mapsto> n')) H"
  proof -
    have "\<exists>n q nm. (ns(p \<mapsto> n')) x = Some n \<and> n_name n = Some nm \<and> parent n = Some q \<and>
      (ns(p \<mapsto> n')) q \<noteq> None \<and> nodeid n \<noteq> FUSE_ROOT_ID" if xH: "x \<in> H" for x
    proof -
      obtain m q nm where "ns x = Some m" "n_name m = Some nm" "parent m = Some q" "ns q \<noteq> None"
        "nodeid m \<noteq> FUSE_ROOT_ID"
        by (rule linkedE [OF inv xH]) auto
      with keep id p xH show ?thesis by (cases "x = p") auto
    qed
    then show ?thesis by (simp add: linked_ok_def)
  qed
  moreover have "refs_ok (ns(p \<mapsto> n')) H r'"
    using inv r' by (auto simp: store_defs refs_def ch)
  moreover have "ids_unique (ns(p \<mapsto> n'))"
    using inv p id unfolding store_inv_def ids_unique_def by (auto split: if_splits)
  moreover have "names_unique (ns(p \<mapsto> n')) H"
    using inv pr nm by (simp add: store_defs)
  moreover have "root_ok (ns(p \<mapsto> n'))"
  proof -
    obtain q m where "ns q = Some m" "nodeid m = FUSE_ROOT_ID" "nlookup m > 0"
      using inv unfolding store_inv_def root_ok_def by blast
    then have "\<exists>m. (ns(p \<mapsto> n')) q = Some m \<and> nodeid m = FUSE_ROOT_ID \<and> nlookup m > 0"
      using p id root by (cases "q = p") auto
    then show ?thesis unfolding root_ok_def by blast
  qed
  moreover have "root_kept (ns(p \<mapsto> n'))"
    using inv p id root by (auto simp: store_defs)
  moreover have "unnamed_ok (ns(p \<mapsto> n')) H P'"
    unfolding unnamed_ok_def
  proof (intro allI impI)
    fix x m
    assume x: "(ns(p \<mapsto> n')) x = Some m" "x \<notin> H" "x \<notin> P'" "nodeid m \<noteq> FUSE_ROOT_ID"
    show "n_name m = None \<and> parent m = None"
    proof (cases "x = p")
      case True
      with x unnamed id show ?thesis by simp
    next
      case False
      with x P' inv show ?thesis unfolding store_inv_def unnamed_ok_def by auto
    qed
  qed
  moreover have "ranked (ns(p \<mapsto> n')) H rank"
    using inv pr by (simp add: store_defs)
  moreover have "pinned (ns(p \<mapsto> n'))"
    using inv pin by (auto simp: store_defs)
  ultimately show ?thesis by (simp add: store_inv_def)
qed

lemma id_key_put:
  "ns p = Some n \<Longrightarrow> nodeid n' = nodeid n \<Longrightarrow> id_key (ns(p \<mapsto> n')) = id_key ns"
  by (rule ext) (simp add: id_key_def)

lemma name_key_put:
  assumes "ns p = Some n" "nodeid n' = nodeid n"
    "x = p \<Longrightarrow> n_name n' = n_name n \<and> parent n' = parent n"
  shows "name_key (ns(p \<mapsto> n')) x = name_key ns x"
  using assms by (auto simp: name_key_def split: option.splits)

lemma ninv_put:
  assumes inv: "ninv f H P d r rank" and p: "nodes f p = Some n"
    and id: "nodeid n' = nodeid n"
    and keep: "p \<in> H \<Longrightarrow> n_name n' = n_name n \<and> parent n' = parent n"
    and P': "P \<subseteq> insert p P'"
    and unnamed: "p \<notin> H \<Longrightarrow> p \<notin> P' \<Longrightarrow> nodeid n \<noteq> FUSE_ROOT_ID \<Longrightarrow> n_name n' = None \<and> parent n' = None"
    and root: "nodeid n = FUSE_ROOT_ID \<Longrightarrow> nlookup n' > 0"
    and pin: "treelock n' \<noteq> 0 \<Longrightarrow> nlookup n' > 0"
    and r': "r' p = refctr n' - refs (nodes f) H p n'" "\<And>x. x \<noteq> p \<Longrightarrow> r' x = r x"
  shows "ninv (put_node p n' f) H P' d r' rank"
proof -
  have "dom ((nodes f)(p \<mapsto> n')) = dom (nodes f)" using p by auto
  moreover have "table_inv (name_key ((nodes f)(p \<mapsto> n'))) H d (name_table f)"
  proof (rule table_inv_cong)
    show "table_inv (name_key (nodes f)) H d (name_table f)"
      using inv by (simp add: ninv_def)
    show "name_key (nodes f) x = name_key ((nodes f)(p \<mapsto> n')) x" if "x \<in> H" for x
      using name_key_put [of "nodes f" p n n' x] p id keep that by metis
  qed
  moreover have "store_inv ((nodes f)(p \<mapsto> n')) H P' r' rank"
    by (rule store_inv_put [where r = r, OF _ p id keep P' unnamed root pin r'])
      (use inv in \<open>auto simp: ninv_def\<close>)
  ultimately show ?thesis
    using inv by (simp add: ninv_def id_key_put [of "nodes f" p n n', OF p id])
qed

section \<open>The parts of the recursion\<close>

text \<open>The fields no node operation of the recursion writes.\<close>

definition rest_eq :: "fuse \<Rightarrow> fuse \<Rightarrow> bool" where
  "rest_eq f f' \<longleftrightarrow> ctr f' = ctr f \<and> f_generation f' = f_generation f \<and> hidectr f' = hidectr f \<and>
     conf f' = conf f \<and> lockq f' = lockq f \<and> next_ptr f' = next_ptr f \<and> clock f' = clock f"

lemma rest_eq_refl [simp]: "rest_eq f f"
  by (simp add: rest_eq_def)

lemma rest_eq_trans: "rest_eq f g \<Longrightarrow> rest_eq g h \<Longrightarrow> rest_eq f h"
  by (simp add: rest_eq_def)

lemma rest_eq_put [simp]: "rest_eq f (put_node p n f)"
  by (simp add: rest_eq_def)

lemma finite_linked: "ninv f H P d r rank \<Longrightarrow> finite H"
  by (auto simp: ninv_def table_inv_def)

lemma card_children_unlink:
  assumes "finite H" "p \<in> H" "par ns p = Some q"
  shows "int (card (children ns (H - {p}) x)) =
    int (card (children ns H x)) - (if x = q then 1 else 0)"
proof -
  have e: "children ns (H - {p}) x = children ns H x - {p}"
    by (auto simp: children_def)
  have fin: "finite (children ns H x)" using assms(1) by (simp add: children_def)
  show ?thesis
  proof (cases "x = q")
    case True
    then have "p \<in> children ns H x" using assms(2,3) by (simp add: children_def)
    then have "card (children ns H x) = Suc (card (children ns H x - {p}))"
      using card_Suc_Diff1 [OF fin] by metis
    with True show ?thesis unfolding e by simp
  next
    case False
    then have "p \<notin> children ns H x" using assms(3) by (simp add: children_def)
    with False show ?thesis unfolding e by simp
  qed
qed

lemma store_inv_unlink:
  assumes inv: "store_inv ns H P r rank" and fin: "finite H" and p: "p \<in> H" "par ns p = Some q"
  shows "store_inv ns (H - {p}) (insert p P) (r(q := r q + 1)) rank"
proof -
  have "refs_ok ns (H - {p}) (r(q := r q + 1))"
    using inv card_children_unlink [OF fin p] by (auto simp: store_defs refs_def)
  then show ?thesis using inv unfolding store_inv_def
    by (auto simp: linked_ok_def names_unique_def unnamed_ok_def ranked_def)
qed

lemma name_unlink_ninv:
  assumes inv: "ninv f H P d r rank" and p: "p \<in> H"
  obtains q t where "name_unlink f p = Some (q, f\<lparr>name_table := t\<rparr>)" "par (nodes f) p = Some q"
    "rank q < rank p" "nodes f q \<noteq> None"
    "ninv (f\<lparr>name_table := t\<rparr>) (H - {p}) (insert p P) (Suc d) (r(q := r q + 1)) rank"
proof -
  have si: "store_inv (nodes f) H P r rank" using inv by (simp add: ninv_def)
  obtain n q nm m where n: "nodes f p = Some n" "n_name n = Some nm" "parent n = Some q"
      "nodes f q = Some m" and q: "par (nodes f) p = Some q" "rank q < rank p"
    by (rule linkedE [OF si p])
  have key: "name_key (nodes f) p = name_hash_full (nodeid m) nm"
    using n by (simp add: name_key_def)
  obtain t where t: "table_unlink (bucket_of (name_table f) (name_key (nodes f) p)) p (name_table f) = Some t"
      "table_inv (name_key (nodes f)) (H - {p}) (Suc d) t"
    using ht.unlink_inv [of "name_key (nodes f)" H d "name_table f" p] inv p by (auto simp: ninv_def)
  then have "name_unlink f p = Some (q, f\<lparr>name_table := t\<rparr>)"
    using n key by (simp add: name_unlink_def name_hash_def)
  moreover have "ninv (f\<lparr>name_table := t\<rparr>) (H - {p}) (insert p P) (Suc d) (r(q := r q + 1)) rank"
    using inv t(2) store_inv_unlink [OF si finite_linked [OF inv] p q(1)] by (simp add: ninv_def)
  ultimately show thesis using that q n(4) by blast
qed

lemma remerge_name_ninv:
  assumes "ninv f H P d r rank"
  shows "ninv (remerge_name f) H P d r rank" "nodes (remerge_name f) = nodes f"
    "rest_eq f (remerge_name f)" "lru_table (remerge_name f) = lru_table f"
  using assms remerge_inv [of "name_key (nodes f)" H d "name_table f" "allocs f"]
  by (auto simp: remerge_name_def ninv_def rest_eq_def split: prod.splits)

lemma name_unlinked_ninv:
  assumes inv: "ninv f H (insert p P) (Suc d) r rank" and p: "nodes f p = Some n" "p \<notin> H"
    and pP: "p \<notin> P"
  obtains f' where "name_unlinked f p = Some f'" "ninv f' H P d r rank"
    "nodes f' = (nodes f)(p \<mapsto> n\<lparr>n_name := None, parent := None\<rparr>)" "rest_eq f f'"
    "lru_table f' = lru_table f"
proof -
  let ?n = "n\<lparr>n_name := None, parent := None\<rparr>"
  define f1 where "f1 = put_node p ?n f"
  define f2 where "f2 = f1\<lparr>name_table := (name_table f1)\<lparr>tab_use := tab_use (name_table f1) - 1\<rparr>\<rparr>"
  have si: "store_inv (nodes f) H (insert p P) r rank" using inv by (simp add: ninv_def)
  have "ninv f1 H P (Suc d) r rank"
    unfolding f1_def
    by (rule ninv_put [OF inv p(1)]) (use si p in \<open>auto simp: store_defs refs_def\<close>)
  then have i2: "ninv f2 H P d r rank"
    by (simp add: f2_def ninv_def table_inv_def)
  show thesis
    by (rule that [of "if tab_use (name_table f2) < tab_size (name_table f2) div 4 then remerge_name f2 else f2"])
      (use i2 remerge_name_ninv [OF i2] p in
        \<open>auto simp: name_unlinked_def f2_def f1_def Let_def rest_eq_def\<close>)
qed

lemma remerge_id_ninv:
  assumes "table_inv key S d (id_table f)"
  shows "table_inv key S d (id_table (remerge_id f))" "nodes (remerge_id f) = nodes f"
    "rest_eq f (remerge_id f)" "lru_table (remerge_id f) = lru_table f"
    "name_table (remerge_id f) = name_table f"
  using assms remerge_inv [of key S d "id_table f" "allocs f"]
  by (auto simp: remerge_id_def rest_eq_def split: prod.splits)

lemma unhash_id_spec:
  assumes inv: "table_inv (id_key (nodes f)) (dom (nodes f)) 0 (id_table f)" and p: "nodes f p = Some n"
  obtains f' where "unhash_id f p = Some f'" "nodes f' = nodes f" "rest_eq f f'"
    "lru_table f' = lru_table f" "name_table f' = name_table f"
    "table_inv (id_key (nodes f)) (dom (nodes f) - {p}) 0 (id_table f')"
proof -
  have key: "id_key (nodes f) p = id_hash_full (nodeid n)" using p by (simp add: id_key_def)
  obtain t where t: "table_unlink (id_hash f (nodeid n)) p (id_table f) = Some t"
      "table_inv (id_key (nodes f)) (dom (nodes f) - {p}) (Suc 0) t"
    using ht.unlink_inv [OF inv, of p] p key by (auto simp: id_hash_def)
  define f1 where "f1 = f\<lparr>id_table := t\<lparr>tab_use := tab_use t - 1\<rparr>\<rparr>"
  have i1: "table_inv (id_key (nodes f)) (dom (nodes f) - {p}) 0 (id_table f1)"
    using t(2) by (simp add: f1_def table_inv_def)
  show thesis
    by (rule that [of "if tab_use (id_table f1) < tab_size (id_table f1) div 4 then remerge_id f1 else f1"])
      (use i1 remerge_id_ninv [OF i1] p t in
        \<open>auto simp: unhash_id_def f1_def Let_def rest_eq_def\<close>)
qed

lemma store_inv_free:
  assumes inv: "store_inv ns H P r rank" and p: "ns p = Some n" "p \<notin> H"
    and no: "children ns H p = {}" "nlookup n = 0"
  shows "store_inv (ns(p := None)) H P r rank"
proof -
  have pr: "par (ns(p := None)) x = par ns x" if "x \<in> H" for x
    using that p(2) by (auto simp: par_def)
  have ch: "children (ns(p := None)) H = children ns H"
    using pr by (auto simp: children_def fun_eq_iff)
  have "linked_ok (ns(p := None)) H"
    unfolding linked_ok_def
  proof
    fix x assume x: "x \<in> H"
    obtain m q nm k where "ns x = Some m" "n_name m = Some nm" "parent m = Some q" "ns q = Some k"
        "nodeid m \<noteq> FUSE_ROOT_ID" and q: "par ns x = Some q"
      by (rule linkedE [OF inv x])
    moreover have "q \<noteq> p" using no(1) x q by (auto simp: children_def)
    moreover have "x \<noteq> p" using x p by blast
    ultimately show "\<exists>n q nm. (ns(p := None)) x = Some n \<and> n_name n = Some nm \<and> parent n = Some q \<and>
      (ns(p := None)) q \<noteq> None \<and> nodeid n \<noteq> FUSE_ROOT_ID" by simp
  qed
  moreover have "refs_ok (ns(p := None)) H r"
    using inv by (auto simp: store_defs refs_def ch)
  moreover have "names_unique (ns(p := None)) H"
    unfolding names_unique_def
  proof (intro ballI impI)
    fix x y assume xy: "x \<in> H" "y \<in> H" "par (ns(p := None)) x = par (ns(p := None)) y"
      "map_option n_name ((ns(p := None)) x) = map_option n_name ((ns(p := None)) y)"
    moreover have "x \<noteq> p" "y \<noteq> p" using xy p by auto
    ultimately show "x = y" using inv pr by (simp add: store_inv_def names_unique_def)
  qed
  moreover have "root_ok (ns(p := None))"
    using inv p no(2) unfolding store_inv_def root_ok_def
    by (metis fun_upd_apply less_irrefl option.inject)
  moreover have "ids_unique (ns(p := None))" "root_kept (ns(p := None))" "unnamed_ok (ns(p := None)) H P"
    "pinned (ns(p := None))"
    using inv unfolding store_inv_def ids_unique_def root_kept_def unnamed_ok_def pinned_def
    by (auto split: if_splits)
  moreover have "ranked (ns(p := None)) H rank"
    using inv pr by (simp add: store_inv_def ranked_def)
  ultimately show ?thesis by (simp add: store_inv_def)
qed

lemma release_id_ninv:
  assumes inv: "ninv f H P d r rank" and p: "nodes f p = Some n" "p \<notin> H"
    and no: "children (nodes f) H p = {}" "nlookup n = 0"
  obtains f' where "unhash_id f p = Some f'" "ninv (free_node f' p) H P d r rank"
    "nodes (free_node f' p) = (nodes f)(p := None)" "rest_eq f (free_node f' p)"
    "lru_table (free_node f' p) = lru_table f"
proof -
  have ti: "table_inv (id_key (nodes f)) (dom (nodes f)) 0 (id_table f)"
    and tn: "table_inv (name_key (nodes f)) H d (name_table f)"
    and si: "store_inv (nodes f) H P r rank"
    using inv by (auto simp: ninv_def)
  obtain f' where f': "unhash_id f p = Some f'" "nodes f' = nodes f" "rest_eq f f'"
    "lru_table f' = lru_table f" "name_table f' = name_table f"
    "table_inv (id_key (nodes f)) (dom (nodes f) - {p}) 0 (id_table f')"
    by (rule unhash_id_spec [OF ti p(1)])
  have "table_inv (name_key ((nodes f)(p := None))) H d (name_table f)"
  proof (rule table_inv_cong [OF _ tn])
    fix x assume x: "x \<in> H"
    obtain q where q: "par (nodes f) x = Some q" by (rule linkedE [OF si x])
    then have "q \<noteq> p" "x \<noteq> p" using no(1) x p by (auto simp: children_def)
    with q show "name_key (nodes f) x = name_key ((nodes f)(p := None)) x"
      by (auto simp: name_key_def par_def bind_eq_Some_conv split: option.splits)
  qed
  moreover have "table_inv (id_key ((nodes f)(p := None))) (dom (nodes f) - {p}) 0 (id_table f')"
    by (rule table_inv_cong [OF _ f'(6)]) (auto simp: id_key_def)
  ultimately have "ninv (free_node f' p) H P d r rank"
    using inv f' store_inv_free [OF si p no] by (auto simp: ninv_def free_node_def rest_eq_def)
  then show thesis using that [OF f'(1)] f' by (simp add: free_node_def rest_eq_def)
qed

section \<open>The recursion keeps the invariant\<close>

definition survives :: "(ptr \<rightharpoonup> node) \<Rightarrow> (ptr \<rightharpoonup> node) \<Rightarrow> ptr \<Rightarrow> bool" where
  "survives ns ns' x \<longleftrightarrow>
     (ns' x = None \<or> (\<exists>n k. ns x = Some n \<and> ns' x = Some (n\<lparr>refctr := k\<rparr>))) \<and>
     (\<forall>n. ns x = Some n \<longrightarrow> nlookup n > 0 \<longrightarrow> ns' x \<noteq> None)"

definition released :: "fuse \<Rightarrow> fuse \<Rightarrow> ptr set \<Rightarrow> ptr set \<Rightarrow> nat \<Rightarrow> (ptr \<Rightarrow> int) \<Rightarrow> (ptr \<Rightarrow> nat) \<Rightarrow> ptr set \<Rightarrow> bool" where
  "released f f' H P d r rank X \<longleftrightarrow>
     ninv f' (H \<inter> dom (nodes f')) P d r rank \<and> alive (nodes f') X \<and> rest_eq f f' \<and>
     set (lru_table f') \<subseteq> set (lru_table f)"

definition unref_spec :: "fuse \<Rightarrow> ptr \<Rightarrow> bool" where
  "unref_spec f p \<longleftrightarrow> (\<forall>H P d r rank X.
     ninv f H P d (r(p := r p + 1)) rank \<longrightarrow> (\<forall>x. 0 \<le> r x) \<longrightarrow> alive (nodes f) X \<longrightarrow>
     nodes f p \<noteq> None \<longrightarrow> p \<notin> P \<longrightarrow> p \<notin> X \<longrightarrow> (\<forall>x\<in>P \<union> X. rank p < rank x) \<longrightarrow>
     (\<exists>f'. unref_node f p = Some f' \<and> released f f' H P d r rank X \<and>
        (\<forall>x. survives (nodes f) (nodes f') x) \<and>
        (\<forall>x. rank p < rank x \<longrightarrow> nodes f' x = nodes f x)))"

definition delete_spec :: "fuse \<Rightarrow> ptr \<Rightarrow> bool" where
  "delete_spec f p \<longleftrightarrow> (\<forall>H P d r rank X n.
     ninv f H P d r rank \<longrightarrow> (\<forall>x. 0 \<le> r x) \<longrightarrow> alive (nodes f) (insert p X) \<longrightarrow>
     nodes f p = Some n \<longrightarrow> refctr n = 0 \<longrightarrow> p \<notin> P \<longrightarrow> p \<notin> X \<longrightarrow> (\<forall>x\<in>P \<union> X. rank p < rank x) \<longrightarrow>
     (\<exists>f'. delete_node f p = Some f' \<and> released f f' H P d r rank X \<and> nodes f' p = None \<and>
        (\<forall>x. x \<noteq> p \<longrightarrow> survives (nodes f) (nodes f') x) \<and>
        (\<forall>x. rank p < rank x \<longrightarrow> nodes f' x = nodes f x)))"

definition unhash_spec :: "fuse \<Rightarrow> ptr \<Rightarrow> bool" where
  "unhash_spec f p \<longleftrightarrow> (\<forall>H P d r rank X n.
     ninv f H P d r rank \<longrightarrow> (\<forall>x. 0 \<le> r x) \<longrightarrow> alive (nodes f) X \<longrightarrow>
     nodes f p = Some n \<longrightarrow> nodeid n \<noteq> FUSE_ROOT_ID \<longrightarrow> p \<notin> P \<longrightarrow>
     (\<forall>x\<in>P. rank p < rank x) \<longrightarrow> (\<forall>x\<in>X. rank p \<le> rank x) \<longrightarrow>
     (\<exists>f'. unhash_name f p = Some f' \<and> released f f' (H - {p}) P d r rank X \<and>
        nodes f' p = Some (n\<lparr>n_name := None, parent := None\<rparr>) \<and>
        (\<forall>x. x \<noteq> p \<longrightarrow> survives (nodes f) (nodes f') x) \<and>
        (\<forall>x. rank p \<le> rank x \<longrightarrow> x \<noteq> p \<longrightarrow> nodes f' x = nodes f x)))"

lemma unref_specE:
  assumes "unref_spec f p" "ninv f H P d (r(p := r p + 1)) rank" "\<forall>x. 0 \<le> r x" "alive (nodes f) X"
    "nodes f p \<noteq> None" "p \<notin> P" "p \<notin> X" "\<forall>x\<in>P \<union> X. rank p < rank x"
  obtains f' where "unref_node f p = Some f'" "released f f' H P d r rank X"
    "\<And>x. survives (nodes f) (nodes f') x" "\<And>x. rank p < rank x \<Longrightarrow> nodes f' x = nodes f x"
  using assms(1) [unfolded unref_spec_def, THEN spec, THEN spec, THEN spec, THEN spec, THEN spec, THEN spec,
      THEN mp, THEN mp, THEN mp, THEN mp, THEN mp, THEN mp, THEN mp, OF assms(2-8)] that by blast

lemma delete_specE:
  assumes "delete_spec f p" "ninv f H P d r rank" "\<forall>x. 0 \<le> r x" "alive (nodes f) (insert p X)"
    "nodes f p = Some n" "refctr n = 0" "p \<notin> P" "p \<notin> X" "\<forall>x\<in>P \<union> X. rank p < rank x"
  obtains f' where "delete_node f p = Some f'" "released f f' H P d r rank X" "nodes f' p = None"
    "\<And>x. x \<noteq> p \<Longrightarrow> survives (nodes f) (nodes f') x" "\<And>x. rank p < rank x \<Longrightarrow> nodes f' x = nodes f x"
  using assms(1) [unfolded delete_spec_def, THEN spec, THEN spec, THEN spec, THEN spec, THEN spec, THEN spec,
      THEN spec, THEN mp, THEN mp, THEN mp, THEN mp, THEN mp, THEN mp, THEN mp, THEN mp, OF assms(2-9)] that
  by blast

lemma unhash_specE:
  assumes "unhash_spec f p" "ninv f H P d r rank" "\<forall>x. 0 \<le> r x" "alive (nodes f) X"
    "nodes f p = Some n" "nodeid n \<noteq> FUSE_ROOT_ID" "p \<notin> P" "\<forall>x\<in>P. rank p < rank x"
    "\<forall>x\<in>X. rank p \<le> rank x"
  obtains f' where "unhash_name f p = Some f'" "released f f' (H - {p}) P d r rank X"
    "nodes f' p = Some (n\<lparr>n_name := None, parent := None\<rparr>)"
    "\<And>x. x \<noteq> p \<Longrightarrow> survives (nodes f) (nodes f') x"
    "\<And>x. rank p \<le> rank x \<Longrightarrow> x \<noteq> p \<Longrightarrow> nodes f' x = nodes f x"
  using assms(1) [unfolded unhash_spec_def, THEN spec, THEN spec, THEN spec, THEN spec, THEN spec, THEN spec,
      THEN spec, THEN mp, THEN mp, THEN mp, THEN mp, THEN mp, THEN mp, THEN mp, THEN mp, OF assms(2-9)] that
  by blast

lemma survives_same: "ns' x = ns x \<Longrightarrow> survives ns ns' x"
proof -
  have "\<exists>k. n = n\<lparr>refctr := k\<rparr>" for n :: node by (rule exI [of _ "refctr n"]) simp
  then show "ns' x = ns x \<Longrightarrow> survives ns ns' x" by (cases "ns x") (auto simp: survives_def)
qed

lemma zero_refs:
  assumes inv: "ninv f H P d r rank" and n: "nodes f p = Some n" "refctr n = 0" and r: "0 \<le> r p"
  shows "nlookup n = 0" "children (nodes f) H p = {}" "treelock n = 0" "nodeid n \<noteq> FUSE_ROOT_ID"
proof -
  have si: "store_inv (nodes f) H P r rank" using inv by (simp add: ninv_def)
  then have e: "refs (nodes f) H p n + r p = 0"
    using n unfolding store_inv_def refs_ok_def by auto
  have fin: "finite (children (nodes f) H p)"
    using finite_linked [OF inv] by (simp add: children_def)
  from e r show z: "nlookup n = 0" by (auto simp: refs_def split: if_splits)
  from e r z have "card (children (nodes f) H p) = 0" by (auto simp: refs_def)
  with fin show "children (nodes f) H p = {}" by simp
  from z n si show "treelock n = 0" "nodeid n \<noteq> FUSE_ROOT_ID"
    unfolding store_inv_def pinned_def root_kept_def by fastforce+
qed

lemma unref_step:
  assumes IH: "\<And>n f1. nodes f p = Some n \<Longrightarrow> f1 = put_node p (n\<lparr>refctr := refctr n - 1\<rparr>) f \<Longrightarrow>
      refctr n - 1 = 0 \<Longrightarrow> delete_spec f1 p"
  shows "unref_spec f p"
  unfolding unref_spec_def
proof (intro allI impI)
  fix H P d r rank X
  assume inv: "ninv f H P d (r(p := r p + 1)) rank" and r: "\<forall>x. 0 \<le> r x" and al: "alive (nodes f) X"
    and pn: "nodes f p \<noteq> None" and pP: "p \<notin> P" and pX: "p \<notin> X" and rk: "\<forall>x\<in>P \<union> X. rank p < rank x"
  obtain n where n: "nodes f p = Some n" using pn by blast
  let ?n = "n\<lparr>refctr := refctr n - 1\<rparr>"
  define f1 where "f1 = put_node p ?n f"
  have si: "store_inv (nodes f) H P (r(p := r p + 1)) rank" using inv by (simp add: ninv_def)
  have pos: "refctr n > 0" using al n pX by (auto simp: alive_def)
  have i1: "ninv f1 H P d r rank"
    unfolding f1_def
    by (rule ninv_put [OF inv n]) (use si n pP in \<open>auto simp: store_defs refs_def\<close>)
  have sv: "survives (nodes f) (nodes f1) x" for x
  proof (cases "x = p")
    case True
    with n show ?thesis by (auto simp: f1_def survives_def)
  next
    case False
    then show ?thesis by (intro survives_same) (simp add: f1_def)
  qed
  show "\<exists>f'. unref_node f p = Some f' \<and> released f f' H P d r rank X \<and>
    (\<forall>x. survives (nodes f) (nodes f') x) \<and> (\<forall>x. rank p < rank x \<longrightarrow> nodes f' x = nodes f x)"
  proof (cases "refctr n - 1 = 0")
    case False
    have "unref_node f p = Some f1"
      using n pos False by (simp add: unref_node.simps f1_def Let_def)
    moreover have "alive (nodes f1) X"
      using al pos False by (auto simp: alive_def f1_def)
    moreover have "H \<inter> dom (nodes f1) = H"
      using i1 unfolding ninv_def store_inv_def linked_ok_def by blast
    ultimately show ?thesis
      using i1 sv n by (auto simp: released_def f1_def rest_eq_def)
  next
    case True
    from IH [OF n f1_def True] have ds: "delete_spec f1 p" .
    have n1: "nodes f1 p = Some ?n" by (simp add: f1_def)
    have al1: "alive (nodes f1) (insert p X)" using al by (auto simp: alive_def f1_def)
    obtain f' where f': "delete_node f1 p = Some f'" "released f1 f' H P d r rank X"
        "nodes f' p = None" "\<And>x. x \<noteq> p \<Longrightarrow> survives (nodes f1) (nodes f') x"
        "\<And>x. rank p < rank x \<Longrightarrow> nodes f' x = nodes f1 x"
      by (rule delete_specE [OF ds i1 r al1 n1 _ pP pX rk]) (use True in auto)
    have ne: "nodes f1 x = nodes f x" if "x \<noteq> p" for x using that by (simp add: f1_def)
    have "unref_node f p = Some f'"
      using n pos True f'(1) by (simp add: unref_node.simps f1_def Let_def)
    moreover have "released f f' H P d r rank X"
      using f'(2) by (auto simp: released_def rest_eq_def f1_def)
    moreover have "nlookup n = 0"
      using zero_refs(1) [OF i1 n1] True r by simp
    then have "survives (nodes f) (nodes f') x" for x
      using f'(3,4) ne n by (cases "x = p") (auto simp: survives_def)
    moreover have "nodes f' x = nodes f x" if "rank p < rank x" for x
      using f'(5) [OF that] ne [of x] that by (cases "x = p") auto
    ultimately show ?thesis by auto
  qed
qed

lemma delete_step:
  assumes IH: "\<And>n. nodes f p = Some n \<Longrightarrow> \<not> treelock n \<noteq> 0 \<Longrightarrow> unhash_spec f p"
  shows "delete_spec f p"
  unfolding delete_spec_def
proof (intro allI impI)
  fix H P d r rank X n
  assume inv: "ninv f H P d r rank" and r: "\<forall>x. 0 \<le> r x" and al: "alive (nodes f) (insert p X)"
    and n: "nodes f p = Some n" "refctr n = 0" and pP: "p \<notin> P" and pX: "p \<notin> X"
    and rk: "\<forall>x\<in>P \<union> X. rank p < rank x"
  note z = zero_refs [OF inv n r [rule_format]]
  have us: "unhash_spec f p" by (rule IH [OF n(1)]) (simp add: z)
  obtain f1 where f1: "unhash_name f p = Some f1" "released f f1 (H - {p}) P d r rank (insert p X)"
    "nodes f1 p = Some (n\<lparr>n_name := None, parent := None\<rparr>)"
    "\<And>x. x \<noteq> p \<Longrightarrow> survives (nodes f) (nodes f1) x"
    "\<And>x. rank p \<le> rank x \<Longrightarrow> x \<noteq> p \<Longrightarrow> nodes f1 x = nodes f x"
    by (rule unhash_specE [OF us inv r al n(1) z(4) pP]) (use rk in \<open>auto intro: less_imp_le\<close>)
  define f2 where "f2 = (if lru_enabled f1 then remove_node_lru f1 p else f1)"
  define H1 where "H1 = (H - {p}) \<inter> dom (nodes f1)"
  have i2: "ninv f2 H1 P d r rank"
    using f1(2) by (auto simp: released_def f2_def H1_def ninv_def remove_node_lru_def)
  have n2: "nodes f2 = nodes f1" by (simp add: f2_def remove_node_lru_def)
  have n2p: "nodes f2 p = Some (n\<lparr>n_name := None, parent := None\<rparr>)" using f1(3) n2 by simp
  have "children (nodes f2) H1 p = {}"
    using zero_refs(2) [OF i2 n2p] n(2) r by simp
  moreover have "nlookup (n\<lparr>n_name := None, parent := None\<rparr>) = 0" using z(1) by simp
  moreover have "p \<notin> H1" by (simp add: H1_def)
  ultimately obtain f3 where f3: "unhash_id f2 p = Some f3" "ninv (free_node f3 p) H1 P d r rank"
    "nodes (free_node f3 p) = (nodes f2)(p := None)" "rest_eq f2 (free_node f3 p)"
    "lru_table (free_node f3 p) = lru_table f2"
    using release_id_ninv [OF i2 n2p] by metis
  define f' where "f' = free_node f3 p"
  have ns': "nodes f' = (nodes f1)(p := None)" using f3(3) n2 by (simp add: f'_def)
  have "delete_node f p = Some f'"
    using n z f1(1) f3(1) unfolding f2_def by (simp add: delete_node.simps f'_def)
  moreover have "released f f' H P d r rank X"
  proof -
    have "H \<inter> dom (nodes f') = H1" using ns' by (auto simp: H1_def)
    moreover have "alive (nodes f') X"
      using f1(2) ns' by (auto simp: released_def alive_def)
    moreover have "rest_eq f f1" using f1(2) by (simp add: released_def)
    then have "rest_eq f f'"
      using f3(4) by (auto simp: f'_def rest_eq_def f2_def remove_node_lru_def split: if_splits)
    moreover have "set (lru_table f') \<subseteq> set (lru_table f)"
      using f1(2) f3(5) by (auto simp: f'_def f2_def remove_node_lru_def released_def split: if_splits)
    ultimately show ?thesis using f3(2) by (simp add: released_def f'_def)
  qed
  moreover have "survives (nodes f) (nodes f') x" if "x \<noteq> p" for x
    using f1(4) [OF that] that ns' by (simp add: survives_def)
  ultimately show "\<exists>f'. delete_node f p = Some f' \<and> released f f' H P d r rank X \<and> nodes f' p = None \<and>
        (\<forall>x. x \<noteq> p \<longrightarrow> survives (nodes f) (nodes f') x) \<and>
        (\<forall>x. rank p < rank x \<longrightarrow> nodes f' x = nodes f x)"
    using ns' f1(5) by (intro exI [of _ f']) auto
qed

lemma unhash_step:
  assumes IH: "\<And>n q f1. nodes f p = Some n \<Longrightarrow> n_name n \<noteq> None \<Longrightarrow> name_unlink f p = Some (q, f1) \<Longrightarrow>
      unref_spec f1 q"
  shows "unhash_spec f p"
  unfolding unhash_spec_def
proof (intro allI impI)
  fix H P d r rank X n
  assume inv: "ninv f H P d r rank" and r: "\<forall>x. 0 \<le> r x" and al: "alive (nodes f) X"
    and n: "nodes f p = Some n" "nodeid n \<noteq> FUSE_ROOT_ID" and pP: "p \<notin> P"
    and rP: "\<forall>x\<in>P. rank p < rank x" and rX: "\<forall>x\<in>X. rank p \<le> rank x"
  have si: "store_inv (nodes f) H P r rank" using inv by (simp add: ninv_def)
  have Hd: "H \<subseteq> dom (nodes f)" using si unfolding store_inv_def linked_ok_def by blast
  let ?n = "n\<lparr>n_name := None, parent := None\<rparr>"
  show "\<exists>f'. unhash_name f p = Some f' \<and> released f f' (H - {p}) P d r rank X \<and>
        nodes f' p = Some ?n \<and> (\<forall>x. x \<noteq> p \<longrightarrow> survives (nodes f) (nodes f') x) \<and>
        (\<forall>x. rank p \<le> rank x \<longrightarrow> x \<noteq> p \<longrightarrow> nodes f' x = nodes f x)"
  proof (cases "p \<in> H")
    case False
    then have none: "n_name n = None" "parent n = None"
      using si n pP unfolding store_inv_def unnamed_ok_def by auto
    then have "?n = n" by simp
    moreover have "unhash_name f p = Some f" using n none by (simp add: unhash_name.simps)
    moreover have "(H - {p}) \<inter> dom (nodes f) = H" using False Hd by auto
    ultimately show ?thesis
      using n inv al by (intro exI [of _ f]) (simp add: released_def survives_same)
  next
    case True
    obtain q t where u: "name_unlink f p = Some (q, f\<lparr>name_table := t\<rparr>)" "par (nodes f) p = Some q"
      "rank q < rank p" "nodes f q \<noteq> None"
      "ninv (f\<lparr>name_table := t\<rparr>) (H - {p}) (insert p P) (Suc d) (r(q := r q + 1)) rank"
      by (rule name_unlink_ninv [OF inv True])
    define f1 where "f1 = f\<lparr>name_table := t\<rparr>"
    have nm: "n_name n \<noteq> None" using linkedE [OF si True] n by (metis option.distinct(1) option.inject)
    have us: "unref_spec f1 q" unfolding f1_def by (rule IH [OF n(1) nm u(1)])
    have rkq: "\<forall>x\<in>insert p P \<union> X. rank q < rank x"
      using u(3) rP rX by (auto intro: less_trans less_le_trans)
    then have q: "q \<notin> insert p P" "q \<notin> X" by auto
    have al1: "alive (nodes f1) X" and q1: "nodes f1 q \<noteq> None" using al u(4) by (simp_all add: f1_def)
    obtain f2 where f2: "unref_node f1 q = Some f2" "released f1 f2 (H - {p}) (insert p P) (Suc d) r rank X"
      "\<And>x. survives (nodes f1) (nodes f2) x" "\<And>x. rank q < rank x \<Longrightarrow> nodes f2 x = nodes f1 x"
      by (rule unref_specE [OF us u(5) [folded f1_def] r al1 q1 q rkq]) auto
    have f2p: "nodes f2 p = Some n" using f2(4) [OF u(3)] n by (simp add: f1_def)
    have i2: "ninv f2 ((H - {p}) \<inter> dom (nodes f2)) (insert p P) (Suc d) r rank"
      using f2(2) by (simp add: released_def)
    obtain f3 where f3: "name_unlinked f2 p = Some f3" "ninv f3 ((H - {p}) \<inter> dom (nodes f2)) P d r rank"
      "nodes f3 = (nodes f2)(p \<mapsto> ?n)" "rest_eq f2 f3" "lru_table f3 = lru_table f2"
      by (rule name_unlinked_ninv [OF i2 f2p _ pP]) auto
    have "unhash_name f p = Some f3"
      using n nm u(1) f2(1) f3(1) by (auto simp: unhash_name.simps f1_def)
    moreover have "released f f3 (H - {p}) P d r rank X"
    proof -
      have "(H - {p}) \<inter> dom (nodes f3) = (H - {p}) \<inter> dom (nodes f2)" using f3(3) by auto
      moreover have "alive (nodes f3) X"
        using f2(2) f2p f3(3) by (auto simp: released_def alive_def)
      moreover have "rest_eq f f3"
        using f2(2) f3(4) by (simp add: released_def rest_eq_def f1_def)
      ultimately show ?thesis
        using f2(2) f3 by (simp add: released_def f1_def)
    qed
    moreover have "survives (nodes f) (nodes f3) x" if "x \<noteq> p" for x
      using f2(3) [of x] that f3(3) by (simp add: survives_def f1_def)
    moreover have "nodes f3 x = nodes f x" if "rank p \<le> rank x" "x \<noteq> p" for x
      using f2(4) [of x] that u(3) f3(3) by (simp add: f1_def)
    ultimately show ?thesis using f3(3) by (intro exI [of _ f3]) auto
  qed
qed

theorem release_specs: "unref_spec f p" "delete_spec f p" "unhash_spec f p"
proof (induction f p and f p and f p rule: unref_node_delete_node_unhash_name.induct)
  case (1 f p)
  then show ?case by (intro unref_step) auto
next
  case (2 f p)
  then show ?case by (intro delete_step) blast
next
  case (3 f p)
  then show ?case by (intro unhash_step) auto
qed

text \<open>The two entry points, with nothing pending.\<close>

lemma unref_top:
  assumes "ninv f H {} 0 ((\<lambda>_. 0)(p := 1)) rank" "alive (nodes f) {}" "nodes f p \<noteq> None"
  obtains f' where "unref_node f p = Some f'" "ninv f' (H \<inter> dom (nodes f')) {} 0 (\<lambda>_. 0) rank"
    "alive (nodes f') {}" "rest_eq f f'" "\<And>x. survives (nodes f) (nodes f') x"
    "\<And>x. rank p < rank x \<Longrightarrow> nodes f' x = nodes f x"
proof -
  have i: "ninv f H {} 0 ((\<lambda>_. 0)(p := (\<lambda>_. 0) p + 1)) rank" using assms(1) by simp
  show thesis
    by (rule unref_specE [OF release_specs(1), where r = "\<lambda>_. 0", OF i _ assms(2,3)])
      (use that in \<open>auto simp: released_def\<close>)
qed

lemma unhash_top:
  assumes "ninv f H {} 0 (\<lambda>_. 0) rank" "alive (nodes f) {}" "nodes f p = Some n" "nodeid n \<noteq> FUSE_ROOT_ID"
  obtains f' where "unhash_name f p = Some f'" "ninv f' ((H - {p}) \<inter> dom (nodes f')) {} 0 (\<lambda>_. 0) rank"
    "alive (nodes f') {}" "rest_eq f f'" "nodes f' p = Some (n\<lparr>n_name := None, parent := None\<rparr>)"
    "\<And>x. x \<noteq> p \<Longrightarrow> survives (nodes f) (nodes f') x"
    "\<And>x. rank p \<le> rank x \<Longrightarrow> x \<noteq> p \<Longrightarrow> nodes f' x = nodes f x"
  by (rule unhash_specE [OF release_specs(3) assms(1) _ assms(2-4)])
    (use that in \<open>auto simp: released_def\<close>)

section \<open>The invariant between operations\<close>

definition linked :: "fuse \<Rightarrow> ptr set" where
  "linked f = buckets (name_table f)"

definition fuse_inv :: "fuse \<Rightarrow> bool" where
  "fuse_inv f \<longleftrightarrow> (\<exists>rank. ninv f (linked f) {} 0 (\<lambda>_. 0) rank) \<and> alive (nodes f) {}"

lemma ninv_linked: "ninv f H P d r rank \<Longrightarrow> linked f = H"
  by (simp add: ninv_def table_inv_def linked_def)

lemma fuse_invI: "ninv f H {} 0 (\<lambda>_. 0) rank \<Longrightarrow> alive (nodes f) {} \<Longrightarrow> fuse_inv f"
  using ninv_linked by (auto simp: fuse_inv_def)

lemma fuse_invE:
  assumes "fuse_inv f"
  obtains rank where "ninv f (linked f) {} 0 (\<lambda>_. 0) rank" "alive (nodes f) {}"
    "store_inv (nodes f) (linked f) {} (\<lambda>_. 0) rank"
  using assms by (auto simp: fuse_inv_def ninv_def)

lemma fuse_inv_finite: "fuse_inv f \<Longrightarrow> finite (dom (nodes f))"
proof -
  assume "fuse_inv f"
  then have "dom (nodes f) = buckets (id_table f)"
    by (auto simp: fuse_inv_def ninv_def table_inv_def)
  then show ?thesis by simp
qed

text \<open>Lookups by id and by name are exact.\<close>

lemma get_node_table:
  assumes tab: "table_inv (id_key (nodes f)) S d (id_table f)" and S: "S \<subseteq> dom (nodes f)"
    and u: "ids_unique (nodes f)"
  shows "get_node_nocheck f ino = Some p \<longleftrightarrow> p \<in> S \<and> (\<exists>n. nodes f p = Some n \<and> nodeid n = ino)"
proof
  assume "get_node_nocheck f ino = Some p"
  then show "p \<in> S \<and> (\<exists>n. nodes f p = Some n \<and> nodeid n = ino)"
    unfolding get_node_nocheck_def id_hash_def
    by (auto dest!: table_find_SomeD [OF tab] simp: id_match_def split: option.splits)
next
  assume p: "p \<in> S \<and> (\<exists>n. nodes f p = Some n \<and> nodeid n = ino)"
  show "get_node_nocheck f ino = Some p"
    unfolding get_node_nocheck_def id_hash_def
  proof (rule table_find_Some [OF tab])
    show "id_key (nodes f) x = id_hash_full ino" if "id_match f ino x" "x \<in> S" for x
      using that by (auto simp: id_match_def id_key_def split: option.splits)
    show "p \<in> S" "id_match f ino p" using p by (auto simp: id_match_def)
    show "x = p" if "x \<in> S" "id_match f ino x" for x
      using that p u by (auto simp: id_match_def ids_unique_def split: option.splits)
  qed
qed

lemma get_node_iff:
  assumes "fuse_inv f"
  shows "get_node f ino = Some p \<longleftrightarrow> (\<exists>n. nodes f p = Some n \<and> nodeid n = ino)"
proof -
  obtain rank where "ninv f (linked f) {} 0 (\<lambda>_. 0) rank" by (rule fuse_invE [OF assms])
  then show ?thesis
    using get_node_table [of f "dom (nodes f)" 0 ino p]
    by (auto simp: get_node_def ninv_def store_inv_def)
qed

lemma lookup_table:
  assumes tab: "table_inv (name_key (nodes f)) H d (name_table f)" and si: "store_inv (nodes f) H P r rank"
  shows "lookup_node f pid name = Some p \<longleftrightarrow> p \<in> H \<and> name_match f pid name p"
proof
  assume "lookup_node f pid name = Some p"
  then show "p \<in> H \<and> name_match f pid name p"
    unfolding lookup_node_def name_hash_def by (rule table_find_SomeD [OF tab])
next
  assume p: "p \<in> H \<and> name_match f pid name p"
  show "lookup_node f pid name = Some p"
    unfolding lookup_node_def name_hash_def
  proof (rule table_find_Some [OF tab])
    show "name_key (nodes f) x = name_hash_full pid name" if "name_match f pid name x" "x \<in> H" for x
      using that by (auto simp: name_match_def name_key_def split: option.splits)
    show "p \<in> H" "name_match f pid name p" using p by auto
    show "x = p" if x: "x \<in> H" "name_match f pid name x" for x
    proof -
      have "par (nodes f) x = par (nodes f) p"
        using x p si unfolding store_inv_def ids_unique_def
        by (auto simp: name_match_def par_def split: option.splits)
      moreover have "map_option n_name (nodes f x) = map_option n_name (nodes f p)"
        using x p by (auto simp: name_match_def split: option.splits)
      ultimately show ?thesis using x p si unfolding store_inv_def names_unique_def by blast
    qed
  qed
qed

lemma lookup_node_iff:
  assumes "fuse_inv f"
  shows "lookup_node f pid name = Some p \<longleftrightarrow> p \<in> linked f \<and> name_match f pid name p"
  by (rule fuse_invE [OF assms]) (auto simp: ninv_def intro!: lookup_table)

end
