(* ===== verification/Node_Ops.thy ===== *)
theory Node_Ops
  imports Node_Refs
begin

text \<open>
  The operations on the node store under the invariant \<open>fuse_inv\<close>: forgetting, unlinking,
  creating, renaming and exchanging names neither crash nor break the store, and what each
  does to the mapping from names to nodes.
\<close>

section \<open>Names of the surviving nodes\<close>

lemma survivesD:
  assumes "survives ns ns' x" "ns' x = Some m"
  obtains n where "ns x = Some n" "nodeid m = nodeid n" "n_name m = n_name n" "parent m = parent n"
    "nlookup m = nlookup n" "open_count m = open_count n" "treelock m = treelock n"
  using assms by (auto simp: survives_def)

text \<open>No node appears, and those that stay keep their id, their lookup count and their tree lock.\<close>

definition counts :: "fuse \<Rightarrow> fuse \<Rightarrow> bool" where
  "counts f f' \<longleftrightarrow> (\<forall>x m'. nodes f' x = Some m' \<longrightarrow>
     (\<exists>m. nodes f x = Some m \<and> nodeid m' = nodeid m \<and> nlookup m' = nlookup m \<and> treelock m' = treelock m))"

lemma counts_refl [simp]: "counts f f"
  by (simp add: counts_def)

lemma counts_trans: "counts f g \<Longrightarrow> counts g h \<Longrightarrow> counts f h"
  unfolding counts_def by metis

lemma counts_survives:
  assumes "\<And>x. x \<noteq> p \<Longrightarrow> survives (nodes f) (nodes f') x"
    "\<And>m'. nodes f' p = Some m' \<Longrightarrow>
       \<exists>m. nodes f p = Some m \<and> nodeid m' = nodeid m \<and> nlookup m' = nlookup m \<and> treelock m' = treelock m"
  shows "counts f f'"
  unfolding counts_def
proof (intro allI impI)
  fix x m' assume x: "nodes f' x = Some m'"
  show "\<exists>m. nodes f x = Some m \<and> nodeid m' = nodeid m \<and> nlookup m' = nlookup m \<and> treelock m' = treelock m"
    using assms(1) [of x] assms(2) x by (cases "x = p") (auto simp: survives_def)
qed

lemma name_match_survives:
  assumes si: "store_inv ns' H' P r rank" and x: "x \<in> H'" and D: "\<And>y. y \<noteq> p \<Longrightarrow> survives ns (nodes f') y"
    and p: "x \<noteq> p" "\<And>m. ns' p = Some m \<Longrightarrow> \<exists>n. ns p = Some n \<and> nodeid m = nodeid n"
    and f: "nodes f = ns" "nodes f' = ns'"
  shows "name_match f' pid nm x \<longleftrightarrow> name_match f pid nm x"
proof -
  obtain n q nm' m where n: "ns' x = Some n" "n_name n = Some nm'" "parent n = Some q" "ns' q = Some m"
    by (rule linkedE [OF si x])
  obtain n0 where n0: "ns x = Some n0" "n_name n = n_name n0" "parent n = parent n0"
    using survivesD [OF D [OF p(1)], of n] n f by metis
  obtain m0 where "ns q = Some m0" "nodeid m = nodeid m0"
  proof (cases "q = p")
    case True
    then show ?thesis using p(2) n(4) that by blast
  next
    case False
    then show ?thesis using survivesD [OF D [OF False], of m] n f that by metis
  qed
  with n n0 f show ?thesis by (simp add: name_match_def)
qed

lemma lookup_survives:
  assumes inv: "fuse_inv f" "fuse_inv f'"
    and L: "linked f' = (linked f - D) \<inter> dom (nodes f')" "D \<subseteq> {p}"
    and sv: "\<And>y. y \<noteq> p \<Longrightarrow> survives (nodes f) (nodes f') y"
    and p: "\<And>m. nodes f' p = Some m \<Longrightarrow> \<exists>n. nodes f p = Some n \<and> nodeid m = nodeid n \<and>
      (p \<notin> D \<longrightarrow> n_name m = n_name n \<and> parent m = parent n)"
  shows "lookup_node f' pid nm = Some x \<longleftrightarrow>
    lookup_node f pid nm = Some x \<and> x \<notin> D \<and> nodes f' x \<noteq> None"
proof -
  obtain rank where si: "store_inv (nodes f') (linked f') {} (\<lambda>_. 0) rank"
    by (rule fuse_invE [OF inv(2)])
  have "name_match f' pid nm x \<longleftrightarrow> name_match f pid nm x" if x: "x \<in> linked f'"
  proof (cases "x = p")
    case False
    show ?thesis
      by (rule name_match_survives [OF si x _ False, where ns = "nodes f"]) (use sv p in auto)
  next
    case True
    obtain n q nm' m where n: "nodes f' x = Some n" "n_name n = Some nm'" "parent n = Some q"
        "nodes f' q = Some m" "rank q < rank x"
      by (rule linkedE [OF si x])
    have "x \<notin> D" using x L by blast
    then obtain n0 where n0: "nodes f x = Some n0" "n_name n = n_name n0" "parent n = parent n0"
      using p True n by blast
    have "q \<noteq> p" using n(5) True by auto
    then obtain m0 where "nodes f q = Some m0" "nodeid m = nodeid m0"
      using survivesD [OF sv [of q], of m] n by metis
    with n n0 show ?thesis by (simp add: name_match_def)
  qed
  then show ?thesis
    unfolding lookup_node_iff [OF inv(1)] lookup_node_iff [OF inv(2)] using L by auto
qed

section \<open>Forgetting\<close>

lemma ninv_upd:
  "ninv f H P d r rank \<Longrightarrow> ninv (f\<lparr>lru_table := l\<rparr>) H P d r rank"
  "ninv f H P d r rank \<Longrightarrow> ninv (f\<lparr>clock := c\<rparr>) H P d r rank"
  "ninv f H P d r rank \<Longrightarrow> ninv (f\<lparr>lockq := q\<rparr>) H P d r rank"
  "ninv f H P d r rank \<Longrightarrow> ninv (f\<lparr>hidectr := h\<rparr>) H P d r rank"
  "ninv f H P d r rank \<Longrightarrow> ninv (f\<lparr>allocs := a\<rparr>) H P d r rank"
  by (simp_all add: ninv_def)

lemma fuse_inv_upd:
  "fuse_inv f \<Longrightarrow> fuse_inv (f\<lparr>lru_table := l\<rparr>)" "fuse_inv f \<Longrightarrow> fuse_inv (f\<lparr>clock := c\<rparr>)"
  "fuse_inv f \<Longrightarrow> fuse_inv (f\<lparr>lockq := q\<rparr>)" "fuse_inv f \<Longrightarrow> fuse_inv (f\<lparr>hidectr := h\<rparr>)"
  "fuse_inv f \<Longrightarrow> fuse_inv (f\<lparr>allocs := a\<rparr>)"
  by (auto simp: fuse_inv_def linked_def ninv_def)

text \<open>Fields other than id, name, parent and the counters may change freely.\<close>

lemma fuse_inv_put:
  assumes inv: "fuse_inv f" and p: "nodes f p = Some n"
    and eq: "nodeid n' = nodeid n" "n_name n' = n_name n" "parent n' = parent n"
    and cnt: "refctr n' = refctr n + (if nlookup n' > 0 then 1 else 0) - (if nlookup n > 0 then 1 else 0)"
    and pos: "refctr n' > 0" and root: "nodeid n = FUSE_ROOT_ID \<Longrightarrow> nlookup n' > 0"
    and pin: "treelock n' \<noteq> 0 \<Longrightarrow> nlookup n' > 0"
  shows "fuse_inv (put_node p n' f)" "linked (put_node p n' f) = linked f"
proof -
  obtain rank where i: "ninv f (linked f) {} 0 (\<lambda>_. 0) rank" and al: "alive (nodes f) {}"
    and si: "store_inv (nodes f) (linked f) {} (\<lambda>_. 0) rank"
    by (rule fuse_invE [OF inv])
  have ref: "refctr n = refs (nodes f) (linked f) p n"
    using si p unfolding store_inv_def refs_ok_def by simp
  have "ninv (put_node p n' f) (linked f) {} 0 (\<lambda>_. 0) rank"
  proof (rule ninv_put [OF i p eq(1)])
    show "0 = refctr n' - refs (nodes f) (linked f) p n'"
      using cnt ref by (auto simp: refs_def)
    show "n_name n' = None \<and> parent n' = None"
      if "p \<notin> linked f" "p \<notin> {}" "nodeid n \<noteq> FUSE_ROOT_ID"
      using si p that eq unfolding store_inv_def unnamed_ok_def by auto
  qed (use eq root pin in auto)
  moreover have "alive (nodes (put_node p n' f)) {}"
    using al pos by (auto simp: alive_def)
  ultimately show "fuse_inv (put_node p n' f)" by (rule fuse_invI)
  show "linked (put_node p n' f) = linked f" by (simp add: linked_def)
qed

text \<open>A node without lookups is gone exactly when it has no linked children.\<close>

lemma childless_freed:
  assumes si: "store_inv ns H {} r rank" and si': "store_inv ns' H' {} (\<lambda>_. 0) rank" and al: "alive ns' {}"
    and H': "H' = H \<inter> dom ns'" and up: "\<And>x. rank p < rank x \<Longrightarrow> ns' x = ns x"
    and pr: "\<And>x. x \<in> H' \<Longrightarrow> par ns' x = par ns x" and z: "\<And>m. ns' p = Some m \<Longrightarrow> nlookup m = 0"
  shows "ns' p = None \<longleftrightarrow> children ns H p = {}"
proof
  assume none: "ns' p = None"
  show "children ns H p = {}"
  proof (rule ccontr)
    assume "children ns H p \<noteq> {}"
    then obtain c where c: "c \<in> H" "par ns c = Some p" by (auto simp: children_def)
    obtain n q where q: "ns c = Some n" "par ns c = Some q" "rank q < rank c" by (rule linkedE [OF si c(1)])
    then have "ns' c = ns c" using c up by simp
    then have c': "c \<in> H'" using c q H' by auto
    obtain q' m where "par ns' c = Some q'" "ns' q' = Some m" by (rule linkedE [OF si' c'])
    then show False using pr [OF c'] c none by simp
  qed
next
  assume empty: "children ns H p = {}"
  show "ns' p = None"
  proof (rule ccontr)
    assume "ns' p \<noteq> None"
    then obtain m where m: "ns' p = Some m" by blast
    have "refctr m = refs ns' H' p m" "refctr m > 0"
      using m si' al unfolding store_inv_def refs_ok_def alive_def by auto
    then have "card (children ns' H' p) > 0" using z [OF m] by (simp add: refs_def)
    then obtain c where "c \<in> children ns' H' p" by (metis card_gt_0_iff equals0I)
    then have "c \<in> children ns H p" using pr [of c] H' by (simp add: children_def)
    then show False using empty by simp
  qed
qed

lemma forget_finish_more:
  assumes "nodes f p = Some n" "k < nlookup n" "f1 = put_node p (n\<lparr>nlookup := nlookup n - k\<rparr>) f"
  shows "forget_finish f p k =
    (if lru_enabled f1 \<and> nlookup n - k = 1 then set_forget_time f1 p else Some f1)"
  using assms by (simp add: forget_finish_def Let_def)

lemma forget_finish_spec:
  assumes inv: "fuse_inv f" and p: "nodes f p = Some n" "nodeid n \<noteq> FUSE_ROOT_ID"
    and k: "0 < k" "k \<le> nlookup n" and tl: "nlookup n = k \<longrightarrow> treelock n = 0"
  obtains f' where "forget_finish f p k = Some f'" "fuse_inv f'"
    "linked f' = linked f \<inter> dom (nodes f')"
    "\<And>x. x \<noteq> p \<Longrightarrow> survives (nodes f) (nodes f') x"
    "nodes f' p = None \<longleftrightarrow> nlookup n = k \<and> children (nodes f) (linked f) p = {}"
    "\<And>m. nodes f' p = Some m \<Longrightarrow> nlookup m = nlookup n - k \<and> nodeid m = nodeid n \<and>
      n_name m = n_name n \<and> parent m = parent n"
    "conf f' = conf f"
proof -
  obtain rank where i: "ninv f (linked f) {} 0 (\<lambda>_. 0) rank" and al: "alive (nodes f) {}"
    and si: "store_inv (nodes f) (linked f) {} (\<lambda>_. 0) rank"
    by (rule fuse_invE [OF inv])
  have ref: "refctr n = refs (nodes f) (linked f) p n"
    using si p unfolding store_inv_def refs_ok_def by simp
  have Ld: "linked f \<subseteq> dom (nodes f)" using si unfolding store_inv_def linked_ok_def by blast
  have pos: "refctr n > 0" using al p by (simp add: alive_def)
  let ?n = "n\<lparr>nlookup := nlookup n - k\<rparr>"
  define f1 where "f1 = put_node p ?n f"
  show thesis
  proof (cases "nlookup n = k")
    case False
    then have more: "nlookup n - k > 0" using k by simp
    have f1: "fuse_inv f1" "linked f1 = linked f"
      unfolding f1_def by (rule fuse_inv_put [OF inv p(1)]; use p k more pos in auto)+
    define m where "m = ?n\<lparr>forget_time := fst (curr_time (f1\<lparr>lru_table := removeAll p (lru_table f1) @ [p]\<rparr>))\<rparr>"
    define f2 where "f2 = put_node p m (snd (curr_time (f1\<lparr>lru_table := removeAll p (lru_table f1) @ [p]\<rparr>)))"
    define f' where "f' = (if lru_enabled f1 \<and> nlookup n - k = 1 then f2 else f1)"
    have st: "set_forget_time f1 p = Some f2"
      by (simp add: set_forget_time_def f2_def m_def f1_def curr_time_def Let_def split: list.splits)
    have f2: "fuse_inv f2" "linked f2 = linked f"
    proof -
      have g: "fuse_inv (snd (curr_time (f1\<lparr>lru_table := l\<rparr>)))" for l
        using f1(1) by (simp add: curr_time_def fuse_inv_upd split: list.splits)
      have np: "nodes (snd (curr_time (f1\<lparr>lru_table := l\<rparr>))) p = Some ?n" for l
        by (simp add: curr_time_def f1_def split: list.splits)
      show "fuse_inv f2" unfolding f2_def
        by (rule fuse_inv_put(1) [OF g np]) (use p k more pos in \<open>auto simp: m_def\<close>)
      show "linked f2 = linked f"
        using f1(2) by (simp add: f2_def linked_def curr_time_def split: list.splits)
    qed
    have ns2: "nodes f2 = (nodes f)(p \<mapsto> m)"
      by (rule ext) (simp add: f2_def f1_def curr_time_def split: list.splits)
    have "forget_finish f p k = Some f'"
      using forget_finish_more [OF p(1) _ f1_def] k False st by (simp add: f'_def)
    moreover have "fuse_inv f'" "linked f' = linked f" using f1 f2 by (auto simp: f'_def)
    moreover have ns': "nodes f' = (nodes f)(p \<mapsto> (if lru_enabled f1 \<and> nlookup n - k = 1 then m else ?n))"
      using ns2 by (simp add: f'_def f1_def)
    moreover have "linked f \<subseteq> dom (nodes f')" using Ld ns' p by auto
    moreover have "conf f' = conf f" by (simp add: f'_def f2_def f1_def curr_time_def split: list.splits)
    ultimately show thesis
      using False by (intro that [of f']) (auto simp: m_def survives_same)
  next
    case True
    have i1: "ninv f1 (linked f) {} 0 ((\<lambda>_. 0)(p := 1)) rank"
      unfolding f1_def
    proof (rule ninv_put [OF i p(1)])
      show "n_name ?n = None \<and> parent ?n = None"
        if "p \<notin> linked f" "p \<notin> {}" "nodeid n \<noteq> FUSE_ROOT_ID"
        using si p that unfolding store_inv_def unnamed_ok_def by auto
    qed (use p True tl k ref in \<open>auto simp: refs_def\<close>)
    have al1: "alive (nodes f1) {}" "nodes f1 p \<noteq> None" using al p by (auto simp: alive_def f1_def)
    obtain f' where f': "unref_node f1 p = Some f'" and i': "ninv f' (linked f \<inter> dom (nodes f')) {} 0 (\<lambda>_. 0) rank"
      "alive (nodes f') {}" and re: "rest_eq f1 f'" and sv: "\<And>x. survives (nodes f1) (nodes f') x"
      and up: "\<And>x. rank p < rank x \<Longrightarrow> nodes f' x = nodes f1 x"
      by (rule unref_top [OF i1 al1]) blast
    have inv': "fuse_inv f'" by (rule fuse_invI [OF i'])
    have L': "linked f' = linked f \<inter> dom (nodes f')" by (rule ninv_linked [OF i'(1)])
    have keep: "nlookup m = nlookup n - k \<and> nodeid m = nodeid n \<and> n_name m = n_name n \<and> parent m = parent n"
      if "nodes f' p = Some m" for m
      using survivesD [OF sv that] by (auto simp: f1_def)
    have "nodes f' p = None \<longleftrightarrow> children (nodes f) (linked f) p = {}"
    proof (rule childless_freed)
      show "store_inv (nodes f) (linked f) {} (\<lambda>_. 0) rank" by (rule si)
      show "store_inv (nodes f') (linked f') {} (\<lambda>_. 0) rank" using i' L' by (simp add: ninv_def)
      show "alive (nodes f') {}" by (rule i')
      show "linked f' = linked f \<inter> dom (nodes f')" by (rule L')
      show "nodes f' x = nodes f x" if "rank p < rank x" for x
        using up [OF that] that by (auto simp: f1_def)
      show "par (nodes f') x = par (nodes f) x" if "x \<in> linked f'" for x
        using sv [of x] that L' p by (auto simp: par_def survives_def f1_def split: if_splits)
      show "nlookup m = 0" if "nodes f' p = Some m" for m using keep [OF that] True by simp
    qed
    moreover have "survives (nodes f) (nodes f') x" if "x \<noteq> p" for x
      using sv [of x] that by (simp add: survives_def f1_def)
    moreover have "forget_finish f p k = Some f'"
      using f' p True by (simp add: forget_finish_def f1_def)
    ultimately show thesis
      using inv' L' keep True re by (intro that [of f']) (auto simp: rest_eq_def f1_def)
  qed
qed

section \<open>Unlinking\<close>

lemma unhash_name_spec:
  assumes inv: "fuse_inv f" and p: "nodes f p = Some n" "nodeid n \<noteq> FUSE_ROOT_ID"
  obtains f' where "unhash_name f p = Some f'" "fuse_inv f'" "rest_eq f f'"
    "linked f' = (linked f - {p}) \<inter> dom (nodes f')"
    "nodes f' p = Some (n\<lparr>n_name := None, parent := None\<rparr>)"
    "\<And>x. x \<noteq> p \<Longrightarrow> survives (nodes f) (nodes f') x"
proof -
  obtain rank where i: "ninv f (linked f) {} 0 (\<lambda>_. 0) rank" and al: "alive (nodes f) {}"
    and "store_inv (nodes f) (linked f) {} (\<lambda>_. 0) rank"
    by (rule fuse_invE [OF inv])
  show thesis
  proof (rule unhash_top [OF i al p])
    fix f'
    assume f': "unhash_name f p = Some f'" "ninv f' ((linked f - {p}) \<inter> dom (nodes f')) {} 0 (\<lambda>_. 0) rank"
      "alive (nodes f') {}" "rest_eq f f'" "nodes f' p = Some (n\<lparr>n_name := None, parent := None\<rparr>)"
      "\<And>x. x \<noteq> p \<Longrightarrow> survives (nodes f) (nodes f') x"
    from f'(1) fuse_invI [OF f'(2,3)] f'(4) ninv_linked [OF f'(2)] f'(5,6) show thesis by (rule that)
  qed
qed

text \<open>A name that is looked up belongs to a linked node, which is not the root.\<close>

lemma lookup_linked:
  assumes inv: "fuse_inv f" and l: "lookup_node f dir name = Some p"
  obtains n where "nodes f p = Some n" "nodeid n \<noteq> FUSE_ROOT_ID" "p \<in> linked f" "name_match f dir name p"
proof -
  obtain rank where si: "store_inv (nodes f) (linked f) {} (\<lambda>_. 0) rank"
    by (rule fuse_invE [OF inv])
  have p: "p \<in> linked f" "name_match f dir name p" using l lookup_node_iff [OF inv] by auto
  obtain n where "nodes f p = Some n" "nodeid n \<noteq> FUSE_ROOT_ID" by (rule linkedE [OF si p(1)])
  with p that show thesis by blast
qed

lemma unlink_node_spec:
  assumes inv: "fuse_inv f" and p: "nodes f p = Some n" "nodeid n \<noteq> FUSE_ROOT_ID"
    and rem: "remember (conf f) \<noteq> 0 \<Longrightarrow> nlookup n > 1"
  obtains f' where "unlink_node f p = Some f'" "fuse_inv f'" "rest_eq f f'"
    "linked f' = (linked f - {p}) \<inter> dom (nodes f')"
    "nodes f' p = Some (n\<lparr>n_name := None, parent := None,
       nlookup := nlookup n - (if remember (conf f) \<noteq> 0 then 1 else 0)\<rparr>)"
    "\<And>x. x \<noteq> p \<Longrightarrow> survives (nodes f) (nodes f') x"
proof -
  define k where "k = (if remember (conf f) \<noteq> 0 then 1 else (0::nat))"
  define n1 where "n1 = n\<lparr>nlookup := nlookup n - k\<rparr>"
  define f1 where "f1 = put_node p n1 f"
  have al: "refctr n > 0" using inv p by (auto simp: fuse_inv_def alive_def)
  have pin: "treelock n \<noteq> 0 \<Longrightarrow> nlookup n > 0"
    using inv p unfolding fuse_inv_def ninv_def store_inv_def pinned_def by blast
  have i1: "fuse_inv f1" "linked f1 = linked f"
    unfolding f1_def
    by (rule fuse_inv_put [OF inv p(1)]; use p rem al pin in \<open>auto simp: n1_def k_def\<close>)+
  have p1: "nodes f1 p = Some n1" "nodeid n1 \<noteq> FUSE_ROOT_ID" using p by (auto simp: f1_def n1_def)
  have eq: "unlink_node f p = unhash_name f1 p"
  proof (cases "remember (conf f) = 0")
    case True
    then have "f1 = f" using p by (simp add: f1_def n1_def k_def put_node_def fun_upd_idem)
    then show ?thesis using True p by (simp add: unlink_node_def)
  next
    case False
    then show ?thesis using p rem by (simp add: unlink_node_def f1_def n1_def k_def)
  qed
  obtain f' where f': "unhash_name f1 p = Some f'" "fuse_inv f'" "rest_eq f1 f'"
    "linked f' = (linked f1 - {p}) \<inter> dom (nodes f')"
    "nodes f' p = Some (n1\<lparr>n_name := None, parent := None\<rparr>)"
    "\<And>x. x \<noteq> p \<Longrightarrow> survives (nodes f1) (nodes f') x"
    by (rule unhash_name_spec [OF i1(1) p1]) blast
  show thesis
  proof (rule that)
    show "unlink_node f p = Some f'" using eq f' by simp
    show "fuse_inv f'" by (rule f')
    show "rest_eq f f'" using f'(3) by (simp add: f1_def rest_eq_def)
    show "linked f' = (linked f - {p}) \<inter> dom (nodes f')" using f'(4) i1(2) by simp
    show "nodes f' p = Some (n\<lparr>n_name := None, parent := None,
       nlookup := nlookup n - (if remember (conf f) \<noteq> 0 then 1 else 0)\<rparr>)"
      using f'(5) by (simp add: n1_def k_def)
    show "survives (nodes f) (nodes f') x" if "x \<noteq> p" for x
      using f'(6) [OF that] that by (simp add: f1_def survives_def)
  qed
qed

text \<open>
  Removing a name: the name is gone, every other name that is still linked is unchanged,
  and no node the kernel has looked up disappears.
\<close>

lemma remove_node_spec:
  assumes inv: "fuse_inv f" and l: "lookup_node f dir name = Some p" and n: "nodes f p = Some n"
    and rem: "remember (conf f) \<noteq> 0 \<Longrightarrow> nlookup n > 1"
  obtains f' where "remove_node f dir name = Some f'" "fuse_inv f'" "rest_eq f f'"
    "\<And>pid nm x. lookup_node f' pid nm = Some x \<longleftrightarrow>
       lookup_node f pid nm = Some x \<and> x \<noteq> p \<and> nodes f' x \<noteq> None"
    "\<And>x m. nodes f x = Some m \<Longrightarrow> nlookup m > 0 \<Longrightarrow> nodes f' x \<noteq> None"
    "remember (conf f) = 0 \<Longrightarrow> counts f f'"
proof -
  obtain n' where n': "nodes f p = Some n'" "nodeid n' \<noteq> FUSE_ROOT_ID"
    by (rule lookup_linked [OF inv l])
  then have root: "nodeid n \<noteq> FUSE_ROOT_ID" using n by simp
  obtain f' where f': "unlink_node f p = Some f'" "fuse_inv f'" "rest_eq f f'"
    "linked f' = (linked f - {p}) \<inter> dom (nodes f')"
    "nodes f' p = Some (n\<lparr>n_name := None, parent := None,
       nlookup := nlookup n - (if remember (conf f) \<noteq> 0 then 1 else 0)\<rparr>)"
    "\<And>x. x \<noteq> p \<Longrightarrow> survives (nodes f) (nodes f') x"
    by (rule unlink_node_spec [OF inv n root rem]) blast+
  show thesis
  proof (rule that [of f'])
    show "remove_node f dir name = Some f'" using l f'(1) by (simp add: remove_node_def)
    show "lookup_node f' pid nm = Some x \<longleftrightarrow>
       lookup_node f pid nm = Some x \<and> x \<noteq> p \<and> nodes f' x \<noteq> None" for pid nm x
      using lookup_survives [OF inv f'(2,4) _ f'(6), where pid = pid and nm = nm and x = x] f'(5) n by auto
    show "nodes f' x \<noteq> None" if "nodes f x = Some m" "nlookup m > 0" for x m
      using f'(5,6) that by (cases "x = p") (auto simp: survives_def)
    show "counts f f'" if "remember (conf f) = 0"
      by (rule counts_survives [OF f'(6)]) (use f'(5) n that in auto)
  qed (use f' in auto)
qed

section \<open>Linking\<close>

text \<open>The nodes below \<open>p\<close>, itself included.\<close>

definition below :: "(ptr \<rightharpoonup> node) \<Rightarrow> ptr set \<Rightarrow> ptr \<Rightarrow> ptr set" where
  "below ns H p = {x. (x, p) \<in> {(c, q). c \<in> H \<and> par ns c = Some q}\<^sup>*}"

lemma below_refl [simp]: "p \<in> below ns H p"
  by (simp add: below_def)

lemma below_child: "c \<in> H \<Longrightarrow> par ns c = Some q \<Longrightarrow> q \<in> below ns H p \<Longrightarrow> c \<in> below ns H p"
  by (auto simp: below_def intro: converse_rtrancl_into_rtrancl)

lemma below_parent:
  assumes "x \<in> below ns H p" "x \<noteq> p"
  shows "\<exists>q. x \<in> H \<and> par ns x = Some q \<and> q \<in> below ns H p"
  using assms by (auto simp: below_def elim: converse_rtranclE)

lemma below_leaf:
  assumes "\<And>c. c \<in> H \<Longrightarrow> par ns c \<noteq> Some p"
  shows "below ns H p = {p}"
proof -
  have "(x, y) \<in> {(c, q). c \<in> H \<and> par ns c = Some q}\<^sup>* \<Longrightarrow> y = p \<Longrightarrow> x = p" for x y
    by (induction rule: rtrancl_induct) (use assms in auto)
  then show ?thesis by (auto simp: below_def)
qed

lemma card_children_link:
  assumes "finite H" "p \<notin> H" "\<And>c. c \<in> H \<Longrightarrow> par ns' c = par ns c" "par ns' p = Some q"
  shows "int (card (children ns' (insert p H) x)) =
    int (card (children ns H x)) + (if x = q then 1 else 0)"
proof -
  have "children ns' (insert p H) x = (if x = q then insert p (children ns H x) else children ns H x)"
    using assms by (auto simp: children_def)
  moreover have "p \<notin> children ns H x" "finite (children ns H x)"
    using assms(1,2) by (auto simp: children_def)
  ultimately show ?thesis by (cases "x = q") auto
qed

lemma ranked_link:
  assumes rk: "ranked ns H rank" and p: "p \<notin> H" and q: "q \<notin> below ns H p"
    and pr: "\<And>c. c \<in> H \<Longrightarrow> par ns' c = par ns c" "par ns' p = Some q"
  shows "ranked ns' (insert p H) (\<lambda>x. rank x + (if x \<in> below ns H p then rank q + 1 else 0))"
  unfolding ranked_def
proof (intro ballI allI impI)
  fix c y assume c: "c \<in> insert p H" and y: "par ns' c = Some y"
  show "rank y + (if y \<in> below ns H p then rank q + 1 else 0)
    < rank c + (if c \<in> below ns H p then rank q + 1 else 0)"
  proof (cases "c = p")
    case True
    then have "y = q" using y pr by simp
    then show ?thesis using True q by simp
  next
    case False
    then have c: "c \<in> H" and y: "par ns c = Some y" using c y pr by auto
    then have "rank y < rank c" using rk by (simp add: ranked_def)
    then show ?thesis using below_child [OF c y, of p] by auto
  qed
qed

lemma store_inv_link:
  assumes si: "store_inv ns H P r rank" and fin: "finite H"
    and p: "ns p = Some n" "p \<notin> H" "nodeid n \<noteq> FUSE_ROOT_ID"
    and q: "ns q = Some m" "q \<notin> below ns H p"
    and new: "\<And>c. c \<in> H \<Longrightarrow> par ns c = Some q \<Longrightarrow> map_option n_name (ns c) \<noteq> Some (Some nm)"
    and ns': "ns' = ns(q \<mapsto> m\<lparr>refctr := refctr m + 1\<rparr>, p \<mapsto> n\<lparr>n_name := Some nm, parent := Some q\<rparr>)"
  shows "\<exists>rank'. store_inv ns' (insert p H) (P - {p}) r rank'"
proof -
  have qp: "q \<noteq> p" using q(2) below_refl by metis
  have prH: "par ns' c = par ns c" if "c \<in> H" for c
    using that p(2) q(1) by (auto simp: ns' par_def)
  have prp: "par ns' p = Some q" by (simp add: ns' par_def)
  have nmH: "map_option n_name (ns' c) = map_option n_name (ns c)" if "c \<in> H" for c
    using that p(2) q(1) by (auto simp: ns')
  have sub: "\<exists>y0. ns x = Some y0 \<and> nodeid y = nodeid y0 \<and> nlookup y = nlookup y0 \<and>
      treelock y = treelock y0 \<and> refctr y = refctr y0 + (if x = q then 1 else 0) \<and>
      (x \<noteq> p \<longrightarrow> n_name y = n_name y0 \<and> parent y = parent y0)" if "ns' x = Some y" for x y
    using that p q qp by (auto simp: ns' split: if_splits)
  have dm: "ns' x \<noteq> None \<longleftrightarrow> ns x \<noteq> None" for x using p q by (simp add: ns')
  have "linked_ok ns' (insert p H)"
    unfolding linked_ok_def
  proof
    fix c assume "c \<in> insert p H"
    then show "\<exists>n q nm. ns' c = Some n \<and> n_name n = Some nm \<and> parent n = Some q \<and> ns' q \<noteq> None \<and>
      nodeid n \<noteq> FUSE_ROOT_ID"
    proof
      assume "c = p"
      then show ?thesis using p q qp by (simp add: ns')
    next
      assume c: "c \<in> H"
      obtain y z nmc k where y: "ns c = Some y" "n_name y = Some nmc" "parent y = Some z" "ns z = Some k"
          "nodeid y \<noteq> FUSE_ROOT_ID"
        by (rule linkedE [OF si c])
      obtain y' where y': "ns' c = Some y'" using y dm [of c] by auto
      obtain y0 where "ns c = Some y0" "nodeid y' = nodeid y0" "n_name y' = n_name y0" "parent y' = parent y0"
        using sub [OF y'] c p(2) by auto
      with y y' dm [of z] show ?thesis by auto
    qed
  qed
  moreover have "refs_ok ns' (insert p H) r"
    unfolding refs_ok_def
  proof (intro allI impI)
    fix x y assume y: "ns' x = Some y"
    obtain y0 where y0: "ns x = Some y0" "nlookup y = nlookup y0"
        "refctr y = refctr y0 + (if x = q then 1 else 0)"
      using sub [OF y] by auto
    have "refctr y0 = refs ns H x y0 + r x" using si y0(1) by (simp add: store_inv_def refs_ok_def)
    with y0 card_children_link [OF fin p(2) prH prp, of x]
    show "refctr y = refs ns' (insert p H) x y + r x" by (simp add: refs_def)
  qed
  moreover have "ids_unique ns'"
    using si sub unfolding store_inv_def ids_unique_def by metis
  moreover have "names_unique ns' (insert p H)"
    unfolding names_unique_def
  proof (intro ballI impI)
    fix x y assume xy: "x \<in> insert p H" "y \<in> insert p H" "par ns' x = par ns' y"
      "map_option n_name (ns' x) = map_option n_name (ns' y)"
    have np: "map_option n_name (ns' p) = Some (Some nm)" by (simp add: ns')
    show "x = y"
    proof (cases "x = p \<or> y = p")
      case True
      then show ?thesis using xy prH prp nmH np new p(2) by (metis insertE)
    next
      case False
      then have "x \<in> H" "y \<in> H" using xy by auto
      then show ?thesis using xy prH nmH si by (simp add: store_inv_def names_unique_def)
    qed
  qed
  moreover have "root_ok ns'"
  proof -
    obtain x y where "ns x = Some y" "nodeid y = FUSE_ROOT_ID" "nlookup y > 0"
      using si unfolding store_inv_def root_ok_def by blast
    moreover from this obtain y' where y': "ns' x = Some y'" using dm [of x] by auto
    ultimately have "nodeid y' = FUSE_ROOT_ID \<and> nlookup y' > 0" using sub [OF y'] by auto
    with y' show ?thesis unfolding root_ok_def by blast
  qed
  moreover have "root_kept ns'"
    unfolding root_kept_def
  proof (intro allI impI)
    fix x y assume y: "ns' x = Some y" "nodeid y = FUSE_ROOT_ID"
    obtain y0 where "ns x = Some y0" "nodeid y0 = FUSE_ROOT_ID" "nlookup y = nlookup y0"
      using sub [OF y(1)] y(2) by metis
    with si show "0 < nlookup y" by (auto simp: store_inv_def root_kept_def)
  qed
  moreover have "pinned ns'"
    unfolding pinned_def
  proof (intro allI impI)
    fix x y assume y: "ns' x = Some y" "treelock y \<noteq> 0"
    obtain y0 where "ns x = Some y0" "treelock y0 \<noteq> 0" "nlookup y = nlookup y0"
      using sub [OF y(1)] y(2) by metis
    with si show "0 < nlookup y" by (auto simp: store_inv_def pinned_def)
  qed
  moreover have "unnamed_ok ns' (insert p H) (P - {p})"
    unfolding unnamed_ok_def
  proof (intro allI impI)
    fix x y assume y: "ns' x = Some y" "x \<notin> insert p H" "x \<notin> P - {p}" "nodeid y \<noteq> FUSE_ROOT_ID"
    obtain y0 where "ns x = Some y0" "nodeid y0 \<noteq> FUSE_ROOT_ID" "n_name y = n_name y0" "parent y = parent y0"
      using sub [OF y(1)] y by auto
    with y si show "n_name y = None \<and> parent y = None" by (auto simp: store_inv_def unnamed_ok_def)
  qed
  moreover have "ranked ns' (insert p H) (\<lambda>x. rank x + (if x \<in> below ns H p then rank q + 1 else 0))"
    by (rule ranked_link [OF _ p(2) q(2) prH prp]) (use si in \<open>auto simp: store_inv_def\<close>)
  ultimately show ?thesis by (auto simp: store_inv_def)
qed

lemma rehash_name_inv:
  assumes "table_inv (name_key (nodes f)) H d (name_table f)"
  shows "table_inv (name_key (nodes f)) H d (name_table (rehash_name f))" "nodes (rehash_name f) = nodes f"
    "rest_eq f (rehash_name f)" "lru_table (rehash_name f) = lru_table f"
    "id_table (rehash_name f) = id_table f"
  using assms rehash_inv [of "name_key (nodes f)" H d "name_table f" "allocs f"]
  by (auto simp: rehash_name_def rest_eq_def split: prod.splits)

text \<open>
  \<open>hash_name\<close> either fails for lack of memory, leaving the name null, or links the node
  under its new name. \<open>S\<close> is the set of nodes with an id: a new node has none yet.
\<close>

lemma hash_name_core:
  assumes tn: "table_inv (name_key (nodes f)) H 0 (name_table f)"
    and si: "store_inv (nodes f) H P r rank"
    and p: "nodes f p = Some n" "p \<notin> H" "nodeid n \<noteq> FUSE_ROOT_ID"
    and g: "get_node f pid = Some q" and q: "nodes f q = Some m" "nodeid m = pid"
      "q \<notin> below (nodes f) H p"
    and new: "\<And>c. c \<in> H \<Longrightarrow> \<not> name_match f pid nm c"
    and ns': "ns' = (nodes f)(q \<mapsto> m\<lparr>refctr := refctr m + 1\<rparr>, p \<mapsto> n\<lparr>n_name := Some nm, parent := Some q\<rparr>)"
  shows "(\<exists>a. hash_name f p pid nm = Some (-1, put_node p (n\<lparr>n_name := None\<rparr>) (f\<lparr>allocs := a\<rparr>))) \<or>
    (\<exists>f' rank'. hash_name f p pid nm = Some (0, f') \<and> nodes f' = ns' \<and>
       store_inv ns' (insert p H) (P - {p}) r rank' \<and>
       table_inv (name_key ns') (insert p H) 0 (name_table f') \<and>
       id_table f' = id_table f \<and> rest_eq f f' \<and> lru_table f' = lru_table f)"
proof -
  have qp: "q \<noteq> p" using q(3) below_refl by metis
  obtain ok a where al: "(if length nm < 32 then (True, allocs f) else alloc_pop (allocs f)) = (ok, a)"
    by fastforce
  show ?thesis
  proof (cases ok)
    case False
    then have "hash_name f p pid nm = Some (-1, put_node p (n\<lparr>n_name := None\<rparr>) (f\<lparr>allocs := a\<rparr>))"
      using g p al by (simp add: hash_name_def)
    then show ?thesis by blast
  next
    case True
    define h where "h = name_hash f pid nm"
    define f3 where "f3 = put_node p (n\<lparr>n_name := Some nm, parent := Some q\<rparr>)
      (put_node q (m\<lparr>refctr := refctr m + 1\<rparr>) (put_node p (n\<lparr>n_name := Some nm\<rparr>) (f\<lparr>allocs := a\<rparr>)))"
    define t where "t = name_table f"
    define f4 where "f4 = f3\<lparr>name_table := t\<lparr>tab_array := (tab_array t)[h := p # tab_array t ! h],
                                     tab_use := tab_use t + 1\<rparr>\<rparr>"
    define f' where "f' = (if tab_use (name_table f4) \<ge> tab_size (name_table f4) div 2
                then rehash_name f4 else f4)"
    have ns3: "nodes f3 = ns'" using qp by (auto simp: f3_def ns' fun_eq_iff)
    have "hash_name f p pid nm = Some (0, f')"
      using g p q True al qp
      by (simp add: hash_name_def f'_def f4_def f3_def t_def h_def Let_def)
    moreover obtain rank' where si': "store_inv ns' (insert p H) (P - {p}) r rank'"
    proof -
      have fin: "finite H" using tn by (auto simp: table_inv_def)
      have "map_option n_name (nodes f c) \<noteq> Some (Some nm)" if "c \<in> H" "par (nodes f) c = Some q" for c
        using new [OF that(1)] that q by (auto simp: name_match_def par_def bind_eq_Some_conv)
      from store_inv_link [OF si fin p q(1,3) this ns'] show thesis using that by blast
    qed
    moreover have t4: "table_inv (name_key (nodes f4)) (insert p H) 0 (name_table f4)"
    proof -
      have n4: "nodes f4 = ns'" using ns3 by (simp add: f4_def)
      have "table_inv (name_key ns') H 0 t"
      proof (rule table_inv_cong)
        show "table_inv (name_key (nodes f)) H 0 t" using tn by (simp add: t_def)
        show "name_key (nodes f) c = name_key ns' c" if c: "c \<in> H" for c
        proof -
          have "c \<noteq> p" using c p by blast
          then show ?thesis using p q qp
            by (auto simp: name_key_def ns' split: option.splits)
        qed
      qed
      moreover have "bucket_of t (name_key ns' p) = h"
        using q qp by (simp add: name_key_def ns' h_def name_hash_def t_def)
      ultimately show ?thesis
        unfolding n4 using table_push_inv [of "name_key ns'" H 0 t p] p(2) by (simp add: f4_def)
    qed
    moreover have "nodes f4 = ns'" using ns3 by (simp add: f4_def)
    moreover have "rest_eq f f4" "lru_table f4 = lru_table f" "id_table f4 = id_table f"
      by (simp_all add: f4_def f3_def rest_eq_def)
    ultimately have "hash_name f p pid nm = Some (0, f') \<and> nodes f' = ns' \<and>
       store_inv ns' (insert p H) (P - {p}) r rank' \<and>
       table_inv (name_key ns') (insert p H) 0 (name_table f') \<and>
       id_table f' = id_table f \<and> rest_eq f f' \<and> lru_table f' = lru_table f"
      using rehash_name_inv [OF t4] rest_eq_trans by (auto simp: f'_def)
    then show ?thesis by blast
  qed
qed

lemma hash_name_spec:
  assumes inv: "fuse_inv f" and p: "nodes f p = Some n" "p \<notin> linked f" "nodeid n \<noteq> FUSE_ROOT_ID"
    and q: "nodes f q = Some m" "q \<notin> below (nodes f) (linked f) p"
    and new: "lookup_node f (nodeid m) nm = None"
  obtains r f' where "hash_name f p (nodeid m) nm = Some (r, f')" "fuse_inv f'" "rest_eq f f'"
    "(r = -1 \<and> nodes f' = nodes f \<and> linked f' = linked f) \<or>
     (r = 0 \<and> linked f' = insert p (linked f) \<and>
      nodes f' = (nodes f)(q \<mapsto> m\<lparr>refctr := refctr m + 1\<rparr>, p \<mapsto> n\<lparr>n_name := Some nm, parent := Some q\<rparr>))"
proof -
  obtain rank where i: "ninv f (linked f) {} 0 (\<lambda>_. 0) rank" and al: "alive (nodes f) {}"
    and si: "store_inv (nodes f) (linked f) {} (\<lambda>_. 0) rank"
    by (rule fuse_invE [OF inv])
  have qp: "q \<noteq> p" using q(2) below_refl by metis
  have un: "n_name n = None" using si p unfolding store_inv_def unnamed_ok_def by auto
  have tn: "table_inv (name_key (nodes f)) (linked f) 0 (name_table f)" using i by (simp add: ninv_def)
  have g: "get_node f (nodeid m) = Some q" using q get_node_iff [OF inv] by auto
  have nw: "\<not> name_match f (nodeid m) nm c" if "c \<in> linked f" for c
    using new that lookup_node_iff [OF inv, of "nodeid m" nm c] by auto
  define ns' where "ns' = (nodes f)(q \<mapsto> m\<lparr>refctr := refctr m + 1\<rparr>, p \<mapsto> n\<lparr>n_name := Some nm, parent := Some q\<rparr>)"
  from hash_name_core [OF tn si p g q(1) refl q(2) nw ns'_def]
  consider (fail) a where "hash_name f p (nodeid m) nm = Some (-1, put_node p (n\<lparr>n_name := None\<rparr>) (f\<lparr>allocs := a\<rparr>))"
    | (ok) f' rank' where "hash_name f p (nodeid m) nm = Some (0, f')" "nodes f' = ns'"
       "store_inv ns' (insert p (linked f)) {} (\<lambda>_. 0) rank'"
       "table_inv (name_key ns') (insert p (linked f)) 0 (name_table f')"
       "id_table f' = id_table f" "rest_eq f f'"
    by auto
  then show thesis
  proof cases
    case fail
    have "n\<lparr>n_name := None\<rparr> = n" using un by simp
    then have "put_node p (n\<lparr>n_name := None\<rparr>) (f\<lparr>allocs := a\<rparr>) = f\<lparr>allocs := a\<rparr>"
      using p by (simp add: put_node_def fun_upd_idem)
    with fail that fuse_inv_upd(5) [OF inv, of a] show thesis
      by (simp add: rest_eq_def linked_def)
  next
    case ok
    have "dom ns' = dom (nodes f)" using p q by (auto simp: ns'_def)
    moreover have "table_inv (id_key ns') (dom (nodes f)) 0 (id_table f)"
      by (rule table_inv_cong [where key = "id_key (nodes f)"])
        (use i p q qp in \<open>auto simp: ninv_def id_key_def ns'_def\<close>)
    ultimately have i': "ninv f' (insert p (linked f)) {} 0 (\<lambda>_. 0) rank'"
      using ok i by (auto simp: ninv_def rest_eq_def)
    moreover have "alive (nodes f') {}"
    proof -
      have "refctr m > 0" "refctr n > 0" using al p(1) q(1) by (auto simp: alive_def)
      then show ?thesis using al by (auto simp: alive_def ok(2) ns'_def)
    qed
    ultimately have "fuse_inv f'" by (rule fuse_invI)
    then show thesis
      using that [OF ok(1)] ok(2,6) ninv_linked [OF i'] by (simp add: ns'_def)
  qed
qed

lemma below_mono:
  assumes "x \<in> below ns' H' p" "\<And>c q. c \<in> H' \<Longrightarrow> par ns' c = Some q \<Longrightarrow> c \<in> H \<and> par ns c = Some q"
  shows "x \<in> below ns H p"
proof -
  have "{(c, q). c \<in> H' \<and> par ns' c = Some q} \<subseteq> {(c, q). c \<in> H \<and> par ns c = Some q}"
    using assms(2) by auto
  from rtrancl_mono [OF this] assms(1) show ?thesis by (auto simp: below_def)
qed

section \<open>Renaming\<close>

text \<open>What unlinking \<open>p\<close> leaves of the tree.\<close>

lemma below_survives:
  assumes L: "linked f' = (linked f - {p}) \<inter> dom (nodes f')"
    and sv: "\<And>y. y \<noteq> p \<Longrightarrow> survives (nodes f) (nodes f') y"
    and x: "x \<in> below (nodes f') (linked f') z"
  shows "x \<in> below (nodes f) (linked f) z"
proof (rule below_mono [OF x])
  fix c q assume c: "c \<in> linked f'" "par (nodes f') c = Some q"
  then have "c \<noteq> p" "c \<in> linked f" using L by auto
  with c sv [of c] show "c \<in> linked f \<and> par (nodes f) c = Some q"
    by (auto simp: survives_def par_def bind_eq_Some_conv)
qed

text \<open>
  Moving a node to a free name. The kernel guarantees the hypotheses: both the moved node and
  the new directory are looked up, and the directory is not below the node.
\<close>

lemma move_spec:
  assumes inv: "fuse_inv f" and p: "nodes f p = Some n" "nodeid n \<noteq> FUSE_ROOT_ID"
    and q: "nodes f q = Some m" "nlookup m > 0" "q \<notin> below (nodes f) (linked f) p"
    and free: "\<And>c. lookup_node f (nodeid m) nm = Some c \<Longrightarrow> c = p"
  obtains f2 r f' where "unhash_name f p = Some f2" "hash_name f2 p (nodeid m) nm = Some (r, f')"
    "fuse_inv f'" "rest_eq f f'" "r = -1 \<or> r = 0"
    "\<And>pid nm'. r = 0 \<Longrightarrow> lookup_node f' pid nm' = Some p \<longleftrightarrow> pid = nodeid m \<and> nm' = nm"
    "r = 0 \<Longrightarrow> nodes f' p = Some (n\<lparr>n_name := Some nm, parent := Some q\<rparr>)"
    "\<And>pid nm' x. r = 0 \<Longrightarrow> x \<noteq> p \<Longrightarrow> lookup_node f' pid nm' = Some x \<longleftrightarrow>
       lookup_node f pid nm' = Some x \<and> nodes f' x \<noteq> None"
    "\<And>x k. nodes f x = Some k \<Longrightarrow> nlookup k > 0 \<Longrightarrow> nodes f' x \<noteq> None"
    "\<And>x. nodes f' x \<noteq> None \<Longrightarrow> nodes f x \<noteq> None"
    "counts f f'"
proof -
  have qp: "q \<noteq> p" using q(3) below_refl by metis
  obtain f2 where f2: "unhash_name f p = Some f2" "fuse_inv f2" "rest_eq f f2"
    "linked f2 = (linked f - {p}) \<inter> dom (nodes f2)"
    "nodes f2 p = Some (n\<lparr>n_name := None, parent := None\<rparr>)"
    "\<And>x. x \<noteq> p \<Longrightarrow> survives (nodes f) (nodes f2) x"
    by (rule unhash_name_spec [OF inv p]) blast
  define n2 where "n2 = n\<lparr>n_name := None, parent := None\<rparr>"
  have lk2: "lookup_node f2 pid nm' = Some x \<longleftrightarrow>
      lookup_node f pid nm' = Some x \<and> x \<noteq> p \<and> nodes f2 x \<noteq> None" for pid nm' x
    using lookup_survives [OF inv f2(2,4) _ f2(6), where pid = pid and nm = nm' and x = x] f2(5) p by auto
  obtain m2 where m2: "nodes f2 q = Some m2" "nodeid m2 = nodeid m"
    using f2(6) [OF qp] q by (auto simp: survives_def)
  have new: "lookup_node f2 (nodeid m2) nm = None"
    using lk2 free m2(2) by (metis not_Some_eq)
  have p2: "nodes f2 p = Some n2" "p \<notin> linked f2" "nodeid n2 \<noteq> FUSE_ROOT_ID"
    using f2(4,5) p by (auto simp: n2_def)
  have "q \<notin> below (nodes f2) (linked f2) p" using below_survives [OF f2(4,6)] q(3) by blast
  then obtain r f' where f': "hash_name f2 p (nodeid m2) nm = Some (r, f')" "fuse_inv f'" "rest_eq f2 f'"
    "(r = -1 \<and> nodes f' = nodes f2 \<and> linked f' = linked f2) \<or>
     (r = 0 \<and> linked f' = insert p (linked f2) \<and>
      nodes f' = (nodes f2)(q \<mapsto> m2\<lparr>refctr := refctr m2 + 1\<rparr>, p \<mapsto> n2\<lparr>n_name := Some nm, parent := Some q\<rparr>))"
    by (rule hash_name_spec [OF f2(2) p2 m2(1) _ new]) blast
  have dm: "nodes f' x \<noteq> None \<longleftrightarrow> nodes f2 x \<noteq> None" for x
    using f'(4) p2(1) m2(1) by (cases "x = p"; cases "x = q") auto
  have p': "nodes f' p = Some (n\<lparr>n_name := Some nm, parent := Some q\<rparr>)" if "r = 0"
    using f'(4) that qp by (auto simp: n2_def)
  have q': "nodes f' q = Some (m2\<lparr>refctr := refctr m2 + 1\<rparr>)" if "r = 0"
    using f'(4) that qp by auto
  have nm': "name_match f' pid nm' x \<longleftrightarrow> name_match f2 pid nm' x" if "r = 0" "x \<noteq> p" for pid nm' x
    using f'(4) that p2(1) m2(1) qp
    by (auto simp: name_match_def n2_def split: option.splits)
  show thesis
  proof (rule that [OF f2(1)])
    show "hash_name f2 p (nodeid m) nm = Some (r, f')" using f'(1) m2 by simp
    show "fuse_inv f'" by (rule f')
    show "rest_eq f f'" by (rule rest_eq_trans [OF f2(3) f'(3)])
    show "r = -1 \<or> r = 0" using f'(4) by auto
    show "lookup_node f' pid nm' = Some p \<longleftrightarrow> pid = nodeid m \<and> nm' = nm" if "r = 0" for pid nm'
    proof -
      have "linked f' = insert p (linked f2)" using f'(4) that by simp
      moreover have "name_match f' pid nm' p \<longleftrightarrow> pid = nodeid m \<and> nm' = nm"
        using p' [OF that] q' [OF that] m2(2) by (auto simp: name_match_def)
      ultimately show ?thesis by (simp add: lookup_node_iff [OF f'(2)])
    qed
    show "nodes f' p = Some (n\<lparr>n_name := Some nm, parent := Some q\<rparr>)" if "r = 0" by (rule p' [OF that])
    show "lookup_node f' pid nm' = Some x \<longleftrightarrow> lookup_node f pid nm' = Some x \<and> nodes f' x \<noteq> None"
      if "r = 0" "x \<noteq> p" for pid nm' x
    proof -
      have "linked f' = insert p (linked f2)" using f'(4) that by simp
      then have "lookup_node f' pid nm' = Some x \<longleftrightarrow> lookup_node f2 pid nm' = Some x"
        unfolding lookup_node_iff [OF f'(2)] lookup_node_iff [OF f2(2)] using nm' [OF that] that(2) by simp
      then show ?thesis using lk2 [of pid nm' x] dm [of x] that(2) by simp
    qed
    show "nodes f' x \<noteq> None" if "nodes f x = Some k" "nlookup k > 0" for x k
      using f2(5,6) that dm [of x] by (cases "x = p") (auto simp: survives_def)
    show "counts f f'"
    proof (rule counts_trans)
      show "counts f f2" by (rule counts_survives [OF f2(6)]) (use f2(5) p in auto)
      show "counts f2 f'" using f'(4) p2(1) m2(1) by (auto simp: counts_def split: if_splits)
    qed
    show "nodes f x \<noteq> None" if "nodes f' x \<noteq> None" for x
      using f2(6) [of x] that dm [of x] p by (cases "x = p") (auto simp: survives_def)
  qed
qed

end
