(* ===== verification/Node_Create.thy ===== *)
theory Node_Create
  imports Node_Ops
begin

text \<open>
  Creation of nodes: the search for an unused node id, \<open>find_node\<close>, and the root node that
  \<open>fuse_new\<close> installs. The search ends whenever fewer than \<open>2 ^ 32 - 2\<close> nodes exist.
\<close>

section \<open>The initial state\<close>

text \<open>
  The part of \<open>_fuse_new_31\<close> that sets up the node store; the options, the modules and the
  session are set up elsewhere. A failed allocation makes \<open>fuse_new\<close> return null (\<open>None\<close>).
\<close>

definition fuse_new_nodes :: "fuse_config \<Rightarrow> tape \<Rightarrow> timespec list \<Rightarrow> fuse option" where
  "fuse_new_nodes cfg a0 clk =
     (case node_table_init a0 of
        ((_, None), _) \<Rightarrow> None
      | ((_, Some nt), a1) \<Rightarrow>
          (case node_table_init a1 of
             ((_, None), _) \<Rightarrow> None
           | ((_, Some it), a2) \<Rightarrow>
               let f = \<lparr>name_table = nt, id_table = it, lru_table = [], ctr = 0, f_generation = 0,
                        hidectr = 0, conf = cfg, lockq = [], nodes = Map.empty, next_ptr = 0,
                        allocs = a2, clock = clk\<rparr>
               in (case alloc_node f of
                     (None, _) \<Rightarrow> None
                   | (Some root, f1) \<Rightarrow> do {
                       n \<leftarrow> nodes f1 root;
                       hash_id (put_node root (inc_nlookup (n\<lparr>n_name := Some ''/'', parent := None,
                                  nodeid := FUSE_ROOT_ID\<rparr>)) f1) root })))"

section \<open>The search for a node id\<close>

definition id_free :: "fuse \<Rightarrow> fuse_ino \<Rightarrow> bool" where
  "id_free f c \<longleftrightarrow> c \<noteq> 0 \<and> c \<noteq> FUSE_UNKNOWN_INO \<and> get_node_nocheck f c = None"

definition id_step :: "fuse \<Rightarrow> fuse" where
  "id_step f = (let c = (ctr f + 1) AND 0xffffffff in
     f\<lparr>ctr := c, f_generation := (if c = 0 then f_generation f + 1 else f_generation f)\<rparr>)"

lemma next_id_step:
  "next_id f = (if id_free (id_step f) (ctr (id_step f)) then Some (ctr (id_step f), id_step f)
                else next_id (id_step f))"
  by (subst next_id.simps) (auto simp: id_free_def id_step_def Let_def)

lemma id_free_step [simp]: "id_free (id_step f) = id_free f"
  by (rule ext) (simp add: id_free_def id_step_def get_node_nocheck_def id_hash_def id_match_def [abs_def] Let_def)

lemma unat_ctr_step: "unat (ctr (id_step f)) = (unat (ctr f) + 1) mod 2 ^ 32"
proof -
  have "(0xffffffff :: u64) = mask 32" by (simp add: mask_eq_exp_minus_1)
  then have "unat (ctr (id_step f)) = unat (take_bit 32 (ctr f + 1))"
    by (simp add: id_step_def Let_def take_bit_eq_mask)
  also have "\<dots> = take_bit 32 (unat (ctr f + 1))" by (simp add: unsigned_take_bit_eq)
  also have "\<dots> = (unat (ctr f) + 1) mod 2 ^ 64 mod 2 ^ 32"
    by (simp add: take_bit_eq_mod unat_word_ariths)
  also have "\<dots> = (unat (ctr f) + 1) mod 2 ^ 32" by (rule mod_mod_cancel) (simp add: le_imp_power_dvd)
  finally show ?thesis .
qed

text \<open>The key of the pair handed out, which orders the pairs (generation, id).\<close>

definition id_epoch :: "fuse \<Rightarrow> nat" where
  "id_epoch f = unat (f_generation f) * 2 ^ 32 + unat (ctr f)"

lemma id_epoch_step:
  assumes "unat (ctr f) < 2 ^ 32" "unat (f_generation f) < 2 ^ 32 - 1"
  shows "id_epoch (id_step f) = id_epoch f + 1"
proof (cases "unat (ctr f) + 1 = 2 ^ 32")
  case True
  then have z: "unat (ctr (id_step f)) = 0" by (simp add: unat_ctr_step)
  then have "ctr (id_step f) = 0" by (simp only: unat_eq_0)
  then have "f_generation (id_step f) = f_generation f + 1" by (auto simp: id_step_def Let_def)
  moreover have "unat (f_generation f + 1) = unat (f_generation f) + 1"
    using assms(2) by (simp add: unat_word_ariths)
  ultimately show ?thesis using True z by (simp add: id_epoch_def)
next
  case False
  then have z: "unat (ctr (id_step f)) = unat (ctr f) + 1" using assms(1) by (simp add: unat_ctr_step)
  then have "ctr (id_step f) \<noteq> 0" by auto
  then have "f_generation (id_step f) = f_generation f" by (auto simp: id_step_def Let_def)
  with z show ?thesis by (simp add: id_epoch_def)
qed

text \<open>
  The search runs through the ids cyclically and stops at the first free one. \<open>k\<close> counts
  the steps to a known free id \<open>c\<close>.
\<close>

lemma next_id_finds:
  assumes "id_free f c" "unat c = (unat (ctr f) + 1 + k) mod 2 ^ 32" "unat c < 2 ^ 32"
  shows "\<exists>j\<le>k. next_id f = Some (ctr ((id_step ^^ (j + 1)) f), (id_step ^^ (j + 1)) f) \<and>
    id_free f (ctr ((id_step ^^ (j + 1)) f))"
  using assms
proof (induction k arbitrary: f)
  case 0
  then have "ctr (id_step f) = c" by (simp add: word_unat_eq_iff unat_ctr_step)
  with 0 next_id_step [of f] show ?case by auto
next
  case (Suc k)
  show ?case
  proof (cases "id_free f (ctr (id_step f))")
    case True
    with next_id_step [of f] show ?thesis by auto
  next
    case False
    have "(unat (ctr (id_step f)) + 1 + k) mod 2 ^ 32 = (unat (ctr f) + 1 + Suc k) mod 2 ^ 32"
      unfolding unat_ctr_step using mod_add_left_eq [of "unat (ctr f) + 1" "2 ^ 32" "1 + k"]
      by (simp add: ac_simps)
    then obtain j where j: "j \<le> k"
      "next_id (id_step f) = Some (ctr ((id_step ^^ (j + 1)) (id_step f)), (id_step ^^ (j + 1)) (id_step f))"
      "id_free f (ctr ((id_step ^^ (j + 1)) (id_step f)))"
      using Suc.IH [of "id_step f"] Suc.prems by auto
    have "(id_step ^^ (j + 1)) (id_step f) = (id_step ^^ (Suc j + 1)) f"
      by (simp add: funpow_swap1)
    with j False next_id_step [of f] show ?thesis by (intro exI [of _ "Suc j"]) auto
  qed
qed

lemma id_step_iterate: "\<exists>c g. (id_step ^^ j) f = f\<lparr>ctr := c, f_generation := g\<rparr>"
proof (induction j)
  case 0
  show ?case by (intro exI [of _ "ctr f"] exI [of _ "f_generation f"]) simp
next
  case (Suc j)
  then obtain c g where "(id_step ^^ j) f = f\<lparr>ctr := c, f_generation := g\<rparr>" by blast
  then have "(id_step ^^ Suc j) f = id_step (f\<lparr>ctr := c, f_generation := g\<rparr>)" by simp
  then show ?case unfolding id_step_def Let_def by fastforce
qed

lemma id_epoch_iterate:
  assumes "unat (ctr f) < 2 ^ 32" "id_epoch f + j < (2 ^ 32 - 1) * 2 ^ 32"
  shows "id_epoch ((id_step ^^ j) f) = id_epoch f + j \<and> unat (ctr ((id_step ^^ j) f)) < 2 ^ 32"
  using assms
proof (induction j)
  case (Suc j)
  let ?g = "(id_step ^^ j) f"
  have e: "id_epoch ?g = id_epoch f + j" "unat (ctr ?g) < 2 ^ 32" using Suc by auto
  then have "unat (f_generation ?g) * 2 ^ 32 < (2 ^ 32 - 1) * 2 ^ 32"
    using Suc.prems(2) by (simp add: id_epoch_def)
  then have "unat (f_generation ?g) < 2 ^ 32 - 1" by simp
  with e id_epoch_step [of ?g] unat_ctr_step [of ?g] show ?case by simp
qed simp

text \<open>A free id exists as long as the nodes do not use up all \<open>2 ^ 32 - 2\<close> of them.\<close>

definition id_space :: "fuse_ino set" where
  "id_space = {c. 0 < unat c \<and> unat c < 2 ^ 32 - 1}"

lemma card_id_space: "card id_space = 2 ^ 32 - 2" "finite id_space"
proof -
  have img: "id_space = (word_of_nat :: nat \<Rightarrow> fuse_ino) ` {1..<2 ^ 32 - 1}"
  proof
    show "id_space \<subseteq> word_of_nat ` {1..<2 ^ 32 - 1}"
    proof
      fix c :: fuse_ino assume "c \<in> id_space"
      then have "c = word_of_nat (unat c)" "unat c \<in> {1..<2 ^ 32 - 1}" by (auto simp: id_space_def)
      then show "c \<in> word_of_nat ` {1..<2 ^ 32 - 1}" by (rule image_eqI)
    qed
    show "word_of_nat ` {1..<2 ^ 32 - 1} \<subseteq> id_space"
      by (auto simp: id_space_def unat_of_nat take_bit_nat_eq_self)
  qed
  have inj: "inj_on (word_of_nat :: nat \<Rightarrow> fuse_ino) {1..<2 ^ 32 - 1}"
    by (auto intro!: inj_onI simp: word_unat_eq_iff unat_of_nat take_bit_nat_eq_self)
  have "card id_space = card {1..<2 ^ 32 - 1 :: nat}" unfolding img by (rule card_image [OF inj])
  then show "card id_space = 2 ^ 32 - 2" by simp
  show "finite id_space" unfolding img by simp
qed

lemma free_id_exists:
  assumes inv: "fuse_inv f" and few: "card (dom (nodes f)) < 2 ^ 32 - 2"
  obtains c where "id_free f c" "unat c < 2 ^ 32"
proof -
  have fin: "finite (dom (nodes f))" by (rule fuse_inv_finite [OF inv])
  let ?used = "(\<lambda>p. nodeid (the (nodes f p))) ` dom (nodes f)"
  have "card ?used < card id_space" using card_image_le [OF fin] few card_id_space(1) le_less_trans by metis
  then obtain c where c: "c \<in> id_space" "c \<notin> ?used"
    using card_mono [OF finite_imageI [OF fin]] by (metis not_less subsetI)
  have "get_node f c = None"
  proof (rule ccontr)
    assume "get_node f c \<noteq> None"
    then obtain p where "get_node f c = Some p" by blast
    then obtain n where "nodes f p = Some n" "nodeid n = c" using get_node_iff [OF inv] by blast
    then have "c \<in> ?used" by force
    with c show False by simp
  qed
  moreover have "c \<noteq> 0" "c \<noteq> FUSE_UNKNOWN_INO" using c(1) by (auto simp: id_space_def FUSE_UNKNOWN_INO_def)
  ultimately show thesis using that c(1) by (auto simp: id_free_def get_node_def id_space_def)
qed

lemma next_id_spec:
  assumes c: "id_free f c" "unat c < 2 ^ 32"
  obtains ino g where "next_id f = Some (ino, f\<lparr>ctr := ino, f_generation := g\<rparr>)" "id_free f ino"
    "unat ino < 2 ^ 32"
    "unat (ctr f) < 2 ^ 32 \<Longrightarrow> unat (f_generation f) < 2 ^ 32 - 2 \<Longrightarrow>
       id_epoch f < unat g * 2 ^ 32 + unat ino"
proof -
  define k where "k = (unat c + 2 ^ 32 - (unat (ctr f) + 1) mod 2 ^ 32) mod 2 ^ 32"
  have lt: "(unat (ctr f) + 1) mod 2 ^ 32 < (2 ^ 32 :: nat)" by simp
  have "(unat (ctr f) + 1 + k) mod 2 ^ 32 = ((unat (ctr f) + 1) mod 2 ^ 32 + k) mod 2 ^ 32"
    by (rule mod_add_left_eq [symmetric])
  also have "\<dots> = ((unat (ctr f) + 1) mod 2 ^ 32 + (unat c + 2 ^ 32 - (unat (ctr f) + 1) mod 2 ^ 32)) mod 2 ^ 32"
    unfolding k_def by (rule mod_add_right_eq)
  also have "(unat (ctr f) + 1) mod 2 ^ 32 + (unat c + 2 ^ 32 - (unat (ctr f) + 1) mod 2 ^ 32) = unat c + 2 ^ 32"
    using lt by linarith
  finally have e: "unat c = (unat (ctr f) + 1 + k) mod 2 ^ 32" using c(2) by simp
  have kl: "k < 2 ^ 32" unfolding k_def by simp
  obtain j where j: "j \<le> k" "next_id f = Some (ctr ((id_step ^^ (j + 1)) f), (id_step ^^ (j + 1)) f)"
    "id_free f (ctr ((id_step ^^ (j + 1)) f))"
    using next_id_finds [OF c(1) e c(2)] by blast
  obtain i g where ig: "(id_step ^^ (j + 1)) f = f\<lparr>ctr := i, f_generation := g\<rparr>"
    using id_step_iterate by blast
  have "unat i = (unat (ctr ((id_step ^^ j) f)) + 1) mod 2 ^ 32"
    using unat_ctr_step [of "(id_step ^^ j) f"] ig by simp
  then have "unat i < 2 ^ 32" by simp
  moreover have "id_epoch f < unat g * 2 ^ 32 + unat i"
    if "unat (ctr f) < 2 ^ 32" "unat (f_generation f) < 2 ^ 32 - 2"
  proof -
    have "id_epoch f + (j + 1) < (2 ^ 32 - 1) * 2 ^ 32"
      using that j(1) kl by (simp add: id_epoch_def)
    from id_epoch_iterate [OF that(1) this] show ?thesis unfolding ig by (simp add: id_epoch_def)
  qed
  ultimately show thesis using j ig by (intro that [of i g]) auto
qed

section \<open>Adding a node to the store\<close>

lemma hash_id_spec:
  assumes t: "table_inv (id_key (nodes f)) S 0 (id_table f)" and p: "nodes f p = Some n" "p \<notin> S"
  obtains f' where "hash_id f p = Some f'" "nodes f' = nodes f" "name_table f' = name_table f"
    "rest_eq f f'" "lru_table f' = lru_table f"
    "table_inv (id_key (nodes f)) (insert p S) 0 (id_table f')"
proof -
  define h where "h = id_hash f (nodeid n)"
  define f1 where "f1 = f\<lparr>id_table := (id_table f)\<lparr>tab_array := (tab_array (id_table f))[h := p # tab_array (id_table f) ! h],
                               tab_use := tab_use (id_table f) + 1\<rparr>\<rparr>"
  have key: "id_key (nodes f) p = id_hash_full (nodeid n)" using p by (simp add: id_key_def)
  have t1: "table_inv (id_key (nodes f)) (insert p S) 0 (id_table f1)"
    using table_push_inv [OF t p(2) refl] by (simp add: f1_def h_def id_hash_def key)
  define f' where "f' = (if tab_use (id_table f1) \<ge> tab_size (id_table f1) div 2 then rehash_id f1 else f1)"
  have "hash_id f p = Some f'" using p by (simp add: hash_id_def f'_def f1_def h_def Let_def)
  moreover have "nodes f' = nodes f" "name_table f' = name_table f" "rest_eq f f'" "lru_table f' = lru_table f"
    by (simp_all add: f'_def f1_def rehash_id_def rest_eq_def split: prod.splits)
  moreover have "table_inv (id_key (nodes f)) (insert p S) 0 (id_table f')"
    using t1 rehash_inv [OF t1, of "allocs f1"] by (auto simp: f'_def rehash_id_def f1_def split: prod.splits)
  ultimately show thesis by (rule that)
qed

lemma store_inv_fresh:
  assumes si: "store_inv ns H P r rank" and p: "ns p = None" "r p = 0"
    and n: "n_name n = None" "parent n = None" "treelock n = 0" "nodeid n \<noteq> FUSE_ROOT_ID"
      "refctr n = (if nlookup n > 0 then 1 else 0)"
    and id: "\<And>x m. ns x = Some m \<Longrightarrow> nodeid m \<noteq> nodeid n"
  shows "store_inv (ns(p \<mapsto> n)) H P r rank" "children ns H p = {}" "p \<notin> H"
proof -
  show pH: "p \<notin> H" using si p unfolding store_inv_def linked_ok_def by force
  have pr: "par (ns(p \<mapsto> n)) x = par ns x" if "x \<in> H" for x
    using that pH by (auto simp: par_def)
  have ch: "children (ns(p \<mapsto> n)) H = children ns H"
    using pr by (auto simp: children_def fun_eq_iff)
  show none: "children ns H p = {}"
  proof -
    have "par ns c \<noteq> Some p" if "c \<in> H" for c
      by (rule linkedE [OF si that]) (use p in auto)
    then show ?thesis by (auto simp: children_def)
  qed
  have "linked_ok (ns(p \<mapsto> n)) H"
    unfolding linked_ok_def
  proof
    fix x assume x: "x \<in> H"
    obtain m q nm k where "ns x = Some m" "n_name m = Some nm" "parent m = Some q" "ns q = Some k"
        "nodeid m \<noteq> FUSE_ROOT_ID"
      by (rule linkedE [OF si x])
    then show "\<exists>n' q nm. (ns(p \<mapsto> n)) x = Some n' \<and> n_name n' = Some nm \<and> parent n' = Some q \<and>
        (ns(p \<mapsto> n)) q \<noteq> None \<and> nodeid n' \<noteq> FUSE_ROOT_ID"
      using p x pH by (intro exI [of _ m] exI [of _ q] exI [of _ nm]) auto
  qed
  moreover have "refs_ok (ns(p \<mapsto> n)) H r"
    using si n p none by (auto simp: store_inv_def refs_ok_def refs_def ch)
  moreover have "ids_unique (ns(p \<mapsto> n))"
    unfolding ids_unique_def
  proof (intro allI impI)
    fix x y a b assume "(ns(p \<mapsto> n)) x = Some a" "(ns(p \<mapsto> n)) y = Some b" "nodeid a = nodeid b"
    then show "x = y" using si id [of x] id [of y] unfolding store_inv_def ids_unique_def
      by (auto split: if_splits)
  qed
  moreover have "names_unique (ns(p \<mapsto> n)) H"
  proof -
    have "map_option n_name ((ns(p \<mapsto> n)) x) = map_option n_name (ns x)" if "x \<in> H" for x
      using that pH by auto
    then show ?thesis using si pr by (simp add: store_inv_def names_unique_def)
  qed
  moreover have "root_ok (ns(p \<mapsto> n))"
  proof -
    obtain q m where "ns q = Some m" "nodeid m = FUSE_ROOT_ID" "nlookup m > 0"
      using si unfolding store_inv_def root_ok_def by blast
    then have "(ns(p \<mapsto> n)) q = Some m \<and> nodeid m = FUSE_ROOT_ID \<and> nlookup m > 0" using p by auto
    then show ?thesis unfolding root_ok_def by blast
  qed
  moreover have "root_kept (ns(p \<mapsto> n))" "unnamed_ok (ns(p \<mapsto> n)) H P" "pinned (ns(p \<mapsto> n))"
    using si n by (auto simp: store_inv_def root_kept_def unnamed_ok_def pinned_def)
  moreover have "ranked (ns(p \<mapsto> n)) H rank"
    using si pr by (simp add: store_inv_def ranked_def)
  ultimately show "store_inv (ns(p \<mapsto> n)) H P r rank" by (simp add: store_inv_def)
qed

section \<open>The root\<close>

lemma fuse_new_nodes_inv:
  assumes "fuse_new_nodes cfg a clk = Some f"
  shows "fuse_inv f" "conf f = cfg" "linked f = {}" "nodes f = [0 \<mapsto> zero_node\<lparr>n_name := Some ''/'', nodeid := 1, refctr := 1, nlookup := 1\<rparr>]"
    "ctr f = 0" "f_generation f = 0"
proof -
  let ?n = "zero_node\<lparr>n_name := Some ''/'', nodeid := 1, refctr := 1, nlookup := 1\<rparr>"
  obtain nt it a1 a2 a3 where nt: "node_table_init a = ((0, Some nt), a1)"
      and it: "node_table_init a1 = ((0, Some it), a2)" and a3: "alloc_pop a2 = (True, a3)"
    using assms
    by (auto simp: fuse_new_nodes_def node_table_init_def alloc_node_def Let_def split: prod.splits option.splits bool.splits if_splits)
  define f1 where "f1 = \<lparr>name_table = nt, id_table = it, lru_table = [], ctr = 0, f_generation = 0,
                        hidectr = 0, conf = cfg, lockq = [], nodes = [0 \<mapsto> ?n], next_ptr = 1,
                        allocs = a3, clock = clk\<rparr>"
  have h: "hash_id f1 0 = Some f"
    using assms nt it a3
    by (simp add: fuse_new_nodes_def alloc_node_def Let_def f1_def put_node_def inc_nlookup_def
        zero_node_def FUSE_ROOT_ID_def)
  have tn: "table_inv key {} 0 nt" for key using node_table_init_inv nt by blast
  have ti: "table_inv (id_key (nodes f1)) {} 0 (id_table f1)"
    using node_table_init_inv it by (simp add: f1_def)
  obtain f' where f': "hash_id f1 0 = Some f'" "nodes f' = nodes f1" "name_table f' = name_table f1"
    "rest_eq f1 f'" "lru_table f' = lru_table f1"
    "table_inv (id_key (nodes f1)) (insert 0 {}) 0 (id_table f')"
    by (rule hash_id_spec [OF ti, of 0 ?n]) (auto simp: f1_def)
  have ff: "f' = f" using h f'(1) by simp
  have nf: "nodes f = [0 \<mapsto> ?n]" using f'(2) ff by (simp add: f1_def)
  have "store_inv [0 \<mapsto> ?n] {} {} (\<lambda>_. 0) (\<lambda>_. 0)"
    by (auto simp: store_defs refs_def children_def FUSE_ROOT_ID_def zero_node_def split: if_splits)
  then have i: "ninv f {} {} 0 (\<lambda>_. 0) (\<lambda>_. 0)"
    using f' tn unfolding ff by (auto simp: ninv_def f1_def rest_eq_def)
  show "fuse_inv f" by (rule fuse_invI [OF i]) (auto simp: nf alive_def split: if_splits)
  show "linked f = {}" by (rule ninv_linked [OF i])
  show "nodes f = [0 \<mapsto> ?n]" by (rule nf)
  show "conf f = cfg" "ctr f = 0" "f_generation f = 0"
    using f'(4) ff by (auto simp: rest_eq_def f1_def)
qed

section \<open>Finding or creating a child\<close>

lemma inc_nlookup_fields [simp]:
  "nodeid (inc_nlookup n) = nodeid n" "n_name (inc_nlookup n) = n_name n" "parent (inc_nlookup n) = parent n"
  "nlookup (inc_nlookup n) = nlookup n + 1" "treelock (inc_nlookup n) = treelock n"
  "refctr (inc_nlookup n) = refctr n + (if nlookup n = 0 then 1 else 0)"
  by (simp_all add: inc_nlookup_def Let_def)

lemma inc_nlookup_inv:
  assumes inv: "fuse_inv f" and p: "nodes f p = Some n"
  shows "fuse_inv (put_node p (inc_nlookup n) f)" "linked (put_node p (inc_nlookup n) f) = linked f"
proof -
  have "refctr n > 0" using inv p by (auto simp: fuse_inv_def alive_def)
  then show "fuse_inv (put_node p (inc_nlookup n) f)" "linked (put_node p (inc_nlookup n) f) = linked f"
    using fuse_inv_put [OF inv p, of "inc_nlookup n"] by auto
qed

lemma name_match_put:
  assumes "nodes f p = Some n" "nodeid n' = nodeid n" "n_name n' = n_name n" "parent n' = parent n"
  shows "name_match (put_node p n' f) pid nm x = name_match f pid nm x"
  using assms by (auto simp: name_match_def split: option.splits)

lemma lookup_node_cong:
  assumes "name_table f' = name_table f" "\<And>pid nm x. name_match f' pid nm x = name_match f pid nm x"
  shows "lookup_node f' = lookup_node f"
proof -
  have "name_match f' = name_match f" using assms(2) by (intro ext)
  with assms(1) show ?thesis by (intro ext) (simp add: lookup_node_def name_hash_def)
qed

lemma lookup_node_put:
  assumes "nodes f p = Some n" "nodeid n' = nodeid n" "n_name n' = n_name n" "parent n' = parent n"
  shows "lookup_node (put_node p n' f) = lookup_node f"
  by (rule lookup_node_cong) (simp_all add: name_match_put [OF assms])

lemma lookup_same:
  assumes "nodes f' = nodes f" "name_table f' = name_table f"
  shows "lookup_node f' = lookup_node f"
  by (rule lookup_node_cong [OF assms(2)]) (simp only: name_match_def assms(1))

text \<open>The node is already cached: one more lookup is counted.\<close>

lemma find_node_cached:
  assumes inv: "fuse_inv f" and l: "lookup_node f pid name = Some p" and n: "nodes f p = Some n"
  obtains f' where "find_node f pid (Some name) = Some (Some p, f')" "fuse_inv f'"
    "nodes f' = (nodes f)(p \<mapsto> inc_nlookup n)" "lookup_node f' = lookup_node f"
    "conf f' = conf f"
proof -
  define f1 where "f1 = (if lru_enabled f \<and> nlookup n = 1 then remove_node_lru f p else f)"
  have f1: "fuse_inv f1" "nodes f1 = nodes f" "lookup_node f1 = lookup_node f"
    using inv lookup_same [of f1 f] by (auto simp: f1_def remove_node_lru_def fuse_inv_upd)
  then have "fuse_inv (put_node p (inc_nlookup n) f1)" using inc_nlookup_inv n by simp
  moreover have "find_node f pid (Some name) = Some (Some p, put_node p (inc_nlookup n) f1)"
    using l n by (simp add: find_node_def f1_def)
  moreover have "lookup_node (put_node p (inc_nlookup n) f1) = lookup_node f"
    using lookup_node_put [of f1 p n "inc_nlookup n"] n f1 by simp
  moreover have "conf f1 = conf f" by (simp add: f1_def remove_node_lru_def)
  ultimately show thesis using that f1(2) by simp
qed

text \<open>
  The node is created. \<open>new_node\<close> is the node before it is linked: with \<open>remember\<close> it starts
  with one lookup of the library's own.
\<close>

definition new_node :: "fuse \<Rightarrow> fuse_ino \<Rightarrow> u32 \<Rightarrow> node" where
  "new_node f ino g =
     (let n = zero_node\<lparr>nodeid := ino, n_generation := g\<rparr>
      in if remember (conf f) \<noteq> 0 then inc_nlookup n else n)"

lemma new_node_fields:
  "nodeid (new_node f ino g) = ino" "n_name (new_node f ino g) = None" "parent (new_node f ino g) = None"
  "treelock (new_node f ino g) = 0" "nlookup (new_node f ino g) = (if remember (conf f) \<noteq> 0 then 1 else 0)"
  "refctr (new_node f ino g) = (if remember (conf f) \<noteq> 0 then 1 else 0)"
  by (simp_all add: new_node_def Let_def zero_node_def)

text \<open>The intermediate state in which the new node is neither linked nor hashed.\<close>

lemma fresh_state:
  assumes inv: "fuse_inv f" and f2: "nodes f2 = (nodes f)(next_ptr f \<mapsto> new_node f ino g)"
      "id_table f2 = id_table f" "name_table f2 = name_table f"
    and ino: "id_free f ino" "ino \<noteq> FUSE_ROOT_ID"
  obtains rank where "nodes f (next_ptr f) = None" "next_ptr f \<notin> linked f"
    "store_inv (nodes f2) (linked f) {} (\<lambda>_. 0) rank"
    "table_inv (name_key (nodes f2)) (linked f) 0 (name_table f2)"
    "table_inv (id_key (nodes f2)) (dom (nodes f)) 0 (id_table f2)"
    "below (nodes f2) (linked f) (next_ptr f) = {next_ptr f}"
proof -
  let ?p = "next_ptr f" and ?n = "new_node f ino g"
  obtain rank where i: "ninv f (linked f) {} 0 (\<lambda>_. 0) rank" and
    si: "store_inv (nodes f) (linked f) {} (\<lambda>_. 0) rank" by (rule fuse_invE [OF inv])
  have p: "nodes f ?p = None" using i by (auto simp: ninv_def)
  have id: "nodeid m \<noteq> nodeid ?n" if "nodes f x = Some m" for x m
  proof
    assume "nodeid m = nodeid ?n"
    then have "get_node f ino = Some x" using get_node_iff [OF inv] that by (auto simp: new_node_fields)
    then show False using ino(1) by (simp add: id_free_def get_node_def)
  qed
  have ref: "refctr ?n = (if nlookup ?n > 0 then 1 else 0)" and nr: "nodeid ?n \<noteq> FUSE_ROOT_ID"
    using ino(2) by (simp_all add: new_node_fields)
  have fr: "store_inv ((nodes f)(?p \<mapsto> ?n)) (linked f) {} (\<lambda>_. 0) rank"
    "children (nodes f) (linked f) ?p = {}" "?p \<notin> linked f"
    using store_inv_fresh [OF si p _ new_node_fields(2-4) nr ref] id by blast+
  have par: "par (nodes f2) c \<noteq> Some ?p" if c: "c \<in> linked f" for c
  proof -
    have "c \<noteq> ?p" using c fr(3) by blast
    then have "par (nodes f2) c = par (nodes f) c" by (simp add: f2 par_def)
    then show ?thesis using fr(2) c by (auto simp: children_def)
  qed
  show thesis
  proof (rule that)
    show "nodes f ?p = None" "?p \<notin> linked f" by (rule p, rule fr)
    show "store_inv (nodes f2) (linked f) {} (\<lambda>_. 0) rank" using fr(1) f2 by simp
    show "below (nodes f2) (linked f) ?p = {?p}" by (rule below_leaf [OF par])
    show "table_inv (id_key (nodes f2)) (dom (nodes f)) 0 (id_table f2)"
      unfolding f2(2)
      by (rule table_inv_cong [where key = "id_key (nodes f)"])
        (use i p in \<open>auto simp: ninv_def f2 id_key_def\<close>)
    show "table_inv (name_key (nodes f2)) (linked f) 0 (name_table f2)"
      unfolding f2(3)
    proof (rule table_inv_cong [where key = "name_key (nodes f)"])
      fix c assume c: "c \<in> linked f"
      obtain n q where n: "nodes f c = Some n" "parent n = Some q" "nodes f q \<noteq> None"
        by (rule linkedE [OF si c]) auto
      then have "c \<noteq> ?p" "q \<noteq> ?p" using p by auto
      with n show "name_key (nodes f) c = name_key (nodes f2) c"
        by (auto simp: name_key_def f2 split: option.splits)
    qed (use i in \<open>simp add: ninv_def\<close>)
  qed
qed


lemma get_node_grow:
  assumes inv: "fuse_inv f" and t: "id_table f1 = id_table f"
    and n: "\<And>x. nodes f x \<noteq> None \<Longrightarrow> nodes f1 x = nodes f x"
  shows "get_node_nocheck f1 = get_node_nocheck f"
proof
  fix ino
  have ti: "table_inv (id_key (nodes f)) (dom (nodes f)) 0 (id_table f)"
    using inv by (auto simp: fuse_inv_def ninv_def)
  let ?b = "id_hash f ino"
  have "?b < tab_size (id_table f)"
    unfolding id_hash_def by (rule bucket_of_less) (use ti in \<open>simp add: table_inv_def\<close>)
  then have sub: "set (tab_array (id_table f) ! ?b) \<subseteq> dom (nodes f)"
    using ti by (auto simp: table_inv_def buckets_def)
  have "find (id_match f1 ino) (tab_array (id_table f) ! ?b) = find (id_match f ino) (tab_array (id_table f) ! ?b)"
    by (rule find_cong) (use sub n in \<open>auto simp: id_match_def\<close>)
  then show "get_node_nocheck f1 ino = get_node_nocheck f ino"
    by (simp add: get_node_nocheck_def table_find_def id_hash_def t)
qed

lemma name_match_grow:
  assumes inv: "fuse_inv f" and n: "\<And>x. nodes f x \<noteq> None \<Longrightarrow> nodes f1 x = nodes f x" and c: "c \<in> linked f"
  shows "name_match f1 pid nm c = name_match f pid nm c"
proof -
  obtain rank where si: "store_inv (nodes f) (linked f) {} (\<lambda>_. 0) rank" by (rule fuse_invE [OF inv])
  obtain k q where "nodes f c = Some k" "parent k = Some q" "nodes f q \<noteq> None"
    by (rule linkedE [OF si c]) auto
  with n [of c] n [of q] show ?thesis by (simp add: name_match_def)
qed

text \<open>Linking and hashing the new node, from the intermediate state.\<close>

lemma install_new:
  assumes inv: "fuse_inv f" and f2: "nodes f2 = (nodes f)(next_ptr f \<mapsto> new_node f ino g)"
      "id_table f2 = id_table f" "name_table f2 = name_table f" "next_ptr f2 = Suc (next_ptr f)"
    and ino: "id_free f ino" "ino \<noteq> FUSE_ROOT_ID"
    and l: "lookup_node f pid name = None" and q: "nodes f q = Some m" "nodeid m = pid"
  obtains (nomem) f3 where "hash_name f2 (next_ptr f) pid name = Some (-1, f3)"
      "fuse_inv (free_node f3 (next_ptr f))" "nodes (free_node f3 (next_ptr f)) = nodes f"
      "name_table f3 = name_table f" "conf f3 = conf f2"
  | (ok) f3 f4 n4 where "hash_name f2 (next_ptr f) pid name = Some (0, f3)" "hash_id f3 (next_ptr f) = Some f4"
      "n4 = (new_node f ino g)\<lparr>n_name := Some name, parent := Some q\<rparr>"
      "nodes f4 = (nodes f)(q \<mapsto> m\<lparr>refctr := refctr m + 1\<rparr>, next_ptr f \<mapsto> n4)"
      "fuse_inv (put_node (next_ptr f) (inc_nlookup n4) f4)"
      "linked f4 = insert (next_ptr f) (linked f)" "rest_eq f2 f4"
proof -
  let ?p = "next_ptr f" and ?n = "new_node f ino g"
  obtain rank where fr: "nodes f ?p = None" "?p \<notin> linked f"
    "store_inv (nodes f2) (linked f) {} (\<lambda>_. 0) rank"
    "table_inv (name_key (nodes f2)) (linked f) 0 (name_table f2)"
    "table_inv (id_key (nodes f2)) (dom (nodes f)) 0 (id_table f2)"
    "below (nodes f2) (linked f) ?p = {?p}"
    by (rule fresh_state [OF inv f2(1-3) ino])
  have qp: "q \<noteq> ?p" using q fr by auto
  have grow: "nodes f2 x = nodes f x" if "nodes f x \<noteq> None" for x using that fr(1) f2(1) by auto
  have g: "get_node f2 pid = Some q"
    using get_node_grow [OF inv f2(2) grow] get_node_iff [OF inv] q by (simp add: get_node_def)
  have new: "\<not> name_match f2 pid name c" if c: "c \<in> linked f" for c
    using name_match_grow [OF inv grow c] lookup_node_iff [OF inv, of pid name c] l c by simp
  define ns' where "ns' = (nodes f2)(q \<mapsto> m\<lparr>refctr := refctr m + 1\<rparr>, ?p \<mapsto> ?n\<lparr>n_name := Some name, parent := Some q\<rparr>)"
  have pn: "nodes f2 ?p = Some ?n" "nodes f2 q = Some m" "nodeid ?n \<noteq> FUSE_ROOT_ID"
    using q qp ino by (simp_all add: f2(1) new_node_fields)
  have "q \<notin> below (nodes f2) (linked f) ?p" using fr(6) qp by simp
  from hash_name_core [OF fr(4,3) pn(1) fr(2) pn(3) g pn(2) q(2) this new ns'_def]
  consider (fail) a where "hash_name f2 ?p pid name = Some (-1, put_node ?p (?n\<lparr>n_name := None\<rparr>) (f2\<lparr>allocs := a\<rparr>))"
    | (good) f3 rank' where "hash_name f2 ?p pid name = Some (0, f3)" "nodes f3 = ns'"
       "store_inv ns' (insert ?p (linked f)) {} (\<lambda>_. 0) rank'"
       "table_inv (name_key ns') (insert ?p (linked f)) 0 (name_table f3)"
       "id_table f3 = id_table f2" "rest_eq f2 f3"
    by auto
  then show thesis
  proof cases
    case fail
    let ?f = "free_node (put_node ?p (?n\<lparr>n_name := None\<rparr>) (f2\<lparr>allocs := a\<rparr>)) ?p"
    have ns: "nodes ?f = nodes f" using fr(1) by (auto simp: free_node_def f2(1))
    obtain rank0 where i0: "ninv f (linked f) {} 0 (\<lambda>_. 0) rank0" and al: "alive (nodes f) {}"
      by (rule fuse_invE [OF inv])
    have "ninv ?f (linked f) {} 0 (\<lambda>_. 0) rank0"
      using i0 unfolding ninv_def ns
      by (auto simp: free_node_def f2(2-4) intro: less_SucI dest: bspec)
    then have "fuse_inv ?f" by (rule fuse_invI) (simp add: ns al)
    with fail ns f2(3) show thesis by (intro nomem [OF fail]) auto
  next
    case good
    have ns3: "nodes f3 = (nodes f)(q \<mapsto> m\<lparr>refctr := refctr m + 1\<rparr>, ?p \<mapsto> ?n\<lparr>n_name := Some name, parent := Some q\<rparr>)"
      using qp by (auto simp: good(2) ns'_def f2(1) fun_eq_iff)
    have "table_inv (id_key (nodes f3)) (dom (nodes f)) 0 (id_table f3)"
      unfolding good(5)
      by (rule table_inv_cong [where key = "id_key (nodes f2)"])
        (use fr q qp in \<open>auto simp: good(2) ns'_def id_key_def pn\<close>)
    moreover have "nodes f3 ?p = Some (?n\<lparr>n_name := Some name, parent := Some q\<rparr>)" by (simp add: ns3)
    moreover have "?p \<notin> dom (nodes f)" using fr(1) by auto
    ultimately obtain f4 where f4: "hash_id f3 ?p = Some f4" "nodes f4 = nodes f3" "name_table f4 = name_table f3"
      "rest_eq f3 f4" "lru_table f4 = lru_table f3"
      "table_inv (id_key (nodes f3)) (insert ?p (dom (nodes f))) 0 (id_table f4)"
      by (rule hash_id_spec)
    define n4 where "n4 = ?n\<lparr>n_name := Some name, parent := Some q\<rparr>"
    define f5 where "f5 = put_node ?p (inc_nlookup n4) f4"
    have dm: "dom (nodes f4) = insert ?p (dom (nodes f))" using q by (auto simp: f4(2) ns3)
    have i4: "ninv f4 (insert ?p (linked f)) {} 0 (\<lambda>_. 0) rank'"
    proof -
      have "next_ptr f4 = Suc ?p" using good(6) f4(4) f2(4) by (simp add: rest_eq_def)
      moreover have "\<forall>x\<in>dom (nodes f). x < ?p" using inv by (auto simp: fuse_inv_def ninv_def)
      ultimately have "\<forall>x\<in>dom (nodes f4). x < next_ptr f4" unfolding dm by (metis insert_iff lessI less_SucI)
      then show ?thesis using f4 good dm by (simp add: ninv_def)
    qed
    have si4: "store_inv (nodes f4) (insert ?p (linked f)) {} (\<lambda>_. 0) rank'" using i4 by (simp add: ninv_def)
    have p4: "nodes f4 ?p = Some n4" by (simp add: f4(2) ns3 n4_def)
    have ref4: "refctr n4 = refs (nodes f4) (insert ?p (linked f)) ?p n4"
      using si4 p4 unfolding store_inv_def refs_ok_def by auto
    have "ninv f5 (insert ?p (linked f)) {} 0 (\<lambda>_. 0) rank'"
      unfolding f5_def
    proof (rule ninv_put [OF i4 p4])
      show "0 = refctr (inc_nlookup n4) - refs (nodes f4) (insert ?p (linked f)) ?p (inc_nlookup n4)"
        using ref4 by (simp add: refs_def)
    qed auto
    moreover have "alive (nodes f5) {}"
    proof -
      have "refctr m > 0" using inv q by (auto simp: fuse_inv_def alive_def)
      moreover have "refctr (inc_nlookup n4) > 0"
        by (simp add: n4_def new_node_fields)
      moreover have "alive (nodes f) {}" using inv by (simp add: fuse_inv_def)
      ultimately show ?thesis by (auto simp: alive_def f5_def f4(2) ns3 split: if_splits)
    qed
    ultimately have "fuse_inv f5" by (rule fuse_invI)
    moreover have "linked f4 = insert ?p (linked f)" by (rule ninv_linked [OF i4])
    moreover have "rest_eq f2 f4" by (rule rest_eq_trans [OF good(6) f4(4)])
    ultimately show thesis using ok [OF good(1) f4(1) n4_def] f4(2) ns3 by (simp add: f5_def n4_def)
  qed
qed

lemma find_node_new:
  assumes inv: "fuse_inv f" and l: "lookup_node f pid name = None" and q: "nodes f q = Some m" "nodeid m = pid"
    and few: "card (dom (nodes f)) < 2 ^ 32 - 2"
  obtains (nomem) f' where "find_node f pid (Some name) = Some (None, f')" "fuse_inv f'" "nodes f' = nodes f"
      "lookup_node f' = lookup_node f" "conf f' = conf f"
  | (created) ino g f' where "find_node f pid (Some name) = Some (Some (next_ptr f), f')" "fuse_inv f'"
      "nodes f (next_ptr f) = None" "id_free f ino" "unat ino < 2 ^ 32"
      "unat (ctr f) < 2 ^ 32 \<Longrightarrow> unat (f_generation f) < 2 ^ 32 - 2 \<Longrightarrow> id_epoch f < id_epoch f'"
      "ctr f' = ino" "f_generation f' = g" "conf f' = conf f"
      "nodes f' = (nodes f)(q \<mapsto> m\<lparr>refctr := refctr m + 1\<rparr>,
         next_ptr f \<mapsto> inc_nlookup ((new_node f ino g)\<lparr>n_name := Some name, parent := Some q\<rparr>))"
      "linked f' = insert (next_ptr f) (linked f)"
proof -
  let ?p = "next_ptr f"
  obtain c where c: "id_free f c" "unat c < 2 ^ 32" by (rule free_id_exists [OF inv few])
  obtain ok a where al: "alloc_pop (allocs f) = (ok, a)" by fastforce
  show thesis
  proof (cases ok)
    case False
    have "fuse_inv (f\<lparr>allocs := a\<rparr>)" by (rule fuse_inv_upd(5) [OF inv])
    moreover have "find_node f pid (Some name) = Some (None, f\<lparr>allocs := a\<rparr>)"
      using l al False by (simp add: find_node_def alloc_node_def)
    moreover have "lookup_node (f\<lparr>allocs := a\<rparr>) = lookup_node f" by (rule lookup_same) simp_all
    ultimately show thesis using nomem [of "f\<lparr>allocs := a\<rparr>"] by simp
  next
    case True
    define f1 where "f1 = put_node ?p zero_node (f\<lparr>allocs := a, next_ptr := Suc ?p\<rparr>)"
    have p0: "nodes f ?p = None" using inv by (auto simp: fuse_inv_def ninv_def)
    have "get_node_nocheck f1 = get_node_nocheck f"
      by (rule get_node_grow [OF inv]) (use p0 in \<open>auto simp: f1_def\<close>)
    then have free1: "id_free f1 = id_free f" by (simp add: id_free_def fun_eq_iff)
    obtain ino g where ig: "next_id f1 = Some (ino, f1\<lparr>ctr := ino, f_generation := g\<rparr>)" "id_free f1 ino"
      "unat ino < 2 ^ 32" "unat (ctr f1) < 2 ^ 32 \<Longrightarrow> unat (f_generation f1) < 2 ^ 32 - 2 \<Longrightarrow>
       id_epoch f1 < unat g * 2 ^ 32 + unat ino"
      by (rule next_id_spec [of f1 c]) (use c free1 in auto)
    have free: "id_free f ino" using ig(2) free1 by simp
    have notroot: "ino \<noteq> FUSE_ROOT_ID"
    proof
      assume i: "ino = FUSE_ROOT_ID"
      obtain x k where "nodes f x = Some k" "nodeid k = FUSE_ROOT_ID"
        using inv unfolding fuse_inv_def ninv_def store_inv_def root_ok_def by blast
      then have "get_node f ino = Some x" using get_node_iff [OF inv] i by blast
      then show False using free by (simp add: id_free_def get_node_def)
    qed
    define f2 where "f2 = put_node ?p (new_node f ino g) (f1\<lparr>ctr := ino, f_generation := g\<rparr>)"
    have f2: "nodes f2 = (nodes f)(?p \<mapsto> new_node f ino g)" "id_table f2 = id_table f"
      "name_table f2 = name_table f" "next_ptr f2 = Suc ?p"
      by (simp_all add: f2_def f1_def)
    have step: "find_node f pid (Some name) =
       (case hash_name f2 ?p pid name of None \<Rightarrow> None | Some (res, f3) \<Rightarrow>
          if res = -1 then Some (None, free_node f3 ?p)
          else do { f4 \<leftarrow> hash_id f3 ?p; n4 \<leftarrow> nodes f4 ?p; Some (Some ?p, put_node ?p (inc_nlookup n4) f4) })"
      using l al True ig(1)
      by (simp add: find_node_def alloc_node_def f1_def f2_def new_node_def Let_def split: option.splits)
    show thesis
    proof (cases rule: install_new [OF inv f2 free notroot l q])
      case (1 f3)
      have "lookup_node (free_node f3 ?p) = lookup_node f"
        by (rule lookup_same) (use 1 in \<open>auto simp: free_node_def\<close>)
      moreover have "conf (free_node f3 ?p) = conf f" using 1(5) by (simp add: free_node_def f2_def f1_def)
      ultimately show thesis using 1 step by (intro nomem [of "free_node f3 ?p"]) auto
    next
      case (2 f3 f4 n4)
      let ?f = "put_node ?p (inc_nlookup n4) f4"
      have r: "ctr ?f = ino" "f_generation ?f = g" "conf ?f = conf f"
        using 2(7) by (auto simp: rest_eq_def f2_def f1_def)
      show thesis
      proof (rule created [of ?f ino g])
        show "find_node f pid (Some name) = Some (Some ?p, ?f)" using step 2 by simp
        show "id_epoch f < id_epoch ?f" if "unat (ctr f) < 2 ^ 32" "unat (f_generation f) < 2 ^ 32 - 2"
          using ig(4) that r by (simp add: id_epoch_def f1_def)
        show "linked ?f = insert ?p (linked f)" using 2(6) by (simp add: linked_def)
      qed (use 2 r free ig p0 in auto)
    qed
  qed
qed

text \<open>The names after a node has been created: the new one, and all those there were.\<close>

lemma created_names:
  assumes inv: "fuse_inv f" "fuse_inv f'" and q: "nodes f q = Some m" "nodeid m = pid" and p: "nodes f p = None"
    and ns: "nodes f' = (nodes f)(q \<mapsto> m\<lparr>refctr := refctr m + 1\<rparr>, p \<mapsto> n)"
    and n: "n_name n = Some name" "parent n = Some q" and lk: "linked f' = insert p (linked f)"
  shows "lookup_node f' pid' name' = Some x \<longleftrightarrow>
    (if x = p then pid' = pid \<and> name' = name else lookup_node f pid' name' = Some x)"
proof (cases "x = p")
  case True
  have "q \<noteq> p" using q(1) p by auto
  with True show ?thesis using n ns q lk by (auto simp: lookup_node_iff [OF inv(2)] name_match_def)
next
  case False
  have "name_match f' pid' name' x \<longleftrightarrow> name_match f pid' name' x" if x: "x \<in> linked f"
  proof -
    obtain rank where si: "store_inv (nodes f) (linked f) {} (\<lambda>_. 0) rank" by (rule fuse_invE [OF inv(1)])
    obtain k z nm kz where "nodes f x = Some k" "parent k = Some z" "nodes f z = Some kz"
      by (rule linkedE [OF si x])
    with False ns q(1) p show ?thesis by (auto simp: name_match_def)
  qed
  with False show ?thesis using lk by (auto simp: lookup_node_iff [OF inv(2)] lookup_node_iff [OF inv(1)])
qed

end
