(* ===== verification/Node_Rename.thy ===== *)
theory Node_Rename
  imports Node_Create
begin

text \<open>
  \<open>rename_node\<close> and \<open>exchange_node\<close>. The hypotheses are what the kernel guarantees of a
  rename request: source and target are different entries, both directories and the moved
  node have been looked up, and a directory is not moved below itself.
\<close>

section \<open>Renaming\<close>

lemma rename_prepare:
  assumes inv: "fuse_inv f" and p: "nodes f p = Some n" "nlookup n > 0"
    and q: "nodes f q = Some m" "nlookup m > 0" "q \<notin> below (nodes f) (linked f) p"
    and x: "\<And>x k. lookup_node f (nodeid m) nm = Some x \<Longrightarrow> nodes f x = Some k \<Longrightarrow>
      x \<noteq> p \<and> x \<noteq> q \<and> (remember (conf f) \<noteq> 0 \<longrightarrow> nlookup k > 1)"
  obtains f1 n1 m1 where "(case lookup_node f (nodeid m) nm of None \<Rightarrow> Some f | Some x \<Rightarrow> unlink_node f x) = Some f1"
    "fuse_inv f1" "rest_eq f f1" "nodes f1 p = Some n1" "nodeid n1 = nodeid n" "nlookup n1 = nlookup n"
    "nodes f1 q = Some m1" "nodeid m1 = nodeid m" "nlookup m1 = nlookup m"
    "q \<notin> below (nodes f1) (linked f1) p" "lookup_node f1 (nodeid m) nm = None"
    "\<And>pid nm' y. lookup_node f1 pid nm' = Some y \<longleftrightarrow>
       lookup_node f pid nm' = Some y \<and> lookup_node f (nodeid m) nm \<noteq> Some y \<and> nodes f1 y \<noteq> None"
    "\<And>y k. nodes f y = Some k \<Longrightarrow> nlookup k > 0 \<Longrightarrow> \<exists>k'. nodes f1 y = Some k' \<and> nlookup k' > 0"
    "remember (conf f) = 0 \<Longrightarrow> counts f f1"
proof (cases "lookup_node f (nodeid m) nm")
  case None
  have "nodes f y \<noteq> None" if "lookup_node f pid nm' = Some y" for pid nm' y
    by (rule lookup_linked [OF inv that]) simp
  with None inv p q show thesis by (intro that [of f n m]) auto
next
  case (Some x)
  obtain k where k: "nodes f x = Some k" "nodeid k \<noteq> FUSE_ROOT_ID" by (rule lookup_linked [OF inv Some])
  have xs: "x \<noteq> p" "x \<noteq> q" "remember (conf f) \<noteq> 0 \<Longrightarrow> nlookup k > 1" using assms(7) [OF Some k(1)] by auto
  obtain f1 where f1: "unlink_node f x = Some f1" "fuse_inv f1" "rest_eq f f1"
    "linked f1 = (linked f - {x}) \<inter> dom (nodes f1)"
    "nodes f1 x = Some (k\<lparr>n_name := None, parent := None,
       nlookup := nlookup k - (if remember (conf f) \<noteq> 0 then 1 else 0)\<rparr>)"
    "\<And>y. y \<noteq> x \<Longrightarrow> survives (nodes f) (nodes f1) y"
    by (rule unlink_node_spec [OF inv k xs(3)]) blast+
  obtain n1 where n1: "nodes f1 p = Some n1" "nodeid n1 = nodeid n" "nlookup n1 = nlookup n"
    using f1(6) [of p] xs(1) p by (auto simp: survives_def)
  obtain m1 where m1: "nodes f1 q = Some m1" "nodeid m1 = nodeid m" "nlookup m1 = nlookup m"
    using f1(6) [of q] xs(2) q by (auto simp: survives_def)
  have lk: "lookup_node f1 pid nm' = Some y \<longleftrightarrow>
      lookup_node f pid nm' = Some y \<and> y \<noteq> x \<and> nodes f1 y \<noteq> None" for pid nm' y
    using lookup_survives [OF inv f1(2,4) _ f1(6), where pid = pid and nm = nm' and x = y] f1(5) k(1) by auto
  show thesis
  proof (rule that [of f1 n1 m1])
    show "q \<notin> below (nodes f1) (linked f1) p" using below_survives [OF f1(4,6)] q(3) by blast
    show "lookup_node f1 (nodeid m) nm = None" using lk Some by (metis not_Some_eq option.inject)
    show "lookup_node f1 pid nm' = Some y \<longleftrightarrow>
       lookup_node f pid nm' = Some y \<and> lookup_node f (nodeid m) nm \<noteq> Some y \<and> nodes f1 y \<noteq> None" for pid nm' y
      using lk [of pid nm' y] Some by auto
    show "\<exists>k''. nodes f1 y = Some k'' \<and> nlookup k'' > 0" if "nodes f y = Some k'" "nlookup k' > 0" for y k'
    proof (cases "y = x")
      case True
      with f1(5) k(1) xs(3) that show ?thesis by auto
    next
      case False
      with f1(6) [OF False] that show ?thesis by (auto simp: survives_def)
    qed
    show "counts f f1" if "remember (conf f) = 0"
      by (rule counts_survives [OF f1(6)]) (use f1(5) k that in auto)
  qed (use f1 n1 m1 Some in auto)
qed

lemma rename_node_spec:
  assumes inv: "fuse_inv f" and l: "lookup_node f olddir oldname = Some p"
    and p: "nodes f p = Some n" "nlookup n > 0"
    and q: "nodes f q = Some m" "nlookup m > 0" "q \<notin> below (nodes f) (linked f) p"
    and x: "\<And>x k. lookup_node f (nodeid m) newname = Some x \<Longrightarrow> nodes f x = Some k \<Longrightarrow>
      x \<noteq> p \<and> x \<noteq> q \<and> (remember (conf f) \<noteq> 0 \<longrightarrow> nlookup k > 1)"
    and hide: "hide \<Longrightarrow> lookup_node f (nodeid m) newname = None"
  obtains r f' where "rename_node f olddir oldname (nodeid m) newname hide = Some (r, f')"
    "fuse_inv f'" "rest_eq f f'" "r = 0 \<or> r = - ENOMEM"
    "\<And>pid nm. r = 0 \<Longrightarrow> lookup_node f' pid nm = Some p \<longleftrightarrow> pid = nodeid m \<and> nm = newname"
    "\<And>pid nm y. r = 0 \<Longrightarrow> y \<noteq> p \<Longrightarrow> lookup_node f' pid nm = Some y \<longleftrightarrow>
       lookup_node f pid nm = Some y \<and> lookup_node f (nodeid m) newname \<noteq> Some y \<and> nodes f' y \<noteq> None"
    "\<And>y k. nodes f y = Some k \<Longrightarrow> nlookup k > 0 \<Longrightarrow> nodes f' y \<noteq> None"
    "r = 0 \<Longrightarrow> hide \<Longrightarrow> \<exists>k. nodes f' p = Some k \<and> is_hidden k"
    "remember (conf f) = 0 \<Longrightarrow> counts f f'"
proof -
  obtain f1 n1 m1 where
    f1: "(case lookup_node f (nodeid m) newname of None \<Rightarrow> Some f | Some x \<Rightarrow> unlink_node f x) = Some f1"
    "fuse_inv f1" "rest_eq f f1" and p1: "nodes f1 p = Some n1" "nodeid n1 = nodeid n" "nlookup n1 = nlookup n"
    and q1: "nodes f1 q = Some m1" "nodeid m1 = nodeid m" "nlookup m1 = nlookup m"
    "q \<notin> below (nodes f1) (linked f1) p" and new1: "lookup_node f1 (nodeid m) newname = None"
    and lk1: "\<And>pid nm' y. lookup_node f1 pid nm' = Some y \<longleftrightarrow>
       lookup_node f pid nm' = Some y \<and> lookup_node f (nodeid m) newname \<noteq> Some y \<and> nodes f1 y \<noteq> None"
    and keep1: "\<And>y k. nodes f y = Some k \<Longrightarrow> nlookup k > 0 \<Longrightarrow> \<exists>k'. nodes f1 y = Some k' \<and> nlookup k' > 0"
    and cnt1: "remember (conf f) = 0 \<Longrightarrow> counts f f1"
    by (rule rename_prepare [OF inv p q x]) blast+
  have root: "nodeid n1 \<noteq> FUSE_ROOT_ID" using lookup_linked [OF inv l] p p1 by auto
  have pos: "nlookup m1 > 0" using q1 q by simp
  have none1: "c = p" if "lookup_node f1 (nodeid m1) newname = Some c" for c using new1 that q1(2) by simp
  obtain f2 r f3 where f2: "unhash_name f1 p = Some f2" "hash_name f2 p (nodeid m1) newname = Some (r, f3)"
    "fuse_inv f3" "rest_eq f1 f3" "r = -1 \<or> r = 0"
    "\<And>pid nm'. r = 0 \<Longrightarrow> lookup_node f3 pid nm' = Some p \<longleftrightarrow> pid = nodeid m1 \<and> nm' = newname"
    "r = 0 \<Longrightarrow> nodes f3 p = Some (n1\<lparr>n_name := Some newname, parent := Some q\<rparr>)"
    "\<And>pid nm' x. r = 0 \<Longrightarrow> x \<noteq> p \<Longrightarrow> lookup_node f3 pid nm' = Some x \<longleftrightarrow>
       lookup_node f1 pid nm' = Some x \<and> nodes f3 x \<noteq> None"
    "\<And>x k. nodes f1 x = Some k \<Longrightarrow> nlookup k > 0 \<Longrightarrow> nodes f3 x \<noteq> None"
    "\<And>x. nodes f3 x \<noteq> None \<Longrightarrow> nodes f1 x \<noteq> None" "counts f1 f3"
    by (rule move_spec [OF f1(2) p1(1) root q1(1) pos q1(4) none1]) blast+
  have re: "rest_eq f f3" by (rule rest_eq_trans [OF f1(3) f2(4)])
  have keep3: "nodes f3 y \<noteq> None" if "nodes f y = Some k" "nlookup k > 0" for y k
    using keep1 [OF that] f2(9) by auto
  have cnt3: "counts f f3" if "remember (conf f) = 0" by (rule counts_trans [OF cnt1 [OF that] f2(11)])
  have lk3: "lookup_node f3 pid nm = Some y \<longleftrightarrow>
       lookup_node f pid nm = Some y \<and> lookup_node f (nodeid m) newname \<noteq> Some y \<and> nodes f3 y \<noteq> None"
    if "r = 0" "y \<noteq> p" for pid nm y
    using f2(8) [OF that] lk1 [of pid nm y] f2(10) [of y] by auto
  have start: "rename_node f olddir oldname (nodeid m) newname hide =
    (if r = -1 then Some (- ENOMEM, f3)
     else if hide then do { k \<leftarrow> nodes f3 p; Some (0, put_node p (k\<lparr>is_hidden := True\<rparr>) f3) }
     else Some (0, f3))"
    using l hide f1(1) f2(1,2) q1(2) by (auto simp: rename_node_def Let_def)
  show thesis
  proof (cases "r = 0 \<and> hide")
    case False
    have "rename_node f olddir oldname (nodeid m) newname hide = Some (if r = 0 then 0 else - ENOMEM, f3)"
      using start False f2(5) by auto
    then show thesis
      by (rule that) (use f2(3,6) q1(2) False re lk3 keep3 cnt3 in \<open>auto simp: ENOMEM_def split: if_splits\<close>)
  next
    case True
    define k where "k = n1\<lparr>n_name := Some newname, parent := Some q\<rparr>"
    define f' where "f' = put_node p (k\<lparr>is_hidden := True\<rparr>) f3"
    have k: "nodes f3 p = Some k" using f2(7) True by (simp add: k_def)
    have run: "rename_node f olddir oldname (nodeid m) newname hide = Some (0, f')"
      using start True k by (simp add: f'_def)
    have "refctr k > 0" using f2(3) k by (auto simp: fuse_inv_def alive_def)
    then have inv': "fuse_inv f'" unfolding f'_def
      by (intro fuse_inv_put(1) [OF f2(3) k]) (use p p1 in \<open>auto simp: k_def\<close>)
    have lk': "lookup_node f' = lookup_node f3"
      unfolding f'_def by (rule lookup_node_put [OF k]) simp_all
    have dm: "nodes f' y \<noteq> None \<longleftrightarrow> nodes f3 y \<noteq> None" for y using k by (simp add: f'_def)
    show thesis
    proof (rule that [OF run inv'])
      show "rest_eq f f'" using re by (simp add: f'_def rest_eq_def)
      show "lookup_node f' pid nm = Some p \<longleftrightarrow> pid = nodeid m \<and> nm = newname" for pid nm
        using f2(6) True q1(2) by (simp add: lk')
      show "lookup_node f' pid nm = Some y \<longleftrightarrow>
         lookup_node f pid nm = Some y \<and> lookup_node f (nodeid m) newname \<noteq> Some y \<and> nodes f' y \<noteq> None"
        if "y \<noteq> p" for pid nm y unfolding lk' dm using lk3 True that by blast
      show "nodes f' y \<noteq> None" if "nodes f y = Some k" "nlookup k > 0" for y k
        unfolding dm by (rule keep3 [OF that])
      show "\<exists>k. nodes f' p = Some k \<and> is_hidden k" by (simp add: f'_def)
      show "counts f f'" if "remember (conf f) = 0"
        by (rule counts_trans [OF cnt3 [OF that]]) (use k in \<open>simp add: counts_def f'_def\<close>)
    qed simp
  qed
qed

section \<open>Exchanging two names\<close>

text \<open>\<open>hash_name\<close> and \<open>unhash_name\<close> as operations on the mapping from names to nodes.\<close>

lemma hash_name_names:
  assumes inv: "fuse_inv f" and p: "nodes f p = Some n" "p \<notin> linked f" "nodeid n \<noteq> FUSE_ROOT_ID"
    and q: "nodes f q = Some m" "nodeid m = pid" "q \<notin> below (nodes f) (linked f) p"
    and new: "lookup_node f pid nm = None"
  obtains r f' where "hash_name f p pid nm = Some (r, f')" "fuse_inv f'" "rest_eq f f'" "r = -1 \<or> r = 0"
    "\<And>pid' nm' x. r = 0 \<Longrightarrow> lookup_node f' pid' nm' = Some x \<longleftrightarrow>
       (if x = p then pid' = pid \<and> nm' = nm else lookup_node f pid' nm' = Some x)"
    "\<And>x. nodes f' x \<noteq> None \<longleftrightarrow> nodes f x \<noteq> None"
    "r = 0 \<Longrightarrow> linked f' = insert p (linked f)"
    "r = 0 \<Longrightarrow> nodes f' = (nodes f)(q \<mapsto> m\<lparr>refctr := refctr m + 1\<rparr>, p \<mapsto> n\<lparr>n_name := Some nm, parent := Some q\<rparr>)"
    "counts f f'"
proof -
  have qp: "q \<noteq> p" using q(3) below_refl by metis
  have new': "lookup_node f (nodeid m) nm = None" using new q(2) by simp
  obtain r f' where f': "hash_name f p (nodeid m) nm = Some (r, f')" "fuse_inv f'" "rest_eq f f'"
    "(r = -1 \<and> nodes f' = nodes f \<and> linked f' = linked f) \<or>
     (r = 0 \<and> linked f' = insert p (linked f) \<and>
      nodes f' = (nodes f)(q \<mapsto> m\<lparr>refctr := refctr m + 1\<rparr>, p \<mapsto> n\<lparr>n_name := Some nm, parent := Some q\<rparr>))"
    by (rule hash_name_spec [OF inv p q(1,3) new']) blast
  have lk: "lookup_node f' pid' nm' = Some x \<longleftrightarrow>
       (if x = p then pid' = pid \<and> nm' = nm else lookup_node f pid' nm' = Some x)" if r: "r = 0" for pid' nm' x
  proof -
    have L: "linked f' = insert p (linked f)"
      and ns: "nodes f' = (nodes f)(q \<mapsto> m\<lparr>refctr := refctr m + 1\<rparr>, p \<mapsto> n\<lparr>n_name := Some nm, parent := Some q\<rparr>)"
      using f'(4) r by auto
    have "name_match f' pid' nm' x \<longleftrightarrow> (if x = p then pid' = pid \<and> nm' = nm else name_match f pid' nm' x)"
    proof (cases "x = p")
      case True
      then show ?thesis using q(2) qp by (auto simp: name_match_def ns)
    next
      case False
      then show ?thesis using p(1) q(1) qp by (auto simp: name_match_def ns split: option.splits)
    qed
    then show ?thesis
      unfolding lookup_node_iff [OF f'(2)] lookup_node_iff [OF inv] L using p(2) by auto
  qed
  have dm: "nodes f' x \<noteq> None \<longleftrightarrow> nodes f x \<noteq> None" for x
    using f'(4) p(1) q(1) by (cases "x = p"; cases "x = q") auto
  show thesis
  proof (rule that)
    show "hash_name f p pid nm = Some (r, f')" using f'(1) q(2) by simp
    show "fuse_inv f'" "rest_eq f f'" by (rule f')+
    show "r = -1 \<or> r = 0" using f'(4) by blast
    show "linked f' = insert p (linked f)" if "r = 0" using f'(4) that by simp
    show "nodes f' = (nodes f)(q \<mapsto> m\<lparr>refctr := refctr m + 1\<rparr>, p \<mapsto> n\<lparr>n_name := Some nm, parent := Some q\<rparr>)"
      if "r = 0" using f'(4) that by simp
    show "counts f f'" using f'(4) p(1) q(1) by (auto simp: counts_def split: if_splits)
  qed (rule lk, assumption, rule dm)
qed

lemma unhash_name_names:
  assumes inv: "fuse_inv f" and p: "nodes f p = Some n" "nodeid n \<noteq> FUSE_ROOT_ID"
  obtains f' where "unhash_name f p = Some f'" "fuse_inv f'" "rest_eq f f'" "p \<notin> linked f'"
    "nodes f' p = Some (n\<lparr>n_name := None, parent := None\<rparr>)"
    "\<And>pid nm x. lookup_node f' pid nm = Some x \<longleftrightarrow>
       lookup_node f pid nm = Some x \<and> x \<noteq> p \<and> nodes f' x \<noteq> None"
    "\<And>x. x \<noteq> p \<Longrightarrow> survives (nodes f) (nodes f') x"
    "\<And>x z. x \<in> below (nodes f') (linked f') z \<Longrightarrow> x \<in> below (nodes f) (linked f) z"
    "counts f f'"
proof -
  obtain f' where f': "unhash_name f p = Some f'" "fuse_inv f'" "rest_eq f f'"
    "linked f' = (linked f - {p}) \<inter> dom (nodes f')"
    "nodes f' p = Some (n\<lparr>n_name := None, parent := None\<rparr>)"
    "\<And>x. x \<noteq> p \<Longrightarrow> survives (nodes f) (nodes f') x"
    by (rule unhash_name_spec [OF inv p]) blast
  have lk: "lookup_node f' pid nm = Some x \<longleftrightarrow>
      lookup_node f pid nm = Some x \<and> x \<noteq> p \<and> nodes f' x \<noteq> None" for pid nm x
    using lookup_survives [OF inv f'(2,4) _ f'(6), where pid = pid and nm = nm and x = x] f'(5) p by auto
  show thesis
  proof (rule that [OF f'(1-3) _ f'(5) lk f'(6)])
    show "p \<notin> linked f'" using f'(4) by blast
    show "x \<in> below (nodes f) (linked f) z" if "x \<in> below (nodes f') (linked f') z" for x z
      by (rule below_survives [OF f'(4,6) that])
    show "counts f f'" by (rule counts_survives [OF f'(6)]) (use f'(5) p in auto)
  qed
qed

lemma below_link:
  assumes x: "x \<in> below ns' (insert p H) z" and pr: "\<And>c. c \<in> H \<Longrightarrow> par ns' c = par ns c" "par ns' p = Some q"
    and q: "q \<notin> below ns H z"
  shows "x \<in> below ns H z"
proof -
  have "(x, z) \<in> {(c, q). c \<in> insert p H \<and> par ns' c = Some q}\<^sup>*" using x by (simp add: below_def)
  then show ?thesis
  proof (induction rule: converse_rtrancl_induct)
    case base
    show ?case by simp
  next
    case (step y w)
    then have "y \<in> H" "par ns y = Some w" using pr q by auto
    then show ?case using step.IH by (rule below_child)
  qed
qed

lemma below_rank:
  assumes "store_inv ns H P r rank" "x \<in> below ns H z"
  shows "rank z \<le> rank x"
proof -
  have "(x, z) \<in> {(c, q). c \<in> H \<and> par ns c = Some q}\<^sup>*" using assms(2) by (simp add: below_def)
  then show ?thesis
    by (induction rule: converse_rtrancl_induct)
      (use assms(1) in \<open>auto simp: store_inv_def ranked_def dest: bspec less_imp_le order_trans\<close>)
qed

text \<open>
  The state in which both names have been taken off: \<open>p\<close> and \<open>q\<close> are the exchanged nodes,
  \<open>dp\<close> and \<open>dq\<close> their directories.
\<close>

lemma exchange_unlink:
  assumes inv: "fuse_inv f" and lp: "lookup_node f olddir oldname = Some p"
    and lq: "lookup_node f newdir newname = Some q" and pq: "p \<noteq> q"
    and p: "nodes f p = Some np" "nlookup np > 0" and q: "nodes f q = Some nq" "nlookup nq > 0"
  obtains f1 f2 np2 nq2 where "unhash_name f p = Some f1" "unhash_name f1 q = Some f2" "fuse_inv f2" "rest_eq f f2"
    "nodes f2 p = Some np2" "p \<notin> linked f2" "nodeid np2 \<noteq> FUSE_ROOT_ID" "nodeid np2 = nodeid np"
    "nodes f2 q = Some nq2" "q \<notin> linked f2" "nodeid nq2 \<noteq> FUSE_ROOT_ID" "nodeid nq2 = nodeid nq"
    "\<And>pid nm x. lookup_node f2 pid nm = Some x \<longleftrightarrow>
       lookup_node f pid nm = Some x \<and> x \<noteq> p \<and> x \<noteq> q \<and> nodes f2 x \<noteq> None"
    "\<And>x k. nodes f x = Some k \<Longrightarrow> nlookup k > 0 \<Longrightarrow> \<exists>k'. nodes f2 x = Some k' \<and> nodeid k' = nodeid k \<and> nlookup k' = nlookup k"
    "\<And>x z. x \<in> below (nodes f2) (linked f2) z \<Longrightarrow> x \<in> below (nodes f) (linked f) z"
    "counts f f2"
proof -
  have rp: "nodeid np \<noteq> FUSE_ROOT_ID" by (rule lookup_linked [OF inv lp]) (use p in auto)
  have rq: "nodeid nq \<noteq> FUSE_ROOT_ID" by (rule lookup_linked [OF inv lq]) (use q in auto)
  obtain f1 where f1: "unhash_name f p = Some f1" "fuse_inv f1" "rest_eq f f1" "p \<notin> linked f1"
    "nodes f1 p = Some (np\<lparr>n_name := None, parent := None\<rparr>)"
    "\<And>pid nm x. lookup_node f1 pid nm = Some x \<longleftrightarrow>
       lookup_node f pid nm = Some x \<and> x \<noteq> p \<and> nodes f1 x \<noteq> None"
    "\<And>x. x \<noteq> p \<Longrightarrow> survives (nodes f) (nodes f1) x"
    "\<And>x z. x \<in> below (nodes f1) (linked f1) z \<Longrightarrow> x \<in> below (nodes f) (linked f) z" "counts f f1"
    by (rule unhash_name_names [OF inv p(1) rp]) blast
  obtain nq1 where nq1: "nodes f1 q = Some nq1" "nodeid nq1 = nodeid nq"
    using f1(7) [of q] pq q by (auto simp: survives_def)
  then have rq1: "nodeid nq1 \<noteq> FUSE_ROOT_ID" using rq by simp
  obtain f2 where f2: "unhash_name f1 q = Some f2" "fuse_inv f2" "rest_eq f1 f2" "q \<notin> linked f2"
    "nodes f2 q = Some (nq1\<lparr>n_name := None, parent := None\<rparr>)"
    "\<And>pid nm x. lookup_node f2 pid nm = Some x \<longleftrightarrow>
       lookup_node f1 pid nm = Some x \<and> x \<noteq> q \<and> nodes f2 x \<noteq> None"
    "\<And>x. x \<noteq> q \<Longrightarrow> survives (nodes f1) (nodes f2) x"
    "\<And>x z. x \<in> below (nodes f2) (linked f2) z \<Longrightarrow> x \<in> below (nodes f1) (linked f1) z" "counts f1 f2"
    by (rule unhash_name_names [OF f1(2) nq1(1) rq1]) blast
  obtain np2 where np2: "nodes f2 p = Some np2" "nodeid np2 = nodeid np" "n_name np2 = None"
    using f2(7) [of p] pq f1(5) p(2) by (auto simp: survives_def)
  have "p \<notin> linked f2"
  proof
    assume "p \<in> linked f2"
    then show False using f2(2) np2 unfolding fuse_inv_def ninv_def store_inv_def linked_ok_def by force
  qed
  moreover have "\<exists>k'. nodes f2 x = Some k' \<and> nodeid k' = nodeid k \<and> nlookup k' = nlookup k"
    if x: "nodes f x = Some k" "nlookup k > 0" for x k
  proof -
    obtain k1 where k1: "nodes f1 x = Some k1" "nodeid k1 = nodeid k" "nlookup k1 = nlookup k"
      using f1(5) f1(7) [of x] x p by (cases "x = p") (auto simp: survives_def)
    then show ?thesis using f2(5) f2(7) [of x] x nq1 by (cases "x = q") (auto simp: survives_def)
  qed
  moreover have "lookup_node f2 pid nm = Some x \<longleftrightarrow>
       lookup_node f pid nm = Some x \<and> x \<noteq> p \<and> x \<noteq> q \<and> nodes f2 x \<noteq> None" for pid nm x
  proof -
    have "nodes f2 x \<noteq> None \<Longrightarrow> x \<noteq> q \<Longrightarrow> nodes f1 x \<noteq> None" using f2(7) [of x] by (auto simp: survives_def)
    then show ?thesis using f1(6) [of pid nm x] f2(6) [of pid nm x] by blast
  qed
  ultimately show thesis
    using f1(1) f2(1,2,4,5) rest_eq_trans [OF f1(3) f2(3)] np2 rp rq nq1 f1(8) f2(8) counts_trans [OF f1(9) f2(9)]
    by (intro that [of f1 f2 np2 "nq1\<lparr>n_name := None, parent := None\<rparr>"]) auto
qed

lemma exchange_node_spec:
  assumes inv: "fuse_inv f" and lp: "lookup_node f olddir oldname = Some p"
    and lq: "lookup_node f newdir newname = Some q" and pq: "p \<noteq> q"
    and p: "nodes f p = Some np" "nlookup np > 0" and q: "nodes f q = Some nq" "nlookup nq > 0"
    and dp: "nodes f dp = Some mp" "nodeid mp = olddir" "nlookup mp > 0" "dp \<notin> below (nodes f) (linked f) q"
    and dq: "nodes f dq = Some mq" "nodeid mq = newdir" "nlookup mq > 0" "dq \<notin> below (nodes f) (linked f) p"
  obtains r f' where "exchange_node f olddir oldname newdir newname = Some (r, f')" "fuse_inv f'" "rest_eq f f'"
    "r = 0 \<or> r = - ENOMEM"
    "\<And>pid nm x. r = 0 \<Longrightarrow> lookup_node f' pid nm = Some x \<longleftrightarrow>
       (if x = p then pid = newdir \<and> nm = newname else if x = q then pid = olddir \<and> nm = oldname
        else lookup_node f pid nm = Some x \<and> nodes f' x \<noteq> None)"
    "\<And>x k. nodes f x = Some k \<Longrightarrow> nlookup k > 0 \<Longrightarrow> nodes f' x \<noteq> None" "counts f f'"
proof -
  obtain f1 f2 np2 nq2 where f2: "unhash_name f p = Some f1" "unhash_name f1 q = Some f2" "fuse_inv f2" "rest_eq f f2"
    and p2: "nodes f2 p = Some np2" "p \<notin> linked f2" "nodeid np2 \<noteq> FUSE_ROOT_ID" "nodeid np2 = nodeid np"
    and q2: "nodes f2 q = Some nq2" "q \<notin> linked f2" "nodeid nq2 \<noteq> FUSE_ROOT_ID" "nodeid nq2 = nodeid nq"
    and lk2: "\<And>pid nm x. lookup_node f2 pid nm = Some x \<longleftrightarrow>
       lookup_node f pid nm = Some x \<and> x \<noteq> p \<and> x \<noteq> q \<and> nodes f2 x \<noteq> None"
    and keep2: "\<And>x k. nodes f x = Some k \<Longrightarrow> nlookup k > 0 \<Longrightarrow> \<exists>k'. nodes f2 x = Some k' \<and> nodeid k' = nodeid k \<and> nlookup k' = nlookup k"
    and bl2: "\<And>x z. x \<in> below (nodes f2) (linked f2) z \<Longrightarrow> x \<in> below (nodes f) (linked f) z"
    and cnt2: "counts f f2"
    by (rule exchange_unlink [OF inv lp lq pq p q]) blast
  obtain mq2 where mq2: "nodes f2 dq = Some mq2" "nodeid mq2 = newdir"
    using keep2 [OF dq(1,3)] dq(2) by auto
  have dq2: "dq \<notin> below (nodes f2) (linked f2) p" using bl2 dq(4) by blast
  have new2: "lookup_node f2 newdir newname = None" using lk2 lq by (metis not_Some_eq option.inject)
  obtain r1 f3 where f3: "hash_name f2 p newdir newname = Some (r1, f3)" "fuse_inv f3" "rest_eq f2 f3"
    "r1 = -1 \<or> r1 = 0"
    "\<And>pid' nm' x. r1 = 0 \<Longrightarrow> lookup_node f3 pid' nm' = Some x \<longleftrightarrow>
       (if x = p then pid' = newdir \<and> nm' = newname else lookup_node f2 pid' nm' = Some x)"
    "\<And>x. nodes f3 x \<noteq> None \<longleftrightarrow> nodes f2 x \<noteq> None"
    "r1 = 0 \<Longrightarrow> linked f3 = insert p (linked f2)"
    "r1 = 0 \<Longrightarrow> nodes f3 = (nodes f2)(dq \<mapsto> mq2\<lparr>refctr := refctr mq2 + 1\<rparr>, p \<mapsto> np2\<lparr>n_name := Some newname, parent := Some dq\<rparr>)"
    "counts f2 f3"
    by (rule hash_name_names [OF f2(3) p2(1-3) mq2 dq2 new2]) blast
  have keep3: "nodes f3 x \<noteq> None" if "nodes f x = Some k" "nlookup k > 0" for x k
    using keep2 [OF that] f3(6) [of x] by auto
  show thesis
  proof (cases "r1 = 0")
    case False
    then have "exchange_node f olddir oldname newdir newname = Some (- ENOMEM, f3)"
      using lp lq f2(1,2) f3(1,4) by (simp add: exchange_node_def)
    then show thesis
      by (rule that [OF _ f3(2) rest_eq_trans [OF f2(4) f3(3)] _ _ keep3 counts_trans [OF cnt2 f3(9)]])
        (simp_all add: ENOMEM_def)
  next
    case True
    have dqp: "dq \<noteq> p" using dq(4) below_refl by metis
    have q3: "q \<notin> linked f3" using f3(7) True q2(2) pq by simp
    obtain nq3 where nq3: "nodes f3 q = Some nq3" "nodeid nq3 \<noteq> FUSE_ROOT_ID"
      using f3(8) True q2 pq mq2 by (cases "q = dq") auto
    obtain mp3 where mp3: "nodes f3 dp = Some mp3" "nodeid mp3 = olddir"
    proof -
      obtain k where "nodes f2 dp = Some k" "nodeid k = olddir" using keep2 [OF dp(1,3)] dp(2) by auto
      with f3(8) True p2 mq2 that show thesis by (cases "dp = p"; cases "dp = dq") auto
    qed
    have "dp \<notin> below (nodes f3) (linked f3) q"
    proof
      assume b: "dp \<in> below (nodes f3) (linked f3) q"
      have "dq \<notin> below (nodes f) (linked f) q"
      proof
        assume d: "dq \<in> below (nodes f) (linked f) q"
        obtain rank where si: "store_inv (nodes f) (linked f) {} (\<lambda>_. 0) rank" by (rule fuse_invE [OF inv])
        have ql: "q \<in> linked f" and nmq: "name_match f newdir newname q"
          using lq lookup_node_iff [OF inv] by auto
        obtain n z nm' k where z: "nodes f q = Some n" "n_name n = Some nm'" "parent n = Some z" "nodes f z = Some k"
          "rank z < rank q" by (rule linkedE [OF si ql])
        then have "nodeid k = newdir" using nmq by (simp add: name_match_def)
        then have "z = dq" using si z(4) dq(1,2) unfolding store_inv_def ids_unique_def by blast
        then show False using below_rank [OF si d] z(5) by simp
      qed
      then have nb: "dq \<notin> below (nodes f2) (linked f2) q" using bl2 by blast
      have "dp \<in> below (nodes f2) (linked f2) q"
      proof (rule below_link [OF _ _ _ nb])
        show "dp \<in> below (nodes f3) (insert p (linked f2)) q" using b f3(7) True by simp
        show "par (nodes f3) c = par (nodes f2) c" if "c \<in> linked f2" for c
          using f3(8) True that p2(2) mq2(1) by (auto simp: par_def)
        show "par (nodes f3) p = Some dq" using f3(8) True by (simp add: par_def)
      qed
      then show False using bl2 dp(4) by blast
    qed
    moreover have "lookup_node f3 olddir oldname = None"
    proof (rule ccontr)
      assume "lookup_node f3 olddir oldname \<noteq> None"
      then obtain x where x: "lookup_node f3 olddir oldname = Some x" by blast
      show False
      proof (cases "x = p")
        case True
        then have "olddir = newdir" "oldname = newname" using f3(5) [OF \<open>r1 = 0\<close>] x by auto
        then show False using lp lq pq by simp
      next
        case False
        then show False using f3(5) [OF \<open>r1 = 0\<close>] x lk2 lp by auto
      qed
    qed
    ultimately obtain r2 f4 where f4: "hash_name f3 q olddir oldname = Some (r2, f4)" "fuse_inv f4" "rest_eq f3 f4"
      "r2 = -1 \<or> r2 = 0"
      "\<And>pid' nm' x. r2 = 0 \<Longrightarrow> lookup_node f4 pid' nm' = Some x \<longleftrightarrow>
         (if x = q then pid' = olddir \<and> nm' = oldname else lookup_node f3 pid' nm' = Some x)"
      "\<And>x. nodes f4 x \<noteq> None \<longleftrightarrow> nodes f3 x \<noteq> None" "counts f3 f4"
      by (rule hash_name_names [OF f3(2) nq3(1) q3 nq3(2) mp3]) blast
    have "exchange_node f olddir oldname newdir newname = Some (if r2 = 0 then 0 else - ENOMEM, f4)"
      using lp lq f2(1,2) f3(1) True f4(1,4) by (auto simp: exchange_node_def)
    then show thesis
    proof (rule that [OF _ f4(2) rest_eq_trans [OF rest_eq_trans [OF f2(4) f3(3)] f4(3)]])
      show "lookup_node f4 pid nm = Some x \<longleftrightarrow>
       (if x = p then pid = newdir \<and> nm = newname else if x = q then pid = olddir \<and> nm = oldname
        else lookup_node f pid nm = Some x \<and> nodes f4 x \<noteq> None)"
        if "(if r2 = 0 then 0 else - ENOMEM) = 0" for pid nm x
      proof -
        have r2: "r2 = 0" using that by (simp add: ENOMEM_def split: if_splits)
        show ?thesis unfolding f4(5) [OF r2] f3(5) [OF True] lk2 f4(6) f3(6) using pq by simp
      qed
      show "nodes f4 x \<noteq> None" if "nodes f x = Some k" "nlookup k > 0" for x k
        unfolding f4(6) by (rule keep3 [OF that])
      show "counts f f4" by (rule counts_trans [OF counts_trans [OF cnt2 f3(9)] f4(7)])
    qed auto
  qed
qed

end
