(* ===== verification/Node_Protocol.thy ===== *)
theory Node_Protocol
  imports Node_Rename
begin

text \<open>
  The node store seen from the kernel. The kernel counts the lookups it holds on every node
  id, and sends only requests for nodes it holds. \<open>kernel_exec\<close> runs the operation of
  the library that serves a request and updates the kernel's counts; \<open>kernel_may\<close> is the
  protocol, what the kernel checks before it sends the request. In every reachable state the
  library's lookup counts are the kernel's, the store is well formed, and no allowed request
  kills the process. The library runs with the default \<open>remember = 0\<close> here.
\<close>

section \<open>Requests\<close>

datatype kreq =
    KLookup fuse_ino string
  | KForget fuse_ino nat
  | KRemove fuse_ino string
  | KRename fuse_ino string fuse_ino string
  | KExchange fuse_ino string fuse_ino string

type_synonym kcount = "fuse_ino \<Rightarrow> nat"

text \<open>A forget that has to wait for a path lock leaves the count as it is.\<close>

fun kernel_exec :: "kreq \<Rightarrow> fuse \<times> kcount \<Rightarrow> (fuse \<times> kcount) option" where
  "kernel_exec (KLookup dir name) (f, K) =
     do { (r, f') \<leftarrow> find_node f dir (Some name);
          case r of None \<Rightarrow> Some (f', K)
          | Some p \<Rightarrow> do { n \<leftarrow> nodes f' p; Some (f', K(nodeid n := K (nodeid n) + 1)) } }"
| "kernel_exec (KForget ino k) (f, K) =
     do { (fin, f') \<leftarrow> forget_node 0 f ino k;
          Some (f', if fin then K(ino := K ino - k) else K) }"
| "kernel_exec (KRemove dir name) (f, K) = do { f' \<leftarrow> remove_node f dir name; Some (f', K) }"
| "kernel_exec (KRename olddir oldname newdir newname) (f, K) =
     do { (r, f') \<leftarrow> rename_node f olddir oldname newdir newname False; Some (f', K) }"
| "kernel_exec (KExchange olddir oldname newdir newname) (f, K) =
     do { (r, f') \<leftarrow> exchange_node f olddir oldname newdir newname; Some (f', K) }"

definition held :: "fuse \<Rightarrow> kcount \<Rightarrow> ptr \<Rightarrow> bool" where
  "held f K p \<longleftrightarrow> (\<exists>n. nodes f p = Some n \<and> K (nodeid n) > 0)"

text \<open>\<open>dir\<close> is a directory the kernel holds and that does not lie below the node \<open>p\<close>.\<close>

definition outside :: "fuse \<Rightarrow> kcount \<Rightarrow> fuse_ino \<Rightarrow> ptr \<Rightarrow> bool" where
  "outside f K dir p \<longleftrightarrow> K dir > 0 \<and> (\<forall>q. get_node f dir = Some q \<longrightarrow> q \<notin> below (nodes f) (linked f) p)"

fun kernel_may :: "kreq \<Rightarrow> fuse \<times> kcount \<Rightarrow> bool" where
  "kernel_may (KLookup dir name) (f, K) \<longleftrightarrow> K dir > 0 \<and> card (dom (nodes f)) < 2 ^ 32 - 2"
| "kernel_may (KForget ino k) (f, K) \<longleftrightarrow> 0 < k \<and> k \<le> K ino \<and> ino \<noteq> FUSE_ROOT_ID"
| "kernel_may (KRemove dir name) (f, K) \<longleftrightarrow> K dir > 0"
| "kernel_may (KRename olddir oldname newdir newname) (f, K) \<longleftrightarrow>
     (\<forall>p. lookup_node f olddir oldname = Some p \<longrightarrow> held f K p \<and> outside f K newdir p \<and>
        (\<forall>x. lookup_node f newdir newname = Some x \<longrightarrow> x \<noteq> p))"
| "kernel_may (KExchange olddir oldname newdir newname) (f, K) \<longleftrightarrow>
     (\<exists>p q. lookup_node f olddir oldname = Some p \<and> lookup_node f newdir newname = Some q \<and> p \<noteq> q \<and>
        held f K p \<and> held f K q \<and> outside f K newdir p \<and> outside f K olddir q)"

section \<open>Agreement of the counts\<close>

definition agrees :: "fuse \<Rightarrow> kcount \<Rightarrow> bool" where
  "agrees f K \<longleftrightarrow> (\<forall>p n. nodes f p = Some n \<longrightarrow> nlookup n = K (nodeid n)) \<and>
     (\<forall>ino. K ino > 0 \<longrightarrow> (\<exists>p n. nodes f p = Some n \<and> nodeid n = ino))"

definition kernel_inv :: "fuse \<times> kcount \<Rightarrow> bool" where
  "kernel_inv s \<longleftrightarrow> fuse_inv (fst s) \<and> agrees (fst s) (snd s) \<and> remember (conf (fst s)) = 0"

lemma agreesE:
  assumes "agrees f K" "K ino > 0"
  obtains p n where "nodes f p = Some n" "nodeid n = ino" "nlookup n = K ino"
  using assms unfolding agrees_def by metis

lemma heldE:
  assumes "held f K p" "agrees f K"
  obtains n where "nodes f p = Some n" "nlookup n > 0"
  using assms by (auto simp: held_def agrees_def)

text \<open>An operation that changes no count and keeps every held node keeps the agreement.\<close>

lemma agrees_counts:
  assumes a: "agrees f K" and c: "counts f f'"
    and keep: "\<And>x k. nodes f x = Some k \<Longrightarrow> nlookup k > 0 \<Longrightarrow> nodes f' x \<noteq> None"
  shows "agrees f' K"
  unfolding agrees_def
proof (intro conjI allI impI)
  fix p n assume "nodes f' p = Some n"
  then obtain m where "nodes f p = Some m" "nodeid n = nodeid m" "nlookup n = nlookup m"
    using c unfolding counts_def by blast
  then show "nlookup n = K (nodeid n)" using a by (auto simp: agrees_def)
next
  fix ino assume "0 < K ino"
  then obtain p n where p: "nodes f p = Some n" "nodeid n = ino" "nlookup n > 0"
    by (rule agreesE [OF a]) (use \<open>0 < K ino\<close> in auto)
  obtain n' where n': "nodes f' p = Some n'" using keep [OF p(1,3)] by blast
  then obtain m where "nodes f p = Some m" "nodeid n' = nodeid m" using c unfolding counts_def by blast
  then show "\<exists>p n. nodes f' p = Some n \<and> nodeid n = ino" using p n' by auto
qed

lemma agrees_put:
  assumes a: "agrees f K" and p: "nodes f p = Some n"
    and u: "\<And>x m. nodes f x = Some m \<Longrightarrow> nodeid m = nodeid n \<Longrightarrow> x = p"
    and ns: "nodes f' = (nodes f)(p \<mapsto> n')" "nodeid n' = nodeid n" "nlookup n' = k"
  shows "agrees f' (K(nodeid n := k))"
  unfolding agrees_def
proof (intro conjI allI impI)
  fix x m assume x: "nodes f' x = Some m"
  show "nlookup m = (K(nodeid n := k)) (nodeid m)"
  proof (cases "x = p")
    case True
    with x ns show ?thesis by auto
  next
    case False
    with x ns have m: "nodes f x = Some m" by simp
    then have "nodeid m \<noteq> nodeid n" using u False by blast
    with a m show ?thesis by (auto simp: agrees_def)
  qed
next
  fix ino assume i: "0 < (K(nodeid n := k)) ino"
  show "\<exists>x m. nodes f' x = Some m \<and> nodeid m = ino"
  proof (cases "ino = nodeid n")
    case True
    with ns show ?thesis by (intro exI [of _ p] exI [of _ n']) simp
  next
    case False
    with i have "0 < K ino" by simp
    then obtain x m where "nodes f x = Some m" "nodeid m = ino" by (rule agreesE [OF a])
    with False p ns show ?thesis by (intro exI [of _ x] exI [of _ m]) auto
  qed
qed

section \<open>Every allowed request keeps the agreement\<close>

definition kernel_ok :: "kreq \<Rightarrow> fuse \<times> kcount \<Rightarrow> bool" where
  "kernel_ok req s \<longleftrightarrow> (\<exists>s'. kernel_exec req s = Some s' \<and> kernel_inv s')"

lemma ids_unique_inv:
  assumes "fuse_inv f" "nodes f p = Some n" "nodes f x = Some m" "nodeid m = nodeid n"
  shows "x = p"
  using assms unfolding fuse_inv_def ninv_def store_inv_def ids_unique_def by blast

lemma lookup_ok:
  assumes inv: "kernel_inv (f, K)" and may: "kernel_may (KLookup dir name) (f, K)"
  shows "kernel_ok (KLookup dir name) (f, K)"
proof -
  have fi: "fuse_inv f" and a: "agrees f K" and r: "remember (conf f) = 0"
    using inv by (auto simp: kernel_inv_def)
  have dir: "K dir > 0" and few: "card (dom (nodes f)) < 2 ^ 32 - 2" using may by auto
  obtain q m where q: "nodes f q = Some m" "nodeid m = dir" by (rule agreesE [OF a dir])
  show ?thesis
  proof (cases "lookup_node f dir name")
    case (Some p)
    obtain n where n: "nodes f p = Some n" by (rule lookup_linked [OF fi Some])
    obtain f' where f': "find_node f dir (Some name) = Some (Some p, f')" "fuse_inv f'"
      "nodes f' = (nodes f)(p \<mapsto> inc_nlookup n)" "conf f' = conf f"
      by (rule find_node_cached [OF fi Some n])
    have "agrees f' (K(nodeid n := K (nodeid n) + 1))"
      by (rule agrees_put [OF a n _ f'(3)]) (use ids_unique_inv [OF fi n] a n in \<open>auto simp: agrees_def\<close>)
    with f' r show ?thesis by (simp add: kernel_ok_def kernel_inv_def)
  next
    case None
    show ?thesis
    proof (cases rule: find_node_new [OF fi None q few])
      case (1 f')
      have "agrees f' K" by (rule agrees_counts [OF a]) (use 1 in \<open>auto simp: counts_def\<close>)
      with 1 r show ?thesis by (simp add: kernel_ok_def kernel_inv_def)
    next
      case (2 ino g f')
      let ?p = "next_ptr f"
      define n' where "n' = inc_nlookup ((new_node f ino g)\<lparr>n_name := Some name, parent := Some q\<rparr>)"
      have ns: "nodes f' = (nodes f)(q \<mapsto> m\<lparr>refctr := refctr m + 1\<rparr>, ?p \<mapsto> n')" using 2 by (simp add: n'_def)
      have n': "nodeid n' = ino" "nlookup n' = 1" using r by (simp_all add: n'_def new_node_fields)
      have free: "nodeid k \<noteq> ino" if "nodes f x = Some k" for x k
        using get_node_iff [OF fi, of ino x] that \<open>id_free f ino\<close> by (auto simp: id_free_def get_node_def)
      then have z: "K ino = 0" using a unfolding agrees_def by (metis neq0_conv)
      have "agrees f' (K(ino := 1))"
        unfolding agrees_def
      proof (intro conjI allI impI)
        fix x k assume "nodes f' x = Some k"
        then consider "k = n'" | k0 where "nodes f x = Some k0" "nodeid k = nodeid k0" "nlookup k = nlookup k0"
          using q unfolding ns by (auto split: if_splits)
        then show "nlookup k = (K(ino := 1)) (nodeid k)"
        proof cases
          case 1
          then show ?thesis using n' by simp
        next
          case 2
          have "nlookup k0 = K (nodeid k0)" using a 2(1) unfolding agrees_def by blast
          with 2 free [OF 2(1)] show ?thesis by simp
        qed
      next
        fix i assume i: "0 < (K(ino := 1)) i"
        show "\<exists>x k. nodes f' x = Some k \<and> nodeid k = i"
        proof (cases "i = ino")
          case True
          then show ?thesis using n' ns by auto
        next
          case False
          then have "0 < K i" using i by simp
          then obtain x k where x: "nodes f x = Some k" "nodeid k = i" by (rule agreesE [OF a])
          define k' where "k' = (if x = q then m\<lparr>refctr := refctr m + 1\<rparr> else k)"
          have "x \<noteq> ?p" using x(1) \<open>nodes f ?p = None\<close> by auto
          then have "nodes f' x = Some k'" "nodeid k' = i" using x q unfolding ns k'_def by auto
          then show ?thesis by blast
        qed
      qed
      moreover have "nodes f' ?p = Some n'" using ns by simp
      ultimately show ?thesis using 2(1,2,9) r n' z by (simp add: kernel_ok_def kernel_inv_def)
    qed
  qed
qed

lemma forget_ok:
  assumes inv: "kernel_inv (f, K)" and may: "kernel_may (KForget ino k) (f, K)"
  shows "kernel_ok (KForget ino k) (f, K)"
proof -
  have fi: "fuse_inv f" and a: "agrees f K" and r: "remember (conf f) = 0"
    using inv by (auto simp: kernel_inv_def)
  have k: "0 < k" "k \<le> K ino" "ino \<noteq> FUSE_ROOT_ID" using may by auto
  obtain p n where p: "nodes f p = Some n" "nodeid n = ino" "nlookup n = K ino"
    by (rule agreesE [OF a, of ino]) (use k in auto)
  have g: "get_node f ino = Some p" using get_node_iff [OF fi] p by blast
  have root: "nodeid n \<noteq> FUSE_ROOT_ID" using p k by simp
  show ?thesis
  proof (cases "nlookup n = k \<and> treelock n \<noteq> 0")
    case True
    then have "forget_node 0 f ino k = Some (False, queue_path f (blank_qe 0 ino))"
      using k p g by (simp add: forget_node_def)
    moreover have "fuse_inv (queue_path f (blank_qe 0 ino))" by (simp add: queue_path_def fuse_inv_upd(3) [OF fi])
    moreover have "agrees (queue_path f (blank_qe 0 ino)) K"
      using a by (simp add: agrees_def queue_path_def)
    ultimately show ?thesis using r by (simp add: kernel_ok_def kernel_inv_def queue_path_def)
  next
    case False
    have kn: "k \<le> nlookup n" "nlookup n = k \<longrightarrow> treelock n = 0" using k p False by auto
    obtain f' where f': "forget_finish f p k = Some f'" "fuse_inv f'" "linked f' = linked f \<inter> dom (nodes f')"
      "\<And>x. x \<noteq> p \<Longrightarrow> survives (nodes f) (nodes f') x"
      "nodes f' p = None \<longleftrightarrow> nlookup n = k \<and> children (nodes f) (linked f) p = {}"
      "\<And>m. nodes f' p = Some m \<Longrightarrow> nlookup m = nlookup n - k \<and> nodeid m = nodeid n \<and>
        n_name m = n_name n \<and> parent m = parent n" "conf f' = conf f"
      by (rule forget_finish_spec [OF fi p(1) root k(1) kn]) (rule that; blast)
    have "agrees f' (K(ino := K ino - k))"
      unfolding agrees_def
    proof (intro conjI allI impI)
      fix x m assume x: "nodes f' x = Some m"
      show "nlookup m = (K(ino := K ino - k)) (nodeid m)"
      proof (cases "x = p")
        case True
        then show ?thesis using f'(6) x p by auto
      next
        case False
        obtain m0 where m0: "nodes f x = Some m0" "nodeid m = nodeid m0" "nlookup m = nlookup m0"
          by (rule survivesD [OF f'(4) [OF False] x])
        then have "nodeid m0 \<noteq> ino" using ids_unique_inv [OF fi p(1), of x m0] False p(2) by auto
        then show ?thesis using m0 a by (auto simp: agrees_def)
      qed
    next
      fix i assume i: "0 < (K(ino := K ino - k)) i"
      show "\<exists>x m. nodes f' x = Some m \<and> nodeid m = i"
      proof (cases "i = ino")
        case True
        then have "nlookup n \<noteq> k" using i p by simp
        then show ?thesis using f'(5,6) p True by (cases "nodes f' p") auto
      next
        case False
        then have "0 < K i" using i by simp
        then obtain x m where x: "nodes f x = Some m" "nodeid m = i" "nlookup m > 0"
          by (rule agreesE [OF a]) (use \<open>0 < K i\<close> in auto)
        then have "x \<noteq> p" using False p by auto
        with f'(4) [OF this] x have "\<exists>m'. nodes f' x = Some m' \<and> nodeid m' = i" by (auto simp: survives_def)
        then show ?thesis by blast
      qed
    qed
    moreover have "forget_node 0 f ino k = Some (True, f')"
      using k p g f'(1) False by (auto simp: forget_node_def)
    ultimately show ?thesis using f' r by (simp add: kernel_ok_def kernel_inv_def)
  qed
qed

lemma remove_ok:
  assumes inv: "kernel_inv (f, K)"
  shows "kernel_ok (KRemove dir name) (f, K)"
proof -
  have fi: "fuse_inv f" and a: "agrees f K" and r: "remember (conf f) = 0"
    using inv by (auto simp: kernel_inv_def)
  show ?thesis
  proof (cases "lookup_node f dir name")
    case None
    then show ?thesis using inv by (simp add: kernel_ok_def remove_node_def)
  next
    case (Some p)
    obtain n where n: "nodes f p = Some n" by (rule lookup_linked [OF fi Some])
    obtain f' where f': "remove_node f dir name = Some f'" "fuse_inv f'" "rest_eq f f'"
      and keep: "\<And>x m. nodes f x = Some m \<Longrightarrow> nlookup m > 0 \<Longrightarrow> nodes f' x \<noteq> None" and c: "counts f f'"
      by (rule remove_node_spec [OF fi Some n]) (use r in blast)+
    have "agrees f' K" by (rule agrees_counts [OF a c keep])
    with f' r show ?thesis by (simp add: kernel_ok_def kernel_inv_def rest_eq_def)
  qed
qed

lemma rename_ok:
  assumes inv: "kernel_inv (f, K)" and may: "kernel_may (KRename olddir oldname newdir newname) (f, K)"
  shows "kernel_ok (KRename olddir oldname newdir newname) (f, K)"
proof -
  have fi: "fuse_inv f" and a: "agrees f K" and r: "remember (conf f) = 0"
    using inv by (auto simp: kernel_inv_def)
  show ?thesis
  proof (cases "lookup_node f olddir oldname")
    case None
    then show ?thesis using inv by (simp add: kernel_ok_def rename_node_def)
  next
    case (Some p)
    then have h: "held f K p" "K newdir > 0" "\<And>q. get_node f newdir = Some q \<Longrightarrow> q \<notin> below (nodes f) (linked f) p"
      "\<And>x. lookup_node f newdir newname = Some x \<Longrightarrow> x \<noteq> p"
      using may by (auto simp: outside_def)
    obtain n where n: "nodes f p = Some n" "nlookup n > 0" by (rule heldE [OF h(1) a])
    obtain q m where q: "nodes f q = Some m" "nodeid m = newdir" "nlookup m > 0"
      by (rule agreesE [OF a h(2)]) (use h(2) in auto)
    have qb: "q \<notin> below (nodes f) (linked f) p" using h(3) get_node_iff [OF fi] q by blast
    have x: "x \<noteq> p \<and> x \<noteq> q \<and> (remember (conf f) \<noteq> 0 \<longrightarrow> nlookup k > 1)"
      if "lookup_node f (nodeid m) newname = Some x" "nodes f x = Some k" for x k
    proof -
      obtain rank where si: "store_inv (nodes f) (linked f) {} (\<lambda>_. 0) rank" by (rule fuse_invE [OF fi])
      have xl: "x \<in> linked f" "name_match f newdir newname x" using that lookup_node_iff [OF fi] q(2) by auto
      obtain z kz where z: "nodes f z = Some kz" "par (nodes f) x = Some z" "rank z < rank x"
        by (rule linkedE [OF si xl(1)])
      have "nodeid kz = newdir" using xl(2) z that(2) by (auto simp: name_match_def par_def)
      then have "z = q" using ids_unique_inv [OF fi q(1) z(1)] q(2) by simp
      then show ?thesis using z h(4) that q(2) r by auto
    qed
    obtain res f' where f': "rename_node f olddir oldname (nodeid m) newname False = Some (res, f')"
      "fuse_inv f'" "rest_eq f f'"
      and keep: "\<And>y k. nodes f y = Some k \<Longrightarrow> nlookup k > 0 \<Longrightarrow> nodes f' y \<noteq> None" and c: "counts f f'"
    proof (rule rename_node_spec [OF fi Some n q(1,3) qb x, where hide = False])
      fix res f'
      assume run: "rename_node f olddir oldname (nodeid m) newname False = Some (res, f')"
        "fuse_inv f'" "rest_eq f f'"
        and keep: "\<And>y k. nodes f y = Some k \<Longrightarrow> nlookup k > 0 \<Longrightarrow> nodes f' y \<noteq> None"
        and c: "remember (conf f) = 0 \<Longrightarrow> counts f f'"
      show thesis by (rule that [OF run keep c [OF r]])
    qed auto
    have "agrees f' K" by (rule agrees_counts [OF a c keep])
    with f' r q(2) show ?thesis by (simp add: kernel_ok_def kernel_inv_def rest_eq_def)
  qed
qed

lemma exchange_ok:
  assumes inv: "kernel_inv (f, K)" and may: "kernel_may (KExchange olddir oldname newdir newname) (f, K)"
  shows "kernel_ok (KExchange olddir oldname newdir newname) (f, K)"
proof -
  have fi: "fuse_inv f" and a: "agrees f K" and r: "remember (conf f) = 0"
    using inv by (auto simp: kernel_inv_def)
  obtain p q where l: "lookup_node f olddir oldname = Some p" "lookup_node f newdir newname = Some q" "p \<noteq> q"
    and h: "held f K p" "held f K q" "outside f K newdir p" "outside f K olddir q"
    using may by auto
  obtain np where np: "nodes f p = Some np" "nlookup np > 0" by (rule heldE [OF h(1) a])
  obtain nq where nq: "nodes f q = Some nq" "nlookup nq > 0" by (rule heldE [OF h(2) a])
  have dir: "\<exists>d m. nodes f d = Some m \<and> nodeid m = dir \<and> nlookup m > 0 \<and> d \<notin> below (nodes f) (linked f) x"
    if out: "outside f K dir x" for dir x
  proof -
    have kd: "K dir > 0" using out by (simp add: outside_def)
    obtain d m where d: "nodes f d = Some m" "nodeid m = dir" "nlookup m > 0"
      by (rule agreesE [OF a kd]) (use kd in auto)
    then have "get_node f dir = Some d" using get_node_iff [OF fi] by blast
    then show ?thesis using d out by (auto simp: outside_def)
  qed
  obtain dq mq where dq: "nodes f dq = Some mq" "nodeid mq = newdir" "nlookup mq > 0" "dq \<notin> below (nodes f) (linked f) p"
    using dir [OF h(3)] by blast
  obtain dp mp where dp: "nodes f dp = Some mp" "nodeid mp = olddir" "nlookup mp > 0" "dp \<notin> below (nodes f) (linked f) q"
    using dir [OF h(4)] by blast
  obtain res f' where f': "exchange_node f olddir oldname newdir newname = Some (res, f')" "fuse_inv f'" "rest_eq f f'"
    and keep: "\<And>x k. nodes f x = Some k \<Longrightarrow> nlookup k > 0 \<Longrightarrow> nodes f' x \<noteq> None" and c: "counts f f'"
    by (rule exchange_node_spec [OF fi l np nq dp dq]) blast+
  have "agrees f' K" by (rule agrees_counts [OF a c keep])
  with f' r show ?thesis by (simp add: kernel_ok_def kernel_inv_def rest_eq_def)
qed

lemma request_ok:
  assumes "kernel_inv s" "kernel_may req s"
  shows "kernel_ok req s"
proof (cases s)
  case (Pair f K)
  with assms show ?thesis
    by (cases req) (simp_all only: lookup_ok forget_ok remove_ok rename_ok exchange_ok)
qed

section \<open>Reachable states\<close>

inductive kernel_reach :: "fuse \<times> kcount \<Rightarrow> bool" where
  start: "fuse_new_nodes cfg a clk = Some f \<Longrightarrow> remember cfg = 0 \<Longrightarrow>
    kernel_reach (f, (\<lambda>_. 0)(FUSE_ROOT_ID := 1))"
| request: "kernel_reach s \<Longrightarrow> kernel_may req s \<Longrightarrow> kernel_exec req s = Some s' \<Longrightarrow> kernel_reach s'"

lemma kernel_reach_inv: "kernel_reach s \<Longrightarrow> kernel_inv s"
proof (induction rule: kernel_reach.induct)
  case (start cfg a clk f)
  have "agrees f ((\<lambda>_. 0)(FUSE_ROOT_ID := 1))"
    by (auto simp: agrees_def fuse_new_nodes_inv(4) [OF start(1)] FUSE_ROOT_ID_def)
  with fuse_new_nodes_inv(1,2) [OF start(1)] start(2) show ?case by (simp add: kernel_inv_def)
next
  case (request s req s')
  from request_ok [OF request.IH request.hyps(2)] request.hyps(3) show ?case by (simp add: kernel_ok_def)
qed

end
