(* ===== verification/Node_Demo.thy ===== *)
theory Node_Demo
  imports Node_Protocol
begin

text \<open>
  A small store, a root with the children \<open>a\<close> and \<open>b\<close>, built by the operations of the model.
  The witnesses of the node properties apply them here.
\<close>

section \<open>A small store\<close>

definition demo_conf :: fuse_config where
  "demo_conf = \<lparr>set_gid = False, c_gid = 0, set_uid = False, c_uid = 0, set_mode = False, c_umask = 0,
     c_fmask = 0, c_dmask = 0, entry_timeout = 1000000000, negative_timeout = 0, attr_timeout = 1000000000,
     intr = False, remember = 0, hard_remove = False, use_ino = False, readdir_ino = False,
     direct_io = False, kernel_cache = False, auto_cache = False, no_rofd_flush = False,
     ac_attr_timeout = 0, nullpath_ok = False, parallel_direct_writes = False\<rparr>"

definition demo_table :: "(nat \<times> ptr list) list \<Rightarrow> nat \<Rightarrow> node_table" where
  "demo_table ch u = \<lparr>tab_array = fold (\<lambda>(i, c) a. a[i := c]) ch (replicate NODE_TABLE_MIN_SIZE []),
     tab_use = u, tab_size = NODE_TABLE_MIN_SIZE, tab_split = 0\<rparr>"

definition demo_node :: "fuse_ino \<Rightarrow> int \<Rightarrow> ptr option \<Rightarrow> string \<Rightarrow> node" where
  "demo_node ino r up nm = zero_node\<lparr>nodeid := ino, refctr := r, parent := up, n_name := Some nm, nlookup := 1\<rparr>"

definition demo0 :: fuse where
  "demo0 = \<lparr>name_table = demo_table [] 0, id_table = demo_table [(2481, [0])] 1, lru_table = [], ctr = 0,
     f_generation = 0, hidectr = 0, conf = demo_conf, lockq = [],
     nodes = [0 \<mapsto> demo_node 1 1 None ''/''], next_ptr = 1, allocs = [], clock = []\<rparr>"

definition demo1 :: fuse where
  "demo1 = \<lparr>name_table = demo_table [(128, [1])] 1, id_table = demo_table [(2481, [0]), (866, [1])] 2,
     lru_table = [], ctr = 2, f_generation = 0, hidectr = 0, conf = demo_conf, lockq = [],
     nodes = [0 \<mapsto> demo_node 1 2 None ''/'', 1 \<mapsto> demo_node 2 1 (Some 0) ''a''],
     next_ptr = 2, allocs = [], clock = []\<rparr>"

definition demo2 :: fuse where
  "demo2 = \<lparr>name_table = demo_table [(128, [1]), (129, [2])] 2,
     id_table = demo_table [(2481, [0]), (866, [1]), (3347, [2])] 3,
     lru_table = [], ctr = 3, f_generation = 0, hidectr = 0, conf = demo_conf, lockq = [],
     nodes = [1 \<mapsto> demo_node 2 1 (Some 0) ''a'', 0 \<mapsto> demo_node 1 3 None ''/'', 2 \<mapsto> demo_node 3 1 (Some 0) ''b''],
     next_ptr = 3, allocs = [], clock = []\<rparr>"

lemmas demo_eval = find_node_def alloc_node_def demo_table_def Let_def hash_id_def
     id_hash_def id_hash_full_def put_node_def inc_nlookup_def zero_node_def demo_node_def FUSE_ROOT_ID_def
     FUSE_UNKNOWN_INO_def bucket_of_def name_hash_def name_hash_full_def get_node_def get_node_nocheck_def
     NODE_TABLE_MIN_SIZE_def lookup_node_def table_find_def hash_name_def id_match_def name_match_def
     next_id.simps demo_conf_def

lemma demo0_new: "fuse_new_nodes demo_conf [] [] = Some demo0"
  by (simp add: fuse_new_nodes_def node_table_init_def demo0_def demo_eval)

lemma demo1_find: "find_node demo0 1 (Some ''a'') = Some (Some 1, demo1)"
  by (simp add: demo_eval demo0_def demo1_def)

lemma demo2_find: "find_node demo1 1 (Some ''b'') = Some (Some 2, demo2)"
  by (simp add: demo_eval demo1_def demo2_def)

lemma demo_lookup:
  "lookup_node demo1 1 ''a'' = Some 1" "lookup_node demo1 1 ''b'' = None"
  "lookup_node demo2 1 ''a'' = Some 1" "lookup_node demo2 1 ''b'' = Some 2"
  by (simp_all add: demo_eval demo1_def demo2_def)

lemma demo_reach:
  "kernel_reach (demo0, (\<lambda>_. 0)(1 := 1))" "kernel_reach (demo1, (\<lambda>_. 0)(1 := 1, 2 := 1))"
  "kernel_reach (demo2, (\<lambda>_. 0)(1 := 1, 2 := 1, 3 := 1))"
proof -
  have few: "card (dom (nodes demo0)) < 2 ^ 32 - 2" "card (dom (nodes demo1)) < 2 ^ 32 - 2"
    by (simp_all add: demo0_def demo1_def card_insert_if)
  show r0: "kernel_reach (demo0, (\<lambda>_. 0)(1 := 1))"
    using kernel_reach.start [OF demo0_new] by (simp add: demo_conf_def FUSE_ROOT_ID_def)
  show r1: "kernel_reach (demo1, (\<lambda>_. 0)(1 := 1, 2 := 1))"
    by (rule kernel_reach.request [OF r0, of "KLookup 1 ''a''"])
      (use few demo1_find in \<open>simp_all add: demo1_def demo_node_def fun_upd_def\<close>)
  show "kernel_reach (demo2, (\<lambda>_. 0)(1 := 1, 2 := 1, 3 := 1))"
    by (rule kernel_reach.request [OF r1, of "KLookup 1 ''b''"])
      (use few demo2_find in \<open>simp_all add: demo2_def demo_node_def fun_upd_def\<close>)
qed

lemma demo_inv: "fuse_inv demo0" "fuse_inv demo1" "fuse_inv demo2"
  using demo_reach kernel_reach_inv by (auto simp: kernel_inv_def)


lemma demo_nodes:
  "nodes demo2 1 = Some (demo_node 2 1 (Some 0) ''a'')" "nodes demo2 2 = Some (demo_node 3 1 (Some 0) ''b'')"
  "nodes demo2 0 = Some (demo_node 1 3 None ''/'')" "nodes demo1 0 = Some (demo_node 1 2 None ''/'')"
  "nodes demo1 1 = Some (demo_node 2 1 (Some 0) ''a'')" "conf demo1 = demo_conf" "conf demo2 = demo_conf"
  by (simp_all add: demo1_def demo2_def)

lemma demo_fields [simp]:
  "nodeid (demo_node ino r up nm) = ino" "nlookup (demo_node ino r up nm) = 1"
  "n_name (demo_node ino r up nm) = Some nm" "parent (demo_node ino r up nm) = up"
  "treelock (demo_node ino r up nm) = 0" "refctr (demo_node ino r up nm) = r" "remember demo_conf = 0"
  by (simp_all add: demo_node_def demo_conf_def zero_node_def)

text \<open>Nothing lies below \<open>a\<close> or \<open>b\<close> but themselves.\<close>

lemma demo_below: "p = 1 \<or> p = 2 \<Longrightarrow> below (nodes demo2) (linked demo2) p = {p}"
proof -
  assume p: "p = 1 \<or> p = 2"
  have "par (nodes demo2) c \<noteq> Some p" for c
    using p by (auto simp: par_def demo2_def demo_node_def)
  then show ?thesis by (intro below_leaf)
qed

end
