(* ===== verification/Node_Properties.thy ===== *)
theory Node_Properties
  imports Node_Demo
begin

text \<open>
  The properties of the node store, stated over the operations of \<open>Fuse_State\<close>.
\<close>

section \<open>The kernel protocol\<close>

text \<open>
  C1: In every state reachable by requests the kernel may send, the node store is well formed
  (hash tables, parent links, reference counts), each node's lookup count equals the number
  of lookups the kernel holds on its id, and every id the kernel holds has a node.
\<close>

theorem kernel_counts_agree:
  assumes "kernel_reach (f, K)"
  shows "fuse_inv f \<and> (\<forall>p n. nodes f p = Some n \<longrightarrow> nlookup n = K (nodeid n)) \<and>
    (\<forall>ino. K ino > 0 \<longrightarrow> get_node f ino \<noteq> None)"
proof -
  have i: "fuse_inv f" "agrees f K" using kernel_reach_inv [OF assms] by (auto simp: kernel_inv_def)
  have "get_node f ino \<noteq> None" if "K ino > 0" for ino
  proof -
    obtain q m where "nodes f q = Some m" "nodeid m = ino" by (rule agreesE [OF i(2) \<open>K ino > 0\<close>])
    then have "get_node f ino = Some q" using get_node_iff [OF i(1)] by blast
    then show ?thesis by simp
  qed
  with i show ?thesis by (simp add: agrees_def)
qed

theorem kernel_counts_agree_witness:
  "fuse_inv demo2 \<and> nlookup (demo_node 2 1 (Some 0) ''a'') = ((\<lambda>_. 0)(1 := 1, 2 := 1, 3 := 1)) 2 \<and>
    get_node demo2 3 \<noteq> None"
  using kernel_counts_agree [OF demo_reach(3)] demo_nodes(1) by force



section \<open>Creating and finding nodes\<close>

text \<open>
  C15: Looking up a name that has no node either fails for lack of memory and changes no node,
  or creates a node under a fresh address with an unused, valid id, one lookup (one more with
  \<open>remember\<close>), linked under exactly this name; every other name keeps its node, and the
  parent gains one reference.
\<close>

theorem find_node_creates:
  assumes inv: "fuse_inv f" and l: "lookup_node f pid name = None"
    and q: "nodes f q = Some m" "nodeid m = pid" and few: "card (dom (nodes f)) < 2 ^ 32 - 2"
  shows "\<exists>r f'. find_node f pid (Some name) = Some (r, f') \<and> fuse_inv f' \<and>
    (case r of
       None \<Rightarrow> nodes f' = nodes f \<and> lookup_node f' = lookup_node f
     | Some p \<Rightarrow> nodes f p = None \<and>
         (\<exists>n. nodes f' = (nodes f)(q \<mapsto> m\<lparr>refctr := refctr m + 1\<rparr>, p \<mapsto> n) \<and>
            nodeid n \<noteq> 0 \<and> nodeid n \<noteq> FUSE_UNKNOWN_INO \<and> (\<forall>x k. nodes f x = Some k \<longrightarrow> nodeid k \<noteq> nodeid n) \<and>
            nlookup n = (if remember (conf f) \<noteq> 0 then 2 else 1)) \<and>
         (\<forall>pid' name' x. lookup_node f' pid' name' = Some x \<longleftrightarrow>
            (if x = p then pid' = pid \<and> name' = name else lookup_node f pid' name' = Some x)))"
proof (cases rule: find_node_new [OF inv l q few])
  case (1 f')
  then show ?thesis by (intro exI [of _ None] exI [of _ f']) simp
next
  case (2 ino g f')
  let ?p = "next_ptr f"
  define n where "n = inc_nlookup ((new_node f ino g)\<lparr>n_name := Some name, parent := Some q\<rparr>)"
  have n: "nodeid n = ino" "nlookup n = (if remember (conf f) \<noteq> 0 then 2 else 1)"
    "n_name n = Some name" "parent n = Some q"
    by (simp_all add: n_def new_node_fields)
  have ns: "nodes f' = (nodes f)(q \<mapsto> m\<lparr>refctr := refctr m + 1\<rparr>, ?p \<mapsto> n)" using 2 by (simp add: n_def)
  have fr: "nodeid k \<noteq> nodeid n" if "nodes f x = Some k" for x k
    using get_node_iff [OF inv, of ino x] that 2(4) n(1) by (auto simp: id_free_def get_node_def)
  note lk = created_names [OF inv 2(2) q 2(3) ns n(3,4) 2(11)]
  have "ino \<noteq> 0" "ino \<noteq> FUSE_UNKNOWN_INO" using 2(4) by (simp_all add: id_free_def)
  then have "\<exists>n. nodes f' = (nodes f)(q \<mapsto> m\<lparr>refctr := refctr m + 1\<rparr>, ?p \<mapsto> n) \<and>
            nodeid n \<noteq> 0 \<and> nodeid n \<noteq> FUSE_UNKNOWN_INO \<and> (\<forall>x k. nodes f x = Some k \<longrightarrow> nodeid k \<noteq> nodeid n) \<and>
            nlookup n = (if remember (conf f) \<noteq> 0 then 2 else 1)"
    using n fr ns by (intro exI [of _ n]) auto
  with 2(1-3) lk show ?thesis by (intro exI [of _ "Some ?p"] exI [of _ f']) simp
qed

theorem find_node_creates_witness:
  "\<exists>r f'. find_node demo1 1 (Some ''b'') = Some (r, f') \<and> fuse_inv f' \<and>
    (case r of
       None \<Rightarrow> nodes f' = nodes demo1 \<and> lookup_node f' = lookup_node demo1
     | Some p \<Rightarrow> nodes demo1 p = None \<and>
         (\<exists>n. nodes f' = (nodes demo1)(0 \<mapsto> (demo_node 1 2 None ''/'')\<lparr>refctr := refctr (demo_node 1 2 None ''/'') + 1\<rparr>, p \<mapsto> n) \<and>
            nodeid n \<noteq> 0 \<and> nodeid n \<noteq> FUSE_UNKNOWN_INO \<and> (\<forall>x k. nodes demo1 x = Some k \<longrightarrow> nodeid k \<noteq> nodeid n) \<and>
            nlookup n = (if remember (conf demo1) \<noteq> 0 then 2 else 1)) \<and>
         (\<forall>pid' name' x. lookup_node f' pid' name' = Some x \<longleftrightarrow>
            (if x = p then pid' = 1 \<and> name' = ''b'' else lookup_node demo1 pid' name' = Some x)))"
  by (rule find_node_creates [OF demo_inv(2) demo_lookup(2) demo_nodes(4)])
    (simp_all add: demo1_def card_insert_if)

text \<open>
  Looking up a name that has a node returns this node, counts one more lookup on it, and
  changes neither another node nor the names.
\<close>

theorem find_node_counts:
  assumes "fuse_inv f" "lookup_node f pid name = Some p" "nodes f p = Some n"
  shows "\<exists>f'. find_node f pid (Some name) = Some (Some p, f') \<and> fuse_inv f' \<and>
    nodes f' = (nodes f)(p \<mapsto> inc_nlookup n) \<and> nlookup (inc_nlookup n) = nlookup n + 1 \<and>
    lookup_node f' = lookup_node f"
  by (rule find_node_cached [OF assms]) (simp add: inc_nlookup_fields)

theorem find_node_counts_witness:
  "\<exists>f'. find_node demo2 1 (Some ''a'') = Some (Some 1, f') \<and> fuse_inv f' \<and>
    nodes f' = (nodes demo2)(1 \<mapsto> inc_nlookup (demo_node 2 1 (Some 0) ''a'')) \<and>
    nlookup (inc_nlookup (demo_node 2 1 (Some 0) ''a'')) = nlookup (demo_node 2 1 (Some 0) ''a'') + 1 \<and>
    lookup_node f' = lookup_node demo2"
  by (rule find_node_counts [OF demo_inv(3) demo_lookup(3) demo_nodes(1)])

text \<open>
  C16: The search for a node id ends whenever fewer than \<open>2 ^ 32 - 2\<close> nodes exist. It returns
  an id that no node has, neither 0 nor the reserved \<open>0xffffffff\<close>, below \<open>2 ^ 32\<close>; only the
  counter and the generation change, and the pair (generation, id) grows as long as the 32-bit
  generation has not wrapped, so it is never handed out twice.
\<close>

theorem next_id_fresh:
  assumes inv: "fuse_inv f" and few: "card (dom (nodes f)) < 2 ^ 32 - 2"
    and ctr: "unat (ctr f) < 2 ^ 32" "unat (f_generation f) < 2 ^ 32 - 2"
  shows "\<exists>ino g. next_id f = Some (ino, f\<lparr>ctr := ino, f_generation := g\<rparr>) \<and>
    (\<forall>p n. nodes f p = Some n \<longrightarrow> nodeid n \<noteq> ino) \<and> ino \<noteq> 0 \<and> ino \<noteq> FUSE_UNKNOWN_INO \<and> unat ino < 2 ^ 32 \<and>
    unat (f_generation f) * 2 ^ 32 + unat (ctr f) < unat g * 2 ^ 32 + unat ino"
proof -
  obtain c where c: "id_free f c" "unat c < 2 ^ 32" by (rule free_id_exists [OF inv few])
  obtain ino g where r: "next_id f = Some (ino, f\<lparr>ctr := ino, f_generation := g\<rparr>)" "id_free f ino"
    "unat ino < 2 ^ 32" "id_epoch f < unat g * 2 ^ 32 + unat ino"
    by (rule next_id_spec [OF c]) (use ctr in blast)
  have "nodeid n \<noteq> ino" if "nodes f p = Some n" for p n
    using get_node_iff [OF inv, of ino p] that r(2) by (auto simp: id_free_def get_node_def)
  then have "(\<forall>p n. nodes f p = Some n \<longrightarrow> nodeid n \<noteq> ino) \<and> ino \<noteq> 0 \<and> ino \<noteq> FUSE_UNKNOWN_INO \<and>
      unat ino < 2 ^ 32 \<and> unat (f_generation f) * 2 ^ 32 + unat (ctr f) < unat g * 2 ^ 32 + unat ino"
    using r(2-4) by (simp add: id_free_def id_epoch_def)
  with r(1) show ?thesis by blast
qed

theorem next_id_fresh_witness:
  "\<exists>ino g. next_id demo2 = Some (ino, demo2\<lparr>ctr := ino, f_generation := g\<rparr>) \<and>
    (\<forall>p n. nodes demo2 p = Some n \<longrightarrow> nodeid n \<noteq> ino) \<and> ino \<noteq> 0 \<and> ino \<noteq> FUSE_UNKNOWN_INO \<and> unat ino < 2 ^ 32 \<and>
    unat (f_generation demo2) * 2 ^ 32 + unat (ctr demo2) < unat g * 2 ^ 32 + unat ino"
  by (rule next_id_fresh [OF demo_inv(3)]) (simp_all add: demo2_def card_insert_if)

section \<open>Forgetting and unlinking\<close>

text \<open>
  Forgetting \<open>k\<close> of the lookups on a node subtracts \<open>k\<close> from its count. The node is freed
  exactly when no lookup is left and it has no linked child; every other node that has been
  looked up stays, and what stays keeps its name. The last lookup of a locked node is not
  dropped: the request waits and the nodes are untouched. The root is never forgotten.
\<close>

theorem forget_node_frees:
  assumes inv: "fuse_inv f" and p: "nodes f p = Some n" "nodeid n = ino" and k: "0 < k" "k \<le> nlookup n"
  shows "\<exists>fin f'. forget_node i f ino k = Some (fin, f') \<and> fuse_inv f' \<and>
    (fin \<longleftrightarrow> ino = FUSE_ROOT_ID \<or> nlookup n \<noteq> k \<or> treelock n = 0) \<and>
    (if \<not> fin \<or> ino = FUSE_ROOT_ID then nodes f' = nodes f
     else (nodes f' p = None \<longleftrightarrow> nlookup n = k \<and> children (nodes f) (linked f) p = {}) \<and>
       (\<forall>m. nodes f' p = Some m \<longrightarrow> nlookup m = nlookup n - k \<and> n_name m = n_name n \<and> parent m = parent n) \<and>
       (\<forall>x. x \<noteq> p \<longrightarrow> survives (nodes f) (nodes f') x))"
proof -
  have g: "get_node f ino = Some p" using get_node_iff [OF inv] p by blast
  consider (root) "ino = FUSE_ROOT_ID" | (wait) "ino \<noteq> FUSE_ROOT_ID" "nlookup n = k" "treelock n \<noteq> 0"
    | (drop) "ino \<noteq> FUSE_ROOT_ID" "nlookup n = k \<longrightarrow> treelock n = 0" by blast
  then show ?thesis
  proof cases
    case root
    then show ?thesis using inv by (intro exI [of _ True] exI [of _ f]) (simp add: forget_node_def)
  next
    case wait
    then show ?thesis using inv g p fuse_inv_upd(3) [OF inv]
      by (intro exI [of _ False] exI [of _ "queue_path f (blank_qe i ino)"]) (simp add: forget_node_def queue_path_def)
  next
    case drop
    have root: "nodeid n \<noteq> FUSE_ROOT_ID" using drop p by simp
    show ?thesis
    proof (rule forget_finish_spec [OF inv p(1) root k drop(2)])
      fix f'
      assume f': "forget_finish f p k = Some f'" "fuse_inv f'"
        and sv: "\<And>x. x \<noteq> p \<Longrightarrow> survives (nodes f) (nodes f') x"
        and none: "nodes f' p = None \<longleftrightarrow> nlookup n = k \<and> children (nodes f) (linked f) p = {}"
        and some: "\<And>m. nodes f' p = Some m \<Longrightarrow> nlookup m = nlookup n - k \<and> nodeid m = nodeid n \<and>
          n_name m = n_name n \<and> parent m = parent n"
      have "forget_node i f ino k = Some (True, f')" using drop g p f'(1) by (auto simp: forget_node_def)
      moreover have "\<forall>m. nodes f' p = Some m \<longrightarrow> nlookup m = nlookup n - k \<and> n_name m = n_name n \<and> parent m = parent n"
        using some by blast
      ultimately show ?thesis using f'(2) sv none drop
        by (intro exI [of _ True] exI [of _ f']) simp
    qed
  qed
qed

theorem forget_node_frees_witness:
  "\<exists>fin f'. forget_node 7 demo2 2 1 = Some (fin, f') \<and> fuse_inv f' \<and>
    (fin \<longleftrightarrow> 2 = FUSE_ROOT_ID \<or> nlookup (demo_node 2 1 (Some 0) ''a'') \<noteq> 1 \<or> treelock (demo_node 2 1 (Some 0) ''a'') = 0) \<and>
    (if \<not> fin \<or> 2 = FUSE_ROOT_ID then nodes f' = nodes demo2
     else (nodes f' 1 = None \<longleftrightarrow> nlookup (demo_node 2 1 (Some 0) ''a'') = 1 \<and> children (nodes demo2) (linked demo2) 1 = {}) \<and>
       (\<forall>m. nodes f' 1 = Some m \<longrightarrow> nlookup m = nlookup (demo_node 2 1 (Some 0) ''a'') - 1 \<and>
          n_name m = n_name (demo_node 2 1 (Some 0) ''a'') \<and> parent m = parent (demo_node 2 1 (Some 0) ''a'')) \<and>
       (\<forall>x. x \<noteq> 1 \<longrightarrow> survives (nodes demo2) (nodes f') x))"
  by (rule forget_node_frees [OF demo_inv(3) demo_nodes(1)]) simp_all

text \<open>
  Removing a name (unlink, rmdir) detaches exactly this name: no name leads to the node any
  more, every other name whose node still exists leads where it did, and no node that has been
  looked up is freed.
\<close>

theorem remove_node_detaches:
  assumes "fuse_inv f" "lookup_node f dir name = Some p" "nodes f p = Some n"
    and rem: "remember (conf f) \<noteq> 0 \<longrightarrow> nlookup n > 1"
  shows "\<exists>f'. remove_node f dir name = Some f' \<and> fuse_inv f' \<and> rest_eq f f' \<and>
    (\<forall>pid nm x. lookup_node f' pid nm = Some x \<longleftrightarrow> lookup_node f pid nm = Some x \<and> x \<noteq> p \<and> nodes f' x \<noteq> None) \<and>
    (\<forall>x m. nodes f x = Some m \<longrightarrow> nlookup m > 0 \<longrightarrow> nodes f' x \<noteq> None)"
proof (rule remove_node_spec [OF assms(1-3)])
  fix f'
  assume "remove_node f dir name = Some f'" "fuse_inv f'" "rest_eq f f'"
    and "\<And>pid nm x. lookup_node f' pid nm = Some x \<longleftrightarrow>
       lookup_node f pid nm = Some x \<and> x \<noteq> p \<and> nodes f' x \<noteq> None"
    and "\<And>x m. nodes f x = Some m \<Longrightarrow> nlookup m > 0 \<Longrightarrow> nodes f' x \<noteq> None"
  then show ?thesis by (intro exI [of _ f']) simp
qed (use rem in auto)

theorem remove_node_detaches_witness:
  "\<exists>f'. remove_node demo2 1 ''a'' = Some f' \<and> fuse_inv f' \<and> rest_eq demo2 f' \<and>
    (\<forall>pid nm x. lookup_node f' pid nm = Some x \<longleftrightarrow> lookup_node demo2 pid nm = Some x \<and> x \<noteq> 1 \<and> nodes f' x \<noteq> None) \<and>
    (\<forall>x m. nodes demo2 x = Some m \<longrightarrow> nlookup m > 0 \<longrightarrow> nodes f' x \<noteq> None)"
  by (rule remove_node_detaches [OF demo_inv(3) demo_lookup(3) demo_nodes(1)]) (simp add: demo_nodes)

section \<open>Renaming\<close>

text \<open>
  C17: A rename of a known entry succeeds or reports \<open>-ENOMEM\<close>. On success the node has exactly
  the new name, a node that had the new name is detached, every other name is unchanged, and
  the hidden flag is set when the rename hides the node. No node that has been looked up is
  freed in either case. The hypotheses are the checks the kernel makes: the entries differ, the
  node and the new directory are looked up, the directory is not below the node; a rename that
  hides uses a free name.
\<close>

theorem rename_node_moves:
  assumes inv: "fuse_inv f" and l: "lookup_node f olddir oldname = Some p"
    and p: "nodes f p = Some n" "nlookup n > 0"
    and q: "nodes f q = Some m" "nodeid m = newdir" "nlookup m > 0" "q \<notin> below (nodes f) (linked f) p"
    and x: "\<forall>x k. lookup_node f newdir newname = Some x \<longrightarrow> nodes f x = Some k \<longrightarrow>
      x \<noteq> p \<and> x \<noteq> q \<and> (remember (conf f) \<noteq> 0 \<longrightarrow> nlookup k > 1)"
    and hide: "hide \<longrightarrow> lookup_node f newdir newname = None"
  shows "\<exists>r f'. rename_node f olddir oldname newdir newname hide = Some (r, f') \<and> fuse_inv f' \<and> rest_eq f f' \<and>
    (r = 0 \<or> r = - ENOMEM) \<and>
    (r = 0 \<longrightarrow> (\<forall>pid nm y. lookup_node f' pid nm = Some y \<longleftrightarrow>
       (if y = p then pid = newdir \<and> nm = newname
        else lookup_node f pid nm = Some y \<and> lookup_node f newdir newname \<noteq> Some y \<and> nodes f' y \<noteq> None))) \<and>
    (r = 0 \<longrightarrow> hide \<longrightarrow> (\<exists>k. nodes f' p = Some k \<and> is_hidden k)) \<and>
    (\<forall>y k. nodes f y = Some k \<longrightarrow> nlookup k > 0 \<longrightarrow> nodes f' y \<noteq> None)"
proof (rule rename_node_spec [OF inv l p q(1,3,4), where newname = newname and hide = hide])
  fix r f'
  assume run: "rename_node f olddir oldname (nodeid m) newname hide = Some (r, f')"
    "fuse_inv f'" "rest_eq f f'" "r = 0 \<or> r = - ENOMEM"
    and lp: "\<And>pid nm. r = 0 \<Longrightarrow> lookup_node f' pid nm = Some p \<longleftrightarrow> pid = nodeid m \<and> nm = newname"
    and ly: "\<And>pid nm y. r = 0 \<Longrightarrow> y \<noteq> p \<Longrightarrow> lookup_node f' pid nm = Some y \<longleftrightarrow>
       lookup_node f pid nm = Some y \<and> lookup_node f (nodeid m) newname \<noteq> Some y \<and> nodes f' y \<noteq> None"
    and keep: "\<And>y k. nodes f y = Some k \<Longrightarrow> nlookup k > 0 \<Longrightarrow> nodes f' y \<noteq> None"
    and hid: "r = 0 \<Longrightarrow> hide \<Longrightarrow> \<exists>k. nodes f' p = Some k \<and> is_hidden k"
  have "\<forall>pid nm y. lookup_node f' pid nm = Some y \<longleftrightarrow>
       (if y = p then pid = newdir \<and> nm = newname
        else lookup_node f pid nm = Some y \<and> lookup_node f newdir newname \<noteq> Some y \<and> nodes f' y \<noteq> None)" if "r = 0"
    using lp ly that q(2) by simp
  with run hid keep q(2) show ?thesis by (intro exI [of _ r] exI [of _ f']) simp
qed (use x hide q(2) in auto)

theorem rename_node_moves_witness:
  "\<exists>r f'. rename_node demo2 1 ''a'' 1 ''b'' False = Some (r, f') \<and> fuse_inv f' \<and> rest_eq demo2 f' \<and>
    (r = 0 \<or> r = - ENOMEM) \<and>
    (r = 0 \<longrightarrow> (\<forall>pid nm y. lookup_node f' pid nm = Some y \<longleftrightarrow>
       (if y = 1 then pid = 1 \<and> nm = ''b''
        else lookup_node demo2 pid nm = Some y \<and> lookup_node demo2 1 ''b'' \<noteq> Some y \<and> nodes f' y \<noteq> None))) \<and>
    (r = 0 \<longrightarrow> False \<longrightarrow> (\<exists>k. nodes f' 1 = Some k \<and> is_hidden k)) \<and>
    (\<forall>y k. nodes demo2 y = Some k \<longrightarrow> nlookup k > 0 \<longrightarrow> nodes f' y \<noteq> None)"
  by (rule rename_node_moves [OF demo_inv(3) demo_lookup(3) demo_nodes(1) _ demo_nodes(3)])
    (simp_all add: demo_below demo_lookup demo_nodes)

text \<open>
  C18: Exchanging two different entries succeeds or reports \<open>-ENOMEM\<close>. On success each node has
  exactly the other's name, every other name is unchanged, and no node that has been looked up
  is freed in either case.
\<close>

theorem exchange_node_swaps:
  assumes inv: "fuse_inv f" and l: "lookup_node f olddir oldname = Some p"
      "lookup_node f newdir newname = Some q" "p \<noteq> q"
    and p: "nodes f p = Some np" "nlookup np > 0" and q: "nodes f q = Some nq" "nlookup nq > 0"
    and dp: "nodes f dp = Some mp" "nodeid mp = olddir" "nlookup mp > 0" "dp \<notin> below (nodes f) (linked f) q"
    and dq: "nodes f dq = Some mq" "nodeid mq = newdir" "nlookup mq > 0" "dq \<notin> below (nodes f) (linked f) p"
  shows "\<exists>r f'. exchange_node f olddir oldname newdir newname = Some (r, f') \<and> fuse_inv f' \<and>
    (r = 0 \<or> r = - ENOMEM) \<and>
    (r = 0 \<longrightarrow> (\<forall>pid nm x. lookup_node f' pid nm = Some x \<longleftrightarrow>
       (if x = p then pid = newdir \<and> nm = newname else if x = q then pid = olddir \<and> nm = oldname
        else lookup_node f pid nm = Some x \<and> nodes f' x \<noteq> None))) \<and>
    (\<forall>x k. nodes f x = Some k \<longrightarrow> nlookup k > 0 \<longrightarrow> nodes f' x \<noteq> None)"
proof (rule exchange_node_spec [OF inv l p q dp dq])
  fix r f'
  assume "exchange_node f olddir oldname newdir newname = Some (r, f')" "fuse_inv f'" "r = 0 \<or> r = - ENOMEM"
    and "\<And>pid nm x. r = 0 \<Longrightarrow> lookup_node f' pid nm = Some x \<longleftrightarrow>
       (if x = p then pid = newdir \<and> nm = newname else if x = q then pid = olddir \<and> nm = oldname
        else lookup_node f pid nm = Some x \<and> nodes f' x \<noteq> None)"
    and "\<And>x k. nodes f x = Some k \<Longrightarrow> nlookup k > 0 \<Longrightarrow> nodes f' x \<noteq> None"
  then show ?thesis by (intro exI [of _ r] exI [of _ f'] conjI impI allI) blast+
qed

theorem exchange_node_swaps_witness:
  "\<exists>r f'. exchange_node demo2 1 ''a'' 1 ''b'' = Some (r, f') \<and> fuse_inv f' \<and>
    (r = 0 \<or> r = - ENOMEM) \<and>
    (r = 0 \<longrightarrow> (\<forall>pid nm x. lookup_node f' pid nm = Some x \<longleftrightarrow>
       (if x = 1 then pid = 1 \<and> nm = ''b'' else if x = 2 then pid = 1 \<and> nm = ''a''
        else lookup_node demo2 pid nm = Some x \<and> nodes f' x \<noteq> None))) \<and>
    (\<forall>x k. nodes demo2 x = Some k \<longrightarrow> nlookup k > 0 \<longrightarrow> nodes f' x \<noteq> None)"
  by (rule exchange_node_swaps [OF demo_inv(3) demo_lookup(3,4) _ demo_nodes(1) _ demo_nodes(2) _ demo_nodes(3) _ _ _ demo_nodes(3)])
    (simp_all add: demo_below)

end
