(* ===== verification/Fuse_Path.thy ===== *)
theory Fuse_Path
  imports Node_Protocol
begin

text \<open>
  Paths and tree locks of \<open>lib/fuse.c\<close>: building the path of a node backwards in a growing
  buffer (\<open>add_name\<close>, \<open>try_get_path\<close>), the read locks on the nodes of the path and the
  write lock on the node that is about to be changed, the queue of requests that wait for a
  lock, and releasing a path. A request that has to wait is a value (\<open>PathWait\<close>): its queue
  element is in \<open>lockq\<close>, and \<open>wait_done\<close> is the rest of \<open>wait_path\<close> once the element is
  done. The loops walk up the parent pointers and are \<open>partial_function\<close>s: \<open>None\<close> is an endless
  walk, a failed assertion or a null dereference. Debug output is left out, and so is
  \<open>check_dir_loop\<close>, which is compiled on FreeBSD only.
\<close>

definition TREELOCK_WRITE :: int where "TREELOCK_WRITE = -1"
definition TREELOCK_WAIT_OFFSET :: int where "TREELOCK_WAIT_OFFSET = - (2 ^ 31)"

section \<open>The path buffer\<close>

text \<open>
  The buffer is a byte list of length \<open>bufsize\<close>, \<open>pb_s\<close> the offset of the pointer \<open>s\<close>. The
  bytes that \<open>malloc\<close> and \<open>realloc\<close> leave uninitialised are written as stars.
\<close>

record path_buf =
  pb_bytes :: string
  pb_s :: nat

definition junk :: "nat \<Rightarrow> string" where
  "junk n = replicate n CHR ''*''"

definition write_bytes :: "nat \<Rightarrow> string \<Rightarrow> string \<Rightarrow> string" where
  "write_bytes at src dst = take at dst @ src @ drop (at + length src) dst"

text \<open>The doubling loop: it does not end when more than \<open>0xffffffff\<close> bytes are needed.\<close>

partial_function (option) grow_size :: "nat \<Rightarrow> nat \<Rightarrow> nat option" where
  "grow_size newbufsize need =
     (if newbufsize < need
      then grow_size (if newbufsize \<ge> 0x80000000 then 0xffffffff else newbufsize * 2) need
      else Some newbufsize)"

text \<open>\<open>None\<close> inside the pair is the null pointer that is returned when memory is short.\<close>

definition add_name :: "tape \<Rightarrow> path_buf \<Rightarrow> string \<Rightarrow> (path_buf option \<times> tape) option" where
  "add_name a b name = do {
     let len = length name;
     let bufsize = length (pb_bytes b);
     (r, a') \<leftarrow>
       (if pb_s b \<le> len then do {
          let pathlen = bufsize - pb_s b;
          newbufsize \<leftarrow> grow_size bufsize (pathlen + len + 1);
          let (ok, a1) = alloc_pop a;
          if \<not> ok then Some (None, a1)
          else do {
            let newbuf = pb_bytes b @ junk (newbufsize - bufsize);
            let s = newbufsize - pathlen;
            Some (Some \<lparr>pb_bytes = write_bytes s (take pathlen (drop (bufsize - pathlen) newbuf)) newbuf,
                        pb_s = s\<rparr>, a1) } }
        else Some (Some b, a));
     case r of
       None \<Rightarrow> Some (None, a')
     | Some b1 \<Rightarrow>
         (let s = pb_s b1 - len;
              bytes = write_bytes s name (pb_bytes b1);
              s' = s - 1
          in Some (Some \<lparr>pb_bytes = bytes[s' := CHR ''/''], pb_s = s'\<rparr>, a')) }"

definition init_buf :: path_buf where
  "init_buf = \<lparr>pb_bytes = (junk 256)[255 := CHR 0x00], pb_s = 255\<rparr>"

text \<open>The bytes of a C string, up to its terminator.\<close>

definition c_string :: "string \<Rightarrow> string" where
  "c_string bytes = takeWhile (\<lambda>c. c \<noteq> CHR 0x00) bytes"

definition buf_path :: "path_buf \<Rightarrow> string" where
  "buf_path b =
     (if pb_bytes b ! pb_s b \<noteq> CHR 0x00
      then c_string (write_bytes 0 (drop (pb_s b) (pb_bytes b)) (pb_bytes b))
      else ''/'')"

section \<open>Locking a path\<close>

partial_function (option) unlock_loop :: "fuse \<Rightarrow> ptr \<Rightarrow> ptr option \<Rightarrow> fuse option" where
  "unlock_loop f p end_node =
     (case nodes f p of
        None \<Rightarrow> None
      | Some n \<Rightarrow>
          if Some p = end_node \<or> nodeid n = FUSE_ROOT_ID then Some f
          else if treelock n = 0 \<or> treelock n = TREELOCK_WAIT_OFFSET \<or> treelock n = TREELOCK_WRITE then None
          else
            (let t = treelock n - 1;
                 f1 = put_node p (n\<lparr>treelock := (if t = TREELOCK_WAIT_OFFSET then 0 else t)\<rparr>) f
             in (case parent n of None \<Rightarrow> None | Some q \<Rightarrow> unlock_loop f1 q end_node)))"

definition unlock_path :: "fuse \<Rightarrow> fuse_ino \<Rightarrow> ptr option \<Rightarrow> ptr option \<Rightarrow> fuse option" where
  "unlock_path f ino wnode end_node = do {
     f1 \<leftarrow> (case wnode of
              None \<Rightarrow> Some f
            | Some w \<Rightarrow> do {
                n \<leftarrow> nodes f w;
                if treelock n \<noteq> TREELOCK_WRITE then None
                else Some (put_node w (n\<lparr>treelock := 0\<rparr>) f) });
     p \<leftarrow> get_node f1 ino;
     unlock_loop f1 p end_node }"

text \<open>
  The loop of \<open>try_get_path\<close>: the result is the error code, the buffer, and the node at which
  the loop stopped.
\<close>

partial_function (option) path_loop ::
  "bool \<Rightarrow> fuse \<Rightarrow> path_buf \<Rightarrow> ptr \<Rightarrow> ((int \<times> path_buf \<times> ptr) \<times> fuse) option" where
  "path_loop need_lock f b p =
     (case nodes f p of
        None \<Rightarrow> None
      | Some n \<Rightarrow>
          if nodeid n = FUSE_ROOT_ID then Some ((0, b, p), f)
          else (case (n_name n, parent n) of
                  (Some name, Some q) \<Rightarrow>
                    (case add_name (allocs f) b name of
                       None \<Rightarrow> None
                     | Some (None, a) \<Rightarrow> Some ((- ENOMEM, b, p), f\<lparr>allocs := a\<rparr>)
                     | Some (Some b1, a) \<Rightarrow>
                         if need_lock \<and> treelock n < 0 then Some ((- EAGAIN, b1, p), f\<lparr>allocs := a\<rparr>)
                         else path_loop need_lock
                                (if need_lock then put_node p (n\<lparr>treelock := treelock n + 1\<rparr>) (f\<lparr>allocs := a\<rparr>)
                                 else f\<lparr>allocs := a\<rparr>) b1 q)
                | _ \<Rightarrow> Some ((- ESTALE, b, p), f)))"

text \<open>\<open>wlock\<close> says that \<open>wnodep\<close> is not null; the triple is (error, \<open>*path\<close>, \<open>*wnodep\<close>).\<close>

definition lock_wnode :: "fuse \<Rightarrow> fuse_ino \<Rightarrow> string \<Rightarrow> ((bool \<times> ptr option) \<times> fuse) option" where
  "lock_wnode f ino name =
     (case lookup_node f ino name of
        None \<Rightarrow> Some ((True, None), f)
      | Some w \<Rightarrow> do {
          n \<leftarrow> nodes f w;
          if treelock n \<noteq> 0
          then Some ((False, Some w),
                 if treelock n > 0 then put_node w (n\<lparr>treelock := treelock n + TREELOCK_WAIT_OFFSET\<rparr>) f else f)
          else Some ((True, Some w), put_node w (n\<lparr>treelock := TREELOCK_WRITE\<rparr>) f) })"

definition try_get_path ::
  "fuse \<Rightarrow> fuse_ino \<Rightarrow> string option \<Rightarrow> bool \<Rightarrow> bool \<Rightarrow> ((int \<times> string option \<times> ptr option) \<times> fuse) option" where
  "try_get_path f ino name wlock need_lock =
     (case alloc_pop (allocs f) of
        (False, a) \<Rightarrow> Some ((- ENOMEM, None, None), f\<lparr>allocs := a\<rparr>)
      | (True, a) \<Rightarrow> do {
          (b, a1) \<leftarrow> (case name of None \<Rightarrow> Some (Some init_buf, a) | Some nm \<Rightarrow> add_name a init_buf nm);
          let f1 = f\<lparr>allocs := a1\<rparr>;
          case b of
            None \<Rightarrow> Some ((- ENOMEM, None, None), f1)
          | Some b1 \<Rightarrow> do {
              ((free, wnode), f2) \<leftarrow>
                (if wlock then (if \<not> need_lock then None
                                else case name of None \<Rightarrow> None | Some nm \<Rightarrow> lock_wnode f1 ino nm)
                 else Some ((True, None), f1));
              if \<not> free then Some ((- EAGAIN, None, None), f2)
              else do {
                p \<leftarrow> get_node f2 ino;
                ((err, b2, stop), f3) \<leftarrow> path_loop need_lock f2 b1 p;
                if err = 0 then Some ((0, Some (buf_path b2), wnode), f3)
                else if need_lock then do {
                  f4 \<leftarrow> unlock_path f3 ino wnode (Some stop);
                  Some ((err, None, None), f4) }
                else Some ((err, None, None), f3) } } })"

text \<open>
  \<open>w1\<close>, \<open>w2\<close> say that \<open>wnode1\<close>, \<open>wnode2\<close> are not null. When the second path fails the first is
  unlocked and its path freed; what is left in \<open>*path1\<close> then is a dangling pointer, written
  \<open>None\<close>.
\<close>

record path2_out =
  o_path1 :: "string option"
  o_path2 :: "string option"
  o_node1 :: "ptr option"
  o_node2 :: "ptr option"

definition no_paths :: path2_out where
  "no_paths = \<lparr>o_path1 = None, o_path2 = None, o_node1 = None, o_node2 = None\<rparr>"

definition try_get_path2 ::
  "fuse \<Rightarrow> fuse_ino \<Rightarrow> string option \<Rightarrow> fuse_ino \<Rightarrow> string option \<Rightarrow> bool \<Rightarrow> bool \<Rightarrow>
   ((int \<times> path2_out) \<times> fuse) option" where
  "try_get_path2 f ino1 nm1 ino2 nm2 w1 w2 = do {
     ((err, path1, wn1), f1) \<leftarrow> try_get_path f ino1 nm1 w1 True;
     if err \<noteq> 0 then Some ((err, no_paths), f1)
     else do {
       ((err2, path2, wn2), f2) \<leftarrow> try_get_path f1 ino2 nm2 w2 True;
       if err2 \<noteq> 0 then do {
         f3 \<leftarrow> unlock_path f2 ino1 wn1 None;
         Some ((err2, no_paths), f3) }
       else Some ((0, \<lparr>o_path1 = path1, o_path2 = path2, o_node1 = wn1, o_node2 = wn2\<rparr>), f2) } }"

section \<open>Waiting requests\<close>

definition queue_element_wakeup ::
  "fuse \<Rightarrow> lock_queue_element \<Rightarrow> (lock_queue_element \<times> fuse) option" where
  "queue_element_wakeup f qe =
     (if \<not> wants_path1 qe then do {
        p \<leftarrow> get_node f (nodeid1 qe);
        n \<leftarrow> nodes f p;
        Some (if treelock n = 0 then qe\<lparr>signalled := True\<rparr> else qe, f) }
      else if qe_done qe then Some (qe, f)
      else do {
        ((err, out), f1) \<leftarrow>
          (if \<not> wants_path2 qe then do {
             ((e, p1, wn1), f1) \<leftarrow> try_get_path f (nodeid1 qe) (name1 qe) (wants_node1 qe) True;
             Some ((e, \<lparr>o_path1 = p1, o_path2 = None, o_node1 = wn1, o_node2 = None\<rparr>), f1) }
           else try_get_path2 f (nodeid1 qe) (name1 qe) (nodeid2 qe) (name2 qe) (wants_node1 qe) (wants_node2 qe));
        if err = - EAGAIN then Some (qe, f1)
        else Some (qe\<lparr>out_path1 := o_path1 out, out_node1 := o_node1 out, out_path2 := o_path2 out,
                       out_node2 := o_node2 out, qe_err := err, qe_done := True, signalled := True\<rparr>, f1) })"

fun wake_loop :: "fuse \<Rightarrow> lock_queue_element list \<Rightarrow> (lock_queue_element list \<times> fuse) option" where
  "wake_loop f [] = Some ([], f)"
| "wake_loop f (qe # qs) = do {
     (qe', f1) \<leftarrow> queue_element_wakeup f qe;
     (qs', f2) \<leftarrow> wake_loop f1 qs;
     Some (qe' # qs', f2) }"

definition wake_up_queued :: "fuse \<Rightarrow> fuse option" where
  "wake_up_queued f = do { (qs, f1) \<leftarrow> wake_loop f (lockq f); Some (f1\<lparr>lockq := qs\<rparr>) }"

definition dequeue_path :: "fuse \<Rightarrow> nat \<Rightarrow> fuse" where
  "dequeue_path f i = f\<lparr>lockq := filter (\<lambda>qe. qe_id qe \<noteq> i) (lockq f)\<rparr>"

text \<open>
  \<open>wait_path\<close> queues its element and sleeps; it continues with \<open>wait_done\<close> when the element
  (whose address is \<open>i\<close>) is done, which another request achieves by \<open>wake_up_queued\<close>.
\<close>

definition wait_done :: "fuse \<Rightarrow> nat \<Rightarrow> ((int \<times> path2_out) \<times> fuse) option" where
  "wait_done f i = do {
     qe \<leftarrow> find (\<lambda>qe. qe_id qe = i) (lockq f);
     if \<not> qe_done qe then None
     else Some ((qe_err qe, \<lparr>o_path1 = out_path1 qe, o_path2 = out_path2 qe,
                   o_node1 = out_node1 qe, o_node2 = out_node2 qe\<rparr>), dequeue_path f i) }"

datatype path_out = PathDone int "string option" "ptr option" | PathWait

definition get_path_common ::
  "nat \<Rightarrow> fuse \<Rightarrow> fuse_ino \<Rightarrow> string option \<Rightarrow> bool \<Rightarrow> (path_out \<times> fuse) option" where
  "get_path_common i f ino name wlock = do {
     ((err, path, wnode), f1) \<leftarrow> try_get_path f ino name wlock True;
     if err = - EAGAIN
     then Some (PathWait, queue_path f1 ((blank_qe i ino)\<lparr>name1 := name, wants_path1 := True, wants_node1 := wlock\<rparr>))
     else Some (PathDone err path wnode, f1) }"

definition get_path :: "nat \<Rightarrow> fuse \<Rightarrow> fuse_ino \<Rightarrow> (path_out \<times> fuse) option" where
  "get_path i f ino = get_path_common i f ino None False"

definition get_path_nullok :: "nat \<Rightarrow> fuse \<Rightarrow> fuse_ino \<Rightarrow> (path_out \<times> fuse) option" where
  "get_path_nullok i f ino =
     (if nullpath_ok (conf f) then Some (PathDone 0 None None, f)
      else do {
        (r, f1) \<leftarrow> get_path_common i f ino None False;
        Some (case r of PathDone err path w \<Rightarrow> PathDone (if err = - ESTALE then 0 else err) path w
                      | PathWait \<Rightarrow> PathWait, f1) })"

definition get_path_name :: "nat \<Rightarrow> fuse \<Rightarrow> fuse_ino \<Rightarrow> string \<Rightarrow> (path_out \<times> fuse) option" where
  "get_path_name i f ino name = get_path_common i f ino (Some name) False"

definition get_path_wrlock :: "nat \<Rightarrow> fuse \<Rightarrow> fuse_ino \<Rightarrow> string \<Rightarrow> (path_out \<times> fuse) option" where
  "get_path_wrlock i f ino name = get_path_common i f ino (Some name) True"

definition get_path2 ::
  "nat \<Rightarrow> fuse \<Rightarrow> fuse_ino \<Rightarrow> string option \<Rightarrow> fuse_ino \<Rightarrow> string option \<Rightarrow> bool \<Rightarrow> bool \<Rightarrow>
   ((int \<times> path2_out) option \<times> fuse) option" where
  "get_path2 i f ino1 nm1 ino2 nm2 w1 w2 = do {
     ((err, out), f1) \<leftarrow> try_get_path2 f ino1 nm1 ino2 nm2 w1 w2;
     if err = - EAGAIN
     then Some (None, queue_path f1 ((blank_qe i ino1)\<lparr>name1 := nm1, wants_path1 := True, wants_node1 := w1,
                 nodeid2 := ino2, name2 := nm2, wants_path2 := True, wants_node2 := w2\<rparr>))
     else Some (Some (err, out), f1) }"

section \<open>Releasing a path\<close>

definition free_path_wrlock :: "fuse \<Rightarrow> fuse_ino \<Rightarrow> ptr option \<Rightarrow> fuse option" where
  "free_path_wrlock f ino wnode = do {
     f1 \<leftarrow> unlock_path f ino wnode None;
     if lockq f1 \<noteq> [] then wake_up_queued f1 else Some f1 }"

definition free_path :: "fuse \<Rightarrow> fuse_ino \<Rightarrow> string option \<Rightarrow> fuse option" where
  "free_path f ino path = (if path \<noteq> None then free_path_wrlock f ino None else Some f)"

definition free_path2 :: "fuse \<Rightarrow> fuse_ino \<Rightarrow> fuse_ino \<Rightarrow> ptr option \<Rightarrow> ptr option \<Rightarrow> fuse option" where
  "free_path2 f ino1 ino2 wnode1 wnode2 = do {
     f1 \<leftarrow> unlock_path f ino1 wnode1 None;
     f2 \<leftarrow> unlock_path f1 ino2 wnode2 None;
     wake_up_queued f2 }"

end
