(* ===== verification/Path_Locks.thy ===== *)
theory Path_Locks
  imports Fuse_Path
begin

text \<open>
  Correctness of \<open>Fuse_Path\<close>: the buffer holds the path that the parent pointers spell, a
  failed attempt leaves all locks as they were, and releasing a path undoes taking it.
\<close>

section \<open>The buffer\<close>

definition buf_ok :: "path_buf \<Rightarrow> bool" where
  "buf_ok b \<longleftrightarrow> pb_s b < length (pb_bytes b) \<and> length (pb_bytes b) \<le> 0xffffffff"

definition content :: "path_buf \<Rightarrow> string" where
  "content b = drop (pb_s b) (pb_bytes b)"

lemma grow_size_spec:
  assumes "0 < n" "n \<le> 0xffffffff" "need \<le> 0xffffffff"
  shows "\<exists>k. grow_size n need = Some k \<and> need \<le> k \<and> n \<le> k \<and> k \<le> 0xffffffff"
  using assms
proof (induction "0xffffffff - n" arbitrary: n rule: less_induct)
  case less
  show ?case
  proof (cases "n < need")
    case False
    then show ?thesis using less.prems by (subst grow_size.simps) simp
  next
    case True
    let ?n = "if n \<ge> 0x80000000 then 0xffffffff else n * 2 :: nat"
    have "0xffffffff - ?n < 0xffffffff - n" "0 < ?n" "?n \<le> 0xffffffff" "n \<le> ?n"
      using less.prems True by auto
    from less.hyps [OF this(1-3) less.prems(3)] \<open>n \<le> ?n\<close> obtain k
      where "grow_size ?n need = Some k \<and> need \<le> k \<and> n \<le> k \<and> k \<le> 0xffffffff"
      using le_trans by blast
    then show ?thesis using True by (subst grow_size.simps) simp
  qed
qed

lemma length_write_bytes [simp]: "at + length src \<le> length dst \<Longrightarrow> length (write_bytes at src dst) = length dst"
  by (simp add: write_bytes_def)

lemma drop_write_bytes:
  "at + length src \<le> length dst \<Longrightarrow> drop at (write_bytes at src dst) = src @ drop (at + length src) dst"
  by (simp add: write_bytes_def)

text \<open>Writing the name and the slash in front of the content, once there is room.\<close>

lemma prepend_content:
  assumes s: "length name < pb_s b" "pb_s b \<le> length (pb_bytes b)"
    and b': "b' = \<lparr>pb_bytes = (write_bytes (pb_s b - length name) name (pb_bytes b))[pb_s b - length name - 1 := CHR ''/''],
                   pb_s = pb_s b - length name - 1\<rparr>"
  shows "content b' = CHR ''/'' # name @ content b" "length (pb_bytes b') = length (pb_bytes b)"
proof -
  let ?s = "pb_s b - length name"
  let ?w = "write_bytes ?s name (pb_bytes b)"
  have len: "length ?w = length (pb_bytes b)" using s by simp
  then show "length (pb_bytes b') = length (pb_bytes b)" by (simp add: b')
  have "drop ?s ?w = name @ content b"
    using drop_write_bytes [of ?s name "pb_bytes b"] s by (simp add: content_def)
  moreover have "drop (?s - 1) (?w[?s - 1 := CHR ''/'']) = CHR ''/'' # drop ?s ?w"
  proof -
    have i: "?s - 1 < length ?w" "Suc (?s - 1) = ?s" using s len by auto
    have "drop (?s - 1) (?w[?s - 1 := CHR ''/'']) = ?w[?s - 1 := CHR ''/''] ! (?s - 1) # drop (Suc (?s - 1)) (?w[?s - 1 := CHR ''/''])"
      by (rule Cons_nth_drop_Suc [symmetric]) (use i in simp)
    then show ?thesis using i by simp
  qed
  ultimately show "content b' = CHR ''/'' # name @ content b" by (simp add: content_def b')
qed

lemma add_name_spec:
  assumes ok: "buf_ok b" and len: "length (content b) + length name + 1 \<le> 0xffffffff"
  obtains (nomem) a' where "add_name a b name = Some (None, a')"
  | (added) b' a' where "add_name a b name = Some (Some b', a')" "buf_ok b'"
      "content b' = CHR ''/'' # name @ content b"
proof (cases "pb_s b \<le> length name")
  case False
  define b' where "b' = \<lparr>pb_bytes = (write_bytes (pb_s b - length name) name (pb_bytes b))[pb_s b - length name - 1 := CHR ''/''],
                   pb_s = pb_s b - length name - 1\<rparr>"
  have c: "content b' = CHR ''/'' # name @ content b" "length (pb_bytes b') = length (pb_bytes b)"
    by (rule prepend_content [OF _ _ b'_def]; use False ok in \<open>simp add: buf_ok_def\<close>)+
  have "add_name a b name = Some (Some b', a)" using False by (simp add: add_name_def b'_def Let_def)
  moreover have "buf_ok b'" using c(2) ok by (auto simp: buf_ok_def b'_def)
  ultimately show thesis using added c(1) by blast
next
  case True
  let ?pl = "length (pb_bytes b) - pb_s b"
  have pl: "?pl = length (content b)" by (simp add: content_def)
  obtain k where k: "grow_size (length (pb_bytes b)) (?pl + length name + 1) = Some k" "?pl + length name + 1 \<le> k"
    "length (pb_bytes b) \<le> k" "k \<le> 0xffffffff"
  proof -
    have "0 < length (pb_bytes b)" "length (pb_bytes b) \<le> 0xffffffff" using ok by (auto simp: buf_ok_def)
    from grow_size_spec [OF this, of "?pl + length name + 1"] len pl that show thesis by auto
  qed
  obtain m a' where al: "alloc_pop a = (m, a')" by fastforce
  show thesis
  proof (cases m)
    case False
    then have "add_name a b name = Some (None, a')" using True k(1) al by (simp add: add_name_def Let_def)
    then show thesis by (rule nomem)
  next
    case m: True
    define nb where "nb = pb_bytes b @ junk (k - length (pb_bytes b))"
    define b1 where "b1 = \<lparr>pb_bytes = write_bytes (k - ?pl) (take ?pl (drop (length (pb_bytes b) - ?pl) nb)) nb,
                        pb_s = k - ?pl\<rparr>"
    have lnb: "length nb = k" using k(3) by (simp add: nb_def junk_def)
    have mv: "take ?pl (drop (length (pb_bytes b) - ?pl) nb) = content b"
      using ok by (simp add: nb_def content_def buf_ok_def)
    have lb1: "length (pb_bytes b1) = k" using k(2) lnb pl by (simp add: b1_def mv)
    have c1: "content b1 = content b"
    proof -
      have "content b1 = drop (k - ?pl) (write_bytes (k - ?pl) (content b) nb)"
        unfolding content_def [of b1] by (simp add: b1_def mv)
      then show ?thesis using drop_write_bytes [of "k - ?pl" "content b" nb] k(2) lnb pl by simp
    qed
    define b' where "b' = \<lparr>pb_bytes = (write_bytes (pb_s b1 - length name) name (pb_bytes b1))[pb_s b1 - length name - 1 := CHR ''/''],
                   pb_s = pb_s b1 - length name - 1\<rparr>"
    have s1: "length name < pb_s b1" "pb_s b1 \<le> length (pb_bytes b1)" using k(2) lb1 by (auto simp: b1_def)
    note c = prepend_content [OF s1 b'_def]
    have "add_name a b name = Some (Some b', a')"
      using True m k(1) al by (simp add: add_name_def b'_def b1_def nb_def Let_def)
    moreover have "buf_ok b'" using c(2) lb1 k(4) s1 by (auto simp: buf_ok_def b'_def)
    ultimately show thesis using added c(1) c1 by simp
  qed
qed

text \<open>No allocation failure when the tape holds none.\<close>

lemma add_name_alloc:
  assumes "buf_ok b" "length (content b) + length name + 1 \<le> 0xffffffff"
  obtains b' where "add_name [] b name = Some (Some b', [])" "buf_ok b'" "content b' = CHR ''/'' # name @ content b"
proof (cases rule: add_name_spec [OF assms, of "[]"])
  case (1 a')
  then have False
    by (auto simp: add_name_def Let_def bind_eq_Some_conv split: if_splits option.splits)
  then show ?thesis ..
next
  case (2 b' a')
  then have "a' = []" by (auto simp: add_name_def Let_def bind_eq_Some_conv split: if_splits option.splits)
  with 2 that show ?thesis by simp
qed

lemma buf_path_content:
  assumes ok: "buf_ok b" and c: "content b = p @ [CHR 0x00]" and p: "CHR 0x00 \<notin> set p"
  shows "buf_path b = (if p = [] then ''/'' else p)"
proof -
  have s: "pb_s b < length (pb_bytes b)" using ok by (simp add: buf_ok_def)
  then have hd: "pb_bytes b ! pb_s b = hd (p @ [CHR 0x00])"
    using c hd_drop_conv_nth [OF s] by (simp add: content_def)
  show ?thesis
  proof (cases "p = []")
    case True
    then show ?thesis using hd by (simp add: buf_path_def)
  next
    case False
    then have "pb_bytes b ! pb_s b \<noteq> CHR 0x00" using hd p by (metis hd_append2 list.set_sel(1))
    moreover have "c_string (write_bytes 0 (p @ [CHR 0x00]) (pb_bytes b)) = p"
    proof -
      have "takeWhile (\<lambda>c. c \<noteq> CHR 0x00) (p @ CHR 0x00 # r) = p" for r
        using p by (subst takeWhile_append2) auto
      then show ?thesis by (simp add: c_string_def write_bytes_def)
    qed
    ultimately show ?thesis using False c by (simp add: buf_path_def content_def)
  qed
qed

lemma init_buf_ok: "buf_ok init_buf" "content init_buf = [CHR 0x00]"
proof -
  have "length (junk 256) = 256" by (simp add: junk_def)
  then show "buf_ok init_buf" "content init_buf = [CHR 0x00]"
    by (simp_all add: buf_ok_def init_buf_def content_def drop_update_swap flip: Cons_nth_drop_Suc)
qed

section \<open>Walking up\<close>

text \<open>
  \<open>chain ns p ps e\<close>: from \<open>p\<close> the parent pointers lead through the named nodes \<open>ps\<close> to \<open>e\<close>.
\<close>

inductive chain :: "(ptr \<rightharpoonup> node) \<Rightarrow> ptr \<Rightarrow> ptr list \<Rightarrow> ptr \<Rightarrow> bool" for ns where
  chain_Nil: "chain ns p [] p"
| chain_Cons: "ns p = Some n \<Longrightarrow> nodeid n \<noteq> FUSE_ROOT_ID \<Longrightarrow> n_name n = Some nm \<Longrightarrow> parent n = Some q \<Longrightarrow>
    chain ns q ps e \<Longrightarrow> chain ns p (p # ps) e"

inductive_cases chain_NilE: "chain ns p [] e"
inductive_cases chain_ConsE: "chain ns p (x # ps) e"

text \<open>The walk ends at the root, or at a node that has been unlinked.\<close>

definition chain_end :: "(ptr \<rightharpoonup> node) \<Rightarrow> ptr \<Rightarrow> bool" where
  "chain_end ns e \<longleftrightarrow> (\<exists>n. ns e = Some n \<and> (nodeid n = FUSE_ROOT_ID \<or> n_name n = None \<or> parent n = None))"

definition is_root :: "(ptr \<rightharpoonup> node) \<Rightarrow> ptr \<Rightarrow> bool" where
  "is_root ns e \<longleftrightarrow> (\<exists>n. ns e = Some n \<and> nodeid n = FUSE_ROOT_ID)"

lemma chain_exists:
  assumes inv: "fuse_inv f" and p: "nodes f p \<noteq> None"
  shows "\<exists>ps e. chain (nodes f) p ps e \<and> chain_end (nodes f) e \<and> distinct ps \<and> e \<notin> set ps"
proof -
  obtain rank where si: "store_inv (nodes f) (linked f) {} (\<lambda>_. 0) rank" by (rule fuse_invE [OF inv])
  have "\<exists>ps e. chain (nodes f) p ps e \<and> chain_end (nodes f) e \<and> distinct ps \<and> e \<notin> set ps \<and>
      (\<forall>x\<in>set ps. rank x \<le> rank p) \<and> rank e \<le> rank p"
    using p
  proof (induction "rank p" arbitrary: p rule: less_induct)
    case less
    then obtain n where n: "nodes f p = Some n" by blast
    show ?case
    proof (cases "p \<in> linked f")
      case False
      then have "nodeid n = FUSE_ROOT_ID \<or> n_name n = None"
        using si n unfolding store_inv_def unnamed_ok_def by (metis empty_iff)
      then have "chain_end (nodes f) p" using n by (auto simp: chain_end_def)
      then show ?thesis by (intro exI [of _ "[]"] exI [of _ p]) (simp add: chain_Nil)
    next
      case True
      obtain n' q nm k where q: "nodes f p = Some n'" "n_name n' = Some nm" "parent n' = Some q" "nodes f q = Some k"
        "nodeid n' \<noteq> FUSE_ROOT_ID" "rank q < rank p"
        by (rule linkedE [OF si True])
      then obtain ps e where ps: "chain (nodes f) q ps e" "chain_end (nodes f) e" "distinct ps" "e \<notin> set ps"
        "\<forall>x\<in>set ps. rank x \<le> rank q" "rank e \<le> rank q"
        using less.hyps [of q] by auto
      moreover have "p \<notin> set ps" "e \<noteq> p" using ps(5,6) q(6) by auto
      ultimately show ?thesis
        using q by (intro exI [of _ "p # ps"] exI [of _ e]) (auto intro: chain_Cons)
    qed
  qed
  then show ?thesis by blast
qed

text \<open>The names along a chain, and the path they spell.\<close>

definition node_name :: "(ptr \<rightharpoonup> node) \<Rightarrow> ptr \<Rightarrow> string" where
  "node_name ns p = (case ns p of None \<Rightarrow> [] | Some n \<Rightarrow> (case n_name n of None \<Rightarrow> [] | Some nm \<Rightarrow> nm))"

definition spell :: "(ptr \<rightharpoonup> node) \<Rightarrow> ptr list \<Rightarrow> string" where
  "spell ns ps = concat (map (\<lambda>p. CHR ''/'' # node_name ns p) (rev ps))"

lemma spell_Cons: "spell ns (p # ps) = spell ns ps @ CHR ''/'' # node_name ns p"
  by (simp add: spell_def)

lemma spell_Nil [simp]: "spell ns [] = []"
  by (simp add: spell_def)

text \<open>Adding to the lock counters of some nodes.\<close>

definition bump :: "int \<Rightarrow> ptr set \<Rightarrow> (ptr \<rightharpoonup> node) \<Rightarrow> (ptr \<rightharpoonup> node)" where
  "bump d A ns = (\<lambda>x. if x \<in> A then map_option (\<lambda>n. n\<lparr>treelock := treelock n + d\<rparr>) (ns x) else ns x)"

lemma bump_fields:
  "bump d A ns x = Some n' \<longleftrightarrow> (\<exists>n. ns x = Some n \<and> n' = (if x \<in> A then n\<lparr>treelock := treelock n + d\<rparr> else n))"
  by (cases "ns x") (auto simp: bump_def)

lemma bump_empty [simp]: "bump d {} ns = ns"
  by (simp add: bump_def)

lemma bump_insert:
  "p \<notin> A \<Longrightarrow> ns p = Some n \<Longrightarrow> bump d A (ns(p \<mapsto> n\<lparr>treelock := treelock n + d\<rparr>)) = bump d (insert p A) ns"
  by (auto simp: bump_def fun_eq_iff)

text \<open>Chains only depend on ids, names and parents.\<close>

definition tree_of :: "(ptr \<rightharpoonup> node) \<Rightarrow> ptr \<rightharpoonup> fuse_ino \<times> string option \<times> ptr option" where
  "tree_of ns = (\<lambda>x. map_option (\<lambda>n. (nodeid n, n_name n, parent n)) (ns x))"

definition same_tree :: "(ptr \<rightharpoonup> node) \<Rightarrow> (ptr \<rightharpoonup> node) \<Rightarrow> bool" where
  "same_tree ns ns' \<longleftrightarrow> tree_of ns' = tree_of ns"

lemma same_treeE:
  assumes "same_tree ns ns'" "ns x = Some n"
  obtains n' where "ns' x = Some n'" "nodeid n' = nodeid n" "n_name n' = n_name n" "parent n' = parent n"
proof -
  have "tree_of ns' x = tree_of ns x" using assms(1) by (simp add: same_tree_def)
  then show thesis using assms(2) that by (cases "ns' x") (simp_all add: tree_of_def)
qed

lemma same_tree_None:
  assumes "same_tree ns ns'"
  shows "ns' x = None \<longleftrightarrow> ns x = None"
proof -
  have "tree_of ns' x = tree_of ns x" using assms by (simp add: same_tree_def)
  then show ?thesis by (cases "ns x"; cases "ns' x") (simp_all add: tree_of_def)
qed

lemma same_tree_sym: "same_tree ns ns' \<Longrightarrow> same_tree ns' ns"
  by (simp add: same_tree_def)

lemma same_tree_refl [simp]: "same_tree ns ns"
  by (simp add: same_tree_def)

lemma same_tree_trans: "same_tree a b \<Longrightarrow> same_tree b c \<Longrightarrow> same_tree a c"
  by (simp add: same_tree_def)

lemma same_tree_bump [simp]: "same_tree ns (bump d A ns)"
  by (auto simp: same_tree_def tree_of_def bump_def option.map_comp o_def fun_eq_iff)

lemma same_tree_lock: "ns p = Some n \<Longrightarrow> same_tree ns (ns(p \<mapsto> n\<lparr>treelock := t\<rparr>))"
  by (simp add: same_tree_def tree_of_def fun_eq_iff)

lemma chain_same_tree:
  assumes "chain ns p ps e" "same_tree ns ns'"
  shows "chain ns' p ps e"
  using assms(1)
proof (induction rule: chain.induct)
  case (chain_Cons p n nm q ps e)
  obtain n' where "ns' p = Some n'" "nodeid n' = nodeid n" "n_name n' = n_name n" "parent n' = parent n"
    by (rule same_treeE [OF assms(2) chain_Cons(1)])
  with chain_Cons show ?case by (intro chain.chain_Cons [of ns' p n' nm q]) auto
qed (rule chain.chain_Nil)

lemma chain_end_same_tree: "chain_end ns e \<Longrightarrow> same_tree ns ns' \<Longrightarrow> chain_end ns' e"
  unfolding chain_end_def by (metis same_treeE)

lemma is_root_same_tree: "is_root ns e \<Longrightarrow> same_tree ns ns' \<Longrightarrow> is_root ns' e"
  unfolding is_root_def by (metis same_treeE)

lemma node_name_same_tree: "same_tree ns ns' \<Longrightarrow> node_name ns' = node_name ns"
proof
  fix x assume s: "same_tree ns ns'"
  show "node_name ns' x = node_name ns x"
  proof (cases "ns x")
    case None
    then have "ns' x = None" using same_tree_None [OF s] by simp
    then show ?thesis using None by (simp add: node_name_def)
  next
    case (Some n)
    then obtain n' where "ns' x = Some n'" "n_name n' = n_name n" by (rule same_treeE [OF s])
    then show ?thesis using Some by (simp add: node_name_def)
  qed
qed

lemma spell_same_tree: "same_tree ns ns' \<Longrightarrow> spell ns' ps = spell ns ps"
  by (simp add: spell_def node_name_same_tree)

section \<open>The loops\<close>

definition path_len :: "(ptr \<rightharpoonup> node) \<Rightarrow> ptr list \<Rightarrow> nat" where
  "path_len ns ps = length (spell ns ps)"

lemma path_len_Cons: "path_len ns (p # ps) = path_len ns ps + length (node_name ns p) + 1"
  by (simp add: path_len_def spell_Cons)

lemma path_len_same_tree: "same_tree ns ns' \<Longrightarrow> path_len ns' ps = path_len ns ps"
  by (simp add: path_len_def spell_same_tree)

text \<open>
  The loop of \<open>try_get_path\<close> along a chain: it takes a read lock on each node it passes, stops
  early on an allocation failure or at a node that is write-locked or awaited by a writer, and
  otherwise ends with the spelled path at the root, or with \<open>-ESTALE\<close> at an unlinked node.
\<close>

definition loop_result :: "bool \<Rightarrow> fuse \<Rightarrow> path_buf \<Rightarrow> ptr list \<Rightarrow> ptr \<Rightarrow> int \<Rightarrow> path_buf \<Rightarrow> ptr \<Rightarrow> fuse \<Rightarrow> bool" where
  "loop_result lk f b ps e err b' stop f' \<longleftrightarrow>
     (\<exists>vs ws a. ps @ [e] = vs @ stop # ws \<and>
        f' = f\<lparr>nodes := (if lk then bump 1 (set vs) (nodes f) else nodes f), allocs := a\<rparr> \<and>
        (lk \<longrightarrow> (\<forall>x\<in>set vs. \<exists>n. nodes f x = Some n \<and> 0 \<le> treelock n)) \<and>
        (err = 0 \<or> err = - ESTALE \<or> err = - ENOMEM \<or> lk \<and> err = - EAGAIN) \<and>
        (err = 0 \<longleftrightarrow> ws = [] \<and> is_root (nodes f) e) \<and>
        (err = - ESTALE \<longleftrightarrow> ws = [] \<and> \<not> is_root (nodes f) e) \<and>
        (err = - EAGAIN \<longrightarrow> (\<exists>n. nodes f stop = Some n \<and> treelock n < 0)) \<and>
        (allocs f = [] \<longrightarrow> a = [] \<and> err \<noteq> - ENOMEM) \<and>
        (err = 0 \<longrightarrow> buf_ok b' \<and> content b' = spell (nodes f) ps @ content b))"

lemma path_loop_spec:
  assumes "chain (nodes f) p ps e" "chain_end (nodes f) e" "distinct ps" "e \<notin> set ps" "buf_ok b"
    "length (content b) + path_len (nodes f) ps \<le> 0xffffffff"
  shows "\<exists>err b' stop f'. path_loop lk f b p = Some ((err, b', stop), f') \<and> loop_result lk f b ps e err b' stop f'"
  using assms
proof (induction ps arbitrary: p f b)
  case Nil
  then have pe: "e = p" by (auto elim: chain_NilE)
  obtain n where n: "nodes f p = Some n" "nodeid n = FUSE_ROOT_ID \<or> n_name n = None \<or> parent n = None"
    using Nil.prems(2) pe by (auto simp: chain_end_def)
  define err where "err = (if nodeid n = FUSE_ROOT_ID then 0 else - ESTALE)"
  have "path_loop lk f b p = Some ((err, b, p), f)"
    using n by (subst path_loop.simps) (auto simp: err_def split: option.splits)
  moreover have "is_root (nodes f) e \<longleftrightarrow> nodeid n = FUSE_ROOT_ID" using n pe by (simp add: is_root_def)
  then have "loop_result lk f b [] e err b p f"
    using pe Nil.prems(5) unfolding loop_result_def
    by (intro exI [of _ "[]"] exI [of _ "[]"] exI [of _ "allocs f"]) (auto simp: err_def errno_defs)
  ultimately show ?case by blast
next
  case (Cons x ps)
  obtain n nm q where x: "x = p" and n: "nodes f p = Some n" "nodeid n \<noteq> FUSE_ROOT_ID" "n_name n = Some nm"
    "parent n = Some q" and ch: "chain (nodes f) q ps e"
    using Cons.prems(1) by (auto elim: chain_ConsE)
  have nn: "node_name (nodes f) p = nm" using n by (simp add: node_name_def)
  have len: "length (content b) + length nm + 1 \<le> 0xffffffff"
    using Cons.prems(6) x nn by (simp add: path_len_Cons)
  show ?case
  proof (cases rule: add_name_spec [OF Cons.prems(5) len, of "allocs f"])
    case (1 a)
    then have "path_loop lk f b p = Some ((- ENOMEM, b, p), f\<lparr>allocs := a\<rparr>)"
      using n by (subst path_loop.simps) simp
    moreover have "allocs f \<noteq> []" using 1 add_name_alloc [OF Cons.prems(5) len] by force
    then have "loop_result lk f b (x # ps) e (- ENOMEM) b p (f\<lparr>allocs := a\<rparr>)"
      using x unfolding loop_result_def
      by (intro exI [of _ "[]"] exI [of _ "ps @ [e]"] exI [of _ a]) (auto simp: errno_defs)
    ultimately show ?thesis by blast
  next
    case (2 b1 a)
    have al: "allocs f = [] \<longrightarrow> a = []" using 2(1) add_name_alloc [OF Cons.prems(5) len] by force
    show ?thesis
    proof (cases "lk \<and> treelock n < 0")
      case True
      then have "path_loop lk f b p = Some ((- EAGAIN, b1, p), f\<lparr>allocs := a\<rparr>)"
        using n 2 by (subst path_loop.simps) simp
      moreover have "loop_result lk f b (x # ps) e (- EAGAIN) b1 p (f\<lparr>allocs := a\<rparr>)"
        using x n True al unfolding loop_result_def
        by (intro exI [of _ "[]"] exI [of _ "ps @ [e]"] exI [of _ a]) (auto simp: errno_defs)
      ultimately show ?thesis by blast
    next
      case False
      define n1 where "n1 = n\<lparr>treelock := treelock n + 1\<rparr>"
      define f1 where "f1 = (if lk then put_node p n1 (f\<lparr>allocs := a\<rparr>) else f\<lparr>allocs := a\<rparr>)"
      have st: "same_tree (nodes f) (nodes f1)"
        using same_tree_lock [of "nodes f" p n] n(1) by (simp add: f1_def n1_def)
      have step: "path_loop lk f b p = path_loop lk f1 b1 q"
        using n 2 False by (subst path_loop.simps) (simp add: f1_def n1_def)
      have "\<exists>err b' stop f'. path_loop lk f1 b1 q = Some ((err, b', stop), f') \<and> loop_result lk f1 b1 ps e err b' stop f'"
      proof (rule Cons.IH)
        show "chain (nodes f1) q ps e" by (rule chain_same_tree [OF ch st])
        show "chain_end (nodes f1) e" by (rule chain_end_same_tree [OF Cons.prems(2) st])
        show "length (content b1) + path_len (nodes f1) ps \<le> 0xffffffff"
          using Cons.prems(6) 2 x nn by (simp add: path_len_same_tree [OF st] path_len_Cons)
      qed (use Cons.prems 2 in auto)
      then obtain err b' stop f' where r: "path_loop lk f1 b1 q = Some ((err, b', stop), f')"
        and res: "loop_result lk f1 b1 ps e err b' stop f'" by blast
      have "loop_result lk f b (x # ps) e err b' stop f'"
      proof -
        obtain vs ws a' where l: "ps @ [e] = vs @ stop # ws"
          "f' = f1\<lparr>nodes := (if lk then bump 1 (set vs) (nodes f1) else nodes f1), allocs := a'\<rparr>"
          "lk \<longrightarrow> (\<forall>x\<in>set vs. \<exists>n. nodes f1 x = Some n \<and> 0 \<le> treelock n)"
          "err = 0 \<or> err = - ESTALE \<or> err = - ENOMEM \<or> lk \<and> err = - EAGAIN"
          "err = 0 \<longleftrightarrow> ws = [] \<and> is_root (nodes f1) e"
          "err = - ESTALE \<longleftrightarrow> ws = [] \<and> \<not> is_root (nodes f1) e"
          "err = - EAGAIN \<longrightarrow> (\<exists>n. nodes f1 stop = Some n \<and> treelock n < 0)"
          "allocs f1 = [] \<longrightarrow> a' = [] \<and> err \<noteq> - ENOMEM"
          "err = 0 \<longrightarrow> buf_ok b' \<and> content b' = spell (nodes f1) ps @ content b1"
          using res unfolding loop_result_def by blast
        have sub: "set vs \<subseteq> insert e (set ps)" "stop \<in> insert e (set ps)"
          using arg_cong [OF l(1), of set] by auto
        have pnot: "p \<notin> set vs" "stop \<noteq> p" using sub Cons.prems(3,4) x by auto
        have root: "is_root (nodes f1) e \<longleftrightarrow> is_root (nodes f) e"
          using is_root_same_tree st same_tree_sym by blast
        have "f' = f\<lparr>nodes := (if lk then bump 1 (insert p (set vs)) (nodes f) else nodes f), allocs := a'\<rparr>"
          using l(2) bump_insert [of p "set vs" "nodes f" n 1] pnot n(1) by (simp add: f1_def n1_def)
        moreover have "lk \<longrightarrow> (\<forall>x\<in>insert p (set vs). \<exists>n. nodes f x = Some n \<and> 0 \<le> treelock n)"
          using l(3) n(1) False pnot by (auto simp: f1_def split: if_splits)
        moreover have "err = - EAGAIN \<longrightarrow> (\<exists>n. nodes f stop = Some n \<and> treelock n < 0)"
          using l(7) pnot(2) by (auto simp: f1_def split: if_splits)
        moreover have "err = 0 \<longrightarrow> buf_ok b' \<and> content b' = spell (nodes f) (x # ps) @ content b"
          using l(9) 2 x nn by (simp add: spell_same_tree [OF st] spell_Cons)
        moreover have "allocs f = [] \<longrightarrow> a' = [] \<and> err \<noteq> - ENOMEM"
          using l(8) al by (simp add: f1_def)
        ultimately show ?thesis
          using l(1,4,5,6) root x unfolding loop_result_def
          by (intro exI [of _ "p # vs"] exI [of _ ws] exI [of _ a']) simp
      qed
      with step r show ?thesis by auto
    qed
  qed
qed

lemma chain_prefix:
  assumes "chain ns p ps e" "ps @ [e] = vs @ z # ws"
  shows "chain ns p vs z"
  using assms
proof (induction vs arbitrary: p ps)
  case Nil
  then show ?case by (cases ps) (auto elim!: chain_NilE chain_ConsE intro: chain.chain_Nil)
next
  case (Cons v vs)
  then obtain ps' where ps: "ps = v # ps'" by (cases ps) auto
  with Cons.prems(1) obtain n nm q where "v = p" "ns p = Some n" "nodeid n \<noteq> FUSE_ROOT_ID" "n_name n = Some nm"
    "parent n = Some q" "chain ns q ps' e"
    by (auto elim: chain_ConsE)
  moreover have "ps' @ [e] = vs @ z # ws" using Cons.prems(2) ps by simp
  ultimately show ?case using Cons.IH [of q ps'] by (auto intro: chain.chain_Cons)
qed

text \<open>What \<open>unlock_path\<close> makes of a lock counter.\<close>

definition unlock_value :: "int \<Rightarrow> int" where
  "unlock_value t = (if t - 1 = TREELOCK_WAIT_OFFSET then 0 else t - 1)"

definition unlockable :: "int \<Rightarrow> bool" where
  "unlockable t \<longleftrightarrow> t \<noteq> 0 \<and> t \<noteq> TREELOCK_WAIT_OFFSET \<and> t \<noteq> TREELOCK_WRITE"

definition unbump :: "ptr set \<Rightarrow> (ptr \<rightharpoonup> node) \<Rightarrow> (ptr \<rightharpoonup> node)" where
  "unbump A ns = (\<lambda>x. if x \<in> A then map_option (\<lambda>n. n\<lparr>treelock := unlock_value (treelock n)\<rparr>) (ns x) else ns x)"

lemma unbump_empty [simp]: "unbump {} ns = ns"
  by (simp add: unbump_def)

lemma unbump_insert:
  "p \<notin> A \<Longrightarrow> ns p = Some n \<Longrightarrow> unbump A (ns(p \<mapsto> n\<lparr>treelock := unlock_value (treelock n)\<rparr>)) = unbump (insert p A) ns"
  by (auto simp: unbump_def fun_eq_iff)

lemma unbump_bump:
  assumes "\<forall>x\<in>A. \<exists>n. ns x = Some n \<and> 0 \<le> treelock n"
  shows "unbump A (bump 1 A ns) = ns"
proof
  fix x
  show "unbump A (bump 1 A ns) x = ns x"
  proof (cases "x \<in> A")
    case True
    then obtain n where "ns x = Some n" "0 \<le> treelock n" using assms by blast
    then show ?thesis using True
      by (simp add: unbump_def bump_def unlock_value_def TREELOCK_WAIT_OFFSET_def)
  qed (simp add: unbump_def bump_def)
qed

lemma unlock_loop_spec:
  assumes "chain (nodes f) p vs z" "distinct vs" "z \<notin> set vs" "nodes f z \<noteq> None"
    "end_node = Some z \<or> end_node = None \<and> is_root (nodes f) z"
    "\<forall>x\<in>set vs. \<exists>n. nodes f x = Some n \<and> unlockable (treelock n)"
  shows "unlock_loop f p end_node = Some (f\<lparr>nodes := unbump (set vs) (nodes f)\<rparr>)"
  using assms
proof (induction vs arbitrary: p f)
  case Nil
  then have "z = p" by (auto elim: chain_NilE)
  with Nil.prems(4,5) show ?case by (subst unlock_loop.simps) (auto simp: is_root_def)
next
  case (Cons v vs)
  obtain n nm q where v: "v = p" and n: "nodes f p = Some n" "nodeid n \<noteq> FUSE_ROOT_ID" "n_name n = Some nm"
    "parent n = Some q" and ch: "chain (nodes f) q vs z"
    using Cons.prems(1) by (auto elim: chain_ConsE)
  define f1 where "f1 = put_node p (n\<lparr>treelock := unlock_value (treelock n)\<rparr>) f"
  have ul: "unlockable (treelock n)" using Cons.prems(6) v n by auto
  have ne: "Some p \<noteq> end_node" using Cons.prems(3,5) v by auto
  have step: "unlock_loop f p end_node = unlock_loop f1 q end_node"
    using n ul ne
    by (subst unlock_loop.simps) (simp add: f1_def unlockable_def unlock_value_def)
  have st: "same_tree (nodes f) (nodes f1)"
    using same_tree_lock [of "nodes f" p n] n(1) by (simp add: f1_def)
  have "unlock_loop f1 q end_node = Some (f1\<lparr>nodes := unbump (set vs) (nodes f1)\<rparr>)"
  proof (rule Cons.IH)
    show "chain (nodes f1) q vs z" by (rule chain_same_tree [OF ch st])
    show "nodes f1 z \<noteq> None" using Cons.prems(4) same_tree_None [OF st] by simp
    show "end_node = Some z \<or> end_node = None \<and> is_root (nodes f1) z"
      using Cons.prems(5) is_root_same_tree [OF _ st] by blast
    show "\<forall>x\<in>set vs. \<exists>n. nodes f1 x = Some n \<and> unlockable (treelock n)"
      using Cons.prems(2,6) v by (auto simp: f1_def)
  qed (use Cons.prems in auto)
  moreover have "unbump (set vs) (nodes f1) = unbump (set (v # vs)) (nodes f)"
    using unbump_insert [of p "set vs" "nodes f" n] Cons.prems(2) v n(1) by (simp add: f1_def)
  ultimately show ?case using step by (simp add: f1_def put_node_def)
qed

lemma unlock_bumped:
  assumes ch: "chain (nodes f) p ps e" "ps @ [e] = vs @ z # ws" "distinct ps" "e \<notin> set ps" "nodes f e \<noteq> None"
    and en: "end_node = Some z \<or> end_node = None \<and> is_root (nodes f) z"
    and pos: "\<forall>x\<in>set vs. \<exists>n. nodes f x = Some n \<and> 0 \<le> treelock n"
    and g: "nodes g = bump 1 (set vs) (nodes f)"
  shows "unlock_loop g p end_node = Some (g\<lparr>nodes := nodes f\<rparr>)"
proof -
  have st: "same_tree (nodes f) (nodes g)" by (simp add: g)
  have d: "distinct (ps @ [e])" using ch(3,4) by simp
  have dv: "distinct vs" "z \<notin> set vs" using d unfolding ch(2) by auto
  have zn: "nodes f z \<noteq> None"
  proof -
    have "z \<in> insert e (set ps)" using arg_cong [OF ch(2), of set] by auto
    moreover have "nodes f x \<noteq> None" if "x \<in> set ps" for x
      using ch(1) that by (induction rule: chain.induct) auto
    ultimately show ?thesis using ch(5) by auto
  qed
  have "unlock_loop g p end_node = Some (g\<lparr>nodes := unbump (set vs) (nodes g)\<rparr>)"
  proof (rule unlock_loop_spec)
    show "chain (nodes g) p vs z" by (rule chain_same_tree [OF chain_prefix [OF ch(1,2)] st])
    show "nodes g z \<noteq> None" using zn same_tree_None [OF st] by simp
    show "end_node = Some z \<or> end_node = None \<and> is_root (nodes g) z" using en is_root_same_tree [OF _ st] by blast
    show "\<forall>x\<in>set vs. \<exists>n. nodes g x = Some n \<and> unlockable (treelock n)"
    proof
      fix x assume x: "x \<in> set vs"
      then obtain n where "nodes f x = Some n" "0 \<le> treelock n" using pos by blast
      then have "nodes g x = Some (n\<lparr>treelock := treelock n + 1\<rparr>)" "unlockable (treelock n + 1)"
        using x by (simp_all add: g bump_def unlockable_def TREELOCK_WRITE_def TREELOCK_WAIT_OFFSET_def)
      then show "\<exists>n. nodes g x = Some n \<and> unlockable (treelock n)" by simp
    qed
  qed (use dv in auto)
  then show ?thesis unfolding g using unbump_bump [OF pos] by simp
qed

section \<open>Taking and releasing a path\<close>

lemma lock_only_lookup:
  assumes "same_tree (nodes f) (nodes f')" "name_table f' = name_table f"
  shows "lookup_node f' = lookup_node f"
proof (rule lookup_node_cong [OF assms(2)])
  fix pid nm x
  have "tree_of (nodes f') = tree_of (nodes f)" using assms(1) by (simp add: same_tree_def)
  moreover have "name_match g pid nm x \<longleftrightarrow> (\<exists>i nm' q j. tree_of (nodes g) x = Some (i, nm', Some q) \<and>
      map_option fst (tree_of (nodes g) q) = Some j \<and> j = pid \<and> nm' = Some nm)" for g
    by (auto simp: name_match_def tree_of_def split: option.splits)
  ultimately show "name_match f' pid nm x = name_match f pid nm x" by simp
qed

lemma lock_only_get:
  assumes "same_tree (nodes f) (nodes f')" "id_table f' = id_table f"
  shows "get_node f' = get_node f"
proof
  fix ino
  have t: "tree_of (nodes f') = tree_of (nodes f)" using assms(1) by (simp add: same_tree_def)
  have "id_match g i x \<longleftrightarrow> map_option fst (tree_of (nodes g) x) = Some i" for g i x
    by (auto simp: id_match_def tree_of_def split: option.splits)
  then have "id_match f' = id_match f" by (intro ext) (simp add: t)
  then show "get_node f' ino = get_node f ino"
    by (simp add: get_node_def get_node_nocheck_def id_hash_def assms(2))
qed

lemma chain_rank:
  assumes inv: "fuse_inv f" and si: "store_inv (nodes f) (linked f) {} (\<lambda>_. 0) rank"
    and ch: "chain (nodes f) p ps e"
  shows "\<forall>x\<in>insert e (set ps). rank x \<le> rank p"
  using ch
proof (induction rule: chain.induct)
  case (chain_Cons p n nm q ps e)
  have "p \<in> linked f"
    using si chain_Cons.hyps(1-3) unfolding store_inv_def unnamed_ok_def by (metis empty_iff option.distinct(1))
  moreover have "par (nodes f) p = Some q" using chain_Cons.hyps by (simp add: par_def)
  ultimately have "rank q < rank p" using si unfolding store_inv_def ranked_def by blast
  with chain_Cons.IH show ?case using le_trans less_imp_le by fastforce
qed simp

text \<open>The node to be write-locked is not on the path.\<close>

lemma wnode_off_path:
  assumes inv: "fuse_inv f" and p: "nodes f p = Some n" "nodeid n = ino"
    and ch: "chain (nodes f) p ps e" and w: "lookup_node f ino nm = Some w"
  shows "w \<notin> insert e (set ps)"
proof -
  obtain rank where si: "store_inv (nodes f) (linked f) {} (\<lambda>_. 0) rank" by (rule fuse_invE [OF inv])
  have wl: "w \<in> linked f" "name_match f ino nm w" using w lookup_node_iff [OF inv] by auto
  obtain k q m where k: "nodes f w = Some k" "parent k = Some q" "nodes f q = Some m" "rank q < rank w"
    by (rule linkedE [OF si wl(1)])
  then have "nodeid m = ino" using wl(2) by (simp add: name_match_def)
  then have "q = p" using ids_unique_inv [OF inv p(1) k(3)] p(2) by simp
  then show ?thesis using chain_rank [OF inv si ch] k(4) by auto
qed

text \<open>The request: the node the path leads to, and the size of the path it may need.\<close>

definition name_len :: "string option \<Rightarrow> nat" where
  "name_len name = (case name of None \<Rightarrow> 0 | Some nm \<Rightarrow> length nm + 1)"

definition name_suffix :: "string option \<Rightarrow> string" where
  "name_suffix name = (case name of None \<Rightarrow> [] | Some nm \<Rightarrow> CHR ''/'' # nm)"

text \<open>\<open>w\<close> is write-locked in \<open>ns\<close>, if there is one.\<close>

definition write_lock :: "ptr option \<Rightarrow> (ptr \<rightharpoonup> node) \<Rightarrow> (ptr \<rightharpoonup> node)" where
  "write_lock w ns = (case w of None \<Rightarrow> ns
     | Some x \<Rightarrow> (\<lambda>y. if y = x then map_option (\<lambda>n. n\<lparr>treelock := TREELOCK_WRITE\<rparr>) (ns y) else ns y))"

lemma same_tree_write_lock [simp]: "same_tree ns (write_lock w ns)"
  by (auto simp: same_tree_def tree_of_def write_lock_def option.map_comp o_def fun_eq_iff split: option.splits)

definition path_taken ::
  "fuse \<Rightarrow> ptr list \<Rightarrow> ptr \<Rightarrow> string option \<Rightarrow> ptr option \<Rightarrow> string option \<Rightarrow> fuse \<Rightarrow> bool" where
  "path_taken f ps e name w path f' \<longleftrightarrow>
     is_root (nodes f) e \<and> path = Some (case spell (nodes f) ps @ name_suffix name of [] \<Rightarrow> ''/'' | c # cs \<Rightarrow> c # cs) \<and>
     (\<forall>x\<in>set ps. \<exists>n. nodes f x = Some n \<and> 0 \<le> treelock n) \<and>
     (\<forall>x. w = Some x \<longrightarrow> (\<exists>n. nodes f x = Some n \<and> treelock n = 0)) \<and>
     (\<exists>a. f' = f\<lparr>nodes := bump 1 (set ps) (write_lock w (nodes f)), allocs := a\<rparr>)"

definition path_refused ::
  "fuse \<Rightarrow> ptr list \<Rightarrow> ptr \<Rightarrow> fuse_ino \<Rightarrow> string option \<Rightarrow> bool \<Rightarrow> int \<Rightarrow> fuse \<Rightarrow> bool" where
  "path_refused f ps e ino name wlock err f' \<longleftrightarrow> (\<exists>ns a. f' = f\<lparr>nodes := ns, allocs := a\<rparr> \<and>
     (err = - ENOMEM \<and> allocs f \<noteq> [] \<and> ns = nodes f \<or>
      err = - ESTALE \<and> \<not> is_root (nodes f) e \<and> ns = nodes f \<or>
      err = - EAGAIN \<and> (\<exists>x\<in>insert e (set ps). \<exists>n. nodes f x = Some n \<and> treelock n < 0) \<and> ns = nodes f \<or>
      err = - EAGAIN \<and> wlock \<and>
        (\<exists>nm w n. name = Some nm \<and> lookup_node f ino nm = Some w \<and> nodes f w = Some n \<and> treelock n \<noteq> 0 \<and>
           ns = (if treelock n > 0 then (nodes f)(w \<mapsto> n\<lparr>treelock := treelock n + TREELOCK_WAIT_OFFSET\<rparr>) else nodes f))))"

text \<open>From a path loop in a state with the write lock set, back to the state before it.\<close>

lemma unlock_after_loop:
  assumes inv: "fuse_inv f" and p: "nodes f p = Some n" "nodeid n = ino"
    and ch: "chain (nodes f) p ps e" "chain_end (nodes f) e" "distinct ps" "e \<notin> set ps"
    and w: "w = None \<or> (\<exists>nm x k. w = Some x \<and> lookup_node f ino nm = Some x \<and> nodes f x = Some k \<and> treelock k = 0)"
    and vs: "ps @ [e] = vs @ z # ws" and pos: "\<forall>x\<in>set vs. \<exists>n. nodes f x = Some n \<and> 0 \<le> treelock n"
    and en: "end_node = Some z \<or> end_node = None \<and> is_root (nodes f) z"
    and g: "g = f\<lparr>nodes := bump 1 (set vs) (write_lock w (nodes f)), allocs := a\<rparr>"
  shows "unlock_path g ino w end_node = Some (f\<lparr>allocs := a\<rparr>)"
proof -
  define g1 where "g1 = g\<lparr>nodes := bump 1 (set vs) (nodes f)\<rparr>"
  have sub: "set vs \<subseteq> insert e (set ps)" using arg_cong [OF vs, of set] by auto
  have rel: "(case w of None \<Rightarrow> Some g
            | Some x \<Rightarrow> do { n \<leftarrow> nodes g x;
                if treelock n \<noteq> TREELOCK_WRITE then None else Some (put_node x (n\<lparr>treelock := 0\<rparr>) g) }) = Some g1"
  proof (cases w)
    case None
    then show ?thesis by (simp add: g g1_def write_lock_def)
  next
    case (Some x)
    then obtain nm k where x: "lookup_node f ino nm = Some x" "nodes f x = Some k" "treelock k = 0" using w by auto
    have "x \<notin> set vs" using wnode_off_path [OF inv p ch(1) x(1)] sub by blast
    then have gx: "nodes g x = Some (k\<lparr>treelock := TREELOCK_WRITE\<rparr>)"
      using x(2) Some by (simp add: g bump_def write_lock_def)
    have "k\<lparr>treelock := 0\<rparr> = k" using x(3) by simp
    then have "(nodes g)(x \<mapsto> k\<lparr>treelock := 0\<rparr>) = bump 1 (set vs) (nodes f)"
      using \<open>x \<notin> set vs\<close> x(2) Some by (auto simp: g bump_def write_lock_def fun_eq_iff)
    then show ?thesis using Some gx by (simp add: g1_def put_node_def)
  qed
  have st: "same_tree (nodes f) (nodes g1)" by (simp add: g1_def)
  have "get_node g1 ino = get_node f ino"
    using lock_only_get [OF st] by (simp add: g1_def g)
  then have gp: "get_node g1 ino = Some p" using get_node_iff [OF inv] p by auto
  have "unlock_loop g1 p end_node = Some (g1\<lparr>nodes := nodes f\<rparr>)"
    by (rule unlock_bumped [OF ch(1) vs ch(3,4) _ en pos]) (use ch(2) in \<open>auto simp: chain_end_def g1_def\<close>)
  then have "unlock_path g ino w end_node = Some (g1\<lparr>nodes := nodes f\<rparr>)"
    unfolding unlock_path_def rel using gp by simp
  then show ?thesis by (simp add: g1_def g)
qed

lemma lock_wnode_spec:
  assumes inv: "fuse_inv f" and f1: "f1 = f\<lparr>allocs := a\<rparr>"
  obtains (locked) w n where "lookup_node f ino nm = Some w" "nodes f w = Some n" "treelock n \<noteq> 0"
      "lock_wnode f1 ino nm = Some ((False, Some w), f1\<lparr>nodes := (nodes f)(w \<mapsto>
         if treelock n > 0 then n\<lparr>treelock := treelock n + TREELOCK_WAIT_OFFSET\<rparr> else n)\<rparr>)"
  | (free) w where "lookup_node f ino nm = w" "lock_wnode f1 ino nm = Some ((True, w), f1\<lparr>nodes := write_lock w (nodes f)\<rparr>)"
      "\<And>x. w = Some x \<Longrightarrow> \<exists>n. nodes f x = Some n \<and> treelock n = 0"
proof -
  have lk: "lookup_node f1 ino nm = lookup_node f ino nm" using lookup_same [of f1 f] by (simp add: f1)
  show thesis
  proof (cases "lookup_node f ino nm")
    case None
    then show thesis using lk by (intro free [OF None]) (simp_all add: lock_wnode_def write_lock_def f1)
  next
    case (Some w)
    obtain n where n: "nodes f w = Some n" by (rule lookup_linked [OF inv Some])
    show thesis
    proof (cases "treelock n = 0")
      case False
      have "(nodes f)(w \<mapsto> n) = nodes f" using n by auto
      then show thesis using False n lk Some
        by (intro locked [OF Some n False]) (simp add: lock_wnode_def f1 put_node_def)
    next
      case True
      have "write_lock (Some w) (nodes f) = (nodes f)(w \<mapsto> n\<lparr>treelock := TREELOCK_WRITE\<rparr>)"
        using n by (auto simp: write_lock_def fun_eq_iff)
      then show thesis using True n lk Some
        by (intro free [OF Some]) (simp_all add: lock_wnode_def f1 put_node_def)
    qed
  qed
qed

text \<open>The part of \<open>try_get_path\<close> after the write lock.\<close>

lemma path_part:
  assumes inv: "fuse_inv f" and p: "nodes f p = Some n" "nodeid n = ino"
    and ch: "chain (nodes f) p ps e" "chain_end (nodes f) e" "distinct ps" "e \<notin> set ps"
    and w: "w = None \<or> (\<exists>nm x k. w = Some x \<and> lookup_node f ino nm = Some x \<and> nodes f x = Some k \<and> treelock k = 0)"
    and f2: "f2 = f\<lparr>nodes := write_lock w (nodes f), allocs := a\<rparr>" "allocs f = [] \<longrightarrow> a = []"
    and b: "buf_ok b" "content b = name_suffix name @ [CHR 0x00]" "CHR 0x00 \<notin> set (name_suffix name)"
    and nul: "CHR 0x00 \<notin> set (spell (nodes f) ps)"
    and len: "path_len (nodes f) ps + length (content b) \<le> 0xffffffff"
  obtains (taken) b2 stop f' where "path_loop True f2 b p = Some ((0, b2, stop), f')"
      "path_taken f ps e name w (Some (buf_path b2)) f'"
  | (refused) err b2 stop f3 f' where "path_loop True f2 b p = Some ((err, b2, stop), f3)" "err \<noteq> 0"
      "unlock_path f3 ino w (Some stop) = Some f'" "path_refused f ps e ino name wl err f'" "nodes f' = nodes f"
proof -
  have st: "same_tree (nodes f) (nodes f2)" by (simp add: f2(1))
  have off: "w = Some x \<Longrightarrow> x \<notin> insert e (set ps)" for x using w wnode_off_path [OF inv p ch(1)] by auto
  have "length (content b) + path_len (nodes f2) ps \<le> 0xffffffff" using len path_len_same_tree [OF st] by simp
  then obtain err b2 stop f3 where r: "path_loop True f2 b p = Some ((err, b2, stop), f3)"
    and res: "loop_result True f2 b ps e err b2 stop f3"
    using path_loop_spec [OF chain_same_tree [OF ch(1) st] chain_end_same_tree [OF ch(2) st] ch(3,4) b(1)] by blast
  obtain vs ws a' where l: "ps @ [e] = vs @ stop # ws"
    "f3 = f2\<lparr>nodes := bump 1 (set vs) (nodes f2), allocs := a'\<rparr>"
    "\<forall>x\<in>set vs. \<exists>n. nodes f2 x = Some n \<and> 0 \<le> treelock n"
    "err = 0 \<or> err = - ESTALE \<or> err = - ENOMEM \<or> err = - EAGAIN"
    "err = 0 \<longleftrightarrow> ws = [] \<and> is_root (nodes f2) e"
    "err = 0 \<longrightarrow> buf_ok b2 \<and> content b2 = spell (nodes f2) ps @ content b"
    "err = - ESTALE \<longleftrightarrow> ws = [] \<and> \<not> is_root (nodes f2) e"
    "err = - EAGAIN \<longrightarrow> (\<exists>n. nodes f2 stop = Some n \<and> treelock n < 0)"
    "allocs f2 = [] \<longrightarrow> a' = [] \<and> err \<noteq> - ENOMEM"
    using res unfolding loop_result_def by auto
  have same: "nodes f2 x = nodes f x" if "x \<in> insert e (set ps)" for x
    using off that by (auto simp: f2(1) write_lock_def split: option.splits)
  have sub: "set vs \<subseteq> insert e (set ps)" using arg_cong [OF l(1), of set] by auto
  have pos: "\<forall>x\<in>set vs. \<exists>n. nodes f x = Some n \<and> 0 \<le> treelock n"
    using l(3) same sub by (metis subsetD)
  have f3: "f3 = f\<lparr>nodes := bump 1 (set vs) (write_lock w (nodes f)), allocs := a'\<rparr>" using l(2) by (simp add: f2(1))
  show thesis
  proof (cases "err = 0")
    case True
    then have ws: "ws = []" "is_root (nodes f) e" using l(5) is_root_same_tree [OF _ same_tree_sym [OF st]] by auto
    then have vs: "vs = ps" using l(1) by simp
    have c: "content b2 = (spell (nodes f) ps @ name_suffix name) @ [CHR 0x00]" "buf_ok b2"
      using l(6) True b(2) spell_same_tree [OF st] by auto
    have "buf_path b2 = (if spell (nodes f) ps @ name_suffix name = [] then ''/'' else spell (nodes f) ps @ name_suffix name)"
      by (rule buf_path_content [OF c(2,1)]) (use nul b(3) in auto)
    then have "path_taken f ps e name w (Some (buf_path b2)) f3"
      using ws(2) pos vs f3 w by (auto simp: path_taken_def split: list.splits)
    with r True show thesis by (intro taken) auto
  next
    case False
    have "unlock_path f3 ino w (Some stop) = Some (f\<lparr>allocs := a'\<rparr>)"
      by (rule unlock_after_loop [OF inv p ch w l(1) pos _ f3]) simp
    moreover have "path_refused f ps e ino name wl err (f\<lparr>allocs := a'\<rparr>)"
    proof -
      have "stop \<in> insert e (set ps)" using arg_cong [OF l(1), of set] by auto
      then have "err = - EAGAIN \<longrightarrow> (\<exists>x\<in>insert e (set ps). \<exists>n. nodes f x = Some n \<and> treelock n < 0)"
        using l(8) same by metis
      moreover have "err = - ESTALE \<longrightarrow> \<not> is_root (nodes f) e" using l(7) is_root_same_tree [OF _ st] by blast
      moreover have "err = - ENOMEM \<longrightarrow> allocs f \<noteq> []" using l(9) f2 by auto
      ultimately show ?thesis
        unfolding path_refused_def using l(4) False by (intro exI [of _ "nodes f"] exI [of _ a']) auto
    qed
    ultimately show thesis using r False
      by (intro refused [of err b2 stop f3 "f\<lparr>allocs := a'\<rparr>"]) auto
  qed
qed

lemma first_name:
  assumes len: "name_len name + 1 \<le> 0xffffffff"
  obtains (nomem) a1 where "(case name of None \<Rightarrow> Some (Some init_buf, a) | Some nm \<Rightarrow> add_name a init_buf nm) = Some (None, a1)" "a \<noteq> []"
  | (ok) b a1 where "(case name of None \<Rightarrow> Some (Some init_buf, a) | Some nm \<Rightarrow> add_name a init_buf nm) = Some (Some b, a1)"
      "buf_ok b" "content b = name_suffix name @ [CHR 0x00]" "a = [] \<Longrightarrow> a1 = []"
proof (cases name)
  case None
  then show thesis using init_buf_ok by (intro ok [of init_buf a]) (simp_all add: name_suffix_def)
next
  case (Some nm)
  have l: "length (content init_buf) + length nm + 1 \<le> 0xffffffff"
    using len Some by (simp add: init_buf_ok name_len_def)
  show thesis
  proof (cases rule: add_name_spec [OF init_buf_ok(1) l, of a])
    case (1 a')
    moreover have "a \<noteq> []" using 1 add_name_alloc [OF init_buf_ok(1) l] by force
    ultimately show thesis using Some by (intro nomem [of a']) simp_all
  next
    case (2 b' a')
    moreover have "a = [] \<Longrightarrow> a' = []" using 2(1) add_name_alloc [OF init_buf_ok(1) l] by force
    ultimately show thesis using Some init_buf_ok(2) by (intro ok [of b' a']) (simp_all add: name_suffix_def)
  qed
qed

lemma try_get_path_spec:
  assumes inv: "fuse_inv f" and p: "nodes f p = Some n" "nodeid n = ino"
    and ch: "chain (nodes f) p ps e" "chain_end (nodes f) e" "distinct ps" "e \<notin> set ps"
    and name: "wlock \<Longrightarrow> name \<noteq> None" "CHR 0x00 \<notin> set (name_suffix name)"
    and nul: "CHR 0x00 \<notin> set (spell (nodes f) ps)"
    and len: "path_len (nodes f) ps + name_len name + 1 \<le> 0xffffffff"
  obtains (taken) path w f' where "try_get_path f ino name wlock True = Some ((0, path, w), f')"
      "w = (if wlock then lookup_node f ino (the name) else None)" "path_taken f ps e name w path f'"
  | (refused) err f' where "try_get_path f ino name wlock True = Some ((err, None, None), f')" "err \<noteq> 0"
      "path_refused f ps e ino name wlock err f'"
proof -
  have refuse: thesis if "try_get_path f ino name wlock True = Some ((- ENOMEM, None, None), f\<lparr>allocs := a\<rparr>)" "allocs f \<noteq> []" for a
  proof (rule refused [OF that(1)])
    show "path_refused f ps e ino name wlock (- ENOMEM) (f\<lparr>allocs := a\<rparr>)"
      unfolding path_refused_def using that(2) by (intro exI [of _ "nodes f"] exI [of _ a]) simp
  qed (simp add: ENOMEM_def)
  obtain m a where al: "alloc_pop (allocs f) = (m, a)" by fastforce
  show thesis
  proof (cases m)
    case False
    then show thesis using al by (intro refuse [of a]) (auto simp: try_get_path_def)
  next
    case m: True
    have l1: "name_len name + 1 \<le> 0xffffffff" using len by simp
    show thesis
    proof (cases rule: first_name [OF l1, of a])
      case (1 a1)
      then show thesis using al m by (intro refuse [of a1]) (auto simp: try_get_path_def)
    next
      case (2 b a1)
      define f1 where "f1 = f\<lparr>allocs := a1\<rparr>"
      define lockres where "lockres = (if wlock then (case name of None \<Rightarrow> None | Some nm \<Rightarrow> lock_wnode f1 ino nm)
                                       else Some ((True, None), f1))"
      have run: "try_get_path f ino name wlock True = do {
          ((fr, wnode), f2) \<leftarrow> lockres;
          if \<not> fr then Some ((- EAGAIN, None, None), f2)
          else do {
            p \<leftarrow> get_node f2 ino;
            ((err, b2, stop), f3) \<leftarrow> path_loop True f2 b p;
            if err = 0 then Some ((0, Some (buf_path b2), wnode), f3)
            else do { f4 \<leftarrow> unlock_path f3 ino wnode (Some stop); Some ((err, None, None), f4) } } }"
        unfolding try_get_path_def lockres_def f1_def if_True not_True_eq_False if_False
        using al m 2(1) by (simp add: Let_def)
      have cl: "path_len (nodes f) ps + length (content b) \<le> 0xffffffff"
        using len 2(3) by (auto simp: name_suffix_def name_len_def split: option.splits)
      have a1: "allocs f = [] \<longrightarrow> a1 = []" using al 2(4) by auto
      have go: thesis if w: "w = (if wlock then lookup_node f ino (the name) else None)"
        and lr: "lockres = Some ((True, w), f1\<lparr>nodes := write_lock w (nodes f)\<rparr>)"
        and zero: "\<And>x. w = Some x \<Longrightarrow> \<exists>n. nodes f x = Some n \<and> treelock n = 0" for w
      proof -
        define f2 where "f2 = f\<lparr>nodes := write_lock w (nodes f), allocs := a1\<rparr>"
        have f2e: "f1\<lparr>nodes := write_lock w (nodes f)\<rparr> = f2" by (simp add: f1_def f2_def)
        have g: "get_node f2 ino = Some p"
          using lock_only_get [of f f2] get_node_iff [OF inv] p by (simp add: f2_def)
        have w': "w = None \<or> (\<exists>nm x k. w = Some x \<and> lookup_node f ino nm = Some x \<and> nodes f x = Some k \<and> treelock k = 0)"
          using w zero by (cases w) (auto split: if_splits)
        show thesis
        proof (cases rule: path_part [OF inv p ch w' f2_def a1 2(2,3) name(2) nul cl, where wl = wlock])
          case (1 b2 stop f')
          have "try_get_path f ino name wlock True = Some ((0, Some (buf_path b2), w), f')"
            unfolding run lr f2e using g 1(1) by simp
          then show thesis by (rule taken [OF _ w 1(2)])
        next
          case (2 err b2 stop f3 f')
          have "try_get_path f ino name wlock True = Some ((err, None, None), f')"
            unfolding run lr f2e using g 2(1-3) by simp
          then show thesis by (rule refused [OF _ 2(2,4)])
        qed
      qed
      show thesis
      proof (cases wlock)
        case False
        then show thesis by (intro go [of None]) (simp_all add: lockres_def write_lock_def f1_def)
      next
        case wl: True
        then obtain nm where nm: "name = Some nm" using name by auto
        show thesis
        proof (cases rule: lock_wnode_spec [OF inv f1_def, of ino nm])
          case (1 w k)
          let ?f = "f1\<lparr>nodes := (nodes f)(w \<mapsto> if treelock k > 0 then k\<lparr>treelock := treelock k + TREELOCK_WAIT_OFFSET\<rparr> else k)\<rparr>"
          have "(nodes f)(w \<mapsto> k) = nodes f" using 1(2) by auto
          then have "path_refused f ps e ino name wlock (- EAGAIN) ?f"
            unfolding path_refused_def f1_def using 1 wl nm
            by (intro exI [of _ "nodes ?f"] exI [of _ a1]) (auto simp: f1_def split: if_splits)
          moreover have "lockres = Some ((False, Some w), ?f)" using wl nm 1(4) by (simp add: lockres_def)
          then have "try_get_path f ino name wlock True = Some ((- EAGAIN, None, None), ?f)"
            unfolding run by simp
          ultimately show thesis by (intro refused [of "- EAGAIN" ?f]) (simp_all add: EAGAIN_def)
        next
          case (2 w)
          then show thesis using wl nm by (intro go [of w]) (simp_all add: lockres_def)
        qed
      qed
    qed
  qed
qed

section \<open>Locks and the store invariant\<close>

definition relock :: "(ptr \<Rightarrow> int) \<Rightarrow> (ptr \<rightharpoonup> node) \<Rightarrow> (ptr \<rightharpoonup> node)" where
  "relock t ns = (\<lambda>x. map_option (\<lambda>n. n\<lparr>treelock := t x\<rparr>) (ns x))"

lemma relock_Some: "relock t ns x = Some n' \<longleftrightarrow> (\<exists>n. ns x = Some n \<and> n' = n\<lparr>treelock := t x\<rparr>)"
  by (auto simp: relock_def)

lemma relock_views:
  "par (relock t ns) = par ns" "dom (relock t ns) = dom ns" "id_key (relock t ns) = id_key ns"
  "name_key (relock t ns) = name_key ns" "refs (relock t ns) H p (n\<lparr>treelock := k\<rparr>) = refs ns H p n"
proof -
  show p: "par (relock t ns) = par ns"
  proof
    fix x show "par (relock t ns) x = par ns x" by (cases "ns x") (simp_all add: par_def relock_def)
  qed
  show "dom (relock t ns) = dom ns" by (auto simp: relock_def)
  show "id_key (relock t ns) = id_key ns"
    by (rule ext) (auto simp: id_key_def relock_def split: option.splits)
  show "name_key (relock t ns) = name_key ns"
    by (rule ext) (auto simp: name_key_def relock_def split: option.splits)
  show "refs (relock t ns) H p (n\<lparr>treelock := k\<rparr>) = refs ns H p n"
    by (simp add: refs_def children_def p)
qed

lemma store_inv_relock:
  assumes si: "store_inv ns H P r rank" and pin: "\<And>x n. ns x = Some n \<Longrightarrow> t x \<noteq> 0 \<Longrightarrow> nlookup n > 0"
  shows "store_inv (relock t ns) H P r rank"
proof -
  have "linked_ok (relock t ns) H"
    unfolding linked_ok_def
  proof
    fix p assume "p \<in> H"
    then obtain n q nm where "ns p = Some n" "n_name n = Some nm" "parent n = Some q" "ns q \<noteq> None"
      "nodeid n \<noteq> FUSE_ROOT_ID" by (rule linkedE [OF si]) auto
    then show "\<exists>n q nm. relock t ns p = Some n \<and> n_name n = Some nm \<and> parent n = Some q \<and> relock t ns q \<noteq> None \<and>
      nodeid n \<noteq> FUSE_ROOT_ID" by (auto simp: relock_def)
  qed
  moreover have "refs_ok (relock t ns) H r"
    using si unfolding store_inv_def refs_ok_def by (auto simp: relock_Some relock_views(5))
  moreover have "ids_unique (relock t ns)"
    using si unfolding store_inv_def ids_unique_def by (auto simp: relock_Some)
  moreover have "names_unique (relock t ns) H"
  proof -
    have "map_option n_name (relock t ns x) = map_option n_name (ns x)" for x
      by (simp add: relock_def option.map_comp o_def)
    then show ?thesis using si by (simp add: store_inv_def names_unique_def relock_views(1))
  qed
  moreover have "root_ok (relock t ns)"
  proof -
    obtain p n where "ns p = Some n" "nodeid n = FUSE_ROOT_ID" "nlookup n > 0"
      using si unfolding store_inv_def root_ok_def by blast
    then have "relock t ns p = Some (n\<lparr>treelock := t p\<rparr>) \<and> nodeid (n\<lparr>treelock := t p\<rparr>) = FUSE_ROOT_ID \<and>
      nlookup (n\<lparr>treelock := t p\<rparr>) > 0" by (simp add: relock_def)
    then show ?thesis unfolding root_ok_def by blast
  qed
  moreover have "root_kept (relock t ns)"
    using si unfolding store_inv_def root_kept_def by (auto simp: relock_Some)
  moreover have "unnamed_ok (relock t ns) H P"
    using si unfolding store_inv_def unnamed_ok_def by (auto simp: relock_Some)
  moreover have "ranked (relock t ns) H rank"
    using si by (simp add: store_inv_def ranked_def relock_views(1))
  moreover have "pinned (relock t ns)" using pin by (auto simp: pinned_def relock_Some)
  ultimately show ?thesis by (simp add: store_inv_def)
qed

lemma fuse_inv_relock:
  assumes inv: "fuse_inv f" and pin: "\<And>x n. nodes f x = Some n \<Longrightarrow> t x \<noteq> 0 \<Longrightarrow> nlookup n > 0"
  shows "fuse_inv (f\<lparr>nodes := relock t (nodes f), allocs := a\<rparr>)"
proof -
  obtain rank where i: "ninv f (linked f) {} 0 (\<lambda>_. 0) rank" and al: "alive (nodes f) {}"
    and si: "store_inv (nodes f) (linked f) {} (\<lambda>_. 0) rank" by (rule fuse_invE [OF inv])
  have "ninv (f\<lparr>nodes := relock t (nodes f), allocs := a\<rparr>) (linked f) {} 0 (\<lambda>_. 0) rank"
    using i store_inv_relock [OF si pin] by (simp add: ninv_def relock_views)
  then show ?thesis by (rule fuse_invI) (use al in \<open>auto simp: alive_def relock_Some\<close>)
qed

definition lock_of :: "(ptr \<rightharpoonup> node) \<Rightarrow> ptr \<Rightarrow> int" where
  "lock_of ns x = (case ns x of None \<Rightarrow> 0 | Some n \<Rightarrow> treelock n)"

text \<open>Every change of locks the path code makes is a \<open>relock\<close>.\<close>

lemma relock_bump: "bump d A (write_lock w ns) =
    relock (\<lambda>x. (if w = Some x then TREELOCK_WRITE else lock_of ns x) + (if x \<in> A then d else 0)) ns"
  by (auto simp: fun_eq_iff bump_def write_lock_def relock_def lock_of_def split: option.splits)

lemma relock_upd: "ns w = Some n \<Longrightarrow> ns(w \<mapsto> n\<lparr>treelock := t\<rparr>) = relock (\<lambda>x. if x = w then t else lock_of ns x) ns"
proof
  fix x assume n: "ns w = Some n"
  show "(ns(w \<mapsto> n\<lparr>treelock := t\<rparr>)) x = relock (\<lambda>x. if x = w then t else lock_of ns x) ns x"
    using n by (cases "ns x") (auto simp: relock_def lock_of_def)
qed

lemma lock_of_pinned:
  assumes "fuse_inv f" "nodes f x = Some n" "lock_of (nodes f) x \<noteq> 0"
  shows "nlookup n > 0"
  using assms unfolding fuse_inv_def ninv_def store_inv_def pinned_def lock_of_def by (metis option.simps(5))

text \<open>
  Taking a path keeps the store invariant when the kernel holds a lookup on the nodes it locks,
  and so does refusing it.
\<close>

lemma path_taken_inv:
  assumes inv: "fuse_inv f" and t: "path_taken f ps e name w path f'"
    and held: "\<And>x n. x \<in> set ps \<or> w = Some x \<Longrightarrow> nodes f x = Some n \<Longrightarrow> nlookup n > 0"
  shows "fuse_inv f'"
proof -
  obtain a where f': "f' = f\<lparr>nodes := bump 1 (set ps) (write_lock w (nodes f)), allocs := a\<rparr>"
    using t by (auto simp: path_taken_def)
  show ?thesis unfolding f' relock_bump
  proof (rule fuse_inv_relock [OF inv])
    fix x n assume x: "nodes f x = Some n"
      "(if w = Some x then TREELOCK_WRITE else lock_of (nodes f) x) + (if x \<in> set ps then 1 else 0) \<noteq> 0"
    show "nlookup n > 0"
    proof (cases "x \<in> set ps \<or> w = Some x")
      case True
      then show ?thesis using held x(1) by blast
    next
      case False
      then show ?thesis using x lock_of_pinned [OF inv x(1)] by auto
    qed
  qed
qed

lemma path_refused_inv:
  assumes inv: "fuse_inv f" and t: "path_refused f ps e ino name wlock err f'"
  shows "fuse_inv f'"
proof -
  obtain ns a where f': "f' = f\<lparr>nodes := ns, allocs := a\<rparr>" and
    ns: "ns = nodes f \<or> (\<exists>w n. nodes f w = Some n \<and> treelock n \<noteq> 0 \<and>
      ns = (nodes f)(w \<mapsto> n\<lparr>treelock := treelock n + TREELOCK_WAIT_OFFSET\<rparr>))"
    using t unfolding path_refused_def by (metis)
  from ns show ?thesis
  proof
    assume "ns = nodes f"
    then show ?thesis unfolding f' using fuse_inv_upd(5) [OF inv] by simp
  next
    assume "\<exists>w n. nodes f w = Some n \<and> treelock n \<noteq> 0 \<and> ns = (nodes f)(w \<mapsto> n\<lparr>treelock := treelock n + TREELOCK_WAIT_OFFSET\<rparr>)"
    then obtain w n where w: "nodes f w = Some n" "treelock n \<noteq> 0"
      "ns = relock (\<lambda>x. if x = w then treelock n + TREELOCK_WAIT_OFFSET else lock_of (nodes f) x) (nodes f)"
      using relock_upd by metis
    have ln: "lock_of (nodes f) w \<noteq> 0" using w by (simp add: lock_of_def)
    show ?thesis unfolding f' w(3)
    proof (rule fuse_inv_relock [OF inv])
      fix x m assume "nodes f x = Some m" "(if x = w then treelock n + TREELOCK_WAIT_OFFSET else lock_of (nodes f) x) \<noteq> 0"
      then show "nlookup m > 0" using lock_of_pinned [OF inv, of x m] ln by (cases "x = w") auto
    qed
  qed
qed

end
