(* ===== verification/Path_Properties.thy ===== *)
theory Path_Properties
  imports Path_Locks Node_Demo
begin

text \<open>
  The properties of path locking: what \<open>try_get_path\<close> returns and locks, that releasing undoes
  it, that the path resolves to the node it was built for, and which requests exclude each
  other.
\<close>

section \<open>Requests for a path\<close>

lemma chain_distinct:
  assumes inv: "fuse_inv f" and ch: "chain (nodes f) p ps e"
  shows "distinct ps \<and> e \<notin> set ps"
proof -
  obtain rank where si: "store_inv (nodes f) (linked f) {} (\<lambda>_. 0) rank" by (rule fuse_invE [OF inv])
  show ?thesis using ch
  proof (induction rule: chain.induct)
    case (chain_Cons p n nm q ps e)
    have "p \<in> linked f"
      using si chain_Cons.hyps(1-3) unfolding store_inv_def unnamed_ok_def by (metis empty_iff option.distinct(1))
    moreover have "par (nodes f) p = Some q" using chain_Cons.hyps by (simp add: par_def)
    ultimately have "rank q < rank p" using si unfolding store_inv_def ranked_def by blast
    then have "p \<notin> insert e (set ps)" using chain_rank [OF inv si chain_Cons.hyps(5)] by auto
    with chain_Cons.IH show ?case by simp
  qed simp
qed

text \<open>
  \<open>path_request f ino p ps e name wlock\<close>: node \<open>p\<close> has id \<open>ino\<close>, its parents lead through \<open>ps\<close>
  to \<open>e\<close>, the names are C strings, and the path fits the largest buffer the code can grow to.
\<close>

definition path_request :: "fuse \<Rightarrow> fuse_ino \<Rightarrow> ptr \<Rightarrow> ptr list \<Rightarrow> ptr \<Rightarrow> string option \<Rightarrow> bool \<Rightarrow> bool" where
  "path_request f ino p ps e name wlock \<longleftrightarrow> fuse_inv f \<and> (\<exists>n. nodes f p = Some n \<and> nodeid n = ino) \<and>
     chain (nodes f) p ps e \<and> chain_end (nodes f) e \<and> (wlock \<longrightarrow> name \<noteq> None) \<and>
     CHR 0x00 \<notin> set (name_suffix name) \<and> CHR 0x00 \<notin> set (spell (nodes f) ps) \<and>
     path_len (nodes f) ps + name_len name + 1 \<le> 0xffffffff"

lemma path_request_cases:
  assumes req: "path_request f ino p ps e name wlock"
  obtains (taken) path w f' where "try_get_path f ino name wlock True = Some ((0, path, w), f')"
      "w = (if wlock then lookup_node f ino (the name) else None)" "path_taken f ps e name w path f'"
  | (refused) err f' where "try_get_path f ino name wlock True = Some ((err, None, None), f')" "err \<noteq> 0"
      "path_refused f ps e ino name wlock err f'"
proof -
  obtain n where n: "nodes f p = Some n" "nodeid n = ino" using req by (auto simp: path_request_def)
  have r: "fuse_inv f" "chain (nodes f) p ps e" "chain_end (nodes f) e" "wlock \<Longrightarrow> name \<noteq> None"
    "CHR 0x00 \<notin> set (name_suffix name)" "CHR 0x00 \<notin> set (spell (nodes f) ps)"
    "path_len (nodes f) ps + name_len name + 1 \<le> 0xffffffff"
    using req by (auto simp: path_request_def)
  note d = chain_distinct [OF r(1,2)]
  show thesis
    by (rule try_get_path_spec [OF r(1) n r(2,3) conjunct1 [OF d] conjunct2 [OF d] r(4-7)])
      (blast intro: taken refused)+
qed

text \<open>
  C19: \<open>try_get_path\<close> returns, and either takes the path or refuses. Taken: the path string is
  the names from the root down (or \<open>/\<close>), followed by the name asked for; every node of the path
  has one more reader, the node to be changed is write-locked, nothing else changes. Refused:
  the code is \<open>-ENOMEM\<close> (only after a failed allocation), \<open>-ESTALE\<close> (only for an unlinked
  node) or \<open>-EAGAIN\<close> (only when a lock is held that excludes the request), all locks are as
  before, except that a writer turned away by readers leaves its wait mark.
\<close>

theorem try_get_path_outcome:
  assumes "path_request f ino p ps e name wlock"
  shows "\<exists>err path w f'. try_get_path f ino name wlock True = Some ((err, path, w), f') \<and>
    (if err = 0 then w = (if wlock then lookup_node f ino (the name) else None) \<and> path_taken f ps e name w path f'
     else path = None \<and> w = None \<and> path_refused f ps e ino name wlock err f')"
proof (cases rule: path_request_cases [OF assms])
  case (1 path w f')
  then show ?thesis by (intro exI [of _ 0] exI [of _ path] exI [of _ w] exI [of _ f']) auto
next
  case (2 err f')
  then show ?thesis by (intro exI [of _ err] exI [of _ None] exI [of _ f']) auto
qed

section \<open>The demonstration store\<close>

lemma demo_chain: "chain (nodes demo2) 1 [1] 0" "chain_end (nodes demo2) 0" "is_root (nodes demo2) 0"
  "spell (nodes demo2) [1] = ''/a''"
proof -
  show "chain (nodes demo2) 1 [1] 0"
    by (rule chain.chain_Cons [of "nodes demo2" 1 "demo_node 2 1 (Some 0) ''a''" "''a''" 0])
      (use demo_nodes(1) in \<open>simp_all add: FUSE_ROOT_ID_def chain.chain_Nil\<close>)
  show "chain_end (nodes demo2) 0" "is_root (nodes demo2) 0"
    by (simp_all add: chain_end_def is_root_def demo_nodes FUSE_ROOT_ID_def)
  show "spell (nodes demo2) [1] = ''/a''" using demo_nodes(1) by (simp add: spell_def node_name_def)
qed

lemma demo_request:
  "path_request demo2 2 1 [1] 0 None False" "path_request demo2 2 1 [1] 0 (Some ''x'') True"
  using demo_inv demo_nodes(1) demo_chain
  by (simp_all add: path_request_def name_suffix_def name_len_def path_len_def)

theorem try_get_path_outcome_witness:
  "\<exists>err path w f'. try_get_path demo2 2 (Some ''x'') True True = Some ((err, path, w), f') \<and>
    (if err = 0 then w = (if True then lookup_node demo2 2 (the (Some ''x'')) else None) \<and>
       path_taken demo2 [1] 0 (Some ''x'') w path f'
     else path = None \<and> w = None \<and> path_refused demo2 [1] 0 2 (Some ''x'') True err f')"
  by (rule try_get_path_outcome [OF demo_request(2)])

section \<open>Progress, exclusion, release\<close>

lemma unlocked_request_taken:
  assumes req: "path_request f ino p ps e name wlock" and mem: "allocs f = []"
    and root: "is_root (nodes f) e"
    and free: "\<forall>x\<in>insert e (set ps). \<forall>n. nodes f x = Some n \<longrightarrow> 0 \<le> treelock n"
    and wfree: "wlock \<longrightarrow> (\<forall>w n. lookup_node f ino (the name) = Some w \<longrightarrow> nodes f w = Some n \<longrightarrow> treelock n = 0)"
  obtains path w f' where "try_get_path f ino name wlock True = Some ((0, path, w), f')"
    "path_taken f ps e name w path f'"
proof (cases rule: path_request_cases [OF req])
  case (1 path w f')
  then show ?thesis using that by blast
next
  case (2 err f')
  have False
    using 2(3) unfolding path_refused_def
  proof (elim exE conjE disjE)
    fix nm w n assume "name = Some nm" "lookup_node f ino nm = Some w" "nodes f w = Some n" "treelock n \<noteq> 0" wlock
    with wfree show False by auto
  qed (use mem root free in force)+
  then show ?thesis ..
qed

text \<open>
  A request whose path and target are unlocked is granted at once (memory permitting): the
  node is linked to the root, no node of the path is write-locked or awaited by a writer, and
  the node to be write-locked is free.
\<close>

theorem try_get_path_grants:
  assumes "path_request f ino p ps e name wlock" "allocs f = []" "is_root (nodes f) e"
    and "\<forall>x\<in>insert e (set ps). \<forall>n. nodes f x = Some n \<longrightarrow> 0 \<le> treelock n"
    and "wlock \<longrightarrow> (\<forall>w n. lookup_node f ino (the name) = Some w \<longrightarrow> nodes f w = Some n \<longrightarrow> treelock n = 0)"
  shows "\<exists>path w f'. try_get_path f ino name wlock True = Some ((0, Some path, w), f') \<and>
    path = (if spell (nodes f) ps @ name_suffix name = [] then ''/'' else spell (nodes f) ps @ name_suffix name)"
proof -
  obtain path w f' where "try_get_path f ino name wlock True = Some ((0, path, w), f')"
    "path_taken f ps e name w path f'" by (rule unlocked_request_taken [OF assms])
  then show ?thesis by (auto simp: path_taken_def split: list.splits)
qed

theorem try_get_path_grants_witness:
  "\<exists>path w f'. try_get_path demo2 2 (Some ''x'') True True = Some ((0, Some path, w), f') \<and>
    path = (if spell (nodes demo2) [1] @ name_suffix (Some ''x'') = [] then ''/''
            else spell (nodes demo2) [1] @ name_suffix (Some ''x''))"
proof (rule try_get_path_grants [OF demo_request(2) _ demo_chain(3)])
  show "allocs demo2 = []" by (simp add: demo2_def)
  show "\<forall>x\<in>insert 0 (set [1]). \<forall>n. nodes demo2 x = Some n \<longrightarrow> 0 \<le> treelock n"
    using demo_nodes(1,3) by auto
  have "lookup_node demo2 2 ''x'' = None" by (simp add: demo_eval demo2_def)
  then show "True \<longrightarrow> (\<forall>w n. lookup_node demo2 2 (the (Some ''x'')) = Some w \<longrightarrow> nodes demo2 w = Some n \<longrightarrow> treelock n = 0)"
    by simp
qed


text \<open>
  C5: A path is never granted through a node that another request holds for writing, nor
  through one that a writer waits for (so readers do not starve writers), and no second writer
  and no writer over readers is let in.
\<close>

theorem tree_locks_exclude:
  assumes "path_request f ino p ps e name wlock"
    and "(\<exists>x n. x \<in> set ps \<and> nodes f x = Some n \<and> treelock n < 0) \<or>
      (\<exists>w n. wlock \<and> lookup_node f ino (the name) = Some w \<and> nodes f w = Some n \<and> treelock n \<noteq> 0)"
  shows "\<exists>err f'. try_get_path f ino name wlock True = Some ((err, None, None), f') \<and> err \<noteq> 0"
proof (cases rule: path_request_cases [OF assms(1)])
  case (1 path w f')
  have "\<forall>x\<in>set ps. \<exists>n. nodes f x = Some n \<and> 0 \<le> treelock n"
    "\<forall>x. w = Some x \<longrightarrow> (\<exists>n. nodes f x = Some n \<and> treelock n = 0)"
    using 1(3) by (auto simp: path_taken_def)
  with assms(2) 1(2) have False by fastforce
  then show ?thesis ..
next
  case (2 err f')
  then show ?thesis by blast
qed

definition demo_locked :: fuse where
  "demo_locked = demo2\<lparr>nodes := relock (\<lambda>x. if x = 1 then TREELOCK_WRITE else lock_of (nodes demo2) x) (nodes demo2),
     allocs := []\<rparr>"

lemma demo_locked_request: "path_request demo_locked 2 1 [1] 0 None False"
proof -
  have inv: "fuse_inv demo_locked" unfolding demo_locked_def
  proof (rule fuse_inv_relock [OF demo_inv(3)])
    fix x n assume "nodes demo2 x = Some n" "(if x = 1 then TREELOCK_WRITE else lock_of (nodes demo2) x) \<noteq> 0"
    then show "nlookup n > 0" using lock_of_pinned [OF demo_inv(3), of x n] demo_nodes(1) by (auto split: if_splits)
  qed
  have st: "same_tree (nodes demo2) (nodes demo_locked)"
    by (simp add: same_tree_def tree_of_def demo_locked_def relock_def option.map_comp o_def)
  have "nodes demo_locked 1 = Some ((demo_node 2 1 (Some 0) ''a'')\<lparr>treelock := TREELOCK_WRITE\<rparr>)"
    using demo_nodes(1) by (simp add: demo_locked_def relock_def)
  then have "\<exists>n. nodes demo_locked 1 = Some n \<and> nodeid n = 2" by simp
  with inv chain_same_tree [OF demo_chain(1) st] chain_end_same_tree [OF demo_chain(2) st] demo_chain(4)
  show ?thesis unfolding path_request_def
    by (simp add: spell_same_tree [OF st] path_len_same_tree [OF st] name_suffix_def name_len_def path_len_def)
qed

theorem tree_locks_exclude_witness:
  "\<exists>err f'. try_get_path demo_locked 2 None False True = Some ((err, None, None), f') \<and> err \<noteq> 0"
proof (rule tree_locks_exclude [OF demo_locked_request])
  have "nodes demo_locked 1 = Some ((demo_node 2 1 (Some 0) ''a'')\<lparr>treelock := TREELOCK_WRITE\<rparr>)"
    using demo_nodes(1) by (simp add: demo_locked_def relock_def)
  then show "(\<exists>x n. x \<in> set [1] \<and> nodes demo_locked x = Some n \<and> treelock n < 0) \<or>
      (\<exists>w n. False \<and> lookup_node demo_locked 2 (the None) = Some w \<and> nodes demo_locked w = Some n \<and> treelock n \<noteq> 0)"
    by (simp add: TREELOCK_WRITE_def)
qed

lemma unlock_taken:
  assumes req: "path_request f ino p ps e name wlock"
    and w: "w = (if wlock then lookup_node f ino (the name) else None)" and t: "path_taken f ps e name w path f'"
  shows "unlock_path f' ino w None = Some (f\<lparr>allocs := allocs f'\<rparr>)"
proof -
  obtain n where n: "nodes f p = Some n" "nodeid n = ino" using req by (auto simp: path_request_def)
  have r: "fuse_inv f" "chain (nodes f) p ps e" "chain_end (nodes f) e" using req by (auto simp: path_request_def)
  note d = chain_distinct [OF r(1,2)]
  obtain a where f': "f' = f\<lparr>nodes := bump 1 (set ps) (write_lock w (nodes f)), allocs := a\<rparr>"
    and pos: "\<forall>x\<in>set ps. \<exists>n. nodes f x = Some n \<and> 0 \<le> treelock n" and root: "is_root (nodes f) e"
    and wz: "\<forall>x. w = Some x \<longrightarrow> (\<exists>n. nodes f x = Some n \<and> treelock n = 0)"
    using t by (auto simp: path_taken_def)
  have w': "w = None \<or> (\<exists>nm x k. w = Some x \<and> lookup_node f ino nm = Some x \<and> nodes f x = Some k \<and> treelock k = 0)"
    using w wz by (cases w) (auto split: if_splits)
  have "unlock_path f' ino w None = Some (f\<lparr>allocs := a\<rparr>)"
    by (rule unlock_after_loop [OF r(1) n r(2,3) conjunct1 [OF d] conjunct2 [OF d] w' _ pos _ f', of e "[]"])
      (use root in simp_all)
  then show ?thesis by (simp add: f')
qed

text \<open>
  C20: Releasing a path undoes taking it: every lock is back to what it was, and no assertion of
  \<open>unlock_path\<close> fails.
\<close>

theorem path_lock_roundtrip:
  assumes "path_request f ino p ps e name wlock" "try_get_path f ino name wlock True = Some ((0, path, w), f')"
  shows "unlock_path f' ino w None = Some (f\<lparr>allocs := allocs f'\<rparr>)"
proof (cases rule: path_request_cases [OF assms(1)])
  case (1 path1 w1 f1)
  then show ?thesis using assms(2) unlock_taken [OF assms(1) 1(2,3)] by simp
next
  case (2 err f1)
  then show ?thesis using assms(2) by simp
qed

lemma demo_taken:
  obtains path f' where "try_get_path demo2 2 None False True = Some ((0, path, None), f')"
    "path_taken demo2 [1] 0 None None path f'"
proof (rule unlocked_request_taken [OF demo_request(1) _ demo_chain(3)])
  show "allocs demo2 = []" by (simp add: demo2_def)
  show "\<forall>x\<in>insert 0 (set [1]). \<forall>n. nodes demo2 x = Some n \<longrightarrow> 0 \<le> treelock n" using demo_nodes(1,3) by auto
  fix path w f' assume t: "try_get_path demo2 2 None False True = Some ((0, path, w), f')"
    "path_taken demo2 [1] 0 None w path f'"
  have "w = None"
    by (rule path_request_cases [OF demo_request(1)]) (use t(1) in auto)
  with t that show thesis by blast
qed simp

theorem path_lock_roundtrip_witness:
  "\<exists>path f'. try_get_path demo2 2 None False True = Some ((0, path, None), f') \<and>
     unlock_path f' 2 None None = Some (demo2\<lparr>allocs := allocs f'\<rparr>)"
proof (rule demo_taken)
  fix path f' assume t: "try_get_path demo2 2 None False True = Some ((0, path, None), f')"
  from t path_lock_roundtrip [OF demo_request(1) t] show ?thesis by blast
qed


section \<open>The path leads back to the node\<close>

lemma walk_append:
  assumes "walk_elements f ino xs = Some (0, j)"
  shows "walk_elements f ino (xs @ ys) = walk_elements f j ys"
  using assms
  by (induction f ino xs rule: walk_elements.induct) (auto simp: ENOENT_def bind_eq_Some_conv split: option.splits)

lemma walk_chain:
  assumes inv: "fuse_inv f" and ch: "chain (nodes f) p ps e" and root: "is_root (nodes f) e"
    and p: "nodes f p = Some n"
  shows "walk_elements f FUSE_ROOT_ID (map (node_name (nodes f)) (rev ps)) = Some (0, nodeid n)"
proof -
  obtain rank where si: "store_inv (nodes f) (linked f) {} (\<lambda>_. 0) rank" by (rule fuse_invE [OF inv])
  show ?thesis using ch root p
  proof (induction arbitrary: n rule: chain.induct)
    case (chain_Nil p)
    then show ?case by (auto simp: is_root_def)
  next
    case (chain_Cons p m nm q ps e)
    have m: "n = m" using chain_Cons.hyps(1) chain_Cons.prems(2) by simp
    have pl: "p \<in> linked f"
      using si chain_Cons.hyps(1-3) unfolding store_inv_def unnamed_ok_def by (metis empty_iff option.distinct(1))
    obtain m' q' k where q': "nodes f p = Some m'" "parent m' = Some q'" "nodes f q' = Some k"
      by (rule linkedE [OF si pl])
    then have k: "nodes f q = Some k" using chain_Cons.hyps(1,4) by simp
    have "walk_elements f FUSE_ROOT_ID (map (node_name (nodes f)) (rev ps)) = Some (0, nodeid k)"
      by (rule chain_Cons.IH [OF chain_Cons.prems(1) k])
    from walk_append [OF this, of "[nm]"] have
      "walk_elements f FUSE_ROOT_ID (map (node_name (nodes f)) (rev ps) @ [nm]) = walk_elements f (nodeid k) [nm]" .
    moreover have "lookup_node f (nodeid k) nm = Some p"
      using pl k chain_Cons.hyps(1,3,4) by (simp add: lookup_node_iff [OF inv] name_match_def)
    moreover have "node_name (nodes f) p = nm" using chain_Cons.hyps(1,3) by (simp add: node_name_def)
    ultimately show ?case using chain_Cons.hyps(1) m by simp
  qed
qed

lemma elements_skip: "CHR ''/'' \<notin> set nm \<Longrightarrow> path_elements_aux acc (nm @ s) = path_elements_aux (rev nm @ acc) s"
  by (induction nm arbitrary: acc) auto

lemma elements_join:
  assumes "\<forall>nm\<in>set nms. nm \<noteq> [] \<and> CHR ''/'' \<notin> set nm"
  shows "path_elements_aux acc (concat (map (\<lambda>nm. CHR ''/'' # nm) nms)) = (if acc = [] then nms else rev acc # nms)"
  using assms
proof (induction nms arbitrary: acc)
  case (Cons nm nms)
  have "path_elements_aux [] (nm @ concat (map (\<lambda>nm. CHR ''/'' # nm) nms)) = nm # nms"
    using Cons by (simp add: elements_skip)
  then show ?case by simp
qed simp

text \<open>
  C21: The path handed to the file system resolves to the node it was built for: splitting it at
  the slashes and looking up each element from the root, as \<open>lookup_path_in_cache\<close> does, ends at
  the node's id.
\<close>

theorem path_resolves:
  assumes req: "path_request f ino p ps e None False" and run: "try_get_path f ino None False True = Some ((0, Some path, w), f')"
    and names: "\<forall>x\<in>set ps. node_name (nodes f) x \<noteq> [] \<and> CHR ''/'' \<notin> set (node_name (nodes f) x)"
  shows "lookup_path_in_cache (f\<lparr>allocs := []\<rparr>) path = Some ((0, Some ino), f\<lparr>allocs := []\<rparr>)"
proof (cases rule: path_request_cases [OF req])
  case (1 path1 w1 f1)
  have inv: "fuse_inv f" and ch: "chain (nodes f) p ps e" using req by (auto simp: path_request_def)
  obtain n where n: "nodes f p = Some n" "nodeid n = ino" using req by (auto simp: path_request_def)
  have root: "is_root (nodes f) e" and path: "path = (if ps = [] then ''/'' else spell (nodes f) ps)"
    using 1 run by (auto simp: path_taken_def name_suffix_def spell_def split: list.splits)
  have "path_elements path = map (node_name (nodes f)) (rev ps)"
  proof (cases "ps = []")
    case True
    then show ?thesis by (simp add: path path_elements_def)
  next
    case False
    have "map (\<lambda>p. CHR ''/'' # node_name (nodes f) p) (rev ps) =
      map (\<lambda>nm. CHR ''/'' # nm) (map (node_name (nodes f)) (rev ps))" by simp
    then show ?thesis using False names elements_join [of "map (node_name (nodes f)) (rev ps)" "[]"]
      by (simp add: path path_elements_def spell_def del: map_map)
  qed
  moreover have "walk_elements (f\<lparr>allocs := []\<rparr>) i xs = walk_elements f i xs" for i xs
  proof -
    have "lookup_node (f\<lparr>allocs := []\<rparr>) = lookup_node f" by (rule lookup_same) simp_all
    then show ?thesis by (induction xs arbitrary: i) (auto split: option.splits)
  qed
  ultimately show ?thesis using walk_chain [OF inv ch root n(1)] n(2)
    by (simp add: lookup_path_in_cache_def)
next
  case (2 err f1)
  then show ?thesis using run by simp
qed

theorem path_resolves_witness:
  "\<exists>path. lookup_path_in_cache (demo2\<lparr>allocs := []\<rparr>) path = Some ((0, Some 2), demo2\<lparr>allocs := []\<rparr>)"
proof (rule demo_taken)
  fix path f' assume t: "try_get_path demo2 2 None False True = Some ((0, path, None), f')"
    "path_taken demo2 [1] 0 None None path f'"
  obtain s where s: "path = Some s" using t(2) by (auto simp: path_taken_def)
  have nm: "node_name (nodes demo2) 1 = ''a''" using demo_nodes(1) by (simp add: node_name_def)
  have "lookup_path_in_cache (demo2\<lparr>allocs := []\<rparr>) s = Some ((0, Some 2), demo2\<lparr>allocs := []\<rparr>)"
    by (rule path_resolves [OF demo_request(1) t(1) [unfolded s]]) (use nm in \<open>simp_all add: demo2_def\<close>)
  then show ?thesis by blast
qed


section \<open>Two paths\<close>

text \<open>\<open>marked ns ns'\<close>: at most one reader-locked node carries a new wait mark.\<close>

definition marked :: "(ptr \<rightharpoonup> node) \<Rightarrow> (ptr \<rightharpoonup> node) \<Rightarrow> bool" where
  "marked ns ns' \<longleftrightarrow> ns' = ns \<or> (\<exists>w n. ns w = Some n \<and> 0 < treelock n \<and>
     ns' = ns(w \<mapsto> n\<lparr>treelock := treelock n + TREELOCK_WAIT_OFFSET\<rparr>))"

lemma path_refused_marked:
  assumes "path_refused f ps e ino name wlock err f'"
  shows "\<exists>ns a. f' = f\<lparr>nodes := ns, allocs := a\<rparr> \<and> marked (nodes f) ns"
proof -
  obtain ns a where f': "f' = f\<lparr>nodes := ns, allocs := a\<rparr>" and
    ns: "ns = nodes f \<or> (\<exists>w n. nodes f w = Some n \<and>
      ns = (if treelock n > 0 then (nodes f)(w \<mapsto> n\<lparr>treelock := treelock n + TREELOCK_WAIT_OFFSET\<rparr>) else nodes f))"
    using assms unfolding path_refused_def by metis
  then have "marked (nodes f) ns" unfolding marked_def by metis
  with f' show ?thesis by blast
qed

lemma unbump_marked:
  assumes m: "marked (bump 1 A ns) ns2" and pos: "\<forall>x\<in>A. \<exists>n. ns x = Some n \<and> 0 \<le> treelock n"
  shows "marked ns (unbump A ns2)"
proof (cases "ns2 = bump 1 A ns")
  case True
  then show ?thesis using unbump_bump [OF pos] by (simp add: marked_def)
next
  case False
  then obtain w n where w: "bump 1 A ns w = Some n" "0 < treelock n"
    "ns2 = (bump 1 A ns)(w \<mapsto> n\<lparr>treelock := treelock n + TREELOCK_WAIT_OFFSET\<rparr>)"
    using m by (auto simp: marked_def)
  obtain n0 where n0: "ns w = Some n0" "n = (if w \<in> A then n0\<lparr>treelock := treelock n0 + 1\<rparr> else n0)"
    using w(1) by (auto simp: bump_fields)
  have other: "unbump A ns2 x = ns x" if "x \<noteq> w" for x
  proof -
    have "unbump A ns2 x = unbump A (bump 1 A ns) x" using that w(3) by (simp add: unbump_def)
    then show ?thesis using unbump_bump [OF pos] by simp
  qed
  have self: "unbump A ns2 w = Some (if w \<in> A then n0\<lparr>treelock := (if treelock n0 = 0 then 0 else treelock n0 + TREELOCK_WAIT_OFFSET)\<rparr>
      else n0\<lparr>treelock := treelock n0 + TREELOCK_WAIT_OFFSET\<rparr>)"
    using n0 w(3) by (auto simp: unbump_def unlock_value_def)
  show ?thesis
  proof (cases "w \<in> A \<and> treelock n0 = 0")
    case True
    then have "n0\<lparr>treelock := 0\<rparr> = n0" by simp
    then have sw: "unbump A ns2 w = ns w" using True self n0(1) by simp
    have "unbump A ns2 = ns"
    proof
      fix x show "unbump A ns2 x = ns x" using sw other [of x] by (cases "x = w") simp_all
    qed
    then show ?thesis by (simp add: marked_def)
  next
    case False
    have "0 < treelock n0" using False w(2) n0 pos by (cases "w \<in> A") auto
    moreover have "unbump A ns2 = ns(w \<mapsto> n0\<lparr>treelock := treelock n0 + TREELOCK_WAIT_OFFSET\<rparr>)"
      using False self other by (intro ext) auto
    ultimately show ?thesis using n0(1) by (auto simp: marked_def)
  qed
qed

text \<open>
  Releasing a taken path after another request has left a wait mark: the assertions hold as long
  as no node has anywhere near \<open>2 ^ 31\<close> readers.
\<close>

lemma unlock_marked:
  assumes req: "path_request f ino p ps e name wlock"
    and w: "w = (if wlock then lookup_node f ino (the name) else None)" and t: "path_taken f ps e name w path f1"
    and few: "\<forall>x n. nodes f x = Some n \<longrightarrow> treelock n < 2 ^ 31 - 2"
    and f2: "f2 = f1\<lparr>nodes := ns2, allocs := a2\<rparr>" "marked (nodes f1) ns2"
  shows "\<exists>ns. unlock_path f2 ino w None = Some (f\<lparr>nodes := ns, allocs := a2\<rparr>) \<and> marked (nodes f) ns"
proof -
  obtain n where n: "nodes f p = Some n" "nodeid n = ino" using req by (auto simp: path_request_def)
  have r: "fuse_inv f" "chain (nodes f) p ps e" "chain_end (nodes f) e" using req by (auto simp: path_request_def)
  note d = chain_distinct [OF r(1,2)]
  obtain a where f1: "f1 = f\<lparr>nodes := bump 1 (set ps) (write_lock w (nodes f)), allocs := a\<rparr>"
    and pos: "\<forall>x\<in>set ps. \<exists>n. nodes f x = Some n \<and> 0 \<le> treelock n" and root: "is_root (nodes f) e"
    and wz: "\<forall>x. w = Some x \<longrightarrow> (\<exists>n. nodes f x = Some n \<and> treelock n = 0)"
    using t by (auto simp: path_taken_def)
  have off: "x \<notin> insert e (set ps)" if "w = Some x" for x
    using wnode_off_path [OF r(1) n r(2)] w that by (auto split: if_splits)
  \<comment> \<open>the state with the write lock released\<close>
  define ns3 where "ns3 = (case w of None \<Rightarrow> ns2 | Some x \<Rightarrow> ns2(x := nodes f x))"
  have m3: "marked (bump 1 (set ps) (nodes f)) ns3"
  proof (cases w)
    case None
    then show ?thesis using f2(2) by (simp add: ns3_def f1 write_lock_def)
  next
    case (Some x)
    then obtain k where k: "nodes f x = Some k" "treelock k = 0" using wz by auto
    have xs: "x \<notin> set ps" using off [OF Some] by simp
    let ?b = "bump 1 (set ps) (nodes f)"
    have b1: "nodes f1 = ?b(x \<mapsto> k\<lparr>treelock := TREELOCK_WRITE\<rparr>)"
      using Some xs k by (auto simp: f1 bump_def write_lock_def fun_eq_iff)
    have bx: "?b x = Some k" using xs k by (simp add: bump_def)
    show ?thesis
    proof (cases "ns2 = nodes f1")
      case True
      then show ?thesis using Some k bx by (auto simp: ns3_def b1 marked_def fun_eq_iff)
    next
      case False
      then obtain y m where y: "nodes f1 y = Some m" "0 < treelock m"
        "ns2 = (nodes f1)(y \<mapsto> m\<lparr>treelock := treelock m + TREELOCK_WAIT_OFFSET\<rparr>)"
        using f2(2) by (auto simp: marked_def)
      then have "y \<noteq> x" by (auto simp: b1 TREELOCK_WRITE_def)
      then have "?b y = Some m" "ns3 = ?b(y \<mapsto> m\<lparr>treelock := treelock m + TREELOCK_WAIT_OFFSET\<rparr>)"
        using y Some k bx by (auto simp: ns3_def b1 fun_eq_iff)
      then show ?thesis using y(2) by (auto simp: marked_def)
    qed
  qed
  define f3 where "f3 = f\<lparr>nodes := ns3, allocs := a2\<rparr>"
  have rel: "(case w of None \<Rightarrow> Some f2
            | Some x \<Rightarrow> do { n \<leftarrow> nodes f2 x;
                if treelock n \<noteq> TREELOCK_WRITE then None else Some (put_node x (n\<lparr>treelock := 0\<rparr>) f2) }) = Some f3"
  proof (cases w)
    case None
    then show ?thesis by (simp add: f2 f3_def ns3_def f1)
  next
    case (Some x)
    then obtain k where k: "nodes f x = Some k" "treelock k = 0" using wz by auto
    have xs: "x \<notin> set ps" using off [OF Some] by simp
    have x1: "nodes f1 x = Some (k\<lparr>treelock := TREELOCK_WRITE\<rparr>)"
      using Some xs k by (simp add: f1 bump_def write_lock_def)
    have "ns2 x = nodes f1 x" using f2(2) x1 by (auto simp: marked_def TREELOCK_WRITE_def)
    then have n2: "nodes f2 x = Some (k\<lparr>treelock := TREELOCK_WRITE\<rparr>)" using x1 by (simp add: f2)
    have e: "k\<lparr>treelock := TREELOCK_WRITE, treelock := 0\<rparr> = k" using k(2) by simp
    have "put_node x (k\<lparr>treelock := TREELOCK_WRITE, treelock := 0\<rparr>) f2 = f3"
      unfolding e using Some k(1) by (simp add: f2 f3_def ns3_def f1 put_node_def)
    then show ?thesis using Some n2 by simp
  qed
  have st: "same_tree (nodes f) (nodes f3)"
  proof -
    have "same_tree (bump 1 (set ps) (nodes f)) ns3"
      using m3 unfolding marked_def by (metis same_tree_lock same_tree_refl)
    then show ?thesis using same_tree_trans [OF same_tree_bump] by (simp add: f3_def)
  qed
  have "get_node f3 ino = Some p"
    using lock_only_get [OF st] get_node_iff [OF r(1)] n by (simp add: f3_def)
  moreover have "unlock_loop f3 p None = Some (f3\<lparr>nodes := unbump (set ps) (nodes f3)\<rparr>)"
  proof (rule unlock_loop_spec)
    show "chain (nodes f3) p ps e" by (rule chain_same_tree [OF r(2) st])
    show "nodes f3 e \<noteq> None" using r(3) same_tree_None [OF st] by (auto simp: chain_end_def)
    show "None = Some e \<or> None = None \<and> is_root (nodes f3) e" using is_root_same_tree [OF root st] by simp
    show "\<forall>x\<in>set ps. \<exists>n. nodes f3 x = Some n \<and> unlockable (treelock n)"
    proof
      fix x assume x: "x \<in> set ps"
      then obtain k where k: "nodes f x = Some k" "0 \<le> treelock k" using pos by blast
      have lt: "treelock k < 2 ^ 31 - 2" using few k(1) by blast
      have bx: "bump 1 (set ps) (nodes f) x = Some (k\<lparr>treelock := treelock k + 1\<rparr>)" using x k by (simp add: bump_def)
      have "ns3 x = Some (k\<lparr>treelock := treelock k + 1\<rparr>) \<or>
          ns3 x = Some (k\<lparr>treelock := treelock k + 1 + TREELOCK_WAIT_OFFSET\<rparr>)"
        using m3 bx by (auto simp: marked_def)
      moreover have "unlockable (treelock k + 1)" "unlockable (treelock k + 1 + TREELOCK_WAIT_OFFSET)"
        using k(2) lt by (simp_all add: unlockable_def TREELOCK_WRITE_def TREELOCK_WAIT_OFFSET_def)
      ultimately show "\<exists>n. nodes f3 x = Some n \<and> unlockable (treelock n)" by (auto simp: f3_def)
    qed
  qed (use d in auto)
  moreover have "marked (nodes f) (unbump (set ps) ns3)" by (rule unbump_marked [OF m3 pos])
  ultimately show ?thesis unfolding unlock_path_def rel
    by (intro exI [of _ "unbump (set ps) ns3"]) (simp add: f3_def)
qed


text \<open>
  The second path is requested in the state with the first one locked, which has the same tree
  and the same names.
\<close>

lemma path_request_locked:
  assumes req: "path_request f ino p ps e name wlock" and inv: "fuse_inv f1"
    and f1: "f1 = f\<lparr>nodes := ns, allocs := a\<rparr>" "same_tree (nodes f) ns"
  shows "path_request f1 ino p ps e name wlock"
proof -
  have st: "same_tree (nodes f) (nodes f1)" using f1 by simp
  obtain n where "nodes f p = Some n" "nodeid n = ino" using req by (auto simp: path_request_def)
  then have "\<exists>n. nodes f1 p = Some n \<and> nodeid n = ino" using same_treeE [OF st] by metis
  with req inv show ?thesis
    using chain_same_tree [OF _ st] chain_end_same_tree [OF _ st]
    by (simp add: path_request_def spell_same_tree [OF st] path_len_same_tree [OF st])
qed

text \<open>
  C22: Locking two paths (for rename and link) is all or nothing: it returns, and when one of the
  two is refused the locks of the other are released again; what remains is at most the wait
  mark of the writer that was turned away. The kernel holds the nodes of the first path, and
  no node has anywhere near \<open>2 ^ 31\<close> readers.
\<close>

theorem two_paths_all_or_nothing:
  assumes req1: "path_request f ino1 p1 ps1 e1 nm1 w1" and req2: "path_request f ino2 p2 ps2 e2 nm2 w2"
    and held: "\<forall>x n. x \<in> set ps1 \<or> (w1 \<and> lookup_node f ino1 (the nm1) = Some x) \<longrightarrow> nodes f x = Some n \<longrightarrow> nlookup n > 0"
    and few: "\<forall>x n. nodes f x = Some n \<longrightarrow> treelock n < 2 ^ 31 - 2"
  shows "\<exists>err out f'. try_get_path2 f ino1 nm1 ino2 nm2 w1 w2 = Some ((err, out), f') \<and>
    (err \<noteq> 0 \<longrightarrow> out = no_paths \<and> (\<exists>ns a. f' = f\<lparr>nodes := ns, allocs := a\<rparr> \<and> marked (nodes f) ns)) \<and>
    (err = 0 \<longrightarrow> (\<exists>f1. path_taken f ps1 e1 nm1 (o_node1 out) (o_path1 out) f1 \<and>
        path_taken f1 ps2 e2 nm2 (o_node2 out) (o_path2 out) f'))"
proof (cases rule: path_request_cases [OF req1])
  case (2 err f')
  then show ?thesis using path_refused_marked [OF 2(3)]
    by (intro exI [of _ err] exI [of _ no_paths] exI [of _ f']) (simp add: try_get_path2_def)
next
  case (1 path1 wn1 f1)
  obtain a where f1: "f1 = f\<lparr>nodes := bump 1 (set ps1) (write_lock wn1 (nodes f)), allocs := a\<rparr>"
    using 1(3) by (auto simp: path_taken_def)
  have inv1: "fuse_inv f1"
    by (rule path_taken_inv [OF _ 1(3)]) (use req1 held 1(2) in \<open>auto simp: path_request_def split: if_splits\<close>)
  have "same_tree (nodes f) (bump 1 (set ps1) (write_lock wn1 (nodes f)))"
    using same_tree_trans [OF same_tree_write_lock same_tree_bump] by blast
  from path_request_locked [OF req2 inv1 f1 this] have req21: "path_request f1 ino2 p2 ps2 e2 nm2 w2" .
  show ?thesis
  proof (cases rule: path_request_cases [OF req21])
    case r: (1 path2 wn2 f2)
    have "try_get_path2 f ino1 nm1 ino2 nm2 w1 w2 =
      Some ((0, \<lparr>o_path1 = path1, o_path2 = path2, o_node1 = wn1, o_node2 = wn2\<rparr>), f2)"
      using 1(1) r(1) by (simp add: try_get_path2_def)
    then show ?thesis using 1(3) r(3) by fastforce
  next
    case r: (2 err f2)
    obtain ns2 a2 where f2: "f2 = f1\<lparr>nodes := ns2, allocs := a2\<rparr>" "marked (nodes f1) ns2"
      using path_refused_marked [OF r(3)] by blast
    obtain ns where ns: "unlock_path f2 ino1 wn1 None = Some (f\<lparr>nodes := ns, allocs := a2\<rparr>)" "marked (nodes f) ns"
      using unlock_marked [OF req1 1(2,3) few f2] by blast
    have "try_get_path2 f ino1 nm1 ino2 nm2 w1 w2 = Some ((err, no_paths), f\<lparr>nodes := ns, allocs := a2\<rparr>)"
      using 1(1) r(1,2) ns(1) by (simp add: try_get_path2_def)
    then show ?thesis using r(2) ns(2) by fastforce
  qed
qed

theorem two_paths_all_or_nothing_witness:
  "\<exists>err out f'. try_get_path2 demo2 2 (Some ''x'') 2 None True False = Some ((err, out), f') \<and>
    (err \<noteq> 0 \<longrightarrow> out = no_paths \<and> (\<exists>ns a. f' = demo2\<lparr>nodes := ns, allocs := a\<rparr> \<and> marked (nodes demo2) ns)) \<and>
    (err = 0 \<longrightarrow> (\<exists>f1. path_taken demo2 [1] 0 (Some ''x'') (o_node1 out) (o_path1 out) f1 \<and>
        path_taken f1 [1] 0 None (o_node2 out) (o_path2 out) f'))"
proof (rule two_paths_all_or_nothing [OF demo_request(2,1)])
  have fields: "nlookup n = 1 \<and> treelock n = 0" if "nodes demo2 x = Some n" for x n
    using that by (auto simp: demo2_def split: if_splits)
  then show "\<forall>x n. x \<in> set [1] \<or> (True \<and> lookup_node demo2 2 (the (Some ''x'')) = Some x) \<longrightarrow>
      nodes demo2 x = Some n \<longrightarrow> 0 < nlookup n" by simp
  show "\<forall>x n. nodes demo2 x = Some n \<longrightarrow> treelock n < 2 ^ 31 - 2" using fields by simp
qed

end
