(* ===== verification/Bufvec.thy ===== *)
theory Bufvec
  imports Fuse_Prelude
begin

text \<open>
  Buffer vectors, \<open>lib/buffer.c\<close>: a vector is a list of buffers with a current position, a
  buffer is a range of memory or a file descriptor. Memory is one array of bytes, so that
  source and destination may overlap. The system calls \<open>read\<close>, \<open>pread\<close>, \<open>write\<close>, \<open>pwrite\<close>
  and \<open>splice\<close> are a parameter \<open>sys\<close> over a state of files \<open>'w\<close>; \<open>Inl e\<close> is the result -1 with
  \<open>errno = e\<close>. What the code relies on is \<open>sys_ok\<close>: no call transfers more bytes than asked
  for, and errno is positive. \<open>size_t\<close> values are natural numbers; \<open>None\<close> is a failed assertion.
\<close>

type_synonym byte = u8
type_synonym memory = "nat \<Rightarrow> byte"

definition SIZE_MAX :: nat where "SIZE_MAX = 2 ^ 64 - 1"

record fuse_buf =
  b_size :: nat
  b_is_fd :: bool
  b_fd_seek :: bool
  b_fd_retry :: bool
  b_mem :: nat
  b_fd :: int
  b_pos :: int

record fuse_bufvec =
  bv_idx :: nat
  bv_off :: nat
  bv_bufs :: "fuse_buf list"

record copy_flags =
  cf_no_splice :: bool
  cf_force_splice :: bool
  cf_splice_move :: bool
  cf_splice_nonblock :: bool

text \<open>
  The offset is \<open>Some\<close> for \<open>pread\<close>, \<open>pwrite\<close> and a seeking \<open>splice\<close>. The two flags of
  \<open>sys_splice\<close> are \<open>SPLICE_F_MOVE\<close> and \<open>SPLICE_F_NONBLOCK\<close>.
\<close>

record 'w sys =
  sys_write :: "int \<Rightarrow> int option \<Rightarrow> byte list \<Rightarrow> 'w \<Rightarrow> (int + nat) \<times> 'w"
  sys_read :: "int \<Rightarrow> int option \<Rightarrow> nat \<Rightarrow> 'w \<Rightarrow> (int + byte list) \<times> 'w"
  sys_splice :: "int \<Rightarrow> int option \<Rightarrow> int \<Rightarrow> int option \<Rightarrow> nat \<Rightarrow> bool \<Rightarrow> bool \<Rightarrow> 'w \<Rightarrow> (int + nat) \<times> 'w"

definition sys_ok :: "'w sys \<Rightarrow> bool" where
  "sys_ok sys \<longleftrightarrow>
     (\<forall>fd pos bs w. case fst (sys_write sys fd pos bs w) of Inl e \<Rightarrow> 0 < e | Inr n \<Rightarrow> n \<le> length bs) \<and>
     (\<forall>fd pos len w. case fst (sys_read sys fd pos len w) of Inl e \<Rightarrow> 0 < e | Inr bs \<Rightarrow> length bs \<le> len) \<and>
     (\<forall>fd pos fd' pos' len m nb w.
        case fst (sys_splice sys fd pos fd' pos' len m nb w) of Inl e \<Rightarrow> 0 < e | Inr n \<Rightarrow> n \<le> len)"

definition bytes_at :: "memory \<Rightarrow> nat \<Rightarrow> nat \<Rightarrow> byte list" where
  "bytes_at m addr n = map m [addr..<addr + n]"

definition store_at :: "memory \<Rightarrow> nat \<Rightarrow> byte list \<Rightarrow> memory" where
  "store_at m addr bs = (\<lambda>x. if addr \<le> x \<and> x < addr + length bs then bs ! (x - addr) else m x)"

section \<open>Operations\<close>

fun buf_size_loop :: "nat \<Rightarrow> fuse_buf list \<Rightarrow> nat" where
  "buf_size_loop sz [] = sz"
| "buf_size_loop sz (b # bs) =
     (if b_size b \<ge> SIZE_MAX - sz then SIZE_MAX else buf_size_loop (sz + b_size b) bs)"

definition fuse_buf_size :: "fuse_bufvec \<Rightarrow> nat" where
  "fuse_buf_size v = buf_size_loop 0 (bv_bufs v)"

definition min_size :: "nat \<Rightarrow> nat \<Rightarrow> nat" where
  "min_size s1 s2 = (if s1 < s2 then s1 else s2)"

definition seek_pos :: "fuse_buf \<Rightarrow> nat \<Rightarrow> int option" where
  "seek_pos b off = (if b_fd_seek b then Some (b_pos b + int off) else None)"

text \<open>
  The loops carry the count \<open>copied\<close>. A transfer that claims more than was asked for (which
  \<open>sys_ok\<close> excludes) would wrap \<open>len\<close> around in C; the model stops there.
\<close>

function buf_write_loop ::
  "'w sys \<Rightarrow> fuse_buf \<Rightarrow> nat \<Rightarrow> fuse_buf \<Rightarrow> nat \<Rightarrow> nat \<Rightarrow> nat \<Rightarrow> memory \<times> 'w \<Rightarrow> int \<times> memory \<times> 'w" where
  "buf_write_loop sys dst dst_off src src_off len copied (m, w) =
     (if len = 0 then (int copied, m, w)
      else case sys_write sys (b_fd dst) (seek_pos dst dst_off) (bytes_at m (b_mem src + src_off) len) w of
             (Inl e, w1) \<Rightarrow> (if copied = 0 then - e else int copied, m, w1)
           | (Inr n, w1) \<Rightarrow>
               if n = 0 then (int copied, m, w1)
               else if \<not> b_fd_retry dst then (int (copied + n), m, w1)
               else buf_write_loop sys dst (dst_off + n) src (src_off + n) (len - n) (copied + n) (m, w1))"
  by pat_completeness auto
termination by (relation "measure (\<lambda>(_, _, _, _, _, len, _, _). len)") auto

definition fuse_buf_write ::
  "'w sys \<Rightarrow> fuse_buf \<Rightarrow> nat \<Rightarrow> fuse_buf \<Rightarrow> nat \<Rightarrow> nat \<Rightarrow> memory \<times> 'w \<Rightarrow> int \<times> memory \<times> 'w" where
  "fuse_buf_write sys dst dst_off src src_off len s = buf_write_loop sys dst dst_off src src_off len 0 s"

function buf_read_loop ::
  "'w sys \<Rightarrow> fuse_buf \<Rightarrow> nat \<Rightarrow> fuse_buf \<Rightarrow> nat \<Rightarrow> nat \<Rightarrow> nat \<Rightarrow> memory \<times> 'w \<Rightarrow> int \<times> memory \<times> 'w" where
  "buf_read_loop sys dst dst_off src src_off len copied (m, w) =
     (if len = 0 then (int copied, m, w)
      else case sys_read sys (b_fd src) (seek_pos src src_off) len w of
             (Inl e, w1) \<Rightarrow> (if copied = 0 then - e else int copied, m, w1)
           | (Inr bs, w1) \<Rightarrow>
               (let n = length bs; m1 = store_at m (b_mem dst + dst_off) bs
                in if n = 0 then (int copied, m, w1)
                   else if \<not> b_fd_retry src then (int (copied + n), m1, w1)
                   else buf_read_loop sys dst (dst_off + n) src (src_off + n) (len - n) (copied + n) (m1, w1)))"
  by pat_completeness auto
termination by (relation "measure (\<lambda>(_, _, _, _, _, len, _, _). len)") auto

definition fuse_buf_read ::
  "'w sys \<Rightarrow> fuse_buf \<Rightarrow> nat \<Rightarrow> fuse_buf \<Rightarrow> nat \<Rightarrow> nat \<Rightarrow> memory \<times> 'w \<Rightarrow> int \<times> memory \<times> 'w" where
  "fuse_buf_read sys dst dst_off src src_off len s = buf_read_loop sys dst dst_off src src_off len 0 s"

text \<open>
  The copy through a buffer of 4096 bytes on the stack, at the address \<open>stk\<close> (below, the caller
  supplies it).
\<close>

definition stack_buf :: "nat \<Rightarrow> fuse_buf" where
  "stack_buf stk = \<lparr>b_size = 4096, b_is_fd = False, b_fd_seek = False, b_fd_retry = False,
     b_mem = stk, b_fd = 0, b_pos = 0\<rparr>"

function fd_to_fd_loop ::
  "'w sys \<Rightarrow> nat \<Rightarrow> fuse_buf \<Rightarrow> nat \<Rightarrow> fuse_buf \<Rightarrow> nat \<Rightarrow> nat \<Rightarrow> nat \<Rightarrow> memory \<times> 'w \<Rightarrow> int \<times> memory \<times> 'w" where
  "fd_to_fd_loop sys stk dst dst_off src src_off len copied s =
     (if len = 0 then (int copied, s)
      else let this_len = min_size (b_size (stack_buf stk)) len;
               (res, s1) = fuse_buf_read sys (stack_buf stk) 0 src src_off this_len s
           in if res < 0 then (if copied = 0 then res else int copied, s1)
              else if res = 0 then (int copied, s1)
              else let (res2, s2) = fuse_buf_write sys dst dst_off (stack_buf stk) 0 (nat res) s1
                   in if res2 < 0 then (if copied = 0 then res2 else int copied, s2)
                      else if res2 = 0 then (int copied, s2)
                      else if nat res2 < this_len then (int (copied + nat res2), s2)
                      else fd_to_fd_loop sys stk dst (dst_off + nat res2) src (src_off + nat res2)
                             (len - nat res2) (copied + nat res2) s2)"
  by pat_completeness auto
termination by (relation "measure (\<lambda>(_, _, _, _, _, _, len, _, _). len)") auto

definition fuse_buf_fd_to_fd ::
  "'w sys \<Rightarrow> nat \<Rightarrow> fuse_buf \<Rightarrow> nat \<Rightarrow> fuse_buf \<Rightarrow> nat \<Rightarrow> nat \<Rightarrow> memory \<times> 'w \<Rightarrow> int \<times> memory \<times> 'w" where
  "fuse_buf_fd_to_fd sys stk dst dst_off src src_off len s =
     fd_to_fd_loop sys stk dst dst_off src src_off len 0 s"

text \<open>
  \<open>splice\<close> advances the positions it is given a pointer to; \<open>EINVAL\<close> on the first call falls
  back to the copy through memory unless splicing is forced.
\<close>

function splice_loop ::
  "'w sys \<Rightarrow> nat \<Rightarrow> copy_flags \<Rightarrow> fuse_buf \<Rightarrow> nat \<Rightarrow> fuse_buf \<Rightarrow> nat \<Rightarrow> int option \<Rightarrow> int option \<Rightarrow> nat \<Rightarrow> nat \<Rightarrow>
   memory \<times> 'w \<Rightarrow> int \<times> memory \<times> 'w" where
  "splice_loop sys stk fl dst dst_off src src_off srcpos dstpos len copied (m, w) =
     (if len = 0 then (int copied, m, w)
      else case sys_splice sys (b_fd src) srcpos (b_fd dst) dstpos len (cf_splice_move fl) (cf_splice_nonblock fl) w of
             (Inl e, w1) \<Rightarrow>
               if copied > 0 then (int copied, m, w1)
               else if e \<noteq> EINVAL \<or> cf_force_splice fl then (- e, m, w1)
               else fuse_buf_fd_to_fd sys stk dst dst_off src src_off len (m, w1)
           | (Inr n, w1) \<Rightarrow>
               if n = 0 then (int copied, m, w1)
               else if \<not> b_fd_retry src \<and> \<not> b_fd_retry dst then (int (copied + n), m, w1)
               else splice_loop sys stk fl dst dst_off src src_off
                      (map_option (\<lambda>p. p + int n) srcpos) (map_option (\<lambda>p. p + int n) dstpos)
                      (len - n) (copied + n) (m, w1))"
  by pat_completeness auto
termination by (relation "measure (\<lambda>(_, _, _, _, _, _, _, _, _, len, _, _). len)") auto

definition fuse_buf_splice ::
  "'w sys \<Rightarrow> nat \<Rightarrow> copy_flags \<Rightarrow> fuse_buf \<Rightarrow> nat \<Rightarrow> fuse_buf \<Rightarrow> nat \<Rightarrow> nat \<Rightarrow> memory \<times> 'w \<Rightarrow> int \<times> memory \<times> 'w" where
  "fuse_buf_splice sys stk fl dst dst_off src src_off len s =
     splice_loop sys stk fl dst dst_off src src_off (seek_pos src src_off) (seek_pos dst dst_off) len 0 s"

text \<open>\<open>memcpy\<close> for disjoint ranges, \<open>memmove\<close> otherwise: both store the old bytes of the source.\<close>

definition fuse_buf_copy_one ::
  "'w sys \<Rightarrow> nat \<Rightarrow> copy_flags \<Rightarrow> fuse_buf \<Rightarrow> nat \<Rightarrow> fuse_buf \<Rightarrow> nat \<Rightarrow> nat \<Rightarrow> memory \<times> 'w \<Rightarrow> int \<times> memory \<times> 'w" where
  "fuse_buf_copy_one sys stk fl dst dst_off src src_off len s =
     (if \<not> b_is_fd src \<and> \<not> b_is_fd dst then
        (let dstmem = b_mem dst + dst_off; srcmem = b_mem src + src_off;
             m = (if dstmem \<noteq> srcmem then store_at (fst s) dstmem (bytes_at (fst s) srcmem len) else fst s)
         in (int len, m, snd s))
      else if \<not> b_is_fd src then fuse_buf_write sys dst dst_off src src_off len s
      else if \<not> b_is_fd dst then fuse_buf_read sys dst dst_off src src_off len s
      else if cf_no_splice fl then fuse_buf_fd_to_fd sys stk dst dst_off src src_off len s
      else fuse_buf_splice sys stk fl dst dst_off src src_off len s)"

definition fuse_bufvec_current :: "fuse_bufvec \<Rightarrow> fuse_buf option" where
  "fuse_bufvec_current v = (if bv_idx v < length (bv_bufs v) then Some (bv_bufs v ! bv_idx v) else None)"

text \<open>The pair is the return value (is there more?) and the vector.\<close>

definition fuse_bufvec_advance :: "fuse_bufvec \<Rightarrow> nat \<Rightarrow> (bool \<times> fuse_bufvec) option" where
  "fuse_bufvec_advance v len =
     (case fuse_bufvec_current v of
        None \<Rightarrow> Some (False, v)
      | Some b \<Rightarrow>
          (let off = bv_off v + len
           in if off > b_size b then None
              else if off = b_size b then
                (if bv_idx v + 1 = length (bv_bufs v)
                 then Some (False, v\<lparr>bv_off := off, bv_idx := bv_idx v + 1\<rparr>)
                 else Some (True, v\<lparr>bv_off := 0, bv_idx := bv_idx v + 1\<rparr>))
              else Some (True, v\<lparr>bv_off := off\<rparr>)))"

lemma advance_idx:
  "fuse_bufvec_advance v n = Some (r, v') \<Longrightarrow> bv_bufs v' = bv_bufs v \<and> bv_idx v \<le> bv_idx v' \<and>
     (r \<longrightarrow> bv_idx v' < length (bv_bufs v)) \<and>
     (\<forall>b. fuse_bufvec_current v = Some b \<longrightarrow> bv_off v + n = b_size b \<longrightarrow> bv_idx v' = bv_idx v + 1)"
  by (auto simp: fuse_bufvec_advance_def fuse_bufvec_current_def Let_def split: option.splits if_splits)

definition bufs_left :: "fuse_bufvec \<Rightarrow> nat" where
  "bufs_left v = length (bv_bufs v) - bv_idx v"

lemma advance_left:
  assumes a: "fuse_bufvec_advance v n = Some (r, v')" and b: "fuse_bufvec_current v = Some b"
  shows "bufs_left v' \<le> bufs_left v" "n \<le> b_size b - bv_off v" "bv_off v + n \<le> b_size b"
    "n = b_size b - bv_off v \<Longrightarrow> bufs_left v' < bufs_left v"
  using a b
  by (auto simp: fuse_bufvec_advance_def fuse_bufvec_current_def bufs_left_def Let_def split: if_splits)

lemma copy_round_left:
  assumes "fuse_bufvec_current srcv = Some src" "fuse_bufvec_current dstv = Some dst"
    and "fuse_bufvec_advance srcv n = Some (r, srcv1)" "fuse_bufvec_advance dstv n = Some (r', dstv1)"
    and "\<not> n < min_size (b_size src - bv_off srcv) (b_size dst - bv_off dstv)"
  shows "bufs_left dstv1 + bufs_left srcv1 < bufs_left dstv + bufs_left srcv"
  using advance_left [OF assms(3,1)] advance_left [OF assms(4,2)] assms(5)
  by (auto simp: min_size_def split: if_splits)

text \<open>
  The copy loop; \<open>copied\<close> so far. Every round that continues finishes a buffer of the source
  or of the destination.
\<close>

function buf_copy_loop ::
  "'w sys \<Rightarrow> nat \<Rightarrow> copy_flags \<Rightarrow> fuse_bufvec \<Rightarrow> fuse_bufvec \<Rightarrow> nat \<Rightarrow> memory \<times> 'w \<Rightarrow>
   ((int \<times> fuse_bufvec \<times> fuse_bufvec) \<times> memory \<times> 'w) option" where
  "buf_copy_loop sys stk fl dstv srcv copied s =
     (case (fuse_bufvec_current srcv, fuse_bufvec_current dstv) of
        (Some src, Some dst) \<Rightarrow>
          (let src_len = b_size src - bv_off srcv;
               dst_len = b_size dst - bv_off dstv;
               len = min_size src_len dst_len;
               (res, s1) = fuse_buf_copy_one sys stk fl dst (bv_off dstv) src (bv_off srcv) len s
           in if res < 0 then Some ((if copied = 0 then res else int copied, dstv, srcv), s1)
              else
                let copied' = copied + nat res
                in (case fuse_bufvec_advance srcv (nat res) of
                      None \<Rightarrow> None
                    | Some (False, srcv1) \<Rightarrow> Some ((int copied', dstv, srcv1), s1)
                    | Some (True, srcv1) \<Rightarrow>
                        (case fuse_bufvec_advance dstv (nat res) of
                           None \<Rightarrow> None
                         | Some (False, dstv1) \<Rightarrow> Some ((int copied', dstv1, srcv1), s1)
                         | Some (True, dstv1) \<Rightarrow>
                             if nat res < len then Some ((int copied', dstv1, srcv1), s1)
                             else buf_copy_loop sys stk fl dstv1 srcv1 copied' s1)))
      | _ \<Rightarrow> Some ((int copied, dstv, srcv), s))"
  by pat_completeness auto
termination
  by (relation "measure (\<lambda>(_, _, _, dstv, srcv, _, _). bufs_left dstv + bufs_left srcv)")
    (auto intro: copy_round_left [OF sym sym])

declare buf_copy_loop.simps [simp del]

text \<open>The same vector twice (\<open>dstv == srcv\<close>) is a separate case: \<open>fuse_buf_copy_self\<close>.\<close>

definition fuse_buf_copy ::
  "'w sys \<Rightarrow> nat \<Rightarrow> copy_flags \<Rightarrow> fuse_bufvec \<Rightarrow> fuse_bufvec \<Rightarrow> memory \<times> 'w \<Rightarrow>
   ((int \<times> fuse_bufvec \<times> fuse_bufvec) \<times> memory \<times> 'w) option" where
  "fuse_buf_copy sys stk fl dstv srcv s = buf_copy_loop sys stk fl dstv srcv 0 s"

definition fuse_buf_copy_self :: "fuse_bufvec \<Rightarrow> nat" where
  "fuse_buf_copy_self v = fuse_buf_size v"

end
