(* ===== verification/Bufvec_Properties.thy ===== *)
theory Bufvec_Properties
  imports Bufvec
begin

text \<open>
  Correctness of the buffer vectors: the saturating size, the bounds and the assertions of
  \<open>fuse_buf_copy\<close> for every behaviour of the system calls, and the exact effect of copying
  between memory vectors.
\<close>

section \<open>Sizes\<close>

text \<open>
  \<open>fuse_buf_size\<close> is the sum of the buffer sizes, and \<open>SIZE_MAX\<close> when the sum does not fit:
  it never wraps around.
\<close>

theorem fuse_buf_size_saturates:
  "fuse_buf_size v = min SIZE_MAX (sum_list (map b_size (bv_bufs v)))"
proof -
  have "sz \<le> SIZE_MAX \<Longrightarrow> buf_size_loop sz bs = min SIZE_MAX (sz + sum_list (map b_size bs))" for sz bs
    by (induction sz bs rule: buf_size_loop.induct) auto
  from this [of 0 "bv_bufs v"] show ?thesis by (simp add: fuse_buf_size_def)
qed

section \<open>Positions\<close>

definition bv_ok :: "fuse_bufvec \<Rightarrow> bool" where
  "bv_ok v \<longleftrightarrow> (\<forall>b. fuse_bufvec_current v = Some b \<longrightarrow> bv_off v \<le> b_size b)"

text \<open>The addresses a vector still covers, from its current position on.\<close>

definition buf_addrs :: "fuse_buf \<Rightarrow> nat list" where
  "buf_addrs b = [b_mem b..<b_mem b + b_size b]"

definition addr_list :: "fuse_bufvec \<Rightarrow> nat list" where
  "addr_list v = (if bv_idx v < length (bv_bufs v)
     then drop (bv_off v) (buf_addrs (bv_bufs v ! bv_idx v)) @ concat (map buf_addrs (drop (bv_idx v + 1) (bv_bufs v)))
     else [])"

lemma length_buf_addrs [simp]: "length (buf_addrs b) = b_size b"
  by (simp add: buf_addrs_def)

lemma addr_list_current:
  "fuse_bufvec_current v = Some b \<Longrightarrow>
     addr_list v = drop (bv_off v) (buf_addrs b) @ concat (map buf_addrs (drop (bv_idx v + 1) (bv_bufs v)))"
  by (auto simp: addr_list_def fuse_bufvec_current_def split: if_splits)

lemma addr_list_None: "fuse_bufvec_current v = None \<Longrightarrow> addr_list v = []"
  by (auto simp: addr_list_def fuse_bufvec_current_def split: if_splits)

lemma advance_ok:
  assumes ok: "bv_ok v" and b: "fuse_bufvec_current v = Some b" and n: "n \<le> b_size b - bv_off v"
  obtains r v' where "fuse_bufvec_advance v n = Some (r, v')" "bv_ok v'" "addr_list v' = drop n (addr_list v)"
    "bv_bufs v' = bv_bufs v" "\<not> r \<Longrightarrow> addr_list v' = []"
proof -
  have i: "bv_idx v < length (bv_bufs v)" and bi: "b = bv_bufs v ! bv_idx v"
    using b by (auto simp: fuse_bufvec_current_def split: if_splits)
  have off: "bv_off v \<le> b_size b" using ok b by (simp add: bv_ok_def)
  note al = addr_list_current [OF b]
  show thesis
  proof (cases "bv_off v + n = b_size b")
    case False
    let ?v = "v\<lparr>bv_off := bv_off v + n\<rparr>"
    have cur: "fuse_bufvec_current ?v = Some b" using i bi by (simp add: fuse_bufvec_current_def)
    show thesis
    proof (rule that [of True ?v])
      show "fuse_bufvec_advance v n = Some (True, ?v)" using b False n off by (simp add: fuse_bufvec_advance_def Let_def)
      show "bv_ok ?v" using cur n off by (simp add: bv_ok_def)
      have "length (drop (bv_off v) (buf_addrs b)) \<ge> n" using n by simp
      then show "addr_list ?v = drop n (addr_list v)"
        unfolding addr_list_current [OF cur] al using n by (simp add: add.commute)
    qed simp_all
  next
    case True
    have dr: "drop n (addr_list v) = concat (map buf_addrs (drop (bv_idx v + 1) (bv_bufs v)))"
      unfolding al using True off by simp
    show thesis
    proof (cases "bv_idx v + 1 = length (bv_bufs v)")
      case last: True
      let ?v = "v\<lparr>bv_off := bv_off v + n, bv_idx := bv_idx v + 1\<rparr>"
      have cur: "fuse_bufvec_current ?v = None" using last by (simp add: fuse_bufvec_current_def)
      show thesis
        by (rule that [of False ?v])
          (use b True last cur dr addr_list_None [OF cur] in \<open>simp_all add: fuse_bufvec_advance_def bv_ok_def\<close>)
    next
      case more: False
      let ?v = "v\<lparr>bv_off := 0, bv_idx := bv_idx v + 1\<rparr>"
      have lt: "bv_idx v + 1 < length (bv_bufs v)" using i more by simp
      then have cur: "fuse_bufvec_current ?v = Some (bv_bufs v ! (bv_idx v + 1))"
        by (simp add: fuse_bufvec_current_def)
      have "drop (bv_idx v + 1) (bv_bufs v) = bv_bufs v ! (bv_idx v + 1) # drop (bv_idx v + 2) (bv_bufs v)"
        using Cons_nth_drop_Suc [OF lt] by simp
      then have "addr_list ?v = drop n (addr_list v)"
        unfolding dr addr_list_current [OF cur] by simp
      then show thesis
        by (intro that [of True ?v]) (use b True more cur in \<open>simp_all add: fuse_bufvec_advance_def bv_ok_def\<close>)
    qed
  qed
qed

lemma length_addr_current:
  assumes "fuse_bufvec_current v = Some b"
  shows "b_size b - bv_off v \<le> length (addr_list v)"
  using addr_list_current [OF assms] by simp


declare buf_write_loop.simps [simp del] buf_read_loop.simps [simp del] fd_to_fd_loop.simps [simp del]
  splice_loop.simps [simp del]

section \<open>Bounds for every behaviour of the system calls\<close>

lemma sys_ok_write: "sys_ok sys \<Longrightarrow> sys_write sys fd pos bs w = (Inr n, w1) \<Longrightarrow> n \<le> length bs"
  unfolding sys_ok_def by (drule conjunct1, drule spec [of _ fd], drule spec [of _ pos], drule spec [of _ bs], drule spec [of _ w]) simp

lemma sys_ok_read: "sys_ok sys \<Longrightarrow> sys_read sys fd pos len w = (Inr bs, w1) \<Longrightarrow> length bs \<le> len"
  unfolding sys_ok_def
  by (drule conjunct2, drule conjunct1, drule spec [of _ fd], drule spec [of _ pos], drule spec [of _ len], drule spec [of _ w]) simp

lemma sys_ok_splice: "sys_ok sys \<Longrightarrow> sys_splice sys fd pos fd' pos' len mv nb w = (Inr n, w1) \<Longrightarrow> n \<le> len"
  unfolding sys_ok_def
  by (drule conjunct2, drule conjunct2, drule spec [of _ fd], drule spec [of _ pos], drule spec [of _ fd'],
      drule spec [of _ pos'], drule spec [of _ len], drule spec [of _ mv], drule spec [of _ nb], drule spec [of _ w]) simp

lemma sys_ok_errno:
  assumes "sys_ok sys"
  shows "sys_write sys fd pos bs w = (Inl e, w1) \<Longrightarrow> 0 < e"
    and "sys_read sys fd pos len w = (Inl e, w1) \<Longrightarrow> 0 < e"
    and "sys_splice sys fd pos fd' pos' len mv nb w = (Inl e, w1) \<Longrightarrow> 0 < e"
proof -
  from assms have w: "\<And>fd pos bs w. case fst (sys_write sys fd pos bs w) of Inl e \<Rightarrow> 0 < e | Inr n \<Rightarrow> n \<le> length bs"
    and r: "\<And>fd pos len w. case fst (sys_read sys fd pos len w) of Inl e \<Rightarrow> 0 < e | Inr bs \<Rightarrow> length bs \<le> len"
    and p: "\<And>fd pos fd' pos' len m nb w.
        case fst (sys_splice sys fd pos fd' pos' len m nb w) of Inl e \<Rightarrow> 0 < e | Inr n \<Rightarrow> n \<le> len"
    unfolding sys_ok_def by blast+
  show "0 < e" if "sys_write sys fd pos bs w = (Inl e, w1)" using w [where fd = fd and pos = pos and bs = bs and w = w] that by simp
  show "0 < e" if "sys_read sys fd pos len w = (Inl e, w1)" using r [where fd = fd and pos = pos and len = len and w = w] that by simp
  show "0 < e" if "sys_splice sys fd pos fd' pos' len mv nb w = (Inl e, w1)"
    using p [where fd = fd and pos = pos and fd' = fd' and pos' = pos' and len = len and m = mv and nb = nb and w = w] that by simp
qed

lemma length_bytes_at [simp]: "length (bytes_at m a n) = n"
  by (simp add: bytes_at_def)

text \<open>What one transfer may return: at most the bytes asked for, an error only before the first byte.\<close>

definition copied_ok :: "nat \<Rightarrow> nat \<Rightarrow> int \<Rightarrow> bool" where
  "copied_ok copied len res \<longleftrightarrow> res \<le> int (copied + len) \<and> (0 < copied \<longrightarrow> int copied \<le> res)"

lemma copied_ok_done [simp]: "copied_ok copied len (int copied)"
  by (simp add: copied_ok_def)

lemma copied_ok_more: "n \<le> len \<Longrightarrow> copied_ok copied len (int (copied + n))"
  by (simp add: copied_ok_def)

lemma copied_ok_err: "0 < e \<Longrightarrow> copied_ok copied len (if copied = 0 then - e else int copied)"
  by (simp add: copied_ok_def)

lemma copied_ok_step: "0 < n \<Longrightarrow> n \<le> len \<Longrightarrow> copied_ok (copied + n) (len - n) r \<Longrightarrow> copied_ok copied len r"
  by (auto simp: copied_ok_def)

lemmas copied_ok_rules = copied_ok_more [simplified] copied_ok_err [simplified] copied_ok_step

lemma write_loop_ok:
  assumes "sys_ok sys"
  shows "copied_ok copied len (fst (buf_write_loop sys dst dst_off src src_off len copied s))"
  using assms
proof (induction sys dst dst_off src src_off len copied s rule: buf_write_loop.induct)
  case (1 sys dst dst_off src src_off len copied m w)
  let ?call = "sys_write sys (b_fd dst) (seek_pos dst dst_off) (bytes_at m (b_mem src + src_off) len) w"
  consider e w1 where "?call = (Inl e, w1)" | n w1 where "?call = (Inr n, w1)"
    by (cases ?call; cases "fst ?call") auto
  then show ?case
  proof cases
    case 1
    with sys_ok_errno(1) [OF \<open>sys_ok sys\<close> 1] show ?thesis by (simp add: copied_ok_def buf_write_loop.simps [of _ _ _ _ _ len])
  next
    case 2
    with sys_ok_write [OF \<open>sys_ok sys\<close> 2] "1.IH" "1.prems" show ?thesis
      by (auto simp: buf_write_loop.simps [of _ _ _ _ _ len] intro: copied_ok_rules)
  qed
qed

lemma read_loop_ok:
  assumes "sys_ok sys"
  shows "copied_ok copied len (fst (buf_read_loop sys dst dst_off src src_off len copied s))"
  using assms
proof (induction sys dst dst_off src src_off len copied s rule: buf_read_loop.induct)
  case (1 sys dst dst_off src src_off len copied m w)
  let ?call = "sys_read sys (b_fd src) (seek_pos src src_off) len w"
  consider e w1 where "?call = (Inl e, w1)" | bs w1 where "?call = (Inr bs, w1)"
    by (cases ?call; cases "fst ?call") auto
  then show ?case
  proof cases
    case 1
    with sys_ok_errno(2) [OF \<open>sys_ok sys\<close> 1] show ?thesis by (simp add: copied_ok_def buf_read_loop.simps [of _ _ _ _ _ len])
  next
    case 2
    with sys_ok_read [OF \<open>sys_ok sys\<close> 2] "1.IH" "1.prems" show ?thesis
      by (auto simp: Let_def buf_read_loop.simps [of _ _ _ _ _ len] intro: copied_ok_rules)
  qed
qed

lemma buf_write_le:
  "sys_ok sys \<Longrightarrow> fuse_buf_write sys dst dst_off src src_off len s = (res, s') \<Longrightarrow> res \<le> int len"
  using write_loop_ok [of sys 0 len dst dst_off src src_off s]
  unfolding copied_ok_def fuse_buf_write_def by simp

lemma buf_read_le:
  "sys_ok sys \<Longrightarrow> fuse_buf_read sys dst dst_off src src_off len s = (res, s') \<Longrightarrow> res \<le> int len"
  using read_loop_ok [of sys 0 len dst dst_off src src_off s]
  unfolding copied_ok_def fuse_buf_read_def by simp

lemma fd_to_fd_loop_ok:
  assumes "sys_ok sys"
  shows "copied_ok copied len (fst (fd_to_fd_loop sys stk dst dst_off src src_off len copied s))"
  using assms
proof (induction sys stk dst dst_off src src_off len copied s rule: fd_to_fd_loop.induct)
  case (1 sys stk dst dst_off src src_off len copied s)
  let ?tl = "min_size (b_size (stack_buf stk)) len"
  obtain res s1 where rd: "fuse_buf_read sys (stack_buf stk) 0 src src_off ?tl s = (res, s1)" by (rule prod.exhaust)
  obtain res2 s2 where wr: "fuse_buf_write sys dst dst_off (stack_buf stk) 0 (nat res) s1 = (res2, s2)" by (rule prod.exhaust)
  have le: "res \<le> int ?tl" "?tl \<le> len"
    using buf_read_le [OF "1.prems" rd] by (simp_all add: min_size_def)
  have le2: "res2 \<le> int (nat res)"
    by (rule buf_write_le [OF "1.prems" wr])
  show ?case
    by (subst fd_to_fd_loop.simps, simp only: Let_def rd wr split_conv)
      (use le le2 "1.IH" [OF _ refl rd [symmetric] refl _ _ wr [symmetric] refl] "1.prems" in \<open>auto simp: copied_ok_def\<close>)
qed

lemma splice_loop_ok:
  assumes "sys_ok sys"
  shows "copied_ok copied len (fst (splice_loop sys stk fl dst dst_off src src_off srcpos dstpos len copied s))"
  using assms
proof (induction sys stk fl dst dst_off src src_off srcpos dstpos len copied s rule: splice_loop.induct)
  case (1 sys stk fl dst dst_off src src_off srcpos dstpos len copied m w)
  let ?call = "sys_splice sys (b_fd src) srcpos (b_fd dst) dstpos len (cf_splice_move fl) (cf_splice_nonblock fl) w"
  consider e w1 where "?call = (Inl e, w1)" | n w1 where "?call = (Inr n, w1)"
    by (cases ?call; cases "fst ?call") auto
  then show ?case
  proof cases
    case 1
    have "copied_ok 0 len (fst (fuse_buf_fd_to_fd sys stk dst dst_off src src_off len (m, w1)))"
      unfolding fuse_buf_fd_to_fd_def by (rule fd_to_fd_loop_ok [OF \<open>sys_ok sys\<close>])
    with 1 sys_ok_errno(3) [OF \<open>sys_ok sys\<close> 1] show ?thesis by (simp add: copied_ok_def splice_loop.simps [of _ _ _ _ _ _ _ _ _ len])
  next
    case 2
    with sys_ok_splice [OF \<open>sys_ok sys\<close> 2] "1.IH" "1.prems" show ?thesis
      by (auto simp: splice_loop.simps [of _ _ _ _ _ _ _ _ _ len] intro: copied_ok_rules)
  qed
qed

lemma copy_one_ok:
  assumes "sys_ok sys"
  shows "fst (fuse_buf_copy_one sys stk fl dst dst_off src src_off len s) \<le> int len"
  using write_loop_ok [OF assms, of 0 len] read_loop_ok [OF assms, of 0 len]
    fd_to_fd_loop_ok [OF assms, of 0 len] splice_loop_ok [OF assms, of 0 len]
  by (simp add: fuse_buf_copy_one_def fuse_buf_write_def fuse_buf_read_def fuse_buf_fd_to_fd_def
      fuse_buf_splice_def copied_ok_def Let_def)

text \<open>The number of bytes between the current position and the end of a vector.\<close>

definition bytes_left :: "fuse_bufvec \<Rightarrow> nat" where
  "bytes_left v = (case fuse_bufvec_current v of None \<Rightarrow> 0
     | Some b \<Rightarrow> b_size b - bv_off v + sum_list (map b_size (drop (bv_idx v + 1) (bv_bufs v))))"

lemma length_addr_list: "length (addr_list v) = bytes_left v"
  by (cases "fuse_bufvec_current v")
    (simp_all add: bytes_left_def addr_list_None addr_list_current length_concat comp_def)

text \<open>What holds of the result of the loop after \<open>c\<close> bytes: \<open>k\<close> more were copied.\<close>

definition copy_outcome ::
  "nat \<Rightarrow> fuse_bufvec \<Rightarrow> fuse_bufvec \<Rightarrow> int \<times> fuse_bufvec \<times> fuse_bufvec \<Rightarrow> bool" where
  "copy_outcome c dstv srcv out =
     (case out of (res, dstv', srcv') \<Rightarrow>
        bv_ok dstv' \<and> bv_ok srcv' \<and> (0 < c \<longrightarrow> int c \<le> res) \<and>
        nat res - c \<le> min (bytes_left dstv) (bytes_left srcv) \<and>
        bytes_left srcv' = bytes_left srcv - (nat res - c) \<and>
        (bytes_left dstv' = bytes_left dstv - (nat res - c) \<or>
         bytes_left srcv' = 0 \<and> bytes_left dstv - (nat res - c) \<le> bytes_left dstv' \<and> bytes_left dstv' \<le> bytes_left dstv))"

lemma bytes_left_drop: "addr_list v' = drop n (addr_list v) \<Longrightarrow> bytes_left v' = bytes_left v - n"
  using length_addr_list [of v] length_addr_list [of v'] by simp

lemma copy_outcome_step:
  assumes out: "copy_outcome (c + n) dstv1 srcv1 out"
    and d: "bytes_left dstv1 = bytes_left dstv - n" and s: "bytes_left srcv1 = bytes_left srcv - n"
    and "n \<le> bytes_left dstv" "n \<le> bytes_left srcv"
  shows "copy_outcome c dstv srcv out"
proof -
  obtain res dstv' srcv' where o: "out = (res, dstv', srcv')" by (cases out)
  define k where "k = nat res - (c + n)"
  note facts = out [unfolded copy_outcome_def o, simplified, folded k_def]
  have "0 < c + n \<longrightarrow> int (c + n) \<le> res" using facts by simp
  then have k: "nat res - c = k + n" and le: "0 < c \<longrightarrow> int c \<le> res" by (auto simp: k_def)
  show ?thesis
    unfolding copy_outcome_def o prod.case k using facts le assms(2-5) by auto
qed

lemma copy_loop_outcome:
  assumes "sys_ok sys" "bv_ok dstv" "bv_ok srcv"
  shows "\<exists>out s'. buf_copy_loop sys stk fl dstv srcv c s = Some (out, s') \<and> copy_outcome c dstv srcv out"
  using assms
proof (induction sys stk fl dstv srcv c s rule: buf_copy_loop.induct)
  case (1 sys stk fl dstv srcv c s)
  note prems = "1.prems"
  show ?case
  proof (cases "fuse_bufvec_current srcv = None \<or> fuse_bufvec_current dstv = None")
    case True
    then show ?thesis using prems
      by (subst buf_copy_loop.simps) (auto simp: copy_outcome_def split: option.split)
  next
    case False
    then obtain src dst where cs: "fuse_bufvec_current srcv = Some src" and cd: "fuse_bufvec_current dstv = Some dst"
      by fastforce
    let ?len = "min_size (b_size src - bv_off srcv) (b_size dst - bv_off dstv)"
    obtain res s1 where one: "fuse_buf_copy_one sys stk fl dst (bv_off dstv) src (bv_off srcv) ?len s = (res, s1)"
      by (rule prod.exhaust)
    have le: "res \<le> int ?len" using copy_one_ok [OF prems(1), of stk fl dst "bv_off dstv" src "bv_off srcv" ?len s] one by simp
    then have n: "nat res \<le> b_size src - bv_off srcv" "nat res \<le> b_size dst - bv_off dstv"
      by (auto simp: min_size_def split: if_splits)
    obtain r1 srcv1 where as: "fuse_bufvec_advance srcv (nat res) = Some (r1, srcv1)" and s1: "bv_ok srcv1"
      "addr_list srcv1 = drop (nat res) (addr_list srcv)" "\<not> r1 \<longrightarrow> addr_list srcv1 = []"
      by (rule advance_ok [OF prems(3) cs n(1)]) blast
    obtain r2 dstv1 where ad: "fuse_bufvec_advance dstv (nat res) = Some (r2, dstv1)" and d1: "bv_ok dstv1"
      "addr_list dstv1 = drop (nat res) (addr_list dstv)" "\<not> r2 \<longrightarrow> addr_list dstv1 = []"
      by (rule advance_ok [OF prems(2) cd n(2)]) blast
    note bl = bytes_left_drop [OF s1(2)] bytes_left_drop [OF d1(2)]
    have fit: "nat res \<le> bytes_left srcv" "nat res \<le> bytes_left dstv"
      using n length_addr_current [OF cs] length_addr_current [OF cd] by (simp_all add: length_addr_list)
    have sb: "\<not> r1 \<longrightarrow> bytes_left srcv1 = 0" using s1(3) length_addr_list [of srcv1] by auto
    show ?thesis
    proof (cases "0 \<le> res \<and> r1 \<and> r2 \<and> \<not> nat res < ?len")
      case True
      then have "\<exists>out s'. buf_copy_loop sys stk fl dstv1 srcv1 (c + nat res) s1 = Some (out, s') \<and>
          copy_outcome (c + nat res) dstv1 srcv1 out"
        using "1.IH" [OF refl cs cd refl refl refl one [symmetric] refl _ refl as refl _ ad refl]
          d1(1) s1(1) prems(1) by simp
      then obtain out s' where rec: "buf_copy_loop sys stk fl dstv1 srcv1 (c + nat res) s1 = Some (out, s')"
        and out: "copy_outcome (c + nat res) dstv1 srcv1 out" by blast
      have "copy_outcome c dstv srcv out"
        by (rule copy_outcome_step [OF out bl(2) bl(1) fit(2) fit(1)])
      moreover have "buf_copy_loop sys stk fl dstv srcv c s = Some (out, s')"
        by (subst buf_copy_loop.simps) (use cs cd one as ad True rec in simp)
      ultimately show ?thesis by blast
    next
      case stop: False
      consider "res < 0" | "0 \<le> res" "\<not> r1" | "0 \<le> res" "r1" "\<not> r2 \<or> nat res < ?len" using stop by linarith
      then show ?thesis
      proof cases
        case 1
        have "buf_copy_loop sys stk fl dstv srcv c s = Some ((if c = 0 then res else int c, dstv, srcv), s1)"
          by (subst buf_copy_loop.simps) (use 1 cs cd one in simp)
        then show ?thesis using prems 1 by (simp add: copy_outcome_def)
      next
        case 2
        have "buf_copy_loop sys stk fl dstv srcv c s = Some ((int (c + nat res), dstv, srcv1), s1)"
          by (subst buf_copy_loop.simps) (use 2 cs cd one as in simp)
        moreover obtain k where "res = int k" using 2(1) by (rule nonneg_int_cases)
        ultimately show ?thesis using prems 2(2) s1(1) bl fit sb by (simp add: copy_outcome_def nat_int_add)
      next
        case 3
        have "buf_copy_loop sys stk fl dstv srcv c s = Some ((int (c + nat res), dstv1, srcv1), s1)"
          by (subst buf_copy_loop.simps) (use 3 cs cd one as ad in \<open>cases r2; simp\<close>)
        moreover obtain k where "res = int k" using 3(1) by (rule nonneg_int_cases)
        ultimately show ?thesis using s1(1) d1(1) bl fit by (simp add: copy_outcome_def nat_int_add)
      qed
    qed
  qed
qed

text \<open>
  C24: whatever the system calls answer (short transfers, end of file and errors at any point),
  \<open>fuse_buf_copy\<close> ends without failing an assertion; it never reports more bytes than either
  vector had left, leaves both positions within their buffers, advances the source by exactly
  the bytes it reports, and the destination too unless the source is used up.
\<close>

theorem fuse_buf_copy_bounded:
  assumes "sys_ok sys" "bv_ok dstv" "bv_ok srcv"
  shows "\<exists>res dstv' srcv' s'. fuse_buf_copy sys stk fl dstv srcv s = Some ((res, dstv', srcv'), s') \<and>
    res \<le> int (min (bytes_left dstv) (bytes_left srcv)) \<and> bv_ok dstv' \<and> bv_ok srcv' \<and>
    bytes_left srcv' = bytes_left srcv - nat res \<and>
    (bytes_left dstv' = bytes_left dstv - nat res \<or> bytes_left srcv' = 0)"
proof -
  obtain res dstv' srcv' s' where loop: "buf_copy_loop sys stk fl dstv srcv 0 s = Some ((res, dstv', srcv'), s')"
    and out: "copy_outcome 0 dstv srcv (res, dstv', srcv')"
    using copy_loop_outcome [OF assms, of stk fl 0 s] by auto
  from out have "nat res \<le> min (bytes_left dstv) (bytes_left srcv)" by (simp add: copy_outcome_def)
  then have "res \<le> int (min (bytes_left dstv) (bytes_left srcv))" by linarith
  with loop out show ?thesis unfolding fuse_buf_copy_def copy_outcome_def by auto
qed

section \<open>Copying between memory vectors\<close>

text \<open>The reference: every destination address receives the byte of its source address.\<close>

definition copy_mem :: "memory \<Rightarrow> nat list \<Rightarrow> nat list \<Rightarrow> memory" where
  "copy_mem m ds ss = (\<lambda>x. case map_of (zip ds ss) x of None \<Rightarrow> m x | Some a \<Rightarrow> m a)"

lemma copy_mem_append:
  assumes "length ds1 = length ss1" "distinct (ds1 @ ds2)" "set ds1 \<inter> set ss2 = {}"
  shows "copy_mem (copy_mem m ds1 ss1) ds2 ss2 = copy_mem m (ds1 @ ds2) (ss1 @ ss2)"
proof (rule ext)
  fix x
  show "copy_mem (copy_mem m ds1 ss1) ds2 ss2 x = copy_mem m (ds1 @ ds2) (ss1 @ ss2) x"
  proof (cases "map_of (zip ds2 ss2) x")
    case None
    then show ?thesis using assms(1) by (cases "map_of (zip ds1 ss1) x") (simp_all add: copy_mem_def map_add_def del: map_of_zip_is_None)
  next
    case (Some a)
    then have "(x, a) \<in> set (zip ds2 ss2)" by (rule map_of_SomeD)
    then have xa: "x \<in> set ds2" "a \<in> set ss2" by (auto dest: set_zip_leftD set_zip_rightD)
    then have "a \<notin> set ds1" using assms(3) by auto
    then have "map_of (zip ds1 ss1) a = None" using assms(1) by simp
    moreover have "map_of (zip ds1 ss1) x = None" using assms(1,2) xa(1) by auto
    ultimately show ?thesis using assms(1) Some by (simp add: copy_mem_def map_add_def del: map_of_zip_is_None)
  qed
qed

lemma store_at_copy_mem:
  "store_at m d (bytes_at m a n) = copy_mem m [d..<d + n] [a..<a + n]"
proof (rule ext)
  fix x
  show "store_at m d (bytes_at m a n) x = copy_mem m [d..<d + n] [a..<a + n] x"
  proof (cases "d \<le> x \<and> x < d + n")
    case True
    then have "(x, a + (x - d)) \<in> set (zip [d..<d + n] [a..<a + n])"
      by (auto simp: set_zip intro!: exI [of _ "x - d"])
    then have "map_of (zip [d..<d + n] [a..<a + n]) x = Some (a + (x - d))" by (intro map_of_is_SomeI) (simp_all add: map_fst_zip)
    moreover have "map m [a..<a + n] ! (x - d) = m (a + (x - d))" using True
      by (subst nth_map) (simp_all add: less_diff_conv2)
    ultimately show ?thesis using True by (simp add: store_at_def bytes_at_def copy_mem_def)
  next
    case False
    then have "map_of (zip [d..<d + n] [a..<a + n]) x = None" by auto
    then show ?thesis using False by (auto simp: store_at_def copy_mem_def simp del: map_of_zip_is_None)
  qed
qed

lemma take_addr_list:
  assumes "fuse_bufvec_current v = Some b" "n \<le> b_size b - bv_off v"
  shows "take n (addr_list v) = [b_mem b + bv_off v..<b_mem b + bv_off v + n]"
  using assms by (auto simp: addr_list_current buf_addrs_def intro: nth_equalityI)

definition mem_only :: "fuse_bufvec \<Rightarrow> bool" where
  "mem_only v \<longleftrightarrow> list_all (\<lambda>b. \<not> b_is_fd b) (bv_bufs v)"

lemma mem_only_current: "mem_only v \<Longrightarrow> fuse_bufvec_current v = Some b \<Longrightarrow> \<not> b_is_fd b"
  by (auto simp: mem_only_def fuse_bufvec_current_def list_all_length split: if_splits)

lemma copy_one_mem:
  assumes "mem_only dstv" "mem_only srcv" "fuse_bufvec_current dstv = Some dst" "fuse_bufvec_current srcv = Some src"
    and "n \<le> b_size dst - bv_off dstv" "n \<le> b_size src - bv_off srcv"
  shows "fuse_buf_copy_one sys stk fl dst (bv_off dstv) src (bv_off srcv) n (m, w) =
    (int n, copy_mem m (take n (addr_list dstv)) (take n (addr_list srcv)), w)"
proof -
  have "\<not> b_is_fd dst" "\<not> b_is_fd src" using assms mem_only_current by blast+
  moreover have "copy_mem m [a..<a + n] [a..<a + n] = m" for a
    unfolding store_at_copy_mem [symmetric] by (rule ext) (simp add: store_at_def bytes_at_def less_diff_conv2)
  ultimately show ?thesis
    using take_addr_list [OF assms(3,5)] take_addr_list [OF assms(4,6)]
    by (simp add: fuse_buf_copy_one_def store_at_copy_mem Let_def)
qed

lemma copy_loop_mem:
  assumes "bv_ok dstv" "bv_ok srcv" "mem_only dstv" "mem_only srcv"
    and "distinct (addr_list dstv)" "set (addr_list dstv) \<inter> set (addr_list srcv) = {}"
  shows "\<exists>dstv' srcv'. buf_copy_loop sys stk fl dstv srcv c (m, w) =
    Some ((int (c + min (bytes_left dstv) (bytes_left srcv)), dstv', srcv'),
      copy_mem m (addr_list dstv) (addr_list srcv), w)"
  using assms
proof (induction sys stk fl dstv srcv c "(m, w)" arbitrary: m rule: buf_copy_loop.induct)
  case (1 sys stk fl dstv srcv c)
  note prems = "1.prems"
  show ?case
  proof (cases "fuse_bufvec_current srcv = None \<or> fuse_bufvec_current dstv = None")
    case True
    then show ?thesis
      by (subst buf_copy_loop.simps)
        (auto simp: bytes_left_def copy_mem_def addr_list_None split: option.split)
  next
    case False
    then obtain src dst where cs: "fuse_bufvec_current srcv = Some src" and cd: "fuse_bufvec_current dstv = Some dst"
      by fastforce
    define n where "n = min_size (b_size src - bv_off srcv) (b_size dst - bv_off dstv)"
    have n: "n \<le> b_size src - bv_off srcv" "n \<le> b_size dst - bv_off dstv" by (auto simp: n_def min_size_def)
    let ?m = "copy_mem m (take n (addr_list dstv)) (take n (addr_list srcv))"
    have one: "fuse_buf_copy_one sys stk fl dst (bv_off dstv) src (bv_off srcv) n (m, w) = (int n, ?m, w)"
      by (rule copy_one_mem [OF prems(3,4) cd cs n(2,1)])
    obtain r1 srcv1 where as: "fuse_bufvec_advance srcv n = Some (r1, srcv1)" and s1: "bv_ok srcv1"
      "addr_list srcv1 = drop n (addr_list srcv)" "\<not> r1 \<longrightarrow> addr_list srcv1 = []" "bv_bufs srcv1 = bv_bufs srcv"
      by (rule advance_ok [OF prems(2) cs n(1)]) blast
    obtain r2 dstv1 where ad: "fuse_bufvec_advance dstv n = Some (r2, dstv1)" and d1: "bv_ok dstv1"
      "addr_list dstv1 = drop n (addr_list dstv)" "\<not> r2 \<longrightarrow> addr_list dstv1 = []" "bv_bufs dstv1 = bv_bufs dstv"
      by (rule advance_ok [OF prems(1) cd n(2)]) blast
    have as': "fuse_bufvec_advance srcv (nat (int n)) = Some (r1, srcv1)" and
      ad': "fuse_bufvec_advance dstv (nat (int n)) = Some (r2, dstv1)" using as ad by simp_all
    have fit: "n \<le> bytes_left srcv" "n \<le> bytes_left dstv"
      using n length_addr_current [OF cs] length_addr_current [OF cd] by (simp_all add: length_addr_list)
    have whole: "copy_mem ?m (addr_list dstv1) (addr_list srcv1) = copy_mem m (addr_list dstv) (addr_list srcv)"
      unfolding s1(2) d1(2) using prems(5,6) fit
      by (subst copy_mem_append)
        (auto simp: length_addr_list dest: in_set_takeD in_set_dropD)
    have stop: "?m = copy_mem m (addr_list dstv) (addr_list srcv)" "n = min (bytes_left dstv) (bytes_left srcv)"
      if "\<not> r1 \<or> \<not> r2"
    proof -
      have e: "addr_list srcv1 = [] \<or> addr_list dstv1 = []" using that s1(3) d1(3) by blast
      then show "?m = copy_mem m (addr_list dstv) (addr_list srcv)" using whole by (auto simp: copy_mem_def)
      show "n = min (bytes_left dstv) (bytes_left srcv)"
        using e fit length_addr_list [of srcv] length_addr_list [of dstv] unfolding s1(2) d1(2) by auto
    qed
    have disj: "set (drop n (addr_list dstv)) \<inter> set (drop n (addr_list srcv)) = {}"
      using prems(6) by (auto dest: in_set_dropD)
    show ?thesis
    proof (cases "r1 \<and> r2")
      case True
      have rest: "\<exists>dstv' srcv'. buf_copy_loop sys stk fl dstv1 srcv1 (c + n) (?m, w) =
        Some ((int (c + n + min (bytes_left dstv1) (bytes_left srcv1)), dstv', srcv'),
          copy_mem ?m (addr_list dstv1) (addr_list srcv1), w)"
        using "1.hyps" [OF refl cs cd refl refl n_def one [symmetric] refl _ refl as' refl _ ad' refl]
        using True prems s1 d1 disj by (simp add: mem_only_def n_def [symmetric])
      have sum: "int (c + n + min (bytes_left dstv1) (bytes_left srcv1)) = int (c + min (bytes_left dstv) (bytes_left srcv))"
        using bytes_left_drop [OF s1(2)] bytes_left_drop [OF d1(2)] fit by simp
      show ?thesis
        by (subst buf_copy_loop.simps) (use True cs cd one as ad rest [unfolded sum whole] in \<open>simp add: n_def [symmetric] Let_def\<close>)
    next
      case False
      then show ?thesis
        by (subst buf_copy_loop.simps)
          (use cs cd one as ad stop in \<open>cases r1; simp add: n_def [symmetric] Let_def\<close>)
    qed
  qed
qed

lemma copy_mem_nth:
  assumes "distinct ds" "i < min (length ds) (length ss)"
  shows "copy_mem m ds ss (ds ! i) = m (ss ! i)"
proof -
  have "distinct (map fst (zip ds ss))" using assms(1) by (simp add: map_fst_zip_take)
  moreover have "(ds ! i, ss ! i) \<in> set (zip ds ss)" using assms(2) by (auto simp: set_zip)
  ultimately have "map_of (zip ds ss) (ds ! i) = Some (ss ! i)" by (rule map_of_is_SomeI)
  then show ?thesis by (simp add: copy_mem_def)
qed

lemma copy_mem_other:
  assumes "x \<notin> set (take (min (length ds) (length ss)) ds)"
  shows "copy_mem m ds ss x = m x"
proof -
  have "x \<notin> fst ` set (zip ds ss)"
    using assms by (metis image_set map_fst_zip_take)
  then have "map_of (zip ds ss) x = None" unfolding map_of_eq_None_iff .
  then show ?thesis unfolding copy_mem_def by (simp del: map_of_zip_is_None)
qed

text \<open>
  C23: copying between memory vectors whose ranges do not overlap, however differently they are
  split into buffers, moves exactly the bytes both have left: the \<open>i\<close>-th address of the
  destination receives the byte of the \<open>i\<close>-th address of the source, and no other byte changes.
\<close>

theorem fuse_buf_copy_memory:
  assumes "bv_ok dstv" "bv_ok srcv" "mem_only dstv" "mem_only srcv"
    and "distinct (addr_list dstv)" "set (addr_list dstv) \<inter> set (addr_list srcv) = {}"
    and n: "n = min (bytes_left dstv) (bytes_left srcv)"
  shows "\<exists>dstv' srcv' m'. fuse_buf_copy sys stk fl dstv srcv (m, w) = Some ((int n, dstv', srcv'), m', w) \<and>
    (\<forall>i. i < n \<longrightarrow> m' (addr_list dstv ! i) = m (addr_list srcv ! i)) \<and>
    (\<forall>x. x \<notin> set (take n (addr_list dstv)) \<longrightarrow> m' x = m x)"
proof -
  let ?m = "copy_mem m (addr_list dstv) (addr_list srcv)"
  obtain dstv' srcv' where "buf_copy_loop sys stk fl dstv srcv 0 (m, w) = Some ((int n, dstv', srcv'), ?m, w)"
    using copy_loop_mem [OF assms(1-6), of sys stk fl 0 m w] n by auto
  moreover have "\<forall>i. i < n \<longrightarrow> ?m (addr_list dstv ! i) = m (addr_list srcv ! i)"
    using copy_mem_nth [OF assms(5)] by (simp add: n length_addr_list)
  moreover have "\<forall>x. x \<notin> set (take n (addr_list dstv)) \<longrightarrow> ?m x = m x"
    using copy_mem_other [of _ "addr_list dstv" "addr_list srcv" m] by (simp add: n length_addr_list)
  ultimately show ?thesis unfolding fuse_buf_copy_def by blast
qed

section \<open>Concrete vectors\<close>

definition mem_buf :: "nat \<Rightarrow> nat \<Rightarrow> fuse_buf" where
  "mem_buf a n = \<lparr>b_size = n, b_is_fd = False, b_fd_seek = False, b_fd_retry = False, b_mem = a, b_fd = 0, b_pos = 0\<rparr>"

definition sample_dst :: fuse_bufvec where
  "sample_dst = \<lparr>bv_idx = 0, bv_off = 1, bv_bufs = [mem_buf 100 2, mem_buf 200 3]\<rparr>"

definition sample_src :: fuse_bufvec where
  "sample_src = \<lparr>bv_idx = 0, bv_off = 0, bv_bufs = [mem_buf 10 3]\<rparr>"

definition sample_sys :: "unit sys" where
  "sample_sys = \<lparr>sys_write = \<lambda>_ _ bs w. (Inr (length bs), w), sys_read = \<lambda>_ _ n w. (Inr (replicate n 0), w),
     sys_splice = \<lambda>_ _ _ _ _ _ _ w. (Inl EINVAL, w)\<rparr>"

definition no_flags :: copy_flags where
  "no_flags = \<lparr>cf_no_splice = False, cf_force_splice = False, cf_splice_move = False, cf_splice_nonblock = False\<rparr>"

lemma sample_sys_ok: "sys_ok sample_sys"
  by (simp add: sys_ok_def sample_sys_def EINVAL_def)

lemma sample_addrs: "addr_list sample_dst = [101, 200, 201, 202]" "addr_list sample_src = [10, 11, 12]"
  by (simp_all add: addr_list_def buf_addrs_def sample_dst_def sample_src_def mem_buf_def upt_rec)

lemma sample_ok: "bv_ok sample_dst" "bv_ok sample_src" "mem_only sample_dst" "mem_only sample_src"
  by (simp_all add: bv_ok_def mem_only_def fuse_bufvec_current_def sample_dst_def sample_src_def mem_buf_def)

lemma sample_left: "bytes_left sample_dst = 4" "bytes_left sample_src = 3"
  by (simp_all add: length_addr_list [symmetric] sample_addrs)

theorem fuse_buf_copy_bounded_witness:
  "sys_ok sample_sys \<and> bv_ok sample_dst \<and> bv_ok sample_src \<and>
   (\<exists>res dstv' srcv' s'. fuse_buf_copy sample_sys 0 no_flags sample_dst sample_src (\<lambda>_. 0, ()) = Some ((res, dstv', srcv'), s') \<and>
      res \<le> 3 \<and> bytes_left srcv' = 3 - nat res)"
  using fuse_buf_copy_bounded [OF sample_sys_ok sample_ok(1,2), of 0 no_flags "(\<lambda>_. 0, ())"]
  by (auto simp: sample_sys_ok sample_ok sample_left)

theorem fuse_buf_copy_memory_witness:
  "bv_ok sample_dst \<and> bv_ok sample_src \<and> mem_only sample_dst \<and> mem_only sample_src \<and>
   (\<exists>dstv' srcv' m'. fuse_buf_copy sample_sys 0 no_flags sample_dst sample_src (of_nat, ()) = Some ((3, dstv', srcv'), m', ()) \<and>
      m' 101 = 10 \<and> m' 200 = 11 \<and> m' 201 = 12 \<and> m' 202 = 202)"
proof -
  have n: "(3::nat) = min (bytes_left sample_dst) (bytes_left sample_src)" by (simp add: sample_left)
  have d: "distinct (addr_list sample_dst)" "set (addr_list sample_dst) \<inter> set (addr_list sample_src) = {}"
    by (simp_all add: sample_addrs)
  obtain dstv' srcv' m' where
    c: "fuse_buf_copy sample_sys 0 no_flags sample_dst sample_src (of_nat, ()) = Some ((int 3, dstv', srcv'), m', ())"
    and i: "\<forall>i. i < 3 \<longrightarrow> m' (addr_list sample_dst ! i) = of_nat (addr_list sample_src ! i)"
    and o: "\<forall>x. x \<notin> set (take 3 (addr_list sample_dst)) \<longrightarrow> m' x = of_nat x"
    using fuse_buf_copy_memory [OF sample_ok d n, of sample_sys 0 no_flags of_nat "()"] by blast
  have "m' 101 = 10" using i [rule_format, of 0] by (simp add: sample_addrs)
  moreover have "m' 200 = 11" using i [rule_format, of 1] by (simp add: sample_addrs)
  moreover have "m' 201 = 12" using i [rule_format, of 2] by (simp add: sample_addrs)
  moreover have "m' 202 = 202" using o [rule_format, of 202] by (simp add: sample_addrs)
  ultimately show ?thesis using c sample_ok by auto
qed

end
