(* ===== verification/Lock_Properties.thy ===== *)
theory Lock_Properties
  imports Posix_Locks
begin

text \<open>
  The cached byte-range locks against their specification: per owner, a map from bytes to lock
  types. \<open>locks_insert\<close> is the update of this map on a range, \<open>locks_conflict\<close> the test for a
  byte on which another owner's lock excludes the request.
\<close>

section \<open>Specification\<close>

fun lock_at :: "lock list \<Rightarrow> u64 \<Rightarrow> int \<Rightarrow> lock_type option" where
  "lock_at [] own x = None"
| "lock_at (l # ls) own x =
     (if lk_owner l = own \<and> lk_start l \<le> x \<and> x \<le> lk_end l then Some (lk_type l) else lock_at ls own x)"

definition range_ok :: "lock \<Rightarrow> bool" where
  "range_ok l \<longleftrightarrow> 0 \<le> lk_start l \<and> lk_start l \<le> lk_end l \<and> lk_end l \<le> OFFSET_MAX"

text \<open>The invariant of a node's list: proper ranges, and per owner disjoint and in order.\<close>

definition before :: "lock \<Rightarrow> lock \<Rightarrow> bool" where
  "before a b \<longleftrightarrow> (lk_owner a = lk_owner b \<longrightarrow> lk_end a < lk_start b)"

definition locks_ok :: "lock list \<Rightarrow> bool" where
  "locks_ok ls \<longleftrightarrow> sorted_wrt before ls \<and> list_all (\<lambda>l. range_ok l \<and> lk_type l \<noteq> F_UNLCK) ls"

definition new_type :: "lock \<Rightarrow> lock_type option" where
  "new_type lk = (if lk_type lk = F_UNLCK then None else Some (lk_type lk))"

definition updated :: "lock list \<Rightarrow> lock \<Rightarrow> lock list \<Rightarrow> bool" where
  "updated ls lk ls' \<longleftrightarrow> (\<forall>own x. lock_at ls' own x =
     (if own = lk_owner lk \<and> lk_start lk \<le> x \<and> x \<le> lk_end lk then new_type lk else lock_at ls own x))"

section \<open>Insertion\<close>

lemma lock_at_beyond: "list_all (\<lambda>l. lk_owner l = own \<longrightarrow> x < lk_start l) ls \<Longrightarrow> lock_at ls own x = None"
  by (induction ls) auto

lemma locks_ok_Cons [simp]:
  "locks_ok (l # ls) \<longleftrightarrow> (\<forall>l'\<in>set ls. before l l') \<and> range_ok l \<and> lk_type l \<noteq> F_UNLCK \<and> locks_ok ls"
  by (auto simp: locks_ok_def)

lemma locks_ok_Nil [simp]: "locks_ok []"
  by (simp add: locks_ok_def)

text \<open>
  What the loop promises of its result: the map is updated, the invariant kept, locks of other
  owners are untouched, and no lock of the owner starts before the ones there were.
\<close>

definition loop_ok :: "lock \<Rightarrow> lock list \<Rightarrow> lock list \<Rightarrow> bool" where
  "loop_ok lk ls ls' \<longleftrightarrow> locks_ok ls' \<and> updated ls lk ls' \<and>
     (\<forall>l'\<in>set ls'. lk_owner l' \<noteq> lk_owner lk \<longrightarrow> l' \<in> set ls) \<and>
     (\<forall>l'\<in>set ls'. lk_owner l' = lk_owner lk \<longrightarrow>
        lk_start lk \<le> lk_start l' \<or> (\<exists>l\<in>set ls. lk_owner l = lk_owner lk \<and> lk_start l \<le> lk_start l'))"

definition splittable :: "bool \<Rightarrow> lock \<Rightarrow> lock list \<Rightarrow> bool" where
  "splittable newl2 lk ls \<longleftrightarrow> newl2 \<or> (\<forall>l\<in>set ls. lk_owner l = lk_owner lk \<longrightarrow> lk_type l \<noteq> lk_type lk \<longrightarrow>
     \<not> (lk_start l < lk_start lk \<and> lk_end lk < lk_end l))"

lemma loop_ok_insert:
  assumes "locks_ok ls" "range_ok lk" "newl1 \<or> lk_type lk = F_UNLCK"
    and "\<forall>l\<in>set ls. lk_owner l = lk_owner lk \<longrightarrow> lk_end lk < lk_start l"
  shows "\<exists>ls'. insert_newl1 newl1 lk ls = Some ls' \<and> loop_ok lk ls ls'"
proof -
  have none: "lock_at ls (lk_owner lk) x = None" if "x \<le> lk_end lk" for x
    using assms(4) that by (intro lock_at_beyond) (auto simp: list_all_iff)
  show ?thesis
  proof (cases "lk_type lk = F_UNLCK")
    case True
    then show ?thesis using assms(1) none by (auto simp: insert_newl1_def loop_ok_def updated_def new_type_def)
  next
    case False
    then show ?thesis using assms by (auto simp: insert_newl1_def loop_ok_def updated_def new_type_def before_def)
  qed
qed

lemma loop_ok_insert_front:
  assumes "locks_ok (l # ls)" "range_ok lk" "newl1 \<or> lk_type lk = F_UNLCK" "lk_end lk < lk_start l" "lk_owner l = lk_owner lk"
  shows "\<exists>ls'. insert_newl1 newl1 lk (l # ls) = Some ls' \<and> loop_ok lk (l # ls) ls'"
proof (rule loop_ok_insert [OF assms(1-3)])
  show "\<forall>k\<in>set (l # ls). lk_owner k = lk_owner lk \<longrightarrow> lk_end lk < lk_start k"
    using assms by (fastforce simp: before_def range_ok_def)
qed

lemma loop_ok_skip:
  assumes "locks_ok (l # ls)" "loop_ok lk ls ls'" "lk_owner l = lk_owner lk \<longrightarrow> lk_end l < lk_start lk"
  shows "loop_ok lk (l # ls) (l # ls')"
proof -
  have "\<forall>l'\<in>set ls'. before l l'"
  proof (rule ballI, unfold before_def, rule impI)
    fix l' assume l': "l' \<in> set ls'" "lk_owner l = lk_owner l'"
    show "lk_end l < lk_start l'"
    proof (cases "lk_owner l = lk_owner lk")
      case True
      then show ?thesis using assms l' unfolding loop_ok_def locks_ok_Cons before_def by fastforce
    next
      case False
      then show ?thesis using assms l' unfolding loop_ok_def locks_ok_Cons before_def by metis
    qed
  qed
  moreover have "updated (l # ls) lk (l # ls')"
    using assms unfolding loop_ok_def updated_def by auto
  ultimately show ?thesis using assms unfolding loop_ok_def by auto
qed

lemma loop_ok_trim:
  assumes ok: "locks_ok (l # ls)" and own: "lk_owner l = lk_owner lk" and lt: "lk_start l < lk_start lk" "lk_start lk \<le> lk_end l"
    and rest: "loop_ok lk ls2 ls'" and r: "range_ok lk"
    and ls2: "ls2 = ls \<and> lk_end l \<le> lk_end lk \<or> ls2 = l\<lparr>lk_start := lk_end lk + 1\<rparr> # ls \<and> lk_end lk < lk_end l"
  shows "loop_ok lk (l # ls) (l\<lparr>lk_end := lk_start lk - 1\<rparr> # ls')"
proof -
  let ?l = "l\<lparr>lk_end := lk_start lk - 1\<rparr>"
  have st: "\<forall>l'\<in>set ls'. lk_owner l' = lk_owner lk \<longrightarrow> lk_start lk \<le> lk_start l'"
  proof (intro ballI impI)
    fix l' assume l': "l' \<in> set ls'" "lk_owner l' = lk_owner lk"
    have "lk_start lk \<le> lk_start x" if "x \<in> set ls2" "lk_owner x = lk_owner lk" for x
    proof (cases "x \<in> set ls")
      case True
      then have "before l x" using ok by simp
      then show ?thesis using that own lt by (auto simp: before_def)
    next
      case False
      then show ?thesis using ls2 that r by (auto simp: range_ok_def)
    qed
    then show "lk_start lk \<le> lk_start l'" using rest l' unfolding loop_ok_def by fastforce
  qed
  have "updated (l # ls) lk (?l # ls')"
    using rest ls2 own lt r unfolding loop_ok_def updated_def range_ok_def by (auto split: if_splits)
  moreover have "locks_ok (?l # ls')"
    using rest ok st lt own unfolding loop_ok_def by (auto simp: before_def range_ok_def)
  ultimately show ?thesis using rest own ls2 st unfolding loop_ok_def by auto
qed

lemma loop_ok_cover:
  assumes "loop_ok lk' ls ls'" "lk_owner lk' = lk_owner lk" "lk_type lk' = lk_type lk" "lk_owner l = lk_owner lk"
    and "lk_start lk' = min (lk_start l) (lk_start lk)" "lk_end lk' = max (lk_end l) (lk_end lk)"
    and "lk_type l = lk_type lk \<and> lk_type l \<noteq> F_UNLCK \<and> lk_start lk - 1 \<le> lk_end l \<and> lk_start l - 1 \<le> lk_end lk \<or>
         lk_start lk \<le> lk_start l \<and> lk_end l \<le> lk_end lk"
  shows "loop_ok lk (l # ls) ls'"
proof -
  have "updated (l # ls) lk ls'"
    using assms unfolding loop_ok_def updated_def new_type_def by (auto split: if_splits)
  moreover have "lk_start lk \<le> lk_start l' \<or> (\<exists>k\<in>set (l # ls). lk_owner k = lk_owner lk \<and> lk_start k \<le> lk_start l')"
    if "l' \<in> set ls'" "lk_owner l' = lk_owner lk" for l'
    using assms(1,2,4,5) that unfolding loop_ok_def by (auto simp: min_def split: if_splits)
  ultimately show ?thesis using assms(1,2) unfolding loop_ok_def by auto
qed

text \<open>The branches for a lock of the same owner and another type.\<close>

lemma locks_loop_diff:
  assumes ok: "locks_ok (l # ls)" and r: "range_ok lk" and n1: "newl1 \<or> lk_type lk = F_UNLCK"
    and sp: "splittable newl2 lk (l # ls)" and own: "lk_owner l = lk_owner lk" and diff: "lk_type lk \<noteq> lk_type l"
    and ih: "lk_end l < lk_start lk \<or> lk_end l \<le> lk_end lk \<and> lk_start l \<le> lk_end lk \<longrightarrow>
      (\<exists>ls'. locks_loop newl1 newl2 lk ls = Some ls' \<and> loop_ok lk ls ls')"
    and half: "newl2 \<longrightarrow> lk_start l < lk_start lk \<longrightarrow> lk_end lk < lk_end l \<longrightarrow>
      (\<exists>ls'. locks_loop newl1 False lk (l\<lparr>lk_start := lk_end lk + 1\<rparr> # ls) = Some ls' \<and>
         loop_ok lk (l\<lparr>lk_start := lk_end lk + 1\<rparr> # ls) ls')"
  shows "\<exists>ls'. locks_loop newl1 newl2 lk (l # ls) = Some ls' \<and> loop_ok lk (l # ls) ls'"
proof -
  have above: "\<forall>k\<in>set ls. lk_owner k = lk_owner l \<longrightarrow> lk_end l < lk_start k" using ok by (auto simp: before_def)
  have rl: "range_ok l" using ok by simp
  consider "lk_end l < lk_start lk" | "\<not> lk_end l < lk_start lk" "lk_end lk < lk_start l"
    | "lk_start lk \<le> lk_start l" "lk_end l \<le> lk_end lk"
    | "lk_start lk \<le> lk_end l" "lk_start l < lk_start lk" "lk_end l \<le> lk_end lk"
    | "lk_start l \<le> lk_end lk" "lk_start lk \<le> lk_start l" "lk_end lk < lk_end l"
    | "lk_start l < lk_start lk" "lk_end lk < lk_end l"
    by linarith
  then show ?thesis
  proof cases
    case 1
    then show ?thesis using ih own diff loop_ok_skip [OF ok] by auto
  next
    case 2
    then show ?thesis using own diff loop_ok_insert_front [OF ok r n1] by simp
  next
    case 3
    obtain ls' where ls': "locks_loop newl1 newl2 lk ls = Some ls'" "loop_ok lk ls ls'"
      using ih 3 rl r by (force simp: range_ok_def)
    have "loop_ok lk (l # ls) ls'" by (rule loop_ok_cover [OF ls'(2)]) (use 3 own in auto)
    then show ?thesis using own diff 3 ls'(1) r rl by (simp add: range_ok_def)
  next
    case 4
    then obtain ls' where ls': "locks_loop newl1 newl2 lk ls = Some ls'" "loop_ok lk ls ls'"
      using ih r by (force simp: range_ok_def)
    have "loop_ok lk (l # ls) (l\<lparr>lk_end := lk_start lk - 1\<rparr> # ls')"
      by (rule loop_ok_trim [OF ok own 4(2,1) ls'(2) r]) (use 4 in simp)
    then show ?thesis using own diff 4 ls'(1) r by (simp add: range_ok_def)
  next
    case 5
    let ?ls = "l\<lparr>lk_start := lk_end lk + 1\<rparr> # ls"
    have "locks_ok ?ls" using ok 5 r by (auto simp: before_def range_ok_def)
    then obtain ls' where ls': "insert_newl1 newl1 lk ?ls = Some ls'" "loop_ok lk ?ls ls'"
      using loop_ok_insert [of ?ls lk newl1] r n1 above own 5 by fastforce
    have "updated (l # ls) lk ls'" using ls'(2) 5 own unfolding loop_ok_def updated_def by auto
    then have "loop_ok lk (l # ls) ls'" using ls'(2) 5 own unfolding loop_ok_def by auto
    then show ?thesis using own diff 5 ls'(1) by simp
  next
    case 6
    then have n2: newl2 using sp own diff by (auto simp: splittable_def)
    then obtain ls' where ls': "locks_loop newl1 False lk (l\<lparr>lk_start := lk_end lk + 1\<rparr> # ls) = Some ls'"
      "loop_ok lk (l\<lparr>lk_start := lk_end lk + 1\<rparr> # ls) ls'" using half 6 by blast
    have "loop_ok lk (l # ls) (l\<lparr>lk_end := lk_start lk - 1\<rparr> # ls')"
      by (rule loop_ok_trim [OF ok own 6(1) _ ls'(2) r]) (use 6 r in \<open>auto simp: range_ok_def\<close>)
    then show ?thesis using own diff 6 ls'(1) n2 r by (simp add: range_ok_def)
  qed
qed

lemma locks_loop_ok:
  assumes "locks_ok ls" "range_ok lk" "newl1 \<or> lk_type lk = F_UNLCK" "splittable newl2 lk ls"
  shows "\<exists>ls'. locks_loop newl1 newl2 lk ls = Some ls' \<and> loop_ok lk ls ls'"
  using assms
proof (induction newl1 newl2 lk ls rule: locks_loop.induct)
  case (1 newl1 newl2 lk)
  then show ?case by (simp add: loop_ok_insert)
next
  case (2 newl1 newl2 lk l ls)
  note ok = "2.prems"(1) and r = "2.prems"(2) and n1 = "2.prems"(3) and sp = "2.prems"(4)
  have okl: "locks_ok ls" "range_ok l" "lk_type l \<noteq> F_UNLCK" using ok by auto
  have spl: "splittable newl2 lk ls" using sp by (auto simp: splittable_def)
  have above: "\<forall>k\<in>set ls. lk_owner k = lk_owner l \<longrightarrow> lk_end l < lk_start k" using ok by (auto simp: before_def)
  show ?case
  proof (cases "lk_owner l = lk_owner lk")
    case False
    then show ?thesis using "2.IH"(1) [OF False okl(1) r n1 spl] loop_ok_skip [OF ok] by auto
  next
    case own: True
    show ?thesis
    proof (cases "lk_type lk = lk_type l")
      case same: True
      consider "lk_end l < lk_start lk - 1" | "\<not> lk_end l < lk_start lk - 1" "lk_end lk < lk_start l - 1"
        | "\<not> lk_end l < lk_start lk - 1" "\<not> lk_end lk < lk_start l - 1" "lk_start l \<le> lk_start lk \<and> lk_end lk \<le> lk_end l"
        | "\<not> lk_end l < lk_start lk - 1" "\<not> lk_end lk < lk_start l - 1" "\<not> (lk_start l \<le> lk_start lk \<and> lk_end lk \<le> lk_end l)"
        by blast
      then show ?thesis
      proof cases
        case 1
        then show ?thesis using "2.IH"(2) [OF _ same 1 okl(1) r n1 spl] own same loop_ok_skip [OF ok] by auto
      next
        case 2
        then show ?thesis using own same loop_ok_insert_front [OF ok r n1] by simp
      next
        case 3
        have "updated (l # ls) lk (l # ls)"
          using 3(3) own same okl(3) by (auto simp: updated_def new_type_def)
        then show ?thesis using 3 own same ok by (auto simp: loop_ok_def)
      next
        case 4
        define lk1 where "lk1 = (if lk_start l < lk_start lk then lk\<lparr>lk_start := lk_start l\<rparr> else lk)"
        define lk2 where "lk2 = (if lk_end lk1 < lk_end l then lk1\<lparr>lk_end := lk_end l\<rparr> else lk1)"
        have lk2: "lk_start lk2 = min (lk_start l) (lk_start lk)" "lk_end lk2 = max (lk_end l) (lk_end lk)"
          "lk_owner lk2 = lk_owner lk" "lk_type lk2 = lk_type lk"
          by (auto simp: lk2_def lk1_def)
        have r2: "range_ok lk2" using r okl(2) by (auto simp: lk2 range_ok_def)
        have sp2: "splittable newl2 lk2 ls" using spl by (auto simp: lk2 splittable_def)
        obtain ls' where ls': "locks_loop newl1 newl2 lk2 ls = Some ls'" "loop_ok lk2 ls ls'"
          using "2.IH"(3) [OF _ same 4 lk1_def lk2_def okl(1) r2 _ sp2] own n1 lk2(4) by auto
        have "loop_ok lk (l # ls) ls'"
          by (rule loop_ok_cover [OF ls'(2) lk2(3,4) own lk2(1,2)]) (use same okl(3) 4 in auto)
        then show ?thesis using own same 4 ls'(1) by (auto simp: lk1_def [symmetric] lk2_def [symmetric] Let_def)
      qed
    next
      case diff: False
      let ?half = "l\<lparr>lk_start := lk_end lk + 1\<rparr>"
      have half: "\<exists>ls'. locks_loop newl1 False lk (?half # ls) = Some ls' \<and> loop_ok lk (?half # ls) ls'"
        if "newl2" "lk_start l < lk_start lk" "lk_end lk < lk_end l"
      proof (rule "2.IH"(7))
        show "locks_ok (?half # ls)" using ok that r by (auto simp: before_def range_ok_def)
        show "splittable False lk (?half # ls)" using that above own r
          by (fastforce simp: splittable_def range_ok_def)
      qed (use own diff that r n1 in \<open>auto simp: range_ok_def\<close>)
      have ih: "\<exists>ls'. locks_loop newl1 newl2 lk ls = Some ls' \<and> loop_ok lk ls ls'"
        if "lk_end l < lk_start lk \<or> lk_end l \<le> lk_end lk \<and> lk_start l \<le> lk_end lk"
      proof (cases "lk_end l < lk_start lk")
        case True
        then show ?thesis using "2.IH"(4) [OF _ diff True okl(1) r n1 spl] own by blast
      next
        case le: False
        show ?thesis
        proof (cases "lk_start lk \<le> lk_start l")
          case True
          show ?thesis by (rule "2.IH"(5) [OF _ diff le _ _ okl(1) r n1 spl]) (use own le that True in auto)
        next
          case False
          show ?thesis by (rule "2.IH"(6) [OF _ diff le _ _ _ okl(1) r n1 spl]) (use own le that False in auto)
        qed
      qed
      show ?thesis by (rule locks_loop_diff [OF ok r n1 sp own diff]) (use ih half in blast)+
    qed
  qed
qed

section \<open>Properties\<close>

lemma locks_insert_spec:
  assumes "locks_ok ls" "range_ok lk"
  shows "\<exists>err ls' t'. locks_insert t ls lk = Some ((err, ls'), t') \<and>
    (err = 0 \<and> loop_ok lk ls ls' \<or> err = - ENOLCK \<and> ls' = ls \<and> False \<in> set (take 2 t))"
proof (cases "lk_type lk \<noteq> F_UNLCK \<or> lk_start lk \<noteq> 0 \<or> lk_end lk \<noteq> OFFSET_MAX")
  case True
  obtain ok1 t1 where 1: "alloc_pop t = (ok1, t1)" by (rule prod.exhaust)
  obtain ok2 t2 where 2: "alloc_pop t1 = (ok2, t2)" by (rule prod.exhaust)
  show ?thesis
  proof (cases "ok1 \<and> ok2")
    case all: True
    have "splittable True lk ls" by (simp add: splittable_def)
    with locks_loop_ok [OF assms, of True True] True all 1 2 show ?thesis
      by (auto simp: locks_insert_def Let_def)
  next
    case False
    then have "False \<in> set (take 2 t)" using 1 2
      by (cases t; cases "tl t") (auto simp: numeral_2_eq_2)
    then show ?thesis using True False 1 2 by (auto simp: locks_insert_def Let_def)
  qed
next
  case False
  have "splittable False lk ls"
    using assms(1) False by (auto simp: splittable_def locks_ok_def list_all_iff range_ok_def)
  with locks_loop_ok [OF assms, of False False] False show ?thesis
    by (auto simp: locks_insert_def Let_def)
qed

text \<open>
  C6: \<open>locks_insert\<close> implements the update of a byte map. On a well-formed list it never
  dereferences a null element (in particular the spare element for a split is used at most
  once); it either fails with \<open>-ENOLCK\<close> after a failed allocation and changes nothing, or
  leaves a well-formed list (proper ranges; per owner disjoint and in order) in which exactly
  the bytes of the range, for exactly this owner, have the new type (none after an unlock).
\<close>

theorem locks_insert_refines:
  assumes "locks_ok ls" "range_ok lk"
  shows "\<exists>err ls' t'. locks_insert t ls lk = Some ((err, ls'), t') \<and> locks_ok ls' \<and>
    (if err = 0 then \<forall>own x. lock_at ls' own x =
       (if own = lk_owner lk \<and> lk_start lk \<le> x \<and> x \<le> lk_end lk then new_type lk else lock_at ls own x)
     else err = - ENOLCK \<and> ls' = ls \<and> False \<in> set (take 2 t))"
  using locks_insert_spec [OF assms, of t]
proof (elim exE conjE disjE)
  fix err ls' t'
  assume "locks_insert t ls lk = Some ((err, ls'), t')" "err = 0" "loop_ok lk ls ls'"
  then show ?thesis by (intro exI [of _ err] exI [of _ ls'] exI [of _ t']) (auto simp: loop_ok_def updated_def)
next
  fix err ls' t'
  assume "locks_insert t ls lk = Some ((err, ls'), t')" "err = - ENOLCK" "ls' = ls" "False \<in> set (take 2 t)"
  then show ?thesis using assms(1)
    by (intro exI [of _ err] exI [of _ ls'] exI [of _ t']) (auto simp: ENOLCK_def)
qed

definition rd_lock :: lock where
  "rd_lock = \<lparr>lk_type = F_RDLCK, lk_start = 10, lk_end = 99, lk_pid = 7, lk_owner = 1\<rparr>"

definition wr_lock :: lock where
  "wr_lock = \<lparr>lk_type = F_WRLCK, lk_start = 20, lk_end = 29, lk_pid = 7, lk_owner = 1\<rparr>"

theorem locks_insert_refines_witness:
  "locks_ok [rd_lock] \<and> range_ok wr_lock \<and>
   (\<exists>err ls' t'. locks_insert [] [rd_lock] wr_lock = Some ((err, ls'), t') \<and> locks_ok ls' \<and>
      (if err = 0 then lock_at ls' 1 19 = Some F_RDLCK \<and> lock_at ls' 1 25 = Some F_WRLCK \<and> lock_at ls' 1 30 = Some F_RDLCK
       else False))"
proof -
  have ok: "locks_ok [rd_lock]" "range_ok wr_lock"
    by (simp_all add: locks_ok_def range_ok_def rd_lock_def wr_lock_def OFFSET_MAX_def)
  obtain err ls' t' where r: "locks_insert [] [rd_lock] wr_lock = Some ((err, ls'), t')" "locks_ok ls'"
    and u: "if err = 0 then \<forall>own x. lock_at ls' own x = (if own = lk_owner wr_lock \<and> lk_start wr_lock \<le> x \<and> x \<le> lk_end wr_lock
        then new_type wr_lock else lock_at [rd_lock] own x)
      else err = - ENOLCK \<and> ls' = [rd_lock] \<and> False \<in> set (take 2 [])"
    using locks_insert_refines [OF ok, of "[]"] by blast
  from u have "err = 0" by (auto split: if_splits)
  moreover from this u have "lock_at ls' 1 19 = Some F_RDLCK \<and> lock_at ls' 1 25 = Some F_WRLCK \<and> lock_at ls' 1 30 = Some F_RDLCK"
    by (simp add: rd_lock_def wr_lock_def new_type_def)
  ultimately show ?thesis using ok r by (intro conjI exI [of _ err] exI [of _ ls'] exI [of _ t']) simp_all
qed

text \<open>
  C25: \<open>locks_conflict\<close> finds a lock exactly when some byte of the requested range is locked by
  another owner and one of the two locks is a write lock.
\<close>

theorem locks_conflict_exact:
  assumes "locks_ok ls" "range_ok lk"
  shows "(locks_conflict ls lk = None) = (\<not> (\<exists>own x t. own \<noteq> lk_owner lk \<and> lk_start lk \<le> x \<and> x \<le> lk_end lk \<and>
      lock_at ls own x = Some t \<and> (t = F_WRLCK \<or> lk_type lk = F_WRLCK)))"
proof -
  have at: "lock_at ls own x = Some t \<Longrightarrow> \<exists>l\<in>set ls. lk_owner l = own \<and> lk_start l \<le> x \<and> x \<le> lk_end l \<and> lk_type l = t"
    for own x t by (induction ls) (auto split: if_splits)
  have mem: "l \<in> set ls \<Longrightarrow> lk_start l \<le> x \<Longrightarrow> x \<le> lk_end l \<Longrightarrow> lock_at ls (lk_owner l) x = Some (lk_type l)" for l x
    using assms(1) by (induction ls) (auto simp: before_def)
  have found: "\<exists>own x t. own \<noteq> lk_owner lk \<and> lk_start lk \<le> x \<and> x \<le> lk_end lk \<and> lock_at ls own x = Some t \<and>
      (t = F_WRLCK \<or> lk_type lk = F_WRLCK)"
    if l: "l \<in> set ls" "lk_owner l \<noteq> lk_owner lk" "lk_start lk \<le> lk_end l" "lk_start l \<le> lk_end lk"
      "lk_type l = F_WRLCK \<or> lk_type lk = F_WRLCK" for l
  proof -
    have "range_ok l" using assms(1) l(1) by (auto simp: locks_ok_def list_all_iff)
    then have "lock_at ls (lk_owner l) (max (lk_start l) (lk_start lk)) = Some (lk_type l)"
      using l assms(2) by (intro mem) (auto simp: range_ok_def)
    then show ?thesis using l assms(2) \<open>range_ok l\<close>
      by (intro exI [of _ "lk_owner l"] exI [of _ "max (lk_start l) (lk_start lk)"] exI [of _ "lk_type l"])
        (auto simp: range_ok_def)
  qed
  show ?thesis
  proof
    assume "locks_conflict ls lk = None"
    then have no: "\<not> (\<exists>l. l \<in> set ls \<and> lk_owner l \<noteq> lk_owner lk \<and> lk_start lk \<le> lk_end l \<and> lk_start l \<le> lk_end lk \<and>
      (lk_type l = F_WRLCK \<or> lk_type lk = F_WRLCK))" unfolding locks_conflict_def find_None_iff .
    show "\<not> (\<exists>own x t. own \<noteq> lk_owner lk \<and> lk_start lk \<le> x \<and> x \<le> lk_end lk \<and>
      lock_at ls own x = Some t \<and> (t = F_WRLCK \<or> lk_type lk = F_WRLCK))"
    proof (rule notI, elim exE conjE)
      fix own x t assume x: "own \<noteq> lk_owner lk" "lk_start lk \<le> x" "x \<le> lk_end lk" "lock_at ls own x = Some t"
        "t = F_WRLCK \<or> lk_type lk = F_WRLCK"
      from at [OF x(4)] obtain l where "l \<in> set ls" "lk_owner l = own" "lk_start l \<le> x" "x \<le> lk_end l" "lk_type l = t"
        by blast
      then show False using no x by force
    qed
  next
    assume "\<not> (\<exists>own x t. own \<noteq> lk_owner lk \<and> lk_start lk \<le> x \<and> x \<le> lk_end lk \<and>
      lock_at ls own x = Some t \<and> (t = F_WRLCK \<or> lk_type lk = F_WRLCK))"
    then show "locks_conflict ls lk = None" unfolding locks_conflict_def find_None_iff using found by blast
  qed
qed

theorem locks_conflict_exact_witness:
  "locks_ok [rd_lock] \<and> range_ok (wr_lock\<lparr>lk_owner := 2\<rparr>) \<and> locks_conflict [rd_lock] (wr_lock\<lparr>lk_owner := 2\<rparr>) \<noteq> None"
proof -
  have ok: "locks_ok [rd_lock]" "range_ok (wr_lock\<lparr>lk_owner := 2\<rparr>)"
    by (simp_all add: locks_ok_def range_ok_def rd_lock_def wr_lock_def OFFSET_MAX_def)
  have "lock_at [rd_lock] 1 20 = Some F_RDLCK" by (simp add: rd_lock_def)
  then show ?thesis
    using ok unfolding locks_conflict_exact [OF ok]
    by (auto simp: wr_lock_def rd_lock_def intro!: exI [of _ 1] exI [of _ 20] exI [of _ F_RDLCK])
qed

text \<open>
  The conversions between \<open>struct flock\<close> and \<open>struct lock\<close> are inverse on the ranges the
  kernel sends, and a length that reaches the last offset comes back as 0 (up to the end).
\<close>

theorem flock_roundtrip:
  assumes "0 \<le> l_start fl" "0 \<le> l_len fl" "l_start fl + l_len fl - 1 \<le> OFFSET_MAX" "l_start fl \<le> OFFSET_MAX"
  shows "range_ok (flock_to_lock fl) \<and>
    lock_to_flock (flock_to_lock fl) fl = (if l_start fl + l_len fl - 1 = OFFSET_MAX then fl\<lparr>l_len := 0\<rparr> else fl) \<and>
    flock_to_lock (lock_to_flock (flock_to_lock fl) fl) = flock_to_lock fl"
  using assms by (auto simp: flock_to_lock_def lock_to_flock_def range_ok_def OFFSET_MAX_def)

theorem flock_roundtrip_witness:
  "lock_to_flock (flock_to_lock \<lparr>l_type = F_RDLCK, l_whence = 0, l_start = 5, l_len = 3, l_pid = 9\<rparr>)
     \<lparr>l_type = F_RDLCK, l_whence = 0, l_start = 5, l_len = 3, l_pid = 9\<rparr> =
     \<lparr>l_type = F_RDLCK, l_whence = 0, l_start = 5, l_len = 3, l_pid = 9\<rparr>"
  using flock_roundtrip [of "\<lparr>l_type = F_RDLCK, l_whence = 0, l_start = 5, l_len = 3, l_pid = 9\<rparr>"]
  by (simp add: OFFSET_MAX_def)

end
