(* ===== verification/Fuse_Ops.thy ===== *)
theory Fuse_Ops
  imports Bufvec Fuse_Path
begin

text \<open>
  The file system behind the library: \<open>struct fuse_operations\<close> (\<open>include/fuse.h\<close>) and the
  \<open>fuse_fs_*\<close> functions of \<open>lib/fuse.c\<close> through which every call to it goes.

  The operations are the code of the user of the library, so they are parameters: an operation
  is an optional function on an environment \<open>'w env\<close>, which holds the state \<open>'w\<close> of the file
  system, the calling context, the memory for data buffers and the tape of allocation results.
  Output parameters are passed in and returned. \<open>struct fuse_file_info\<close> is an output of
  \<open>open\<close>, \<open>opendir\<close> and \<open>create\<close>, which fill it in; the other operations only read it. Paths
  are \<open>string option\<close> because the library may pass a null path. Debug output is left out.
\<close>

section \<open>Data\<close>

record stat =
  st_ino :: u64
  st_mode :: u32
  st_nlink :: u64
  st_uid :: u32
  st_gid :: u32
  st_rdev :: u64
  st_size :: int
  st_blksize :: u32
  st_blocks :: u64
  st_atim :: timespec
  st_mtim :: timespec
  st_ctim :: timespec

definition zero_stat :: stat where
  "zero_stat = \<lparr>st_ino = 0, st_mode = 0, st_nlink = 0, st_uid = 0, st_gid = 0, st_rdev = 0,
     st_size = 0, st_blksize = 0, st_blocks = 0, st_atim = (0, 0), st_mtim = (0, 0), st_ctim = (0, 0)\<rparr>"

record statx =
  stx_ino :: u64
  stx_mode :: u32
  stx_nlink :: u32
  stx_uid :: u32
  stx_gid :: u32
  stx_size :: int
  stx_mtime :: timespec

definition zero_statx :: statx where
  "zero_statx = \<lparr>stx_ino = 0, stx_mode = 0, stx_nlink = 0, stx_uid = 0, stx_gid = 0, stx_size = 0, stx_mtime = (0, 0)\<rparr>"

record statvfs =
  f_bsize :: u64
  f_frsize :: u64
  f_blocks :: u64
  f_bfree :: u64
  f_bavail :: u64
  f_files :: u64
  f_ffree :: u64
  f_namemax :: u64

definition zero_statvfs :: statvfs where
  "zero_statvfs = \<lparr>f_bsize = 0, f_frsize = 0, f_blocks = 0, f_bfree = 0, f_bavail = 0, f_files = 0, f_ffree = 0, f_namemax = 0\<rparr>"

record fuse_file_info =
  fi_flags :: u32
  fi_writepage :: bool
  fi_direct_io :: bool
  fi_keep_cache :: bool
  fi_flush :: bool
  fi_nonseekable :: bool
  fi_flock_release :: bool
  fi_cache_readdir :: bool
  fi_noflush :: bool
  fi_parallel_direct_writes :: bool
  fi_fh :: u64
  fi_lock_owner :: u64
  fi_poll_events :: u32
  fi_backing_id :: int

definition zero_fi :: fuse_file_info where
  "zero_fi = \<lparr>fi_flags = 0, fi_writepage = False, fi_direct_io = False, fi_keep_cache = False, fi_flush = False,
     fi_nonseekable = False, fi_flock_release = False, fi_cache_readdir = False, fi_noflush = False,
     fi_parallel_direct_writes = False, fi_fh = 0, fi_lock_owner = 0, fi_poll_events = 0, fi_backing_id = 0\<rparr>"

datatype lock_cmd = F_GETLK | F_SETLK | F_SETLKW

text \<open>\<open>struct fuse_context\<close>; \<open>private_data\<close> is the user's pointer, a number here.\<close>

record fuse_context =
  ctx_uid :: u32
  ctx_gid :: u32
  ctx_pid :: int
  ctx_umask :: u32
  private_data :: nat

record 'w env =
  e_ctx :: fuse_context
  e_world :: 'w
  e_mem :: memory
  e_brk :: nat
  e_allocs :: tape

text \<open>\<open>malloc\<close> for data buffers: fresh addresses from \<open>e_brk\<close> on.\<close>

definition mem_alloc :: "nat \<Rightarrow> 'w env \<Rightarrow> nat option \<times> 'w env" where
  "mem_alloc n e =
     (case alloc_pop (e_allocs e) of
        (False, t) \<Rightarrow> (None, e\<lparr>e_allocs := t\<rparr>)
      | (True, t) \<Rightarrow> (Some (e_brk e), e\<lparr>e_allocs := t, e_brk := e_brk e + n\<rparr>))"

text \<open>
  What \<open>readdir\<close> does: it calls the filler any number of times, seeing each result, and returns.
  \<open>FillDir name statp off flags k\<close> is one call, \<open>k\<close> what happens after it.
\<close>

datatype 'w fill_prog =
    FillEnd int "'w env"
  | FillDir string "stat option" int u32 "int \<Rightarrow> 'w fill_prog"

text \<open>
  \<open>struct fuse_operations\<close>; a null pointer is \<open>None\<close>. The two operations on buffer vectors may end the
  process (\<open>None\<close>): a stacking module calls the library's own \<open>fuse_fs_read_buf\<close> and
  \<open>fuse_fs_write_buf\<close> there, which have assertions.
\<close>

record 'w fuse_operations =
  op_getattr :: "(string option \<Rightarrow> stat \<Rightarrow> fuse_file_info option \<Rightarrow> 'w env \<Rightarrow> (int \<times> stat) \<times> 'w env) option"
  op_readlink :: "(string option \<Rightarrow> nat \<Rightarrow> 'w env \<Rightarrow> (int \<times> string) \<times> 'w env) option"
  op_mknod :: "(string option \<Rightarrow> u32 \<Rightarrow> u64 \<Rightarrow> 'w env \<Rightarrow> int \<times> 'w env) option"
  op_mkdir :: "(string option \<Rightarrow> u32 \<Rightarrow> 'w env \<Rightarrow> int \<times> 'w env) option"
  op_unlink :: "(string option \<Rightarrow> 'w env \<Rightarrow> int \<times> 'w env) option"
  op_rmdir :: "(string option \<Rightarrow> 'w env \<Rightarrow> int \<times> 'w env) option"
  op_symlink :: "(string \<Rightarrow> string option \<Rightarrow> 'w env \<Rightarrow> int \<times> 'w env) option"
  op_rename :: "(string option \<Rightarrow> string option \<Rightarrow> u32 \<Rightarrow> 'w env \<Rightarrow> int \<times> 'w env) option"
  op_link :: "(string option \<Rightarrow> string option \<Rightarrow> 'w env \<Rightarrow> int \<times> 'w env) option"
  op_chmod :: "(string option \<Rightarrow> u32 \<Rightarrow> fuse_file_info option \<Rightarrow> 'w env \<Rightarrow> int \<times> 'w env) option"
  op_chown :: "(string option \<Rightarrow> u32 \<Rightarrow> u32 \<Rightarrow> fuse_file_info option \<Rightarrow> 'w env \<Rightarrow> int \<times> 'w env) option"
  op_truncate :: "(string option \<Rightarrow> int \<Rightarrow> fuse_file_info option \<Rightarrow> 'w env \<Rightarrow> int \<times> 'w env) option"
  op_open :: "(string option \<Rightarrow> fuse_file_info \<Rightarrow> 'w env \<Rightarrow> (int \<times> fuse_file_info) \<times> 'w env) option"
  op_read :: "(string option \<Rightarrow> nat \<Rightarrow> nat \<Rightarrow> int \<Rightarrow> fuse_file_info \<Rightarrow> 'w env \<Rightarrow> int \<times> 'w env) option"
  op_write :: "(string option \<Rightarrow> nat \<Rightarrow> nat \<Rightarrow> int \<Rightarrow> fuse_file_info \<Rightarrow> 'w env \<Rightarrow> int \<times> 'w env) option"
  op_statfs :: "(string option \<Rightarrow> statvfs \<Rightarrow> 'w env \<Rightarrow> (int \<times> statvfs) \<times> 'w env) option"
  op_flush :: "(string option \<Rightarrow> fuse_file_info \<Rightarrow> 'w env \<Rightarrow> int \<times> 'w env) option"
  op_release :: "(string option \<Rightarrow> fuse_file_info \<Rightarrow> 'w env \<Rightarrow> int \<times> 'w env) option"
  op_fsync :: "(string option \<Rightarrow> bool \<Rightarrow> fuse_file_info \<Rightarrow> 'w env \<Rightarrow> int \<times> 'w env) option"
  op_setxattr :: "(string option \<Rightarrow> string \<Rightarrow> byte list \<Rightarrow> u32 \<Rightarrow> 'w env \<Rightarrow> int \<times> 'w env) option"
  op_getxattr :: "(string option \<Rightarrow> string \<Rightarrow> nat \<Rightarrow> 'w env \<Rightarrow> (int \<times> byte list) \<times> 'w env) option"
  op_listxattr :: "(string option \<Rightarrow> nat \<Rightarrow> 'w env \<Rightarrow> (int \<times> byte list) \<times> 'w env) option"
  op_removexattr :: "(string option \<Rightarrow> string \<Rightarrow> 'w env \<Rightarrow> int \<times> 'w env) option"
  op_opendir :: "(string option \<Rightarrow> fuse_file_info \<Rightarrow> 'w env \<Rightarrow> (int \<times> fuse_file_info) \<times> 'w env) option"
  op_readdir :: "(string option \<Rightarrow> int \<Rightarrow> fuse_file_info \<Rightarrow> u32 \<Rightarrow> 'w env \<Rightarrow> 'w fill_prog) option"
  op_releasedir :: "(string option \<Rightarrow> fuse_file_info \<Rightarrow> 'w env \<Rightarrow> int \<times> 'w env) option"
  op_fsyncdir :: "(string option \<Rightarrow> bool \<Rightarrow> fuse_file_info \<Rightarrow> 'w env \<Rightarrow> int \<times> 'w env) option"
  op_destroy :: "(nat \<Rightarrow> 'w env \<Rightarrow> unit \<times> 'w env) option"
  op_access :: "(string option \<Rightarrow> u32 \<Rightarrow> 'w env \<Rightarrow> int \<times> 'w env) option"
  op_create :: "(string option \<Rightarrow> u32 \<Rightarrow> fuse_file_info \<Rightarrow> 'w env \<Rightarrow> (int \<times> fuse_file_info) \<times> 'w env) option"
  op_lock :: "(string option \<Rightarrow> fuse_file_info \<Rightarrow> lock_cmd \<Rightarrow> flock \<Rightarrow> 'w env \<Rightarrow> (int \<times> flock) \<times> 'w env) option"
  op_utimens :: "(string option \<Rightarrow> timespec \<Rightarrow> timespec \<Rightarrow> fuse_file_info option \<Rightarrow> 'w env \<Rightarrow> int \<times> 'w env) option"
  op_bmap :: "(string option \<Rightarrow> nat \<Rightarrow> u64 \<Rightarrow> 'w env \<Rightarrow> (int \<times> u64) \<times> 'w env) option"
  op_ioctl :: "(string option \<Rightarrow> u32 \<Rightarrow> u64 \<Rightarrow> fuse_file_info \<Rightarrow> u32 \<Rightarrow> byte list \<Rightarrow> 'w env \<Rightarrow> (int \<times> byte list) \<times> 'w env) option"
  op_poll :: "(string option \<Rightarrow> fuse_file_info \<Rightarrow> nat option \<Rightarrow> u32 \<Rightarrow> 'w env \<Rightarrow> (int \<times> u32) \<times> 'w env) option"
  op_write_buf :: "(string option \<Rightarrow> fuse_bufvec \<Rightarrow> int \<Rightarrow> fuse_file_info \<Rightarrow> 'w env \<Rightarrow> (int \<times> 'w env) option) option"
  op_read_buf :: "(string option \<Rightarrow> nat \<Rightarrow> int \<Rightarrow> fuse_file_info \<Rightarrow> 'w env \<Rightarrow> ((int \<times> fuse_bufvec option) \<times> 'w env) option) option"
  op_flock :: "(string option \<Rightarrow> fuse_file_info \<Rightarrow> u32 \<Rightarrow> 'w env \<Rightarrow> int \<times> 'w env) option"
  op_fallocate :: "(string option \<Rightarrow> u32 \<Rightarrow> int \<Rightarrow> int \<Rightarrow> fuse_file_info \<Rightarrow> 'w env \<Rightarrow> int \<times> 'w env) option"
  op_copy_file_range :: "(string option \<Rightarrow> fuse_file_info \<Rightarrow> int \<Rightarrow> string option \<Rightarrow> fuse_file_info \<Rightarrow> int \<Rightarrow> nat \<Rightarrow> u32 \<Rightarrow>
      'w env \<Rightarrow> int \<times> 'w env) option"
  op_lseek :: "(string option \<Rightarrow> int \<Rightarrow> u32 \<Rightarrow> fuse_file_info \<Rightarrow> 'w env \<Rightarrow> int \<times> 'w env) option"
  op_statx :: "(string option \<Rightarrow> u32 \<Rightarrow> u32 \<Rightarrow> statx \<Rightarrow> fuse_file_info option \<Rightarrow> 'w env \<Rightarrow> (int \<times> statx) \<times> 'w env) option"

text \<open>A file system with no operation, and system calls that always fail.\<close>

definition no_ops :: "'w fuse_operations" where
  "no_ops = \<lparr>op_getattr = None, op_readlink = None, op_mknod = None, op_mkdir = None, op_unlink = None, op_rmdir = None,
     op_symlink = None, op_rename = None, op_link = None, op_chmod = None, op_chown = None, op_truncate = None,
     op_open = None, op_read = None, op_write = None, op_statfs = None, op_flush = None, op_release = None,
     op_fsync = None, op_setxattr = None, op_getxattr = None, op_listxattr = None, op_removexattr = None,
     op_opendir = None, op_readdir = None, op_releasedir = None, op_fsyncdir = None, op_destroy = None,
     op_access = None, op_create = None, op_lock = None, op_utimens = None, op_bmap = None, op_ioctl = None,
     op_poll = None, op_write_buf = None, op_read_buf = None, op_flock = None, op_fallocate = None,
     op_copy_file_range = None, op_lseek = None, op_statx = None\<rparr>"

definition demo_sys :: "'w sys" where
  "demo_sys = \<lparr>sys_write = (\<lambda>_ _ _ w. (Inl EIO, w)), sys_read = (\<lambda>_ _ _ w. (Inl EIO, w)),
     sys_splice = (\<lambda>_ _ _ _ _ _ _ w. (Inl EIO, w))\<rparr>"

text \<open>\<open>struct fuse_fs\<close>, with the system calls that the library itself makes on data buffers.\<close>

record 'w fuse_fs =
  fs_op :: "'w fuse_operations"
  user_data :: nat
  fs_sys :: "'w sys"

section \<open>Calling an operation\<close>

text \<open>
  Every function starts with \<open>fuse_get_context()->private_data = fs->user_data\<close> and returns a
  default when the operation is missing.
\<close>

definition enter_fs :: "'w fuse_fs \<Rightarrow> 'w env \<Rightarrow> 'w env" where
  "enter_fs fs e = e\<lparr>e_ctx := (e_ctx e)\<lparr>private_data := user_data fs\<rparr>\<rparr>"

definition call_op :: "'w fuse_fs \<Rightarrow> 'f option \<Rightarrow> 'r \<Rightarrow> ('f \<Rightarrow> 'w env \<Rightarrow> 'r \<times> 'w env) \<Rightarrow> 'w env \<Rightarrow> 'r \<times> 'w env" where
  "call_op fs op dflt call e = (case op of None \<Rightarrow> (dflt, enter_fs fs e) | Some h \<Rightarrow> call h (enter_fs fs e))"

definition fuse_fs_getattr :: "'w fuse_fs \<Rightarrow> string option \<Rightarrow> stat \<Rightarrow> fuse_file_info option \<Rightarrow> 'w env \<Rightarrow> (int \<times> stat) \<times> 'w env" where
  "fuse_fs_getattr fs path buf fi = call_op fs (op_getattr (fs_op fs)) (- ENOSYS, buf) (\<lambda>h. h path buf fi)"

definition fuse_fs_rename :: "'w fuse_fs \<Rightarrow> string option \<Rightarrow> string option \<Rightarrow> u32 \<Rightarrow> 'w env \<Rightarrow> int \<times> 'w env" where
  "fuse_fs_rename fs oldpath newpath flags = call_op fs (op_rename (fs_op fs)) (- ENOSYS) (\<lambda>h. h oldpath newpath flags)"

definition fuse_fs_unlink :: "'w fuse_fs \<Rightarrow> string option \<Rightarrow> 'w env \<Rightarrow> int \<times> 'w env" where
  "fuse_fs_unlink fs path = call_op fs (op_unlink (fs_op fs)) (- ENOSYS) (\<lambda>h. h path)"

definition fuse_fs_rmdir :: "'w fuse_fs \<Rightarrow> string option \<Rightarrow> 'w env \<Rightarrow> int \<times> 'w env" where
  "fuse_fs_rmdir fs path = call_op fs (op_rmdir (fs_op fs)) (- ENOSYS) (\<lambda>h. h path)"

definition fuse_fs_symlink :: "'w fuse_fs \<Rightarrow> string \<Rightarrow> string option \<Rightarrow> 'w env \<Rightarrow> int \<times> 'w env" where
  "fuse_fs_symlink fs linkname path = call_op fs (op_symlink (fs_op fs)) (- ENOSYS) (\<lambda>h. h linkname path)"

definition fuse_fs_link :: "'w fuse_fs \<Rightarrow> string option \<Rightarrow> string option \<Rightarrow> 'w env \<Rightarrow> int \<times> 'w env" where
  "fuse_fs_link fs oldpath newpath = call_op fs (op_link (fs_op fs)) (- ENOSYS) (\<lambda>h. h oldpath newpath)"

definition fuse_fs_release :: "'w fuse_fs \<Rightarrow> string option \<Rightarrow> fuse_file_info \<Rightarrow> 'w env \<Rightarrow> int \<times> 'w env" where
  "fuse_fs_release fs path fi = call_op fs (op_release (fs_op fs)) 0 (\<lambda>h. h path fi)"

definition fuse_fs_opendir :: "'w fuse_fs \<Rightarrow> string option \<Rightarrow> fuse_file_info \<Rightarrow> 'w env \<Rightarrow> (int \<times> fuse_file_info) \<times> 'w env" where
  "fuse_fs_opendir fs path fi = call_op fs (op_opendir (fs_op fs)) (0, fi) (\<lambda>h. h path fi)"

definition fuse_fs_open :: "'w fuse_fs \<Rightarrow> string option \<Rightarrow> fuse_file_info \<Rightarrow> 'w env \<Rightarrow> (int \<times> fuse_file_info) \<times> 'w env" where
  "fuse_fs_open fs path fi = call_op fs (op_open (fs_op fs)) (0, fi) (\<lambda>h. h path fi)"

text \<open>\<open>FUSE_BUFVEC_INIT(size)\<close> with its memory set.\<close>

definition one_buf :: "nat \<Rightarrow> nat \<Rightarrow> fuse_bufvec" where
  "one_buf mem n = \<lparr>bv_idx = 0, bv_off = 0,
     bv_bufs = [\<lparr>b_size = n, b_is_fd = False, b_fd_seek = False, b_fd_retry = False, b_mem = mem, b_fd = -1, b_pos = 0\<rparr>]\<rparr>"

text \<open>
  Freeing memory has no effect on the model's byte array. \<open>None\<close> is the null dereference of
  \<open>fuse_buf_size(*bufp)\<close> when \<open>read_buf\<close> reports success without a buffer.
\<close>

definition fuse_fs_read_buf ::
  "'w fuse_fs \<Rightarrow> string option \<Rightarrow> nat \<Rightarrow> int \<Rightarrow> fuse_file_info \<Rightarrow> 'w env \<Rightarrow> ((int \<times> fuse_bufvec option) \<times> 'w env) option" where
  "fuse_fs_read_buf fs path sz off fi e0 =
     (let e = enter_fs fs e0;
          finish = (\<lambda>res buf e'. if res \<ge> 0 \<and> buf = None then None else Some ((if res < 0 then res else 0, buf), e'))
      in case (op_read_buf (fs_op fs), op_read (fs_op fs)) of
           (Some h, _) \<Rightarrow> do { ((res, buf), e1) \<leftarrow> h path sz off fi e; finish res buf e1 }
         | (None, None) \<Rightarrow> Some ((- ENOSYS, None), e)
         | (None, Some h) \<Rightarrow>
             (case alloc_pop (e_allocs e) of
                (False, t) \<Rightarrow> Some ((- ENOMEM, None), e\<lparr>e_allocs := t\<rparr>)
              | (True, t) \<Rightarrow>
                  (case mem_alloc sz (e\<lparr>e_allocs := t\<rparr>) of
                     (None, e1) \<Rightarrow> Some ((- ENOMEM, None), e1)
                   | (Some mem, e1) \<Rightarrow>
                       (case h path mem sz off fi e1 of (res, e2) \<Rightarrow>
                          finish res (Some (one_buf mem (if res \<ge> 0 then nat res else sz))) e2))))"

text \<open>A copy between buffer vectors on the memory and the files of the environment.\<close>

definition env_copy ::
  "'w fuse_fs \<Rightarrow> fuse_bufvec \<Rightarrow> fuse_bufvec \<Rightarrow> 'w env \<Rightarrow> (int \<times> 'w env) option" where
  "env_copy fs dst src e =
     map_option (\<lambda>((res, _, _), (m, w)). (res, e\<lparr>e_mem := m, e_world := w\<rparr>))
       (fuse_buf_copy (fs_sys fs) 0
          \<lparr>cf_no_splice = False, cf_force_splice = False, cf_splice_move = False, cf_splice_nonblock = False\<rparr>
          dst src (e_mem e, e_world e))"

definition fuse_fs_read ::
  "'w fuse_fs \<Rightarrow> string option \<Rightarrow> nat \<Rightarrow> nat \<Rightarrow> int \<Rightarrow> fuse_file_info \<Rightarrow> 'w env \<Rightarrow> (int \<times> 'w env) option" where
  "fuse_fs_read fs path mem sz off fi e0 =
     (let e = enter_fs fs e0
      in case (op_read_buf (fs_op fs), op_read (fs_op fs)) of
           (Some h, _) \<Rightarrow>
             do { ((res, buf), e1) \<leftarrow> h path sz off fi e;
               if res = 0 then (case buf of None \<Rightarrow> None | Some src \<Rightarrow> env_copy fs (one_buf mem sz) src e1)
               else Some (res, e1) }
         | (None, Some h) \<Rightarrow> Some (h path mem sz off fi e)
         | (None, None) \<Rightarrow> Some (- ENOSYS, e))"

text \<open>
  The write path: \<open>write_buf\<close> if there is one, otherwise \<open>write\<close> on a flat buffer, which is the
  only memory buffer of the vector or a copy of the whole vector.
\<close>

definition fuse_fs_write_buf ::
  "'w fuse_fs \<Rightarrow> string option \<Rightarrow> fuse_bufvec \<Rightarrow> int \<Rightarrow> fuse_file_info \<Rightarrow> 'w env \<Rightarrow> (int \<times> 'w env) option" where
  "fuse_fs_write_buf fs path buf off fi e0 =
     (let e = enter_fs fs e0; sz = fuse_buf_size buf
      in if op_write_buf (fs_op fs) = None \<and> op_write (fs_op fs) = None then Some (- ENOSYS, e)
         else if \<not> (bv_idx buf = 0 \<and> bv_off buf = 0) then None
         else case op_write_buf (fs_op fs) of
                Some h \<Rightarrow> h path buf off fi e
              | None \<Rightarrow>
                  (case op_write (fs_op fs) of
                     None \<Rightarrow> None
                   | Some h \<Rightarrow>
                       (case bv_bufs buf of
                          [b] \<Rightarrow>
                            if \<not> b_is_fd b then Some (h path (b_mem b) (b_size b) off fi e)
                            else (case mem_alloc sz e of
                                    (None, e1) \<Rightarrow> Some (- ENOMEM, e1)
                                  | (Some mem, e1) \<Rightarrow> do {
                                      (res, e2) \<leftarrow> env_copy fs (one_buf mem sz) buf e1;
                                      Some (if res \<le> 0 then (res, e2) else h path mem (nat res) off fi e2) })
                        | _ \<Rightarrow>
                            (case mem_alloc sz e of
                               (None, e1) \<Rightarrow> Some (- ENOMEM, e1)
                             | (Some mem, e1) \<Rightarrow> do {
                                 (res, e2) \<leftarrow> env_copy fs (one_buf mem sz) buf e1;
                                 Some (if res \<le> 0 then (res, e2) else h path mem (nat res) off fi e2) }))))"

definition fuse_fs_write ::
  "'w fuse_fs \<Rightarrow> string option \<Rightarrow> nat \<Rightarrow> nat \<Rightarrow> int \<Rightarrow> fuse_file_info \<Rightarrow> 'w env \<Rightarrow> (int \<times> 'w env) option" where
  "fuse_fs_write fs path mem sz off fi = fuse_fs_write_buf fs path (one_buf mem sz) off fi"

definition fuse_fs_fsync :: "'w fuse_fs \<Rightarrow> string option \<Rightarrow> bool \<Rightarrow> fuse_file_info \<Rightarrow> 'w env \<Rightarrow> int \<times> 'w env" where
  "fuse_fs_fsync fs path datasync fi = call_op fs (op_fsync (fs_op fs)) (- ENOSYS) (\<lambda>h. h path datasync fi)"

definition fuse_fs_fsyncdir :: "'w fuse_fs \<Rightarrow> string option \<Rightarrow> bool \<Rightarrow> fuse_file_info \<Rightarrow> 'w env \<Rightarrow> int \<times> 'w env" where
  "fuse_fs_fsyncdir fs path datasync fi = call_op fs (op_fsyncdir (fs_op fs)) (- ENOSYS) (\<lambda>h. h path datasync fi)"

definition fuse_fs_flush :: "'w fuse_fs \<Rightarrow> string option \<Rightarrow> fuse_file_info \<Rightarrow> 'w env \<Rightarrow> int \<times> 'w env" where
  "fuse_fs_flush fs path fi = call_op fs (op_flush (fs_op fs)) (- ENOSYS) (\<lambda>h. h path fi)"

definition fuse_fs_statfs :: "'w fuse_fs \<Rightarrow> string option \<Rightarrow> statvfs \<Rightarrow> 'w env \<Rightarrow> (int \<times> statvfs) \<times> 'w env" where
  "fuse_fs_statfs fs path buf =
     call_op fs (op_statfs (fs_op fs)) (0, buf\<lparr>f_namemax := 255, f_bsize := 512\<rparr>) (\<lambda>h. h path buf)"

definition fuse_fs_releasedir :: "'w fuse_fs \<Rightarrow> string option \<Rightarrow> fuse_file_info \<Rightarrow> 'w env \<Rightarrow> int \<times> 'w env" where
  "fuse_fs_releasedir fs path fi = call_op fs (op_releasedir (fs_op fs)) 0 (\<lambda>h. h path fi)"

definition fuse_fs_readdir :: "'w fuse_fs \<Rightarrow> string option \<Rightarrow> int \<Rightarrow> fuse_file_info \<Rightarrow> u32 \<Rightarrow> 'w env \<Rightarrow> 'w fill_prog" where
  "fuse_fs_readdir fs path off fi flags e =
     (case op_readdir (fs_op fs) of None \<Rightarrow> FillEnd (- ENOSYS) (enter_fs fs e) | Some h \<Rightarrow> h path off fi flags (enter_fs fs e))"

definition fuse_fs_create :: "'w fuse_fs \<Rightarrow> string option \<Rightarrow> u32 \<Rightarrow> fuse_file_info \<Rightarrow> 'w env \<Rightarrow> (int \<times> fuse_file_info) \<times> 'w env" where
  "fuse_fs_create fs path mode fi = call_op fs (op_create (fs_op fs)) (- ENOSYS, fi) (\<lambda>h. h path mode fi)"

definition fuse_fs_lock :: "'w fuse_fs \<Rightarrow> string option \<Rightarrow> fuse_file_info \<Rightarrow> lock_cmd \<Rightarrow> flock \<Rightarrow> 'w env \<Rightarrow> (int \<times> flock) \<times> 'w env" where
  "fuse_fs_lock fs path fi cmd lk = call_op fs (op_lock (fs_op fs)) (- ENOSYS, lk) (\<lambda>h. h path fi cmd lk)"

definition fuse_fs_flock :: "'w fuse_fs \<Rightarrow> string option \<Rightarrow> fuse_file_info \<Rightarrow> u32 \<Rightarrow> 'w env \<Rightarrow> int \<times> 'w env" where
  "fuse_fs_flock fs path fi lop = call_op fs (op_flock (fs_op fs)) (- ENOSYS) (\<lambda>h. h path fi lop)"

definition fuse_fs_chown :: "'w fuse_fs \<Rightarrow> string option \<Rightarrow> u32 \<Rightarrow> u32 \<Rightarrow> fuse_file_info option \<Rightarrow> 'w env \<Rightarrow> int \<times> 'w env" where
  "fuse_fs_chown fs path uid gid fi = call_op fs (op_chown (fs_op fs)) (- ENOSYS) (\<lambda>h. h path uid gid fi)"

definition fuse_fs_truncate :: "'w fuse_fs \<Rightarrow> string option \<Rightarrow> int \<Rightarrow> fuse_file_info option \<Rightarrow> 'w env \<Rightarrow> int \<times> 'w env" where
  "fuse_fs_truncate fs path sz fi = call_op fs (op_truncate (fs_op fs)) (- ENOSYS) (\<lambda>h. h path sz fi)"

definition fuse_fs_utimens ::
  "'w fuse_fs \<Rightarrow> string option \<Rightarrow> timespec \<Rightarrow> timespec \<Rightarrow> fuse_file_info option \<Rightarrow> 'w env \<Rightarrow> int \<times> 'w env" where
  "fuse_fs_utimens fs path atime mt fi = call_op fs (op_utimens (fs_op fs)) (- ENOSYS) (\<lambda>h. h path atime mt fi)"

definition fuse_fs_access :: "'w fuse_fs \<Rightarrow> string option \<Rightarrow> u32 \<Rightarrow> 'w env \<Rightarrow> int \<times> 'w env" where
  "fuse_fs_access fs path msk = call_op fs (op_access (fs_op fs)) (- ENOSYS) (\<lambda>h. h path msk)"

definition fuse_fs_readlink :: "'w fuse_fs \<Rightarrow> string option \<Rightarrow> nat \<Rightarrow> 'w env \<Rightarrow> (int \<times> string) \<times> 'w env" where
  "fuse_fs_readlink fs path len = call_op fs (op_readlink (fs_op fs)) (- ENOSYS, []) (\<lambda>h. h path len)"

definition fuse_fs_mknod :: "'w fuse_fs \<Rightarrow> string option \<Rightarrow> u32 \<Rightarrow> u64 \<Rightarrow> 'w env \<Rightarrow> int \<times> 'w env" where
  "fuse_fs_mknod fs path mode rdev = call_op fs (op_mknod (fs_op fs)) (- ENOSYS) (\<lambda>h. h path mode rdev)"

definition fuse_fs_mkdir :: "'w fuse_fs \<Rightarrow> string option \<Rightarrow> u32 \<Rightarrow> 'w env \<Rightarrow> int \<times> 'w env" where
  "fuse_fs_mkdir fs path mode = call_op fs (op_mkdir (fs_op fs)) (- ENOSYS) (\<lambda>h. h path mode)"

definition fuse_fs_setxattr :: "'w fuse_fs \<Rightarrow> string option \<Rightarrow> string \<Rightarrow> byte list \<Rightarrow> u32 \<Rightarrow> 'w env \<Rightarrow> int \<times> 'w env" where
  "fuse_fs_setxattr fs path name val flags = call_op fs (op_setxattr (fs_op fs)) (- ENOSYS) (\<lambda>h. h path name val flags)"

definition fuse_fs_getxattr :: "'w fuse_fs \<Rightarrow> string option \<Rightarrow> string \<Rightarrow> nat \<Rightarrow> 'w env \<Rightarrow> (int \<times> byte list) \<times> 'w env" where
  "fuse_fs_getxattr fs path name sz = call_op fs (op_getxattr (fs_op fs)) (- ENOSYS, []) (\<lambda>h. h path name sz)"

definition fuse_fs_listxattr :: "'w fuse_fs \<Rightarrow> string option \<Rightarrow> nat \<Rightarrow> 'w env \<Rightarrow> (int \<times> byte list) \<times> 'w env" where
  "fuse_fs_listxattr fs path sz = call_op fs (op_listxattr (fs_op fs)) (- ENOSYS, []) (\<lambda>h. h path sz)"

definition fuse_fs_bmap :: "'w fuse_fs \<Rightarrow> string option \<Rightarrow> nat \<Rightarrow> u64 \<Rightarrow> 'w env \<Rightarrow> (int \<times> u64) \<times> 'w env" where
  "fuse_fs_bmap fs path bs idx = call_op fs (op_bmap (fs_op fs)) (- ENOSYS, idx) (\<lambda>h. h path bs idx)"

definition fuse_fs_removexattr :: "'w fuse_fs \<Rightarrow> string option \<Rightarrow> string \<Rightarrow> 'w env \<Rightarrow> int \<times> 'w env" where
  "fuse_fs_removexattr fs path name = call_op fs (op_removexattr (fs_op fs)) (- ENOSYS) (\<lambda>h. h path name)"

definition fuse_fs_ioctl ::
  "'w fuse_fs \<Rightarrow> string option \<Rightarrow> u32 \<Rightarrow> u64 \<Rightarrow> fuse_file_info \<Rightarrow> u32 \<Rightarrow> byte list \<Rightarrow> 'w env \<Rightarrow> (int \<times> byte list) \<times> 'w env" where
  "fuse_fs_ioctl fs path cmd arg fi flags data = call_op fs (op_ioctl (fs_op fs)) (- ENOSYS, data) (\<lambda>h. h path cmd arg fi flags data)"

definition fuse_fs_poll ::
  "'w fuse_fs \<Rightarrow> string option \<Rightarrow> fuse_file_info \<Rightarrow> nat option \<Rightarrow> u32 \<Rightarrow> 'w env \<Rightarrow> (int \<times> u32) \<times> 'w env" where
  "fuse_fs_poll fs path fi ph revents = call_op fs (op_poll (fs_op fs)) (- ENOSYS, revents) (\<lambda>h. h path fi ph revents)"

definition fuse_fs_fallocate ::
  "'w fuse_fs \<Rightarrow> string option \<Rightarrow> u32 \<Rightarrow> int \<Rightarrow> int \<Rightarrow> fuse_file_info \<Rightarrow> 'w env \<Rightarrow> int \<times> 'w env" where
  "fuse_fs_fallocate fs path mode off len fi = call_op fs (op_fallocate (fs_op fs)) (- ENOSYS) (\<lambda>h. h path mode off len fi)"

definition fuse_fs_copy_file_range ::
  "'w fuse_fs \<Rightarrow> string option \<Rightarrow> fuse_file_info \<Rightarrow> int \<Rightarrow> string option \<Rightarrow> fuse_file_info \<Rightarrow> int \<Rightarrow> nat \<Rightarrow> u32 \<Rightarrow>
   'w env \<Rightarrow> int \<times> 'w env" where
  "fuse_fs_copy_file_range fs path_in fi_in off_in path_out fi_out off_out len flags =
     call_op fs (op_copy_file_range (fs_op fs)) (- ENOSYS)
       (\<lambda>h. h path_in fi_in off_in path_out fi_out off_out len flags)"

definition fuse_fs_lseek :: "'w fuse_fs \<Rightarrow> string option \<Rightarrow> int \<Rightarrow> u32 \<Rightarrow> fuse_file_info \<Rightarrow> 'w env \<Rightarrow> int \<times> 'w env" where
  "fuse_fs_lseek fs path off whence fi = call_op fs (op_lseek (fs_op fs)) (- ENOSYS) (\<lambda>h. h path off whence fi)"

definition fuse_fs_statx ::
  "'w fuse_fs \<Rightarrow> string option \<Rightarrow> u32 \<Rightarrow> u32 \<Rightarrow> statx \<Rightarrow> fuse_file_info option \<Rightarrow> 'w env \<Rightarrow> (int \<times> statx) \<times> 'w env" where
  "fuse_fs_statx fs path flags msk stx fi = call_op fs (op_statx (fs_op fs)) (- ENOSYS, stx) (\<lambda>h. h path flags msk stx fi)"

definition fuse_fs_chmod :: "'w fuse_fs \<Rightarrow> string option \<Rightarrow> u32 \<Rightarrow> fuse_file_info option \<Rightarrow> 'w env \<Rightarrow> int \<times> 'w env" where
  "fuse_fs_chmod fs path mode fi = call_op fs (op_chmod (fs_op fs)) (- ENOSYS) (\<lambda>h. h path mode fi)"

definition fuse_fs_destroy :: "'w fuse_fs \<Rightarrow> 'w env \<Rightarrow> unit \<times> 'w env" where
  "fuse_fs_destroy fs = call_op fs (op_destroy (fs_op fs)) () (\<lambda>h. h (user_data fs))"

end
