(* ===== verification/Fuse_Lib.thy ===== *)
theory Fuse_Lib
  imports Fuse_Ops
begin

text \<open>
  The request handlers \<open>fuse_lib_*\<close> of \<open>lib/fuse.c\<close>: each takes the path lock of the node it is
  about, calls the file system through \<open>fuse_fs_*\<close>, updates the node store, releases the lock
  and answers the request.

  The state \<open>'w lib\<close> holds the node store, the file system, its environment and the log of
  replies with the request each answers; \<open>l_rets\<close> is the tape of what \<open>fuse_reply_*\<close> returns
  (\<open>-ENOENT\<close> means that the system call was interrupted; 0 when the tape is exhausted). A
  handler runs until it returns or has to wait for a lock (\<open>Waiting\<close>, \<open>WaitForget\<close>, which hold
  the rest of the handler); the file system's callbacks run without another request in between.
  Interrupt bookkeeping (\<open>fuse_prepare_interrupt\<close>, \<open>fuse_finish_interrupt\<close>: a signal for the
  thread) and debug output are left out.
\<close>

section \<open>State\<close>

record fuse_entry_param =
  e_ino :: fuse_ino
  e_generation :: u64
  e_attr :: stat
  e_attr_timeout :: int
  e_entry_timeout :: int

definition zero_entry :: fuse_entry_param where
  "zero_entry = \<lparr>e_ino = 0, e_generation = 0, e_attr = zero_stat, e_attr_timeout = 0, e_entry_timeout = 0\<rparr>"

record request =
  r_id :: nat
  r_uid :: u32
  r_gid :: u32
  r_pid :: int
  r_umask :: u32

text \<open>The argument of \<open>fuse_reply_err\<close> is a positive errno or 0.\<close>

datatype reply =
    ReplyErr int
  | ReplyNone
  | ReplyEntry fuse_entry_param
  | ReplyCreate fuse_entry_param fuse_file_info
  | ReplyAttr stat int
  | ReplyStatx statx int
  | ReplyReadlink string
  | ReplyOpen fuse_file_info
  | ReplyWrite int
  | ReplyBuf "byte list"
  | ReplyData fuse_bufvec
  | ReplyStatfs statvfs
  | ReplyXattr int
  | ReplyLock flock
  | ReplyBmap u64
  | ReplyIoctl int "byte list"
  | ReplyPoll u32
  | ReplyLseek int

text \<open>
  \<open>struct fuse_direntry\<close> and \<open>struct fuse_dh\<close>, the handle of an open directory. The linked
  list of entries is a list; \<open>contents\<close> is the written part of the buffer.
\<close>

record fuse_direntry =
  de_stat :: stat
  de_flags :: u32
  de_name :: string

record fuse_dh =
  dh_contents :: "byte list"
  dh_first :: "fuse_direntry list"
  dh_size :: nat
  dh_needlen :: nat
  dh_filled :: bool
  dh_fh :: u64
  dh_error :: int
  dh_nodeid :: fuse_ino

definition dh_len :: "fuse_dh \<Rightarrow> nat" where
  "dh_len dh = length (dh_contents dh)"

record 'w lib =
  l_f :: fuse
  l_fs :: "'w fuse_fs"
  l_env :: "'w env"
  l_log :: "(nat \<times> reply) list"
  l_rets :: "int list"
  l_has_ctx :: bool
  l_dhs :: "u64 \<rightharpoonup> fuse_dh"
  l_next_dh :: u64

datatype 'w outcome =
    Finished "'w lib"
  | Waiting "'w lib" "int \<Rightarrow> path2_out \<Rightarrow> 'w lib \<Rightarrow> 'w outcome option"
  | WaitForget "'w lib" "'w lib \<Rightarrow> 'w outcome option"

definition ST_IFMT :: u32 where "ST_IFMT = 0xf000"

definition S_ISDIR :: "u32 \<Rightarrow> bool" where "S_ISDIR mode \<longleftrightarrow> mode AND ST_IFMT = 0x4000"

definition S_ISREG :: "u32 \<Rightarrow> bool" where "S_ISREG mode \<longleftrightarrow> mode AND ST_IFMT = 0x8000"

section \<open>Attributes\<close>

definition masked_mode :: "fuse_config \<Rightarrow> u32 \<Rightarrow> u32" where
  "masked_mode c mode =
     (if \<not> set_mode c then mode
      else let m = (if c_dmask c \<noteq> 0 \<and> S_ISDIR mode then c_dmask c else if c_fmask c \<noteq> 0 then c_fmask c else c_umask c)
           in (mode AND ST_IFMT) OR (0x1ff AND NOT m))"

definition set_stat :: "fuse \<Rightarrow> fuse_ino \<Rightarrow> stat \<Rightarrow> stat" where
  "set_stat f ino st =
     (let c = conf f
      in st\<lparr>st_ino := (if use_ino c then st_ino st else ino),
            st_mode := masked_mode c (st_mode st),
            st_uid := (if set_uid c then c_uid c else st_uid st),
            st_gid := (if set_gid c then c_gid c else st_gid st)\<rparr>)"

definition set_statx :: "fuse \<Rightarrow> fuse_ino \<Rightarrow> statx \<Rightarrow> statx" where
  "set_statx f ino st =
     (let c = conf f
      in st\<lparr>stx_ino := (if use_ino c then stx_ino st else ino),
            stx_mode := masked_mode c (stx_mode st),
            stx_uid := (if set_uid c then c_uid c else stx_uid st),
            stx_gid := (if set_gid c then c_gid c else stx_gid st)\<rparr>)"

definition mtime_eq :: "stat \<Rightarrow> timespec \<Rightarrow> bool" where
  "mtime_eq st ts \<longleftrightarrow> fst (st_mtim st) = fst ts \<and> snd (st_mtim st) = snd ts"

definition update_stat :: "fuse \<Rightarrow> ptr \<Rightarrow> stat \<Rightarrow> fuse option" where
  "update_stat f p st = do {
     n \<leftarrow> nodes f p;
     let valid = (cache_valid n \<and> mtime_eq st (mtime n) \<and> st_size st = n_size n);
     let (now, f1) = curr_time f;
     Some (put_node p (n\<lparr>cache_valid := valid, mtime := st_mtim st, n_size := st_size st, stat_updated := now\<rparr>) f1) }"

section \<open>Context, replies and locks\<close>

definition fuse_create_context :: "'w lib \<Rightarrow> 'w lib option" where
  "fuse_create_context L =
     (let fresh = \<lparr>ctx_uid = 0, ctx_gid = 0, ctx_pid = 0, ctx_umask = 0, private_data = 0\<rparr>; e = l_env L
      in if l_has_ctx L then Some (L\<lparr>l_env := e\<lparr>e_ctx := fresh\<rparr>\<rparr>)
         else case alloc_pop (e_allocs e) of
                (False, _) \<Rightarrow> None
              | (True, t) \<Rightarrow> Some (L\<lparr>l_has_ctx := True, l_env := e\<lparr>e_allocs := t, e_ctx := fresh\<rparr>\<rparr>))"

definition req_fuse_prepare :: "request \<Rightarrow> 'w lib \<Rightarrow> 'w lib option" where
  "req_fuse_prepare req L = do {
     L1 \<leftarrow> fuse_create_context L;
     let e = l_env L1;
     Some (L1\<lparr>l_env := e\<lparr>e_ctx := (e_ctx e)\<lparr>ctx_uid := r_uid req, ctx_gid := r_gid req, ctx_pid := r_pid req,
                 ctx_umask := r_umask req\<rparr>\<rparr>\<rparr>) }"

fun ret_pop :: "int list \<Rightarrow> int \<times> int list" where
  "ret_pop [] = (0, [])"
| "ret_pop (r # rs) = (r, rs)"

definition send :: "request \<Rightarrow> reply \<Rightarrow> 'w lib \<Rightarrow> int \<times> 'w lib" where
  "send req r L = (case ret_pop (l_rets L) of (ret, rs) \<Rightarrow> (ret, L\<lparr>l_log := l_log L @ [(r_id req, r)], l_rets := rs\<rparr>))"

definition reply :: "request \<Rightarrow> reply \<Rightarrow> 'w lib \<Rightarrow> 'w outcome option" where
  "reply req r L = Some (Finished (snd (send req r L)))"

definition reply_err :: "request \<Rightarrow> int \<Rightarrow> 'w lib \<Rightarrow> 'w outcome option" where
  "reply_err req err L = reply req (ReplyErr (- err)) L"

definition with_fuse :: "'w lib \<Rightarrow> fuse option \<Rightarrow> ('w lib \<Rightarrow> 'r option) \<Rightarrow> 'r option" where
  "with_fuse L r k = (case r of None \<Rightarrow> None | Some f \<Rightarrow> k (L\<lparr>l_f := f\<rparr>))"

definition with_path ::
  "'w lib \<Rightarrow> (path_out \<times> fuse) option \<Rightarrow> (int \<Rightarrow> string option \<Rightarrow> ptr option \<Rightarrow> 'w lib \<Rightarrow> 'w outcome option) \<Rightarrow> 'w outcome option" where
  "with_path L r k = do {
     (out, f1) \<leftarrow> r;
     case out of
       PathDone err path w \<Rightarrow> k err path w (L\<lparr>l_f := f1\<rparr>)
     | PathWait \<Rightarrow> Some (Waiting (L\<lparr>l_f := f1\<rparr>) (\<lambda>err out. k err (o_path1 out) (o_node1 out))) }"

definition with_get_path ::
  "request \<Rightarrow> 'w lib \<Rightarrow> fuse_ino \<Rightarrow> (int \<Rightarrow> string option \<Rightarrow> 'w lib \<Rightarrow> 'w outcome option) \<Rightarrow> 'w outcome option" where
  "with_get_path req L ino k = with_path L (get_path (r_id req) (l_f L) ino) (\<lambda>err path _. k err path)"

definition with_get_path_nullok ::
  "request \<Rightarrow> 'w lib \<Rightarrow> fuse_ino \<Rightarrow> (int \<Rightarrow> string option \<Rightarrow> 'w lib \<Rightarrow> 'w outcome option) \<Rightarrow> 'w outcome option" where
  "with_get_path_nullok req L ino k =
     with_path L (get_path_nullok (r_id req) (l_f L) ino) (\<lambda>err path _. k (if err = - ESTALE then 0 else err) path)"

definition with_get_path_name ::
  "request \<Rightarrow> 'w lib \<Rightarrow> fuse_ino \<Rightarrow> string option \<Rightarrow> (int \<Rightarrow> string option \<Rightarrow> 'w lib \<Rightarrow> 'w outcome option) \<Rightarrow> 'w outcome option" where
  "with_get_path_name req L ino name k =
     with_path L (get_path_common (r_id req) (l_f L) ino name False) (\<lambda>err path _. k err path)"

definition with_get_path2 ::
  "request \<Rightarrow> 'w lib \<Rightarrow> fuse_ino \<Rightarrow> string option \<Rightarrow> fuse_ino \<Rightarrow> string option \<Rightarrow> bool \<Rightarrow>
   (int \<Rightarrow> path2_out \<Rightarrow> 'w lib \<Rightarrow> 'w outcome option) \<Rightarrow> 'w outcome option" where
  "with_get_path2 req L ino1 nm1 ino2 nm2 w k = do {
     (out, f1) \<leftarrow> get_path2 (r_id req) (l_f L) ino1 nm1 ino2 nm2 w w;
     case out of
       Some (err, o2) \<Rightarrow> k err o2 (L\<lparr>l_f := f1\<rparr>)
     | None \<Rightarrow> Some (Waiting (L\<lparr>l_f := f1\<rparr>) k) }"

text \<open>
  The middle part of most handlers, \<open>if (!err) { err = op; free_path(f, ino, path); }\<close>; \<open>out\<close> is
  the initial value of the output of the operation.
\<close>

definition path_call ::
  "'w lib \<Rightarrow> fuse_ino \<Rightarrow> string option \<Rightarrow> int \<Rightarrow> 'a \<Rightarrow> ('w env \<Rightarrow> (int \<times> 'a) \<times> 'w env) \<Rightarrow>
   (int \<Rightarrow> 'a \<Rightarrow> 'w lib \<Rightarrow> 'w outcome option) \<Rightarrow> 'w outcome option" where
  "path_call L ino path err out call k =
     (if err \<noteq> 0 then k err out L
      else case call (l_env L) of
             ((res, out1), e1) \<Rightarrow>
               with_fuse (L\<lparr>l_env := e1\<rparr>) (free_path (l_f L) ino path) (k res out1))"

text \<open>Operations without an output.\<close>

definition plain :: "('w env \<Rightarrow> int \<times> 'w env) \<Rightarrow> 'w env \<Rightarrow> (int \<times> unit) \<times> 'w env" where
  "plain call e = (case call e of (res, e1) \<Rightarrow> ((res, ()), e1))"

definition path_call_err ::
  "request \<Rightarrow> 'w lib \<Rightarrow> fuse_ino \<Rightarrow> string option \<Rightarrow> int \<Rightarrow> ('w env \<Rightarrow> int \<times> 'w env) \<Rightarrow> 'w outcome option" where
  "path_call_err req L ino path err call = path_call L ino path err () (plain call) (\<lambda>err _. reply_err req err)"

section \<open>Lookup\<close>

definition do_lookup :: "'w lib \<Rightarrow> fuse_ino \<Rightarrow> string option \<Rightarrow> fuse_entry_param \<Rightarrow> ((int \<times> fuse_entry_param) \<times> 'w lib) option" where
  "do_lookup L ino name e = do {
     (p_opt, f1) \<leftarrow> find_node (l_f L) ino name;
     case p_opt of
       None \<Rightarrow> Some ((- ENOMEM, e), L\<lparr>l_f := f1\<rparr>)
     | Some p \<Rightarrow> do {
         n \<leftarrow> nodes f1 p;
         let e1 = e\<lparr>e_ino := nodeid n, e_generation := ucast (n_generation n),
                    e_entry_timeout := entry_timeout (conf f1), e_attr_timeout := attr_timeout (conf f1)\<rparr>;
         f2 \<leftarrow> (if auto_cache (conf f1) then update_stat f1 p (e_attr e1) else Some f1);
         Some ((0, e1\<lparr>e_attr := set_stat f2 (e_ino e1) (e_attr e1)\<rparr>), L\<lparr>l_f := f2\<rparr>) } }"

definition lookup_path ::
  "'w lib \<Rightarrow> fuse_ino \<Rightarrow> string option \<Rightarrow> string option \<Rightarrow> fuse_file_info option \<Rightarrow> ((int \<times> fuse_entry_param) \<times> 'w lib) option" where
  "lookup_path L ino name path fi =
     (case fuse_fs_getattr (l_fs L) path (e_attr zero_entry) fi (l_env L) of
        ((res, st), e1) \<Rightarrow>
          (let L1 = L\<lparr>l_env := e1\<rparr>; e = zero_entry\<lparr>e_attr := st\<rparr>
           in if res = 0 then do_lookup L1 ino name e else Some ((res, e), L1)))"

text \<open>\<open>forget_node\<close> may have to wait; \<open>k\<close> is what follows it.\<close>

definition forget_k :: "request \<Rightarrow> fuse_ino \<Rightarrow> nat \<Rightarrow> ('w lib \<Rightarrow> 'w outcome option) \<Rightarrow> 'w lib \<Rightarrow> 'w outcome option" where
  "forget_k req ino n k L = do {
     (finished, f1) \<leftarrow> forget_node (r_id req) (l_f L) ino n;
     if finished then k (L\<lparr>l_f := f1\<rparr>)
     else Some (WaitForget (L\<lparr>l_f := f1\<rparr>) (\<lambda>L2. do {
            p \<leftarrow> get_node (l_f L2) ino;
            f3 \<leftarrow> forget_finish (dequeue_path (l_f L2) (r_id req)) p n;
            k (L2\<lparr>l_f := f3\<rparr>) })) }"

definition reply_entry :: "request \<Rightarrow> fuse_entry_param \<Rightarrow> int \<Rightarrow> 'w lib \<Rightarrow> 'w outcome option" where
  "reply_entry req e err L =
     (if err = 0 then
        (case send req (ReplyEntry e) L of (ret, L1) \<Rightarrow>
           if ret = - ENOENT \<and> e_ino e \<noteq> 0 then forget_k req (e_ino e) 1 (\<lambda>L2. Some (Finished L2)) L1
           else Some (Finished L1))
      else reply_err req err L)"

text \<open>
  \<open>fuse_lib_lookup\<close>: \<open>.\<close> holds a reference on the node itself, \<open>..\<close> moves to the parent (the
  parent of the root is a null dereference; the kernel does not ask for it).
\<close>

definition lookup_rest ::
  "request \<Rightarrow> fuse_ino \<Rightarrow> string option \<Rightarrow> ptr option \<Rightarrow> 'w lib \<Rightarrow> 'w outcome option" where
  "lookup_rest req dir name dot L =
     (let finish = (\<lambda>err e L3. with_fuse L3 (case dot of None \<Rightarrow> Some (l_f L3) | Some d \<Rightarrow> unref_node (l_f L3) d)
                                 (reply_entry req e err))
      in with_get_path_name req L dir name (\<lambda>err path L1.
           if err \<noteq> 0 then finish err zero_entry L1
           else do {
             ((err1, e), L2) \<leftarrow> lookup_path L1 dir name path None;
             let neg = (err1 = - ENOENT \<and> negative_timeout (conf (l_f L2)) \<noteq> 0);
             let e1 = (if neg then e\<lparr>e_ino := 0, e_entry_timeout := negative_timeout (conf (l_f L2))\<rparr> else e);
             let err2 = (if neg then 0 else err1);
             with_fuse L2 (free_path (l_f L2) dir path) (finish err2 e1) }))"

definition fuse_lib_lookup :: "request \<Rightarrow> fuse_ino \<Rightarrow> string \<Rightarrow> 'w lib \<Rightarrow> 'w outcome option" where
  "fuse_lib_lookup req dir name L0 = do {
     L \<leftarrow> req_fuse_prepare req L0;
     if name = ''.'' then
       (case get_node_nocheck (l_f L) dir of
          None \<Rightarrow> reply_entry req zero_entry (- ESTALE) L
        | Some d \<Rightarrow> do {
            n \<leftarrow> nodes (l_f L) d;
            lookup_rest req dir None (Some d) (L\<lparr>l_f := put_node d (n\<lparr>refctr := refctr n + 1\<rparr>) (l_f L)\<rparr>) })
     else if name = ''..'' then do {
       p \<leftarrow> get_node (l_f L) dir;
       n \<leftarrow> nodes (l_f L) p;
       q \<leftarrow> parent n;
       m \<leftarrow> nodes (l_f L) q;
       lookup_rest req (nodeid m) None None L }
     else lookup_rest req dir (Some name) None L }"

definition fuse_lib_forget :: "request \<Rightarrow> fuse_ino \<Rightarrow> nat \<Rightarrow> 'w lib \<Rightarrow> 'w outcome option" where
  "fuse_lib_forget req ino n L = forget_k req ino n (reply req ReplyNone) L"

fun forget_all :: "request \<Rightarrow> (fuse_ino \<times> nat) list \<Rightarrow> ('w lib \<Rightarrow> 'w outcome option) \<Rightarrow> 'w lib \<Rightarrow> 'w outcome option" where
  "forget_all req [] k L = k L"
| "forget_all req ((ino, n) # fs) k L = forget_k req ino n (forget_all req fs k) L"

definition fuse_lib_forget_multi :: "request \<Rightarrow> (fuse_ino \<times> nat) list \<Rightarrow> 'w lib \<Rightarrow> 'w outcome option" where
  "fuse_lib_forget_multi req fs L = forget_all req fs (reply req ReplyNone) L"

end
