(* ===== verification/Fuse_Handlers.thy ===== *)
theory Fuse_Handlers
  imports Fuse_Lib
begin

text \<open>
  The handlers of \<open>lib/fuse.c\<close> for attributes, links, creation and removal, open files, data,
  locks, extended attributes and the remaining file operations, in the order of the source.
\<close>

section \<open>Attributes\<close>

text \<open>The last part of \<open>fuse_lib_getattr\<close>: a hidden file has one link less than the file system reports.\<close>

definition getattr_reply :: "request \<Rightarrow> fuse_ino \<Rightarrow> bool \<Rightarrow> int \<Rightarrow> stat \<Rightarrow> 'w lib \<Rightarrow> 'w outcome option" where
  "getattr_reply req ino hide err buf L =
     (if err \<noteq> 0 then reply_err req err L
      else do {
        p \<leftarrow> get_node (l_f L) ino;
        n \<leftarrow> nodes (l_f L) p;
        let buf1 = (if hide \<and> is_hidden n \<and> st_nlink buf > 0 then buf\<lparr>st_nlink := st_nlink buf - 1\<rparr> else buf);
        f1 \<leftarrow> (if auto_cache (conf (l_f L)) then update_stat (l_f L) p buf1 else Some (l_f L));
        reply req (ReplyAttr (set_stat f1 ino buf1) (attr_timeout (conf f1))) (L\<lparr>l_f := f1\<rparr>) })"

definition get_path_fi ::
  "request \<Rightarrow> 'w lib \<Rightarrow> fuse_ino \<Rightarrow> fuse_file_info option \<Rightarrow> (int \<Rightarrow> string option \<Rightarrow> 'w lib \<Rightarrow> 'w outcome option) \<Rightarrow> 'w outcome option" where
  "get_path_fi req L ino fi k = (if fi \<noteq> None then with_get_path_nullok req L ino k else with_get_path req L ino k)"

definition fuse_lib_getattr :: "request \<Rightarrow> fuse_ino \<Rightarrow> fuse_file_info option \<Rightarrow> 'w lib \<Rightarrow> 'w outcome option" where
  "fuse_lib_getattr req ino fi L0 = do {
     L \<leftarrow> req_fuse_prepare req L0;
     get_path_fi req L ino fi (\<lambda>err path L1.
       path_call L1 ino path err zero_stat (fuse_fs_getattr (l_fs L1) path zero_stat fi) (getattr_reply req ino True)) }"

definition FUSE_SET_ATTR_MODE :: u32 where "FUSE_SET_ATTR_MODE = 1"
definition FUSE_SET_ATTR_UID :: u32 where "FUSE_SET_ATTR_UID = 2"
definition FUSE_SET_ATTR_GID :: u32 where "FUSE_SET_ATTR_GID = 4"
definition FUSE_SET_ATTR_SIZE :: u32 where "FUSE_SET_ATTR_SIZE = 8"
definition FUSE_SET_ATTR_ATIME :: u32 where "FUSE_SET_ATTR_ATIME = 16"
definition FUSE_SET_ATTR_MTIME :: u32 where "FUSE_SET_ATTR_MTIME = 32"
definition FUSE_SET_ATTR_ATIME_NOW :: u32 where "FUSE_SET_ATTR_ATIME_NOW = 128"
definition FUSE_SET_ATTR_MTIME_NOW :: u32 where "FUSE_SET_ATTR_MTIME_NOW = 256"
definition UTIME_NOW :: int where "UTIME_NOW = 2 ^ 30 - 1"
definition UTIME_OMIT :: int where "UTIME_OMIT = 2 ^ 30 - 2"

text \<open>\<open>if (!err && cond) err = op\<close>\<close>

definition and_then :: "bool \<Rightarrow> ('w env \<Rightarrow> int \<times> 'w env) \<Rightarrow> int \<times> 'w env \<Rightarrow> int \<times> 'w env" where
  "and_then cond call s = (if fst s = 0 \<and> cond then call (snd s) else s)"

definition set_time :: "u32 \<Rightarrow> u32 \<Rightarrow> u32 \<Rightarrow> timespec \<Rightarrow> timespec" where
  "set_time valid now_flag flag t =
     (if valid AND now_flag \<noteq> 0 then (0, UTIME_NOW) else if valid AND flag \<noteq> 0 then t else (0, UTIME_OMIT))"

text \<open>
  The changes in their order: mode, owner, size, times; the first failure ends them. (Without
  \<open>utimensat\<close> the source has another branch for the times, which is not compiled on Linux.)
\<close>

definition setattr_ops ::
  "'w fuse_fs \<Rightarrow> string option \<Rightarrow> stat \<Rightarrow> u32 \<Rightarrow> fuse_file_info option \<Rightarrow> 'w env \<Rightarrow> (int \<times> stat) \<times> 'w env" where
  "setattr_ops fs path attr valid fi e0 =
     (let s1 = and_then (valid AND FUSE_SET_ATTR_MODE \<noteq> 0) (fuse_fs_chmod fs path (st_mode attr) fi) (0, e0);
          s2 = and_then (valid AND (FUSE_SET_ATTR_UID OR FUSE_SET_ATTR_GID) \<noteq> 0)
                 (fuse_fs_chown fs path (if valid AND FUSE_SET_ATTR_UID \<noteq> 0 then st_uid attr else - 1)
                    (if valid AND FUSE_SET_ATTR_GID \<noteq> 0 then st_gid attr else - 1) fi) s1;
          s3 = and_then (valid AND FUSE_SET_ATTR_SIZE \<noteq> 0) (fuse_fs_truncate fs path (st_size attr) fi) s2;
          s4 = and_then (valid AND (FUSE_SET_ATTR_ATIME OR FUSE_SET_ATTR_MTIME) \<noteq> 0)
                 (fuse_fs_utimens fs path (set_time valid FUSE_SET_ATTR_ATIME_NOW FUSE_SET_ATTR_ATIME (st_atim attr))
                    (set_time valid FUSE_SET_ATTR_MTIME_NOW FUSE_SET_ATTR_MTIME (st_mtim attr)) fi) s3
      in if fst s4 = 0 then fuse_fs_getattr fs path zero_stat fi (snd s4) else ((fst s4, zero_stat), snd s4))"

definition fuse_lib_setattr ::
  "request \<Rightarrow> fuse_ino \<Rightarrow> stat \<Rightarrow> u32 \<Rightarrow> fuse_file_info option \<Rightarrow> 'w lib \<Rightarrow> 'w outcome option" where
  "fuse_lib_setattr req ino attr valid fi L0 = do {
     L \<leftarrow> req_fuse_prepare req L0;
     get_path_fi req L ino fi (\<lambda>err path L1.
       path_call L1 ino path err zero_stat (setattr_ops (l_fs L1) path attr valid fi) (\<lambda>err buf L2.
         if err \<noteq> 0 then reply_err req err L2
         else do {
           f1 \<leftarrow> (if auto_cache (conf (l_f L2)) then do { p \<leftarrow> get_node (l_f L2) ino; update_stat (l_f L2) p buf } else Some (l_f L2));
           reply req (ReplyAttr (set_stat f1 ino buf) (attr_timeout (conf f1))) (L2\<lparr>l_f := f1\<rparr>) })) }"

definition fuse_lib_access :: "request \<Rightarrow> fuse_ino \<Rightarrow> u32 \<Rightarrow> 'w lib \<Rightarrow> 'w outcome option" where
  "fuse_lib_access req ino msk L0 = do {
     L \<leftarrow> req_fuse_prepare req L0;
     with_get_path req L ino (\<lambda>err path L1.
       path_call_err req L1 ino path err (fuse_fs_access (l_fs L1) path msk)) }"

definition PATH_MAX :: nat where "PATH_MAX = 4096"

definition fuse_lib_readlink :: "request \<Rightarrow> fuse_ino \<Rightarrow> 'w lib \<Rightarrow> 'w outcome option" where
  "fuse_lib_readlink req ino L0 = do {
     L \<leftarrow> req_fuse_prepare req L0;
     with_get_path req L ino (\<lambda>err path L1.
       path_call L1 ino path err [] (fuse_fs_readlink (l_fs L1) path (PATH_MAX + 1)) (\<lambda>err linkname L2.
         if err = 0 then reply req (ReplyReadlink (take PATH_MAX linkname)) L2 else reply_err req err L2)) }"

section \<open>Creation\<close>

text \<open>
  The handlers that end in a lookup of the new name: \<open>op\<close> is what is done before it, \<open>fi\<close> the
  open file to look through.
\<close>

definition create_entry ::
  "request \<Rightarrow> fuse_ino \<Rightarrow> string \<Rightarrow> ('w fuse_fs \<Rightarrow> string option \<Rightarrow> 'w env \<Rightarrow> int \<times> 'w env) \<Rightarrow> 'w lib \<Rightarrow> 'w outcome option" where
  "create_entry req dir name call L =
     with_get_path_name req L dir (Some name) (\<lambda>err path L1.
       if err \<noteq> 0 then reply_entry req zero_entry err L1
       else case call (l_fs L1) path (l_env L1) of
              (err1, e1) \<Rightarrow> do {
                ((err2, e), L2) \<leftarrow> (if err1 = 0 then lookup_path (L1\<lparr>l_env := e1\<rparr>) dir (Some name) path None
                                     else Some ((err1, zero_entry), L1\<lparr>l_env := e1\<rparr>));
                with_fuse L2 (free_path (l_f L2) dir path) (reply_entry req e err2) })"

definition O_CREAT :: u32 where "O_CREAT = 0x40"
definition O_EXCL :: u32 where "O_EXCL = 0x80"
definition O_WRONLY :: u32 where "O_WRONLY = 1"
definition O_ACCMODE :: u32 where "O_ACCMODE = 3"

definition mknod_path ::
  "'w lib \<Rightarrow> fuse_ino \<Rightarrow> string \<Rightarrow> string option \<Rightarrow> u32 \<Rightarrow> u64 \<Rightarrow> ((int \<times> fuse_entry_param) \<times> 'w lib) option" where
  "mknod_path L dir name path mode rdev = do {
     ((err, e), L1) \<leftarrow>
       (if \<not> S_ISREG mode then Some ((- ENOSYS, zero_entry), L)
        else case fuse_fs_create (l_fs L) path mode (zero_fi\<lparr>fi_flags := O_CREAT OR O_EXCL OR O_WRONLY\<rparr>) (l_env L) of
               ((err, fi), e1) \<Rightarrow>
                 if err \<noteq> 0 then Some ((err, zero_entry), L\<lparr>l_env := e1\<rparr>)
                 else do {
                   (r, L2) \<leftarrow> lookup_path (L\<lparr>l_env := e1\<rparr>) dir (Some name) path (Some fi);
                   let (_, e3) = fuse_fs_release (l_fs L2) path fi (l_env L2);
                   Some (r, L2\<lparr>l_env := e3\<rparr>) });
     if err = - ENOSYS
     then (case fuse_fs_mknod (l_fs L1) path mode rdev (l_env L1) of
             (err2, e4) \<Rightarrow> if err2 = 0 then lookup_path (L1\<lparr>l_env := e4\<rparr>) dir (Some name) path None
                           else Some ((err2, e), L1\<lparr>l_env := e4\<rparr>))
     else Some ((err, e), L1) }"

definition fuse_lib_mknod :: "request \<Rightarrow> fuse_ino \<Rightarrow> string \<Rightarrow> u32 \<Rightarrow> u64 \<Rightarrow> 'w lib \<Rightarrow> 'w outcome option" where
  "fuse_lib_mknod req dir name mode rdev L0 = do {
     L \<leftarrow> req_fuse_prepare req L0;
     with_get_path_name req L dir (Some name) (\<lambda>err path L1.
       if err \<noteq> 0 then reply_entry req zero_entry err L1
       else do {
         ((err1, e), L2) \<leftarrow> mknod_path L1 dir name path mode rdev;
         with_fuse L2 (free_path (l_f L2) dir path) (reply_entry req e err1) }) }"

definition fuse_lib_mkdir :: "request \<Rightarrow> fuse_ino \<Rightarrow> string \<Rightarrow> u32 \<Rightarrow> 'w lib \<Rightarrow> 'w outcome option" where
  "fuse_lib_mkdir req dir name mode L0 = do {
     L \<leftarrow> req_fuse_prepare req L0;
     create_entry req dir name (\<lambda>fs path. fuse_fs_mkdir fs path mode) L }"

section \<open>Removal and renaming\<close>

definition is_open :: "fuse \<Rightarrow> fuse_ino \<Rightarrow> string \<Rightarrow> bool option" where
  "is_open f dir name =
     (case lookup_node f dir name of
        None \<Rightarrow> Some False
      | Some p \<Rightarrow> do { n \<leftarrow> nodes f p; Some (open_count n > 0) })"

definition hex_digit :: "nat \<Rightarrow> char" where
  "hex_digit n = ''0123456789abcdef'' ! (n mod 16)"

definition hex8 :: "u32 \<Rightarrow> string" where
  "hex8 w = map (\<lambda>i. hex_digit (unat w div 16 ^ i)) [7, 6, 5, 4, 3, 2, 1, 0]"

definition hidden_string :: "fuse_ino \<Rightarrow> u32 \<Rightarrow> string" where
  "hidden_string ino c = ''.fuse_hidden'' @ hex8 (ucast ino) @ hex8 c"

partial_function (option) hidden_next :: "fuse \<Rightarrow> fuse_ino \<Rightarrow> fuse_ino \<Rightarrow> (string \<times> fuse) option" where
  "hidden_next f dir ino =
     (let f1 = f\<lparr>hidectr := hidectr f + 1\<rparr>; nm = hidden_string ino (hidectr f1)
      in if lookup_node f1 dir nm = None then Some (nm, f1) else hidden_next f1 dir ino)"

text \<open>\<open>failctr\<close> attempts; the pair is the path (null if none was found) and the name.\<close>

fun hidden_loop :: "nat \<Rightarrow> 'w lib \<Rightarrow> fuse_ino \<Rightarrow> string \<Rightarrow> string \<Rightarrow> ((string option \<times> string) \<times> 'w lib) option" where
  "hidden_loop 0 L dir oldname newname = Some ((None, newname), L)"
| "hidden_loop (Suc failctr) L dir oldname newname =
     (case lookup_node (l_f L) dir oldname of
        None \<Rightarrow> Some ((None, newname), L)
      | Some p \<Rightarrow> do {
          n \<leftarrow> nodes (l_f L) p;
          (nm, f1) \<leftarrow> hidden_next (l_f L) dir (nodeid n);
          ((res, path, _), f2) \<leftarrow> try_get_path f1 dir (Some nm) False False;
          let L1 = L\<lparr>l_f := f2\<rparr>;
          if res \<noteq> 0 then Some ((path, nm), L1)
          else case fuse_fs_getattr (l_fs L1) path zero_stat None (l_env L1) of
                 ((res1, _), e1) \<Rightarrow>
                   if res1 = - ENOENT then Some ((path, nm), L1\<lparr>l_env := e1\<rparr>)
                   else if res1 = 0 then hidden_loop failctr (L1\<lparr>l_env := e1\<rparr>) dir oldname nm
                   else Some ((None, nm), L1\<lparr>l_env := e1\<rparr>) })"

definition hidden_name :: "'w lib \<Rightarrow> fuse_ino \<Rightarrow> string \<Rightarrow> ((string option \<times> string) \<times> 'w lib) option" where
  "hidden_name L dir oldname = hidden_loop 10 L dir oldname []"

definition hide_node :: "'w lib \<Rightarrow> string option \<Rightarrow> fuse_ino \<Rightarrow> string \<Rightarrow> (int \<times> 'w lib) option" where
  "hide_node L oldpath dir oldname = do {
     ((newpath, newname), L1) \<leftarrow> hidden_name L dir oldname;
     if newpath = None then Some (- EBUSY, L1)
     else case fuse_fs_rename (l_fs L1) oldpath newpath 0 (l_env L1) of
            (err, e1) \<Rightarrow>
              if err \<noteq> 0 then Some (err, L1\<lparr>l_env := e1\<rparr>)
              else do {
                (err1, f1) \<leftarrow> rename_node (l_f L1) dir oldname dir newname True;
                Some (err1, L1\<lparr>l_env := e1, l_f := f1\<rparr>) } }"

definition unlink_call :: "'w lib \<Rightarrow> string option \<Rightarrow> fuse_ino \<Rightarrow> string \<Rightarrow> (int \<times> 'w lib) option" where
  "unlink_call L path dir name =
     (case fuse_fs_unlink (l_fs L) path (l_env L) of
        (err, e1) \<Rightarrow>
          if err \<noteq> 0 then Some (err, L\<lparr>l_env := e1\<rparr>)
          else do { f1 \<leftarrow> remove_node (l_f L) dir name; Some (0, L\<lparr>l_env := e1, l_f := f1\<rparr>) })"

text \<open>
  An open file is renamed to a hidden name instead of being removed; if it was closed meanwhile
  it is removed under that name at once.
\<close>

definition unlink_path :: "'w lib \<Rightarrow> fuse_ino \<Rightarrow> string \<Rightarrow> string option \<Rightarrow> ptr option \<Rightarrow> (int \<times> 'w lib) option" where
  "unlink_path L dir name path wnode = do {
     opened \<leftarrow> (if hard_remove (conf (l_f L)) then Some False else is_open (l_f L) dir name);
     if \<not> opened then unlink_call L path dir name
     else do {
       (err, L1) \<leftarrow> hide_node L path dir name;
       if err \<noteq> 0 then Some (err, L1)
       else do {
         w \<leftarrow> wnode;
         n \<leftarrow> nodes (l_f L1) w;
         nm \<leftarrow> n_name n;
         still \<leftarrow> is_open (l_f L1) dir nm;
         if still then Some (0, L1)
         else do {
           ((res, upath, _), f2) \<leftarrow> try_get_path (l_f L1) (nodeid n) None False False;
           if res = 0 then unlink_call (L1\<lparr>l_f := f2\<rparr>) upath dir nm else Some (0, L1\<lparr>l_f := f2\<rparr>) } } } }"

definition fuse_lib_unlink :: "request \<Rightarrow> fuse_ino \<Rightarrow> string \<Rightarrow> 'w lib \<Rightarrow> 'w outcome option" where
  "fuse_lib_unlink req dir name L0 = do {
     L \<leftarrow> req_fuse_prepare req L0;
     with_path L (get_path_wrlock (r_id req) (l_f L) dir name) (\<lambda>err path wnode L1.
       if err \<noteq> 0 then reply_err req err L1
       else do {
         (err1, L2) \<leftarrow> unlink_path L1 dir name path wnode;
         with_fuse L2 (free_path_wrlock (l_f L2) dir wnode) (reply_err req err1) }) }"

definition fuse_lib_rmdir :: "request \<Rightarrow> fuse_ino \<Rightarrow> string \<Rightarrow> 'w lib \<Rightarrow> 'w outcome option" where
  "fuse_lib_rmdir req dir name L0 = do {
     L \<leftarrow> req_fuse_prepare req L0;
     with_path L (get_path_wrlock (r_id req) (l_f L) dir name) (\<lambda>err path wnode L1.
       if err \<noteq> 0 then reply_err req err L1
       else case fuse_fs_rmdir (l_fs L1) path (l_env L1) of
              (err1, e1) \<Rightarrow> do {
                f2 \<leftarrow> (if err1 = 0 then remove_node (l_f L1) dir name else Some (l_f L1));
                with_fuse (L1\<lparr>l_env := e1\<rparr>) (free_path_wrlock f2 dir wnode) (reply_err req err1) }) }"

definition fuse_lib_symlink :: "request \<Rightarrow> string \<Rightarrow> fuse_ino \<Rightarrow> string \<Rightarrow> 'w lib \<Rightarrow> 'w outcome option" where
  "fuse_lib_symlink req linkname dir name L0 = do {
     L \<leftarrow> req_fuse_prepare req L0;
     create_entry req dir name (\<lambda>fs. fuse_fs_symlink fs linkname) L }"

definition RENAME_EXCHANGE :: u32 where "RENAME_EXCHANGE = 2"

definition rename_path ::
  "'w lib \<Rightarrow> fuse_ino \<Rightarrow> string \<Rightarrow> fuse_ino \<Rightarrow> string \<Rightarrow> u32 \<Rightarrow> string option \<Rightarrow> string option \<Rightarrow> (int \<times> 'w lib) option" where
  "rename_path L olddir oldname newdir newname flags oldpath newpath = do {
     opened \<leftarrow> (if hard_remove (conf (l_f L)) \<or> flags AND RENAME_EXCHANGE \<noteq> 0 then Some False else is_open (l_f L) newdir newname);
     (err, L1) \<leftarrow> (if opened then hide_node L newpath newdir newname else Some (0, L));
     if err \<noteq> 0 then Some (err, L1)
     else case fuse_fs_rename (l_fs L1) oldpath newpath flags (l_env L1) of
            (err1, e1) \<Rightarrow>
              if err1 \<noteq> 0 then Some (err1, L1\<lparr>l_env := e1\<rparr>)
              else do {
                (err2, f2) \<leftarrow> (if flags AND RENAME_EXCHANGE \<noteq> 0 then exchange_node (l_f L1) olddir oldname newdir newname
                                else rename_node (l_f L1) olddir oldname newdir newname False);
                Some (err2, L1\<lparr>l_env := e1, l_f := f2\<rparr>) } }"

definition fuse_lib_rename ::
  "request \<Rightarrow> fuse_ino \<Rightarrow> string \<Rightarrow> fuse_ino \<Rightarrow> string \<Rightarrow> u32 \<Rightarrow> 'w lib \<Rightarrow> 'w outcome option" where
  "fuse_lib_rename req olddir oldname newdir newname flags L0 = do {
     L \<leftarrow> req_fuse_prepare req L0;
     with_get_path2 req L olddir (Some oldname) newdir (Some newname) True (\<lambda>err out L1.
       if err \<noteq> 0 then reply_err req err L1
       else do {
         (err1, L2) \<leftarrow> rename_path L1 olddir oldname newdir newname flags (o_path1 out) (o_path2 out);
         with_fuse L2 (free_path2 (l_f L2) olddir newdir (o_node1 out) (o_node2 out)) (reply_err req err1) }) }"

definition fuse_lib_link :: "request \<Rightarrow> fuse_ino \<Rightarrow> fuse_ino \<Rightarrow> string \<Rightarrow> 'w lib \<Rightarrow> 'w outcome option" where
  "fuse_lib_link req ino newdir newname L0 = do {
     L \<leftarrow> req_fuse_prepare req L0;
     with_get_path2 req L ino None newdir (Some newname) False (\<lambda>err out L1.
       if err \<noteq> 0 then reply_entry req zero_entry err L1
       else case fuse_fs_link (l_fs L1) (o_path1 out) (o_path2 out) (l_env L1) of
              (err1, e1) \<Rightarrow> do {
                ((err2, e), L2) \<leftarrow> (if err1 = 0 then lookup_path (L1\<lparr>l_env := e1\<rparr>) newdir (Some newname) (o_path2 out) None
                                     else Some ((err1, zero_entry), L1\<lparr>l_env := e1\<rparr>));
                with_fuse L2 (free_path2 (l_f L2) ino newdir None None) (reply_entry req e err2) }) }"

end
