(* ===== verification/Fuse_Files.thy ===== *)
theory Fuse_Files
  imports Fuse_Handlers
begin

text \<open>
  The handlers of \<open>lib/fuse.c\<close> for open files: create, open, read, write, flush, release, locks,
  extended attributes and the remaining operations on files.
\<close>

section \<open>Open and release\<close>

text \<open>
  \<open>fuse_do_release\<close>: the last close of a hidden file removes it. Without a path (and with
  \<open>nullpath_ok\<close>) the path is taken for that, which may wait; \<open>k\<close> is what follows.
\<close>

definition fuse_do_release ::
  "request \<Rightarrow> fuse_ino \<Rightarrow> string option \<Rightarrow> fuse_file_info \<Rightarrow> ('w lib \<Rightarrow> 'w outcome option) \<Rightarrow> 'w lib \<Rightarrow> 'w outcome option" where
  "fuse_do_release req ino path fi k L =
     (case fuse_fs_release (l_fs L) path fi (l_env L) of
        (_, e1) \<Rightarrow> do {
          p \<leftarrow> get_node (l_f L) ino;
          n \<leftarrow> nodes (l_f L) p;
          if \<not> open_count n > 0 then None
          else
            let unlink_hidden = (is_hidden n \<and> open_count n - 1 = 0);
                n1 = n\<lparr>open_count := open_count n - 1, is_hidden := (is_hidden n \<and> \<not> unlink_hidden)\<rparr>;
                L1 = L\<lparr>l_env := e1, l_f := put_node p n1 (l_f L)\<rparr>
            in if \<not> unlink_hidden then k L1
               else if path \<noteq> None then k (L1\<lparr>l_env := snd (fuse_fs_unlink (l_fs L1) path (l_env L1))\<rparr>)
               else if nullpath_ok (conf (l_f L1)) then
                 with_get_path req L1 ino (\<lambda>err upath L2.
                   let L3 = (if err = 0 then L2\<lparr>l_env := snd (fuse_fs_unlink (l_fs L2) upath (l_env L2))\<rparr> else L2)
                   in with_fuse L3 (free_path (l_f L3) ino upath) k)
               else k L1 })"

definition open_flags :: "fuse_config \<Rightarrow> fuse_file_info \<Rightarrow> fuse_file_info" where
  "open_flags c fi =
     fi\<lparr>fi_direct_io := (fi_direct_io fi \<or> direct_io c), fi_keep_cache := (fi_keep_cache fi \<or> kernel_cache c)\<rparr>"

definition direct_flags :: "fuse_config \<Rightarrow> fuse_file_info \<Rightarrow> fuse_file_info" where
  "direct_flags c fi =
     fi\<lparr>fi_parallel_direct_writes := (fi_parallel_direct_writes fi \<or> fi_direct_io fi \<and> parallel_direct_writes c)\<rparr>"

definition inc_open :: "fuse \<Rightarrow> fuse_ino \<Rightarrow> fuse option" where
  "inc_open f ino = do {
     p \<leftarrow> get_node f ino;
     n \<leftarrow> nodes f p;
     Some (put_node p (n\<lparr>open_count := open_count n + 1\<rparr>) f) }"

text \<open>The end of \<open>fuse_lib_create\<close>; \<open>fuse_reply_create\<close> returns \<open>-ENOENT\<close> for an interrupted call.\<close>

definition create_finish ::
  "request \<Rightarrow> fuse_ino \<Rightarrow> string option \<Rightarrow> int \<Rightarrow> fuse_entry_param \<Rightarrow> fuse_file_info \<Rightarrow> 'w lib \<Rightarrow> 'w outcome option" where
  "create_finish req dir path err e fi L =
     (let release = (\<lambda>L'. with_fuse L' (free_path (l_f L') dir path) (\<lambda>L''. Some (Finished L'')))
      in if err = 0 then do {
           f1 \<leftarrow> inc_open (l_f L) (e_ino e);
           case send req (ReplyCreate e fi) (L\<lparr>l_f := f1\<rparr>) of
             (ret, L1) \<Rightarrow>
               if ret = - ENOENT
               then fuse_do_release req (e_ino e) path fi (forget_k req (e_ino e) 1 release) L1
               else release L1 }
         else release (snd (send req (ReplyErr (- err)) L)))"

definition fuse_lib_create ::
  "request \<Rightarrow> fuse_ino \<Rightarrow> string \<Rightarrow> u32 \<Rightarrow> fuse_file_info \<Rightarrow> 'w lib \<Rightarrow> 'w outcome option" where
  "fuse_lib_create req dir name mode fi L0 = do {
     L \<leftarrow> req_fuse_prepare req L0;
     with_get_path_name req L dir (Some name) (\<lambda>err path L1.
       if err \<noteq> 0 then create_finish req dir path err zero_entry fi L1
       else case fuse_fs_create (l_fs L1) path mode fi (l_env L1) of
              ((err1, fi1), e1) \<Rightarrow>
                if err1 \<noteq> 0 then create_finish req dir path err1 zero_entry fi1 (L1\<lparr>l_env := e1\<rparr>)
                else do {
                  ((err2, e), L2) \<leftarrow> lookup_path (L1\<lparr>l_env := e1\<rparr>) dir (Some name) path (Some fi1);
                  let released = L2\<lparr>l_env := snd (fuse_fs_release (l_fs L2) path fi1 (l_env L2))\<rparr>;
                  if err2 \<noteq> 0 then create_finish req dir path err2 e fi1 released
                  else if \<not> S_ISREG (st_mode (e_attr e))
                  then forget_k req (e_ino e) 1 (create_finish req dir path (- EIO) e fi1) released
                  else create_finish req dir path 0 e (direct_flags (conf (l_f L2)) (open_flags (conf (l_f L2)) fi1)) L2 }) }"

definition diff_timespec :: "timespec \<Rightarrow> timespec \<Rightarrow> int" where
  "diff_timespec t1 t2 = (fst t1 - fst t2) * 1000000000 + (snd t1 - snd t2)"

text \<open>
  \<open>open_auto_cache\<close>: cached attributes older than \<open>ac_attr_timeout\<close> are refreshed; a file that
  did not change keeps its page cache. The node stays valid while the mutex is released
  because the request holds its path.
\<close>

definition open_auto_cache ::
  "'w lib \<Rightarrow> fuse_ino \<Rightarrow> string option \<Rightarrow> fuse_file_info \<Rightarrow> (fuse_file_info \<times> 'w lib) option" where
  "open_auto_cache L ino path fi = do {
     p \<leftarrow> get_node (l_f L) ino;
     n \<leftarrow> nodes (l_f L) p;
     L1 \<leftarrow>
       (if \<not> cache_valid n then Some L
        else let (now, f1) = curr_time (l_f L)
             in if diff_timespec now (stat_updated n) \<le> ac_attr_timeout (conf f1) then Some (L\<lparr>l_f := f1\<rparr>)
                else case fuse_fs_getattr (l_fs L) path zero_stat (Some fi) (l_env L) of
                       ((err, st), e1) \<Rightarrow> do {
                         f2 \<leftarrow> (if err = 0 then update_stat f1 p st
                                 else Some (put_node p (n\<lparr>cache_valid := False\<rparr>) f1));
                         Some (L\<lparr>l_f := f2, l_env := e1\<rparr>) });
     n1 \<leftarrow> nodes (l_f L1) p;
     Some (if cache_valid n1 then fi\<lparr>fi_keep_cache := True\<rparr> else fi,
           L1\<lparr>l_f := put_node p (n1\<lparr>cache_valid := True\<rparr>) (l_f L1)\<rparr>) }"

definition open_finish ::
  "request \<Rightarrow> fuse_ino \<Rightarrow> string option \<Rightarrow> int \<Rightarrow> fuse_file_info \<Rightarrow> 'w lib \<Rightarrow> 'w outcome option" where
  "open_finish req ino path err fi L =
     (let release = (\<lambda>L'. with_fuse L' (free_path (l_f L') ino path) (\<lambda>L''. Some (Finished L'')))
      in if err = 0 then do {
           f1 \<leftarrow> inc_open (l_f L) ino;
           case send req (ReplyOpen fi) (L\<lparr>l_f := f1\<rparr>) of
             (ret, L1) \<Rightarrow> if ret = - ENOENT then fuse_do_release req ino path fi release L1 else release L1 }
         else release (snd (send req (ReplyErr (- err)) L)))"

definition fuse_lib_open :: "request \<Rightarrow> fuse_ino \<Rightarrow> fuse_file_info \<Rightarrow> 'w lib \<Rightarrow> 'w outcome option" where
  "fuse_lib_open req ino fi L0 = do {
     L \<leftarrow> req_fuse_prepare req L0;
     with_get_path req L ino (\<lambda>err path L1.
       if err \<noteq> 0 then open_finish req ino path err fi L1
       else case fuse_fs_open (l_fs L1) path fi (l_env L1) of
              ((err1, fi1), e1) \<Rightarrow>
                let L2 = L1\<lparr>l_env := e1\<rparr>; c = conf (l_f L2)
                in if err1 \<noteq> 0 then open_finish req ino path err1 fi1 L2
                   else do {
                     let fi2 = open_flags c fi1;
                     (fi3, L3) \<leftarrow> (if auto_cache c then open_auto_cache L2 ino path fi2 else Some (fi2, L2));
                     let fi4 = (if no_rofd_flush c \<and> fi_flags fi3 AND O_ACCMODE = 0 then fi3\<lparr>fi_noflush := True\<rparr> else fi3);
                     open_finish req ino path 0 (direct_flags c fi4) L3 }) }"

section \<open>Data\<close>

definition fuse_lib_read :: "request \<Rightarrow> fuse_ino \<Rightarrow> nat \<Rightarrow> int \<Rightarrow> fuse_file_info \<Rightarrow> 'w lib \<Rightarrow> 'w outcome option" where
  "fuse_lib_read req ino sz off fi L0 = do {
     L \<leftarrow> req_fuse_prepare req L0;
     with_get_path_nullok req L ino (\<lambda>err path L1.
       if err \<noteq> 0 then reply_err req err L1
       else do {
         ((res, buf), e1) \<leftarrow> fuse_fs_read_buf (l_fs L1) path sz off fi (l_env L1);
         with_fuse (L1\<lparr>l_env := e1\<rparr>) (free_path (l_f L1) ino path) (\<lambda>L2.
           if res = 0 then (case buf of None \<Rightarrow> None | Some b \<Rightarrow> reply req (ReplyData b) L2)
           else reply_err req res L2) }) }"

definition fuse_lib_write_buf ::
  "request \<Rightarrow> fuse_ino \<Rightarrow> fuse_bufvec \<Rightarrow> int \<Rightarrow> fuse_file_info \<Rightarrow> 'w lib \<Rightarrow> 'w outcome option" where
  "fuse_lib_write_buf req ino buf off fi L0 = do {
     L \<leftarrow> req_fuse_prepare req L0;
     with_get_path_nullok req L ino (\<lambda>err path L1.
       if err \<noteq> 0 then (if err \<ge> 0 then reply req (ReplyWrite err) L1 else reply_err req err L1)
       else do {
         (res, e1) \<leftarrow> fuse_fs_write_buf (l_fs L1) path buf off fi (l_env L1);
         with_fuse (L1\<lparr>l_env := e1\<rparr>) (free_path (l_f L1) ino path) (\<lambda>L2.
           if res \<ge> 0 then reply req (ReplyWrite res) L2 else reply_err req res L2) }) }"

definition fuse_lib_fsync :: "request \<Rightarrow> fuse_ino \<Rightarrow> bool \<Rightarrow> fuse_file_info \<Rightarrow> 'w lib \<Rightarrow> 'w outcome option" where
  "fuse_lib_fsync req ino datasync fi L0 = do {
     L \<leftarrow> req_fuse_prepare req L0;
     with_get_path_nullok req L ino (\<lambda>err path L1.
       path_call_err req L1 ino path err (fuse_fs_fsync (l_fs L1) path datasync fi)) }"

section \<open>File system statistics and extended attributes\<close>

definition fuse_lib_statfs :: "request \<Rightarrow> fuse_ino \<Rightarrow> 'w lib \<Rightarrow> 'w outcome option" where
  "fuse_lib_statfs req ino L0 = do {
     L \<leftarrow> req_fuse_prepare req L0;
     let body = (\<lambda>err path L1.
       path_call L1 ino path err zero_statvfs
         (fuse_fs_statfs (l_fs L1) (case path of None \<Rightarrow> Some ''/'' | Some _ \<Rightarrow> path) zero_statvfs) (\<lambda>err buf L2.
           if err = 0 then reply req (ReplyStatfs buf) L2 else reply_err req err L2));
     if ino \<noteq> 0 then with_get_path req L ino body else body 0 None L }"

definition fuse_lib_setxattr ::
  "request \<Rightarrow> fuse_ino \<Rightarrow> string \<Rightarrow> byte list \<Rightarrow> u32 \<Rightarrow> 'w lib \<Rightarrow> 'w outcome option" where
  "fuse_lib_setxattr req ino name val flags L0 = do {
     L \<leftarrow> req_fuse_prepare req L0;
     with_get_path req L ino (\<lambda>err path L1.
       path_call_err req L1 ino path err (fuse_fs_setxattr (l_fs L1) path name val flags)) }"

definition common_getxattr ::
  "request \<Rightarrow> fuse_ino \<Rightarrow> string \<Rightarrow> nat \<Rightarrow> (int \<Rightarrow> byte list \<Rightarrow> 'w lib \<Rightarrow> 'w outcome option) \<Rightarrow> 'w lib \<Rightarrow> 'w outcome option" where
  "common_getxattr req ino name sz k L =
     with_get_path req L ino (\<lambda>err path L1.
       path_call L1 ino path err [] (fuse_fs_getxattr (l_fs L1) path name sz) k)"

definition common_listxattr ::
  "request \<Rightarrow> fuse_ino \<Rightarrow> nat \<Rightarrow> (int \<Rightarrow> byte list \<Rightarrow> 'w lib \<Rightarrow> 'w outcome option) \<Rightarrow> 'w lib \<Rightarrow> 'w outcome option" where
  "common_listxattr req ino sz k L =
     with_get_path req L ino (\<lambda>err path L1.
       path_call L1 ino path err [] (fuse_fs_listxattr (l_fs L1) path sz) k)"

text \<open>The two replies: the data for a buffer of \<open>sz\<close> bytes, the size needed for \<open>sz = 0\<close>.\<close>

definition xattr_reply ::
  "request \<Rightarrow> nat \<Rightarrow> ((int \<Rightarrow> byte list \<Rightarrow> 'w lib \<Rightarrow> 'w outcome option) \<Rightarrow> 'w lib \<Rightarrow> 'w outcome option) \<Rightarrow> 'w lib \<Rightarrow> 'w outcome option" where
  "xattr_reply req sz call L =
     (if sz \<noteq> 0 then
        (case mem_alloc sz (l_env L) of
           (None, e1) \<Rightarrow> reply_err req (- ENOMEM) (L\<lparr>l_env := e1\<rparr>)
         | (Some _, e1) \<Rightarrow>
             call (\<lambda>res val L2. if res > 0 then reply req (ReplyBuf (take (nat res) val)) L2 else reply_err req res L2)
               (L\<lparr>l_env := e1\<rparr>))
      else call (\<lambda>res _ L2. if res \<ge> 0 then reply req (ReplyXattr res) L2 else reply_err req res L2) L)"

definition fuse_lib_getxattr :: "request \<Rightarrow> fuse_ino \<Rightarrow> string \<Rightarrow> nat \<Rightarrow> 'w lib \<Rightarrow> 'w outcome option" where
  "fuse_lib_getxattr req ino name sz L0 = do {
     L \<leftarrow> req_fuse_prepare req L0;
     xattr_reply req sz (common_getxattr req ino name sz) L }"

definition fuse_lib_listxattr :: "request \<Rightarrow> fuse_ino \<Rightarrow> nat \<Rightarrow> 'w lib \<Rightarrow> 'w outcome option" where
  "fuse_lib_listxattr req ino sz L0 = do {
     L \<leftarrow> req_fuse_prepare req L0;
     xattr_reply req sz (common_listxattr req ino sz) L }"

definition fuse_lib_removexattr :: "request \<Rightarrow> fuse_ino \<Rightarrow> string \<Rightarrow> 'w lib \<Rightarrow> 'w outcome option" where
  "fuse_lib_removexattr req ino name L0 = do {
     L \<leftarrow> req_fuse_prepare req L0;
     with_get_path req L ino (\<lambda>err path L1.
       path_call_err req L1 ino path err (fuse_fs_removexattr (l_fs L1) path name)) }"

section \<open>Flush, release and byte-range locks\<close>

text \<open>\<open>locks_insert\<close> on the locks of a node; its error is ignored by both callers.\<close>

definition node_locks_insert :: "fuse \<Rightarrow> fuse_ino \<Rightarrow> lock \<Rightarrow> fuse option" where
  "node_locks_insert f ino lk = do {
     p \<leftarrow> get_node f ino;
     n \<leftarrow> nodes f p;
     ((_, ls), t) \<leftarrow> locks_insert (allocs f) (n_locks n) lk;
     Some ((put_node p (n\<lparr>n_locks := ls\<rparr>) f)\<lparr>allocs := t\<rparr>) }"

definition owned :: "flock \<Rightarrow> fuse_file_info \<Rightarrow> lock" where
  "owned fl fi = (flock_to_lock fl)\<lparr>lk_owner := fi_lock_owner fi\<rparr>"

definition unlock_all :: flock where
  "unlock_all = \<lparr>l_type = F_UNLCK, l_whence = 0, l_start = 0, l_len = 0, l_pid = 0\<rparr>"

definition fuse_flush_common :: "'w lib \<Rightarrow> fuse_ino \<Rightarrow> string option \<Rightarrow> fuse_file_info \<Rightarrow> (int \<times> 'w lib) option" where
  "fuse_flush_common L ino path fi =
     (case fuse_fs_flush (l_fs L) path fi (l_env L) of
        (err, e1) \<Rightarrow>
          (case fuse_fs_lock (l_fs L) path fi F_SETLK unlock_all e1 of
             ((errlock, fl), e2) \<Rightarrow>
               if errlock = - ENOSYS then Some (err, L\<lparr>l_env := e2\<rparr>)
               else do {
                 f1 \<leftarrow> node_locks_insert (l_f L) ino (owned fl fi);
                 Some (if err = - ENOSYS then 0 else err, L\<lparr>l_env := e2, l_f := f1\<rparr>) }))"

definition fuse_lib_release :: "request \<Rightarrow> fuse_ino \<Rightarrow> fuse_file_info \<Rightarrow> 'w lib \<Rightarrow> 'w outcome option" where
  "fuse_lib_release req ino fi L0 = do {
     L \<leftarrow> req_fuse_prepare req L0;
     with_get_path_nullok req L ino (\<lambda>_ path L1. do {
       (err, L2) \<leftarrow> (if fi_flush fi then fuse_flush_common L1 ino path fi else Some (0, L1));
       let err1 = (if err = - ENOSYS then 0 else err);
       fuse_do_release req ino path fi (\<lambda>L3.
         with_fuse L3 (free_path (l_f L3) ino path) (reply_err req err1)) L2 }) }"

definition fuse_lib_flush :: "request \<Rightarrow> fuse_ino \<Rightarrow> fuse_file_info \<Rightarrow> 'w lib \<Rightarrow> 'w outcome option" where
  "fuse_lib_flush req ino fi L0 = do {
     L \<leftarrow> req_fuse_prepare req L0;
     with_get_path_nullok req L ino (\<lambda>_ path L1. do {
       (err, L2) \<leftarrow> fuse_flush_common L1 ino path fi;
       with_fuse L2 (free_path (l_f L2) ino path) (reply_err req err) }) }"

definition fuse_lock_common ::
  "request \<Rightarrow> fuse_ino \<Rightarrow> fuse_file_info \<Rightarrow> flock \<Rightarrow> lock_cmd \<Rightarrow> (int \<Rightarrow> flock \<Rightarrow> 'w lib \<Rightarrow> 'w outcome option) \<Rightarrow> 'w lib \<Rightarrow> 'w outcome option" where
  "fuse_lock_common req ino fi fl cmd k L0 = do {
     L \<leftarrow> req_fuse_prepare req L0;
     with_get_path_nullok req L ino (\<lambda>err path L1.
       path_call L1 ino path err fl (fuse_fs_lock (l_fs L1) path fi cmd fl) k) }"

text \<open>A lock of another owner that the library knows of answers the request at once.\<close>

definition fuse_lib_getlk :: "request \<Rightarrow> fuse_ino \<Rightarrow> fuse_file_info \<Rightarrow> flock \<Rightarrow> 'w lib \<Rightarrow> 'w outcome option" where
  "fuse_lib_getlk req ino fi fl L = do {
     p \<leftarrow> get_node (l_f L) ino;
     n \<leftarrow> nodes (l_f L) p;
     case locks_conflict (n_locks n) (owned fl fi) of
       Some c \<Rightarrow> reply req (ReplyLock (lock_to_flock c fl)) L
     | None \<Rightarrow> fuse_lock_common req ino fi fl F_GETLK (\<lambda>err fl1 L1.
         if err = 0 then reply req (ReplyLock fl1) L1 else reply_err req err L1) L }"

definition fuse_lib_setlk :: "request \<Rightarrow> fuse_ino \<Rightarrow> fuse_file_info \<Rightarrow> flock \<Rightarrow> bool \<Rightarrow> 'w lib \<Rightarrow> 'w outcome option" where
  "fuse_lib_setlk req ino fi fl sleep L =
     fuse_lock_common req ino fi fl (if sleep then F_SETLKW else F_SETLK) (\<lambda>err fl1 L1.
       with_fuse L1 (if err = 0 then node_locks_insert (l_f L1) ino (owned fl1 fi) else Some (l_f L1)) (reply_err req err)) L"

definition fuse_lib_flock :: "request \<Rightarrow> fuse_ino \<Rightarrow> fuse_file_info \<Rightarrow> u32 \<Rightarrow> 'w lib \<Rightarrow> 'w outcome option" where
  "fuse_lib_flock req ino fi lop L0 = do {
     L \<leftarrow> req_fuse_prepare req L0;
     with_get_path_nullok req L ino (\<lambda>err path L1.
       path_call_err req L1 ino path err (fuse_fs_flock (l_fs L1) path fi lop)) }"

section \<open>Other operations\<close>

definition fuse_lib_bmap :: "request \<Rightarrow> fuse_ino \<Rightarrow> nat \<Rightarrow> u64 \<Rightarrow> 'w lib \<Rightarrow> 'w outcome option" where
  "fuse_lib_bmap req ino blocksize idx L0 = do {
     L \<leftarrow> req_fuse_prepare req L0;
     with_get_path req L ino (\<lambda>err path L1.
       path_call L1 ino path err idx (fuse_fs_bmap (l_fs L1) path blocksize idx) (\<lambda>err idx1 L2.
         if err = 0 then reply req (ReplyBmap idx1) L2 else reply_err req err L2)) }"

definition FUSE_IOCTL_UNRESTRICTED :: u32 where "FUSE_IOCTL_UNRESTRICTED = 2"
definition FUSE_IOCTL_DIR :: u32 where "FUSE_IOCTL_DIR = 16"

definition get_dirhandle :: "'w lib \<Rightarrow> fuse_file_info \<Rightarrow> (fuse_dh \<times> fuse_file_info) option" where
  "get_dirhandle L llfi = do { dh \<leftarrow> l_dhs L (fi_fh llfi); Some (dh, zero_fi\<lparr>fi_fh := dh_fh dh\<rparr>) }"

text \<open>
  The data handed to the operation is the output buffer (a copy of the input, or whatever the
  allocated memory holds) or the input itself.
\<close>

definition fuse_lib_ioctl ::
  "request \<Rightarrow> fuse_ino \<Rightarrow> u32 \<Rightarrow> u64 \<Rightarrow> fuse_file_info \<Rightarrow> u32 \<Rightarrow> byte list \<Rightarrow> nat \<Rightarrow> 'w lib \<Rightarrow> 'w outcome option" where
  "fuse_lib_ioctl req ino cmd arg llfi flags in_buf out_bufsz L0 = do {
     L \<leftarrow> req_fuse_prepare req L0;
     if flags AND FUSE_IOCTL_UNRESTRICTED \<noteq> 0 then reply_err req (- EPERM) L
     else do {
       fi \<leftarrow> (if flags AND FUSE_IOCTL_DIR \<noteq> 0 then map_option snd (get_dirhandle L llfi) else Some llfi);
       let (mem, e1) = (if out_bufsz \<noteq> 0 then mem_alloc out_bufsz (l_env L) else (None, l_env L));
       if out_bufsz \<noteq> 0 \<and> mem = None then reply_err req (- ENOMEM) (L\<lparr>l_env := e1\<rparr>)
       else if \<not> (in_buf = [] \<or> out_bufsz = 0 \<or> length in_buf = out_bufsz) then None
       else
         let data = (case mem of Some a \<Rightarrow> if in_buf \<noteq> [] then in_buf else bytes_at (e_mem e1) a out_bufsz | None \<Rightarrow> in_buf)
         in with_get_path_nullok req (L\<lparr>l_env := e1\<rparr>) ino (\<lambda>err path L1.
              path_call L1 ino path err data (fuse_fs_ioctl (l_fs L1) path cmd arg fi flags data) (\<lambda>err1 out L2.
                if err \<noteq> 0 \<or> err1 < 0 then reply_err req err1 L2
                else reply req (ReplyIoctl err1 (if mem = None then [] else take out_bufsz out)) L2)) } }"

definition fuse_lib_poll :: "request \<Rightarrow> fuse_ino \<Rightarrow> fuse_file_info \<Rightarrow> nat option \<Rightarrow> 'w lib \<Rightarrow> 'w outcome option" where
  "fuse_lib_poll req ino fi ph L0 = do {
     L \<leftarrow> req_fuse_prepare req L0;
     with_get_path_nullok req L ino (\<lambda>err path L1.
       path_call L1 ino path err 0 (fuse_fs_poll (l_fs L1) path fi ph 0) (\<lambda>err revents L2.
         if err = 0 then reply req (ReplyPoll revents) L2 else reply_err req err L2)) }"

definition fuse_lib_fallocate :: "request \<Rightarrow> fuse_ino \<Rightarrow> u32 \<Rightarrow> int \<Rightarrow> int \<Rightarrow> fuse_file_info \<Rightarrow> 'w lib \<Rightarrow> 'w outcome option" where
  "fuse_lib_fallocate req ino mode off len fi L0 = do {
     L \<leftarrow> req_fuse_prepare req L0;
     with_get_path_nullok req L ino (\<lambda>err path L1.
       path_call_err req L1 ino path err (fuse_fs_fallocate (l_fs L1) path mode off len fi)) }"

definition fuse_lib_copy_file_range ::
  "request \<Rightarrow> fuse_ino \<Rightarrow> int \<Rightarrow> fuse_file_info \<Rightarrow> fuse_ino \<Rightarrow> int \<Rightarrow> fuse_file_info \<Rightarrow> nat \<Rightarrow> u32 \<Rightarrow> 'w lib \<Rightarrow> 'w outcome option" where
  "fuse_lib_copy_file_range req ino_in off_in fi_in ino_out off_out fi_out len flags L0 = do {
     L \<leftarrow> req_fuse_prepare req L0;
     with_get_path_nullok req L ino_in (\<lambda>err path_in L1.
       if err \<noteq> 0 then reply_err req err L1
       else with_get_path_nullok req L1 ino_out (\<lambda>err1 path_out L2.
         if err1 \<noteq> 0 then with_fuse L2 (free_path (l_f L2) ino_in path_in) (reply_err req err1)
         else case fuse_fs_copy_file_range (l_fs L2) path_in fi_in off_in path_out fi_out off_out len flags (l_env L2) of
                (res, e1) \<Rightarrow>
                  let L3 = snd (send req (if res \<ge> 0 then ReplyWrite res else ReplyErr (- res)) (L2\<lparr>l_env := e1\<rparr>))
                  in with_fuse L3 (free_path (l_f L3) ino_in path_in) (\<lambda>L4.
                       with_fuse L4 (free_path (l_f L4) ino_out path_out) (\<lambda>L5. Some (Finished L5))))) }"

definition fuse_lib_lseek :: "request \<Rightarrow> fuse_ino \<Rightarrow> int \<Rightarrow> u32 \<Rightarrow> fuse_file_info \<Rightarrow> 'w lib \<Rightarrow> 'w outcome option" where
  "fuse_lib_lseek req ino off whence fi L0 = do {
     L \<leftarrow> req_fuse_prepare req L0;
     with_get_path req L ino (\<lambda>err path L1.
       if err \<noteq> 0 then reply_err req err L1
       else path_call L1 ino path 0 () (plain (fuse_fs_lseek (l_fs L1) path off whence fi)) (\<lambda>res _ L2.
         if res \<ge> 0 then reply req (ReplyLseek res) L2 else reply_err req res L2)) }"

definition AT_EMPTY_PATH :: u32 where "AT_EMPTY_PATH = 0x1000"

text \<open>The attribute cache gets the nanoseconds of the modification time as its seconds.\<close>

definition fuse_lib_statx ::
  "request \<Rightarrow> fuse_ino \<Rightarrow> u32 \<Rightarrow> u32 \<Rightarrow> fuse_file_info option \<Rightarrow> 'w lib \<Rightarrow> 'w outcome option" where
  "fuse_lib_statx req ino flags msk fi L0 = do {
     L \<leftarrow> req_fuse_prepare req L0;
     get_path_fi req L ino fi (\<lambda>err path L1.
       path_call L1 ino path err zero_statx
         (fuse_fs_statx (l_fs L1) path (if path = None then flags OR AT_EMPTY_PATH else flags) msk zero_statx fi) (\<lambda>err buf L2.
           if err \<noteq> 0 then reply_err req err L2
           else do {
             p \<leftarrow> get_node (l_f L2) ino;
             n \<leftarrow> nodes (l_f L2) p;
             let buf1 = (if is_hidden n \<and> stx_nlink buf > 0 then buf\<lparr>stx_nlink := stx_nlink buf - 1\<rparr> else buf);
             f1 \<leftarrow> (if auto_cache (conf (l_f L2))
                     then update_stat (l_f L2) p
                            (zero_stat\<lparr>st_mtim := (snd (stx_mtime buf1), snd (stx_mtime buf1)), st_size := stx_size buf1\<rparr>)
                     else Some (l_f L2));
             reply req (ReplyStatx (set_statx f1 ino buf1) (attr_timeout (conf f1))) (L2\<lparr>l_f := f1\<rparr>) })) }"

section \<open>The remember cache\<close>

definition clean_delay :: "fuse \<Rightarrow> int" where
  "clean_delay f =
     (let sleep_time = remember (conf f) div 10
      in if sleep_time > 3600 then 3600 else if sleep_time < 60 then 60 else sleep_time)"

text \<open>
  The loop of \<open>fuse_clean_cache\<close> over the list as it was at the start: the next element is read
  before the current one is freed.
\<close>

fun clean_loop :: "timespec \<Rightarrow> ptr list \<Rightarrow> fuse \<Rightarrow> fuse option" where
  "clean_loop now [] f = Some f"
| "clean_loop now (p # ps) f = do {
     n \<leftarrow> nodes f p;
     if diff_timespec now (forget_time n) \<le> remember (conf f) * 1000000000 then Some f
     else if nlookup n \<noteq> 1 then None
     else if refctr n > 1 then clean_loop now ps f
     else do {
       f1 \<leftarrow> unhash_name (put_node p (n\<lparr>nlookup := 0\<rparr>) f) p;
       f2 \<leftarrow> unref_node f1 p;
       clean_loop now ps f2 } }"

definition fuse_clean_cache :: "fuse \<Rightarrow> (int \<times> fuse) option" where
  "fuse_clean_cache f = do {
     let (now, f1) = curr_time f;
     f2 \<leftarrow> clean_loop now (lru_table f1) f1;
     Some (clean_delay f2, f2) }"

end
