(* ===== verification/Dirent.thy ===== *)
theory Dirent
  imports Fuse_Lib
begin

text \<open>
  The wire format of directory entries (\<open>fuse_add_direntry\<close> and \<open>fuse_add_direntry_plus\<close> of
  \<open>lib/fuse_lowlevel.c\<close>, \<open>struct fuse_dirent\<close>, \<open>fuse_direntplus\<close>, \<open>fuse_entry_out\<close> and
  \<open>fuse_attr\<close> of \<open>include/fuse_kernel.h\<close>), as bytes of a little-endian machine, and the reader
  of such a buffer as the kernel has it (the specification for the round trip).
\<close>

section \<open>Bytes\<close>

text \<open>The \<open>k\<close> low bytes of a number.\<close>

fun le_bytes :: "nat \<Rightarrow> nat \<Rightarrow> byte list" where
  "le_bytes 0 n = []"
| "le_bytes (Suc k) n = word_of_nat n # le_bytes k (n div 256)"

fun le_nat :: "byte list \<Rightarrow> nat" where
  "le_nat [] = 0"
| "le_nat (b # bs) = unat b + 256 * le_nat bs"

abbreviation le64 :: "u64 \<Rightarrow> byte list" where "le64 w \<equiv> le_bytes 8 (unat w)"

abbreviation le32 :: "u32 \<Rightarrow> byte list" where "le32 w \<equiv> le_bytes 4 (unat w)"

definition of_chars :: "string \<Rightarrow> byte list" where
  "of_chars s = map of_char s"

definition FUSE_DIRENT_ALIGN :: "nat \<Rightarrow> nat" where
  "FUSE_DIRENT_ALIGN x = (x + 7) div 8 * 8"

definition FUSE_NAME_OFFSET :: nat where "FUSE_NAME_OFFSET = 24"

definition FUSE_NAME_OFFSET_DIRENTPLUS :: nat where "FUSE_NAME_OFFSET_DIRENTPLUS = 152"

section \<open>Entries\<close>

definition dirent_bytes :: "u64 \<Rightarrow> u64 \<Rightarrow> u32 \<Rightarrow> string \<Rightarrow> byte list" where
  "dirent_bytes ino off typ name =
     le64 ino @ le64 off @ le_bytes 4 (length name) @ le32 typ @ of_chars name"

definition dirent_type :: "u32 \<Rightarrow> u32" where
  "dirent_type mode = drop_bit 12 (mode AND ST_IFMT)"

text \<open>The result is the padded length, and what is written (nothing when it does not fit).\<close>

definition fuse_add_direntry :: "nat \<Rightarrow> string \<Rightarrow> stat \<Rightarrow> int \<Rightarrow> nat \<times> byte list" where
  "fuse_add_direntry bufsize name st off =
     (let entlen = FUSE_NAME_OFFSET + length name;
          entlen_padded = FUSE_DIRENT_ALIGN entlen
      in if entlen_padded > bufsize then (entlen_padded, [])
         else (entlen_padded,
               dirent_bytes (st_ino st) (word_of_int off) (dirent_type (st_mode st)) name
                 @ replicate (entlen_padded - entlen) 0))"

definition calc_timeout_sec :: "int \<Rightarrow> u64" where
  "calc_timeout_sec t =
     (if t div 1000000000 > 2 ^ 64 - 1 then - 1 else if t < 0 then 0 else word_of_int (t div 1000000000))"

text \<open>Timeouts are whole nanoseconds here, so the fraction is below \<open>10 ^ 9\<close> nanoseconds.\<close>

definition calc_timeout_nsec :: "int \<Rightarrow> u32" where
  "calc_timeout_nsec t =
     (let frac = t - uint (calc_timeout_sec t) * 1000000000
      in if frac < 0 then 0 else if frac \<ge> 999999999 then 999999999 else word_of_int frac)"

definition convert_stat :: "stat \<Rightarrow> byte list" where
  "convert_stat st =
     le64 (st_ino st) @ le64 (word_of_int (st_size st)) @ le64 (st_blocks st) @
     le64 (word_of_int (fst (st_atim st))) @ le64 (word_of_int (fst (st_mtim st))) @ le64 (word_of_int (fst (st_ctim st))) @
     le32 (word_of_int (snd (st_atim st))) @ le32 (word_of_int (snd (st_mtim st))) @ le32 (word_of_int (snd (st_ctim st))) @
     le32 (st_mode st) @ le32 (ucast (st_nlink st)) @ le32 (st_uid st) @ le32 (st_gid st) @
     le32 (ucast (st_rdev st)) @ le32 (st_blksize st) @ le32 0"

definition fill_entry :: "fuse_entry_param \<Rightarrow> byte list" where
  "fill_entry e =
     le64 (e_ino e) @ le64 (e_generation e) @
     le64 (calc_timeout_sec (e_entry_timeout e)) @ le64 (calc_timeout_sec (e_attr_timeout e)) @
     le32 (calc_timeout_nsec (e_entry_timeout e)) @ le32 (calc_timeout_nsec (e_attr_timeout e)) @
     convert_stat (e_attr e)"

definition fuse_add_direntry_plus :: "nat \<Rightarrow> string \<Rightarrow> fuse_entry_param \<Rightarrow> int \<Rightarrow> nat \<times> byte list" where
  "fuse_add_direntry_plus bufsize name e off =
     (let entlen = FUSE_NAME_OFFSET_DIRENTPLUS + length name;
          entlen_padded = FUSE_DIRENT_ALIGN entlen
      in if entlen_padded > bufsize then (entlen_padded, [])
         else (entlen_padded,
               fill_entry e @
               dirent_bytes (st_ino (e_attr e)) (word_of_int off) (dirent_type (st_mode (e_attr e))) name
                 @ replicate (entlen_padded - entlen) 0))"

section \<open>Reading a directory buffer\<close>

text \<open>
  How the kernel reads a reply to READDIR: records follow one another, the reader stops at a
  record that is not complete.
\<close>

record dirent_view =
  dv_ino :: u64
  dv_off :: u64
  dv_type :: u32
  dv_name :: "byte list"

definition parse_dirent :: "byte list \<Rightarrow> dirent_view" where
  "parse_dirent bs = \<lparr>dv_ino = word_of_nat (le_nat (take 8 bs)), dv_off = word_of_nat (le_nat (take 8 (drop 8 bs))),
     dv_type = word_of_nat (le_nat (take 4 (drop 20 bs))),
     dv_name = take (le_nat (take 4 (drop 16 bs))) (drop 24 bs)\<rparr>"

function parse_dirents :: "byte list \<Rightarrow> dirent_view list" where
  "parse_dirents bs =
     (let reclen = FUSE_DIRENT_ALIGN (FUSE_NAME_OFFSET + le_nat (take 4 (drop 16 bs)))
      in if length bs < FUSE_NAME_OFFSET \<or> length bs < reclen then []
         else parse_dirent bs # parse_dirents (drop reclen bs))"
  by pat_completeness auto
termination
  by (relation "measure length") (auto simp: FUSE_DIRENT_ALIGN_def FUSE_NAME_OFFSET_def)

declare parse_dirents.simps [simp del]

section \<open>Lengths\<close>

lemma length_le_bytes [simp]: "length (le_bytes k n) = k"
  by (induction k arbitrary: n) auto

lemma le_nat_le_bytes: "n < 256 ^ k \<Longrightarrow> le_nat (le_bytes k n) = n"
proof (induction k arbitrary: n)
  case 0
  then show ?case by simp
next
  case (Suc k)
  have "n div 256 < 256 ^ k" using Suc.prems by (simp add: less_mult_imp_div_less mult.commute)
  moreover have "unat (word_of_nat n :: byte) = n mod 256" by (simp add: unat_of_nat)
  ultimately show ?case using Suc.IH by simp
qed

lemma length_of_chars [simp]: "length (of_chars s) = length s"
  by (simp add: of_chars_def)

lemma length_dirent_bytes [simp]: "length (dirent_bytes ino off typ name) = FUSE_NAME_OFFSET + length name"
  by (simp add: dirent_bytes_def FUSE_NAME_OFFSET_def)

lemma length_fill_entry [simp]: "length (fill_entry e) = 128"
  by (simp add: fill_entry_def convert_stat_def)

lemma align_ge: "x \<le> FUSE_DIRENT_ALIGN x"
  unfolding FUSE_DIRENT_ALIGN_def by presburger

lemma align_less: "FUSE_DIRENT_ALIGN x < x + 8"
  unfolding FUSE_DIRENT_ALIGN_def by presburger

lemma align_dvd: "8 dvd FUSE_DIRENT_ALIGN x"
  by (simp add: FUSE_DIRENT_ALIGN_def)

lemma add_direntry_length:
  assumes "fuse_add_direntry bufsize name st off = (len, bs)"
  shows "bs = [] \<and> bufsize < len \<or> length bs = len \<and> len \<le> bufsize"
  using assms align_ge [of "FUSE_NAME_OFFSET + length name"]
  by (auto simp: fuse_add_direntry_def Let_def split: if_splits)

lemma add_direntry_plus_length:
  assumes "fuse_add_direntry_plus bufsize name e off = (len, bs)"
  shows "bs = [] \<and> bufsize < len \<or> length bs = len \<and> len \<le> bufsize"
  using assms align_ge [of "FUSE_NAME_OFFSET_DIRENTPLUS + length name"]
  by (auto simp: fuse_add_direntry_plus_def Let_def FUSE_NAME_OFFSET_def FUSE_NAME_OFFSET_DIRENTPLUS_def split: if_splits)

end
