(* ===== verification/Fuse_Dirs.thy ===== *)
theory Fuse_Dirs
  imports Fuse_Files Dirent
begin

text \<open>
  Directories (\<open>lib/fuse.c\<close>): opening one allocates a handle \<open>struct fuse_dh\<close>; \<open>readdir\<close> calls the
  file system with a filler that either encodes the entries at once (they carry offsets) or
  collects them in a list that is encoded on demand. Handles live in a heap \<open>l_dhs\<close>; the lock
  \<open>dh->lock\<close> makes one \<open>readdir\<close> on a handle one atomic step. Allocations for handles, entries and
  the contents buffer are taken from the tape of the node store.
\<close>

definition FUSE_FILL_DIR_PLUS :: u32 where "FUSE_FILL_DIR_PLUS = 2"
definition FUSE_READDIR_PLUS :: u32 where "FUSE_READDIR_PLUS = 1"

section \<open>Opening\<close>

text \<open>
  \<open>llfi\<close> is what is sent back: it holds the address of the handle, \<open>fi\<close> what the file system
  filled in.
\<close>

definition fuse_lib_opendir :: "request \<Rightarrow> fuse_ino \<Rightarrow> fuse_file_info \<Rightarrow> 'w lib \<Rightarrow> 'w outcome option" where
  "fuse_lib_opendir req ino llfi L0 = do {
     L \<leftarrow> req_fuse_prepare req L0;
     let (ok, t) = alloc_pop (allocs (l_f L));
     let L1 = L\<lparr>l_f := (l_f L)\<lparr>allocs := t\<rparr>\<rparr>;
     if \<not> ok then reply_err req (- ENOMEM) L1
     else
       let addr = l_next_dh L1;
           dh = \<lparr>dh_contents = [], dh_first = [], dh_size = 0, dh_needlen = 0, dh_filled = False, dh_fh = 0,
                 dh_error = 0, dh_nodeid = ino\<rparr>;
           L2 = L1\<lparr>l_next_dh := addr + 1, l_dhs := (l_dhs L1)(addr \<mapsto> dh)\<rparr>;
           llfi1 = llfi\<lparr>fi_fh := addr\<rparr>;
           fi = zero_fi\<lparr>fi_flags := fi_flags llfi\<rparr>
       in with_get_path req L2 ino (\<lambda>err path L3.
            let ((err1, fi1), e1) = (if err = 0 then fuse_fs_opendir (l_fs L3) path fi (l_env L3) else ((err, fi), l_env L3));
                L4 = (if err = 0 then L3\<lparr>l_env := e1, l_dhs := (l_dhs L3)(addr \<mapsto> dh\<lparr>dh_fh := fi_fh fi1\<rparr>)\<rparr> else L3);
                llfi2 = (if err = 0 then llfi1\<lparr>fi_cache_readdir := fi_cache_readdir fi1, fi_keep_cache := fi_keep_cache fi1\<rparr>
                         else llfi1);
                L6 = (if err1 = 0 then
                        (case send req (ReplyOpen llfi2) L4 of (ret, L5) \<Rightarrow>
                           if ret = - ENOENT
                           then L5\<lparr>l_env := snd (fuse_fs_releasedir (l_fs L5) path fi1 (l_env L5)), l_dhs := (l_dhs L5)(addr := None)\<rparr>
                           else L5)
                      else (snd (send req (ReplyErr (- err1)) L4))\<lparr>l_dhs := (l_dhs L4)(addr := None)\<rparr>)
            in with_fuse L6 (free_path (l_f L6) ino path) (\<lambda>L7. Some (Finished L7))) }"

section \<open>Filling\<close>

text \<open>The buffer grows by the same doubling loop as that of \<open>add_name\<close>.\<close>

definition extend_contents :: "fuse_dh \<Rightarrow> nat \<Rightarrow> tape \<Rightarrow> ((bool \<times> fuse_dh) \<times> tape) option" where
  "extend_contents dh minsize t =
     (if minsize \<le> dh_size dh then Some ((True, dh), t)
      else do {
        newsize \<leftarrow> grow_size (if dh_size dh = 0 then 1024 else dh_size dh) minsize;
        Some (case alloc_pop t of
                (False, t1) \<Rightarrow> ((False, dh\<lparr>dh_error := - ENOMEM\<rparr>), t1)
              | (True, t1) \<Rightarrow> ((True, dh\<lparr>dh_size := newsize\<rparr>), t1)) })"

definition fuse_add_direntry_to_dh :: "fuse_dh \<Rightarrow> string \<Rightarrow> stat \<Rightarrow> u32 \<Rightarrow> tape \<Rightarrow> (bool \<times> fuse_dh) \<times> tape" where
  "fuse_add_direntry_to_dh dh name st flags t =
     (case alloc_pop t of
        (False, t1) \<Rightarrow> ((False, dh\<lparr>dh_error := - ENOMEM\<rparr>), t1)
      | (True, t1) \<Rightarrow>
          (case alloc_pop t1 of
             (False, t2) \<Rightarrow> ((False, dh\<lparr>dh_error := - ENOMEM\<rparr>), t2)
           | (True, t2) \<Rightarrow> ((True, dh\<lparr>dh_first := dh_first dh @ [\<lparr>de_stat = st, de_flags = flags, de_name = name\<rparr>]\<rparr>), t2)))"

definition lookup_nodeid :: "fuse \<Rightarrow> fuse_ino \<Rightarrow> string \<Rightarrow> fuse_ino" where
  "lookup_nodeid f dir name =
     (case lookup_node f dir name of
        None \<Rightarrow> FUSE_UNKNOWN_INO
      | Some p \<Rightarrow> (case nodes f p of None \<Rightarrow> FUSE_UNKNOWN_INO | Some n \<Rightarrow> nodeid n))"

definition set_allocs :: "'w lib \<Rightarrow> tape \<Rightarrow> 'w lib" where
  "set_allocs L t = L\<lparr>l_f := (l_f L)\<lparr>allocs := t\<rparr>\<rparr>"

text \<open>
  The two ways of adding an entry: \<open>put_entry\<close> encodes it at once (an offset is given),
  \<open>keep_entry\<close> collects it. Both return 1 when the filler has to stop.
\<close>

definition put_entry :: "fuse_dh \<Rightarrow> nat \<times> byte list \<Rightarrow> int \<times> fuse_dh" where
  "put_entry dh enc =
     (if dh_len dh + fst enc > dh_needlen dh then (1, dh) else (0, dh\<lparr>dh_contents := dh_contents dh @ snd enc\<rparr>))"

definition keep_entry :: "fuse_dh \<Rightarrow> string \<Rightarrow> stat \<Rightarrow> u32 \<Rightarrow> 'w lib \<Rightarrow> (int \<times> fuse_dh) \<times> 'w lib" where
  "keep_entry dh name st flags L =
     (case fuse_add_direntry_to_dh (dh\<lparr>dh_filled := True\<rparr>) name st flags (allocs (l_f L)) of
        ((ok, dh1), t) \<Rightarrow> ((if ok then 0 else 1, dh1), set_allocs L t))"

definition fill_dir ::
  "string \<Rightarrow> stat option \<Rightarrow> int \<Rightarrow> u32 \<Rightarrow> fuse_dh \<Rightarrow> 'w lib \<Rightarrow> ((int \<times> fuse_dh) \<times> 'w lib) option" where
  "fill_dir name statp off flags dh L =
     (let c = conf (l_f L);
          st0 = (case statp of Some s \<Rightarrow> s | None \<Rightarrow> zero_stat\<lparr>st_ino := FUSE_UNKNOWN_INO\<rparr>);
          st = (if use_ino c then st0
                else st0\<lparr>st_ino := (if readdir_ino c then lookup_nodeid (l_f L) (dh_nodeid dh) name else FUSE_UNKNOWN_INO)\<rparr>)
      in if flags AND NOT FUSE_FILL_DIR_PLUS \<noteq> 0 then Some ((1, dh\<lparr>dh_error := - EIO\<rparr>), L)
         else if off \<noteq> 0 then
           (if dh_filled dh \<or> dh_first dh \<noteq> [] then Some ((1, dh\<lparr>dh_error := - EIO\<rparr>), L)
            else do {
              ((ok, dh1), t) \<leftarrow> extend_contents dh (dh_needlen dh) (allocs (l_f L));
              Some (if \<not> ok then (1, dh1)
                    else put_entry dh1 (fuse_add_direntry (dh_needlen dh1 - dh_len dh1) name st off), set_allocs L t) })
         else Some (keep_entry dh name st flags L))"

definition is_dot_or_dotdot :: "string \<Rightarrow> bool" where
  "is_dot_or_dotdot name \<longleftrightarrow> name = ''.'' \<or> name = ''..''"

definition plus_attr :: "fuse \<Rightarrow> fuse_ino \<Rightarrow> string \<Rightarrow> stat option \<Rightarrow> u32 \<Rightarrow> stat" where
  "plus_attr f dir name statp flags =
     (let c = conf f
      in case statp of
           Some s \<Rightarrow>
             if flags AND FUSE_FILL_DIR_PLUS \<noteq> 0 then s
             else zero_stat\<lparr>st_mode := st_mode s,
                    st_ino := (if use_ino c then st_ino s else if readdir_ino c then lookup_nodeid f dir name else FUSE_UNKNOWN_INO)\<rparr>
         | None \<Rightarrow> zero_stat\<lparr>st_ino := (if \<not> use_ino c \<and> readdir_ino c then lookup_nodeid f dir name else FUSE_UNKNOWN_INO)\<rparr>)"

definition fill_dir_plus ::
  "string \<Rightarrow> stat option \<Rightarrow> int \<Rightarrow> u32 \<Rightarrow> fuse_dh \<Rightarrow> 'w lib \<Rightarrow> ((int \<times> fuse_dh) \<times> 'w lib) option" where
  "fill_dir_plus name statp off flags dh L =
     (let e = zero_entry\<lparr>e_attr := plus_attr (l_f L) (dh_nodeid dh) name statp flags\<rparr>
      in if flags AND NOT FUSE_FILL_DIR_PLUS \<noteq> 0 then Some ((1, dh\<lparr>dh_error := - EIO\<rparr>), L)
         else if off \<noteq> 0 then
           (if dh_filled dh \<or> dh_first dh \<noteq> [] then Some ((1, dh\<lparr>dh_error := - EIO\<rparr>), L)
            else do {
              ((ok, dh1), t) \<leftarrow> extend_contents dh (dh_needlen dh) (allocs (l_f L));
              let L1 = set_allocs L t;
              if \<not> ok then Some ((1, dh1), L1)
              else do {
                ((res, e1), L2) \<leftarrow> (if statp \<noteq> None \<and> flags AND FUSE_FILL_DIR_PLUS \<noteq> 0 \<and> \<not> is_dot_or_dotdot name
                                    then do_lookup L1 (dh_nodeid dh1) (Some name) e else Some ((0, e), L1));
                if res \<noteq> 0 then Some ((1, dh1\<lparr>dh_error := res\<rparr>), L2)
                else Some (put_entry dh1 (fuse_add_direntry_plus (dh_needlen dh1 - dh_len dh1) name e1 off), L2) } })
         else Some (keep_entry dh name (e_attr e) flags L))"

text \<open>Running what the file system's \<open>readdir\<close> does, with the filler.\<close>

primrec run_fill ::
  "'w fill_prog \<Rightarrow> (string \<Rightarrow> stat option \<Rightarrow> int \<Rightarrow> u32 \<Rightarrow> fuse_dh \<Rightarrow> 'w lib \<Rightarrow> ((int \<times> fuse_dh) \<times> 'w lib) option) \<Rightarrow>
   fuse_dh \<Rightarrow> 'w lib \<Rightarrow> ((int \<times> fuse_dh) \<times> 'w lib) option" where
  "run_fill (FillEnd res e) filler dh L = Some ((res, dh), L\<lparr>l_env := e\<rparr>)"
| "run_fill (FillDir name statp off flags k) filler dh L =
     Option.bind (filler name statp off flags dh L) (\<lambda>((r, dh1), L1). run_fill (k r) filler dh1 L1)"

definition readdir_fill ::
  "request \<Rightarrow> fuse_ino \<Rightarrow> nat \<Rightarrow> int \<Rightarrow> fuse_dh \<Rightarrow> fuse_file_info \<Rightarrow> u32 \<Rightarrow>
   (int \<Rightarrow> fuse_dh \<Rightarrow> 'w lib \<Rightarrow> 'w outcome option) \<Rightarrow> 'w lib \<Rightarrow> 'w outcome option" where
  "readdir_fill req ino sz off dh fi flags k L =
     (let body = (\<lambda>err path L1.
        if err \<noteq> 0 then k err dh L1
        else do {
          let dh1 = dh\<lparr>dh_first := [], dh_contents := [], dh_error := 0, dh_needlen := sz, dh_filled := False\<rparr>;
          ((res, dh2), L2) \<leftarrow> run_fill (fuse_fs_readdir (l_fs L1) path off fi flags (l_env L1))
                                 (if flags AND FUSE_READDIR_PLUS \<noteq> 0 then fill_dir_plus else fill_dir) dh1 L1;
          let err1 = (if res = 0 then dh_error dh2 else res);
          let dh3 = (if err1 \<noteq> 0 then dh2\<lparr>dh_filled := False\<rparr> else dh2);
          with_fuse L2 (free_path (l_f L2) ino path) (k err1 dh3) })
      in if op_readdir (fs_op (l_fs L)) \<noteq> None then with_get_path_nullok req L ino body else with_get_path req L ino body)"

text \<open>Encoding the collected entries from \<open>off\<close> on; the failure of a lookup gives 1.\<close>

fun list_loop :: "u32 \<Rightarrow> int \<Rightarrow> fuse_direntry list \<Rightarrow> fuse_dh \<Rightarrow> 'w lib \<Rightarrow> ((int \<times> fuse_dh) \<times> 'w lib) option" where
  "list_loop flags pos [] dh L = Some ((0, dh), L)"
| "list_loop flags pos (de # des) dh L =
     (let room = dh_needlen dh - dh_len dh; pos1 = pos + 1
      in if flags AND FUSE_READDIR_PLUS \<noteq> 0 then do {
           let e = zero_entry\<lparr>e_attr := de_stat de\<rparr>;
           ((res, e1), L1) \<leftarrow> (if de_flags de AND FUSE_FILL_DIR_PLUS \<noteq> 0 \<and> \<not> is_dot_or_dotdot (de_name de)
                               then do_lookup L (dh_nodeid dh) (Some (de_name de)) e else Some ((0, e), L));
           if res \<noteq> 0 then Some ((1, dh\<lparr>dh_error := res\<rparr>), L1)
           else case put_entry dh (fuse_add_direntry_plus room (de_name de) e1 pos1) of
                  (r, dh1) \<Rightarrow> if r \<noteq> 0 then Some ((0, dh), L1) else list_loop flags pos1 des dh1 L1 }
         else case put_entry dh (fuse_add_direntry room (de_name de) (de_stat de) pos1) of
                (r, dh1) \<Rightarrow> if r \<noteq> 0 then Some ((0, dh), L) else list_loop flags pos1 des dh1 L)"

definition readdir_fill_from_list :: "fuse_dh \<Rightarrow> int \<Rightarrow> u32 \<Rightarrow> 'w lib \<Rightarrow> ((int \<times> fuse_dh) \<times> 'w lib) option" where
  "readdir_fill_from_list dh off flags L = do {
     ((ok, dh1), t) \<leftarrow> extend_contents (dh\<lparr>dh_contents := []\<rparr>) (dh_needlen dh) (allocs (l_f L));
     let L1 = set_allocs L t;
     if \<not> ok then Some ((dh_error dh1, dh1), L1)
     else list_loop flags (int (min (nat off) (length (dh_first dh1)))) (drop (nat off) (dh_first dh1)) dh1 L1 }"

text \<open>\<open>needlen\<close> is an \<open>unsigned\<close>: sizes are reduced modulo \<open>2 ^ 32\<close>.\<close>

definition store_dh :: "u64 \<Rightarrow> fuse_dh \<Rightarrow> 'w lib \<Rightarrow> 'w lib" where
  "store_dh addr dh L = L\<lparr>l_dhs := (l_dhs L)(addr \<mapsto> dh)\<rparr>"

definition readdir_reply ::
  "request \<Rightarrow> nat \<Rightarrow> int \<Rightarrow> u64 \<Rightarrow> u32 \<Rightarrow> fuse_dh \<Rightarrow> 'w lib \<Rightarrow> 'w outcome option" where
  "readdir_reply req need off addr flags dh L =
     (if dh_filled dh then do {
        ((err, dh1), L1) \<leftarrow> readdir_fill_from_list (dh\<lparr>dh_needlen := need\<rparr>) off flags L;
        if err \<noteq> 0 then reply_err req err (store_dh addr dh1 L1) else reply req (ReplyBuf (dh_contents dh1)) (store_dh addr dh1 L1) }
      else reply req (ReplyBuf (dh_contents dh)) (store_dh addr dh L))"

definition fuse_readdir_common ::
  "request \<Rightarrow> fuse_ino \<Rightarrow> nat \<Rightarrow> int \<Rightarrow> fuse_file_info \<Rightarrow> u32 \<Rightarrow> 'w lib \<Rightarrow> 'w outcome option" where
  "fuse_readdir_common req ino sz off llfi flags L0 = do {
     L \<leftarrow> req_fuse_prepare req L0;
     (dh0, fi) \<leftarrow> get_dirhandle L llfi;
     let dh = (if off = 0 then dh0\<lparr>dh_filled := False\<rparr> else dh0);
     let need = sz mod 2 ^ 32;
     if dh_filled dh then readdir_reply req need off (fi_fh llfi) flags dh L
     else readdir_fill req ino need off dh fi flags (\<lambda>err dh1 L1.
            if err \<noteq> 0 then reply_err req err (store_dh (fi_fh llfi) dh1 L1)
            else readdir_reply req need off (fi_fh llfi) flags dh1 L1) L }"

definition fuse_lib_readdir :: "request \<Rightarrow> fuse_ino \<Rightarrow> nat \<Rightarrow> int \<Rightarrow> fuse_file_info \<Rightarrow> 'w lib \<Rightarrow> 'w outcome option" where
  "fuse_lib_readdir req ino sz off llfi = fuse_readdir_common req ino sz off llfi 0"

definition fuse_lib_readdirplus :: "request \<Rightarrow> fuse_ino \<Rightarrow> nat \<Rightarrow> int \<Rightarrow> fuse_file_info \<Rightarrow> 'w lib \<Rightarrow> 'w outcome option" where
  "fuse_lib_readdirplus req ino sz off llfi = fuse_readdir_common req ino sz off llfi FUSE_READDIR_PLUS"

definition fuse_lib_releasedir :: "request \<Rightarrow> fuse_ino \<Rightarrow> fuse_file_info \<Rightarrow> 'w lib \<Rightarrow> 'w outcome option" where
  "fuse_lib_releasedir req ino llfi L0 = do {
     L \<leftarrow> req_fuse_prepare req L0;
     (_, fi) \<leftarrow> get_dirhandle L llfi;
     with_get_path_nullok req L ino (\<lambda>_ path L1.
       let L2 = L1\<lparr>l_env := snd (fuse_fs_releasedir (l_fs L1) path fi (l_env L1))\<rparr>
       in with_fuse L2 (free_path (l_f L2) ino path) (\<lambda>L3.
            reply_err req 0 (L3\<lparr>l_dhs := (l_dhs L3)(fi_fh llfi := None)\<rparr>))) }"

definition fuse_lib_fsyncdir :: "request \<Rightarrow> fuse_ino \<Rightarrow> bool \<Rightarrow> fuse_file_info \<Rightarrow> 'w lib \<Rightarrow> 'w outcome option" where
  "fuse_lib_fsyncdir req ino datasync llfi L0 = do {
     L \<leftarrow> req_fuse_prepare req L0;
     (_, fi) \<leftarrow> get_dirhandle L llfi;
     with_get_path_nullok req L ino (\<lambda>err path L1.
       path_call_err req L1 ino path err (fuse_fs_fsyncdir (l_fs L1) path datasync fi)) }"

end
