(* ===== verification/Fuse_Dispatch.thy ===== *)
theory Fuse_Dispatch
  imports Fuse_Dirs
begin

text \<open>
  The table \<open>fuse_path_ops\<close> of \<open>lib/fuse.c\<close>, which hands every request to its handler, and the
  proof that each request is answered exactly once.
\<close>

section \<open>The table\<close>

datatype name_call =
    CLookup fuse_ino string
  | CForget fuse_ino nat
  | CForgetMulti "(fuse_ino \<times> nat) list"
  | CMknod fuse_ino string u32 u64
  | CMkdir fuse_ino string u32
  | CUnlink fuse_ino string
  | CRmdir fuse_ino string
  | CSymlink string fuse_ino string
  | CRename fuse_ino string fuse_ino string u32
  | CLink fuse_ino fuse_ino string

primrec name_ops :: "name_call \<Rightarrow> request \<Rightarrow> 'w lib \<Rightarrow> 'w outcome option" where
  "name_ops (CLookup dir name) req = fuse_lib_lookup req dir name"
| "name_ops (CForget ino n) req = fuse_lib_forget req ino n"
| "name_ops (CForgetMulti fs) req = fuse_lib_forget_multi req fs"
| "name_ops (CMknod dir name mode rdev) req = fuse_lib_mknod req dir name mode rdev"
| "name_ops (CMkdir dir name mode) req = fuse_lib_mkdir req dir name mode"
| "name_ops (CUnlink dir name) req = fuse_lib_unlink req dir name"
| "name_ops (CRmdir dir name) req = fuse_lib_rmdir req dir name"
| "name_ops (CSymlink linkname dir name) req = fuse_lib_symlink req linkname dir name"
| "name_ops (CRename olddir oldname newdir newname flags) req = fuse_lib_rename req olddir oldname newdir newname flags"
| "name_ops (CLink ino newdir newname) req = fuse_lib_link req ino newdir newname"

datatype attr_call =
    CGetattr fuse_ino "fuse_file_info option"
  | CSetattr fuse_ino stat u32 "fuse_file_info option"
  | CStatx fuse_ino u32 u32 "fuse_file_info option"
  | CAccess fuse_ino u32
  | CReadlink fuse_ino
  | CStatfs fuse_ino
  | CSetxattr fuse_ino string "byte list" u32
  | CGetxattr fuse_ino string nat
  | CListxattr fuse_ino nat
  | CRemovexattr fuse_ino string

primrec attr_ops :: "attr_call \<Rightarrow> request \<Rightarrow> 'w lib \<Rightarrow> 'w outcome option" where
  "attr_ops (CGetattr ino fi) req = fuse_lib_getattr req ino fi"
| "attr_ops (CSetattr ino attr valid fi) req = fuse_lib_setattr req ino attr valid fi"
| "attr_ops (CStatx ino flags msk fi) req = fuse_lib_statx req ino flags msk fi"
| "attr_ops (CAccess ino msk) req = fuse_lib_access req ino msk"
| "attr_ops (CReadlink ino) req = fuse_lib_readlink req ino"
| "attr_ops (CStatfs ino) req = fuse_lib_statfs req ino"
| "attr_ops (CSetxattr ino name val flags) req = fuse_lib_setxattr req ino name val flags"
| "attr_ops (CGetxattr ino name sz) req = fuse_lib_getxattr req ino name sz"
| "attr_ops (CListxattr ino sz) req = fuse_lib_listxattr req ino sz"
| "attr_ops (CRemovexattr ino name) req = fuse_lib_removexattr req ino name"

datatype dir_call =
    COpendir fuse_ino fuse_file_info
  | CReaddir fuse_ino nat int fuse_file_info
  | CReaddirplus fuse_ino nat int fuse_file_info
  | CReleasedir fuse_ino fuse_file_info
  | CFsyncdir fuse_ino bool fuse_file_info

primrec dir_ops :: "dir_call \<Rightarrow> request \<Rightarrow> 'w lib \<Rightarrow> 'w outcome option" where
  "dir_ops (COpendir ino fi) req = fuse_lib_opendir req ino fi"
| "dir_ops (CReaddir ino sz off fi) req = fuse_lib_readdir req ino sz off fi"
| "dir_ops (CReaddirplus ino sz off fi) req = fuse_lib_readdirplus req ino sz off fi"
| "dir_ops (CReleasedir ino fi) req = fuse_lib_releasedir req ino fi"
| "dir_ops (CFsyncdir ino datasync fi) req = fuse_lib_fsyncdir req ino datasync fi"

datatype data_call =
    CCreate fuse_ino string u32 fuse_file_info
  | COpen fuse_ino fuse_file_info
  | CRead fuse_ino nat int fuse_file_info
  | CWriteBuf fuse_ino fuse_bufvec int fuse_file_info
  | CFlush fuse_ino fuse_file_info
  | CRelease fuse_ino fuse_file_info
  | CFsync fuse_ino bool fuse_file_info
  | CLseek fuse_ino int u32 fuse_file_info
  | CCopyFileRange fuse_ino int fuse_file_info fuse_ino int fuse_file_info nat u32
  | CFallocate fuse_ino u32 int int fuse_file_info

primrec data_ops :: "data_call \<Rightarrow> request \<Rightarrow> 'w lib \<Rightarrow> 'w outcome option" where
  "data_ops (CCreate dir name mode fi) req = fuse_lib_create req dir name mode fi"
| "data_ops (COpen ino fi) req = fuse_lib_open req ino fi"
| "data_ops (CRead ino sz off fi) req = fuse_lib_read req ino sz off fi"
| "data_ops (CWriteBuf ino buf off fi) req = fuse_lib_write_buf req ino buf off fi"
| "data_ops (CFlush ino fi) req = fuse_lib_flush req ino fi"
| "data_ops (CRelease ino fi) req = fuse_lib_release req ino fi"
| "data_ops (CFsync ino datasync fi) req = fuse_lib_fsync req ino datasync fi"
| "data_ops (CLseek ino off whence fi) req = fuse_lib_lseek req ino off whence fi"
| "data_ops (CCopyFileRange ino_in off_in fi_in ino_out off_out fi_out len flags) req =
     fuse_lib_copy_file_range req ino_in off_in fi_in ino_out off_out fi_out len flags"
| "data_ops (CFallocate ino mode off len fi) req = fuse_lib_fallocate req ino mode off len fi"

datatype misc_call =
    CGetlk fuse_ino fuse_file_info flock
  | CSetlk fuse_ino fuse_file_info flock bool
  | CFlock fuse_ino fuse_file_info u32
  | CBmap fuse_ino nat u64
  | CIoctl fuse_ino u32 u64 fuse_file_info u32 "byte list" nat
  | CPoll fuse_ino fuse_file_info "nat option"

primrec misc_ops :: "misc_call \<Rightarrow> request \<Rightarrow> 'w lib \<Rightarrow> 'w outcome option" where
  "misc_ops (CGetlk ino fi fl) req = fuse_lib_getlk req ino fi fl"
| "misc_ops (CSetlk ino fi fl sleep) req = fuse_lib_setlk req ino fi fl sleep"
| "misc_ops (CFlock ino fi lop) req = fuse_lib_flock req ino fi lop"
| "misc_ops (CBmap ino bs idx) req = fuse_lib_bmap req ino bs idx"
| "misc_ops (CIoctl ino cmd arg fi flags in_buf out_bufsz) req = fuse_lib_ioctl req ino cmd arg fi flags in_buf out_bufsz"
| "misc_ops (CPoll ino fi ph) req = fuse_lib_poll req ino fi ph"

datatype fuse_call =
    NameCall name_call
  | AttrCall attr_call
  | DirCall dir_call
  | DataCall data_call
  | MiscCall misc_call

primrec fuse_path_ops :: "fuse_call \<Rightarrow> request \<Rightarrow> 'w lib \<Rightarrow> 'w outcome option" where
  "fuse_path_ops (NameCall c) = name_ops c"
| "fuse_path_ops (AttrCall c) = attr_ops c"
| "fuse_path_ops (DirCall c) = dir_ops c"
| "fuse_path_ops (DataCall c) = data_ops c"
| "fuse_path_ops (MiscCall c) = misc_ops c"

section \<open>One answer per request\<close>

text \<open>
  \<open>sends i n log out\<close>: from a log \<open>log\<close> on, the outcome \<open>out\<close> and everything that follows when its
  waits end, whatever other requests did to the state meanwhile, adds exactly \<open>n\<close> replies, all
  to request \<open>i\<close>.
\<close>

inductive sends :: "nat \<Rightarrow> nat \<Rightarrow> (nat \<times> reply) list \<Rightarrow> 'w outcome \<Rightarrow> bool" where
  finished: "l_log L = log @ map (Pair i) rs \<Longrightarrow> length rs = n \<Longrightarrow> sends i n log (Finished L)"
| waiting: "l_log L = log @ map (Pair i) rs \<Longrightarrow> length rs + m = n \<Longrightarrow>
    (\<And>err o2 L2 out. k err o2 L2 = Some out \<Longrightarrow> sends i m (l_log L2) out) \<Longrightarrow> sends i n log (Waiting L k)"
| wait_forget: "l_log L = log @ map (Pair i) rs \<Longrightarrow> length rs + m = n \<Longrightarrow>
    (\<And>L2 out. k L2 = Some out \<Longrightarrow> sends i m (l_log L2) out) \<Longrightarrow> sends i n log (WaitForget L k)"

inductive_cases sends_FinishedE: "sends i n log (Finished L)"
inductive_cases sends_WaitingE: "sends i n log (Waiting L k)"
inductive_cases sends_WaitForgetE: "sends i n log (WaitForget L k)"

text \<open>\<open>answers i n k\<close>: the rest \<open>k\<close> of a handler sends \<open>n\<close> replies.\<close>

definition answers :: "nat \<Rightarrow> nat \<Rightarrow> ('w lib \<Rightarrow> 'w outcome option) \<Rightarrow> bool" where
  "answers i n k \<longleftrightarrow> (\<forall>L out. k L = Some out \<longrightarrow> sends i n (l_log L) out)"

lemma answersI: "(\<And>L out. k L = Some out \<Longrightarrow> sends i n (l_log L) out) \<Longrightarrow> answers i n k"
  by (simp add: answers_def)

lemma answersD: "answers i n k \<Longrightarrow> k L = Some out \<Longrightarrow> l_log L = log \<Longrightarrow> sends i n log out"
  by (auto simp: answers_def)

lemma log_send [simp]: "l_log (snd (send req r L)) = l_log L @ [(r_id req, r)]"
  by (simp add: send_def split: prod.split)

lemma log_sendD: "send req r L = (ret, L1) \<Longrightarrow> l_log L1 = l_log L @ [(r_id req, r)]"
  using log_send [of req r L] by simp

lemma sends_prepend:
  assumes "sends i n log1 out" "log1 = log @ map (Pair i) rs"
  shows "sends i (length rs + n) log out"
  using assms
proof (induction arbitrary: log rs rule: sends.induct)
  case (finished L log' i rs' n)
  show ?case by (rule sends.finished [where rs = "rs @ rs'"]) (simp_all add: finished)
next
  case (waiting L log' i rs' m n k)
  show ?case
  proof (rule sends.waiting [where rs = "rs @ rs'" and m = m])
    show "l_log L = log @ map (Pair i) (rs @ rs')" using waiting.hyps(1) waiting.prems by simp
    show "length (rs @ rs') + m = length rs + n" using waiting.hyps(2) by simp
    show "sends i m (l_log L2) out" if "k err o2 L2 = Some out" for err o2 L2 out
      by (rule waiting.hyps(3) [OF that])
  qed
next
  case (wait_forget L log' i rs' m n k)
  show ?case
  proof (rule sends.wait_forget [where rs = "rs @ rs'" and m = m])
    show "l_log L = log @ map (Pair i) (rs @ rs')" using wait_forget.hyps(1) wait_forget.prems by simp
    show "length (rs @ rs') + m = length rs + n" using wait_forget.hyps(2) by simp
    show "sends i m (l_log L2) out" if "k L2 = Some out" for L2 out
      by (rule wait_forget.hyps(3) [OF that])
  qed
qed

lemma sends_after_one: "sends i n (log @ [(i, r)]) out \<Longrightarrow> sends i (Suc n) log out"
  by (drule sends_prepend [where log = log and rs = "[r]"]) simp_all

named_theorems answer_rules \<open>the rest of a handler answers\<close>

lemma answers_finished [answer_rules]: "answers i 0 (\<lambda>L. Some (Finished L))"
  by (auto simp: answers_def intro!: sends.finished [where rs = "[]"])

lemma answers_reply [answer_rules]: "answers (r_id req) (Suc 0) (reply req r)"
  by (auto simp: answers_def reply_def intro!: sends.finished [where rs = "[r]"])

lemma answers_reply_err [answer_rules]: "answers (r_id req) (Suc 0) (reply_err req err)"
  unfolding reply_err_def [abs_def] by (rule answers_reply)

lemma sends_waiting:
  "l_log L = log \<Longrightarrow> (\<And>err o2. answers i n (k err o2)) \<Longrightarrow> sends i n log (Waiting L k)"
  by (rule sends.waiting [where rs = "[]" and m = n]) (auto dest: answersD)

lemma sends_wait_forget:
  "l_log L = log \<Longrightarrow> answers i n k \<Longrightarrow> sends i n log (WaitForget L k)"
  by (rule sends.wait_forget [where rs = "[]" and m = n]) (auto dest: answersD)

lemma with_fuse_sends:
  assumes "with_fuse L r k = Some out" "l_log L = log" "answers i n k"
  shows "sends i n log out"
  using assms by (auto simp: with_fuse_def split: option.splits intro: answersD)

lemma with_path_sends:
  assumes "with_path L r k = Some out" "l_log L = log" "\<And>err path w. answers i n (k err path w)"
  shows "sends i n log out"
proof -
  obtain o1 f1 where r: "r = Some (o1, f1)" using assms(1) by (auto simp: with_path_def split: bind_splits)
  show ?thesis
  proof (cases o1)
    case (PathDone err path w)
    then show ?thesis using assms r by (intro answersD [OF assms(3) [of err path w], where L = "L\<lparr>l_f := f1\<rparr>"]) (simp_all add: with_path_def)
  next
    case PathWait
    then show ?thesis using assms r by (auto simp: with_path_def intro: sends_waiting)
  qed
qed

lemma get_path_sends:
  assumes "with_get_path req L ino k = Some out" "l_log L = log" "\<And>err path. answers i n (k err path)"
  shows "sends i n log out"
  using assms(1,2) unfolding with_get_path_def by (rule with_path_sends) (rule assms(3))

lemma get_path_nullok_sends:
  assumes "with_get_path_nullok req L ino k = Some out" "l_log L = log" "\<And>err path. answers i n (k err path)"
  shows "sends i n log out"
  using assms(1,2) unfolding with_get_path_nullok_def by (rule with_path_sends) (rule assms(3))

lemma get_path_name_sends:
  assumes "with_get_path_name req L ino name k = Some out" "l_log L = log" "\<And>err path. answers i n (k err path)"
  shows "sends i n log out"
  using assms(1,2) unfolding with_get_path_name_def by (rule with_path_sends) (rule assms(3))

lemma get_path_fi_sends:
  assumes "get_path_fi req L ino fi k = Some out" "l_log L = log" "\<And>err path. answers i n (k err path)"
  shows "sends i n log out"
  using assms(1) unfolding get_path_fi_def
  by (cases "fi = None") (auto intro: get_path_sends [OF _ assms(2,3)] get_path_nullok_sends [OF _ assms(2,3)])

lemma get_path2_sends:
  assumes "with_get_path2 req L ino1 nm1 ino2 nm2 w k = Some out" "l_log L = log" "\<And>err o2. answers i n (k err o2)"
  shows "sends i n log out"
proof -
  obtain o1 f1 where r: "get_path2 (r_id req) (l_f L) ino1 nm1 ino2 nm2 w w = Some (o1, f1)"
    using assms(1) by (auto simp: with_get_path2_def split: bind_splits)
  show ?thesis
  proof (cases o1)
    case None
    then show ?thesis using assms r by (auto simp: with_get_path2_def intro: sends_waiting)
  next
    case (Some x)
    obtain err o2 where x: "x = (err, o2)" by (cases x)
    show ?thesis using assms(1,2) r Some x
      by (intro answersD [OF assms(3) [of err o2], where L = "L\<lparr>l_f := f1\<rparr>"]) (simp_all add: with_get_path2_def)
  qed
qed

lemma path_call_sends:
  assumes "path_call L ino path err out0 call k = Some out" "l_log L = log" "\<And>err out1. answers i n (k err out1)"
  shows "sends i n log out"
proof (cases "err = 0")
  case True
  obtain res out1 e1 where c: "call (l_env L) = ((res, out1), e1)" by (metis prod.exhaust)
  show ?thesis using assms(1,2) True c
    by (intro with_fuse_sends [OF _ _ assms(3) [of res out1], where L = "L\<lparr>l_env := e1\<rparr>"]) (simp_all add: path_call_def)
next
  case False
  then show ?thesis using assms(1,2) by (intro answersD [OF assms(3) [of err out0]]) (simp_all add: path_call_def)
qed

lemma path_call_err_sends:
  assumes "path_call_err req L ino path err call = Some out" "l_log L = log"
  shows "sends (r_id req) (Suc 0) log out"
  using assms unfolding path_call_err_def by (rule path_call_sends) (rule answers_reply_err)

lemma log_prepare: "req_fuse_prepare req L = Some L1 \<Longrightarrow> l_log L1 = l_log L"
  by (auto simp: req_fuse_prepare_def fuse_create_context_def Let_def split: bind_splits if_splits prod.splits bool.splits)

lemma prepare_sends:
  assumes "req_fuse_prepare req L0 \<bind> k = Some out" "l_log L0 = log" "answers i n k"
  shows "sends i n log out"
proof -
  obtain L where L: "req_fuse_prepare req L0 = Some L" "k L = Some out" using assms(1) by (auto split: bind_splits)
  show ?thesis by (rule answersD [OF assms(3) L(2)]) (simp add: log_prepare [OF L(1)] assms(2))
qed

lemma bind_sends:
  assumes "r \<bind> k = Some out" "\<And>x. r = Some x \<Longrightarrow> k x = Some out \<Longrightarrow> sends i n log out"
  shows "sends i n log out"
  using assms by (auto split: bind_splits)

lemmas wait_sends = get_path_sends get_path_nullok_sends get_path_name_sends get_path_fi_sends get_path2_sends with_path_sends

lemma reply_sends: "reply req r L = Some out \<Longrightarrow> l_log L = log \<Longrightarrow> sends (r_id req) (Suc 0) log out"
  by (rule answersD [OF answers_reply])

lemma reply_err_sends: "reply_err req err L = Some out \<Longrightarrow> l_log L = log \<Longrightarrow> sends (r_id req) (Suc 0) log out"
  by (rule answersD [OF answers_reply_err])

section \<open>Rules for the rest of a handler\<close>

lemma answers_prepare [answer_rules]:
  "answers i n k \<Longrightarrow> answers i n (\<lambda>L. req_fuse_prepare req L \<bind> k)"
  by (rule answersI, erule prepare_sends) simp_all

lemma answers_get_path [answer_rules]:
  "(\<And>err path. answers i n (k err path)) \<Longrightarrow> answers i n (\<lambda>L. with_get_path req L ino k)"
  by (rule answersI, erule get_path_sends) simp_all

lemma answers_get_path_nullok [answer_rules]:
  "(\<And>err path. answers i n (k err path)) \<Longrightarrow> answers i n (\<lambda>L. with_get_path_nullok req L ino k)"
  by (rule answersI, erule get_path_nullok_sends) simp_all

lemma answers_get_path_name [answer_rules]:
  "(\<And>err path. answers i n (k err path)) \<Longrightarrow> answers i n (\<lambda>L. with_get_path_name req L ino name k)"
  by (rule answersI, erule get_path_name_sends) simp_all

lemma answers_get_path_fi [answer_rules]:
  "(\<And>err path. answers i n (k err path)) \<Longrightarrow> answers i n (\<lambda>L. get_path_fi req L ino fi k)"
  by (rule answersI, erule get_path_fi_sends) simp_all

lemma answers_get_path2 [answer_rules]:
  "(\<And>err o2. answers i n (k err o2)) \<Longrightarrow> answers i n (\<lambda>L. with_get_path2 req L ino1 nm1 ino2 nm2 w k)"
  by (rule answersI, erule get_path2_sends) simp_all

lemma answers_with_path [answer_rules]:
  "(\<And>err path w. answers i n (k err path w)) \<Longrightarrow> answers i n (\<lambda>L. with_path L (r L) k)"
  by (rule answersI, erule with_path_sends) simp_all

lemma answers_path_call [answer_rules]:
  "(\<And>err out1. answers i n (k err out1)) \<Longrightarrow> answers i n (\<lambda>L. path_call L ino path err out0 (call L) k)"
  by (rule answersI, erule path_call_sends) simp_all

lemma answers_path_call_err [answer_rules]:
  "answers (r_id req) (Suc 0) (\<lambda>L. path_call_err req L ino path err (call L))"
  by (rule answersI, erule path_call_err_sends) simp

lemma answers_if [answer_rules]:
  "answers i n a \<Longrightarrow> answers i n b \<Longrightarrow> answers i n (\<lambda>L. if c L then a L else b L)"
  by (simp add: answers_def)

lemma answers_eta: "answers i n (\<lambda>L. k L) \<Longrightarrow> answers i n k"
  by simp

section \<open>Handlers on a path\<close>

text \<open>Steps that only call the file system or change the node store leave the log alone.\<close>

lemma log_do_lookup: "do_lookup L ino name e = Some (r, L1) \<Longrightarrow> l_log L1 = l_log L"
  by (auto simp: do_lookup_def Let_def split: bind_splits option.splits)

lemma log_lookup_path: "lookup_path L ino name path fi = Some (r, L1) \<Longrightarrow> l_log L1 = l_log L"
  by (auto simp: lookup_path_def Let_def split: prod.splits if_splits dest: log_do_lookup)

lemma answers_getattr_reply [answer_rules]: "answers (r_id req) (Suc 0) (getattr_reply req ino hide err buf)"
  by (rule answersI) (auto simp: getattr_reply_def Let_def split: if_splits bind_splits intro: reply_sends reply_err_sends)

lemma answers_getattr: "answers (r_id req) (Suc 0) (fuse_lib_getattr req ino fi)"
  unfolding fuse_lib_getattr_def [abs_def] by (intro answer_rules)

lemma answers_setattr: "answers (r_id req) (Suc 0) (fuse_lib_setattr req ino attr valid fi)"
  unfolding fuse_lib_setattr_def [abs_def]
  by (intro answer_rules; rule answersI) (auto split: bind_splits if_splits intro: reply_sends)

lemma answers_access: "answers (r_id req) (Suc 0) (fuse_lib_access req ino msk)"
  unfolding fuse_lib_access_def [abs_def] by (intro answer_rules)

lemma answers_readlink: "answers (r_id req) (Suc 0) (fuse_lib_readlink req ino)"
  unfolding fuse_lib_readlink_def [abs_def] by (intro answer_rules)

lemma answers_fsync: "answers (r_id req) (Suc 0) (fuse_lib_fsync req ino datasync fi)"
  unfolding fuse_lib_fsync_def [abs_def] by (intro answer_rules)

lemma answers_setxattr: "answers (r_id req) (Suc 0) (fuse_lib_setxattr req ino name val flags)"
  unfolding fuse_lib_setxattr_def [abs_def] by (intro answer_rules)

lemma answers_removexattr: "answers (r_id req) (Suc 0) (fuse_lib_removexattr req ino name)"
  unfolding fuse_lib_removexattr_def [abs_def] by (intro answer_rules)

lemma answers_flock: "answers (r_id req) (Suc 0) (fuse_lib_flock req ino fi lop)"
  unfolding fuse_lib_flock_def [abs_def] by (intro answer_rules)

lemma answers_bmap: "answers (r_id req) (Suc 0) (fuse_lib_bmap req ino bs idx)"
  unfolding fuse_lib_bmap_def [abs_def] by (intro answer_rules)

lemma answers_poll: "answers (r_id req) (Suc 0) (fuse_lib_poll req ino fi ph)"
  unfolding fuse_lib_poll_def [abs_def] by (intro answer_rules)

lemma answers_fallocate: "answers (r_id req) (Suc 0) (fuse_lib_fallocate req ino mode off len fi)"
  unfolding fuse_lib_fallocate_def [abs_def] by (intro answer_rules)

lemma answers_lseek: "answers (r_id req) (Suc 0) (fuse_lib_lseek req ino off whence fi)"
  unfolding fuse_lib_lseek_def [abs_def] by (intro answer_rules)

lemma answers_statx: "answers (r_id req) (Suc 0) (fuse_lib_statx req ino flags msk fi)"
  unfolding fuse_lib_statx_def [abs_def]
  by (intro answer_rules; rule answersI) (auto simp: Let_def split: bind_splits if_splits intro: reply_sends)

lemma answers_statfs: "answers (r_id req) (Suc 0) (fuse_lib_statfs req ino)"
  unfolding fuse_lib_statfs_def [abs_def] Let_def by (intro answer_rules)

lemma answers_xattr_reply:
  assumes "\<And>k. (\<And>res val. answers (r_id req) (Suc 0) (k res val)) \<Longrightarrow> answers (r_id req) (Suc 0) (call k)"
  shows "answers (r_id req) (Suc 0) (xattr_reply req sz call)"
proof (rule answersI)
  fix L :: "'a lib" and out
  assume run: "xattr_reply req sz call L = Some out"
  have *: "answers (r_id req) (Suc 0) (call (\<lambda>res val L2. if res > 0 then reply req (ReplyBuf (take (nat res) val)) L2 else reply_err req res L2))"
    "answers (r_id req) (Suc 0) (call (\<lambda>res _ L2. if res \<ge> 0 then reply req (ReplyXattr res) L2 else reply_err req res L2))"
    by (intro assms answer_rules)+
  show "sends (r_id req) (Suc 0) (l_log L) out"
    using run by (auto simp: xattr_reply_def split: if_splits prod.splits option.splits
        intro: answersD [OF *(1)] answersD [OF *(2)] reply_err_sends)
qed

lemma answers_getxattr: "answers (r_id req) (Suc 0) (fuse_lib_getxattr req ino name sz)"
  unfolding fuse_lib_getxattr_def [abs_def] common_getxattr_def [abs_def]
  by (intro answers_prepare answers_eta [OF answers_xattr_reply] answer_rules)

lemma answers_listxattr: "answers (r_id req) (Suc 0) (fuse_lib_listxattr req ino sz)"
  unfolding fuse_lib_listxattr_def [abs_def] common_listxattr_def [abs_def]
  by (intro answers_prepare answers_eta [OF answers_xattr_reply] answer_rules)

section \<open>Handlers that change the node store\<close>

lemma answers_with_fuse:
  assumes "\<And>L. l_log (g L) = l_log L" "answers i n k"
  shows "answers i n (\<lambda>L. with_fuse (g L) (r L) k)"
  by (rule answersI, erule with_fuse_sends) (simp_all add: assms)

lemma answers_forget_k [answer_rules]:
  assumes "answers i n k"
  shows "answers i n (forget_k req ino m k)"
proof (rule answersI)
  fix L :: "'a lib" and out
  assume run: "forget_k req ino m k L = Some out"
  have later: "answers i n (\<lambda>L2. get_node (l_f L2) ino \<bind>
      (\<lambda>p. forget_finish (dequeue_path (l_f L2) (r_id req)) p m \<bind> (\<lambda>f3. k (L2\<lparr>l_f := f3\<rparr>))))"
    by (rule answersI) (auto split: bind_splits intro: answersD [OF assms])
  obtain finished f1 where f: "forget_node (r_id req) (l_f L) ino m = Some (finished, f1)"
    using run by (auto simp: forget_k_def split: bind_splits)
  show "sends i n (l_log L) out"
  proof (cases finished)
    case True
    then show ?thesis using run f by (intro answersD [OF assms, where L = "L\<lparr>l_f := f1\<rparr>"]) (simp_all add: forget_k_def)
  next
    case False
    then have "out = WaitForget (L\<lparr>l_f := f1\<rparr>) (\<lambda>L2. get_node (l_f L2) ino \<bind>
      (\<lambda>p. forget_finish (dequeue_path (l_f L2) (r_id req)) p m \<bind> (\<lambda>f3. k (L2\<lparr>l_f := f3\<rparr>))))"
      using run f by (simp add: forget_k_def)
    then show ?thesis using later by (auto intro!: sends_wait_forget)
  qed
qed

lemma answers_reply_entry [answer_rules]: "answers (r_id req) (Suc 0) (reply_entry req e err)"
proof (rule answersI)
  fix L :: "'a lib" and out
  assume run: "reply_entry req e err L = Some out"
  obtain ret L1 where s: "send req (ReplyEntry e) L = (ret, L1)" by (rule prod.exhaust)
  note log = log_sendD [OF s]
  have fin: "sends (r_id req) 0 (l_log L1) out" if "err = 0"
    using run s that
    by (auto simp: reply_entry_def split: if_splits intro: answersD [OF answers_finished] answersD [OF answers_forget_k [OF answers_finished]])
  show "sends (r_id req) (Suc 0) (l_log L) out"
  proof (cases "err = 0")
    case True
    then show ?thesis using fin log by (auto intro: sends_after_one)
  next
    case False
    then show ?thesis using run by (auto simp: reply_entry_def intro: reply_err_sends)
  qed
qed

lemma answers_lookup_rest: "answers (r_id req) (Suc 0) (lookup_rest req dir name dot)"
proof -
  let ?fin = "\<lambda>err e L3. with_fuse L3 (case dot of None \<Rightarrow> Some (l_f L3) | Some d \<Rightarrow> unref_node (l_f L3) d) (reply_entry req e err)"
  have fin: "answers (r_id req) (Suc 0) (?fin err e)" for err e
    by (rule answers_with_fuse) (simp_all add: answers_reply_entry)
  show ?thesis
    unfolding lookup_rest_def [abs_def] Let_def
    by (intro answers_get_path_name answers_if fin; rule answersI)
      (auto split: bind_splits elim!: with_fuse_sends intro: fin simp: log_lookup_path)
qed

lemma answers_lookup: "answers (r_id req) (Suc 0) (fuse_lib_lookup req dir name)"
  unfolding fuse_lib_lookup_def [abs_def]
  by (intro answers_prepare; rule answersI)
    (auto split: if_splits option.splits bind_splits intro: answersD [OF answers_lookup_rest] answersD [OF answers_reply_entry])

lemma answers_forget: "answers (r_id req) (Suc 0) (fuse_lib_forget req ino n)"
  unfolding fuse_lib_forget_def [abs_def] by (intro answers_eta [OF answers_forget_k] answer_rules)

lemma answers_forget_all: "answers i n k \<Longrightarrow> answers i n (forget_all req fs k)"
proof (induction fs)
  case Nil
  then show ?case by (simp add: answers_def)
next
  case (Cons x fs)
  obtain ino m where x: "x = (ino, m)" by (cases x)
  have "answers i n (forget_k req ino m (forget_all req fs k))" by (intro answers_forget_k Cons)
  then show ?case by (simp add: answers_def x)
qed

lemma answers_forget_multi: "answers (r_id req) (Suc 0) (fuse_lib_forget_multi req fs)"
  unfolding fuse_lib_forget_multi_def [abs_def] by (intro answers_eta [OF answers_forget_all] answer_rules)

lemma answers_create_entry [answer_rules]: "answers (r_id req) (Suc 0) (create_entry req dir name call)"
  unfolding create_entry_def [abs_def]
  by (intro answers_get_path_name answers_if answers_reply_entry; rule answersI)
    (auto split: prod.splits bind_splits if_splits dest!: log_lookup_path intro!: with_fuse_sends [OF _ _ answers_reply_entry])

lemma log_mknod_path: "mknod_path L dir name path mode rdev = Some (r, L1) \<Longrightarrow> l_log L1 = l_log L"
  by (auto simp: mknod_path_def Let_def split: bind_splits prod.splits if_splits dest!: log_lookup_path)

lemma answers_mknod: "answers (r_id req) (Suc 0) (fuse_lib_mknod req dir name mode rdev)"
  unfolding fuse_lib_mknod_def [abs_def]
  by (intro answers_prepare answers_get_path_name answers_if answers_reply_entry; rule answersI)
    (auto split: bind_splits dest!: log_mknod_path intro!: with_fuse_sends [OF _ _ answers_reply_entry])

lemma answers_mkdir: "answers (r_id req) (Suc 0) (fuse_lib_mkdir req dir name mode)"
  unfolding fuse_lib_mkdir_def [abs_def] by (intro answer_rules answers_eta [OF answers_create_entry])

lemma answers_symlink: "answers (r_id req) (Suc 0) (fuse_lib_symlink req linkname dir name)"
  unfolding fuse_lib_symlink_def [abs_def] by (intro answer_rules answers_eta [OF answers_create_entry])

lemma log_hidden_loop: "hidden_loop k L dir oldname newname = Some (r, L1) \<Longrightarrow> l_log L1 = l_log L"
  by (induction k L dir oldname newname arbitrary: r rule: hidden_loop.induct)
    (auto simp: Let_def split: bind_splits option.splits prod.splits if_splits)

lemma log_hide_node: "hide_node L oldpath dir oldname = Some (err, L1) \<Longrightarrow> l_log L1 = l_log L"
  by (auto simp: hide_node_def hidden_name_def split: bind_splits prod.splits if_splits dest!: log_hidden_loop)

lemma log_unlink_call: "unlink_call L path dir name = Some (err, L1) \<Longrightarrow> l_log L1 = l_log L"
  by (auto simp: unlink_call_def split: bind_splits prod.splits if_splits)

lemma log_unlink_path: "unlink_path L dir name path w = Some (err, L1) \<Longrightarrow> l_log L1 = l_log L"
  by (auto simp: unlink_path_def split: bind_splits prod.splits if_splits dest!: log_hide_node log_unlink_call)

lemma log_rename_path: "rename_path L od on nd nn fl op np = Some (err, L1) \<Longrightarrow> l_log L1 = l_log L"
  by (auto simp: rename_path_def split: bind_splits prod.splits if_splits dest!: log_hide_node)

lemma answers_unlink: "answers (r_id req) (Suc 0) (fuse_lib_unlink req dir name)"
  unfolding fuse_lib_unlink_def [abs_def]
  by (intro answers_prepare answers_with_path answers_if answers_reply_err; rule answersI)
    (auto split: bind_splits dest!: log_unlink_path intro!: with_fuse_sends [OF _ _ answers_reply_err])

lemma answers_rmdir: "answers (r_id req) (Suc 0) (fuse_lib_rmdir req dir name)"
  unfolding fuse_lib_rmdir_def [abs_def]
  by (intro answers_prepare answers_with_path answers_if answers_reply_err; rule answersI)
    (auto split: bind_splits prod.splits intro!: with_fuse_sends [OF _ _ answers_reply_err])

lemma answers_rename: "answers (r_id req) (Suc 0) (fuse_lib_rename req od on nd nn flags)"
  unfolding fuse_lib_rename_def [abs_def]
  by (intro answers_prepare answers_get_path2 answers_if answers_reply_err; rule answersI)
    (auto split: bind_splits dest!: log_rename_path intro!: with_fuse_sends [OF _ _ answers_reply_err])

lemma answers_link: "answers (r_id req) (Suc 0) (fuse_lib_link req ino nd nn)"
  unfolding fuse_lib_link_def [abs_def]
  by (intro answers_prepare answers_get_path2 answers_if answers_reply_entry; rule answersI)
    (auto split: prod.splits bind_splits if_splits dest!: log_lookup_path intro!: with_fuse_sends [OF _ _ answers_reply_entry])

section \<open>Open files, locks and directories\<close>

lemma answers_do_release:
  assumes "answers i n k"
  shows "answers i n (fuse_do_release req ino path fi k)"
proof (rule answersI)
  fix L :: "'a lib" and out
  assume run: "fuse_do_release req ino path fi k L = Some out"
  show "sends i n (l_log L) out"
    using run unfolding fuse_do_release_def Let_def
    by (auto split: prod.splits bind_splits if_splits)
      ((erule answersD [OF assms], simp) |
       (erule get_path_sends, simp, rule answersI, erule with_fuse_sends, simp, rule assms))+
qed

text \<open>The tail of a handler that has already answered and releases its path.\<close>

lemma answers_release_path: "answers i 0 (\<lambda>L. with_fuse L (free_path (l_f L) ino path) (\<lambda>L1. Some (Finished L1)))"
  by (rule answers_with_fuse) (simp_all add: answers_finished)

lemma answers_create_finish: "answers (r_id req) (Suc 0) (create_finish req dir path err e fi)"
proof (rule answersI)
  fix L :: "'a lib" and out
  assume run: "create_finish req dir path err e fi L = Some out"
  note tail = answers_release_path [of "r_id req" dir path]
  show "sends (r_id req) (Suc 0) (l_log L) out"
  proof (cases "err = 0")
    case True
    then obtain f1 where f1: "inc_open (l_f L) (e_ino e) = Some f1" using run by (auto simp: create_finish_def split: bind_splits)
    obtain ret L1 where s: "send req (ReplyCreate e fi) (L\<lparr>l_f := f1\<rparr>) = (ret, L1)" by (rule prod.exhaust)
    have "sends (r_id req) 0 (l_log L1) out"
      using run True f1 s unfolding create_finish_def Let_def
      by (auto split: if_splits elim: answersD [OF tail] answersD [OF answers_do_release [OF answers_forget_k [OF tail]]])
    then show ?thesis using log_sendD [OF s] by (intro sends_after_one) auto
  next
    case False
    then have "sends (r_id req) 0 (l_log (snd (send req (ReplyErr (- err)) L))) out"
      using run unfolding create_finish_def Let_def by (auto elim: answersD [OF tail])
    then show ?thesis by (intro sends_after_one) auto
  qed
qed

lemma answers_open_finish: "answers (r_id req) (Suc 0) (open_finish req ino path err fi)"
proof (rule answersI)
  fix L :: "'a lib" and out
  assume run: "open_finish req ino path err fi L = Some out"
  note tail = answers_release_path [of "r_id req" ino path]
  show "sends (r_id req) (Suc 0) (l_log L) out"
  proof (cases "err = 0")
    case True
    then obtain f1 where f1: "inc_open (l_f L) ino = Some f1" using run by (auto simp: open_finish_def split: bind_splits)
    obtain ret L1 where s: "send req (ReplyOpen fi) (L\<lparr>l_f := f1\<rparr>) = (ret, L1)" by (rule prod.exhaust)
    have "sends (r_id req) 0 (l_log L1) out"
      using run True f1 s unfolding open_finish_def Let_def
      by (auto split: if_splits elim: answersD [OF tail] answersD [OF answers_do_release [OF tail]])
    then show ?thesis using log_sendD [OF s] by (intro sends_after_one) auto
  next
    case False
    then have "sends (r_id req) 0 (l_log (snd (send req (ReplyErr (- err)) L))) out"
      using run unfolding open_finish_def Let_def by (auto elim: answersD [OF tail])
    then show ?thesis by (intro sends_after_one) auto
  qed
qed

lemma answers_create: "answers (r_id req) (Suc 0) (fuse_lib_create req dir name mode fi)"
  unfolding fuse_lib_create_def [abs_def] Let_def
  by (intro answers_prepare answers_get_path_name answers_if answers_create_finish; rule answersI)
    (auto split: prod.splits bind_splits if_splits simp: log_lookup_path
      elim!: answersD [OF answers_create_finish] answersD [OF answers_forget_k [OF answers_create_finish]] dest: log_lookup_path)

lemma log_open_auto_cache: "open_auto_cache L ino path fi = Some (fi1, L1) \<Longrightarrow> l_log L1 = l_log L"
  by (auto simp: open_auto_cache_def Let_def split: bind_splits prod.splits if_splits)

lemma answers_open: "answers (r_id req) (Suc 0) (fuse_lib_open req ino fi)"
  unfolding fuse_lib_open_def [abs_def] Let_def
  by (intro answers_prepare answers_get_path answers_if answers_open_finish; rule answersI)
    (auto split: prod.splits bind_splits if_splits elim!: answersD [OF answers_open_finish] dest: log_open_auto_cache)

lemma answers_read: "answers (r_id req) (Suc 0) (fuse_lib_read req ino sz off fi)"
proof -
  have fin: "answers (r_id req) (Suc 0) (\<lambda>L2. if res = 0 then (case buf of None \<Rightarrow> None | Some b \<Rightarrow> reply req (ReplyData b) L2)
      else reply_err req res L2)" for res buf
    by (rule answersI) (auto split: if_splits option.splits elim: reply_sends reply_err_sends)
  show ?thesis
    unfolding fuse_lib_read_def [abs_def]
    by (intro answers_prepare answers_get_path_nullok answers_if answers_reply_err; rule answersI)
      (auto split: bind_splits elim!: with_fuse_sends intro: fin)
qed

lemma answers_write_buf: "answers (r_id req) (Suc 0) (fuse_lib_write_buf req ino buf off fi)"
  unfolding fuse_lib_write_buf_def [abs_def]
  by (intro answers_prepare answers_get_path_nullok answers_if answers_reply answers_reply_err; rule answersI)
    (auto split: bind_splits elim!: with_fuse_sends intro!: answers_if answers_reply answers_reply_err)

lemma log_flush_common: "fuse_flush_common L ino path fi = Some (err, L1) \<Longrightarrow> l_log L1 = l_log L"
  by (auto simp: fuse_flush_common_def split: prod.splits bind_splits if_splits)

lemma answers_flush: "answers (r_id req) (Suc 0) (fuse_lib_flush req ino fi)"
  unfolding fuse_lib_flush_def [abs_def]
  by (intro answers_prepare answers_get_path_nullok; rule answersI)
    (auto split: bind_splits elim!: with_fuse_sends dest: log_flush_common intro: answers_reply_err)

lemma answers_release: "answers (r_id req) (Suc 0) (fuse_lib_release req ino fi)"
proof -
  have fin: "answers (r_id req) (Suc 0) (\<lambda>L3. with_fuse L3 (free_path (l_f L3) ino path) (reply_err req err))" for path err
    by (rule answers_with_fuse) (simp_all add: answers_reply_err)
  show ?thesis
    unfolding fuse_lib_release_def [abs_def] Let_def
    by (intro answers_prepare answers_get_path_nullok; rule answersI)
      (auto split: bind_splits if_splits elim!: answersD [OF answers_do_release [OF fin]] dest: log_flush_common)
qed

lemma answers_lock_common:
  "(\<And>err fl1. answers i n (k err fl1)) \<Longrightarrow> answers i n (fuse_lock_common req ino fi fl cmd k)"
  unfolding fuse_lock_common_def [abs_def] by (intro answer_rules)

lemma answers_getlk: "answers (r_id req) (Suc 0) (fuse_lib_getlk req ino fi fl)"
proof -
  have fin: "answers (r_id req) (Suc 0) (\<lambda>L1. if err = 0 then reply req (ReplyLock fl1) L1 else reply_err req err L1)" for err fl1
    by (intro answer_rules)
  show ?thesis
    by (rule answersI) (auto simp: fuse_lib_getlk_def split: bind_splits option.splits
        elim: reply_sends answersD [OF answers_lock_common [OF fin]])
qed

lemma answers_setlk: "answers (r_id req) (Suc 0) (fuse_lib_setlk req ino fi fl sleep)"
  unfolding fuse_lib_setlk_def [abs_def]
  by (intro answers_eta [OF answers_lock_common] answers_with_fuse answers_reply_err refl)

lemma answers_ioctl: "answers (r_id req) (Suc 0) (fuse_lib_ioctl req ino cmd arg llfi flags in_buf out_bufsz)"
  unfolding fuse_lib_ioctl_def [abs_def] Let_def
  by (intro answers_prepare answers_if answers_reply_err; rule answersI)
    (auto split: bind_splits if_splits prod.splits elim!: reply_err_sends get_path_nullok_sends
      intro!: answers_path_call answers_if answers_reply answers_reply_err)

lemma answers_copy_file_range:
  "answers (r_id req) (Suc 0) (fuse_lib_copy_file_range req ino_in off_in fi_in ino_out off_out fi_out len flags)"
proof -
  have tail: "answers (r_id req) 0 (\<lambda>L3. with_fuse L3 (free_path (l_f L3) ino_in p1) (\<lambda>L4.
      with_fuse L4 (free_path (l_f L4) ino_out p2) (\<lambda>L5. Some (Finished L5))))" for p1 p2
    by (intro answers_with_fuse answers_release_path refl)
  have sent: "sends (r_id req) (Suc 0) (l_log L) out"
    if "with_fuse (snd (send req r (L\<lparr>l_env := e1\<rparr>))) (free_path (l_f (snd (send req r (L\<lparr>l_env := e1\<rparr>)))) ino_in p1) (\<lambda>L4.
      with_fuse L4 (free_path (l_f L4) ino_out p2) (\<lambda>L5. Some (Finished L5))) = Some out" for L :: "'a lib" and r e1 p1 p2 out
    by (rule sends_after_one [OF answersD [OF tail that]]) simp
  show ?thesis
    unfolding fuse_lib_copy_file_range_def [abs_def] Let_def
    by (intro answers_prepare answers_get_path_nullok answers_if answers_reply_err answers_with_fuse refl; rule answersI)
      (auto split: prod.splits elim!: sent)
qed

lemma sent_finish:
  assumes "with_fuse L1 r (\<lambda>L2. Some (Finished L2)) = Some out" "l_log L1 = log @ [(i, x)]"
  shows "sends i (Suc 0) log out"
  by (rule sends_after_one [OF with_fuse_sends [OF assms answers_finished]])

lemma answers_opendir: "answers (r_id req) (Suc 0) (fuse_lib_opendir req ino llfi)"
  unfolding fuse_lib_opendir_def [abs_def] Let_def
  by (intro answers_prepare; rule answersI;
      auto split: prod.splits if_splits elim!: reply_err_sends get_path_sends intro!: answersI dest!: log_sendD)
    (erule sent_finish, simp)+

lemma log_fill_dir: "fill_dir name statp off flags dh L = Some (r, L1) \<Longrightarrow> l_log L1 = l_log L"
  by (auto simp: fill_dir_def Let_def set_allocs_def keep_entry_def split: if_splits bind_splits prod.splits)

lemma log_fill_dir_plus: "fill_dir_plus name statp off flags dh L = Some (r, L1) \<Longrightarrow> l_log L1 = l_log L"
  by (auto simp: fill_dir_plus_def Let_def set_allocs_def keep_entry_def split: if_splits bind_splits prod.splits dest!: log_do_lookup)

lemma log_run_fill:
  assumes "\<And>name statp off flags dh L r L1. filler name statp off flags dh L = Some (r, L1) \<Longrightarrow> l_log L1 = l_log L"
  shows "run_fill prog filler dh L = Some (r, L1) \<Longrightarrow> l_log L1 = l_log L"
proof (induction prog arbitrary: dh L)
  case (FillEnd res e)
  then show ?case by auto
next
  case (FillDir name statp off flags k)
  then obtain res dh2 L2 where f: "filler name statp off flags dh L = Some ((res, dh2), L2)"
    and k: "run_fill (k res) filler dh2 L2 = Some (r, L1)" by (auto split: bind_splits)
  show ?case using FillDir.IH [OF rangeI k] assms [OF f] by simp
qed

lemma log_list_loop: "list_loop flags pos des dh L = Some (r, L1) \<Longrightarrow> l_log L1 = l_log L"
proof (induction des arbitrary: pos dh L)
  case Nil
  then show ?case by simp
next
  case (Cons de des)
  have step: "l_log L1 = l_log L2"
    if "(case put_entry dh enc of (r, dh1) \<Rightarrow> if r \<noteq> 0 then Some ((0, dh), L2) else list_loop flags (pos + 1) des dh1 L2) = Some (r, L1)"
    for enc L2 using that by (auto split: prod.splits if_splits dest: Cons.IH)
  show ?case
  proof (cases "flags AND FUSE_READDIR_PLUS \<noteq> 0")
    case True
    obtain res e1 L2 where lk: "(if de_flags de AND FUSE_FILL_DIR_PLUS \<noteq> 0 \<and> \<not> is_dot_or_dotdot (de_name de)
        then do_lookup L (dh_nodeid dh) (Some (de_name de)) (zero_entry\<lparr>e_attr := de_stat de\<rparr>)
        else Some ((0, zero_entry\<lparr>e_attr := de_stat de\<rparr>), L)) = Some ((res, e1), L2)"
      using Cons.prems True by (auto simp: Let_def split: bind_splits)
    have "l_log L2 = l_log L" using lk by (auto split: if_splits dest: log_do_lookup)
    moreover have "l_log L1 = l_log L2"
    proof (cases "res = 0")
      case zero: True
      show ?thesis using Cons.prems True lk zero by (intro step) (simp add: Let_def)
    next
      case False
      then show ?thesis using Cons.prems True lk by (simp add: Let_def)
    qed
    ultimately show ?thesis by simp
  next
    case False
    show ?thesis using Cons.prems False by (intro step) (simp add: Let_def)
  qed
qed

lemma log_fill_from_list: "readdir_fill_from_list dh off flags L = Some (r, L1) \<Longrightarrow> l_log L1 = l_log L"
  by (auto simp: readdir_fill_from_list_def set_allocs_def Let_def split: bind_splits if_splits dest!: log_list_loop)

lemma answers_readdir_fill:
  assumes "\<And>err dh. answers i n (k err dh)"
  shows "answers i n (readdir_fill req ino sz off dh fi flags k)"
proof -
  have log: "l_log L1 = l_log L" if "run_fill prog (if c then fill_dir_plus else fill_dir) dh L = Some (r, L1)" for c prog dh L r L1
    using that by (cases c) (auto intro: log_run_fill log_fill_dir log_fill_dir_plus)
  show ?thesis
    unfolding readdir_fill_def [abs_def] Let_def
    by (intro answers_if answers_get_path answers_get_path_nullok assms; rule answersI)
      (auto split: bind_splits elim!: with_fuse_sends dest: log intro: assms)
qed

lemma log_store_dh [simp]: "l_log (store_dh addr dh L) = l_log L"
  by (simp add: store_dh_def)

lemma answers_readdir_reply: "answers (r_id req) (Suc 0) (readdir_reply req need off addr flags dh)"
  by (rule answersI) (auto simp: readdir_reply_def split: if_splits bind_splits elim!: reply_sends reply_err_sends
      dest!: log_fill_from_list)

lemma answers_readdir_common: "answers (r_id req) (Suc 0) (fuse_readdir_common req ino sz off llfi flags)"
proof -
  have k: "answers (r_id req) (Suc 0) (\<lambda>L1. if err \<noteq> 0 then reply_err req err (store_dh addr dh1 L1)
      else readdir_reply req need pos addr flags dh1 L1)" for err dh1 addr need pos
    by (rule answersI) (auto split: if_splits elim: answersD [OF answers_readdir_reply] reply_err_sends)
  show ?thesis
    unfolding fuse_readdir_common_def [abs_def] Let_def
    by (intro answers_prepare; rule answersI)
      (auto split: bind_splits if_splits simp del: power_numeral
        elim!: answersD [OF answers_readdir_reply] answersD [OF answers_readdir_fill [OF k]])
qed

lemma answers_readdir: "answers (r_id req) (Suc 0) (fuse_lib_readdir req ino sz off llfi)"
  unfolding fuse_lib_readdir_def by (rule answers_readdir_common)

lemma answers_readdirplus: "answers (r_id req) (Suc 0) (fuse_lib_readdirplus req ino sz off llfi)"
  unfolding fuse_lib_readdirplus_def by (rule answers_readdir_common)

lemma answers_releasedir: "answers (r_id req) (Suc 0) (fuse_lib_releasedir req ino llfi)"
proof -
  have fin: "answers (r_id req) (Suc 0) (\<lambda>L3. reply_err req 0 (L3\<lparr>l_dhs := (l_dhs L3)(fi_fh llfi := None)\<rparr>))"
    by (rule answersI) (auto elim: reply_err_sends)
  show ?thesis
    unfolding fuse_lib_releasedir_def [abs_def] Let_def
    by (intro answers_prepare; rule answersI)
      (auto split: bind_splits elim!: get_path_nullok_sends intro!: answers_with_fuse fin)
qed

lemma answers_fsyncdir: "answers (r_id req) (Suc 0) (fuse_lib_fsyncdir req ino datasync llfi)"
  unfolding fuse_lib_fsyncdir_def [abs_def]
  by (intro answers_prepare; rule answersI)
    (auto split: bind_splits elim!: get_path_nullok_sends intro: answers_path_call_err)

section \<open>All handlers\<close>

lemma answers_name_ops: "answers (r_id req) (Suc 0) (name_ops c req)"
  by (cases c) (simp_all add: answers_lookup answers_forget answers_forget_multi answers_mknod answers_mkdir answers_unlink
      answers_rmdir answers_symlink answers_rename answers_link)

lemma answers_attr_ops: "answers (r_id req) (Suc 0) (attr_ops c req)"
  by (cases c) (simp_all add: answers_getattr answers_setattr answers_statx answers_access answers_readlink answers_statfs
      answers_setxattr answers_getxattr answers_listxattr answers_removexattr)

lemma answers_dir_ops: "answers (r_id req) (Suc 0) (dir_ops c req)"
  by (cases c) (simp_all add: answers_opendir answers_readdir answers_readdirplus answers_releasedir answers_fsyncdir)

lemma answers_data_ops: "answers (r_id req) (Suc 0) (data_ops c req)"
  by (cases c) (simp_all add: answers_create answers_open answers_read answers_write_buf answers_flush answers_release
      answers_fsync answers_lseek answers_copy_file_range answers_fallocate)

lemma answers_misc_ops: "answers (r_id req) (Suc 0) (misc_ops c req)"
  by (cases c) (simp_all add: answers_getlk answers_setlk answers_flock answers_bmap answers_ioctl answers_poll)

lemma answers_path_ops: "answers (r_id req) (Suc 0) (fuse_path_ops c req)"
  by (cases c) (simp_all add: answers_name_ops answers_attr_ops answers_dir_ops answers_data_ops answers_misc_ops)

end
