(* ===== verification/Handler_Paths.thy ===== *)
theory Handler_Paths
  imports Fuse_Dispatch Path_Properties
begin

text \<open>
  Handlers that take the path of one node, make one call of the file system and relay its
  result. They share one shape, the locale \<open>path_handler\<close>; what holds for the shape is proved
  there once and transferred to each handler by an interpretation.
\<close>

section \<open>Taking and releasing a path\<close>

text \<open>\<open>path_free f ino path\<close>: nothing stands in the way of a reader of the path of node \<open>ino\<close>.\<close>

definition path_free :: "fuse \<Rightarrow> fuse_ino \<Rightarrow> string \<Rightarrow> bool" where
  "path_free f ino path \<longleftrightarrow> allocs f = [] \<and> lockq f = [] \<and>
     (\<exists>p ps e. path_request f ino p ps e None False \<and> is_root (nodes f) e \<and>
        (\<forall>x\<in>insert e (set ps). \<forall>n. nodes f x = Some n \<longrightarrow> 0 \<le> treelock n) \<and>
        path = (if spell (nodes f) ps = [] then ''/'' else spell (nodes f) ps))"

text \<open>
  \<open>locked_path f ino path f1\<close>: \<open>f1\<close> is \<open>f\<close> with the path taken; giving it back restores \<open>f\<close> up
  to the allocation tape.
\<close>

definition locked_path :: "fuse \<Rightarrow> fuse_ino \<Rightarrow> string option \<Rightarrow> fuse \<Rightarrow> bool" where
  "locked_path f ino path f1 \<longleftrightarrow> free_path f1 ino path = Some (f\<lparr>allocs := allocs f1\<rparr>) \<and> conf f1 = conf f"

lemma taken_locked:
  assumes req: "path_request f ino p ps e None False" and q: "lockq f = []"
    and t: "path_taken f ps e None None path f1"
  shows "locked_path f ino path f1"
proof -
  have "unlock_path f1 ino None None = Some (f\<lparr>allocs := allocs f1\<rparr>)"
    by (rule unlock_taken [OF req _ t]) simp
  then show ?thesis using t q by (auto simp: locked_path_def free_path_def free_path_wrlock_def path_taken_def)
qed

text \<open>A request for a path ends in one of three ways.\<close>

lemma get_path_cases:
  assumes req: "path_request f ino p ps e None False" and q: "lockq f = []"
  obtains (granted) path f1 where "get_path_common i f ino None False = Some (PathDone 0 (Some path) None, f1)"
      "locked_path f ino (Some path) f1"
  | (failed) err a where "get_path_common i f ino None False = Some (PathDone err None None, f\<lparr>allocs := a\<rparr>)"
      "err = - ENOMEM \<or> err = - ESTALE"
  | (queued) a qe where "get_path_common i f ino None False = Some (PathWait, f\<lparr>allocs := a, lockq := [qe]\<rparr>)" "qe_id qe = i"
proof (cases rule: path_request_cases [OF req])
  case (1 path w f')
  have w: "w = None" using 1(2) by simp
  obtain path1 where p1: "path = Some path1" using 1(3) by (auto simp: path_taken_def)
  show ?thesis
    by (rule granted) (use 1 w p1 taken_locked [OF req q] in \<open>simp_all add: get_path_common_def EAGAIN_def\<close>)
next
  case (2 err f')
  obtain a where f': "f' = f\<lparr>allocs := a\<rparr>" and err: "err = - ENOMEM \<or> err = - ESTALE \<or> err = - EAGAIN"
    using 2(3) by (auto simp: path_refused_def)
  show ?thesis
  proof (cases "err = - EAGAIN")
    case True
    then show ?thesis using 2(1) f' q
      by (intro queued [where a = a and qe = "(blank_qe i ino)\<lparr>wants_path1 := True\<rparr>"]) (simp_all add: get_path_common_def queue_path_def blank_qe_def)
  next
    case False
    then show ?thesis using 2(1) f' err by (intro failed) (simp_all add: get_path_common_def)
  qed
qed

text \<open>An empty tape (no allocation fails) stays empty.\<close>

lemma add_name_tape: "add_name [] b name = Some (r, a) \<Longrightarrow> a = []"
  by (auto simp: add_name_def Let_def split: bind_splits if_splits option.splits prod.splits)

lemma path_loop_tape:
  assumes "path_loop nl f b p = Some y"
  shows "allocs f = [] \<longrightarrow> allocs (snd y) = []"
proof (rule path_loop.raw_induct [where P = "\<lambda>nl f b p y. allocs f = [] \<longrightarrow> allocs (snd y) = []", OF _ assms])
  fix loop nl f b p and y :: "(int \<times> path_buf \<times> ptr) \<times> fuse"
  assume IH: "\<And>nl f b p y. loop nl f b p = Some y \<Longrightarrow> allocs f = [] \<longrightarrow> allocs (snd y) = []"
    and step: "(case nodes f p of
        None \<Rightarrow> None
      | Some n \<Rightarrow>
          if nodeid n = FUSE_ROOT_ID then Some ((0, b, p), f)
          else (case (n_name n, parent n) of
                  (Some name, Some q) \<Rightarrow>
                    (case add_name (allocs f) b name of
                       None \<Rightarrow> None
                     | Some (None, a) \<Rightarrow> Some ((- ENOMEM, b, p), f\<lparr>allocs := a\<rparr>)
                     | Some (Some b1, a) \<Rightarrow>
                         if nl \<and> treelock n < 0 then Some ((- EAGAIN, b1, p), f\<lparr>allocs := a\<rparr>)
                         else loop nl
                                (if nl then put_node p (n\<lparr>treelock := treelock n + 1\<rparr>) (f\<lparr>allocs := a\<rparr>)
                                 else f\<lparr>allocs := a\<rparr>) b1 q)
                | _ \<Rightarrow> Some ((- ESTALE, b, p), f))) = Some y"
  show "allocs f = [] \<longrightarrow> allocs (snd y) = []"
  proof
    assume "allocs f = []"
    with step show "allocs (snd y) = []"
      by (auto simp: put_node_def split: option.splits if_splits dest!: add_name_tape IH)
  qed
qed

lemma try_get_path_tape:
  assumes "try_get_path f ino name False True = Some ((0, path, w), f1)" "allocs f = []"
  shows "allocs f1 = []"
  using assms
  by (cases name) (auto simp: try_get_path_def Let_def split: bind_splits if_splits option.splits
      dest!: path_loop_tape add_name_tape)

lemma get_path_free:
  assumes "path_free f ino path"
  obtains f1 where "get_path_common i f ino None False = Some (PathDone 0 (Some path) None, f1)"
    "free_path f1 ino (Some path) = Some f" "conf f1 = conf f" "allocs f1 = []"
proof -
  obtain p ps e where q: "allocs f = []" "lockq f = []" and req: "path_request f ino p ps e None False"
    and e: "is_root (nodes f) e" "\<forall>x\<in>insert e (set ps). \<forall>n. nodes f x = Some n \<longrightarrow> 0 \<le> treelock n"
    and path: "path = (if spell (nodes f) ps = [] then ''/'' else spell (nodes f) ps)"
    using assms by (auto simp: path_free_def)
  obtain path1 w f1 where t: "try_get_path f ino None False True = Some ((0, path1, w), f1)"
    "path_taken f ps e None w path1 f1"
    by (rule unlocked_request_taken [OF req q(1) e]) simp_all
  have w: "w = None" by (rule path_request_cases [OF req]) (use t(1) in auto)
  have p1: "path1 = Some path" using t(2) path by (auto simp: path_taken_def name_suffix_def split: list.splits)
  have l: "locked_path f ino path1 f1" using taken_locked [OF req q(2)] t(2) w by simp
  have "allocs f1 = []" by (rule try_get_path_tape [OF t(1) q(1)])
  then show ?thesis using l t(1) w p1 q(1)
    by (intro that [of f1]) (simp_all add: get_path_common_def EAGAIN_def locked_path_def)
qed

section \<open>The shape of a handler\<close>

definition req_env :: "request \<Rightarrow> 'w lib \<Rightarrow> 'w env" where
  "req_env req L = (l_env L)\<lparr>e_ctx := \<lparr>ctx_uid = r_uid req, ctx_gid = r_gid req, ctx_pid = r_pid req,
     ctx_umask = r_umask req, private_data = 0\<rparr>\<rparr>"

lemma prepare_ctx: "l_has_ctx L \<Longrightarrow> req_fuse_prepare req L = Some (L\<lparr>l_env := req_env req L\<rparr>)"
  by (simp add: req_fuse_prepare_def fuse_create_context_def req_env_def Let_def)

text \<open>What the caller sees of such a handler: one call of the file system, one reply.\<close>

definition relay ::
  "('w fuse_fs \<Rightarrow> string option \<Rightarrow> 'w env \<Rightarrow> (int \<times> 'a) \<times> 'w env) \<Rightarrow> (int \<Rightarrow> 'a \<Rightarrow> reply) \<Rightarrow> request \<Rightarrow>
   string option \<Rightarrow> 'w lib \<Rightarrow> 'w lib" where
  "relay call answer req path L =
     (case call (l_fs L) path (req_env req L) of
        ((res, out), e1) \<Rightarrow> snd (send req (answer res out) (L\<lparr>l_env := e1\<rparr>)))"

text \<open>\<open>nullok\<close>: the handler uses \<open>get_path_nullok\<close>, which allows a null path.\<close>

definition get_path_for ::
  "bool \<Rightarrow> request \<Rightarrow> 'w lib \<Rightarrow> fuse_ino \<Rightarrow> (int \<Rightarrow> string option \<Rightarrow> 'w lib \<Rightarrow> 'w outcome option) \<Rightarrow> 'w outcome option" where
  "get_path_for nullok = (if nullok then with_get_path_nullok else with_get_path)"

definition path_for :: "bool \<Rightarrow> 'w lib \<Rightarrow> string \<Rightarrow> string option" where
  "path_for nullok L path = (if nullok \<and> nullpath_ok (conf (l_f L)) then None else Some path)"

text \<open>
  \<open>settled req L out\<close>: the request has been answered once and the node store is as it was, or it
  waits in the queue and nothing else happened.
\<close>

definition settled :: "request \<Rightarrow> 'w lib \<Rightarrow> 'w outcome \<Rightarrow> bool" where
  "settled req L out \<longleftrightarrow>
     (case out of
        Finished L' \<Rightarrow> (\<exists>r t. l_log L' = l_log L @ [(r_id req, r)] \<and> l_f L' = (l_f L)\<lparr>allocs := t\<rparr>)
      | Waiting L' _ \<Rightarrow> l_log L' = l_log L \<and> l_env L' = req_env req L \<and>
          (\<exists>qe t. l_f L' = (l_f L)\<lparr>allocs := t, lockq := [qe]\<rparr> \<and> qe_id qe = r_id req)
      | WaitForget _ _ \<Rightarrow> False)"

lemma get_path_for_free:
  assumes free: "path_free (l_f L) ino path"
  obtains f1 where "\<And>k. get_path_for nullok req L ino k = k 0 (path_for nullok L path) (L\<lparr>l_f := f1\<rparr>)"
    "free_path f1 ino (path_for nullok L path) = Some (l_f L)" "conf f1 = conf (l_f L)" "allocs f1 = []"
proof (cases "nullok \<and> nullpath_ok (conf (l_f L))")
  case True
  show ?thesis
    by (rule that [of "l_f L"]) (use True free in \<open>simp_all add: get_path_for_def with_get_path_nullok_def get_path_nullok_def
      with_path_def path_for_def free_path_def ESTALE_def path_free_def\<close>)
next
  case False
  obtain f1 where f1: "get_path_common (r_id req) (l_f L) ino None False = Some (PathDone 0 (Some path) None, f1)"
    "free_path f1 ino (Some path) = Some (l_f L)" "conf f1 = conf (l_f L)" "allocs f1 = []" by (rule get_path_free [OF free])
  have e: "(0::int) \<noteq> - ESTALE" by (simp add: ESTALE_def)
  have p: "path_for nullok L path = Some path" using False by (auto simp: path_for_def)
  show ?thesis
    by (rule that [of f1]) (use f1 e p False in \<open>auto simp: get_path_for_def with_get_path_nullok_def get_path_nullok_def
      with_path_def with_get_path_def get_path_def\<close>)
qed

lemma get_path_for_cases:
  assumes req: "path_request (l_f L) ino p ps e None False" and q: "lockq (l_f L) = []"
  obtains (now) err path f1 t where "\<And>k. get_path_for nullok req L ino k = k err path (L\<lparr>l_f := f1\<rparr>)"
      "free_path f1 ino path = Some ((l_f L)\<lparr>allocs := t\<rparr>)" "err \<noteq> 0 \<Longrightarrow> path = None"
  | (later) t qe where "\<And>k. \<exists>k'. get_path_for nullok req L ino k =
        Some (Waiting (L\<lparr>l_f := (l_f L)\<lparr>allocs := t, lockq := [qe]\<rparr>\<rparr>) k')" "qe_id qe = r_id req"
proof (cases "nullok \<and> nullpath_ok (conf (l_f L))")
  case True
  show ?thesis
    by (rule now [of 0 None "l_f L" "allocs (l_f L)"])
      (use True in \<open>simp_all add: get_path_for_def with_get_path_nullok_def get_path_nullok_def with_path_def ESTALE_def free_path_def\<close>)
next
  case False
  then have eq: "get_path_for nullok req L ino k =
      with_path L (get_path_common (r_id req) (l_f L) ino None False)
        (\<lambda>err path _. k (if nullok \<and> err = - ESTALE then 0 else err) path)" for k
    by (auto simp: get_path_for_def with_get_path_nullok_def get_path_nullok_def with_get_path_def get_path_def with_path_def
        split: bind_splits path_out.splits intro!: arg_cong [where f = "\<lambda>g. Option.bind _ g"] ext)
  show ?thesis
  proof (cases rule: get_path_cases [OF req q, of "r_id req"])
    case (1 path f1)
    then show ?thesis
      by (intro now [of 0 "Some path" f1 "allocs f1"]) (simp_all add: eq with_path_def locked_path_def ESTALE_def)
  next
    case (2 err a)
    then show ?thesis
      by (intro now [of "if nullok \<and> err = - ESTALE then 0 else err" None "(l_f L)\<lparr>allocs := a\<rparr>" a])
        (simp_all add: eq with_path_def free_path_def)
  next
    case (3 a qe)
    then show ?thesis by (intro later [of qe a]) (simp_all add: eq with_path_def)
  qed
qed

locale path_handler =
  fixes h :: "request \<Rightarrow> fuse_ino \<Rightarrow> 'w lib \<Rightarrow> 'w outcome option"
    and nullok :: bool
    and call :: "'w fuse_fs \<Rightarrow> string option \<Rightarrow> 'w env \<Rightarrow> (int \<times> 'a) \<times> 'w env"
    and answer :: "int \<Rightarrow> 'a \<Rightarrow> reply"
    and failure :: "int \<Rightarrow> reply"
  assumes shape: "h req ino L0 = Option.bind (req_fuse_prepare req L0) (\<lambda>L.
      get_path_for nullok req L ino (\<lambda>err path L1.
        if err \<noteq> 0 then reply req (failure err) L1
        else case call (l_fs L1) path (l_env L1) of
               ((res, out), e1) \<Rightarrow>
                 with_fuse (L1\<lparr>l_env := e1\<rparr>) (free_path (l_f L1) ino path) (reply req (answer res out))))"
begin

lemma relays:
  assumes ctx: "l_has_ctx L" and free: "path_free (l_f L) ino path"
  shows "h req ino L = Some (Finished (relay call answer req (path_for nullok L path) L))"
proof -
  let ?L = "L\<lparr>l_env := req_env req L\<rparr>"
  have free': "path_free (l_f ?L) ino path" using free by simp
  obtain f1 where f1: "\<And>k. get_path_for nullok req ?L ino k = k 0 (path_for nullok ?L path) (?L\<lparr>l_f := f1\<rparr>)"
    "free_path f1 ino (path_for nullok ?L path) = Some (l_f ?L)"
    by (rule get_path_for_free [OF free', where nullok = nullok and req = req], rule that)
  have p: "path_for nullok ?L path = path_for nullok L path" by (simp add: path_for_def)
  obtain res out e1 where c: "call (l_fs L) (path_for nullok L path) (req_env req L) = ((res, out), e1)"
    by (metis prod.exhaust)
  show ?thesis using f1 c ctx unfolding p by (simp add: shape prepare_ctx with_fuse_def relay_def reply_def)
qed

lemma settles:
  assumes ctx: "l_has_ctx L" and req: "path_request (l_f L) ino p ps e None False" and q: "lockq (l_f L) = []"
  shows "\<exists>out. h req ino L = Some out \<and> settled req L out"
proof -
  let ?L = "L\<lparr>l_env := req_env req L\<rparr>"
  have req': "path_request (l_f ?L) ino p ps e None False" "lockq (l_f ?L) = []" using req q by simp_all
  show ?thesis
  proof (cases rule: get_path_for_cases [OF req', of nullok req])
    case (1 err path f1 t)
    show ?thesis
    proof (cases "err = 0")
      case True
      then show ?thesis using 1 ctx
        by (auto simp: shape prepare_ctx with_fuse_def reply_def settled_def send_def split: prod.splits)
    next
      case False
      then show ?thesis using 1 ctx
        by (auto simp: shape prepare_ctx free_path_def reply_def settled_def send_def split: prod.splits)
    qed
  next
    case (2 t qe)
    then show ?thesis using ctx by (fastforce simp: shape prepare_ctx settled_def)
  qed
qed

end

section \<open>The handlers of this shape\<close>

lemma path_call_shape:
  "path_call L ino path err out0 call (\<lambda>res out. reply req (answer res out)) =
     (if err \<noteq> 0 then reply req (answer err out0) L
      else case call (l_env L) of
             ((res, out), e1) \<Rightarrow> with_fuse (L\<lparr>l_env := e1\<rparr>) (free_path (l_f L) ino path) (reply req (answer res out)))"
  by (simp add: path_call_def)

text \<open>The replies: an error code only; a value on success; a number that is not negative.\<close>

definition err_answer :: "int \<Rightarrow> 'a \<Rightarrow> reply" where
  "err_answer err _ = ReplyErr (- err)"

definition value_answer :: "('a \<Rightarrow> reply) \<Rightarrow> int \<Rightarrow> 'a \<Rightarrow> reply" where
  "value_answer mk err out = (if err = 0 then mk out else ReplyErr (- err))"

definition count_answer :: "(int \<Rightarrow> reply) \<Rightarrow> int \<Rightarrow> 'a \<Rightarrow> reply" where
  "count_answer mk res _ = (if res \<ge> 0 then mk res else ReplyErr (- res))"

lemma path_call_err_shape:
  "path_call_err req L ino path err call =
     path_call L ino path err () (plain call) (\<lambda>res out. reply req (err_answer res out))"
  by (simp add: path_call_err_def reply_err_def [abs_def] err_answer_def)

lemma value_shape: "(if err = 0 then reply req (mk out) L else reply_err req err L) = reply req (value_answer mk err out) L"
  by (simp add: value_answer_def reply_err_def)

lemma count_shape:
  "(if err \<ge> 0 then reply req (mk err) L else reply req (ReplyErr (- err)) L) = reply req (count_answer mk err out) L"
  by (simp add: count_answer_def)

lemmas handler_shape = get_path_for_def path_call_err_shape path_call_shape

interpretation access: path_handler "\<lambda>req ino. fuse_lib_access req ino msk" False
    "\<lambda>fs path. plain (fuse_fs_access fs path msk)" err_answer "\<lambda>err. err_answer err ()" for msk
  by unfold_locales (simp add: fuse_lib_access_def handler_shape cong: if_cong)

interpretation setxattr: path_handler "\<lambda>req ino. fuse_lib_setxattr req ino name val flags" False
    "\<lambda>fs path. plain (fuse_fs_setxattr fs path name val flags)" err_answer "\<lambda>err. err_answer err ()" for name val flags
  by unfold_locales (simp add: fuse_lib_setxattr_def handler_shape cong: if_cong)

interpretation removexattr: path_handler "\<lambda>req ino. fuse_lib_removexattr req ino name" False
    "\<lambda>fs path. plain (fuse_fs_removexattr fs path name)" err_answer "\<lambda>err. err_answer err ()" for name
  by unfold_locales (simp add: fuse_lib_removexattr_def handler_shape cong: if_cong)

interpretation fsync: path_handler "\<lambda>req ino. fuse_lib_fsync req ino datasync fi" True
    "\<lambda>fs path. plain (fuse_fs_fsync fs path datasync fi)" err_answer "\<lambda>err. err_answer err ()" for datasync fi
  by unfold_locales (simp add: fuse_lib_fsync_def handler_shape cong: if_cong)

interpretation flock: path_handler "\<lambda>req ino. fuse_lib_flock req ino fi lop" True
    "\<lambda>fs path. plain (fuse_fs_flock fs path fi lop)" err_answer "\<lambda>err. err_answer err ()" for fi lop
  by unfold_locales (simp add: fuse_lib_flock_def handler_shape cong: if_cong)

interpretation fallocate: path_handler "\<lambda>req ino. fuse_lib_fallocate req ino mode off len fi" True
    "\<lambda>fs path. plain (fuse_fs_fallocate fs path mode off len fi)" err_answer "\<lambda>err. err_answer err ()" for mode off len fi
  by unfold_locales (simp add: fuse_lib_fallocate_def handler_shape cong: if_cong)

interpretation readlink: path_handler fuse_lib_readlink False
    "\<lambda>fs path. fuse_fs_readlink fs path (PATH_MAX + 1)" "value_answer (\<lambda>l. ReplyReadlink (take PATH_MAX l))"
    "\<lambda>err. value_answer (\<lambda>l. ReplyReadlink (take PATH_MAX l)) err []"
  by unfold_locales (simp add: fuse_lib_readlink_def handler_shape value_shape [where mk = "\<lambda>l. ReplyReadlink (take PATH_MAX l)"] cong: if_cong)

interpretation bmap: path_handler "\<lambda>req ino. fuse_lib_bmap req ino blocksize idx" False
    "\<lambda>fs path. fuse_fs_bmap fs path blocksize idx" "value_answer ReplyBmap" "\<lambda>err. value_answer ReplyBmap err idx" for blocksize idx
  by unfold_locales (simp add: fuse_lib_bmap_def handler_shape value_shape [where mk = ReplyBmap] cong: if_cong)

interpretation poll: path_handler "\<lambda>req ino. fuse_lib_poll req ino fi ph" True
    "\<lambda>fs path. fuse_fs_poll fs path fi ph 0" "value_answer ReplyPoll" "\<lambda>err. value_answer ReplyPoll err 0" for fi ph
  by unfold_locales (simp add: fuse_lib_poll_def handler_shape value_shape [where mk = ReplyPoll] cong: if_cong)

interpretation lseek: path_handler "\<lambda>req ino. fuse_lib_lseek req ino off whence fi" False
    "\<lambda>fs path. plain (fuse_fs_lseek fs path off whence fi)" "count_answer ReplyLseek" "\<lambda>err. err_answer err ()" for off whence fi
  by unfold_locales
    (simp add: fuse_lib_lseek_def handler_shape count_shape [where mk = ReplyLseek and out = "()"] reply_err_def err_answer_def cong: if_cong)

end
