(* ===== verification/Handler_Lookup.thy ===== *)
theory Handler_Lookup
  imports Handler_Paths
begin

text \<open>
  The lookup handler from the request to the reply: the path of the directory is taken, the file
  system asked for the attributes, the node found or created in the store with the path still
  locked, and the path released.
\<close>

section \<open>Finding a node while a path is locked\<close>

text \<open>\<open>grown f f'\<close>: every node of \<open>f\<close> is in \<open>f'\<close> with its place in the tree and its lock.\<close>

definition grown :: "fuse \<Rightarrow> fuse \<Rightarrow> bool" where
  "grown f f' \<longleftrightarrow> conf f' = conf f \<and> lockq f' = lockq f \<and>
     (\<forall>x n. nodes f x = Some n \<longrightarrow> (\<exists>n'. nodes f' x = Some n' \<and> nodeid n' = nodeid n \<and> n_name n' = n_name n \<and>
        parent n' = parent n \<and> treelock n' = treelock n))"

lemma grownE:
  assumes "grown f f'" "nodes f x = Some n"
  obtains n' where "nodes f' x = Some n'" "nodeid n' = nodeid n" "n_name n' = n_name n" "parent n' = parent n"
    "treelock n' = treelock n"
  using assms by (auto simp: grown_def)

lemma grown_trans: "grown f g \<Longrightarrow> grown g h \<Longrightarrow> grown f h"
  unfolding grown_def by (metis (no_types, lifting))

lemma grown_chain: "chain (nodes f) p ps e \<Longrightarrow> grown f f' \<Longrightarrow> chain (nodes f') p ps e"
proof (induction rule: chain.induct)
  case (chain_Nil p)
  show ?case by (rule chain.chain_Nil)
next
  case (chain_Cons p n nm q ps e)
  obtain n' where n': "nodes f' p = Some n'" "nodeid n' = nodeid n" "n_name n' = n_name n" "parent n' = parent n"
    by (rule grownE [OF chain_Cons.prems chain_Cons.hyps(1)])
  show ?case by (rule chain.chain_Cons [of "nodes f'" p n' nm q]) (use n' chain_Cons in auto)
qed

lemma next_id_rest: "next_id f = Some y \<Longrightarrow> lockq (snd y) = lockq f \<and> allocs (snd y) = allocs f"
proof -
  assume "next_id f = Some y"
  then show ?thesis
  proof (rule next_id.raw_induct [where P = "\<lambda>f y. lockq (snd y) = lockq f \<and> allocs (snd y) = allocs f", rotated])
    fix nx f and y :: "fuse_ino \<times> fuse"
    assume IH: "\<And>f y. nx f = Some y \<Longrightarrow> lockq (snd y) = lockq f \<and> allocs (snd y) = allocs f"
      and step: "(let c = (ctr f + 1) AND 0xffffffff;
          f1 = f\<lparr>ctr := c, f_generation := (if c = 0 then f_generation f + 1 else f_generation f)\<rparr>
        in if c = 0 \<or> c = FUSE_UNKNOWN_INO \<or> get_node_nocheck f1 c \<noteq> None
           then nx f1 else Some (c, f1)) = Some y"
    show "lockq (snd y) = lockq f \<and> allocs (snd y) = allocs f"
      using step by (auto simp: Let_def split: if_splits dest!: IH)
  qed
qed

lemma rehash_rest [simp]: "lockq (rehash_id f) = lockq f" "lockq (rehash_name f) = lockq f"
  by (simp_all add: rehash_id_def rehash_name_def split: prod.split)

lemma hash_id_lockq: "hash_id f p = Some f' \<Longrightarrow> lockq f' = lockq f"
  by (auto simp: hash_id_def Let_def split: bind_splits if_splits)

lemma hash_name_lockq: "hash_name f p i nm = Some (r, f') \<Longrightarrow> lockq f' = lockq f"
  by (auto simp: hash_name_def Let_def split: bind_splits if_splits prod.splits)

lemma alloc_node_lockq: "alloc_node f = (r, f') \<Longrightarrow> lockq f' = lockq f"
  by (auto simp: alloc_node_def split: prod.splits if_splits bool.splits)

lemma find_node_lockq: "find_node f i nm = Some (r, f') \<Longrightarrow> lockq f' = lockq f"
  by (auto simp: find_node_def Let_def remove_node_lru_def free_node_def
      split: option.splits bind_splits if_splits prod.splits
      dest!: next_id_rest hash_id_lockq hash_name_lockq alloc_node_lockq)

text \<open>With memory available a node is found or created.\<close>

lemma find_node_memory:
  assumes "find_node f i (Some nm) = Some (None, f')"
  shows "allocs f \<noteq> []"
proof
  assume "allocs f = []"
  with assms show False
    by (auto simp: find_node_def alloc_node_def hash_name_def Let_def split: option.splits bind_splits if_splits prod.splits
        dest!: next_id_rest)
qed

section \<open>What a lookup does to the store\<close>

text \<open>
  \<open>looked_up f dir name f' p n\<close>: in \<open>f'\<close> the name leads to \<open>p\<close>, whose node \<open>n\<close> has one lookup more
  than in \<open>f\<close> (or is new), the other nodes are those of \<open>f\<close> up to their reference counters, and
  the other names lead where they did.
\<close>

definition looked_up :: "fuse \<Rightarrow> fuse_ino \<Rightarrow> string \<Rightarrow> fuse \<Rightarrow> ptr \<Rightarrow> node \<Rightarrow> bool" where
  "looked_up f dir name f' p n \<longleftrightarrow> fuse_inv f' \<and> lookup_node f' dir name = Some p \<and> nodes f' p = Some n \<and>
     nlookup n = (case nodes f p of None \<Rightarrow> if remember (conf f) \<noteq> 0 then 2 else 1 | Some k \<Rightarrow> nlookup k + 1) \<and>
     (\<forall>x. x \<noteq> p \<longrightarrow> map_option (\<lambda>k. k\<lparr>refctr := 0\<rparr>) (nodes f' x) = map_option (\<lambda>k. k\<lparr>refctr := 0\<rparr>) (nodes f x)) \<and>
     (\<forall>dir' name'. (dir', name') \<noteq> (dir, name) \<longrightarrow> lookup_node f' dir' name' = lookup_node f dir' name')"

lemma find_node_spec:
  assumes inv: "fuse_inv f" and q: "nodes f q = Some m" "nodeid m = dir"
    and few: "card (dom (nodes f)) < 2 ^ 32 - 2" and mem: "allocs f = []"
  obtains p f' n where "find_node f dir (Some name) = Some (Some p, f')" "grown f f'" "looked_up f dir name f' p n"
proof (cases "lookup_node f dir name")
  case (Some p)
  then obtain n where n: "nodes f p = Some n"
    by (auto simp: lookup_node_iff [OF inv] name_match_def split: option.splits)
  obtain f' where f': "find_node f dir (Some name) = Some (Some p, f')" "fuse_inv f'"
    "nodes f' = (nodes f)(p \<mapsto> inc_nlookup n)" "lookup_node f' = lookup_node f" "conf f' = conf f"
    by (rule find_node_cached [OF inv Some n])
  have "grown f f'" using f' n find_node_lockq [OF f'(1)] by (auto simp: grown_def)
  moreover have "looked_up f dir name f' p (inc_nlookup n)" using f' n Some by (auto simp: looked_up_def)
  ultimately show ?thesis using that f'(1) by blast
next
  case None
  show ?thesis
  proof (cases rule: find_node_new [OF inv None q few])
    case (1 f')
    then show ?thesis using find_node_memory mem by blast
  next
    case (2 ino g f')
    let ?p = "next_ptr f"
    define n where "n = inc_nlookup ((new_node f ino g)\<lparr>n_name := Some name, parent := Some q\<rparr>)"
    have ns: "nodes f' = (nodes f)(q \<mapsto> m\<lparr>refctr := refctr m + 1\<rparr>, ?p \<mapsto> n)" using 2(10) by (simp add: n_def)
    have qp: "q \<noteq> ?p" using q(1) 2(3) by auto
    have n: "n_name n = Some name" "parent n = Some q" "nlookup n = (if remember (conf f) \<noteq> 0 then 2 else 1)"
      by (simp_all add: n_def new_node_fields)
    note lk = created_names [OF inv 2(2) q 2(3) ns n(1,2) 2(11)]
    have "grown f f'" using 2 ns q(1) find_node_lockq [OF 2(1)] by (auto simp: grown_def)
    moreover have "looked_up f dir name f' ?p n"
      unfolding looked_up_def
    proof (intro conjI allI impI)
      show "fuse_inv f'" by (rule 2(2))
      show "lookup_node f' dir name = Some ?p" using lk by simp
      show "nodes f' ?p = Some n" by (simp add: ns)
      show "nlookup n = (case nodes f ?p of None \<Rightarrow> if remember (conf f) \<noteq> 0 then 2 else 1 | Some k \<Rightarrow> nlookup k + 1)"
        using n(3) 2(3) by simp
      show "map_option (\<lambda>k. k\<lparr>refctr := 0\<rparr>) (nodes f' x) = map_option (\<lambda>k. k\<lparr>refctr := 0\<rparr>) (nodes f x)"
        if "x \<noteq> ?p" for x using that q(1) by (simp add: ns)
      show "lookup_node f' dir' name' = lookup_node f dir' name'" if "(dir', name') \<noteq> (dir, name)" for dir' name'
      proof (rule option.expand)
        have np: "lookup_node f dir' name' \<noteq> Some ?p" "lookup_node f' dir' name' \<noteq> Some ?p"
          using lk that 2(3) by (auto simp: lookup_node_iff [OF inv] name_match_def)
        then have eq: "lookup_node f' dir' name' = Some x \<longleftrightarrow> lookup_node f dir' name' = Some x" for x
          using lk [of dir' name' x] by (cases "x = ?p") auto
        show "(lookup_node f' dir' name' = None) = (lookup_node f dir' name' = None)"
          using eq by (metis option.exhaust)
        show "the (lookup_node f' dir' name') = the (lookup_node f dir' name')"
          if "lookup_node f' dir' name' \<noteq> None" "lookup_node f dir' name' \<noteq> None"
          using eq that by force
      qed
    qed
    ultimately show ?thesis using that 2(1) by blast
  qed
qed

text \<open>The cached attributes are written into the node found.\<close>

lemma update_stat_spec:
  assumes inv: "fuse_inv f" and n: "nodes f p = Some n"
  obtains f' n' where "update_stat f p st = Some f'" "fuse_inv f'" "nodes f' = (nodes f)(p \<mapsto> n')"
    "nodeid n' = nodeid n" "n_name n' = n_name n" "parent n' = parent n" "treelock n' = treelock n"
    "nlookup n' = nlookup n" "n_generation n' = n_generation n" "lookup_node f' = lookup_node f"
    "conf f' = conf f" "lockq f' = lockq f"
proof -
  obtain now f1 where c: "curr_time f = (now, f1)" by (rule prod.exhaust)
  have t: "f1 = f\<lparr>clock := clock f1\<rparr>"
    using c by (auto simp: curr_time_def split: list.splits)
  define n' where "n' = n\<lparr>cache_valid := cache_valid n \<and> mtime_eq st (mtime n) \<and> st_size st = n_size n,
     mtime := st_mtim st, n_size := st_size st, stat_updated := now\<rparr>"
  have n'f: "nodeid n' = nodeid n" "n_name n' = n_name n" "parent n' = parent n" "treelock n' = treelock n"
    "nlookup n' = nlookup n" "n_generation n' = n_generation n" "refctr n' = refctr n"
    by (simp_all add: n'_def)
  have u: "update_stat f p st = Some (put_node p n' f1)" using n c by (simp add: update_stat_def n'_def Let_def)
  have rest: "nodes f1 = nodes f" "name_table f1 = name_table f" "conf f1 = conf f" "lockq f1 = lockq f"
    by (subst t, simp)+
  have n1: "nodes f1 p = Some n" using n rest by simp
  have i1: "fuse_inv f1" by (subst t) (rule fuse_inv_upd(2) [OF inv])
  have pos: "refctr n > 0" using inv n by (auto simp: fuse_inv_def alive_def)
  have rt: "nodeid n = FUSE_ROOT_ID \<Longrightarrow> nlookup n > 0"
    using inv n unfolding fuse_inv_def ninv_def store_inv_def root_kept_def by blast
  have "fuse_inv (put_node p n' f1)"
    by (rule fuse_inv_put(1) [OF i1 n1]) (use n'f pos rt lock_of_pinned [OF inv n] n in \<open>auto simp: lock_of_def\<close>)
  moreover have "lookup_node (put_node p n' f1) = lookup_node f"
    using lookup_node_put [OF n1 n'f(1-3)] lookup_same [of f1 f] rest by simp
  ultimately show thesis using that [OF u] n'f rest by simp
qed

section \<open>Releasing the path afterwards\<close>

lemma unbump_relock: "unbump A ns = relock (lock_of (unbump A ns)) ns"
  by (auto simp: fun_eq_iff relock_def lock_of_def unbump_def split: option.splits)

lemma same_tree_unbump [simp]: "same_tree ns (unbump A ns)"
  by (auto simp: same_tree_def tree_of_def unbump_def fun_eq_iff option.map_comp o_def)

lemma release_grown:
  assumes req: "path_request f ino p ps e name False" and t: "path_taken f ps e name None path f1"
    and q: "lockq f = []" and g: "grown f1 f2" and inv: "fuse_inv f2"
  shows "free_path f2 ino path = Some (f2\<lparr>nodes := unbump (set ps) (nodes f2)\<rparr>)"
    and "fuse_inv (f2\<lparr>nodes := unbump (set ps) (nodes f2)\<rparr>)"
proof -
  obtain n where n: "nodes f p = Some n" "nodeid n = ino" using req by (auto simp: path_request_def)
  have r: "fuse_inv f" "chain (nodes f) p ps e" using req by (auto simp: path_request_def)
  obtain a where f1: "f1 = f\<lparr>nodes := bump 1 (set ps) (nodes f), allocs := a\<rparr>"
    and pos: "\<forall>x\<in>set ps. \<exists>n. nodes f x = Some n \<and> 0 \<le> treelock n" and root: "is_root (nodes f) e" and path: "path \<noteq> None"
    using t by (auto simp: path_taken_def write_lock_def)
  have st: "same_tree (nodes f) (nodes f1)" by (simp add: f1)
  note d = chain_distinct [OF r]
  have ch: "chain (nodes f2) p ps e" by (rule grown_chain [OF chain_same_tree [OF r(2) st] g])
  have e2: "is_root (nodes f2) e"
    using is_root_same_tree [OF root st] g unfolding is_root_def by (metis grownE)
  have ul: "\<forall>x\<in>set ps. \<exists>n. nodes f2 x = Some n \<and> unlockable (treelock n)"
  proof
    fix x assume x: "x \<in> set ps"
    then obtain k where k: "nodes f x = Some k" "0 \<le> treelock k" using pos by blast
    have "nodes f1 x = Some (k\<lparr>treelock := treelock k + 1\<rparr>)" using x k by (simp add: f1 bump_def)
    from grownE [OF g this] obtain k' where "nodes f2 x = Some k'" "treelock k' = treelock k + 1" by auto
    then show "\<exists>n. nodes f2 x = Some n \<and> unlockable (treelock n)"
      using k(2) by (simp add: unlockable_def TREELOCK_WRITE_def TREELOCK_WAIT_OFFSET_def)
  qed
  obtain n1 where "nodes f1 p = Some n1" "nodeid n1 = ino" using same_treeE [OF st] n by metis
  then obtain n2 where "nodes f2 p = Some n2" "nodeid n2 = ino" using g by (metis grownE)
  then have "get_node f2 ino = Some p" using get_node_iff [OF inv] by blast
  moreover have "unlock_loop f2 p None = Some (f2\<lparr>nodes := unbump (set ps) (nodes f2)\<rparr>)"
    by (rule unlock_loop_spec [OF ch]) (use d e2 ul in \<open>auto simp: is_root_def\<close>)
  moreover have "lockq f2 = []" using g q by (simp add: grown_def f1)
  ultimately show "free_path f2 ino path = Some (f2\<lparr>nodes := unbump (set ps) (nodes f2)\<rparr>)"
    using path by (simp add: free_path_def free_path_wrlock_def unlock_path_def)
  have "fuse_inv (f2\<lparr>nodes := relock (lock_of (unbump (set ps) (nodes f2))) (nodes f2), allocs := allocs f2\<rparr>)"
  proof (rule fuse_inv_relock [OF inv])
    fix x k assume k: "nodes f2 x = Some k" "lock_of (unbump (set ps) (nodes f2)) x \<noteq> 0"
    have "lock_of (nodes f2) x \<noteq> 0"
      using k ul by (cases "x \<in> set ps") (auto simp: lock_of_def unbump_def unlockable_def split: option.splits)
    then show "nlookup k > 0" by (rule lock_of_pinned [OF inv k(1)])
  qed
  then show "fuse_inv (f2\<lparr>nodes := unbump (set ps) (nodes f2)\<rparr>)" using unbump_relock [of "set ps" "nodes f2"] by simp
qed

text \<open>What was looked up under the locks is looked up after them.\<close>

lemma release_looked_up:
  assumes t: "path_taken f ps e name None path f1" and g: "looked_up f1 dir nm f2 p n"
    and inv: "fuse_inv (f2\<lparr>nodes := unbump (set ps) (nodes f2)\<rparr>)"
  obtains n' where "looked_up f dir nm (f2\<lparr>nodes := unbump (set ps) (nodes f2)\<rparr>) p n'"
    "nodeid n' = nodeid n" "n_generation n' = n_generation n"
proof -
  let ?f3 = "f2\<lparr>nodes := unbump (set ps) (nodes f2)\<rparr>"
  obtain a where f1: "f1 = f\<lparr>nodes := bump 1 (set ps) (nodes f), allocs := a\<rparr>"
    and pos: "\<forall>x\<in>set ps. \<exists>n. nodes f x = Some n \<and> 0 \<le> treelock n"
    using t by (auto simp: path_taken_def write_lock_def)
  have lf: "lookup_node f1 = lookup_node f" by (rule lock_only_lookup) (simp_all add: f1)
  have l3: "lookup_node ?f3 = lookup_node f2" by (rule lock_only_lookup) simp_all
  have n: "nodes f2 p = Some n" using g by (simp add: looked_up_def)
  define n' where "n' = (if p \<in> set ps then n\<lparr>treelock := unlock_value (treelock n)\<rparr> else n)"
  have n': "nodes ?f3 p = Some n'" "nlookup n' = nlookup n" "nodeid n' = nodeid n" "n_generation n' = n_generation n"
    using n by (auto simp: n'_def unbump_def)
  have old: "map_option (\<lambda>k. k\<lparr>refctr := 0\<rparr>) (nodes ?f3 x) = map_option (\<lambda>k. k\<lparr>refctr := 0\<rparr>) (nodes f x)"
    if "x \<noteq> p" for x
  proof -
    have eq: "map_option (\<lambda>k. k\<lparr>refctr := 0\<rparr>) (nodes f2 x) = map_option (\<lambda>k. k\<lparr>refctr := 0\<rparr>) (nodes f1 x)"
      using g that by (simp add: looked_up_def)
    show ?thesis
    proof (cases "x \<in> set ps")
      case False
      then show ?thesis using eq by (simp add: f1 bump_def unbump_def)
    next
      case True
      then obtain k where k: "nodes f x = Some k" "0 \<le> treelock k" using pos by blast
      then have "nodes f1 x = Some (k\<lparr>treelock := treelock k + 1\<rparr>)" using True by (simp add: f1 bump_def)
      with eq obtain k2 where k2: "nodes f2 x = Some k2" "k2\<lparr>refctr := 0\<rparr> = k\<lparr>treelock := treelock k + 1, refctr := 0\<rparr>"
        by auto
      have "treelock k2 = treelock k + 1" using arg_cong [OF k2(2), of treelock] by simp
      moreover have "k2\<lparr>treelock := treelock k, refctr := 0\<rparr> = k\<lparr>refctr := 0\<rparr>"
        using k2(2) by (cases k2; cases k) simp
      ultimately show ?thesis using True k k2(1)
        by (simp add: unbump_def unlock_value_def TREELOCK_WAIT_OFFSET_def)
    qed
  qed
  have cnt: "(case nodes f1 p of None \<Rightarrow> c | Some k \<Rightarrow> nlookup k + 1) = (case nodes f p of None \<Rightarrow> c | Some k \<Rightarrow> nlookup k + 1)" for c
    by (auto simp: f1 bump_def split: option.splits)
  have "looked_up f dir nm ?f3 p n'"
    using g inv n' old unfolding looked_up_def l3 lf cnt by (simp add: f1)
  then show thesis using that n' by blast
qed

section \<open>The handler\<close>

lemma set_stat_conf: "conf g = conf f \<Longrightarrow> set_stat g = set_stat f"
  by (simp add: set_stat_def fun_eq_iff)

lemma do_lookup_spec:
  assumes inv: "fuse_inv (l_f L)" and q: "nodes (l_f L) q = Some m" "nodeid m = dir"
    and few: "card (dom (nodes (l_f L))) < 2 ^ 32 - 2" and mem: "allocs (l_f L) = []"
  obtains p n f2 where "do_lookup L dir (Some name) e = Some ((0, e\<lparr>e_ino := nodeid n, e_generation := ucast (n_generation n),
      e_entry_timeout := entry_timeout (conf (l_f L)), e_attr_timeout := attr_timeout (conf (l_f L)),
      e_attr := set_stat (l_f L) (nodeid n) (e_attr e)\<rparr>), L\<lparr>l_f := f2\<rparr>)"
    "grown (l_f L) f2" "looked_up (l_f L) dir name f2 p n"
proof -
  obtain p f1 n where f1: "find_node (l_f L) dir (Some name) = Some (Some p, f1)" "grown (l_f L) f1"
    "looked_up (l_f L) dir name f1 p n" by (rule find_node_spec [OF inv q few mem])
  have n: "nodes f1 p = Some n" and i1: "fuse_inv f1" using f1(3) by (simp_all add: looked_up_def)
  have c1: "conf f1 = conf (l_f L)" using f1(2) by (simp add: grown_def)
  note ss = set_stat_conf [OF c1]
  show thesis
  proof (cases "auto_cache (conf f1)")
    case False
    then show thesis using that [OF _ f1(2,3)] f1(1) n c1 by (simp add: do_lookup_def ss)
  next
    case True
    obtain f2 n2 where f2: "update_stat f1 p (e_attr e) = Some f2" "fuse_inv f2" "nodes f2 = (nodes f1)(p \<mapsto> n2)"
      "nodeid n2 = nodeid n" "n_name n2 = n_name n" "parent n2 = parent n" "treelock n2 = treelock n"
      "nlookup n2 = nlookup n" "n_generation n2 = n_generation n" "lookup_node f2 = lookup_node f1"
      "conf f2 = conf f1" "lockq f2 = lockq f1"
      by (rule update_stat_spec [OF i1 n])
    have "grown f1 f2" using f2 n by (auto simp: grown_def)
    then have g: "grown (l_f L) f2" by (rule grown_trans [OF f1(2)])
    have "looked_up (l_f L) dir name f2 p n2" using f1(3) f2 by (simp add: looked_up_def)
    then show thesis using that [of n2, OF _ g] f1(1) n c1 f2 True ss by (simp add: do_lookup_def set_stat_conf [OF f2(11)])
  qed
qed

text \<open>
  \<open>name_ready L dir name path\<close>: the directory \<open>dir\<close> is linked to the root, the kernel holds the nodes
  on the way, none of them is locked for writing, no request waits, and memory and node ids are
  available.
\<close>

definition name_ready :: "'w lib \<Rightarrow> fuse_ino \<Rightarrow> string \<Rightarrow> string \<Rightarrow> bool" where
  "name_ready L dir name path \<longleftrightarrow> l_has_ctx L \<and> allocs (l_f L) = [] \<and> lockq (l_f L) = [] \<and>
     card (dom (nodes (l_f L))) < 2 ^ 32 - 2 \<and>
     (\<exists>p ps e. path_request (l_f L) dir p ps e (Some name) False \<and> is_root (nodes (l_f L)) e \<and>
        (\<forall>x\<in>insert e (set ps). \<forall>n. nodes (l_f L) x = Some n \<longrightarrow> 0 \<le> treelock n) \<and>
        (\<forall>x\<in>set ps. \<forall>n. nodes (l_f L) x = Some n \<longrightarrow> nlookup n > 0) \<and>
        path = spell (nodes (l_f L)) ps @ ''/'' @ name)"

lemma name_ready_path:
  assumes "name_ready L dir name path"
  obtains p ps e f1 where "path_request (l_f L) dir p ps e (Some name) False"
    "path_taken (l_f L) ps e (Some name) None (Some path) f1"
    "get_path_common i (l_f L) dir (Some name) False = Some (PathDone 0 (Some path) None, f1)"
    "fuse_inv f1" "allocs f1 = []" "conf f1 = conf (l_f L)" "dom (nodes f1) = dom (nodes (l_f L))"
    "free_path f1 dir (Some path) = Some (l_f L)"
proof -
  let ?f = "l_f L"
  obtain p ps e where mem: "allocs ?f = []" and q: "lockq ?f = []" and req: "path_request ?f dir p ps e (Some name) False"
    and e: "is_root (nodes ?f) e" "\<forall>x\<in>insert e (set ps). \<forall>n. nodes ?f x = Some n \<longrightarrow> 0 \<le> treelock n"
    and held: "\<forall>x\<in>set ps. \<forall>n. nodes ?f x = Some n \<longrightarrow> nlookup n > 0"
    and path: "path = spell (nodes ?f) ps @ ''/'' @ name"
    using assms unfolding name_ready_def by blast
  obtain path1 w f1 where t: "try_get_path ?f dir (Some name) False True = Some ((0, path1, w), f1)"
    "path_taken ?f ps e (Some name) w path1 f1"
    by (rule unlocked_request_taken [OF req mem e]) simp_all
  have w: "w = None" by (rule path_request_cases [OF req]) (use t(1) in auto)
  have p1: "path1 = Some path" using t(2) path by (auto simp: path_taken_def name_suffix_def split: list.splits)
  have t': "path_taken ?f ps e (Some name) None (Some path) f1" using t(2) w p1 by simp
  have a1: "allocs f1 = []" by (rule try_get_path_tape [OF t(1) mem])
  show thesis
  proof (rule that [OF req t'])
    show "get_path_common i ?f dir (Some name) False = Some (PathDone 0 (Some path) None, f1)"
      using t(1) w p1 by (simp add: get_path_common_def EAGAIN_def)
    show "fuse_inv f1" by (rule path_taken_inv [OF _ t']) (use req held in \<open>auto simp: path_request_def\<close>)
    show "dom (nodes f1) = dom (nodes ?f)" using t' by (auto simp: path_taken_def bump_def write_lock_def split: if_splits)
    have "unlock_path f1 dir None None = Some (?f\<lparr>allocs := allocs f1\<rparr>)" by (rule unlock_taken [OF req _ t']) simp
    moreover have "?f\<lparr>allocs := []\<rparr> = ?f" using mem by simp
    ultimately show "free_path f1 dir (Some path) = Some ?f"
      using q a1 by (simp add: free_path_def free_path_wrlock_def)
  qed (use a1 t' in \<open>auto simp: path_taken_def\<close>)
qed

text \<open>The entry that is sent for a node.\<close>

definition entry_of :: "fuse \<Rightarrow> node \<Rightarrow> stat \<Rightarrow> fuse_entry_param" where
  "entry_of f n st = \<lparr>e_ino = nodeid n, e_generation = ucast (n_generation n), e_attr = set_stat f (nodeid n) st,
     e_attr_timeout = attr_timeout (conf f), e_entry_timeout = entry_timeout (conf f)\<rparr>"

text \<open>Taking the path, asking for the attributes, finding the node and releasing the path.\<close>

lemma lookup_path_release:
  assumes ready: "name_ready L dir name path" and f1: "path_request (l_f L) dir p ps e (Some name) False"
      "path_taken (l_f L) ps e (Some name) None (Some path) f1" "fuse_inv f1" "allocs f1 = []" "conf f1 = conf (l_f L)"
      "dom (nodes f1) = dom (nodes (l_f L))"
    and fs: "fuse_fs_getattr (l_fs L) (Some path) zero_stat fi (l_env L1) = ((0, st), e1)" and L1: "l_fs L1 = l_fs L" "l_f L1 = f1"
  obtains p' n f2 f3 where "lookup_path L1 dir (Some name) (Some path) fi = Some ((0, entry_of (l_f L) n st), L1\<lparr>l_env := e1, l_f := f2\<rparr>)"
    "free_path f2 dir (Some path) = Some f3" "looked_up (l_f L) dir name f3 p' n" "conf f2 = conf (l_f L)"
proof -
  let ?L = "L1\<lparr>l_env := e1\<rparr>"
  have st: "same_tree (nodes (l_f L)) (nodes f1)" using f1(2) by (auto simp: path_taken_def write_lock_def)
  obtain m where m: "nodes (l_f ?L) p = Some m" "nodeid m = dir"
    using f1(1) same_treeE [OF st] L1 unfolding path_request_def by (metis lib.select_convs(1) lib.update_convs(3) lib.surjective)
  have few: "card (dom (nodes (l_f ?L))) < 2 ^ 32 - 2" using ready f1(6) L1 by (simp add: name_ready_def)
  have inv: "fuse_inv (l_f ?L)" "allocs (l_f ?L) = []" using f1 L1 by simp_all
  let ?e = "zero_entry\<lparr>e_attr := st\<rparr>"
  obtain p' n f2 where d: "do_lookup ?L dir (Some name) ?e = Some ((0, ?e\<lparr>e_ino := nodeid n, e_generation := ucast (n_generation n),
      e_entry_timeout := entry_timeout (conf (l_f ?L)), e_attr_timeout := attr_timeout (conf (l_f ?L)),
      e_attr := set_stat (l_f ?L) (nodeid n) (e_attr ?e)\<rparr>), ?L\<lparr>l_f := f2\<rparr>)"
    "grown (l_f ?L) f2" "looked_up (l_f ?L) dir name f2 p' n"
    by (rule do_lookup_spec [OF inv(1) m few inv(2)])
  have g: "grown f1 f2" and lu: "looked_up f1 dir name f2 p' n" using d L1 by simp_all
  have q0: "lockq (l_f L) = []" using ready by (simp add: name_ready_def)
  have i2: "fuse_inv f2" using lu by (simp add: looked_up_def)
  note rel = release_grown [OF f1(1,2) q0 g i2]
  obtain n' where n': "looked_up (l_f L) dir name (f2\<lparr>nodes := unbump (set ps) (nodes f2)\<rparr>) p' n'"
    "nodeid n' = nodeid n" "n_generation n' = n_generation n"
    by (rule release_looked_up [OF f1(2) lu rel(2)])
  have "lookup_path L1 dir (Some name) (Some path) fi = Some ((0, entry_of (l_f L) n' st), L1\<lparr>l_env := e1, l_f := f2\<rparr>)"
    using d(1) fs L1 f1(5) n' by (simp add: lookup_path_def zero_entry_def entry_of_def set_stat_conf [OF f1(5)])
  then show thesis using that rel(1) n'(1) g f1(5) by (simp add: grown_def)
qed

lemma with_get_path_name_ready:
  assumes "get_path_common (r_id req) (l_f L) dir (Some name) False = Some (PathDone 0 (Some path) None, f1)"
  shows "with_get_path_name req L dir (Some name) k = k 0 (Some path) (L\<lparr>l_f := f1\<rparr>)"
  using assms by (simp add: with_get_path_name_def with_path_def)

lemma reply_entry_sent:
  "fst (ret_pop (l_rets L)) \<noteq> - ENOENT \<Longrightarrow> reply_entry req e 0 L = Some (Finished (snd (send req (ReplyEntry e) L)))"
  by (auto simp: reply_entry_def send_def split: prod.splits)

text \<open>
  \<open>entered req L L' e1 dir name st\<close>: the request is answered with the entry of the node that was
  looked up; \<open>e1\<close> is the environment the file system left.
\<close>

definition entered :: "request \<Rightarrow> 'w lib \<Rightarrow> 'w lib \<Rightarrow> 'w env \<Rightarrow> fuse_ino \<Rightarrow> string \<Rightarrow> stat \<Rightarrow> bool" where
  "entered req L L' e1 dir name st \<longleftrightarrow> l_env L' = e1 \<and>
     (\<exists>p n. looked_up (l_f L) dir name (l_f L') p n \<and>
        l_log L' = l_log L @ [(r_id req, ReplyEntry (entry_of (l_f L) n st))])"

lemma entered_send:
  assumes "looked_up (l_f L) dir name f3 p n" "l_log L1 = l_log L" "l_env L1 = e1" "l_f L1 = f3"
  shows "entered req L (snd (send req (ReplyEntry (entry_of (l_f L) n st)) L1)) e1 dir name st"
  using assms by (auto simp: entered_def send_def split: prod.splits)

lemma lookup_rest_found:
  assumes ready: "name_ready L dir name path" and name: "name \<noteq> ''.''" "name \<noteq> ''..''"
    and fs: "fuse_fs_getattr (l_fs L) (Some path) zero_stat None (req_env req L) = ((0, st), e1)"
    and ret: "fst (ret_pop (l_rets L)) \<noteq> - ENOENT"
  shows "\<exists>L'. fuse_lib_lookup req dir name L = Some (Finished L') \<and> entered req L L' e1 dir name st"
proof -
  let ?L = "L\<lparr>l_env := req_env req L\<rparr>"
  have ctx: "l_has_ctx L" using ready by (simp add: name_ready_def)
  obtain p ps e f1 where f1: "path_request (l_f L) dir p ps e (Some name) False"
    "path_taken (l_f L) ps e (Some name) None (Some path) f1"
    "get_path_common (r_id req) (l_f L) dir (Some name) False = Some (PathDone 0 (Some path) None, f1)"
    "fuse_inv f1" "allocs f1 = []" "conf f1 = conf (l_f L)" "dom (nodes f1) = dom (nodes (l_f L))"
    by (rule name_ready_path [OF ready])
  let ?L1 = "?L\<lparr>l_f := f1\<rparr>"
  have g: "get_path_common (r_id req) (l_f ?L) dir (Some name) False = Some (PathDone 0 (Some path) None, f1)"
    using f1(3) by simp
  have fs': "fuse_fs_getattr (l_fs L) (Some path) zero_stat None (l_env ?L1) = ((0, st), e1)" using fs by simp
  obtain p' n f2 f3 where r: "lookup_path ?L1 dir (Some name) (Some path) None =
      Some ((0, entry_of (l_f L) n st), ?L1\<lparr>l_env := e1, l_f := f2\<rparr>)"
    "free_path f2 dir (Some path) = Some f3" "looked_up (l_f L) dir name f3 p' n" "conf f2 = conf (l_f L)"
    by (rule lookup_path_release [OF ready f1(1,2,4-7) fs']) simp_all
  let ?L3 = "L\<lparr>l_env := e1, l_f := f3\<rparr>"
  have "fuse_lib_lookup req dir name L = reply_entry req (entry_of (l_f L) n st) 0 ?L3"
    using r(1,2) name ctx
    by (simp add: fuse_lib_lookup_def prepare_ctx lookup_rest_def with_get_path_name_ready [OF g] with_fuse_def ENOENT_def)
  moreover have "entered req L (snd (send req (ReplyEntry (entry_of (l_f L) n st)) ?L3)) e1 dir name st"
    by (rule entered_send [OF r(3)]) simp_all
  ultimately show ?thesis using ret by (simp add: reply_entry_sent)
qed

text \<open>The file system reports an error: nothing is cached but, possibly, the absence of the name.\<close>

definition missing_reply :: "fuse_config \<Rightarrow> int \<Rightarrow> stat \<Rightarrow> reply" where
  "missing_reply c res st =
     (if res = - ENOENT \<and> negative_timeout c \<noteq> 0
      then ReplyEntry (zero_entry\<lparr>e_attr := st, e_entry_timeout := negative_timeout c\<rparr>)
      else ReplyErr (- res))"

lemma lookup_rest_missing:
  assumes ready: "name_ready L dir name path" and name: "name \<noteq> ''.''" "name \<noteq> ''..''"
    and fs: "fuse_fs_getattr (l_fs L) (Some path) zero_stat None (req_env req L) = ((res, st), e1)" "res \<noteq> 0"
  shows "fuse_lib_lookup req dir name L =
    Some (Finished (snd (send req (missing_reply (conf (l_f L)) res st) (L\<lparr>l_env := e1\<rparr>))))"
proof -
  let ?L = "L\<lparr>l_env := req_env req L\<rparr>"
  have ctx: "l_has_ctx L" using ready by (simp add: name_ready_def)
  obtain f1 where f1: "get_path_common (r_id req) (l_f L) dir (Some name) False = Some (PathDone 0 (Some path) None, f1)"
    "free_path f1 dir (Some path) = Some (l_f L)" "conf f1 = conf (l_f L)"
    by (rule name_ready_path [OF ready])
  have g: "get_path_common (r_id req) (l_f ?L) dir (Some name) False = Some (PathDone 0 (Some path) None, f1)"
    using f1(1) by simp
  define neg where "neg \<longleftrightarrow> res = - ENOENT \<and> negative_timeout (conf (l_f L)) \<noteq> 0"
  have "fuse_lib_lookup req dir name L =
      reply_entry req (if neg then zero_entry\<lparr>e_attr := st, e_ino := 0, e_entry_timeout := negative_timeout (conf (l_f L))\<rparr>
        else zero_entry\<lparr>e_attr := st\<rparr>) (if neg then 0 else res) (L\<lparr>l_env := e1\<rparr>)"
    using fs f1(2,3) name ctx
    by (simp add: fuse_lib_lookup_def prepare_ctx lookup_rest_def with_get_path_name_ready [OF g] with_fuse_def
        lookup_path_def Let_def neg_def zero_entry_def)
  then show ?thesis using fs(2)
    by (cases neg) (auto simp: reply_entry_def reply_err_def reply_def missing_reply_def zero_entry_def neg_def split: prod.splits)
qed

text \<open>The handlers that create a name and then look it up.\<close>

lemma create_entry_entered:
  assumes ready: "name_ready L dir name path"
    and call: "call (l_fs L) (Some path) (req_env req L) = (0, e0)"
    and fs: "fuse_fs_getattr (l_fs L) (Some path) zero_stat None e0 = ((0, st), e1)"
    and ret: "fst (ret_pop (l_rets L)) \<noteq> - ENOENT"
  shows "\<exists>L'. create_entry req dir name call (L\<lparr>l_env := req_env req L\<rparr>) = Some (Finished L') \<and> entered req L L' e1 dir name st"
proof -
  let ?L = "L\<lparr>l_env := req_env req L\<rparr>"
  obtain p ps e f1 where f1: "path_request (l_f L) dir p ps e (Some name) False"
    "path_taken (l_f L) ps e (Some name) None (Some path) f1"
    "get_path_common (r_id req) (l_f L) dir (Some name) False = Some (PathDone 0 (Some path) None, f1)"
    "fuse_inv f1" "allocs f1 = []" "conf f1 = conf (l_f L)" "dom (nodes f1) = dom (nodes (l_f L))"
    by (rule name_ready_path [OF ready])
  let ?L1 = "?L\<lparr>l_f := f1, l_env := e0\<rparr>"
  have g: "get_path_common (r_id req) (l_f ?L) dir (Some name) False = Some (PathDone 0 (Some path) None, f1)"
    using f1(3) by simp
  have fs': "fuse_fs_getattr (l_fs L) (Some path) zero_stat None (l_env ?L1) = ((0, st), e1)" using fs by simp
  obtain p' n f2 f3 where r: "lookup_path ?L1 dir (Some name) (Some path) None =
      Some ((0, entry_of (l_f L) n st), ?L1\<lparr>l_env := e1, l_f := f2\<rparr>)"
    "free_path f2 dir (Some path) = Some f3" "looked_up (l_f L) dir name f3 p' n"
    by (rule lookup_path_release [OF ready f1(1,2,4-7) fs']) simp_all
  let ?L3 = "L\<lparr>l_env := e1, l_f := f3\<rparr>"
  have "create_entry req dir name call ?L = reply_entry req (entry_of (l_f L) n st) 0 ?L3"
    using r(1,2) call by (simp add: create_entry_def with_get_path_name_ready [OF g] with_fuse_def)
  moreover have "entered req L (snd (send req (ReplyEntry (entry_of (l_f L) n st)) ?L3)) e1 dir name st"
    by (rule entered_send [OF r(3)]) simp_all
  ultimately show ?thesis using ret by (simp add: reply_entry_sent)
qed

lemma create_entry_failed:
  assumes ready: "name_ready L dir name path"
    and call: "call (l_fs L) (Some path) (req_env req L) = (err, e0)" "err \<noteq> 0"
  shows "create_entry req dir name call (L\<lparr>l_env := req_env req L\<rparr>) =
    Some (Finished (snd (send req (ReplyErr (- err)) (L\<lparr>l_env := e0\<rparr>))))"
proof -
  let ?L = "L\<lparr>l_env := req_env req L\<rparr>"
  obtain f1 where f1: "get_path_common (r_id req) (l_f L) dir (Some name) False = Some (PathDone 0 (Some path) None, f1)"
    "free_path f1 dir (Some path) = Some (l_f L)"
    by (rule name_ready_path [OF ready])
  have g: "get_path_common (r_id req) (l_f ?L) dir (Some name) False = Some (PathDone 0 (Some path) None, f1)"
    using f1(1) by simp
  show ?thesis using call f1(2)
    by (simp add: create_entry_def with_get_path_name_ready [OF g] with_fuse_def reply_entry_def reply_err_def reply_def)
qed

end
