(* ===== verification/Handler_Properties.thy ===== *)
theory Handler_Properties
  imports Handler_Lookup
begin

text \<open>
  The properties of the request handlers of \<open>lib/fuse.c\<close>, and the instance of the library on
  which their witnesses run: the small node store and a file system with one directory.
\<close>

section \<open>A library with a small file system\<close>

text \<open>The world is the list of existing paths.\<close>

definition demo_ops :: "string list fuse_operations" where
  "demo_ops = no_ops\<lparr>
     op_getattr := Some (\<lambda>path st fi e.
       if (\<exists>p\<in>set (e_world e). path = Some p) then ((0, st\<lparr>st_mode := 0x41ed\<rparr>), e) else ((- ENOENT, st), e)),
     op_mkdir := Some (\<lambda>path mode e. (0, e\<lparr>e_world := the path # e_world e\<rparr>)),
     op_access := Some (\<lambda>path msk e. (if msk = 0 then 0 else - EPERM, e))\<rparr>"

definition demo_lib :: "string list lib" where
  "demo_lib = \<lparr>l_f = demo2, l_fs = \<lparr>fs_op = demo_ops, user_data = 7, fs_sys = demo_sys\<rparr>,
     l_env = \<lparr>e_ctx = \<lparr>ctx_uid = 0, ctx_gid = 0, ctx_pid = 0, ctx_umask = 0, private_data = 0\<rparr>,
        e_world = [''/a'', ''/b'', ''/a/x''], e_mem = (\<lambda>_. 0), e_brk = 0, e_allocs = []\<rparr>,
     l_log = [], l_rets = [], l_has_ctx = True, l_dhs = Map.empty, l_next_dh = 1\<rparr>"

definition demo_req :: request where
  "demo_req = \<lparr>r_id = 5, r_uid = 1000, r_gid = 100, r_pid = 42, r_umask = 18\<rparr>"

lemma demo_lib_path: "path_free (l_f demo_lib) 2 ''/a''"
proof -
  have "path_request demo2 2 1 [1] 0 None False" by (rule demo_request(1))
  moreover have "\<forall>x\<in>insert 0 (set [1]). \<forall>n. nodes demo2 x = Some n \<longrightarrow> 0 \<le> treelock n" using demo_nodes(1,3) by auto
  ultimately show ?thesis unfolding path_free_def
    using demo_chain(3,4) by (intro conjI exI [of _ 1] exI [of _ "[1]"] exI [of _ 0]) (simp_all add: demo_lib_def demo2_def)
qed

lemma demo_lib_ready:
  assumes "name = ''x'' \<or> name = ''y''"
  shows "name_ready demo_lib 2 name (''/a/'' @ name)"
proof -
  have "path_request demo2 2 1 [1] 0 (Some name) False"
    using assms demo_inv demo_nodes(1) demo_chain
    by (auto simp: path_request_def name_suffix_def name_len_def path_len_def)
  moreover have "\<forall>x\<in>insert 0 (set [1]). \<forall>n. nodes demo2 x = Some n \<longrightarrow> 0 \<le> treelock n" using demo_nodes(1,3) by auto
  moreover have "card (dom (nodes demo2)) < 2 ^ 32 - 2" by (simp add: demo2_def card_insert_if)
  ultimately show ?thesis unfolding name_ready_def
    using demo_chain(3,4) demo_nodes(1)
    by (intro conjI exI [of _ 1] exI [of _ "[1]"] exI [of _ 0]) (simp_all add: demo_lib_def demo2_def)
qed

section \<open>Every request is answered once\<close>

text \<open>
  C26: A handler that is started answers its request exactly once, whatever the file system does:
  when it returns, the log has grown by one reply, and it is to this request; when it has to wait
  for a lock, then it has not answered yet, and it will answer exactly once when it goes on,
  whatever other requests did to the state in the meantime.
\<close>

theorem one_reply_per_request:
  assumes "fuse_path_ops c req L = Some out"
  shows "sends (r_id req) 1 (l_log L) out"
  using answersD [OF answers_path_ops assms refl] by simp

definition demo_access :: "string list lib" where
  "demo_access = relay (\<lambda>fs p. plain (fuse_fs_access fs p 1)) err_answer demo_req (Some ''/a'') demo_lib"

lemma demo_access_log: "l_log demo_access = [(5, ReplyErr EPERM)]" "l_f demo_access = demo2"
  by (simp_all add: demo_access_def relay_def plain_def fuse_fs_access_def call_op_def demo_lib_def demo_ops_def send_def
      err_answer_def demo_req_def)

lemma demo_access_run: "fuse_path_ops (AttrCall (CAccess 2 1)) demo_req demo_lib = Some (Finished demo_access)"
  using access.relays [OF _ demo_lib_path, of demo_req 1]
  by (simp add: demo_access_def path_for_def demo_lib_def)

theorem one_reply_per_request_witness:
  "sends 5 1 [] (Finished demo_access) \<and> l_log demo_access = [(5, ReplyErr EPERM)]"
  using one_reply_per_request [OF demo_access_run] demo_access_log(1) by (simp add: demo_req_def demo_lib_def)

section \<open>Handlers that relay a call\<close>

text \<open>
  What the requests of the shape \<open>path_handler\<close> are to do, written without paths and locks: the
  file system is called with the path of the node and the answer is made of its result.
\<close>

definition attr_relay :: "attr_call \<Rightarrow> request \<Rightarrow> string \<Rightarrow> 'w lib \<Rightarrow> (fuse_ino \<times> 'w lib) option" where
  "attr_relay c req path L =
     (case c of
        CAccess ino msk \<Rightarrow> Some (ino, relay (\<lambda>fs p. plain (fuse_fs_access fs p msk)) err_answer req (Some path) L)
      | CReadlink ino \<Rightarrow> Some (ino, relay (\<lambda>fs p. fuse_fs_readlink fs p (PATH_MAX + 1))
          (value_answer (\<lambda>l. ReplyReadlink (take PATH_MAX l))) req (Some path) L)
      | CSetxattr ino name val flags \<Rightarrow>
          Some (ino, relay (\<lambda>fs p. plain (fuse_fs_setxattr fs p name val flags)) err_answer req (Some path) L)
      | CRemovexattr ino name \<Rightarrow>
          Some (ino, relay (\<lambda>fs p. plain (fuse_fs_removexattr fs p name)) err_answer req (Some path) L)
      | _ \<Rightarrow> None)"

definition data_relay :: "data_call \<Rightarrow> request \<Rightarrow> string \<Rightarrow> 'w lib \<Rightarrow> (fuse_ino \<times> 'w lib) option" where
  "data_relay c req path L =
     (case c of
        CFsync ino datasync fi \<Rightarrow>
          Some (ino, relay (\<lambda>fs p. plain (fuse_fs_fsync fs p datasync fi)) err_answer req (path_for True L path) L)
      | CLseek ino off whence fi \<Rightarrow>
          Some (ino, relay (\<lambda>fs p. plain (fuse_fs_lseek fs p off whence fi)) (count_answer ReplyLseek) req (Some path) L)
      | CFallocate ino mode off len fi \<Rightarrow>
          Some (ino, relay (\<lambda>fs p. plain (fuse_fs_fallocate fs p mode off len fi)) err_answer req (path_for True L path) L)
      | _ \<Rightarrow> None)"

definition misc_relay :: "misc_call \<Rightarrow> request \<Rightarrow> string \<Rightarrow> 'w lib \<Rightarrow> (fuse_ino \<times> 'w lib) option" where
  "misc_relay c req path L =
     (case c of
        CFlock ino fi lop \<Rightarrow>
          Some (ino, relay (\<lambda>fs p. plain (fuse_fs_flock fs p fi lop)) err_answer req (path_for True L path) L)
      | CBmap ino bs idx \<Rightarrow>
          Some (ino, relay (\<lambda>fs p. fuse_fs_bmap fs p bs idx) (value_answer ReplyBmap) req (Some path) L)
      | CPoll ino fi ph \<Rightarrow>
          Some (ino, relay (\<lambda>fs p. fuse_fs_poll fs p fi ph 0) (value_answer ReplyPoll) req (path_for True L path) L)
      | _ \<Rightarrow> None)"

definition relayed :: "fuse_call \<Rightarrow> request \<Rightarrow> string \<Rightarrow> 'w lib \<Rightarrow> (fuse_ino \<times> 'w lib) option" where
  "relayed c req path L =
     (case c of
        AttrCall a \<Rightarrow> attr_relay a req path L
      | DataCall d \<Rightarrow> data_relay d req path L
      | MiscCall m \<Rightarrow> misc_relay m req path L
      | _ \<Rightarrow> None)"

lemma path_for_False: "path_for False L path = Some path"
  by (simp add: path_for_def)

lemmas relay_facts = access.relays readlink.relays setxattr.relays removexattr.relays fsync.relays lseek.relays
  fallocate.relays flock.relays bmap.relays poll.relays

lemmas settle_facts = access.settles readlink.settles setxattr.settles removexattr.settles fsync.settles lseek.settles
  fallocate.settles flock.settles bmap.settles poll.settles

lemmas relay_cases = relayed_def attr_relay_def data_relay_def misc_relay_def

text \<open>
  C27: For access, readlink, setxattr, removexattr, fsync, lseek, fallocate, flock, bmap and poll the
  library is transparent: when nothing holds the path of the node, the request does exactly what
  calling the file system with that path (or a null path where \<open>nullpath_ok\<close> allows it), the
  caller's credentials and the request's arguments does, followed by one reply that carries the
  result; the node store is unchanged.
\<close>

theorem handlers_relay:
  assumes "relayed c req path L = Some (ino, L')" "l_has_ctx L" "path_free (l_f L) ino path"
  shows "fuse_path_ops c req L = Some (Finished L')"
  using assms(1) relay_facts [OF assms(2,3)]
  by (auto simp: relay_cases path_for_False split: fuse_call.splits attr_call.splits data_call.splits misc_call.splits)

theorem handlers_relay_witness:
  "fuse_path_ops (AttrCall (CAccess 2 1)) demo_req demo_lib = Some (Finished demo_access)"
  by (rule handlers_relay [where path = "''/a''" and ino = 2])
    (use demo_lib_path in \<open>simp_all add: relay_cases demo_access_def demo_lib_def\<close>)



section \<open>Lookup and creation\<close>

text \<open>
  C29: A lookup of a name the file system knows is answered with the id of a node that is now linked
  under this name with one more lookup counted on it (or is new), with the attributes of the file
  system and the configured timeouts; the file system was asked once, with the full path, and
  every other node, name and lock is as before.
\<close>

theorem lookup_found:
  assumes "name_ready L dir name path" "name \<noteq> ''.''" "name \<noteq> ''..''"
    and "fuse_fs_getattr (l_fs L) (Some path) zero_stat None (req_env req L) = ((0, st), e1)"
    and "fst (ret_pop (l_rets L)) \<noteq> - ENOENT"
  shows "\<exists>L'. fuse_lib_lookup req dir name L = Some (Finished L') \<and> entered req L L' e1 dir name st"
  by (rule lookup_rest_found [OF assms])

lemma demo_getattr:
  "\<exists>p\<in>set (e_world e). path = p \<Longrightarrow>
     fuse_fs_getattr (l_fs demo_lib) (Some path) zero_stat None e = ((0, zero_stat\<lparr>st_mode := 0x41ed\<rparr>), enter_fs (l_fs demo_lib) e)"
  by (auto simp: fuse_fs_getattr_def call_op_def demo_lib_def demo_ops_def enter_fs_def)

theorem lookup_found_witness:
  "\<exists>L'. fuse_lib_lookup demo_req 2 ''x'' demo_lib = Some (Finished L') \<and>
     entered demo_req demo_lib L' (enter_fs (l_fs demo_lib) (req_env demo_req demo_lib)) 2 ''x'' (zero_stat\<lparr>st_mode := 0x41ed\<rparr>)"
  by (rule lookup_found [OF demo_lib_ready _ _ demo_getattr])
    (simp_all add: demo_lib_def req_env_def ENOENT_def)

text \<open>
  A lookup that the file system answers with an error is answered with this error, or, for a
  missing name and with \<open>negative_timeout\<close>, with an empty entry that the kernel may cache; the node
  store is unchanged.
\<close>

theorem lookup_missing:
  assumes "name_ready L dir name path" "name \<noteq> ''.''" "name \<noteq> ''..''"
    and "fuse_fs_getattr (l_fs L) (Some path) zero_stat None (req_env req L) = ((res, st), e1)" "res \<noteq> 0"
  shows "fuse_lib_lookup req dir name L =
    Some (Finished (snd (send req (missing_reply (conf (l_f L)) res st) (L\<lparr>l_env := e1\<rparr>))))"
  by (rule lookup_rest_missing [OF assms])

theorem lookup_missing_witness:
  "fuse_lib_lookup demo_req 2 ''y'' demo_lib =
    Some (Finished (snd (send demo_req (missing_reply (conf (l_f demo_lib)) (- ENOENT) zero_stat)
      (demo_lib\<lparr>l_env := enter_fs (l_fs demo_lib) (req_env demo_req demo_lib)\<rparr>))))"
  by (rule lookup_missing [OF demo_lib_ready])
    (simp_all add: fuse_fs_getattr_def call_op_def demo_lib_def demo_ops_def enter_fs_def req_env_def ENOENT_def)

text \<open>
  \<open>mkdir\<close> and \<open>symlink\<close> call the file system once with the full path of the new name; on success the
  new name is looked up and entered as in a lookup, on failure the error is the answer and the
  node store is unchanged.
\<close>

theorem mkdir_symlink_enter:
  assumes ready: "name_ready L dir name path"
    and sent: "fst (ret_pop (l_rets L)) \<noteq> - ENOENT"
    and op: "(h, call) \<in> {(fuse_lib_mkdir req dir name mode, \<lambda>fs p. fuse_fs_mkdir fs p mode),
       (fuse_lib_symlink req linkname dir name, \<lambda>fs. fuse_fs_symlink fs linkname)}"
    and call: "call (l_fs L) (Some path) (req_env req L) = (err, e0)"
    and attr: "fuse_fs_getattr (l_fs L) (Some path) zero_stat None e0 = ((0, st), e1)"
  shows "if err = 0 then \<exists>L'. h L = Some (Finished L') \<and> entered req L L' e1 dir name st
    else h L = Some (Finished (snd (send req (ReplyErr (- err)) (L\<lparr>l_env := e0\<rparr>))))"
proof -
  have ctx: "l_has_ctx L" using ready by (simp add: name_ready_def)
  then have h: "h L = create_entry req dir name call (L\<lparr>l_env := req_env req L\<rparr>)"
    using op by (auto simp: fuse_lib_mkdir_def fuse_lib_symlink_def prepare_ctx)
  show ?thesis
  proof (cases "err = 0")
    case True
    then show ?thesis using create_entry_entered [OF ready _ attr sent] call unfolding h by simp
  next
    case False
    then show ?thesis using create_entry_failed [of L dir name path call req err e0, OF ready call False] unfolding h by simp
  qed
qed

theorem mkdir_symlink_enter_witness:
  "\<exists>L'. fuse_lib_mkdir demo_req 2 ''y'' 0x1ed demo_lib = Some (Finished L') \<and>
     entered demo_req demo_lib L'
       (enter_fs (l_fs demo_lib) ((enter_fs (l_fs demo_lib) (req_env demo_req demo_lib))\<lparr>
          e_world := ''/a/y'' # e_world (enter_fs (l_fs demo_lib) (req_env demo_req demo_lib))\<rparr>))
       2 ''y'' (zero_stat\<lparr>st_mode := 0x41ed\<rparr>)"
proof -
  let ?e = "(enter_fs (l_fs demo_lib) (req_env demo_req demo_lib))\<lparr>
          e_world := ''/a/y'' # e_world (enter_fs (l_fs demo_lib) (req_env demo_req demo_lib))\<rparr>"
  have c: "(\<lambda>fs p. fuse_fs_mkdir fs p 0x1ed) (l_fs demo_lib) (Some ''/a/y'') (req_env demo_req demo_lib) = (0, ?e)"
    by (simp add: fuse_fs_mkdir_def call_op_def demo_lib_def demo_ops_def)
  have r: "name_ready demo_lib 2 ''y'' ''/a/y''" using demo_lib_ready [of "''y''"] by simp
  have g: "fuse_fs_getattr (l_fs demo_lib) (Some ''/a/y'') zero_stat None ?e =
      ((0, zero_stat\<lparr>st_mode := 0x41ed\<rparr>), enter_fs (l_fs demo_lib) ?e)"
    by (rule demo_getattr) simp
  have i: "(fuse_lib_mkdir demo_req 2 ''y'' 0x1ed, \<lambda>fs p. fuse_fs_mkdir fs p 0x1ed)
      \<in> {(fuse_lib_mkdir demo_req 2 ''y'' 0x1ed, \<lambda>fs p. fuse_fs_mkdir fs p 0x1ed),
         (fuse_lib_symlink demo_req [] 2 ''y'', \<lambda>fs. fuse_fs_symlink fs [])}" by simp
  have s: "fst (ret_pop (l_rets demo_lib)) \<noteq> - ENOENT" by (simp add: demo_lib_def ENOENT_def)
  show ?thesis using mkdir_symlink_enter [OF r s i c g] by simp
qed

end
