(* ===== verification/Dirent_Records.thy ===== *)
theory Dirent_Records
  imports Dirent
begin

text \<open>
  What \<open>fuse_add_direntry\<close> writes for one entry, and that a reader of the buffer finds it again.
\<close>

section \<open>Records\<close>

definition view_of :: "string \<Rightarrow> stat \<Rightarrow> int \<Rightarrow> dirent_view" where
  "view_of name st off = \<lparr>dv_ino = st_ino st, dv_off = word_of_int off, dv_type = dirent_type (st_mode st), dv_name = of_chars name\<rparr>"

definition entry_len :: "string \<Rightarrow> nat" where
  "entry_len name = FUSE_DIRENT_ALIGN (FUSE_NAME_OFFSET + length name)"

definition dirent_record :: "string \<Rightarrow> stat \<Rightarrow> int \<Rightarrow> byte list" where
  "dirent_record name st off =
     dirent_bytes (st_ino st) (word_of_int off) (dirent_type (st_mode st)) name
       @ replicate (entry_len name - (FUSE_NAME_OFFSET + length name)) 0"

lemma add_direntry_record:
  "fuse_add_direntry bufsize name st off = (entry_len name, if entry_len name > bufsize then [] else dirent_record name st off)"
  by (simp add: fuse_add_direntry_def dirent_record_def entry_len_def Let_def)

lemma length_record [simp]: "length (dirent_record name st off) = entry_len name"
  using align_ge [of "FUSE_NAME_OFFSET + length name"] by (simp add: dirent_record_def entry_len_def)

lemma entry_len_ge: "24 + length name \<le> entry_len name"
  using align_ge [of "FUSE_NAME_OFFSET + length name"] by (simp add: entry_len_def FUSE_NAME_OFFSET_def)

lemma le_nat_unat [simp]: "le_nat (le_bytes 8 (unat (w :: u64))) = unat w" "le_nat (le_bytes 4 (unat (v :: u32))) = unat v"
  using unsigned_less [of w, where ?'a = nat] unsigned_less [of v, where ?'a = nat] by (simp_all add: le_nat_le_bytes)

lemma record_fields:
  assumes "length name < 2 ^ 32"
  shows "le_nat (take 4 (drop 16 (dirent_record name st off @ rest))) = length name"
    "parse_dirent (dirent_record name st off @ rest) = view_of name st off"
proof -
  have n: "le_nat (le_bytes 4 (length name)) = length name" by (rule le_nat_le_bytes) (use assms in simp)
  show "le_nat (take 4 (drop 16 (dirent_record name st off @ rest))) = length name"
    using n by (simp add: dirent_record_def dirent_bytes_def)
  then show "parse_dirent (dirent_record name st off @ rest) = view_of name st off"
    using n by (simp add: parse_dirent_def view_of_def dirent_record_def dirent_bytes_def)
qed

lemma parse_record:
  assumes "length name < 2 ^ 32"
  shows "parse_dirents (dirent_record name st off @ rest) = view_of name st off # parse_dirents rest"
proof -
  have "length (dirent_record name st off @ rest) \<ge> entry_len name" by simp
  moreover have "FUSE_NAME_OFFSET \<le> entry_len name" using entry_len_ge [of name] by (simp add: FUSE_NAME_OFFSET_def)
  moreover have "drop (entry_len name) (dirent_record name st off @ rest) = rest" by simp
  ultimately show ?thesis
    unfolding parse_dirents.simps [of "dirent_record name st off @ rest"] record_fields [OF assms] entry_len_def [symmetric]
    by (simp only: Let_def length_append length_record) simp
qed

lemma parse_nil [simp]: "parse_dirents [] = []"
  by (subst parse_dirents.simps) (simp add: FUSE_NAME_OFFSET_def)

end
