(* ===== verification/Dirent_Properties.thy ===== *)
theory Dirent_Properties
  imports Handler_Properties Dirent_Records
begin

text \<open>
  Reading directories: what \<open>fuse_add_direntry\<close> writes is what a reader of the buffer finds, and a
  sequence of \<open>readdir\<close> requests delivers every entry of the directory once.
\<close>

section \<open>A list of entries in a buffer\<close>

text \<open>The records of the entries, with the offsets that follow \<open>pos\<close>, and how many of them fit.\<close>

fun records :: "int \<Rightarrow> fuse_direntry list \<Rightarrow> byte list" where
  "records pos [] = []"
| "records pos (de # des) = dirent_record (de_name de) (de_stat de) (pos + 1) @ records (pos + 1) des"

fun views :: "int \<Rightarrow> fuse_direntry list \<Rightarrow> dirent_view list" where
  "views pos [] = []"
| "views pos (de # des) = view_of (de_name de) (de_stat de) (pos + 1) # views (pos + 1) des"

fun fitting :: "nat \<Rightarrow> fuse_direntry list \<Rightarrow> nat" where
  "fitting room [] = 0"
| "fitting room (de # des) =
     (if entry_len (de_name de) > room then 0 else Suc (fitting (room - entry_len (de_name de)) des))"

lemma parse_records:
  assumes "\<forall>de\<in>set des. length (de_name de) < 2 ^ 32"
  shows "parse_dirents (records pos des) = views pos des"
  using assms by (induction des arbitrary: pos) (simp_all add: parse_record)

lemma length_views [simp]: "length (views pos des) = length des"
  by (induction des arbitrary: pos) simp_all

lemma views_append: "views pos (xs @ ys) = views pos xs @ views (pos + int (length xs)) ys"
  by (induction xs arbitrary: pos) (simp_all add: add.assoc)

lemma views_names: "map dv_name (views pos des) = map (of_chars \<circ> de_name) des"
  by (induction des arbitrary: pos) (simp_all add: view_of_def)

lemma last_view: "des \<noteq> [] \<Longrightarrow> dv_off (last (views pos des)) = word_of_int (pos + int (length des))"
proof (induction des arbitrary: pos)
  case (Cons de des)
  show ?case
  proof (cases "des = []")
    case False
    then have "views (pos + 1) des \<noteq> []" using length_views [of "pos + 1" des] by (metis length_0_conv)
    then show ?thesis using Cons.IH [OF False, of "pos + 1"] by (simp add: add.assoc)
  qed (simp add: view_of_def)
qed simp

lemma fitting_le: "fitting room des \<le> length des"
  by (induction des arbitrary: room) simp_all

lemma length_records_fitting: "length (records pos (take (fitting room des) des)) \<le> room"
proof (induction des arbitrary: pos room)
  case (Cons de des)
  show ?case using Cons [of "pos + 1" "room - entry_len (de_name de)"] by auto
qed simp

lemma list_loop_records:
  assumes "flags AND FUSE_READDIR_PLUS = 0" "dh_len dh \<le> dh_needlen dh"
  shows "list_loop flags pos des dh L =
    Some ((0, dh\<lparr>dh_contents := dh_contents dh @ records pos (take (fitting (dh_needlen dh - dh_len dh) des) des)\<rparr>), L)"
  using assms(2)
proof (induction des arbitrary: pos dh)
  case Nil
  show ?case by simp
next
  case (Cons de des)
  let ?room = "dh_needlen dh - dh_len dh" and ?len = "entry_len (de_name de)"
  show ?case
  proof (cases "?len > ?room")
    case True
    then have "dh_len dh + ?len > dh_needlen dh" by simp
    then show ?thesis using assms(1) True by (simp add: Let_def put_entry_def add_direntry_record)
  next
    case False
    define dh1 where "dh1 = dh\<lparr>dh_contents := dh_contents dh @ dirent_record (de_name de) (de_stat de) (pos + 1)\<rparr>"
    have d1: "dh_len dh1 = dh_len dh + ?len" "dh_needlen dh1 = dh_needlen dh" by (simp_all add: dh1_def dh_len_def)
    have "\<not> dh_needlen dh < dh_len dh + ?len" using False Cons.prems by simp
    then have "list_loop flags pos (de # des) dh L = list_loop flags (pos + 1) des dh1 L"
      using assms(1) Cons.prems False by (simp add: Let_def put_entry_def add_direntry_record dh1_def)
    also have "\<dots> = Some ((0, dh1\<lparr>dh_contents := dh_contents dh1 @ records (pos + 1) (take (fitting (dh_needlen dh1 - dh_len dh1) des) des)\<rparr>), L)"
      by (rule Cons.IH) (use d1 False Cons.prems in simp)
    finally show ?thesis using False d1 by (simp add: dh1_def)
  qed
qed

section \<open>A request on a collected list\<close>

lemma extend_contents_ok:
  assumes "dh_size dh \<le> 0xffffffff" "need \<le> 0xffffffff"
  obtains s where "extend_contents dh need [] = Some ((True, dh\<lparr>dh_size := s\<rparr>), [])" "s \<le> 0xffffffff" "need \<le> s"
proof (cases "need \<le> dh_size dh")
  case True
  then show ?thesis using that [of "dh_size dh"] assms by (simp add: extend_contents_def)
next
  case False
  let ?n = "if dh_size dh = 0 then 1024 else dh_size dh"
  obtain k where "grow_size ?n need = Some k" "need \<le> k" "k \<le> 0xffffffff"
    using grow_size_spec [of ?n need] assms by (cases "dh_size dh = 0") auto
  then show ?thesis using that [of k] False by (simp add: extend_contents_def)
qed

text \<open>
  \<open>dir_open L addr des\<close>: the handle at \<open>addr\<close> holds the entries \<open>des\<close>, collected and ready to be sent.
\<close>

definition dir_open :: "'w lib \<Rightarrow> u64 \<Rightarrow> fuse_direntry list \<Rightarrow> bool" where
  "dir_open L addr des \<longleftrightarrow> l_has_ctx L \<and> allocs (l_f L) = [] \<and>
     (\<exists>dh. l_dhs L addr = Some dh \<and> dh_filled dh \<and> dh_first dh = des \<and> dh_size dh \<le> 0xffffffff)"

text \<open>The entries sent for a buffer of \<open>sz\<close> bytes from position \<open>off\<close> on.\<close>

definition batch :: "nat \<Rightarrow> nat \<Rightarrow> fuse_direntry list \<Rightarrow> fuse_direntry list" where
  "batch sz off des = take (fitting (sz mod 2 ^ 32) (drop off des)) (drop off des)"

lemma readdir_reply_list:
  assumes dh: "dh_filled dh" "dh_first dh = des" "dh_size dh \<le> 0xffffffff" and mem: "allocs (l_f L) = []"
    and off: "0 \<le> off" "off \<le> int (length des)"
  obtains L1 where "readdir_reply req (sz mod 2 ^ 32) off addr 0 dh L = reply req (ReplyBuf (records off (batch sz (nat off) des))) L1"
    "l_log L1 = l_log L" "l_f L1 = l_f L" "l_fs L1 = l_fs L" "l_env L1 = l_env L" "l_has_ctx L1 = l_has_ctx L"
    "\<exists>dh1. l_dhs L1 = (l_dhs L)(addr \<mapsto> dh1) \<and> dh_filled dh1 \<and> dh_first dh1 = des \<and> dh_size dh1 \<le> 0xffffffff"
proof -
  define need where "need = sz mod 2 ^ 32"
  have "need \<le> 0xffffffff" unfolding need_def using mod_less_divisor [of "2 ^ 32" sz] by simp
  define dh0 where "dh0 = dh\<lparr>dh_needlen := need, dh_contents := []\<rparr>"
  obtain s where s: "extend_contents dh0 need [] = Some ((True, dh0\<lparr>dh_size := s\<rparr>), [])" "s \<le> 0xffffffff"
    by (rule extend_contents_ok [of dh0 need]) (use dh \<open>need \<le> 0xffffffff\<close> in \<open>auto simp: dh0_def\<close>)
  define dh1 where "dh1 = dh0\<lparr>dh_size := s\<rparr>"
  define dh2 where "dh2 = dh1\<lparr>dh_contents := records off (batch sz (nat off) des)\<rparr>"
  have pos: "int (min (nat off) (length des)) = off" using off by simp
  have L: "set_allocs L [] = L" using mem by (simp add: set_allocs_def)
  have "list_loop 0 off (drop (nat off) des) dh1 L = Some ((0, dh2), L)"
    using list_loop_records [of 0 dh1 off "drop (nat off) des" L]
    by (simp add: dh2_def dh1_def dh0_def dh_len_def batch_def need_def)
  then have "readdir_fill_from_list (dh\<lparr>dh_needlen := need\<rparr>) off 0 L = Some ((0, dh2), L)"
    using s(1) mem pos L dh(2) by (simp add: readdir_fill_from_list_def dh0_def dh1_def)
  then have "readdir_reply req need off addr 0 dh L = reply req (ReplyBuf (records off (batch sz (nat off) des))) (store_dh addr dh2 L)"
    using dh(1) by (simp add: readdir_reply_def dh2_def)
  moreover have "l_dhs (store_dh addr dh2 L) = (l_dhs L)(addr \<mapsto> dh2)" "dh_filled dh2" "dh_first dh2 = des" "dh_size dh2 \<le> 0xffffffff"
    using dh s(2) by (simp_all add: store_dh_def dh2_def dh1_def dh0_def)
  ultimately show thesis
    using that [of "store_dh addr dh2 L"] unfolding need_def by (auto simp: store_dh_def)
qed

lemma readdir_collected:
  assumes op: "dir_open L (fi_fh fi) des" and off: "0 < off" "off \<le> int (length des)"
  obtains L' where "fuse_lib_readdir req ino sz off fi L = Some (Finished L')" "dir_open L' (fi_fh fi) des"
    "l_log L' = l_log L @ [(r_id req, ReplyBuf (records off (batch sz (nat off) des)))]" "l_f L' = l_f L"
proof -
  obtain dh where dh: "l_dhs L (fi_fh fi) = Some dh" "dh_filled dh" "dh_first dh = des" "dh_size dh \<le> 0xffffffff"
    and L: "l_has_ctx L" "allocs (l_f L) = []" using op by (auto simp: dir_open_def)
  let ?L = "L\<lparr>l_env := req_env req L\<rparr>"
  obtain L1 where L1: "readdir_reply req (sz mod 2 ^ 32) off (fi_fh fi) 0 dh ?L = reply req (ReplyBuf (records off (batch sz (nat off) des))) L1"
    "l_log L1 = l_log ?L" "l_f L1 = l_f ?L" "l_has_ctx L1 = l_has_ctx ?L"
    "\<exists>dh1. l_dhs L1 = (l_dhs ?L)(fi_fh fi \<mapsto> dh1) \<and> dh_filled dh1 \<and> dh_first dh1 = des \<and> dh_size dh1 \<le> 0xffffffff"
    by (rule readdir_reply_list [OF dh(2-4), of ?L off req sz "fi_fh fi"]) (use L off in auto)
  have "fuse_lib_readdir req ino sz off fi L = reply req (ReplyBuf (records off (batch sz (nat off) des))) L1"
    using L1(1) L(1) dh off
    by (simp add: fuse_lib_readdir_def fuse_readdir_common_def prepare_ctx get_dirhandle_def)
  then show thesis using L1(2-5) L
    by (intro that [of "snd (send req (ReplyBuf (records off (batch sz (nat off) des))) L1)"])
      (auto simp: reply_def send_def dir_open_def split: prod.splits)
qed

section \<open>The first request\<close>

text \<open>A \<open>readdir\<close> operation that hands its entries to the filler without offsets, and returns.\<close>

primrec list_prog :: "(string \<times> stat option) list \<Rightarrow> 'w env \<Rightarrow> 'w fill_prog" where
  "list_prog [] e = FillEnd 0 e"
| "list_prog (x # xs) e = FillDir (fst x) (snd x) 0 0 (\<lambda>_. list_prog xs e)"

definition kept_stat :: "fuse \<Rightarrow> fuse_ino \<Rightarrow> string \<times> stat option \<Rightarrow> stat" where
  "kept_stat f dir x =
     (let c = conf f; st0 = (case snd x of Some s \<Rightarrow> s | None \<Rightarrow> zero_stat\<lparr>st_ino := FUSE_UNKNOWN_INO\<rparr>)
      in if use_ino c then st0
         else st0\<lparr>st_ino := (if readdir_ino c then lookup_nodeid f dir (fst x) else FUSE_UNKNOWN_INO)\<rparr>)"

definition kept :: "fuse \<Rightarrow> fuse_ino \<Rightarrow> (string \<times> stat option) list \<Rightarrow> fuse_direntry list" where
  "kept f dir es = map (\<lambda>x. \<lparr>de_stat = kept_stat f dir x, de_flags = 0, de_name = fst x\<rparr>) es"

lemma fill_dir_kept:
  assumes "allocs (l_f L) = []"
  shows "fill_dir (fst x) (snd x) 0 0 dh L =
    Some ((0, dh\<lparr>dh_filled := True, dh_first := dh_first dh @ kept (l_f L) (dh_nodeid dh) [x]\<rparr>), L)"
  using assms
  by (simp add: fill_dir_def keep_entry_def fuse_add_direntry_to_dh_def set_allocs_def kept_def kept_stat_def Let_def)

lemma run_fill_kept:
  assumes "allocs (l_f L) = []"
  shows "run_fill (list_prog es e) fill_dir dh L =
    Some ((0, dh\<lparr>dh_filled := dh_filled dh \<or> es \<noteq> [], dh_first := dh_first dh @ kept (l_f L) (dh_nodeid dh) es\<rparr>), L\<lparr>l_env := e\<rparr>)"
proof (induction es arbitrary: dh)
  case Nil
  show ?case by (simp add: kept_def)
next
  case (Cons x es)
  show ?case by (simp add: fill_dir_kept [OF assms] Cons.IH) (simp add: kept_def)
qed

text \<open>
  \<open>dir_lists L ino fi es\<close>: the handle is open, nothing stands in the way of the path of the directory,
  and the file system lists the entries \<open>es\<close>.
\<close>

definition dir_lists :: "request \<Rightarrow> 'w lib \<Rightarrow> fuse_ino \<Rightarrow> fuse_file_info \<Rightarrow> (string \<times> stat option) list \<Rightarrow> bool" where
  "dir_lists req L ino fi es \<longleftrightarrow> l_has_ctx L \<and>
     (\<exists>dh path h e1. l_dhs L (fi_fh fi) = Some dh \<and> dh_size dh \<le> 0xffffffff \<and> path_free (l_f L) ino path \<and>
        op_readdir (fs_op (l_fs L)) = Some h \<and>
        h (path_for True L path) 0 (zero_fi\<lparr>fi_fh := dh_fh dh\<rparr>) 0 (enter_fs (l_fs L) (req_env req L)) = list_prog es e1)"

lemma readdir_first:
  assumes ls: "dir_lists req L ino fi es"
  obtains L' des where "fuse_lib_readdir req ino sz 0 fi L = Some (Finished L')" "map de_name des = map fst es"
    "l_log L' = l_log L @ [(r_id req, ReplyBuf (records 0 (batch sz 0 des)))]" "l_f L' = l_f L"
    "es \<noteq> [] \<Longrightarrow> dir_open L' (fi_fh fi) des"
proof -
  obtain dh path h e1 where ctx: "l_has_ctx L" and dh: "l_dhs L (fi_fh fi) = Some dh" "dh_size dh \<le> 0xffffffff"
    and free: "path_free (l_f L) ino path" and h: "op_readdir (fs_op (l_fs L)) = Some h"
    "h (path_for True L path) 0 (zero_fi\<lparr>fi_fh := dh_fh dh\<rparr>) 0 (enter_fs (l_fs L) (req_env req L)) = list_prog es e1"
    using ls by (auto simp: dir_lists_def)
  let ?L = "L\<lparr>l_env := req_env req L\<rparr>" and ?need = "sz mod 2 ^ 32"
  have free': "path_free (l_f ?L) ino path" using free by simp
  have mem: "allocs (l_f L) = []" using free by (simp add: path_free_def)
  obtain f1 where f1: "\<And>k. get_path_for True req ?L ino k = k 0 (path_for True ?L path) (?L\<lparr>l_f := f1\<rparr>)"
    "free_path f1 ino (path_for True ?L path) = Some (l_f ?L)" "allocs f1 = []"
    by (rule get_path_for_free [OF free', where nullok = True and req = req], rule that)
  have p: "path_for True ?L path = path_for True L path" by (simp add: path_for_def)
  define dh1 where "dh1 = dh\<lparr>dh_first := [], dh_contents := [], dh_error := 0, dh_needlen := ?need, dh_filled := False\<rparr>"
  define des where "des = kept f1 (dh_nodeid dh) es"
  define dh2 where "dh2 = dh1\<lparr>dh_filled := es \<noteq> [], dh_first := des\<rparr>"
  have run: "run_fill (fuse_fs_readdir (l_fs L) (path_for True L path) 0 (zero_fi\<lparr>fi_fh := dh_fh dh\<rparr>) 0 (req_env req L)) fill_dir dh1
      (?L\<lparr>l_f := f1\<rparr>) = Some ((0, dh2), ?L\<lparr>l_f := f1, l_env := e1\<rparr>)"
    using run_fill_kept [of "?L\<lparr>l_f := f1\<rparr>" es e1 dh1] h f1(3)
    by (simp add: fuse_fs_readdir_def dh2_def dh1_def des_def)
  have g: "get_path_for True = with_get_path_nullok" by (simp add: get_path_for_def fun_eq_iff)
  let ?L2 = "L\<lparr>l_env := e1\<rparr>"
  have c: "fuse_lib_readdir req ino sz 0 fi L = readdir_reply req ?need 0 (fi_fh fi) 0 dh2 ?L2"
    using run f1(1,2) dh(1) ctx h(1) unfolding p g
    by (simp add: fuse_lib_readdir_def fuse_readdir_common_def prepare_ctx get_dirhandle_def readdir_fill_def with_fuse_def
        dh1_def dh2_def Let_def)
  have nm: "map de_name des = map fst es" by (simp add: des_def kept_def)
  show thesis
  proof (cases "es = []")
    case True
    then have "fuse_lib_readdir req ino sz 0 fi L = reply req (ReplyBuf []) (store_dh (fi_fh fi) dh2 ?L2)"
      using c by (simp add: readdir_reply_def dh2_def dh1_def)
    then show thesis using True nm
      by (intro that [of "snd (send req (ReplyBuf []) (store_dh (fi_fh fi) dh2 ?L2))" des])
        (auto simp: reply_def send_def store_dh_def batch_def split: prod.splits)
  next
    case False
    have d2: "dh_filled dh2" "dh_first dh2 = des" "dh_size dh2 \<le> 0xffffffff" using False dh by (simp_all add: dh2_def dh1_def)
    obtain L1 where L1: "readdir_reply req ?need 0 (fi_fh fi) 0 dh2 ?L2 = reply req (ReplyBuf (records 0 (batch sz (nat 0) des))) L1"
      "l_log L1 = l_log ?L2" "l_f L1 = l_f ?L2" "l_has_ctx L1 = l_has_ctx ?L2"
      "\<exists>dh1. l_dhs L1 = (l_dhs ?L2)(fi_fh fi \<mapsto> dh1) \<and> dh_filled dh1 \<and> dh_first dh1 = des \<and> dh_size dh1 \<le> 0xffffffff"
      by (rule readdir_reply_list [OF d2, of ?L2 0 req sz "fi_fh fi"]) (use mem in auto)
    show thesis using c L1 ctx mem nm
      by (intro that [of "snd (send req (ReplyBuf (records 0 (batch sz 0 des))) L1)" des])
        (auto simp: reply_def send_def dir_open_def split: prod.splits)
  qed
qed

section \<open>A whole listing\<close>

text \<open>
  The kernel's side: it asks for the entries after the last offset it has seen until it gets an
  empty buffer. \<open>None\<close> is a wait, an error reply or a buffer it cannot read; the first argument
  bounds the number of requests.
\<close>

fun kernel_list ::
  "nat \<Rightarrow> request \<Rightarrow> fuse_ino \<Rightarrow> nat \<Rightarrow> int \<Rightarrow> fuse_file_info \<Rightarrow> 'w lib \<Rightarrow> (dirent_view list \<times> 'w lib) option" where
  "kernel_list 0 req ino sz off fi L = None"
| "kernel_list (Suc n) req ino sz off fi L =
     (case fuse_lib_readdir req ino sz off fi L of
        Some (Finished L') \<Rightarrow>
          (case snd (last (l_log L')) of
             ReplyBuf [] \<Rightarrow> Some ([], L')
           | ReplyBuf bs \<Rightarrow>
               (let vs = parse_dirents bs
                in if vs = [] then None
                   else map_option (\<lambda>(ws, L2). (vs @ ws, L2)) (kernel_list n req ino sz (uint (dv_off (last vs))) fi L'))
           | _ \<Rightarrow> None)
      | _ \<Rightarrow> None)"

lemma batch_progress:
  assumes "off < length des" "\<forall>de\<in>set des. entry_len (de_name de) \<le> sz mod 2 ^ 32"
  shows "batch sz off des \<noteq> []"
proof -
  obtain d ds where d: "drop off des = d # ds" using assms(1) by (cases "drop off des") auto
  then have "d \<in> set des" by (metis in_set_dropD list.set_intros(1))
  then have "entry_len (de_name d) \<le> sz mod 2 ^ 32" using assms(2) by blast
  then show ?thesis by (simp add: batch_def d)
qed

lemma batch_split: "batch sz off des @ drop (off + length (batch sz off des)) des = drop off des"
  by (simp add: batch_def min_def fitting_le add.commute [of off] flip: drop_drop)

text \<open>One reply of the loop.\<close>

lemma kernel_list_step:
  assumes r: "fuse_lib_readdir req ino sz off fi L = Some (Finished L')"
    and log: "l_log L' = log @ [(i, ReplyBuf (records off ds))]"
    and names: "\<forall>de\<in>set ds. length (de_name de) < 2 ^ 32" and off: "0 \<le> off" "off + int (length ds) < 2 ^ 64"
  shows "kernel_list (Suc n) req ino sz off fi L =
    (if ds = [] then Some ([], L')
     else map_option (\<lambda>(ws, L2). (views off ds @ ws, L2)) (kernel_list n req ino sz (off + int (length ds)) fi L'))"
proof (cases ds)
  case Nil
  then show ?thesis using r log by simp
next
  case (Cons d ds')
  have "length (records off ds) \<noteq> 0" using Cons entry_len_ge [of "de_name d"] by simp
  then obtain b bs where bs: "records off ds = b # bs" by (cases "records off ds") auto
  have v: "views off ds \<noteq> []" using Cons by simp
  have p: "parse_dirents (b # bs) = views off ds" using parse_records [OF names, of off] bs by simp
  have "ds \<noteq> []" using Cons by simp
  then have "uint (dv_off (last (views off ds))) = off + int (length ds)"
    unfolding last_view [OF \<open>ds \<noteq> []\<close>] using off by (simp only: uint_word_of_int_eq) (rule take_bit_int_eq_self; simp)
  then show ?thesis using r log bs v p Cons by (simp add: Let_def del: views.simps)
qed

lemma kernel_list_collected:
  assumes "dir_open L (fi_fh fi) des" "0 < off" "off \<le> length des"
    and fit: "\<forall>de\<in>set des. entry_len (de_name de) \<le> sz mod 2 ^ 32" and few: "length des < 2 ^ 63"
    and fuel: "length des - off < n"
  shows "\<exists>L'. kernel_list n req ino sz (int off) fi L = Some (views (int off) (drop off des), L') \<and> l_f L' = l_f L"
  using assms(1-3) fuel
proof (induction n arbitrary: off L)
  case (Suc n)
  let ?b = "batch sz off des"
  obtain L1 where L1: "fuse_lib_readdir req ino sz (int off) fi L = Some (Finished L1)" "dir_open L1 (fi_fh fi) des"
    "l_log L1 = l_log L @ [(r_id req, ReplyBuf (records (int off) (batch sz (nat (int off)) des)))]" "l_f L1 = l_f L"
    by (rule readdir_collected [OF Suc.prems(1), of "int off" req ino sz]) (use Suc.prems in auto)
  have sub: "set ?b \<subseteq> set des" using set_drop_subset set_take_subset by (fastforce simp: batch_def)
  have lb: "off + length ?b \<le> length des" using Suc.prems(3) by (simp add: batch_def)
  have nm: "\<forall>de\<in>set ?b. length (de_name de) < 2 ^ 32"
  proof
    fix de assume "de \<in> set ?b"
    then have "entry_len (de_name de) \<le> sz mod 2 ^ 32" using sub fit by blast
    moreover have "sz mod 2 ^ 32 < 2 ^ 32" by simp
    ultimately show "length (de_name de) < 2 ^ 32" using entry_len_ge [of "de_name de"] by linarith
  qed
  have st: "kernel_list (Suc n) req ino sz (int off) fi L =
    (if ?b = [] then Some ([], L1)
     else map_option (\<lambda>(ws, L2). (views (int off) ?b @ ws, L2)) (kernel_list n req ino sz (int off + int (length ?b)) fi L1))"
    by (rule kernel_list_step [OF L1(1)]) (use L1(3) nm lb few in \<open>auto\<close>)
  show ?case
  proof (cases "off = length des")
    case True
    then have "?b = []" by (simp add: batch_def)
    then show ?thesis using st True L1(4) by simp
  next
    case False
    then have b: "?b \<noteq> []" using batch_progress [of off des sz] fit Suc.prems(3) by simp
    have "\<exists>L'. kernel_list n req ino sz (int (off + length ?b)) fi L1 =
        Some (views (int (off + length ?b)) (drop (off + length ?b) des), L') \<and> l_f L' = l_f L1"
      by (rule Suc.IH [OF L1(2)]) (use Suc.prems lb b in \<open>auto simp: length_greater_0_conv [symmetric] simp del: length_greater_0_conv\<close>)
    then obtain L' where L': "kernel_list n req ino sz (int off + int (length ?b)) fi L1 =
        Some (views (int off + int (length ?b)) (drop (off + length ?b) des), L')" "l_f L' = l_f L1" by auto
    have "views (int off) (drop off des) = views (int off) ?b @ views (int off + int (length ?b)) (drop (off + length ?b) des)"
      using views_append [of "int off" ?b "drop (off + length ?b) des"] batch_split [of sz off des] by simp
    then show ?thesis using st b L' L1(4) by simp
  qed
qed simp

text \<open>
  C7: A directory whose entries are collected by the library is delivered completely: a reader that
  starts at offset 0 and continues from the last offset it got, until it gets an empty buffer, sees
  every entry the file system listed, once and in order, with at most one request more than there
  are entries; each reply fits the buffer that was offered, provided the buffer has room for the
  longest entry. The node store is left as it was.
\<close>

theorem readdir_delivers_all:
  assumes ls: "dir_lists req L ino fi es" and fit: "\<forall>x\<in>set es. entry_len (fst x) \<le> sz mod 2 ^ 32"
    and few: "length es < 2 ^ 63"
  shows "\<exists>vs L'. kernel_list (length es + 1) req ino sz 0 fi L = Some (vs, L') \<and>
    map dv_name vs = map (of_chars \<circ> fst) es \<and> l_f L' = l_f L"
proof -
  obtain L1 des where L1: "fuse_lib_readdir req ino sz 0 fi L = Some (Finished L1)" "map de_name des = map fst es"
    "l_log L1 = l_log L @ [(r_id req, ReplyBuf (records 0 (batch sz 0 des)))]" "l_f L1 = l_f L"
    "es \<noteq> [] \<Longrightarrow> dir_open L1 (fi_fh fi) des"
    by (rule readdir_first [OF ls, of sz], rule that)
  let ?b = "batch sz 0 des"
  have len: "length des = length es" using arg_cong [OF L1(2), of length] by simp
  have fit': "\<forall>de\<in>set des. entry_len (de_name de) \<le> sz mod 2 ^ 32"
  proof
    fix de assume "de \<in> set des"
    then have "de_name de \<in> set (map de_name des)" by simp
    then have "de_name de \<in> set (map fst es)" unfolding L1(2) .
    then show "entry_len (de_name de) \<le> sz mod 2 ^ 32" using fit by auto
  qed
  have names: "map dv_name (views 0 des) = map (of_chars \<circ> fst) es"
    using views_names [of 0 des] L1(2) by (metis map_map)
  have b: "set ?b \<subseteq> set des" "length ?b \<le> length des" by (auto simp: batch_def dest: in_set_takeD)
  have nm: "\<forall>de\<in>set ?b. length (de_name de) < 2 ^ 32"
  proof
    fix de assume "de \<in> set ?b"
    then have "entry_len (de_name de) \<le> sz mod 2 ^ 32" using b fit' by blast
    moreover have "sz mod 2 ^ 32 < 2 ^ 32" by simp
    ultimately show "length (de_name de) < 2 ^ 32" using entry_len_ge [of "de_name de"] by linarith
  qed
  have st: "kernel_list (length es + 1) req ino sz 0 fi L =
    (if ?b = [] then Some ([], L1)
     else map_option (\<lambda>(ws, L2). (views 0 ?b @ ws, L2)) (kernel_list (length es) req ino sz (0 + int (length ?b)) fi L1))"
    unfolding Suc_eq_plus1 [symmetric] by (rule kernel_list_step [OF L1(1,3) nm]) (use b few len in auto)
  show ?thesis
  proof (cases "es = []")
    case True
    then have "?b = []" using len by (simp add: batch_def)
    then show ?thesis using st True L1(4) by simp
  next
    case False
    then have ne: "?b \<noteq> []" using batch_progress [of 0 des sz] fit' len by simp
    have "\<exists>L'. kernel_list (length es) req ino sz (int (length ?b)) fi L1 =
        Some (views (int (length ?b)) (drop (length ?b) des), L') \<and> l_f L' = l_f L1"
      by (rule kernel_list_collected [OF L1(5) [OF False] _ _ fit'])
        (use ne b few len False in \<open>auto simp: length_greater_0_conv [symmetric] simp del: length_greater_0_conv\<close>)
    then obtain L' where L': "kernel_list (length es) req ino sz (0 + int (length ?b)) fi L1 =
        Some (views (int (length ?b)) (drop (length ?b) des), L')" "l_f L' = l_f L1" by auto
    have "views 0 des = views 0 ?b @ views (int (length ?b)) (drop (length ?b) des)"
      using views_append [of 0 ?b "drop (length ?b) des"] batch_split [of sz 0 des] by simp
    then show ?thesis using st ne L' L1(4) names by simp
  qed
qed

definition demo_listing :: "(string \<times> stat option) list" where
  "demo_listing = [(''.'', None), (''x'', Some (zero_stat\<lparr>st_mode := 0x41ed\<rparr>)), (''y'', None)]"

definition demo_dir :: "string list lib" where
  "demo_dir = demo_lib\<lparr>l_fs := \<lparr>fs_op = demo_ops\<lparr>op_readdir := Some (\<lambda>path off fi flags e. list_prog demo_listing e)\<rparr>,
       user_data = 7, fs_sys = demo_sys\<rparr>,
     l_dhs := [1 \<mapsto> \<lparr>dh_contents = [], dh_first = [], dh_size = 0, dh_needlen = 0, dh_filled = False, dh_fh = 0,
       dh_error = 0, dh_nodeid = 2\<rparr>]\<rparr>"

theorem readdir_delivers_all_witness:
  "\<exists>vs L'. kernel_list (length demo_listing + 1) demo_req 2 64 0 (zero_fi\<lparr>fi_fh := 1\<rparr>) demo_dir = Some (vs, L') \<and>
    map dv_name vs = map (of_chars \<circ> fst) demo_listing \<and> l_f L' = l_f demo_dir"
proof (rule readdir_delivers_all)
  have "path_free (l_f demo_dir) 2 ''/a''" using demo_lib_path by (simp add: demo_dir_def)
  then show "dir_lists demo_req demo_dir 2 (zero_fi\<lparr>fi_fh := 1\<rparr>) demo_listing"
    by (auto simp: dir_lists_def demo_dir_def demo_lib_def)
qed (simp_all add: demo_listing_def entry_len_def FUSE_DIRENT_ALIGN_def FUSE_NAME_OFFSET_def)

text \<open>
  A record written by \<open>fuse_add_direntry\<close> is read back by the kernel's reader: the inode number,
  the offset, the type and the name are those of the entry, and what follows the record in the
  buffer is read next. The function returns the length of the record.
\<close>

theorem direntry_roundtrip:
  assumes "length name < 2 ^ 32" "fuse_add_direntry bufsize name st off = (len, bs)" "len \<le> bufsize"
  shows "length bs = len \<and> parse_dirents (bs @ rest) = view_of name st off # parse_dirents rest"
  using assms parse_record [OF assms(1), of st off rest] by (auto simp: add_direntry_record split: if_splits)

theorem direntry_roundtrip_witness:
  "length (dirent_record ''ab'' zero_stat 7) = 32 \<and>
    parse_dirents (dirent_record ''ab'' zero_stat 7 @ []) = view_of ''ab'' zero_stat 7 # parse_dirents []"
  by (rule direntry_roundtrip [where bufsize = 100])
    (simp_all add: add_direntry_record entry_len_def FUSE_DIRENT_ALIGN_def FUSE_NAME_OFFSET_def)

text \<open>
  When the lookup that \<open>readdirplus\<close> does for the first collected entry fails (for lack of memory),
  the error code is lost: the request is answered with the value \<open>-1\<close>, which is no error number,
  instead of the error of the lookup.
\<close>

theorem readdirplus_loses_error:
  assumes ctx: "l_has_ctx L" and dh: "l_dhs L (fi_fh fi) = Some dh" "dh_filled dh" "sz mod 2 ^ 32 \<le> dh_size dh"
    and off: "0 < off" and de: "drop (nat off) (dh_first dh) = de # des"
    and fl: "de_flags de AND FUSE_FILL_DIR_PLUS \<noteq> 0" "\<not> is_dot_or_dotdot (de_name de)"
    and lk: "do_lookup (L\<lparr>l_env := req_env req L\<rparr>) (dh_nodeid dh) (Some (de_name de)) (zero_entry\<lparr>e_attr := de_stat de\<rparr>)
        = Some ((err, e), L1)" "err \<noteq> 0"
  shows "\<exists>L'. fuse_lib_readdirplus req ino sz off fi L = Some (Finished L') \<and>
    l_log L' = l_log L @ [(r_id req, ReplyErr (- 1))]"
proof -
  let ?L = "L\<lparr>l_env := req_env req L\<rparr>" and ?need = "sz mod 2 ^ 32"
  have a: "set_allocs ?L (allocs (l_f ?L)) = ?L" by (simp add: set_allocs_def)
  have log: "l_log L1 = l_log L" using log_do_lookup [OF lk(1)] by simp
  have "readdir_fill_from_list (dh\<lparr>dh_needlen := ?need\<rparr>) off FUSE_READDIR_PLUS ?L =
      Some ((1, dh\<lparr>dh_needlen := ?need, dh_contents := [], dh_error := err\<rparr>), L1)"
    using dh(3) de fl lk a by (simp add: readdir_fill_from_list_def extend_contents_def FUSE_READDIR_PLUS_def)
  then have "fuse_lib_readdirplus req ino sz off fi L =
      reply_err req 1 (store_dh (fi_fh fi) (dh\<lparr>dh_needlen := ?need, dh_contents := [], dh_error := err\<rparr>) L1)"
    using ctx dh off
    by (simp add: fuse_lib_readdirplus_def fuse_readdir_common_def prepare_ctx get_dirhandle_def readdir_reply_def)
  then show ?thesis using log by (simp add: reply_err_def reply_def send_def store_dh_def split: prod.splits)
qed

definition demo_plus :: "string list lib" where
  "demo_plus = demo_lib\<lparr>l_f := demo2\<lparr>allocs := [False]\<rparr>,
     l_dhs := [1 \<mapsto> \<lparr>dh_contents = [], dh_first = [\<lparr>de_stat = zero_stat, de_flags = 2, de_name = ''w''\<rparr>,
         \<lparr>de_stat = zero_stat, de_flags = 2, de_name = ''x''\<rparr>], dh_size = 1024, dh_needlen = 0, dh_filled = True, dh_fh = 0,
       dh_error = 0, dh_nodeid = 2\<rparr>]\<rparr>"

theorem readdirplus_loses_error_witness:
  "\<exists>L'. fuse_lib_readdirplus demo_req 2 512 1 (zero_fi\<lparr>fi_fh := 1\<rparr>) demo_plus = Some (Finished L') \<and>
    l_log L' = l_log demo_plus @ [(r_id demo_req, ReplyErr (- 1))]"
proof -
  let ?dh = "\<lparr>dh_contents = [], dh_first = [\<lparr>de_stat = zero_stat, de_flags = 2, de_name = ''w''\<rparr>,
         \<lparr>de_stat = zero_stat, de_flags = 2, de_name = ''x''\<rparr>], dh_size = 1024, dh_needlen = 0, dh_filled = True, dh_fh = 0,
       dh_error = 0, dh_nodeid = 2\<rparr>" and ?L = "demo_plus\<lparr>l_env := req_env demo_req demo_plus\<rparr>"
  have "lookup_node (demo2\<lparr>allocs := [False]\<rparr>) 2 ''x'' = None" by (simp add: demo_eval demo2_def)
  then have lk: "do_lookup ?L 2 (Some ''x'') (zero_entry\<lparr>e_attr := zero_stat\<rparr>) =
      Some ((- ENOMEM, zero_entry\<lparr>e_attr := zero_stat\<rparr>), ?L\<lparr>l_f := demo2\<rparr>)"
    by (simp add: do_lookup_def find_node_def alloc_node_def demo_plus_def) (simp add: demo2_def)
  show ?thesis
    by (rule readdirplus_loses_error [where dh = ?dh and de = "\<lparr>de_stat = zero_stat, de_flags = 2, de_name = ''x''\<rparr>"
          and des = "[]" and err = "- ENOMEM" and e = "zero_entry\<lparr>e_attr := zero_stat\<rparr>" and ?L1.0 = "?L\<lparr>l_f := demo2\<rparr>"])
      (use lk in \<open>simp_all add: demo_plus_def demo_lib_def is_dot_or_dotdot_def FUSE_FILL_DIR_PLUS_def ENOMEM_def\<close>)
qed

end
