(* ===== verification/Priority_Queue.thy ===== *)
theory Priority_Queue
  imports Main "HOL-Library.Multiset"
begin

text \<open>
  \<open>std::priority_queue\<close> as the addon uses it: \<open>top()\<close> is an element that no other one compares
  above, and the choice among equals is left open (a number that picks one). The locale
  \<open>ranking\<close> is what a comparator has to promise, \<open>priority_queue\<close> what the queue then
  promises its users; every ranking gives such a queue.
\<close>

definition best_of :: "('a \<Rightarrow> 'a \<Rightarrow> bool) \<Rightarrow> 'a list \<Rightarrow> 'a list" where
  "best_of worse xs = filter (\<lambda>x. \<forall>y\<in>set xs. \<not> worse x y) xs"

definition take_best :: "('a \<Rightarrow> 'a \<Rightarrow> bool) \<Rightarrow> nat \<Rightarrow> 'a list \<Rightarrow> 'a \<times> 'a list" where
  "take_best worse c xs = (let x = best_of worse xs ! (c mod length (best_of worse xs)) in (x, remove1 x xs))"

text \<open>The orders in which a queue can be emptied.\<close>

inductive drained :: "(nat \<Rightarrow> 'a list \<Rightarrow> 'a \<times> 'a list) \<Rightarrow> 'a list \<Rightarrow> 'a list \<Rightarrow> bool"
  for take_one where
  drained_empty: "drained take_one [] []"
| drained_take: "xs \<noteq> [] \<Longrightarrow> take_one c xs = (x, ys) \<Longrightarrow> drained take_one ys zs \<Longrightarrow>
    drained take_one xs (x # zs)"

text \<open>\<open>worse a b\<close>: \<open>b\<close> is to be taken before \<open>a\<close>; the number settles ties.\<close>

locale priority_queue =
  fixes worse :: "'a \<Rightarrow> 'a \<Rightarrow> bool"
    and take_one :: "nat \<Rightarrow> 'a list \<Rightarrow> 'a \<times> 'a list"
  assumes not_worse_trans: "\<not> worse a b \<Longrightarrow> \<not> worse b d \<Longrightarrow> \<not> worse a d"
    and take_one_mem: "xs \<noteq> [] \<Longrightarrow> take_one c xs = (x, ys) \<Longrightarrow> mset xs = add_mset x (mset ys)"
    and take_one_best: "xs \<noteq> [] \<Longrightarrow> take_one c xs = (x, ys) \<Longrightarrow> y \<in> set xs \<Longrightarrow> \<not> worse x y"
begin

lemma drained_mset: "drained take_one xs zs \<Longrightarrow> mset zs = mset xs"
  by (induction rule: drained.induct) (auto dest!: take_one_mem)

lemma drained_sorted: "drained take_one xs zs \<Longrightarrow> sorted_wrt (\<lambda>a b. \<not> worse a b) zs"
proof (induction rule: drained.induct)
  case (drained_take xs c x ys zs)
  have "set zs = set ys"
    using drained_mset [OF drained_take.hyps(3)] by (rule mset_eq_setD)
  moreover have "set ys \<subseteq> set xs"
    using arg_cong [OF take_one_mem [OF drained_take.hyps(1,2)], of set_mset] by auto
  ultimately show ?case
    using drained_take take_one_best [OF drained_take.hyps(1,2)] by auto
qed simp

end

locale ranking =
  fixes worse :: "'a \<Rightarrow> 'a \<Rightarrow> bool"
  assumes worse_irrefl: "\<not> worse a a"
    and worse_asym: "worse a b \<Longrightarrow> \<not> worse b a"
    and worse_not_trans: "\<not> worse a b \<Longrightarrow> \<not> worse b c \<Longrightarrow> \<not> worse a c"
begin

lemma best_exists: "xs \<noteq> [] \<Longrightarrow> \<exists>x\<in>set xs. \<forall>y\<in>set xs. \<not> worse x y"
proof (induction xs rule: list_nonempty_induct)
  case (single x)
  then show ?case by (simp add: worse_irrefl)
next
  case (cons x xs)
  then obtain m where m: "m \<in> set xs" "\<forall>y\<in>set xs. \<not> worse m y" by blast
  show ?case
  proof (cases "worse m x")
    case True
    then have "\<not> worse x m" by (rule worse_asym)
    with m have "\<forall>y\<in>set xs. \<not> worse x y"
      using worse_not_trans by blast
    then show ?thesis by (auto simp: worse_irrefl)
  qed (use m in auto)
qed

lemma take_best_spec:
  assumes "xs \<noteq> []" "take_best worse c xs = (x, ys)"
  shows "x \<in> set xs" "ys = remove1 x xs" "\<forall>y\<in>set xs. \<not> worse x y"
proof -
  have "best_of worse xs \<noteq> []"
    using best_exists [OF assms(1)] by (auto simp: best_of_def filter_empty_conv)
  then have "c mod length (best_of worse xs) < length (best_of worse xs)" by simp
  then have "x \<in> set (best_of worse xs)"
    using assms(2) by (auto simp: take_best_def Let_def)
  then show "x \<in> set xs" "\<forall>y\<in>set xs. \<not> worse x y"
    by (auto simp: best_of_def)
  show "ys = remove1 x xs"
    using assms(2) by (auto simp: take_best_def Let_def)
qed

end

sublocale ranking \<subseteq> priority_queue worse "take_best worse"
proof
  fix a b c
  show "\<not> worse a b \<Longrightarrow> \<not> worse b c \<Longrightarrow> \<not> worse a c" by (rule worse_not_trans)
next
  fix xs c x ys
  assume "xs \<noteq> []" "take_best worse c xs = (x, ys)"
  note spec = take_best_spec [OF this]
  then show "mset xs = add_mset x (mset ys)" by simp
  show "y \<in> set xs \<Longrightarrow> \<not> worse x y" for y
    using spec(3) by blast
qed

end
