(* ===== verification/Write_Queue.thy ===== *)
theory Write_Queue
  imports Complex_Main Priority_Queue Fuse_Prelude
begin

text \<open>
  The per-descriptor write queues of the addon (\<open>src/src/write_queue.cc\<close>).

  A \<open>WriteOperation\<close> is a record; its callbacks (\<open>std::function\<close> objects) are
  identities, and what the queue does to the outside (running the executor, calling a
  callback, freeing an owned buffer) is a list of events. The executor is a parameter: it
  maps the operation and the outside world to its result, the microseconds it took and the
  next world. \<open>std::priority_queue\<close> promises that \<open>top()\<close> is an element no other one
  compares above and leaves the choice among equals open: a queue carries a list of choices
  (\<open>choices\<close>), one consumed per \<open>pop()\<close>, so that theorems for all queues hold for every
  choice the library may make. Counters are 64-bit words; the average latency, a
  \<open>double\<close> in the source, is a real number (rounding is not modelled).
\<close>

section \<open>Operations and statistics\<close>

datatype WriteOperationPriority = URGENT | HIGH | NORMAL | LOW

fun priority_int :: "WriteOperationPriority \<Rightarrow> int" where
  "priority_int URGENT = 0"
| "priority_int HIGH = 1"
| "priority_int NORMAL = 2"
| "priority_int LOW = 3"

record WriteOperation =
  wo_fd :: u64
  wo_offset :: u64
  wo_size :: u64
  wo_buffer :: u64
  owns_buffer :: bool
  priority :: WriteOperationPriority
  timestamp :: int
  completion_callback :: "nat option"
  error_callback :: "nat option"
  operation_id :: u64

record WriteQueueStats =
  total_operations :: u64
  completed_operations :: u64
  failed_operations :: u64
  bytes_written :: u64
  queue_size :: u64
  max_queue_size :: u64
  avg_latency_ms :: real
  creation_time :: int

definition new_stats :: "int \<Rightarrow> WriteQueueStats" where
  "new_stats now = \<lparr>total_operations = 0, completed_operations = 0, failed_operations = 0,
     bytes_written = 0, queue_size = 0, max_queue_size = 0, avg_latency_ms = 0, creation_time = now\<rparr>"

datatype wq_event =
    Executed WriteOperation int
  | Cancelled WriteOperation int
  | CallBack nat int
  | FreeBuffer u64

type_synonym 'w executor = "WriteOperation \<Rightarrow> 'w \<Rightarrow> (int \<times> int) \<times> 'w"

text \<open>The constructor and the destructor of an operation.\<close>

definition new_operation ::
  "u64 \<Rightarrow> u64 \<Rightarrow> u64 \<Rightarrow> u64 \<Rightarrow> bool \<Rightarrow> WriteOperationPriority \<Rightarrow> int \<Rightarrow> WriteOperation" where
  "new_operation f off sz buf owned prio now =
     \<lparr>wo_fd = f, wo_offset = off, wo_size = sz, wo_buffer = buf, owns_buffer = owned,
      priority = prio, timestamp = now, completion_callback = None, error_callback = None,
      operation_id = 0\<rparr>"

definition destroy_operation :: "WriteOperation \<Rightarrow> wq_event list" where
  "destroy_operation p = (if owns_buffer p \<and> wo_buffer p \<noteq> 0 then [FreeBuffer (wo_buffer p)] else [])"

section \<open>The queue of one descriptor\<close>

record FDWriteQueue =
  q_fd :: u64
  q_max :: u64
  next_operation_id :: u64
  priority_ordering_enabled :: bool
  operation_queue :: "WriteOperation list"
  choices :: "nat list"
  q_stats :: WriteQueueStats

definition new_queue :: "nat list \<Rightarrow> int \<Rightarrow> u64 \<Rightarrow> u64 \<Rightarrow> FDWriteQueue" where
  "new_queue cs now f mx =
     \<lparr>q_fd = f, q_max = mx, next_operation_id = 1, priority_ordering_enabled = True,
      operation_queue = [], choices = cs, q_stats = new_stats now\<rparr>"

definition queue_length :: "FDWriteQueue \<Rightarrow> u64" where
  "queue_length q = of_nat (length (operation_queue q))"

text \<open>The comparator: \<open>a\<close> comes out after \<open>b\<close>.\<close>

definition ComparePriority :: "WriteOperation \<Rightarrow> WriteOperation \<Rightarrow> bool" where
  "ComparePriority a b =
     (if priority a \<noteq> priority b then priority_int (priority a) > priority_int (priority b)
      else timestamp a > timestamp b)"

definition pq_take :: "nat \<Rightarrow> WriteOperation list \<Rightarrow> WriteOperation \<times> WriteOperation list" where
  "pq_take = take_best ComparePriority"

definition note_size :: "FDWriteQueue \<Rightarrow> FDWriteQueue" where
  "note_size q = q\<lparr>q_stats := (q_stats q)\<lparr>queue_size := queue_length q\<rparr>\<rparr>"

definition Enqueue :: "WriteOperation option \<Rightarrow> FDWriteQueue \<Rightarrow> (u64 \<times> wq_event list) \<times> FDWriteQueue" where
  "Enqueue op q =
     (case op of
        None \<Rightarrow> ((0, []), q)
      | Some p \<Rightarrow>
          if q_max q > 0 \<and> queue_length q \<ge> q_max q then ((0, destroy_operation p), q)
          else let i = next_operation_id q;
                   q1 = q\<lparr>next_operation_id := i + 1,
                          operation_queue := operation_queue q @ [p\<lparr>operation_id := i\<rparr>]\<rparr>;
                   st = (q_stats q1)\<lparr>queue_size := queue_length q1\<rparr>
               in ((i, []), q1\<lparr>q_stats := st\<lparr>max_queue_size := max (max_queue_size st) (queue_size st),
                                          total_operations := total_operations st + 1\<rparr>\<rparr>))"

definition pop_top :: "FDWriteQueue \<Rightarrow> (WriteOperation \<times> FDWriteQueue) option" where
  "pop_top q =
     (if operation_queue q = [] then None
      else case pq_take (case choices q of [] \<Rightarrow> 0 | c # _ \<Rightarrow> c) (operation_queue q) of
             (p, xs) \<Rightarrow> Some (p, q\<lparr>operation_queue := xs, choices := tl (choices q)\<rparr>))"

text \<open>The locked section of the loop in \<open>ProcessQueue\<close>.\<close>

definition take_next :: "FDWriteQueue \<Rightarrow> (WriteOperation \<times> FDWriteQueue) option" where
  "take_next q = map_option (\<lambda>(p, q1). (p, note_size q1)) (pop_top q)"

definition UpdateStats :: "WriteOperation \<Rightarrow> bool \<Rightarrow> real \<Rightarrow> FDWriteQueue \<Rightarrow> FDWriteQueue" where
  "UpdateStats p success latency_ms q =
     (let st = q_stats q;
          st1 = (if success
                 then st\<lparr>completed_operations := completed_operations st + 1,
                         bytes_written := bytes_written st + wo_size p\<rparr>
                 else st\<lparr>failed_operations := failed_operations st + 1\<rparr>);
          n = completed_operations st1
      in q\<lparr>q_stats :=
             (if n > 0
              then st1\<lparr>avg_latency_ms := (avg_latency_ms st1 * real (unat (n - 1)) + latency_ms) / real (unat n)\<rparr>
              else st1)\<rparr>)"

definition notify :: "WriteOperation \<Rightarrow> int \<Rightarrow> wq_event list" where
  "notify p result =
     (case completion_callback p of
        Some cb \<Rightarrow> [CallBack cb result]
      | None \<Rightarrow> (case error_callback p of
                   Some cb \<Rightarrow> if result < 0 then [CallBack cb result] else []
                 | None \<Rightarrow> []))"

text \<open>The rest of an iteration: statistics, callback, and the operation goes out of scope.\<close>

definition finish :: "WriteOperation \<Rightarrow> int \<Rightarrow> int \<Rightarrow> FDWriteQueue \<Rightarrow> wq_event list \<times> FDWriteQueue" where
  "finish p result us q =
     (Executed p result # notify p result @ destroy_operation p,
      UpdateStats p (result \<ge> 0) (of_int us / 1000) q)"

lemma ComparePriority_iff:
  "ComparePriority a b \<longleftrightarrow>
     priority_int (priority b) < priority_int (priority a) \<or>
     priority a = priority b \<and> timestamp b < timestamp a"
  by (cases "priority a"; cases "priority b") (auto simp: ComparePriority_def)

lemma priority_int_inj: "priority_int p = priority_int r \<longleftrightarrow> p = r"
  by (cases p; cases r) auto

lemma ComparePriority_irrefl: "\<not> ComparePriority a a"
  by (simp add: ComparePriority_iff)

lemma ComparePriority_asym: "ComparePriority a b \<Longrightarrow> \<not> ComparePriority b a"
  by (auto simp: ComparePriority_iff)

lemma ComparePriority_not_trans:
  "\<not> ComparePriority a b \<Longrightarrow> \<not> ComparePriority b c \<Longrightarrow> \<not> ComparePriority a c"
  by (auto simp: ComparePriority_iff not_less le_less priority_int_inj)

interpretation wq: ranking ComparePriority
  by unfold_locales (auto simp: ComparePriority_irrefl dest: ComparePriority_asym ComparePriority_not_trans)

lemma pop_topD:
  assumes "pop_top q = Some (p, q1)"
  shows "p \<in> set (operation_queue q)" "\<forall>y\<in>set (operation_queue q). \<not> ComparePriority p y"
    "q1 = q\<lparr>operation_queue := remove1 p (operation_queue q), choices := tl (choices q)\<rparr>"
proof -
  let ?c = "case choices q of [] \<Rightarrow> 0 | c # _ \<Rightarrow> c"
  obtain x xs where t: "pq_take ?c (operation_queue q) = (x, xs)" by fastforce
  have ne: "operation_queue q \<noteq> []"
    and q1: "p = x" "q1 = q\<lparr>operation_queue := xs, choices := tl (choices q)\<rparr>"
    using assms t by (auto simp: pop_top_def split: if_splits)
  show "p \<in> set (operation_queue q)" "\<forall>y\<in>set (operation_queue q). \<not> ComparePriority p y"
    "q1 = q\<lparr>operation_queue := remove1 p (operation_queue q), choices := tl (choices q)\<rparr>"
    using wq.take_best_spec [OF ne t [unfolded pq_take_def]] q1 by simp_all
qed

lemma pop_top_None: "pop_top q = None \<longleftrightarrow> operation_queue q = []"
  by (auto simp: pop_top_def split: prod.splits)

lemma pop_top_shorter:
  "pop_top q = Some (p, q1) \<Longrightarrow> length (operation_queue q1) < length (operation_queue q)"
  using pop_topD [of q p q1] by (simp add: length_remove1_less)

lemma take_next_shorter:
  "take_next q = Some (p, q1) \<Longrightarrow> length (operation_queue q1) < length (operation_queue q)"
  by (auto simp: take_next_def note_size_def dest: pop_top_shorter)

lemma UpdateStats_frame [simp]:
  "operation_queue (UpdateStats p b l q) = operation_queue q"
  "q_max (UpdateStats p b l q) = q_max q"
  "next_operation_id (UpdateStats p b l q) = next_operation_id q"
  "choices (UpdateStats p b l q) = choices q"
  by (simp_all add: UpdateStats_def Let_def)

function process_loop ::
  "'w executor \<Rightarrow> FDWriteQueue \<Rightarrow> 'w \<Rightarrow> (nat \<times> wq_event list) \<times> FDWriteQueue \<times> 'w" where
  "process_loop ex q w =
     (case take_next q of
        None \<Rightarrow> ((0, []), q, w)
      | Some (p, q1) \<Rightarrow>
          (case ex p w of
             ((result, us), w1) \<Rightarrow>
               (case finish p result us q1 of
                  (evs, q2) \<Rightarrow>
                    (case process_loop ex q2 w1 of
                       ((n, evs'), q3, w2) \<Rightarrow> ((n + 1, evs @ evs'), q3, w2)))))"
  by pat_completeness auto
termination
  by (relation "measure (\<lambda>(_, q, _). length (operation_queue q))") (auto simp: finish_def dest!: take_next_shorter)

declare process_loop.simps [simp del]

definition ProcessQueue ::
  "'w executor option \<Rightarrow> FDWriteQueue \<Rightarrow> 'w \<Rightarrow> (nat \<times> wq_event list) \<times> FDWriteQueue \<times> 'w" where
  "ProcessQueue ex q w = (case ex of None \<Rightarrow> ((0, []), q, w) | Some e \<Rightarrow> process_loop e q w)"

text \<open>
  \<open>Flush\<close> polls until the queue is empty or the time is over. Its first argument has one
  entry per passed check of the clock: what the other threads do to the queue in the sleep
  that follows.
\<close>

fun Flush :: "(FDWriteQueue \<Rightarrow> FDWriteQueue) list \<Rightarrow> FDWriteQueue \<Rightarrow> bool \<times> FDWriteQueue" where
  "Flush [] q = (False, q)"
| "Flush (sleep # sleeps) q = (if operation_queue q = [] then (True, q) else Flush sleeps (sleep q))"

definition cancel_events :: "int \<Rightarrow> WriteOperation \<Rightarrow> wq_event list" where
  "cancel_events err p =
     Cancelled p err # (case error_callback p of Some cb \<Rightarrow> [CallBack cb err] | None \<Rightarrow> []) @ destroy_operation p"

function cancel_loop :: "int \<Rightarrow> FDWriteQueue \<Rightarrow> wq_event list \<times> FDWriteQueue" where
  "cancel_loop err q =
     (case pop_top q of
        None \<Rightarrow> ([], q)
      | Some (p, q1) \<Rightarrow>
          let q2 = q1\<lparr>q_stats := (q_stats q1)\<lparr>failed_operations := failed_operations (q_stats q1) + 1\<rparr>\<rparr>
          in case cancel_loop err q2 of (evs, q3) \<Rightarrow> (cancel_events err p @ evs, q3))"
  by pat_completeness auto
termination
  by (relation "measure (\<lambda>(_, q). length (operation_queue q))") (auto dest!: pop_top_shorter)

declare cancel_loop.simps [simp del]

definition CancelAll :: "int \<Rightarrow> FDWriteQueue \<Rightarrow> wq_event list \<times> FDWriteQueue" where
  "CancelAll err q =
     (case cancel_loop err q of
        (evs, q1) \<Rightarrow> (evs, q1\<lparr>q_stats := (q_stats q1)\<lparr>queue_size := 0\<rparr>\<rparr>))"

definition IsEmpty :: "FDWriteQueue \<Rightarrow> bool" where
  "IsEmpty q \<longleftrightarrow> operation_queue q = []"

definition GetQueueSize :: "FDWriteQueue \<Rightarrow> u64" where
  "GetQueueSize q = queue_length q"

definition ResetStats :: "int \<Rightarrow> FDWriteQueue \<Rightarrow> FDWriteQueue" where
  "ResetStats now q = q\<lparr>q_stats := new_stats now\<rparr>"

definition SetMaxQueueSize :: "u64 \<Rightarrow> FDWriteQueue \<Rightarrow> FDWriteQueue" where
  "SetMaxQueueSize mx q = q\<lparr>q_max := mx\<rparr>"

definition SetPriorityOrdering :: "bool \<Rightarrow> FDWriteQueue \<Rightarrow> FDWriteQueue" where
  "SetPriorityOrdering b q = q\<lparr>priority_ordering_enabled := b\<rparr>"

section \<open>The manager of all descriptors\<close>

text \<open>
  The table is an association list; a new descriptor goes to its end (the iteration order
  of the hash map is open, and no property depends on it). The choices of a new queue and
  the time of its creation are arguments.
\<close>

record WriteQueueManager =
  default_max_queue_size :: u64
  fd_queues :: "(u64 \<times> FDWriteQueue) list"

definition GetQueue :: "nat list \<Rightarrow> int \<Rightarrow> u64 \<Rightarrow> WriteQueueManager \<Rightarrow> FDWriteQueue \<times> WriteQueueManager" where
  "GetQueue cs now f m =
     (case map_of (fd_queues m) f of
        Some q \<Rightarrow> (q, m)
      | None \<Rightarrow> let q = new_queue cs now f (default_max_queue_size m)
                in (q, m\<lparr>fd_queues := fd_queues m @ [(f, q)]\<rparr>))"

definition put_queue :: "u64 \<Rightarrow> FDWriteQueue \<Rightarrow> WriteQueueManager \<Rightarrow> WriteQueueManager" where
  "put_queue f q m = m\<lparr>fd_queues := map (\<lambda>(g, r). if g = f then (g, q) else (g, r)) (fd_queues m)\<rparr>"

definition EnqueueWrite ::
  "nat list \<Rightarrow> int \<Rightarrow> u64 \<Rightarrow> WriteOperation option \<Rightarrow> WriteQueueManager \<Rightarrow>
   (u64 \<times> wq_event list) \<times> WriteQueueManager" where
  "EnqueueWrite cs now f op m =
     (case op of
        None \<Rightarrow> ((0, []), m)
      | Some p \<Rightarrow> (case GetQueue cs now f m of
          (q, m1) \<Rightarrow> (case Enqueue op q of (r, q1) \<Rightarrow> (r, put_queue f q1 m1))))"

text \<open>The queue leaves the table, is flushed and destroyed, which cancels what is left.\<close>

definition ECANCELED :: int where "ECANCELED = 125"

definition RemoveQueue ::
  "(FDWriteQueue \<Rightarrow> FDWriteQueue) list \<Rightarrow> u64 \<Rightarrow> WriteQueueManager \<Rightarrow> (bool \<times> wq_event list) \<times> WriteQueueManager" where
  "RemoveQueue sleeps f m =
     (case map_of (fd_queues m) f of
        None \<Rightarrow> ((True, []), m)
      | Some q \<Rightarrow>
          (case Flush sleeps q of
             (ok, q1) \<Rightarrow> ((ok, fst (CancelAll (- ECANCELED) q1)),
                         m\<lparr>fd_queues := filter (\<lambda>(g, _). g \<noteq> f) (fd_queues m)\<rparr>)))"

fun process_all ::
  "'w executor \<Rightarrow> (u64 \<times> FDWriteQueue) list \<Rightarrow> 'w \<Rightarrow>
   (nat \<times> wq_event list) \<times> (u64 \<times> FDWriteQueue) list \<times> 'w" where
  "process_all ex [] w = ((0, []), [], w)"
| "process_all ex ((f, q) # qs) w =
     (case ProcessQueue (Some ex) q w of
        ((n, evs), q1, w1) \<Rightarrow>
          (case process_all ex qs w1 of
             ((n', evs'), qs', w2) \<Rightarrow> ((n + n', evs @ evs'), (f, q1) # qs', w2)))"

definition ProcessAllQueues ::
  "'w executor option \<Rightarrow> WriteQueueManager \<Rightarrow> 'w \<Rightarrow> (nat \<times> wq_event list) \<times> WriteQueueManager \<times> 'w" where
  "ProcessAllQueues ex m w =
     (case ex of
        None \<Rightarrow> ((0, []), m, w)
      | Some e \<Rightarrow> (case process_all e (fd_queues m) w of
                    (r, qs, w1) \<Rightarrow> (r, m\<lparr>fd_queues := qs\<rparr>, w1)))"

text \<open>One list of sleeps per queue, in the order of the table.\<close>

fun flush_all ::
  "(u64 \<Rightarrow> (FDWriteQueue \<Rightarrow> FDWriteQueue) list) \<Rightarrow> (u64 \<times> FDWriteQueue) list \<Rightarrow> bool \<times> (u64 \<times> FDWriteQueue) list" where
  "flush_all sleeps [] = (True, [])"
| "flush_all sleeps ((f, q) # qs) =
     (case Flush (sleeps f) q of
        (ok, q1) \<Rightarrow> (case flush_all sleeps qs of (ok', qs') \<Rightarrow> (ok \<and> ok', (f, q1) # qs')))"

definition FlushAll ::
  "(u64 \<Rightarrow> (FDWriteQueue \<Rightarrow> FDWriteQueue) list) \<Rightarrow> WriteQueueManager \<Rightarrow> bool \<times> WriteQueueManager" where
  "FlushAll sleeps m = (case flush_all sleeps (fd_queues m) of (ok, qs) \<Rightarrow> (ok, m\<lparr>fd_queues := qs\<rparr>))"

definition FlushFD ::
  "nat list \<Rightarrow> int \<Rightarrow> (FDWriteQueue \<Rightarrow> FDWriteQueue) list \<Rightarrow> u64 \<Rightarrow> WriteQueueManager \<Rightarrow> bool \<times> WriteQueueManager" where
  "FlushFD cs now sleeps f m =
     (case GetQueue cs now f m of
        (q, m1) \<Rightarrow> (case Flush sleeps q of (ok, q1) \<Rightarrow> (ok, put_queue f q1 m1)))"

definition manager_CancelAll :: "int \<Rightarrow> WriteQueueManager \<Rightarrow> wq_event list \<times> WriteQueueManager" where
  "manager_CancelAll err m =
     (concat (map (\<lambda>(_, q). fst (CancelAll err q)) (fd_queues m)),
      m\<lparr>fd_queues := map (\<lambda>(f, q). (f, snd (CancelAll err q))) (fd_queues m)\<rparr>)"

definition GetActiveFDs :: "WriteQueueManager \<Rightarrow> u64 list" where
  "GetActiveFDs m = map fst (fd_queues m)"

text \<open>The counters of all queues; the latency is weighted by the completed operations.\<close>

definition add_stats :: "WriteQueueStats \<Rightarrow> WriteQueueStats \<Rightarrow> WriteQueueStats" where
  "add_stats agg st =
     agg\<lparr>total_operations := total_operations agg + total_operations st,
         completed_operations := completed_operations agg + completed_operations st,
         failed_operations := failed_operations agg + failed_operations st,
         bytes_written := bytes_written agg + bytes_written st,
         queue_size := queue_size agg + queue_size st,
         max_queue_size := max (max_queue_size agg) (max_queue_size st)\<rparr>"

definition GetAggregateStats :: "int \<Rightarrow> WriteQueueManager \<Rightarrow> WriteQueueStats" where
  "GetAggregateStats now m =
     (let sts = map (q_stats \<circ> snd) (fd_queues m);
          agg = foldl add_stats (new_stats now) sts;
          weighted = (\<Sum>st\<leftarrow>sts. avg_latency_ms st * real (unat (completed_operations st)));
          completed = (\<Sum>st\<leftarrow>sts. completed_operations st)
      in if completed > 0 then agg\<lparr>avg_latency_ms := weighted / real (unat completed)\<rparr> else agg)"

definition GetFDStats :: "u64 \<Rightarrow> WriteQueueManager \<Rightarrow> WriteQueueStats option" where
  "GetFDStats f m = map_option q_stats (map_of (fd_queues m) f)"

definition ResetAllStats :: "int \<Rightarrow> WriteQueueManager \<Rightarrow> WriteQueueManager" where
  "ResetAllStats now m = m\<lparr>fd_queues := map (\<lambda>(f, q). (f, ResetStats now q)) (fd_queues m)\<rparr>"

definition SetDefaultMaxQueueSize :: "u64 \<Rightarrow> WriteQueueManager \<Rightarrow> WriteQueueManager" where
  "SetDefaultMaxQueueSize mx m = m\<lparr>default_max_queue_size := mx\<rparr>"

definition SetFDMaxQueueSize :: "nat list \<Rightarrow> int \<Rightarrow> u64 \<Rightarrow> u64 \<Rightarrow> WriteQueueManager \<Rightarrow> WriteQueueManager" where
  "SetFDMaxQueueSize cs now f mx m =
     (case GetQueue cs now f m of (q, m1) \<Rightarrow> put_queue f (SetMaxQueueSize mx q) m1)"

text \<open>The process-wide manager.\<close>

definition InitializeGlobalWriteQueueManager :: "u64 \<Rightarrow> WriteQueueManager option \<Rightarrow> bool \<times> WriteQueueManager option" where
  "InitializeGlobalWriteQueueManager mx g =
     (case g of
        Some m \<Rightarrow> (False, g)
      | None \<Rightarrow> (True, Some \<lparr>default_max_queue_size = mx, fd_queues = []\<rparr>))"

text \<open>
  \<open>reset()\<close> destroys the manager: its destructor flushes once more, then each queue is
  destroyed and cancels what it still holds.
\<close>

definition ShutdownGlobalWriteQueueManager ::
  "(u64 \<Rightarrow> (FDWriteQueue \<Rightarrow> FDWriteQueue) list) \<Rightarrow> (u64 \<Rightarrow> (FDWriteQueue \<Rightarrow> FDWriteQueue) list) \<Rightarrow>
   WriteQueueManager option \<Rightarrow> (bool \<times> wq_event list) \<times> WriteQueueManager option" where
  "ShutdownGlobalWriteQueueManager sleeps sleeps' g =
     (case g of
        None \<Rightarrow> ((True, []), None)
      | Some m \<Rightarrow>
          (case FlushAll sleeps m of
             (ok, m1) \<Rightarrow>
               (case FlushAll sleeps' m1 of
                  (_, m2) \<Rightarrow> ((ok, fst (manager_CancelAll (- ECANCELED) m2)), None))))"

end
