(* ===== verification/Write_Queue_Properties.thy ===== *)
theory Write_Queue_Properties
  imports Write_Queue
begin

text \<open>
  The write queues: the order in which \<open>ProcessQueue\<close> serves the operations, and the
  bookkeeping under any interleaving of producers, workers and cancellations.
\<close>

section \<open>What a list of events says\<close>

fun executed :: "wq_event list \<Rightarrow> WriteOperation list" where
  "executed [] = []"
| "executed (Executed p r # es) = p # executed es"
| "executed (_ # es) = executed es"

fun cancelled :: "wq_event list \<Rightarrow> WriteOperation list" where
  "cancelled [] = []"
| "cancelled (Cancelled p r # es) = p # cancelled es"
| "cancelled (_ # es) = cancelled es"

fun freed :: "wq_event list \<Rightarrow> u64 list" where
  "freed [] = []"
| "freed (FreeBuffer b # es) = b # freed es"
| "freed (_ # es) = freed es"

definition owned_buffers :: "WriteOperation \<Rightarrow> u64 list" where
  "owned_buffers p = (if owns_buffer p \<and> wo_buffer p \<noteq> 0 then [wo_buffer p] else [])"

text \<open>The multiset of the buffers that operations own.\<close>

definition buffers :: "WriteOperation list \<Rightarrow> u64 multiset" where
  "buffers ps = \<Sum>\<^sub># (image_mset (\<lambda>p. mset (owned_buffers p)) (mset ps))"

lemma buffers_simps [simp]:
  "buffers [] = {#}" "buffers (p # ps) = mset (owned_buffers p) + buffers ps"
  "buffers (ps @ rs) = buffers ps + buffers rs"
  by (simp_all add: buffers_def)

lemma buffers_cong: "mset ps = mset rs \<Longrightarrow> buffers ps = buffers rs"
  by (simp add: buffers_def)

lemma buffers_remove1: "p \<in> set ps \<Longrightarrow> buffers ps = mset (owned_buffers p) + buffers (remove1 p ps)"
  using buffers_cong [of ps "p # remove1 p ps"] by simp

lemma executed_append [simp]: "executed (es @ fs) = executed es @ executed fs"
  by (induction es rule: executed.induct) simp_all

lemma cancelled_append [simp]: "cancelled (es @ fs) = cancelled es @ cancelled fs"
  by (induction es rule: cancelled.induct) simp_all

lemma freed_append [simp]: "freed (es @ fs) = freed es @ freed fs"
  by (induction es rule: freed.induct) simp_all

lemma events_destroy [simp]:
  "executed (destroy_operation p) = []" "cancelled (destroy_operation p) = []"
  "freed (destroy_operation p) = owned_buffers p"
  by (simp_all add: destroy_operation_def owned_buffers_def)

lemma events_notify [simp]:
  "executed (notify p r) = []" "cancelled (notify p r) = []" "freed (notify p r) = []"
  by (simp_all add: notify_def split: option.splits)

lemma events_cancel [simp]:
  "executed (cancel_events e p) = []" "cancelled (cancel_events e p) = [p]"
  "freed (cancel_events e p) = owned_buffers p"
  by (simp_all add: cancel_events_def split: option.splits)


section \<open>Draining one queue\<close>

definition served :: "(WriteOperation \<times> int) list \<Rightarrow> wq_event list" where
  "served rs = concat (map (\<lambda>(p, r). Executed p r # notify p r @ destroy_operation p) rs)"

lemma served_simps [simp]:
  "served [] = []"
  "served ((p, r) # rs) = Executed p r # notify p r @ destroy_operation p @ served rs"
  by (simp_all add: served_def)

lemma freed_served: "mset (freed (served rs)) = buffers (map fst rs)"
  by (induction rs) auto

lemma process_loop_drains:
  "process_loop ex q w = ((n, evs), q', w') \<Longrightarrow>
     \<exists>rs. evs = served rs \<and> drained pq_take (operation_queue q) (map fst rs) \<and> n = length rs \<and>
       operation_queue q' = []"
proof (induction ex q w arbitrary: n evs q' w' rule: process_loop.induct)
  case (1 ex q w)
  show ?case
  proof (cases "pop_top q")
    case None
    with "1.prems" show ?thesis
      by (auto simp: process_loop.simps [of ex q w] take_next_def pop_top_None intro!: exI [of _ "[]"] drained.intros)
  next
    case (Some pq)
    obtain p q1 where pq: "pop_top q = Some (p, q1)" using Some by (cases pq) auto
    let ?q1 = "note_size q1"
    have t: "take_next q = Some (p, ?q1)" using pq by (simp add: take_next_def)
    obtain r us w1 where e: "ex p w = ((r, us), w1)" by (metis prod.exhaust)
    obtain fe q2 where f: "finish p r us ?q1 = (fe, q2)" by fastforce
    obtain n1 e1 q3 w3 where l: "process_loop ex q2 w1 = ((n1, e1), q3, w3)" by (metis prod.exhaust)
    obtain rs where rs: "e1 = served rs" "drained pq_take (operation_queue q2) (map fst rs)"
      "n1 = length rs" "operation_queue q3 = []"
      using "1.IH" [OF t refl e [symmetric] refl f [symmetric] l] by blast
    have q2: "operation_queue q2 = operation_queue q1"
      using f by (auto simp: finish_def note_size_def)
    obtain c where "pq_take c (operation_queue q) = (p, operation_queue q1)" "operation_queue q \<noteq> []"
      using pq by (auto simp: pop_top_def split: if_splits prod.splits)
    with rs(2) q2 have "drained pq_take (operation_queue q) (p # map fst rs)"
      by (intro drained_take) auto
    moreover have "n = n1 + 1" "evs = served ((p, r) # rs)" "q' = q3"
      using "1.prems" f by (auto simp: process_loop.simps [of ex q w] t e l rs(1) finish_def)
    ultimately show ?thesis
      using rs(3,4) by (intro exI [of _ "(p, r) # rs"]) simp
  qed
qed


section \<open>Interleavings\<close>

text \<open>
  Any number of threads use the queue. A step is one critical section or the completion of
  an operation some thread has taken (\<open>inflight\<close>). \<open>sys_log\<close> collects the events,
  \<open>submitted\<close> and \<open>accepted\<close> the operations handed over and queued.
\<close>

record wq_sys =
  sys_q :: FDWriteQueue
  inflight :: "WriteOperation list"
  sys_log :: "wq_event list"
  submitted :: "WriteOperation list"
  accepted :: "WriteOperation list"

inductive wq_step :: "wq_sys \<Rightarrow> wq_sys \<Rightarrow> bool" where
  refuse: "Enqueue (Some p) (sys_q s) = ((i, evs), q') \<Longrightarrow> operation_queue q' = operation_queue (sys_q s) \<Longrightarrow>
    wq_step s (s\<lparr>sys_q := q', sys_log := sys_log s @ evs, submitted := submitted s @ [p]\<rparr>)"
| accept: "Enqueue (Some p) (sys_q s) = ((i, evs), q') \<Longrightarrow> operation_queue q' \<noteq> operation_queue (sys_q s) \<Longrightarrow>
    wq_step s (s\<lparr>sys_q := q', sys_log := sys_log s @ evs, submitted := submitted s @ [p],
                 accepted := accepted s @ [p\<lparr>operation_id := i\<rparr>]\<rparr>)"
| take: "take_next (sys_q s) = Some (p, q') \<Longrightarrow>
    wq_step s (s\<lparr>sys_q := q', inflight := p # inflight s\<rparr>)"
| complete: "p \<in> set (inflight s) \<Longrightarrow> finish p r us (sys_q s) = (evs, q') \<Longrightarrow>
    wq_step s (s\<lparr>sys_q := q', inflight := remove1 p (inflight s), sys_log := sys_log s @ evs\<rparr>)"
| cancel: "CancelAll err (sys_q s) = (evs, q') \<Longrightarrow>
    wq_step s (s\<lparr>sys_q := q', sys_log := sys_log s @ evs\<rparr>)"
| resize: "wq_step s (s\<lparr>sys_q := SetMaxQueueSize mx (sys_q s)\<rparr>)"
| reorder: "wq_step s (s\<lparr>sys_q := SetPriorityOrdering b (sys_q s)\<rparr>)"

definition wq_start :: "FDWriteQueue \<Rightarrow> wq_sys" where
  "wq_start q = \<lparr>sys_q = q, inflight = [], sys_log = [], submitted = [], accepted = []\<rparr>"

definition counts_agree :: "wq_sys \<Rightarrow> bool" where
  "counts_agree s \<longleftrightarrow>
     (let st = q_stats (sys_q s) in
        total_operations st = completed_operations st + failed_operations st +
          queue_length (sys_q s) + of_nat (length (inflight s)) \<and>
        queue_size st = queue_length (sys_q s))"

definition none_lost :: "wq_sys \<Rightarrow> bool" where
  "none_lost s \<longleftrightarrow>
     mset (accepted s) = mset (operation_queue (sys_q s)) + mset (inflight s) +
       mset (executed (sys_log s)) + mset (cancelled (sys_log s))"

definition ids_fresh :: "wq_sys \<Rightarrow> bool" where
  "ids_fresh s \<longleftrightarrow>
     next_operation_id (sys_q s) = of_nat (Suc (length (accepted s))) \<and>
     map operation_id (accepted s) = map (\<lambda>i. of_nat (Suc i)) [0..<length (accepted s)]"

definition buffers_freed :: "wq_sys \<Rightarrow> bool" where
  "buffers_freed s \<longleftrightarrow>
     buffers (submitted s) = mset (freed (sys_log s)) +
       buffers (operation_queue (sys_q s)) + buffers (inflight s)"

lemmas wq_inv_defs = counts_agree_def none_lost_def ids_fresh_def buffers_freed_def

lemma Enqueue_cases:
  assumes "Enqueue (Some p) q = ((i, evs), q')"
  obtains (full) "q' = q" "evs = destroy_operation p"
  | (queued) "i = next_operation_id q" "evs = []" "next_operation_id q' = i + 1"
      "operation_queue q' = operation_queue q @ [p\<lparr>operation_id := i\<rparr>]"
      "queue_size (q_stats q') = queue_length q'"
      "total_operations (q_stats q') = total_operations (q_stats q) + 1"
      "completed_operations (q_stats q') = completed_operations (q_stats q)"
      "failed_operations (q_stats q') = failed_operations (q_stats q)"
proof (cases "q_max q > 0 \<and> queue_length q \<ge> q_max q")
  case True
  with assms show thesis by (intro full) (simp_all add: Enqueue_def)
next
  case False
  with assms show thesis by (intro queued) (auto simp: Enqueue_def Let_def queue_length_def)
qed

lemma owned_id [simp]: "owned_buffers (p\<lparr>operation_id := i\<rparr>) = owned_buffers p"
  by (simp add: owned_buffers_def)

lemma remove1_counts: "p \<in> set ps \<Longrightarrow> (of_nat (length ps) :: u64) = of_nat (length (remove1 p ps)) + 1"
  using length_pos_if_in_set [of p ps]
  by (cases "length ps") (auto simp: length_remove1)

lemma UpdateStats_counts:
  "total_operations (q_stats (UpdateStats p b l q)) = total_operations (q_stats q)"
  "queue_size (q_stats (UpdateStats p b l q)) = queue_size (q_stats q)"
  "completed_operations (q_stats (UpdateStats p b l q)) + failed_operations (q_stats (UpdateStats p b l q)) =
     completed_operations (q_stats q) + failed_operations (q_stats q) + 1"
  by (simp_all add: UpdateStats_def Let_def)

lemma cancel_loop_spec:
  "cancel_loop err q = (evs, q') \<Longrightarrow>
     operation_queue q' = [] \<and> next_operation_id q' = next_operation_id q \<and>
     mset (cancelled evs) = mset (operation_queue q) \<and> executed evs = [] \<and>
     mset (freed evs) = buffers (operation_queue q) \<and>
     total_operations (q_stats q') = total_operations (q_stats q) \<and>
     completed_operations (q_stats q') = completed_operations (q_stats q) \<and>
     failed_operations (q_stats q') = failed_operations (q_stats q) + queue_length q"
proof (induction err q arbitrary: evs q' rule: cancel_loop.induct)
  case (1 err q)
  show ?case
  proof (cases "pop_top q")
    case None
    with "1.prems" show ?thesis
      by (auto simp: cancel_loop.simps [of err q] pop_top_None queue_length_def)
  next
    case (Some pq)
    obtain p q1 where pq: "pop_top q = Some (p, q1)" using Some by (cases pq) auto
    let ?q2 = "q1\<lparr>q_stats := (q_stats q1)\<lparr>failed_operations := failed_operations (q_stats q1) + 1\<rparr>\<rparr>"
    obtain e1 q3 where l: "cancel_loop err ?q2 = (e1, q3)" by fastforce
    have out: "evs = cancel_events err p @ e1" "q' = q3"
      using "1.prems" by (auto simp: cancel_loop.simps [of err q] pq l Let_def)
    show ?thesis
      using "1.IH" [OF pq refl refl l] pop_topD [OF pq] remove1_counts [of p "operation_queue q"]
        buffers_remove1 [of p "operation_queue q"]
      by (simp add: out queue_length_def)
  qed
qed

lemma wq_step_counts: "wq_step s t \<Longrightarrow> counts_agree s \<Longrightarrow> counts_agree t"
proof (induction rule: wq_step.induct)
  case (refuse p s i evs q')
  then show ?case by (elim Enqueue_cases) (auto simp: counts_agree_def)
next
  case (accept p s i evs q')
  then show ?case by (elim Enqueue_cases) (auto simp: counts_agree_def queue_length_def Let_def)
next
  case (take s p q')
  then obtain q1 where q1: "pop_top (sys_q s) = Some (p, q1)" "q' = note_size q1"
    by (auto simp: take_next_def)
  show ?case
    using take.prems pop_topD [OF q1(1)] remove1_counts [of p "operation_queue (sys_q s)"]
    by (simp add: q1(2) counts_agree_def note_size_def queue_length_def Let_def)
next
  case (complete p s r us evs q')
  then show ?case
    using UpdateStats_counts [of p "r \<ge> 0" "of_int us / 1000" "sys_q s"] remove1_counts [of p "inflight s"]
    by (auto simp: counts_agree_def finish_def queue_length_def Let_def)
next
  case (cancel err s evs q')
  then obtain q1 where "cancel_loop err (sys_q s) = (evs, q1)" "q' = q1\<lparr>q_stats := (q_stats q1)\<lparr>queue_size := 0\<rparr>\<rparr>"
    by (auto simp: CancelAll_def split: prod.splits)
  with cancel.prems cancel_loop_spec [OF this(1)] show ?case
    by (auto simp: counts_agree_def queue_length_def Let_def)
qed (simp_all add: counts_agree_def SetMaxQueueSize_def SetPriorityOrdering_def queue_length_def Let_def)

lemma wq_step_none_lost: "wq_step s t \<Longrightarrow> none_lost s \<Longrightarrow> none_lost t"
proof (induction rule: wq_step.induct)
  case (refuse p s i evs q')
  from refuse(1) show ?case
    by (cases rule: Enqueue_cases) (use refuse in \<open>auto simp: none_lost_def\<close>)
next
  case (accept p s i evs q')
  from accept(1) show ?case
    by (cases rule: Enqueue_cases) (use accept in \<open>auto simp: none_lost_def\<close>)
next
  case (take s p q')
  then obtain q1 where q1: "pop_top (sys_q s) = Some (p, q1)" "q' = note_size q1"
    by (auto simp: take_next_def)
  show ?case
    using take.prems pop_topD [OF q1(1)] by (auto simp: q1(2) none_lost_def note_size_def)
next
  case (complete p s r us evs q')
  then show ?case by (auto simp: none_lost_def finish_def)
next
  case (cancel err s evs q')
  then obtain q1 where "cancel_loop err (sys_q s) = (evs, q1)" "operation_queue q' = operation_queue q1"
    by (auto simp: CancelAll_def split: prod.splits)
  with cancel.prems cancel_loop_spec [OF this(1)] show ?case
    by (auto simp: none_lost_def)
qed (simp_all add: none_lost_def SetMaxQueueSize_def SetPriorityOrdering_def)

lemma wq_step_buffers: "wq_step s t \<Longrightarrow> buffers_freed s \<Longrightarrow> buffers_freed t"
proof (induction rule: wq_step.induct)
  case (refuse p s i evs q')
  from refuse(1) show ?case
    by (cases rule: Enqueue_cases) (use refuse in \<open>auto simp: buffers_freed_def\<close>)
next
  case (accept p s i evs q')
  from accept(1) show ?case
    by (cases rule: Enqueue_cases) (use accept in \<open>auto simp: buffers_freed_def\<close>)
next
  case (take s p q')
  then obtain q1 where q1: "pop_top (sys_q s) = Some (p, q1)" "q' = note_size q1"
    by (auto simp: take_next_def)
  show ?case
    using take.prems pop_topD [OF q1(1)] buffers_remove1 [of p "operation_queue (sys_q s)"]
    by (auto simp: q1(2) buffers_freed_def note_size_def)
next
  case (complete p s r us evs q')
  then show ?case
    using buffers_remove1 [of p "inflight s"] by (auto simp: buffers_freed_def finish_def)
next
  case (cancel err s evs q')
  then obtain q1 where "cancel_loop err (sys_q s) = (evs, q1)" "operation_queue q' = operation_queue q1"
    by (auto simp: CancelAll_def split: prod.splits)
  with cancel.prems cancel_loop_spec [OF this(1)] show ?case
    by (auto simp: buffers_freed_def)
qed (simp_all add: buffers_freed_def SetMaxQueueSize_def SetPriorityOrdering_def)

lemma wq_step_ids: "wq_step s t \<Longrightarrow> ids_fresh s \<Longrightarrow> ids_fresh t"
proof (induction rule: wq_step.induct)
  case (refuse p s i evs q')
  from refuse(1) show ?case
    by (cases rule: Enqueue_cases) (use refuse in \<open>auto simp: ids_fresh_def\<close>)
next
  case (accept p s i evs q')
  from accept(1) show ?case
    by (cases rule: Enqueue_cases) (use accept in \<open>auto simp: ids_fresh_def\<close>)
next
  case (take s p q')
  then obtain q1 where q1: "pop_top (sys_q s) = Some (p, q1)" "q' = note_size q1"
    by (auto simp: take_next_def)
  show ?case
    using take.prems pop_topD [OF q1(1)] by (auto simp: q1(2) ids_fresh_def note_size_def)
next
  case (cancel err s evs q')
  then obtain q1 where "cancel_loop err (sys_q s) = (evs, q1)" "next_operation_id q' = next_operation_id q1"
    by (auto simp: CancelAll_def split: prod.splits)
  with cancel.prems cancel_loop_spec [OF this(1)] show ?case
    by (auto simp: ids_fresh_def)
qed (auto simp: ids_fresh_def finish_def SetMaxQueueSize_def SetPriorityOrdering_def)

lemma wq_reach_inv:
  assumes "wq_step\<^sup>*\<^sup>* (wq_start (new_queue cs now f mx)) s"
  shows "counts_agree s" "none_lost s" "buffers_freed s" "ids_fresh s"
proof -
  let ?I = "\<lambda>s. counts_agree s \<and> none_lost s \<and> buffers_freed s \<and> ids_fresh s"
  from assms have "?I s"
  proof induction
    case base
    show ?case
      by (simp add: wq_inv_defs wq_start_def new_queue_def new_stats_def queue_length_def Let_def)
  next
    case (step s t)
    then show ?case
      using wq_step_counts wq_step_none_lost wq_step_buffers wq_step_ids by blast
  qed
  then show "counts_agree s" "none_lost s" "buffers_freed s" "ids_fresh s" by blast+
qed

lemma distinct_ids:
  assumes "ids_fresh s" "length (accepted s) < 2 ^ 64"
  shows "distinct (map operation_id (accepted s))"
proof -
  have "inj_on (\<lambda>i. of_nat (Suc i) :: u64) {0..<length (accepted s)}"
  proof (rule inj_onI)
    fix i j
    assume "i \<in> {0..<length (accepted s)}" "j \<in> {0..<length (accepted s)}"
      and e: "(of_nat (Suc i) :: u64) = of_nat (Suc j)"
    then have "i < 2 ^ 64" "j < 2 ^ 64" using assms(2) by auto
    moreover from e have "(of_nat i :: u64) = of_nat j" by simp
    ultimately show "i = j" by (simp add: word_of_nat_eq_iff take_bit_nat_eq_self)
  qed
  then show ?thesis
    using assms(1) by (simp add: ids_fresh_def distinct_map)
qed


definition demo_op :: WriteOperation where
  "demo_op = new_operation 3 0 16 4096 True NORMAL 7"

definition demo_wq_taken :: wq_sys where
  "demo_wq_taken =
     (let s0 = wq_start (new_queue [] 0 3 1);
          q1 = snd (Enqueue (Some demo_op) (sys_q s0));
          (p, q2) = the (take_next q1)
      in s0\<lparr>sys_q := q2, inflight := [p], submitted := [demo_op], accepted := [demo_op\<lparr>operation_id := 1\<rparr>]\<rparr>)"

lemma demo_taken_reached: "wq_step\<^sup>*\<^sup>* (wq_start (new_queue [] 0 3 1)) demo_wq_taken"
proof -
  let ?s0 = "wq_start (new_queue [] 0 3 1)"
  let ?p = "demo_op\<lparr>operation_id := 1\<rparr>"
  let ?q1 = "snd (Enqueue (Some demo_op) (sys_q ?s0))"
  let ?s1 = "?s0\<lparr>sys_q := ?q1, sys_log := sys_log ?s0 @ [], submitted := submitted ?s0 @ [demo_op], accepted := accepted ?s0 @ [?p]\<rparr>"
  note defs = wq_start_def new_queue_def Enqueue_def queue_length_def Let_def
  have e: "Enqueue (Some demo_op) (sys_q ?s0) = ((1, []), ?q1)" and q1: "operation_queue ?q1 = [?p]" "choices ?q1 = []"
    by (simp_all add: defs)
  have s1: "wq_step ?s0 ?s1"
    by (rule wq_step.accept [OF e]) (simp add: q1, simp add: defs)
  obtain q2 where t: "take_next ?q1 = Some (?p, q2)"
    using q1 by (auto simp: take_next_def pop_top_def pq_take_def take_best_def best_of_def ComparePriority_irrefl Let_def)
  have "wq_step ?s1 (?s1\<lparr>sys_q := q2, inflight := ?p # inflight ?s1\<rparr>)"
    by (rule wq_step.take) (simp add: t)
  moreover have "?s1\<lparr>sys_q := q2, inflight := ?p # inflight ?s1\<rparr> = demo_wq_taken"
    by (simp add: demo_wq_taken_def t Let_def) (simp add: wq_start_def)
  ultimately show ?thesis
    using s1 by (auto intro: rtranclp.intros)
qed


end
