(* ===== verification/Ll_Decode.thy ===== *)
theory Ll_Decode
  imports Fuse_Dispatch
begin

text \<open>
  The request decoders of \<open>lib/fuse_lowlevel.c\<close>: for every opcode the function \<open>_do_X\<close> with
  its front end \<open>do_X\<close>, which read the argument structures of \<open>include/fuse_kernel.h\<close> from the
  bytes behind the header (little endian) and call the operation of the file system, or
  answer themselves when there is none.

  A decoder returns what it does as a value (\<open>ll_action\<close>) together with the request, whose
  \<open>umask\<close> it may set. The result \<open>None\<close> is a read beyond the end of the buffer, or a lock type
  outside the three that exist. A name or a data block is read here, where the code hands on a
  pointer into the buffer. The build is the 64-bit one with \<open>HAVE_STATX\<close>.
\<close>

section \<open>Reading structures\<close>

definition rd :: "nat \<Rightarrow> nat \<Rightarrow> byte list \<Rightarrow> byte list option" where
  "rd off k bs = (if off + k \<le> length bs then Some (take k (drop off bs)) else None)"

definition rd32 :: "nat \<Rightarrow> byte list \<Rightarrow> u32 option" where
  "rd32 off bs = map_option (\<lambda>b. of_nat (le_nat b)) (rd off 4 bs)"

definition rd64 :: "nat \<Rightarrow> byte list \<Rightarrow> u64 option" where
  "rd64 off bs = map_option (\<lambda>b. of_nat (le_nat b)) (rd off 8 bs)"

text \<open>A C string: the bytes up to the first 0.\<close>

definition rd_str :: "nat \<Rightarrow> byte list \<Rightarrow> string option" where
  "rd_str off bs =
     (let s = takeWhile (\<lambda>b. b \<noteq> 0) (drop off bs)
      in if off + length s < length bs then Some (map (\<lambda>b. char_of (unat b)) s) else None)"

section \<open>The connection and the operations of the file system\<close>

record fuse_conn_info =
  proto_major :: u32
  proto_minor :: u32
  max_write :: u32
  max_read :: u32
  max_readahead :: u32
  capable :: u32
  want :: u32
  max_background :: u32
  congestion_threshold :: u32
  time_gran :: u32
  max_backing_stack_depth :: u32
  no_interrupt :: bool
  capable_ext :: u64
  want_ext :: u64
  request_timeout :: u16

datatype ll_op =
    Op_init | Op_destroy | Op_lookup | Op_forget | Op_getattr | Op_setattr | Op_readlink | Op_mknod
  | Op_mkdir | Op_unlink | Op_rmdir | Op_symlink | Op_rename | Op_link | Op_open | Op_read | Op_write
  | Op_flush | Op_release | Op_fsync | Op_opendir | Op_readdir | Op_releasedir | Op_fsyncdir | Op_statfs
  | Op_setxattr | Op_getxattr | Op_listxattr | Op_removexattr | Op_access | Op_create | Op_getlk | Op_setlk
  | Op_bmap | Op_ioctl | Op_poll | Op_write_buf | Op_forget_multi | Op_flock | Op_fallocate
  | Op_readdirplus | Op_copy_file_range | Op_lseek | Op_tmpfile | Op_statx

text \<open>What \<open>struct fuse_lowlevel_ops\<close> has besides null pointers.\<close>

type_synonym ll_ops = "ll_op list"

datatype ll_action =
    Invoke fuse_call
  | InvokeWrite fuse_ino "byte list" int fuse_file_info
  | InvokeTmpfile fuse_ino u32 fuse_file_info
  | ForgetEach "(fuse_ino \<times> nat) list"
  | Answer reply

definition ENOTTY :: int where "ENOTTY = 25"

text \<open>
  \<open>if (req->se->op.X) req->se->op.X(...); else fuse_reply_err(req, ENOSYS);\<close>
\<close>

definition call_or :: "ll_ops \<Rightarrow> ll_op \<Rightarrow> ll_action \<Rightarrow> reply \<Rightarrow> ll_action" where
  "call_or ops x act r = (if x \<in> set ops then act else Answer r)"

abbreviation call_or_nosys :: "ll_ops \<Rightarrow> ll_op \<Rightarrow> ll_action \<Rightarrow> ll_action" where
  "call_or_nosys ops x act \<equiv> call_or ops x act (ReplyErr ENOSYS)"

definition flag_set :: "u32 \<Rightarrow> u32 \<Rightarrow> bool" where
  "flag_set w m \<longleftrightarrow> w AND m \<noteq> 0"

definition FUSE_CAP_NO_OPEN_SUPPORT :: u64 where "FUSE_CAP_NO_OPEN_SUPPORT = 2 ^ 17"
definition FUSE_CAP_NO_OPENDIR_SUPPORT :: u64 where "FUSE_CAP_NO_OPENDIR_SUPPORT = 2 ^ 24"
definition FUSE_CAP_SETXATTR_EXT :: u64 where "FUSE_CAP_SETXATTR_EXT = 2 ^ 27"
definition FUSE_CAP_IOCTL_DIR :: u64 where "FUSE_CAP_IOCTL_DIR = 2 ^ 11"

text \<open>Every decoder has the connection, the operations, the request, the node and the argument bytes.\<close>

type_synonym ll_decoder =
  "fuse_conn_info \<Rightarrow> ll_ops \<Rightarrow> request \<Rightarrow> fuse_ino \<Rightarrow> byte list \<Rightarrow> (request \<times> ll_action) option"

section \<open>Names and links\<close>

definition ll_do_lookup :: ll_decoder where
  "ll_do_lookup c ops req nid a = do {
     name \<leftarrow> rd_str 0 a;
     Some (req, call_or_nosys ops Op_lookup (Invoke (NameCall (CLookup nid name)))) }"

definition ll_do_forget :: ll_decoder where
  "ll_do_forget c ops req nid a = do {
     nlk \<leftarrow> rd64 0 a;
     Some (req, call_or ops Op_forget (Invoke (NameCall (CForget nid (unat nlk)))) ReplyNone) }"

fun rd_forgets :: "nat \<Rightarrow> nat \<Rightarrow> byte list \<Rightarrow> (fuse_ino \<times> nat) list option" where
  "rd_forgets off 0 a = Some []"
| "rd_forgets off (Suc n) a = do {
     i \<leftarrow> rd64 off a;
     k \<leftarrow> rd64 (off + 8) a;
     rest \<leftarrow> rd_forgets (off + 16) n a;
     Some ((i, unat k) # rest) }"

definition ll_do_batch_forget :: ll_decoder where
  "ll_do_batch_forget c ops req nid a = do {
     cnt \<leftarrow> rd32 0 a;
     fs \<leftarrow> rd_forgets 8 (unat cnt) a;
     Some (req, if Op_forget_multi \<in> set ops then Invoke (NameCall (CForgetMulti fs))
                else if Op_forget \<in> set ops then ForgetEach fs
                else Answer ReplyNone) }"

definition set_umask :: "fuse_conn_info \<Rightarrow> u32 \<Rightarrow> request \<Rightarrow> request" where
  "set_umask c um req = (if proto_minor c \<ge> 12 then req\<lparr>r_umask := um\<rparr> else req)"

text \<open>Before protocol 7.12 the structure has no \<open>umask\<close>, and the name follows earlier.\<close>

definition ll_do_mknod :: ll_decoder where
  "ll_do_mknod c ops req nid a = do {
     mode \<leftarrow> rd32 0 a;
     rdev \<leftarrow> rd32 4 a;
     name \<leftarrow> rd_str (if proto_minor c < 12 then 8 else 16) a;
     um \<leftarrow> (if proto_minor c \<ge> 12 then rd32 8 a else Some 0);
     Some (set_umask c um req, call_or_nosys ops Op_mknod (Invoke (NameCall (CMknod nid name mode (ucast rdev))))) }"

definition ll_do_mkdir :: ll_decoder where
  "ll_do_mkdir c ops req nid a = do {
     mode \<leftarrow> rd32 0 a;
     um \<leftarrow> (if proto_minor c \<ge> 12 then rd32 4 a else Some 0);
     name \<leftarrow> rd_str 8 a;
     Some (set_umask c um req, call_or_nosys ops Op_mkdir (Invoke (NameCall (CMkdir nid name mode)))) }"

definition ll_do_unlink :: ll_decoder where
  "ll_do_unlink c ops req nid a = do {
     name \<leftarrow> rd_str 0 a;
     Some (req, call_or_nosys ops Op_unlink (Invoke (NameCall (CUnlink nid name)))) }"

definition ll_do_rmdir :: ll_decoder where
  "ll_do_rmdir c ops req nid a = do {
     name \<leftarrow> rd_str 0 a;
     Some (req, call_or_nosys ops Op_rmdir (Invoke (NameCall (CRmdir nid name)))) }"

definition ll_do_symlink :: ll_decoder where
  "ll_do_symlink c ops req nid a = do {
     name \<leftarrow> rd_str 0 a;
     linkname \<leftarrow> rd_str (length name + 1) a;
     Some (req, call_or_nosys ops Op_symlink (Invoke (NameCall (CSymlink linkname nid name)))) }"

definition ll_do_rename :: ll_decoder where
  "ll_do_rename c ops req nid a = do {
     newdir \<leftarrow> rd64 0 a;
     oldname \<leftarrow> rd_str 8 a;
     newname \<leftarrow> rd_str (8 + length oldname + 1) a;
     Some (req, call_or_nosys ops Op_rename (Invoke (NameCall (CRename nid oldname newdir newname 0)))) }"

definition ll_do_rename2 :: ll_decoder where
  "ll_do_rename2 c ops req nid a = do {
     newdir \<leftarrow> rd64 0 a;
     flags \<leftarrow> rd32 8 a;
     oldname \<leftarrow> rd_str 16 a;
     newname \<leftarrow> rd_str (16 + length oldname + 1) a;
     Some (req, call_or_nosys ops Op_rename (Invoke (NameCall (CRename nid oldname newdir newname flags)))) }"

definition ll_do_link :: ll_decoder where
  "ll_do_link c ops req nid a = do {
     oldnodeid \<leftarrow> rd64 0 a;
     name \<leftarrow> rd_str 8 a;
     Some (req, call_or_nosys ops Op_link (Invoke (NameCall (CLink oldnodeid nid name)))) }"

section \<open>Attributes\<close>

definition FUSE_GETATTR_FH :: u32 where "FUSE_GETATTR_FH = 1"
definition FATTR_FH :: u32 where "FATTR_FH = 64"

definition ll_do_getattr :: ll_decoder where
  "ll_do_getattr c ops req nid a = do {
     fip \<leftarrow> (if proto_minor c \<ge> 9 then do {
               flags \<leftarrow> rd32 0 a;
               if flag_set flags FUSE_GETATTR_FH then do { fh \<leftarrow> rd64 8 a; Some (Some (zero_fi\<lparr>fi_fh := fh\<rparr>)) }
               else Some None }
             else Some None);
     Some (req, call_or_nosys ops Op_getattr (Invoke (AttrCall (CGetattr nid fip)))) }"

definition convert_attr :: "byte list \<Rightarrow> stat option" where
  "convert_attr a = do {
     sz \<leftarrow> rd64 16 a;
     at \<leftarrow> rd64 32 a;
     mt \<leftarrow> rd64 40 a;
     ct \<leftarrow> rd64 48 a;
     atn \<leftarrow> rd32 56 a;
     mtn \<leftarrow> rd32 60 a;
     ctn \<leftarrow> rd32 64 a;
     mode \<leftarrow> rd32 68 a;
     uid \<leftarrow> rd32 76 a;
     gid \<leftarrow> rd32 80 a;
     Some (zero_stat\<lparr>st_mode := mode, st_uid := uid, st_gid := gid, st_size := sint sz,
             st_atim := (sint at, uint atn), st_mtim := (sint mt, uint mtn), st_ctim := (sint ct, uint ctn)\<rparr>) }"

text \<open>
  The bits kept in \<open>valid\<close>: MODE, UID, GID, SIZE, ATIME, MTIME, KILL\_SUID, KILL\_SGID, ATIME\_NOW,
  MTIME\_NOW, CTIME.
\<close>

definition setattr_valid_mask :: u32 where
  "setattr_valid_mask = 0x1DBF"

definition ll_do_setattr :: ll_decoder where
  "ll_do_setattr c ops req nid a = do {
     valid \<leftarrow> rd32 0 a;
     if Op_setattr \<in> set ops then do {
       st \<leftarrow> convert_attr a;
       fi \<leftarrow> (if flag_set valid FATTR_FH then do { fh \<leftarrow> rd64 8 a; Some (Some (zero_fi\<lparr>fi_fh := fh\<rparr>)) } else Some None);
       let v1 = (if flag_set valid FATTR_FH then valid AND NOT FATTR_FH else valid);
       Some (req, Invoke (AttrCall (CSetattr nid st (v1 AND setattr_valid_mask) fi))) }
     else Some (req, Answer (ReplyErr ENOSYS)) }"

definition ll_do_statx :: ll_decoder where
  "ll_do_statx c ops req nid a = do {
     gflags \<leftarrow> rd32 0 a;
     fip \<leftarrow> (if flag_set gflags FUSE_GETATTR_FH then do { fh \<leftarrow> rd64 8 a; Some (Some (zero_fi\<lparr>fi_fh := fh\<rparr>)) }
             else Some None);
     sx_flags \<leftarrow> rd32 16 a;
     sx_mask \<leftarrow> rd32 20 a;
     Some (req, call_or_nosys ops Op_statx (Invoke (AttrCall (CStatx nid sx_flags sx_mask fip)))) }"

definition ll_do_access :: ll_decoder where
  "ll_do_access c ops req nid a = do {
     msk \<leftarrow> rd32 0 a;
     Some (req, call_or_nosys ops Op_access (Invoke (AttrCall (CAccess nid msk)))) }"

definition ll_do_readlink :: ll_decoder where
  "ll_do_readlink c ops req nid a =
     Some (req, call_or_nosys ops Op_readlink (Invoke (AttrCall (CReadlink nid))))"

definition ll_do_statfs :: ll_decoder where
  "ll_do_statfs c ops req nid a =
     Some (req, call_or ops Op_statfs (Invoke (AttrCall (CStatfs nid)))
                  (ReplyStatfs (zero_statvfs\<lparr>f_namemax := 255, f_bsize := 512\<rparr>)))"

text \<open>\<open>conn.want\<close> has 32 bits; the capability bit is below.\<close>

definition ll_do_setxattr :: ll_decoder where
  "ll_do_setxattr c ops req nid a = do {
     let off = (if ucast (want c) AND FUSE_CAP_SETXATTR_EXT \<noteq> 0 then 16 else 8);
     sz \<leftarrow> rd32 0 a;
     flags \<leftarrow> rd32 4 a;
     name \<leftarrow> rd_str off a;
     val \<leftarrow> rd (off + length name + 1) (unat sz) a;
     Some (req, call_or_nosys ops Op_setxattr (Invoke (AttrCall (CSetxattr nid name val flags)))) }"

definition ll_do_getxattr :: ll_decoder where
  "ll_do_getxattr c ops req nid a = do {
     sz \<leftarrow> rd32 0 a;
     name \<leftarrow> rd_str 8 a;
     Some (req, call_or_nosys ops Op_getxattr (Invoke (AttrCall (CGetxattr nid name (unat sz))))) }"

definition ll_do_listxattr :: ll_decoder where
  "ll_do_listxattr c ops req nid a = do {
     sz \<leftarrow> rd32 0 a;
     Some (req, call_or_nosys ops Op_listxattr (Invoke (AttrCall (CListxattr nid (unat sz))))) }"

definition ll_do_removexattr :: ll_decoder where
  "ll_do_removexattr c ops req nid a = do {
     name \<leftarrow> rd_str 0 a;
     Some (req, call_or_nosys ops Op_removexattr (Invoke (AttrCall (CRemovexattr nid name)))) }"

section \<open>Files\<close>

definition ll_do_open :: ll_decoder where
  "ll_do_open c ops req nid a = do {
     flags \<leftarrow> rd32 0 a;
     let fi = zero_fi\<lparr>fi_flags := flags\<rparr>;
     Some (req, if Op_open \<in> set ops then Invoke (DataCall (COpen nid fi))
                else if want_ext c AND FUSE_CAP_NO_OPEN_SUPPORT \<noteq> 0 then Answer (ReplyErr ENOSYS)
                else Answer (ReplyOpen fi)) }"

text \<open>The open structure of the old protocol has 8 bytes, the create structure 16.\<close>

definition ll_do_create :: ll_decoder where
  "ll_do_create c ops req nid a = do {
     if Op_create \<in> set ops then do {
       flags \<leftarrow> rd32 0 a;
       mode \<leftarrow> rd32 4 a;
       um \<leftarrow> (if proto_minor c \<ge> 12 then rd32 8 a else Some 0);
       name \<leftarrow> rd_str (if proto_minor c < 12 then 8 else 16) a;
       Some (set_umask c um req, Invoke (DataCall (CCreate nid name mode (zero_fi\<lparr>fi_flags := flags\<rparr>)))) }
     else Some (req, Answer (ReplyErr ENOSYS)) }"

definition ll_do_tmpfile :: ll_decoder where
  "ll_do_tmpfile c ops req nid a = do {
     if Op_tmpfile \<in> set ops then do {
       flags \<leftarrow> rd32 0 a;
       mode \<leftarrow> rd32 4 a;
       um \<leftarrow> (if proto_minor c \<ge> 12 then rd32 8 a else Some 0);
       Some (set_umask c um req, InvokeTmpfile nid mode (zero_fi\<lparr>fi_flags := flags\<rparr>)) }
     else Some (req, Answer (ReplyErr ENOSYS)) }"

text \<open>\<open>lock_owner\<close> and \<open>flags\<close> of a read or write, from protocol 7.9 on.\<close>

definition rd_owner :: "fuse_conn_info \<Rightarrow> fuse_file_info \<Rightarrow> byte list \<Rightarrow> fuse_file_info option" where
  "rd_owner c fi a =
     (if proto_minor c \<ge> 9 then do {
        owner \<leftarrow> rd64 24 a;
        flags \<leftarrow> rd32 32 a;
        Some (fi\<lparr>fi_lock_owner := owner, fi_flags := flags\<rparr>) }
      else Some fi)"

definition ll_do_read :: ll_decoder where
  "ll_do_read c ops req nid a = do {
     if Op_read \<in> set ops then do {
       fh \<leftarrow> rd64 0 a;
       off \<leftarrow> rd64 8 a;
       sz \<leftarrow> rd32 16 a;
       fi \<leftarrow> rd_owner c (zero_fi\<lparr>fi_fh := fh\<rparr>) a;
       Some (req, Invoke (DataCall (CRead nid (unat sz) (sint off) fi))) }
     else Some (req, Answer (ReplyErr ENOSYS)) }"

definition FUSE_WRITE_CACHE :: u32 where "FUSE_WRITE_CACHE = 1"

definition rd_write_fi :: "fuse_conn_info \<Rightarrow> byte list \<Rightarrow> fuse_file_info option" where
  "rd_write_fi c a = do {
     fh \<leftarrow> rd64 0 a;
     wflags \<leftarrow> rd32 20 a;
     rd_owner c (zero_fi\<lparr>fi_fh := fh, fi_writepage := flag_set wflags FUSE_WRITE_CACHE\<rparr>) a }"

definition ll_do_write :: ll_decoder where
  "ll_do_write c ops req nid a = do {
     fi \<leftarrow> rd_write_fi c a;
     off \<leftarrow> rd64 8 a;
     sz \<leftarrow> rd32 16 a;
     buf \<leftarrow> rd (if proto_minor c < 9 then 24 else 40) (unat sz) a;
     Some (req, call_or_nosys ops Op_write (InvokeWrite nid buf (sint off) fi)) }"

text \<open>
  With \<open>write_buf\<close> the data stay where they are: the buffer \<open>ibuf\<close> of the request loses the
  header (40 bytes) and the write structure; its size is a \<open>size_t\<close>, so a request shorter than
  that wraps around.
\<close>

definition ll_do_write_buf ::
  "fuse_conn_info \<Rightarrow> request \<Rightarrow> fuse_ino \<Rightarrow> byte list \<Rightarrow> fuse_buf \<Rightarrow> (request \<times> ll_action) option" where
  "ll_do_write_buf c req nid a ibuf = do {
     let hdr = (if proto_minor c < 9 then 24 else 40);
     _ \<leftarrow> (if proto_minor c < 9 \<and> b_is_fd ibuf then None else Some ());
     let mem = (if b_is_fd ibuf then b_mem ibuf else b_mem ibuf + 40 + hdr);
     let sz = (of_nat (b_size ibuf) :: u64) - of_nat (40 + hdr);
     asz \<leftarrow> rd32 16 a;
     off \<leftarrow> rd64 8 a;
     fi \<leftarrow> rd_write_fi c a;
     if sz < ucast asz then Some (req, Answer (ReplyErr EIO))
     else Some (req, Invoke (DataCall (CWriteBuf nid
            \<lparr>bv_idx = 0, bv_off = 0, bv_bufs = [ibuf\<lparr>b_mem := mem, b_size := unat asz\<rparr>]\<rparr> (sint off) fi))) }"

definition ll_do_flush :: ll_decoder where
  "ll_do_flush c ops req nid a = do {
     fh \<leftarrow> rd64 0 a;
     owner \<leftarrow> (if proto_minor c \<ge> 7 then rd64 16 a else Some 0);
     Some (req, call_or_nosys ops Op_flush
       (Invoke (DataCall (CFlush nid (zero_fi\<lparr>fi_fh := fh, fi_flush := True, fi_lock_owner := owner\<rparr>))))) }"

definition FUSE_RELEASE_FLUSH :: u32 where "FUSE_RELEASE_FLUSH = 1"
definition FUSE_RELEASE_FLOCK_UNLOCK :: u32 where "FUSE_RELEASE_FLOCK_UNLOCK = 2"

definition ll_do_release :: ll_decoder where
  "ll_do_release c ops req nid a = do {
     fh \<leftarrow> rd64 0 a;
     flags \<leftarrow> rd32 8 a;
     rflags \<leftarrow> rd32 12 a;
     let fi = zero_fi\<lparr>fi_flags := flags, fi_fh := fh\<rparr>;
     fi1 \<leftarrow> (if proto_minor c \<ge> 8 then do {
               owner \<leftarrow> rd64 16 a;
               Some (fi\<lparr>fi_flush := flag_set rflags FUSE_RELEASE_FLUSH, fi_lock_owner := owner\<rparr>) }
             else Some fi);
     fi2 \<leftarrow> (if flag_set rflags FUSE_RELEASE_FLOCK_UNLOCK then do {
               owner \<leftarrow> rd64 16 a;
               Some (fi1\<lparr>fi_flock_release := True, fi_lock_owner := owner\<rparr>) }
             else Some fi1);
     Some (req, call_or ops Op_release (Invoke (DataCall (CRelease nid fi2))) (ReplyErr 0)) }"

definition ll_do_fsync :: ll_decoder where
  "ll_do_fsync c ops req nid a = do {
     fh \<leftarrow> rd64 0 a;
     flags \<leftarrow> rd32 8 a;
     Some (req, call_or_nosys ops Op_fsync (Invoke (DataCall (CFsync nid (flag_set flags 1) (zero_fi\<lparr>fi_fh := fh\<rparr>))))) }"

definition ll_do_fallocate :: ll_decoder where
  "ll_do_fallocate c ops req nid a = do {
     fh \<leftarrow> rd64 0 a;
     off \<leftarrow> rd64 8 a;
     len \<leftarrow> rd64 16 a;
     mode \<leftarrow> rd32 24 a;
     Some (req, call_or_nosys ops Op_fallocate
       (Invoke (DataCall (CFallocate nid mode (sint off) (sint len) (zero_fi\<lparr>fi_fh := fh\<rparr>))))) }"

definition ll_do_lseek :: ll_decoder where
  "ll_do_lseek c ops req nid a = do {
     fh \<leftarrow> rd64 0 a;
     off \<leftarrow> rd64 8 a;
     whence \<leftarrow> rd32 16 a;
     Some (req, call_or_nosys ops Op_lseek (Invoke (DataCall (CLseek nid (sint off) whence (zero_fi\<lparr>fi_fh := fh\<rparr>))))) }"

definition copy_file_range_common ::
  "ll_ops \<Rightarrow> request \<Rightarrow> fuse_ino \<Rightarrow> byte list \<Rightarrow> (u64 \<Rightarrow> u64) \<Rightarrow> (request \<times> ll_action) option" where
  "copy_file_range_common ops req nid a limit = do {
     fh_in \<leftarrow> rd64 0 a;
     off_in \<leftarrow> rd64 8 a;
     nodeid_out \<leftarrow> rd64 16 a;
     fh_out \<leftarrow> rd64 24 a;
     off_out \<leftarrow> rd64 32 a;
     len \<leftarrow> rd64 40 a;
     flags \<leftarrow> rd64 48 a;
     Some (req, call_or_nosys ops Op_copy_file_range
       (Invoke (DataCall (CCopyFileRange nid (sint off_in) (zero_fi\<lparr>fi_fh := fh_in\<rparr>) nodeid_out (sint off_out)
          (zero_fi\<lparr>fi_fh := fh_out\<rparr>) (unat (limit len)) (ucast flags))))) }"

definition ll_do_copy_file_range :: ll_decoder where
  "ll_do_copy_file_range c ops req nid a =
     copy_file_range_common ops req nid a (\<lambda>len. if len > 0xfffff000 then 0xfffff000 else len)"

definition ll_do_copy_file_range_64 :: ll_decoder where
  "ll_do_copy_file_range_64 c ops req nid a = copy_file_range_common ops req nid a (\<lambda>len. len)"

section \<open>Directories\<close>

definition ll_do_opendir :: ll_decoder where
  "ll_do_opendir c ops req nid a = do {
     flags \<leftarrow> rd32 0 a;
     let fi = zero_fi\<lparr>fi_flags := flags\<rparr>;
     Some (req, if Op_opendir \<in> set ops then Invoke (DirCall (COpendir nid fi))
                else if want_ext c AND FUSE_CAP_NO_OPENDIR_SUPPORT \<noteq> 0 then Answer (ReplyErr ENOSYS)
                else Answer (ReplyOpen fi)) }"

definition ll_do_readdir :: ll_decoder where
  "ll_do_readdir c ops req nid a = do {
     fh \<leftarrow> rd64 0 a;
     off \<leftarrow> rd64 8 a;
     sz \<leftarrow> rd32 16 a;
     Some (req, call_or_nosys ops Op_readdir (Invoke (DirCall (CReaddir nid (unat sz) (sint off) (zero_fi\<lparr>fi_fh := fh\<rparr>))))) }"

definition ll_do_readdirplus :: ll_decoder where
  "ll_do_readdirplus c ops req nid a = do {
     fh \<leftarrow> rd64 0 a;
     off \<leftarrow> rd64 8 a;
     sz \<leftarrow> rd32 16 a;
     Some (req, call_or_nosys ops Op_readdirplus
       (Invoke (DirCall (CReaddirplus nid (unat sz) (sint off) (zero_fi\<lparr>fi_fh := fh\<rparr>))))) }"

definition ll_do_releasedir :: ll_decoder where
  "ll_do_releasedir c ops req nid a = do {
     fh \<leftarrow> rd64 0 a;
     flags \<leftarrow> rd32 8 a;
     Some (req, call_or ops Op_releasedir
       (Invoke (DirCall (CReleasedir nid (zero_fi\<lparr>fi_flags := flags, fi_fh := fh\<rparr>)))) (ReplyErr 0)) }"

definition ll_do_fsyncdir :: ll_decoder where
  "ll_do_fsyncdir c ops req nid a = do {
     fh \<leftarrow> rd64 0 a;
     flags \<leftarrow> rd32 8 a;
     Some (req, call_or_nosys ops Op_fsyncdir (Invoke (DirCall (CFsyncdir nid (flag_set flags 1) (zero_fi\<lparr>fi_fh := fh\<rparr>))))) }"

section \<open>Locks and the rest\<close>

definition lock_type_of :: "u32 \<Rightarrow> lock_type option" where
  "lock_type_of t = (if t = 0 then Some F_RDLCK else if t = 1 then Some F_WRLCK else if t = 2 then Some F_UNLCK else None)"

definition convert_fuse_file_lock :: "nat \<Rightarrow> byte list \<Rightarrow> flock option" where
  "convert_fuse_file_lock off a = do {
     start \<leftarrow> rd64 off a;
     stop \<leftarrow> rd64 (off + 8) a;
     t \<leftarrow> rd32 (off + 16) a;
     pid \<leftarrow> rd32 (off + 20) a;
     typ \<leftarrow> lock_type_of t;
     Some \<lparr>l_type = typ, l_whence = 0, l_start = sint start,
           l_len = (if stop = 0x7fffffffffffffff then 0 else sint (stop - start + 1)), l_pid = sint pid\<rparr> }"

definition lk_fi :: "byte list \<Rightarrow> fuse_file_info option" where
  "lk_fi a = do { fh \<leftarrow> rd64 0 a; owner \<leftarrow> rd64 8 a; Some (zero_fi\<lparr>fi_fh := fh, fi_lock_owner := owner\<rparr>) }"

definition ll_do_getlk :: ll_decoder where
  "ll_do_getlk c ops req nid a = do {
     fi \<leftarrow> lk_fi a;
     fl \<leftarrow> convert_fuse_file_lock 16 a;
     Some (req, call_or_nosys ops Op_getlk (Invoke (MiscCall (CGetlk nid fi fl)))) }"

definition FUSE_LK_FLOCK :: u32 where "FUSE_LK_FLOCK = 1"

definition flock_op :: "u32 \<Rightarrow> bool \<Rightarrow> u32" where
  "flock_op t sleep =
     (let lop = (if t = 0 then 1 else if t = 1 then 2 else if t = 2 then 8 else 0)
      in if sleep then lop else lop OR 4)"

definition do_setlk_common :: "ll_ops \<Rightarrow> request \<Rightarrow> fuse_ino \<Rightarrow> byte list \<Rightarrow> bool \<Rightarrow> (request \<times> ll_action) option" where
  "do_setlk_common ops req nid a sleep = do {
     fi \<leftarrow> lk_fi a;
     lk_flags \<leftarrow> rd32 40 a;
     if flag_set lk_flags FUSE_LK_FLOCK then do {
       t \<leftarrow> rd32 32 a;
       Some (req, call_or_nosys ops Op_flock (Invoke (MiscCall (CFlock nid fi (flock_op t sleep))))) }
     else do {
       fl \<leftarrow> convert_fuse_file_lock 16 a;
       Some (req, call_or_nosys ops Op_setlk (Invoke (MiscCall (CSetlk nid fi fl sleep)))) } }"

definition ll_do_setlk :: ll_decoder where
  "ll_do_setlk c ops req nid a = do_setlk_common ops req nid a False"

definition ll_do_setlkw :: ll_decoder where
  "ll_do_setlkw c ops req nid a = do_setlk_common ops req nid a True"

definition ll_do_bmap :: ll_decoder where
  "ll_do_bmap c ops req nid a = do {
     block \<leftarrow> rd64 0 a;
     blocksize \<leftarrow> rd32 8 a;
     Some (req, call_or_nosys ops Op_bmap (Invoke (MiscCall (CBmap nid (unat blocksize) block)))) }"

definition ll_do_ioctl :: ll_decoder where
  "ll_do_ioctl c ops req nid a = do {
     fh \<leftarrow> rd64 0 a;
     flags \<leftarrow> rd32 8 a;
     cmd \<leftarrow> rd32 12 a;
     arg \<leftarrow> rd64 16 a;
     in_size \<leftarrow> rd32 24 a;
     out_size \<leftarrow> rd32 28 a;
     in_buf \<leftarrow> (if in_size \<noteq> 0 then rd 32 (unat in_size) a else Some []);
     if flag_set flags FUSE_IOCTL_DIR \<and> want_ext c AND FUSE_CAP_IOCTL_DIR = 0 then Some (req, Answer (ReplyErr ENOTTY))
     else Some (req, call_or_nosys ops Op_ioctl
            (Invoke (MiscCall (CIoctl nid cmd arg (zero_fi\<lparr>fi_fh := fh\<rparr>) flags in_buf (unat out_size))))) }"

definition FUSE_POLL_SCHEDULE_NOTIFY :: u32 where "FUSE_POLL_SCHEDULE_NOTIFY = 1"

text \<open>The flag \<open>mem\<close> says whether \<open>malloc\<close> finds memory for the poll handle.\<close>

definition ll_do_poll :: "bool \<Rightarrow> ll_decoder" where
  "ll_do_poll mem c ops req nid a = do {
     fh \<leftarrow> rd64 0 a;
     kh \<leftarrow> rd64 8 a;
     flags \<leftarrow> rd32 16 a;
     events \<leftarrow> rd32 20 a;
     let fi = zero_fi\<lparr>fi_fh := fh, fi_poll_events := events\<rparr>;
     Some (req,
       if Op_poll \<in> set ops then
         (if flag_set flags FUSE_POLL_SCHEDULE_NOTIFY
          then (if mem then Invoke (MiscCall (CPoll nid fi (Some (unat kh)))) else Answer (ReplyErr ENOMEM))
          else Invoke (MiscCall (CPoll nid fi None)))
       else Answer (ReplyErr ENOSYS)) }"

end
