(* ===== verification/Ll_Session.thy ===== *)
theory Ll_Session
  imports Ll_Decode
begin

text \<open>
  The session of \<open>lib/fuse_lowlevel.c\<close>: the live requests and the interrupts waiting for
  their request, the replies as bytes, and notifications.

  \<open>se->list\<close> and \<open>se->interrupts\<close>, circular doubly linked lists in C, are lists; a request is
  found by its \<open>unique\<close> number. Messages to the kernel are appended to \<open>se_sent\<close>; the result
  of \<open>writev\<close> is the parameter \<open>wr\<close>. The build has \<open>splice\<close> and no io-uring requests.
\<close>

section \<open>State\<close>

record ll_req =
  rq_unique :: u64
  rq_interrupted :: bool
  rq_func :: "nat option"
  rq_target :: u64

record ll_msg =
  m_unique :: u64
  m_error :: int
  m_payload :: "byte list"

record ll_session =
  se_conn :: fuse_conn_info
  se_ops :: ll_ops
  se_got_init :: bool
  se_got_destroy :: bool
  se_mountpoint :: bool
  se_deny_others :: bool
  se_owner :: u32
  se_cuse :: bool
  se_list :: "ll_req list"
  se_interrupts :: "ll_req list"
  se_notify_ctr :: u64
  se_notify_list :: "u64 list"
  se_bufsize :: u64
  se_buf_reallocable :: bool
  se_error :: int
  se_exited :: bool
  se_conn_want :: u32
  se_conn_want_ext :: u64
  se_max_read_mo :: u32
  se_uring_enable :: bool
  se_splice_send :: bool
  se_splice_receive :: bool
  se_pagesize :: u64
  se_sent :: "ll_msg list"
  se_funcs_called :: "nat list"

definition EACCES :: int where "EACCES = 13"
definition ERANGE :: int where "ERANGE = 34"
definition EPROTO :: int where "EPROTO = 71"
definition ENOTCONN :: int where "ENOTCONN = 107"

definition new_req :: "u64 \<Rightarrow> ll_req" where
  "new_req u = \<lparr>rq_unique = u, rq_interrupted = False, rq_func = None, rq_target = 0\<rparr>"

text \<open>The bytes of a message: the output header (length, error, unique) and the payload.\<close>

definition msg_bytes :: "ll_msg \<Rightarrow> byte list" where
  "msg_bytes m = le_bytes 4 (16 + length (m_payload m)) @ le32 (word_of_int (m_error m)) @ le64 (m_unique m) @ m_payload m"

definition fuse_send_msg :: "ll_msg \<Rightarrow> ll_session \<Rightarrow> ll_session" where
  "fuse_send_msg m se = se\<lparr>se_sent := se_sent se @ [m]\<rparr>"

section \<open>Live requests\<close>

definition list_add_req :: "ll_req \<Rightarrow> ll_session \<Rightarrow> ll_session" where
  "list_add_req r se = se\<lparr>se_list := se_list se @ [r]\<rparr>"

definition drop_req :: "u64 \<Rightarrow> ll_req list \<Rightarrow> ll_req list" where
  "drop_req u rs = filter (\<lambda>r. rq_unique r \<noteq> u) rs"

definition fuse_free_req :: "u64 \<Rightarrow> ll_session \<Rightarrow> ll_session" where
  "fuse_free_req u se =
     (if no_interrupt (se_conn se) then se else se\<lparr>se_list := drop_req u (se_list se)\<rparr>)"

text \<open>
  \<open>strerrordesc\<close> knows the valid error numbers: the parameter \<open>known\<close>, on positive numbers.
\<close>

definition checked_error :: "(int \<Rightarrow> bool) \<Rightarrow> int \<Rightarrow> int" where
  "checked_error known err = (if \<not> known (- err) \<and> err \<noteq> 0 \<or> err > 0 then - ERANGE else err)"

definition send_reply_iov_nofree :: "(int \<Rightarrow> bool) \<Rightarrow> u64 \<Rightarrow> int \<Rightarrow> byte list \<Rightarrow> ll_session \<Rightarrow> ll_session" where
  "send_reply_iov_nofree known u err payload se =
     fuse_send_msg \<lparr>m_unique = u, m_error = checked_error known err, m_payload = payload\<rparr> se"

definition send_reply :: "(int \<Rightarrow> bool) \<Rightarrow> u64 \<Rightarrow> int \<Rightarrow> byte list \<Rightarrow> ll_session \<Rightarrow> ll_session" where
  "send_reply known u err payload se = fuse_free_req u (send_reply_iov_nofree known u err payload se)"

definition fuse_reply_err :: "(int \<Rightarrow> bool) \<Rightarrow> u64 \<Rightarrow> int \<Rightarrow> ll_session \<Rightarrow> ll_session" where
  "fuse_reply_err known u err se = send_reply known u (- err) [] se"

section \<open>Replies as bytes\<close>

definition set_bit32 :: "bool \<Rightarrow> u32 \<Rightarrow> u32 \<Rightarrow> u32" where
  "set_bit32 b m w = (if b then w OR m else w)"

definition fill_open :: "fuse_file_info \<Rightarrow> byte list" where
  "fill_open f =
     (let flags = set_bit32 (fi_parallel_direct_writes f) 64 (set_bit32 (fi_noflush f) 32
                    (set_bit32 (fi_nonseekable f) 4 (set_bit32 (fi_cache_readdir f) 8
                    (set_bit32 (fi_keep_cache f) 2 (set_bit32 (fi_direct_io f) 1
                    (set_bit32 (fi_backing_id f > 0) 128 0))))))
      in le64 (fi_fh f) @ le32 flags @ le32 (if fi_backing_id f > 0 then word_of_int (fi_backing_id f) else 0))"

definition convert_statfs :: "statvfs \<Rightarrow> byte list" where
  "convert_statfs st =
     le64 (f_blocks st) @ le64 (f_bfree st) @ le64 (f_bavail st) @ le64 (f_files st) @ le64 (f_ffree st) @
     le32 (ucast (f_bsize st)) @ le32 (ucast (f_namemax st)) @ le32 (ucast (f_frsize st)) @ le_bytes 28 0"

fun lock_type_code :: "lock_type \<Rightarrow> nat" where
  "lock_type_code F_RDLCK = 0"
| "lock_type_code F_WRLCK = 1"
| "lock_type_code F_UNLCK = 2"

text \<open>\<open>fuse_reply_lock\<close>: an unlock has no range.\<close>

definition lock_bytes :: "flock \<Rightarrow> byte list" where
  "lock_bytes fl =
     (let (start, stop) = (if l_type fl \<noteq> F_UNLCK
                           then (l_start fl, if l_len fl = 0 then 0x7fffffffffffffff else l_start fl + l_len fl - 1)
                           else (0, 0))
      in le64 (word_of_int start) @ le64 (word_of_int stop) @
         le_bytes 4 (lock_type_code (l_type fl)) @ le32 (word_of_int (l_pid fl)))"

text \<open>
  The structures of the other replies; before protocol 7.4 and 7.9 shorter ones. \<open>copy64\<close> is the
  flag of a 64-bit copy request.
\<close>

definition entry_out :: "fuse_conn_info \<Rightarrow> fuse_entry_param \<Rightarrow> byte list" where
  "entry_out c e = take (if proto_minor c < 9 then 120 else 128) (fill_entry e)"

definition reply_entry_payload :: "fuse_conn_info \<Rightarrow> fuse_entry_param \<Rightarrow> int \<times> byte list" where
  "reply_entry_payload c e =
     (if e_ino e = 0 \<and> proto_minor c < 4 then (- ENOENT, []) else (0, entry_out c e))"

definition attr_out :: "fuse_conn_info \<Rightarrow> stat \<Rightarrow> int \<Rightarrow> byte list" where
  "attr_out c st t =
     take (if proto_minor c < 9 then 96 else 104)
       (le64 (calc_timeout_sec t) @ le32 (calc_timeout_nsec t) @ le32 0 @ convert_stat st)"

definition write_out :: "bool \<Rightarrow> int \<Rightarrow> byte list" where
  "write_out copy64 n = (if copy64 then le64 (word_of_int n) else le32 (word_of_int n) @ le32 0)"

definition statfs_out :: "fuse_conn_info \<Rightarrow> statvfs \<Rightarrow> byte list" where
  "statfs_out c st = take (if proto_minor c < 4 then 48 else 80) (convert_statfs st)"

definition getxattr_out :: "int \<Rightarrow> byte list" where
  "getxattr_out n = le32 (word_of_int n) @ le32 0"

definition ioctl_out :: "int \<Rightarrow> byte list \<Rightarrow> byte list" where
  "ioctl_out res bs = le32 (word_of_int res) @ le32 0 @ le32 0 @ le32 0 @ bs"

definition statx_out :: "int \<Rightarrow> byte list \<Rightarrow> byte list" where
  "statx_out t stx = le64 (calc_timeout_sec t) @ le32 (calc_timeout_nsec t) @ le32 0 @ le_bytes 16 0 @ stx"

definition poll_out :: "u32 \<Rightarrow> byte list" where
  "poll_out evs = le32 evs @ le32 0"

definition lseek_out :: "int \<Rightarrow> byte list" where
  "lseek_out off = le64 (word_of_int off)"

text \<open>
  What a reply function sends: error and payload; \<open>None\<close> for \<open>fuse_reply_none\<close>.
  \<open>fuse_reply_data\<close> and \<open>fuse_reply_statx\<close> take the bytes from the parameters \<open>data\<close> and \<open>statxb\<close>
  (a buffer vector may name file descriptors, and the structure \<open>statx\<close> of the C library is
  larger than the part the library fills).
\<close>

definition reply_payload ::
  "(fuse_bufvec \<Rightarrow> byte list) \<Rightarrow> (statx \<Rightarrow> byte list) \<Rightarrow> fuse_conn_info \<Rightarrow> bool \<Rightarrow> reply \<Rightarrow> (int \<times> byte list) option" where
  "reply_payload data statxb c copy64 r =
     (case r of
        ReplyErr err \<Rightarrow> Some (- err, [])
      | ReplyNone \<Rightarrow> None
      | ReplyEntry e \<Rightarrow> Some (reply_entry_payload c e)
      | ReplyCreate e fi \<Rightarrow> Some (0, entry_out c e @ fill_open fi)
      | ReplyAttr st t \<Rightarrow> Some (0, attr_out c st t)
      | ReplyStatx stx t \<Rightarrow> Some (0, statx_out t (statxb stx))
      | ReplyReadlink s \<Rightarrow> Some (0, of_chars s)
      | ReplyOpen fi \<Rightarrow> Some (0, fill_open fi)
      | ReplyWrite n \<Rightarrow> Some (0, write_out copy64 n)
      | ReplyBuf bs \<Rightarrow> Some (0, bs)
      | ReplyData v \<Rightarrow> Some (0, data v)
      | ReplyStatfs st \<Rightarrow> Some (0, statfs_out c st)
      | ReplyXattr n \<Rightarrow> Some (0, getxattr_out n)
      | ReplyLock fl \<Rightarrow> Some (0, lock_bytes fl)
      | ReplyBmap idx \<Rightarrow> Some (0, le64 idx)
      | ReplyIoctl res bs \<Rightarrow> Some (0, ioctl_out res bs)
      | ReplyPoll evs \<Rightarrow> Some (0, poll_out evs)
      | ReplyLseek off \<Rightarrow> Some (0, lseek_out off))"

definition send_answer ::
  "(int \<Rightarrow> bool) \<Rightarrow> (fuse_bufvec \<Rightarrow> byte list) \<Rightarrow> (statx \<Rightarrow> byte list) \<Rightarrow> u64 \<Rightarrow> bool \<Rightarrow> reply \<Rightarrow> ll_session \<Rightarrow> ll_session" where
  "send_answer known data statxb u copy64 r se =
     (case reply_payload data statxb (se_conn se) copy64 r of
        None \<Rightarrow> fuse_free_req u se
      | Some (err, payload) \<Rightarrow> send_reply known u err payload se)"

section \<open>Interrupts\<close>

text \<open>
  An INTERRUPT names its target by \<open>rq_target\<close>. A live target is marked, and its interrupt
  function runs; otherwise the interrupt waits in \<open>se_interrupts\<close>, once per target.
\<close>

definition mark_interrupted :: "u64 \<Rightarrow> ll_req list \<Rightarrow> ll_req list" where
  "mark_interrupted u rs = map (\<lambda>r. if rq_unique r = u then r\<lparr>rq_interrupted := True\<rparr> else r) rs"

definition find_interrupted :: "ll_session \<Rightarrow> u64 \<Rightarrow> bool \<times> ll_session" where
  "find_interrupted se target =
     (case find (\<lambda>r. rq_unique r = target) (se_list se) of
        Some r \<Rightarrow> (True, se\<lparr>se_list := mark_interrupted target (se_list se),
                           se_funcs_called := se_funcs_called se @ (case rq_func r of Some g \<Rightarrow> [g] | None \<Rightarrow> [])\<rparr>)
      | None \<Rightarrow> (list_ex (\<lambda>i. rq_target i = target) (se_interrupts se), se))"

definition do_interrupt :: "u64 \<Rightarrow> u64 \<Rightarrow> ll_session \<Rightarrow> ll_session" where
  "do_interrupt u target se =
     (case find_interrupted se target of
        (True, se1) \<Rightarrow> se1
      | (False, se1) \<Rightarrow> se1\<lparr>se_interrupts := se_interrupts se1 @ [(new_req u)\<lparr>rq_target := target\<rparr>]\<rparr>)"

text \<open>
  A new request takes the interrupt waiting for it; otherwise the oldest waiting interrupt is
  handed back, to be answered with EAGAIN so that the kernel sends it again.
\<close>

fun take_interrupt :: "u64 \<Rightarrow> ll_req list \<Rightarrow> ll_req list option" where
  "take_interrupt u [] = None"
| "take_interrupt u (i # is) = (if rq_target i = u then Some is else map_option ((#) i) (take_interrupt u is))"

definition check_interrupt :: "ll_session \<Rightarrow> ll_req \<Rightarrow> (ll_req option \<times> ll_req) \<times> ll_session" where
  "check_interrupt se r =
     (case take_interrupt (rq_unique r) (se_interrupts se) of
        Some is \<Rightarrow> ((None, r\<lparr>rq_interrupted := True\<rparr>), se\<lparr>se_interrupts := is\<rparr>)
      | None \<Rightarrow> (case se_interrupts se of
                   [] \<Rightarrow> ((None, r), se)
                 | i # is \<Rightarrow> ((Some i, r), se\<lparr>se_interrupts := is\<rparr>)))"

definition req_interrupt_func :: "u64 \<Rightarrow> nat option \<Rightarrow> ll_session \<Rightarrow> ll_session" where
  "req_interrupt_func u func se =
     (let hit = list_ex (\<lambda>r. rq_unique r = u \<and> rq_interrupted r) (se_list se)
      in se\<lparr>se_list := map (\<lambda>r. if rq_unique r = u then r\<lparr>rq_func := func\<rparr> else r) (se_list se),
            se_funcs_called := se_funcs_called se @ (case func of Some g \<Rightarrow> if hit then [g] else [] | None \<Rightarrow> [])\<rparr>)"

definition req_interrupted :: "u64 \<Rightarrow> ll_session \<Rightarrow> bool" where
  "req_interrupted u se = list_ex (\<lambda>r. rq_unique r = u \<and> rq_interrupted r) (se_list se)"

text \<open>The registration of a request in \<open>fuse_session_process_buf_internal\<close>.\<close>

definition admit :: "(int \<Rightarrow> bool) \<Rightarrow> u64 \<Rightarrow> ll_session \<Rightarrow> ll_session" where
  "admit known u se =
     (case check_interrupt se (new_req u) of
        ((again, r), se1) \<Rightarrow>
          (let se2 = list_add_req r se1
           in case again of None \<Rightarrow> se2 | Some i \<Rightarrow> fuse_reply_err known (rq_unique i) EAGAIN se2))"

section \<open>Notifications\<close>

definition send_notify_iov :: "int \<Rightarrow> int \<Rightarrow> byte list \<Rightarrow> ll_session \<Rightarrow> int \<times> ll_session" where
  "send_notify_iov wr code payload se =
     (if \<not> se_got_init se then (- ENOTCONN, se)
      else (wr, fuse_send_msg \<lparr>m_unique = 0, m_error = code, m_payload = payload\<rparr> se))"

definition notify_poll :: "int \<Rightarrow> u64 option \<Rightarrow> ll_session \<Rightarrow> int \<times> ll_session" where
  "notify_poll wr ph se = (case ph of None \<Rightarrow> (0, se) | Some kh \<Rightarrow> send_notify_iov wr 1 (le64 kh) se)"

definition notify_inval_inode :: "int \<Rightarrow> fuse_ino \<Rightarrow> int \<Rightarrow> int \<Rightarrow> ll_session \<Rightarrow> int \<times> ll_session" where
  "notify_inval_inode wr ino off len se =
     (if proto_minor (se_conn se) < 12 then (- ENOSYS, se)
      else send_notify_iov wr 2 (le64 ino @ le64 (word_of_int off) @ le64 (word_of_int len)) se)"

definition notify_increment_epoch :: "int \<Rightarrow> ll_session \<Rightarrow> int \<times> ll_session" where
  "notify_increment_epoch wr se =
     (if proto_minor (se_conn se) < 44 then (- ENOSYS, se) else send_notify_iov wr 8 [] se)"

definition notify_entry :: "int \<Rightarrow> fuse_ino \<Rightarrow> string \<Rightarrow> bool \<Rightarrow> ll_session \<Rightarrow> int \<times> ll_session" where
  "notify_entry wr parnt name expire se =
     (if proto_minor (se_conn se) < 12 then (- ENOSYS, se)
      else send_notify_iov wr 3 (le64 parnt @ le_bytes 4 (length name) @ le_bytes 4 (if expire then 1 else 0) @
                                 of_chars name @ [0]) se)"

definition notify_inval_entry :: "int \<Rightarrow> fuse_ino \<Rightarrow> string \<Rightarrow> ll_session \<Rightarrow> int \<times> ll_session" where
  "notify_inval_entry wr parnt name se = notify_entry wr parnt name False se"

definition FUSE_CAP_EXPIRE_ONLY :: u64 where "FUSE_CAP_EXPIRE_ONLY = 2 ^ 26"

definition notify_expire_entry :: "int \<Rightarrow> fuse_ino \<Rightarrow> string \<Rightarrow> ll_session \<Rightarrow> int \<times> ll_session" where
  "notify_expire_entry wr parnt name se =
     (if capable_ext (se_conn se) AND FUSE_CAP_EXPIRE_ONLY = 0 then (- ENOSYS, se)
      else notify_entry wr parnt name True se)"

definition notify_delete :: "int \<Rightarrow> fuse_ino \<Rightarrow> fuse_ino \<Rightarrow> string \<Rightarrow> ll_session \<Rightarrow> int \<times> ll_session" where
  "notify_delete wr parnt chld name se =
     (if proto_minor (se_conn se) < 18 then (- ENOSYS, se)
      else send_notify_iov wr 6 (le64 parnt @ le64 chld @ le_bytes 4 (length name) @ le_bytes 4 0 @ of_chars name @ [0]) se)"

text \<open>\<open>fuse_lowlevel_notify_retrieve\<close>; \<open>mem\<close>: there is memory for the record.\<close>

definition notify_retrieve :: "int \<Rightarrow> bool \<Rightarrow> fuse_ino \<Rightarrow> nat \<Rightarrow> int \<Rightarrow> ll_session \<Rightarrow> int \<times> ll_session" where
  "notify_retrieve wr mem ino sz off se =
     (if proto_minor (se_conn se) < 15 then (- ENOSYS, se)
      else if \<not> mem then (- ENOMEM, se)
      else let u = se_notify_ctr se;
               se1 = se\<lparr>se_notify_ctr := u + 1, se_notify_list := se_notify_list se @ [u]\<rparr>
           in case send_notify_iov wr 5 (le64 u @ le64 ino @ le64 (word_of_int off) @ le_bytes 4 sz @ le_bytes 4 0) se1 of
                (err, se2) \<Rightarrow> (err, if err \<noteq> 0 then se2\<lparr>se_notify_list := remove1 u (se_notify_list se2)\<rparr> else se2))"

text \<open>A reply the library did not ask for is dropped, and its request is never freed.\<close>

definition do_notify_reply :: "u64 \<Rightarrow> ll_session \<Rightarrow> bool \<times> ll_session" where
  "do_notify_reply u se =
     (if u \<in> set (se_notify_list se) then (True, se\<lparr>se_notify_list := remove1 u (se_notify_list se)\<rparr>) else (False, se))"

end
