(* ===== verification/Ll_Process.thy ===== *)
theory Ll_Process
  imports Ll_Session
begin

text \<open>
  The connection set-up and the intake of requests, \<open>_do_init\<close>, \<open>_do_destroy\<close> and
  \<open>fuse_session_process_buf_internal\<close> of \<open>lib/fuse_lowlevel.c\<close>.
\<close>

section \<open>Capabilities\<close>

text \<open>
  The kernel's INIT flag and the capability bit it announces, by bit number, in the order of
  the tests in \<open>_do_init\<close>.
\<close>

definition capable_table :: "(string \<times> nat \<times> nat) list" where
  "capable_table =
     [(''ASYNC_READ'', 0, 0), (''POSIX_LOCKS'', 1, 1), (''ATOMIC_O_TRUNC'', 3, 3), (''EXPORT_SUPPORT'', 4, 4),
      (''DONT_MASK'', 6, 6), (''FLOCK_LOCKS'', 10, 10), (''AUTO_INVAL_DATA'', 12, 12), (''READDIRPLUS'', 13, 13),
      (''READDIRPLUS_AUTO'', 14, 14), (''ASYNC_DIO'', 15, 15), (''WRITEBACK_CACHE'', 16, 16),
      (''NO_OPEN_SUPPORT'', 17, 17), (''PARALLEL_DIROPS'', 18, 18), (''POSIX_ACL'', 20, 19),
      (''HANDLE_KILLPRIV'', 19, 20), (''HANDLE_KILLPRIV_V2'', 28, 21), (''CACHE_SYMLINKS'', 23, 23),
      (''NO_OPENDIR_SUPPORT'', 24, 24), (''EXPLICIT_INVAL_DATA'', 25, 25), (''SETXATTR_EXT'', 29, 27),
      (''DIRECT_IO_ALLOW_MMAP'', 36, 28), (''PASSTHROUGH'', 37, 29), (''NO_EXPORT_SUPPORT'', 38, 30),
      (''OVER_IO_URING'', 41, 31)]"

text \<open>The flags of the answer: the same pairs without NO\_OPEN\_SUPPORT, NO\_OPENDIR\_SUPPORT and OVER\_IO\_URING.\<close>

definition wanted_table :: "(string \<times> nat \<times> nat) list" where
  "wanted_table =
     [(''ASYNC_READ'', 0, 0), (''POSIX_LOCKS'', 1, 1), (''ATOMIC_O_TRUNC'', 3, 3), (''EXPORT_SUPPORT'', 4, 4),
      (''DONT_MASK'', 6, 6), (''FLOCK_LOCKS'', 10, 10), (''AUTO_INVAL_DATA'', 12, 12), (''READDIRPLUS'', 13, 13),
      (''READDIRPLUS_AUTO'', 14, 14), (''ASYNC_DIO'', 15, 15), (''WRITEBACK_CACHE'', 16, 16),
      (''PARALLEL_DIROPS'', 18, 18), (''POSIX_ACL'', 20, 19),
      (''HANDLE_KILLPRIV'', 19, 20), (''HANDLE_KILLPRIV_V2'', 28, 21), (''CACHE_SYMLINKS'', 23, 23),
      (''EXPLICIT_INVAL_DATA'', 25, 25), (''SETXATTR_EXT'', 29, 27),
      (''DIRECT_IO_ALLOW_MMAP'', 36, 28), (''PASSTHROUGH'', 37, 29), (''NO_EXPORT_SUPPORT'', 38, 30)]"

definition set_if :: "bool \<Rightarrow> nat \<Rightarrow> u64 \<Rightarrow> u64" where
  "set_if b n w = (if b then set_bit n w else w)"

definition init_capable :: "u32 \<Rightarrow> u64 \<Rightarrow> bool \<Rightarrow> bool \<Rightarrow> u64" where
  "init_capable minor inflags snd_ok rcv_ok =
     (let c1 = (if minor \<ge> 6
                then set_if (minor \<ge> 38 \<or> bit inflags 35) 26
                       (fold (\<lambda>(_, f, c). set_if (bit inflags f) c) capable_table 0)
                else 0);
          c2 = (if minor \<ge> 14 then set_if rcv_ok 9 (set_if snd_ok 8 (set_if snd_ok 7 c1)) else c1)
      in set_if (minor \<ge> 18) 11 c2)"

definition want_flags_valid :: "u64 \<Rightarrow> u64 \<Rightarrow> bool" where
  "want_flags_valid capab wnt \<longleftrightarrow> wnt AND NOT capab = 0"

text \<open>
  \<open>fuse_set_feature_flag\<close> also records in the session what the library itself asked for.
\<close>

definition set_feature_flag :: "u64 \<Rightarrow> ll_session \<Rightarrow> bool \<times> ll_session" where
  "set_feature_flag flag se =
     (let c = se_conn se
      in if capable_ext c AND flag \<noteq> 0
         then (True, se\<lparr>se_conn := c\<lparr>want_ext := want_ext c OR flag, want := want c OR ucast flag\<rparr>,
                        se_conn_want_ext := se_conn_want_ext se OR flag,
                        se_conn_want := se_conn_want se OR ucast flag\<rparr>)
         else (False, se))"

definition unset_feature_flag :: "u64 \<Rightarrow> ll_session \<Rightarrow> ll_session" where
  "unset_feature_flag flag se =
     (let c = se_conn se
      in se\<lparr>se_conn := c\<lparr>want_ext := want_ext c AND NOT flag, want := want c AND NOT (ucast flag)\<rparr>,
            se_conn_want_ext := se_conn_want_ext se AND NOT flag,
            se_conn_want := se_conn_want se AND NOT (ucast flag)\<rparr>)"

definition get_feature_flag :: "u64 \<Rightarrow> ll_session \<Rightarrow> bool" where
  "get_feature_flag flag se \<longleftrightarrow> capable_ext (se_conn se) AND flag \<noteq> 0"

definition lower_32_bits :: "u64 \<Rightarrow> u32" where
  "lower_32_bits w = ucast (w AND 0xffffffff)"

definition higher_32_bits :: "u64 \<Rightarrow> u64" where
  "higher_32_bits w = w AND NOT 0xffffffff"

definition convert_to_conn_want_ext :: "ll_session \<Rightarrow> int \<times> ll_session" where
  "convert_to_conn_want_ext se =
     (let c = se_conn se;
          differs = (want c \<noteq> se_conn_want se \<and> lower_32_bits (want_ext c) \<noteq> want c)
      in if differs \<and> want_ext c \<noteq> se_conn_want_ext se then (- EINVAL, se)
         else let we = (if differs then higher_32_bits (want_ext c) OR ucast (want c) else want_ext c)
              in (0, se\<lparr>se_conn := c\<lparr>want_ext := we, want := lower_32_bits we\<rparr>\<rparr>))"

definition default_flags :: "ll_ops \<Rightarrow> nat list" where
  "default_flags ops =
     [0, 12, 15, 11, 3] @
     (if Op_write_buf \<in> set ops then [9] else []) @
     (if Op_getlk \<in> set ops \<and> Op_setlk \<in> set ops then [1] else []) @
     (if Op_flock \<in> set ops then [10] else []) @
     (if Op_readdirplus \<in> set ops then [13] else []) @
     (if Op_readdirplus \<in> set ops \<and> Op_readdir \<in> set ops then [14] else []) @
     [31]"

section \<open>INIT\<close>

record init_in =
  ii_major :: u32
  ii_minor :: u32
  ii_max_readahead :: u32
  ii_flags :: u32
  ii_flags2 :: u32

record init_out =
  io_major :: u32
  io_minor :: u32
  io_max_readahead :: u32
  io_flags :: u32
  io_max_background :: u16
  io_congestion_threshold :: u16
  io_max_write :: u32
  io_time_gran :: u32
  io_max_pages :: u16
  io_flags2 :: u32
  io_max_stack_depth :: u32
  io_request_timeout :: u16

definition new_init_out :: init_out where
  "new_init_out = \<lparr>io_major = 7, io_minor = 45, io_max_readahead = 0, io_flags = 0, io_max_background = 0,
     io_congestion_threshold = 0, io_max_write = 0, io_time_gran = 0, io_max_pages = 0, io_flags2 = 0,
     io_max_stack_depth = 0, io_request_timeout = 0\<rparr>"

definition init_out_bytes :: "init_out \<Rightarrow> byte list" where
  "init_out_bytes out =
     le32 (io_major out) @ le32 (io_minor out) @ le32 (io_max_readahead out) @ le32 (io_flags out) @
     le_bytes 2 (unat (io_max_background out)) @ le_bytes 2 (unat (io_congestion_threshold out)) @
     le32 (io_max_write out) @ le32 (io_time_gran out) @ le_bytes 2 (unat (io_max_pages out)) @ le_bytes 2 0 @
     le32 (io_flags2 out) @ le32 (io_max_stack_depth out) @ le_bytes 2 (unat (io_request_timeout out)) @ le_bytes 22 0"

text \<open>Older kernels send a shorter structure: a field is read only where the code uses it.\<close>

definition rd_init_in :: "byte list \<Rightarrow> init_in option" where
  "rd_init_in a = do {
     ma \<leftarrow> rd32 0 a;
     mi \<leftarrow> rd32 4 a;
     ra \<leftarrow> (if ma = 7 \<and> mi \<ge> 6 then rd32 8 a else Some 0);
     fl \<leftarrow> (if ma = 7 then rd32 12 a else Some 0);
     fl2 \<leftarrow> (if ma = 7 \<and> mi \<ge> 6 \<and> bit fl 30 then rd32 16 a else Some 0);
     Some \<lparr>ii_major = ma, ii_minor = mi, ii_max_readahead = ra, ii_flags = fl, ii_flags2 = fl2\<rparr> }"

definition init_inflags :: "init_in \<Rightarrow> u64" where
  "init_inflags arg =
     (if ii_minor arg \<ge> 6
      then (let fl = ucast (ii_flags arg) in if bit fl 30 then fl OR push_bit 32 (ucast (ii_flags2 arg)) else fl)
      else 0)"

text \<open>The part before the file system's \<open>init\<close>: versions, capabilities and default wishes.\<close>

definition init_offer :: "init_in \<Rightarrow> ll_session \<Rightarrow> ll_session" where
  "init_offer arg se =
     (let c = se_conn se;
          ra = (if ii_minor arg \<ge> 6 then min (ii_max_readahead arg) (max_readahead c) else 0);
          cap = init_capable (ii_minor arg) (init_inflags arg) (se_splice_send se) (se_splice_receive se);
          se1 = se\<lparr>se_conn := c\<lparr>max_readahead := ra, capable_ext := cap\<rparr>\<rparr>;
          se2 = fold (\<lambda>n s. snd (set_feature_flag (2 ^ n) s)) (default_flags (se_ops se)) se1
      in se2\<lparr>se_conn := (se_conn se2)\<lparr>time_gran := 1\<rparr>, se_got_init := True\<rparr>)"

text \<open>
  The file system's \<open>init\<close> is the parameter \<open>fsinit\<close>: it changes the connection and, through
  the feature-flag functions, the wishes recorded in the session.
\<close>

type_synonym fs_init = "fuse_conn_info \<times> u32 \<times> u64 \<Rightarrow> fuse_conn_info \<times> u32 \<times> u64"

definition init_call :: "fs_init \<Rightarrow> ll_session \<Rightarrow> ll_session" where
  "init_call fsinit se =
     (if Op_init \<in> set (se_ops se) then
        (case fsinit ((se_conn se)\<lparr>capable := lower_32_bits (capable_ext (se_conn se))\<rparr>, se_conn_want se, se_conn_want_ext se) of
           (c, w, we) \<Rightarrow> snd (convert_to_conn_want_ext (se\<lparr>se_conn := c, se_conn_want := w, se_conn_want_ext := we\<rparr>)))
      else se)"

definition fail_init :: "(int \<Rightarrow> bool) \<Rightarrow> u64 \<Rightarrow> ll_session \<Rightarrow> ll_session" where
  "fail_init known u se = (fuse_reply_err known u EPROTO se)\<lparr>se_error := - EPROTO, se_exited := True\<rparr>"

definition init_bufsize :: "u64 \<Rightarrow> ll_session \<Rightarrow> u64" where
  "init_bufsize inflags se =
     (let lim = 32 * se_pagesize se + 0x1000;
          reall = (se_buf_reallocable se \<and> (proto_minor (se_conn se) < 6 \<or> bit inflags 22));
          b0 = (if proto_minor (se_conn se) \<ge> 6 \<and> \<not> bit inflags 22 \<and> se_bufsize se > lim then lim else se_bufsize se);
          b1 = (if b0 < 8192 then 8192 else b0)
      in if reall then 0xffffffff else b1)"

definition init_limits :: "u64 \<Rightarrow> ll_session \<Rightarrow> ll_session" where
  "init_limits inflags se =
     (let c = se_conn se;
          mw = ucast (min (ucast (max_write c)) (init_bufsize inflags se - 0x1000) :: u64)
      in se\<lparr>se_conn := c\<lparr>max_write := mw\<rparr>, se_bufsize := ucast (mw + 0x1000)\<rparr>)"

definition init_background :: "fuse_conn_info \<Rightarrow> fuse_conn_info" where
  "init_background c =
     (if proto_minor c \<ge> 13
      then let mb = (if max_background c \<ge> 0x10000 then 0xffff else max_background c);
               ct = (if congestion_threshold c > mb then mb else congestion_threshold c)
           in c\<lparr>max_background := mb, congestion_threshold := (if ct = 0 then mb * 3 div 4 else ct)\<rparr>
      else c)"

definition init_outflags :: "init_in \<Rightarrow> u64 \<Rightarrow> ll_session \<Rightarrow> u64" where
  "init_outflags arg inflags se =
     (let c = se_conn se;
          o1 = set_if (bit (ii_flags arg) 22) 22 0;
          o2 = set_bit 5 o1;
          o3 = fold (\<lambda>(_, f, k). set_if (bit (want_ext c) k) f) wanted_table o2;
          o4 = set_if (se_uring_enable se \<and> bit (want_ext c) 31) 41 o3;
          o5 = set_if (bit inflags 42 \<and> request_timeout c \<noteq> 0) 42 o4
      in set_if (bit inflags 30) 30 o5)"

definition init_outarg :: "init_in \<Rightarrow> u64 \<Rightarrow> ll_session \<Rightarrow> init_out" where
  "init_outarg arg inflags se =
     (let c = se_conn se;
          fl = init_outflags arg inflags se;
          c1 = init_background c
      in \<lparr>io_major = 7, io_minor = 45, io_max_readahead = max_readahead c, io_flags = ucast fl,
          io_max_background = (if proto_minor c \<ge> 13 then ucast (max_background c1) else 0),
          io_congestion_threshold = (if proto_minor c \<ge> 13 then ucast (congestion_threshold c1) else 0),
          io_max_write = max_write c,
          io_time_gran = (if proto_minor c \<ge> 23 then time_gran c else 0),
          io_max_pages = (if bit (ii_flags arg) 22 then ucast ((max_write c - 1) div ucast (se_pagesize se) + 1) else 0),
          io_flags2 = (if bit inflags 30 then ucast (drop_bit 32 fl) else 0),
          io_max_stack_depth = (if bit (want_ext c) 29 then max_backing_stack_depth c + 1 else 0),
          io_request_timeout = (if bit inflags 42 \<and> request_timeout c \<noteq> 0 then request_timeout c else 0)\<rparr>)"

text \<open>
  When the ring does not start (\<open>ring_rc\<close> is not 0) the code clears the flag in a local
  variable after the answer is filled: the answer is the same.
\<close>

definition do_init :: "(int \<Rightarrow> bool) \<Rightarrow> fs_init \<Rightarrow> u64 \<Rightarrow> init_in \<Rightarrow> ll_session \<Rightarrow> ll_session" where
  "do_init known fsinit u arg se0 =
     (let se = se0\<lparr>se_conn := (se_conn se0)\<lparr>proto_major := ii_major arg, proto_minor := ii_minor arg,
                                            capable_ext := 0, want_ext := 0\<rparr>\<rparr>
      in if ii_major arg < 7 then fuse_reply_err known u EPROTO se
         else if ii_major arg > 7 then send_reply known u 0 (init_out_bytes new_init_out) se
         else let inflags = init_inflags arg;
                  se1 = init_call fsinit (init_offer arg se)
              in if \<not> want_flags_valid (capable_ext (se_conn se1)) (want_ext (se_conn se1)) then fail_init known u se1
                 else if max_read (se_conn se1) \<noteq> se_max_read_mo se1 then fail_init known u se1
                 else let se2 = init_limits inflags se1;
                          out = init_outarg arg inflags se2;
                          se3 = se2\<lparr>se_conn := init_background (se_conn se2)\<rparr>;
                          sz = (if ii_minor arg < 5 then 8 else if ii_minor arg < 23 then 24 else 64)
                      in send_reply known u 0 (take sz (init_out_bytes out)) se3)"

definition do_destroy :: "(int \<Rightarrow> bool) \<Rightarrow> u64 \<Rightarrow> ll_session \<Rightarrow> ll_session" where
  "do_destroy known u se =
     send_reply known u 0 [] (se\<lparr>se_mountpoint := False, se_got_destroy := True, se_got_init := False\<rparr>)"

section \<open>Taking a request\<close>

definition opcode_sanity_ok :: "ll_session \<Rightarrow> u32 \<Rightarrow> int" where
  "opcode_sanity_ok se opc =
     (if \<not> se_got_init se then (if opc \<noteq> (if se_cuse se then 4096 else 26) then EIO else 0)
      else if opc = 26 \<or> opc = 4096 then EIO else 0)"

text \<open>The exceptions: INIT, READ, WRITE, FSYNC, RELEASE, READDIR, FSYNCDIR, RELEASEDIR, NOTIFY\_REPLY, READDIRPLUS.\<close>

definition check_allow_root :: "ll_session \<Rightarrow> u32 \<Rightarrow> u32 \<Rightarrow> int" where
  "check_allow_root se opc uid =
     (if se_deny_others se \<and> uid \<noteq> se_owner se \<and> uid \<noteq> 0 \<and> opc \<notin> set [26, 15, 16, 20, 18, 28, 30, 29, 41, 44]
      then EACCES else 0)"

definition ll_ops_table :: "bool \<Rightarrow> (u32 \<times> ll_decoder) list" where
  "ll_ops_table mem =
     [(1, ll_do_lookup), (2, ll_do_forget), (3, ll_do_getattr), (4, ll_do_setattr), (5, ll_do_readlink),
      (6, ll_do_symlink), (8, ll_do_mknod), (9, ll_do_mkdir), (10, ll_do_unlink), (11, ll_do_rmdir),
      (12, ll_do_rename), (13, ll_do_link), (14, ll_do_open), (15, ll_do_read), (16, ll_do_write),
      (17, ll_do_statfs), (18, ll_do_release), (20, ll_do_fsync), (21, ll_do_setxattr), (22, ll_do_getxattr),
      (23, ll_do_listxattr), (24, ll_do_removexattr), (25, ll_do_flush), (27, ll_do_opendir),
      (28, ll_do_readdir), (29, ll_do_releasedir), (30, ll_do_fsyncdir), (31, ll_do_getlk), (32, ll_do_setlk),
      (33, ll_do_setlkw), (34, ll_do_access), (35, ll_do_create), (37, ll_do_bmap), (39, ll_do_ioctl),
      (40, ll_do_poll mem), (42, ll_do_batch_forget), (43, ll_do_fallocate), (44, ll_do_readdirplus),
      (45, ll_do_rename2), (46, ll_do_lseek), (47, ll_do_copy_file_range), (51, ll_do_tmpfile),
      (52, ll_do_statx), (53, ll_do_copy_file_range_64)]"

text \<open>The opcodes of the table, those handled by the session itself included.\<close>

definition known_opcode :: "u32 \<Rightarrow> bool" where
  "known_opcode opc \<longleftrightarrow> map_of (ll_ops_table True) opc \<noteq> None \<or> opc \<in> set [26, 36, 38, 41, 4096]"

text \<open>
  What happens outside the session while it takes a request: the error numbers that exist, the
  file system's \<open>init\<close>, the results of the allocations (of the header buffer, the request, the
  enlarged buffer, the poll handle) and of the two copies from the pipe.
\<close>

record ll_env =
  le_known :: "int \<Rightarrow> bool"
  le_data :: "fuse_bufvec \<Rightarrow> byte list"
  le_statx :: "statx \<Rightarrow> byte list"
  le_fsinit :: fs_init
  le_mem_header :: bool
  le_mem_req :: bool
  le_mem_grow :: bool
  le_mem_poll :: bool
  le_copy1 :: int
  le_copy2 :: int

text \<open>What is left to do: nothing, a call of the file system, the reply to a retrieve notification.\<close>

datatype ll_next =
    Settled
  | CallFs request ll_action
  | RetrieveReply u64
  | CuseInit u64

definition request_of :: "u64 \<Rightarrow> u32 \<Rightarrow> u32 \<Rightarrow> u32 \<Rightarrow> request" where
  "request_of u uid gid pid = \<lparr>r_id = unat u, r_uid = uid, r_gid = gid, r_pid = sint pid, r_umask = 0\<rparr>"

definition do_action :: "ll_env \<Rightarrow> u64 \<Rightarrow> bool \<Rightarrow> request \<times> ll_action \<Rightarrow> ll_session \<Rightarrow> ll_session \<times> ll_next" where
  "do_action e u copy64 ra se =
     (case ra of (req, act) \<Rightarrow>
        (case act of
           Answer r \<Rightarrow> (send_answer (le_known e) (le_data e) (le_statx e) u copy64 r se, Settled)
         | _ \<Rightarrow> (se, CallFs req act)))"

text \<open>The dispatch at the end: \<open>a\<close> are the bytes behind the header.\<close>

definition ll_dispatch ::
  "ll_env \<Rightarrow> u32 \<Rightarrow> u64 \<Rightarrow> fuse_ino \<Rightarrow> request \<Rightarrow> byte list \<Rightarrow> fuse_buf \<Rightarrow> ll_session \<Rightarrow> (ll_session \<times> ll_next) option" where
  "ll_dispatch e opc u nid req a ibuf se =
     (if opc = 16 \<and> Op_write_buf \<in> set (se_ops se) then do {
        ra \<leftarrow> ll_do_write_buf (se_conn se) req nid a ibuf;
        Some (do_action e u False ra se) }
      else if opc = 41 then
        (case do_notify_reply u se of (found, se1) \<Rightarrow> Some (se1, if found then RetrieveReply u else Settled))
      else if opc = 36 then do { target \<leftarrow> rd64 0 a; Some (do_interrupt u target se, Settled) }
      else if opc = 26 then do { arg \<leftarrow> rd_init_in a; Some (do_init (le_known e) (le_fsinit e) u arg se, Settled) }
      else if opc = 38 then Some (do_destroy (le_known e) u se, Settled)
      else if opc = 4096 then Some (se, CuseInit u)
      else do {
        dec \<leftarrow> map_of (ll_ops_table (le_mem_poll e)) opc;
        ra \<leftarrow> dec (se_conn se) (se_ops se) req nid a;
        Some (do_action e u (opc = 53) ra se) })"

text \<open>The request with its header read and the request structure allocated.\<close>

definition process_req ::
  "ll_env \<Rightarrow> fuse_buf \<Rightarrow> byte list \<Rightarrow> u32 \<Rightarrow> u64 \<Rightarrow> fuse_ino \<Rightarrow> request \<Rightarrow> ll_session \<Rightarrow> (ll_session \<times> ll_next) option" where
  "process_req e ibuf bs opc u nid req se =
     (let fail = (\<lambda>err s. Some (fuse_reply_err (le_known e) u err s, Settled));
          se1 = (if \<not> no_interrupt (se_conn se) \<and> opc \<noteq> 36 then admit (le_known e) u se else se);
          rest = (b_is_fd ibuf \<and> 80 < b_size ibuf \<and> (opc \<noteq> 16 \<or> Op_write_buf \<notin> set (se_ops se)) \<and> opc \<noteq> 41)
      in if opcode_sanity_ok se opc \<noteq> 0 then fail (opcode_sanity_ok se opc) se
         else if check_allow_root se opc (r_uid req) \<noteq> 0 then fail (check_allow_root se opc (r_uid req)) se
         else if \<not> known_opcode opc then fail ENOSYS se
         else if no_interrupt (se_conn se) \<and> opc = 36 then fail ENOSYS se
         else if rest \<and> \<not> le_mem_grow e then fail ENOMEM se1
         else if rest \<and> le_copy2 e < 0 then fail (- le_copy2 e) se1
         else ll_dispatch e opc u nid req (drop 40 bs) ibuf se1)"

definition process_buf :: "ll_env \<Rightarrow> fuse_buf \<Rightarrow> byte list \<Rightarrow> ll_session \<Rightarrow> (ll_session \<times> ll_next) option" where
  "process_buf e ibuf bs se =
     (if b_is_fd ibuf \<and> (\<not> le_mem_header e \<or> le_copy1 e < 0) then Some (se, Settled)
      else do {
        opc \<leftarrow> rd32 4 bs;
        u \<leftarrow> rd64 8 bs;
        nid \<leftarrow> rd64 16 bs;
        uid \<leftarrow> rd32 24 bs;
        gid \<leftarrow> rd32 28 bs;
        pid \<leftarrow> rd32 32 bs;
        if \<not> le_mem_req e
        then Some (fuse_send_msg \<lparr>m_unique = u, m_error = - ENOMEM, m_payload = []\<rparr> se, Settled)
        else process_req e ibuf bs opc u nid (request_of u uid gid pid) se })"

end
