(* ===== verification/Ll_Properties.thy ===== *)
theory Ll_Properties
  imports Ll_Process
begin

text \<open>
  The low-level session: an interrupt and the request it is for find each other whatever their
  order.
\<close>

section \<open>Interrupts\<close>

abbreviation live :: "ll_session \<Rightarrow> u64 set" where
  "live se \<equiv> rq_unique ` set (se_list se)"

abbreviation waiting_targets :: "ll_session \<Rightarrow> u64 list" where
  "waiting_targets se \<equiv> map rq_target (se_interrupts se)"

text \<open>
  The kernel sends requests with fresh numbers and interrupts in any order, and the file
  system answers. The second component is the set of requests for which an INTERRUPT came that
  has not been sent back (with EAGAIN) and whose request has not been answered since.
\<close>

definition marked_reqs :: "ll_req list \<Rightarrow> u64 set" where
  "marked_reqs rs = rq_unique ` {r \<in> set rs. rq_interrupted r}"

inductive intr_step :: "(int \<Rightarrow> bool) \<Rightarrow> ll_session \<times> u64 set \<Rightarrow> ll_session \<times> u64 set \<Rightarrow> bool" for known where
  arrive: "u \<notin> live se \<Longrightarrow> rq_unique ` set (se_interrupts se) \<inter> insert u (live se) = {} \<Longrightarrow>
    check_interrupt se (new_req u) = ((again, r), se1) \<Longrightarrow>
    intr_step known (se, T) (admit known u se, T - (case again of None \<Rightarrow> {} | Some i \<Rightarrow> {rq_target i}))"
| interrupt: "intr_step known (se, T) (do_interrupt i target se, insert target T)"
| answer: "u \<in> live se \<Longrightarrow> intr_step known (se, T) (send_reply known u err payload se, T - {u})"
| set_func: "intr_step known (se, T) (req_interrupt_func u g se, T)"

definition intr_inv :: "ll_session \<times> u64 set \<Rightarrow> bool" where
  "intr_inv = (\<lambda>(se, T). \<not> no_interrupt (se_conn se) \<and> distinct (map rq_unique (se_list se)) \<and>
     distinct (waiting_targets se) \<and> live se \<inter> set (waiting_targets se) = {} \<and>
     T = marked_reqs (se_list se) \<union> set (waiting_targets se))"

lemma take_interrupt_Some:
  "take_interrupt u is = Some js \<Longrightarrow> \<exists>xs i ys. is = xs @ i # ys \<and> rq_target i = u \<and> js = xs @ ys"
proof (induction "is" arbitrary: js)
  case (Cons a "is")
  show ?case
  proof (cases "rq_target a = u")
    case True
    with Cons.prems show ?thesis by (intro exI [of _ "[]"]) auto
  next
    case False
    then obtain ks where ks: "take_interrupt u is = Some ks" "js = a # ks" using Cons.prems by auto
    from Cons.IH [OF ks(1)] obtain xs i ys where "is = xs @ i # ys" "rq_target i = u" "ks = xs @ ys" by blast
    then show ?thesis using ks(2) by (intro exI [of _ "a # xs"]) auto
  qed
qed simp

lemma take_interrupt_None: "take_interrupt u is = None \<longleftrightarrow> u \<notin> rq_target ` set is"
  by (induction "is") auto

lemma req_interrupted_marked: "req_interrupted u se \<longleftrightarrow> u \<in> marked_reqs (se_list se)"
  by (auto simp: req_interrupted_def list_ex_iff marked_reqs_def)

lemma marked_simps [simp]: "marked_reqs [] = {}"
  "marked_reqs (r # rs) = (if rq_interrupted r then {rq_unique r} else {}) \<union> marked_reqs rs"
  "marked_reqs (rs @ ss) = marked_reqs rs \<union> marked_reqs ss"
  by (auto simp: marked_reqs_def)

lemma marked_map:
  "(\<And>r. rq_unique (h r) = rq_unique r \<and> rq_interrupted (h r) = rq_interrupted r) \<Longrightarrow> marked_reqs (map h rs) = marked_reqs rs"
  by (induction rs) auto

lemma marked_live: "marked_reqs (se_list se) \<subseteq> live se"
  by (auto simp: marked_reqs_def)

lemma mark_interrupted_unique [simp]: "map rq_unique (mark_interrupted u rs) = map rq_unique rs"
  by (simp add: mark_interrupted_def)

lemma mark_interrupted_live [simp]: "rq_unique ` set (mark_interrupted u rs) = rq_unique ` set rs"
  by (metis image_set mark_interrupted_unique)

lemma marked_mark: "u \<in> rq_unique ` set rs \<Longrightarrow> marked_reqs (mark_interrupted u rs) = insert u (marked_reqs rs)"
proof (induction rs)
  case (Cons r rs)
  have absent: "u \<notin> rq_unique ` set rs \<Longrightarrow> mark_interrupted u rs = rs"
    unfolding mark_interrupted_def by (rule map_idI) auto
  have h: "mark_interrupted u (r # rs) = (if rq_unique r = u then r\<lparr>rq_interrupted := True\<rparr> else r) # mark_interrupted u rs"
    by (simp add: mark_interrupted_def)
  show ?case
  proof (cases "u \<in> rq_unique ` set rs")
    case True
    with Cons.IH have "marked_reqs (mark_interrupted u rs) = insert u (marked_reqs rs)" by blast
    then show ?thesis by (simp add: h)
  next
    case False
    with Cons.prems absent have "rq_unique r = u" "mark_interrupted u rs = rs" by auto
    then show ?thesis by (simp add: h)
  qed
qed simp

lemma marked_drop: "marked_reqs (drop_req u rs) = marked_reqs rs - {u}"
  by (auto simp: marked_reqs_def drop_req_def)

lemma drop_req_unique: "map rq_unique (drop_req u rs) = filter (\<lambda>x. x \<noteq> u) (map rq_unique rs)"
  by (simp add: drop_req_def filter_map comp_def)

lemma drop_req_live: "rq_unique ` set (drop_req u rs) = rq_unique ` set rs - {u}"
  by (auto simp: drop_req_def)

lemma intr_start: "\<not> no_interrupt (se_conn se) \<Longrightarrow> se_list se = [] \<Longrightarrow> se_interrupts se = [] \<Longrightarrow> intr_inv (se, {})"
  by (simp add: intr_inv_def)

lemma drop_req_absent: "u \<notin> rq_unique ` set rs \<Longrightarrow> drop_req u rs = rs"
  by (auto simp: drop_req_def filter_id_conv)

lemma send_reply_fields [simp]:
  "se_conn (send_reply known u err p se) = se_conn se"
  "se_interrupts (send_reply known u err p se) = se_interrupts se"
  "se_list (send_reply known u err p se) =
     (if no_interrupt (se_conn se) then se_list se else drop_req u (se_list se))"
  "se_sent (send_reply known u err p se) =
     se_sent se @ [\<lparr>m_unique = u, m_error = checked_error known err, m_payload = p\<rparr>]"
  "se_ops (send_reply known u err p se) = se_ops se"
  by (simp_all add: send_reply_def fuse_free_req_def send_reply_iov_nofree_def fuse_send_msg_def)

lemma admit_fields:
  assumes "check_interrupt se (new_req u) = ((again, r), se1)"
    "rq_unique ` set (se_interrupts se) \<inter> insert u (live se) = {}"
  shows "se_list (admit known u se) = se_list se @ [r]"
    "se_interrupts (admit known u se) = se_interrupts se1"
    "se_conn (admit known u se) = se_conn se"
    "se_ops (admit known u se) = se_ops se"
    "se_sent (admit known u se) =
       se_sent se @ (case again of None \<Rightarrow> [] | Some i \<Rightarrow> [\<lparr>m_unique = rq_unique i, m_error = checked_error known (- EAGAIN), m_payload = []\<rparr>])"
proof -
  have r: "rq_unique r = u" "se_list se1 = se_list se" "se_conn se1 = se_conn se" "se_ops se1 = se_ops se" "se_sent se1 = se_sent se"
    using assms(1) by (auto simp: check_interrupt_def new_req_def split: option.splits list.splits)
  have abs: "rq_unique i \<notin> insert u (live se)" if "again = Some i" for i
    using assms that by (auto simp: check_interrupt_def split: option.splits list.splits)
  have "drop_req (rq_unique i) (se_list se @ [r]) = se_list se @ [r]" if "again = Some i" for i
    using abs [OF that] r(1) by (intro drop_req_absent) auto
  then show "se_list (admit known u se) = se_list se @ [r]"
    "se_interrupts (admit known u se) = se_interrupts se1"
    "se_conn (admit known u se) = se_conn se"
    "se_ops (admit known u se) = se_ops se"
    "se_sent (admit known u se) =
       se_sent se @ (case again of None \<Rightarrow> [] | Some i \<Rightarrow> [\<lparr>m_unique = rq_unique i, m_error = checked_error known (- EAGAIN), m_payload = []\<rparr>])"
    using r by (auto simp: admit_def assms(1) list_add_req_def fuse_reply_err_def Let_def split: option.splits)
qed

lemma intr_arrive:
  assumes inv: "intr_inv (se, T)" and fresh: "u \<notin> live se"
    and abs: "rq_unique ` set (se_interrupts se) \<inter> insert u (live se) = {}"
    and c: "check_interrupt se (new_req u) = ((again, r), se1)"
  shows "intr_inv (admit known u se, T - (case again of None \<Rightarrow> {} | Some i \<Rightarrow> {rq_target i}))"
proof -
  note f = admit_fields [OF c abs, where known = known]
  note i = inv [unfolded intr_inv_def, simplified]
  show ?thesis
  proof (cases "take_interrupt u (se_interrupts se)")
    case (Some js)
    then obtain xs k ys where k: "se_interrupts se = xs @ k # ys" "rq_target k = u" "js = xs @ ys"
      using take_interrupt_Some by blast
    have "again = None" "r = (new_req u)\<lparr>rq_interrupted := True\<rparr>" "se_interrupts se1 = xs @ ys"
      using c Some k(3) by (auto simp: check_interrupt_def new_req_def)
    then show ?thesis
      using i fresh k marked_live [of se] by (auto simp: intr_inv_def f new_req_def)
  next
    case None
    then have nt: "u \<notin> set (waiting_targets se)" by (simp add: take_interrupt_None)
    show ?thesis
    proof (cases "se_interrupts se")
      case Nil
      then have "again = None" "r = new_req u" "se_interrupts se1 = []"
        using c None by (auto simp: check_interrupt_def new_req_def)
      then show ?thesis
        using i fresh Nil by (auto simp: intr_inv_def f new_req_def)
    next
      case (Cons k ks)
      then have a: "again = Some k" "r = new_req u" "se_interrupts se1 = ks"
        using c None by (auto simp: check_interrupt_def new_req_def)
      have "rq_target k \<notin> marked_reqs (se_list se)"
        using i Cons marked_live [of se] by auto
      then show ?thesis
        using i fresh nt Cons a by (auto simp: intr_inv_def f new_req_def)
    qed
  qed
qed

lemma intr_interrupt:
  assumes inv: "intr_inv (se, T)"
  shows "intr_inv (do_interrupt i target se, insert target T)"
proof (cases "target \<in> live se")
  case True
  then obtain r where r: "find (\<lambda>r. rq_unique r = target) (se_list se) = Some r"
    by (cases "find (\<lambda>r. rq_unique r = target) (se_list se)") (auto simp: find_None_iff)
  show ?thesis
    using inv True r by (simp add: intr_inv_def do_interrupt_def find_interrupted_def marked_mark)
next
  case False
  then have n: "find (\<lambda>r. rq_unique r = target) (se_list se) = None"
    by (auto simp: find_None_iff)
  show ?thesis
  proof (cases "target \<in> set (waiting_targets se)")
    case True
    then have "list_ex (\<lambda>i. rq_target i = target) (se_interrupts se)" by (auto simp: list_ex_iff)
    then have "do_interrupt i target se = se"
      using n by (simp add: do_interrupt_def find_interrupted_def)
    then show ?thesis using inv True by (simp add: intr_inv_def insert_absorb)
  next
    case nw: False
    then have "\<not> list_ex (\<lambda>i. rq_target i = target) (se_interrupts se)" by (auto simp: list_ex_iff)
    then have "do_interrupt i target se =
        se\<lparr>se_interrupts := se_interrupts se @ [(new_req i)\<lparr>rq_target := target\<rparr>]\<rparr>"
      using n by (simp add: do_interrupt_def find_interrupted_def)
    then show ?thesis using inv False nw by (auto simp: intr_inv_def)
  qed
qed

lemma intr_answer:
  assumes "intr_inv (se, T)" "u \<in> live se"
  shows "intr_inv (send_reply known u err p se, T - {u})"
  using assms by (auto simp: intr_inv_def marked_drop drop_req_unique drop_req_live)

lemma intr_set_func:
  assumes "intr_inv (se, T)"
  shows "intr_inv (req_interrupt_func u g se, T)"
proof -
  let ?h = "\<lambda>r. if rq_unique r = u then r\<lparr>rq_func := g\<rparr> else r"
  let ?t = "req_interrupt_func u g se"
  have l: "se_list ?t = map ?h (se_list se)" and o: "se_interrupts ?t = se_interrupts se" "se_conn ?t = se_conn se"
    by (simp_all add: req_interrupt_func_def Let_def)
  have m: "marked_reqs (se_list ?t) = marked_reqs (se_list se)"
    unfolding l by (rule marked_map) simp
  have u: "map rq_unique (se_list ?t) = map rq_unique (se_list se)"
    unfolding l map_map by (rule map_cong) auto
  then have "live ?t = live se" by (metis list.set_map)
  with assms show ?thesis
    unfolding intr_inv_def case_prod_conv by (simp only: m u o simp_thms)
qed

lemma intr_step_inv: "intr_step known s t \<Longrightarrow> intr_inv s \<Longrightarrow> intr_inv t"
proof (induction rule: intr_step.induct)
  case (arrive u se again r se1 T)
  then show ?case by (intro intr_arrive)
qed (auto intro: intr_interrupt intr_answer intr_set_func)

lemma intr_reach_inv: "(intr_step known)\<^sup>*\<^sup>* s t \<Longrightarrow> intr_inv s \<Longrightarrow> intr_inv t"
  by (induction rule: rtranclp_induct) (auto intro: intr_step_inv)


definition demo_conn :: fuse_conn_info where
  "demo_conn = \<lparr>proto_major = 7, proto_minor = 31, max_write = 131072, max_read = 0, max_readahead = 131072,
     capable = 0, want = 0, max_background = 12, congestion_threshold = 9, time_gran = 1,
     max_backing_stack_depth = 0, no_interrupt = False, capable_ext = 0, want_ext = 0, request_timeout = 0\<rparr>"

definition demo_se :: ll_session where
  "demo_se = \<lparr>se_conn = demo_conn, se_ops = [Op_lookup, Op_access], se_got_init = True, se_got_destroy = False,
     se_mountpoint = True, se_deny_others = False, se_owner = 1000, se_cuse = False, se_list = [],
     se_interrupts = [], se_notify_ctr = 0, se_notify_list = [], se_bufsize = 135168, se_buf_reallocable = True,
     se_error = 0, se_exited = False, se_conn_want = 0, se_conn_want_ext = 0, se_max_read_mo = 0,
     se_uring_enable = False, se_splice_send = True, se_splice_receive = True, se_pagesize = 4096,
     se_sent = [], se_funcs_called = []\<rparr>"


end
