(* ===== verification/Ll_Answers.thy ===== *)
theory Ll_Answers
  imports Ll_Properties
begin

text \<open>
  Every request of the kernel is answered once: by the session itself, or by the handler of
  the path library that the session hands it to.
\<close>

section \<open>What the decoders hand over\<close>

text \<open>A decoder keeps the identity of the request and never answers it without a message.\<close>

definition faithful :: "request \<Rightarrow> (request \<times> ll_action) option \<Rightarrow> bool" where
  "faithful req o1 \<longleftrightarrow> (\<forall>r act. o1 = Some (r, act) \<longrightarrow> r_id r = r_id req \<and> act \<noteq> Answer ReplyNone)"

named_theorems decoder_rules \<open>how a decoder is built\<close>

lemma faithful_bind [decoder_rules]: "(\<And>x. faithful req (f x)) \<Longrightarrow> faithful req (m \<bind> f)"
  by (auto simp: faithful_def bind_eq_Some_conv)

lemma faithful_Some [decoder_rules]:
  "r_id r = r_id req \<Longrightarrow> act \<noteq> Answer ReplyNone \<Longrightarrow> faithful req (Some (r, act))"
  by (simp add: faithful_def)

lemma faithful_if [decoder_rules]:
  "(b \<Longrightarrow> faithful req x) \<Longrightarrow> (\<not> b \<Longrightarrow> faithful req y) \<Longrightarrow> faithful req (if b then x else y)"
  by simp

lemma call_or_answers [simp]:
  "r \<noteq> ReplyNone \<Longrightarrow> act \<noteq> Answer ReplyNone \<Longrightarrow> call_or ops x act r \<noteq> Answer ReplyNone"
  by (simp add: call_or_def)

lemma set_umask_id [simp]: "r_id (set_umask c um req) = r_id req"
  by (simp add: set_umask_def)

lemmas name_decoders = ll_do_lookup_def ll_do_mknod_def ll_do_mkdir_def ll_do_unlink_def ll_do_rmdir_def
  ll_do_symlink_def ll_do_rename_def ll_do_rename2_def ll_do_link_def

lemmas attr_decoders = ll_do_getattr_def ll_do_setattr_def ll_do_statx_def ll_do_access_def ll_do_readlink_def
  ll_do_statfs_def ll_do_setxattr_def ll_do_getxattr_def ll_do_listxattr_def ll_do_removexattr_def

lemmas file_decoders = ll_do_open_def ll_do_create_def ll_do_tmpfile_def ll_do_read_def ll_do_write_def
  ll_do_flush_def ll_do_release_def ll_do_fsync_def ll_do_fallocate_def ll_do_lseek_def
  ll_do_copy_file_range_def ll_do_copy_file_range_64_def copy_file_range_common_def

lemmas misc_decoders = ll_do_opendir_def ll_do_readdir_def ll_do_readdirplus_def ll_do_releasedir_def
  ll_do_fsyncdir_def ll_do_getlk_def ll_do_setlk_def ll_do_setlkw_def do_setlk_common_def ll_do_bmap_def
  ll_do_ioctl_def ll_do_poll_def

lemma faithful_table:
  assumes "(opc, dec) \<in> set (ll_ops_table mem)" "opc \<noteq> 2" "opc \<noteq> 42"
  shows "faithful req (dec c ops req nid a)"
proof -
  have names: "faithful req (dec c ops req nid a)"
    if "dec \<in> {ll_do_lookup, ll_do_mknod, ll_do_mkdir, ll_do_unlink, ll_do_rmdir, ll_do_symlink, ll_do_rename,
                ll_do_rename2, ll_do_link}" for dec
    using that by (elim insertE emptyE) (simp_all only: name_decoders, (intro decoder_rules; simp)+)
  have attrs: "faithful req (dec c ops req nid a)"
    if "dec \<in> {ll_do_getattr, ll_do_setattr, ll_do_statx, ll_do_access, ll_do_readlink, ll_do_statfs,
                ll_do_setxattr, ll_do_getxattr, ll_do_listxattr, ll_do_removexattr}" for dec
    using that by (elim insertE emptyE) (simp_all only: attr_decoders Let_def, (intro decoder_rules; simp)+)
  have files: "faithful req (dec c ops req nid a)"
    if "dec \<in> {ll_do_open, ll_do_create, ll_do_tmpfile, ll_do_read, ll_do_write, ll_do_flush, ll_do_release,
                ll_do_fsync, ll_do_fallocate, ll_do_lseek, ll_do_copy_file_range, ll_do_copy_file_range_64}" for dec
    using that by (elim insertE emptyE) (simp_all only: file_decoders Let_def, (intro decoder_rules; simp)+)
  have misc: "faithful req (dec c ops req nid a)"
    if "dec \<in> {ll_do_opendir, ll_do_readdir, ll_do_readdirplus, ll_do_releasedir, ll_do_fsyncdir, ll_do_getlk,
                ll_do_setlk, ll_do_setlkw, ll_do_bmap, ll_do_ioctl, ll_do_poll mem}" for dec
    using that by (elim insertE emptyE) (simp_all only: misc_decoders Let_def, (intro decoder_rules; simp)+)
  show ?thesis
    using assms unfolding ll_ops_table_def list.set insert_iff prod.inject empty_iff
    by (elim disjE) (auto intro: names attrs files misc)
qed

section \<open>Messages to one request\<close>

definition sent_to :: "u64 \<Rightarrow> ll_session \<Rightarrow> nat" where
  "sent_to u se = length (filter (\<lambda>m. m_unique m = u) (se_sent se))"

lemma sent_to_updates [simp]:
  "sent_to u (se\<lparr>se_conn := c\<rparr>) = sent_to u se" "sent_to u (se\<lparr>se_list := rs\<rparr>) = sent_to u se"
  by (simp_all add: sent_to_def)

lemma sent_to_reply [simp]:
  "sent_to u (send_reply known v err p se) = sent_to u se + (if v = u then 1 else 0)"
  by (simp add: sent_to_def)

lemma sent_to_reply_err [simp]:
  "sent_to u (fuse_reply_err known v err se) = sent_to u se + (if v = u then 1 else 0)"
  by (simp add: fuse_reply_err_def)

lemma sent_to_admit:
  assumes "u \<notin> rq_unique ` set (se_interrupts se)"
  shows "sent_to u (admit known v se) = sent_to u se"
proof -
  obtain again r se1 where c: "check_interrupt se (new_req v) = ((again, r), se1)"
    by (metis prod.exhaust)
  then have "sent_to u se1 = sent_to u se" "\<And>i. again = Some i \<Longrightarrow> rq_unique i \<noteq> u"
    using assms by (auto simp: check_interrupt_def sent_to_def split: option.splits list.splits)
  then show ?thesis
    by (auto simp: admit_def c list_add_req_def Let_def split: option.splits)
qed

lemma admit_frame [simp]:
  "se_conn (admit known u se) = se_conn se" "se_ops (admit known u se) = se_ops se"
  "se_cuse (admit known u se) = se_cuse se"
  by (auto simp: admit_def check_interrupt_def list_add_req_def fuse_reply_err_def send_reply_def fuse_free_req_def
      send_reply_iov_nofree_def fuse_send_msg_def Let_def split: option.splits list.splits)

lemma sent_set_feature: "se_sent (snd (set_feature_flag fl se)) = se_sent se"
  by (simp add: set_feature_flag_def Let_def)

lemma sent_features: "se_sent (fold (\<lambda>n s. snd (set_feature_flag (2 ^ n) s)) ns se) = se_sent se"
  by (induction ns arbitrary: se) (simp_all add: sent_set_feature)

lemma sent_offer: "se_sent (init_offer arg se) = se_sent se"
  by (simp add: init_offer_def Let_def sent_features)

lemma sent_call: "se_sent (init_call fsinit se) = se_sent se"
  by (auto simp: init_call_def convert_to_conn_want_ext_def Let_def split: prod.splits)

lemma sent_fail: "sent_to u (fail_init known v se) = sent_to u se + (if v = u then 1 else 0)"
  by (simp add: fail_init_def sent_to_def fuse_reply_err_def)

lemma sent_limits: "se_sent (init_limits inflags se) = se_sent se"
  by (simp add: init_limits_def Let_def)

lemma sent_to_init:
  "sent_to u (init_call fsinit se) = sent_to u se" "sent_to u (init_offer arg se) = sent_to u se"
  "sent_to u (init_limits inflags se) = sent_to u se"
  by (simp_all add: sent_to_def sent_call sent_offer sent_limits)

lemma sent_to_do_init [simp]:
  "sent_to u (do_init known fsinit v arg se) = sent_to u se + (if v = u then 1 else 0)"
  by (simp add: do_init_def Let_def sent_fail sent_to_init)

lemma sent_to_destroy [simp]:
  "sent_to u (do_destroy known v se) = sent_to u se + (if v = u then 1 else 0)"
  by (simp add: do_destroy_def sent_to_def)

lemma sent_to_answer:
  "r \<noteq> ReplyNone \<Longrightarrow> sent_to u (send_answer known data stx v cp r se) = sent_to u se + (if v = u then 1 else 0)"
  by (cases r) (simp_all add: send_answer_def reply_payload_def reply_entry_payload_def)

section \<open>One answer\<close>

text \<open>The state of an exchange with request \<open>u\<close> that had \<open>n\<close> messages before.\<close>

definition settles_once :: "u64 \<Rightarrow> nat \<Rightarrow> bool \<Rightarrow> ll_session \<times> ll_next \<Rightarrow> bool" where
  "settles_once u n cuse = (\<lambda>(se, nxt). case nxt of
       Settled \<Rightarrow> sent_to u se = n + 1
     | CallFs req act \<Rightarrow> sent_to u se = n \<and> r_id req = unat u \<and> (\<forall>r. act \<noteq> Answer r)
     | RetrieveReply v \<Rightarrow> False
     | CuseInit v \<Rightarrow> sent_to u se = n \<and> cuse)"

lemma settles_Settled: "settles_once u n cuse (se, Settled) \<longleftrightarrow> sent_to u se = n + 1"
  by (simp add: settles_once_def)

lemma settles_action:
  assumes "r_id req = unat u" "act \<noteq> Answer ReplyNone"
  shows "settles_once u (sent_to u se) cuse (do_action e u cp (req, act) se)"
  using assms
  by (cases act) (auto simp: settles_once_def do_action_def sent_to_answer split: ll_action.split)

lemma write_buf_faithful: "faithful req (ll_do_write_buf c req nid a ibuf)"
  unfolding ll_do_write_buf_def Let_def by (intro decoder_rules; simp)

lemma settles_dispatch:
  assumes d: "ll_dispatch e opc u nid req a ibuf se = Some out" and req: "r_id req = unat u"
    and opc: "opc \<notin> {2, 42, 36, 41}" "opc = 4096 \<Longrightarrow> cuse"
  shows "settles_once u (sent_to u se) cuse out"
proof (cases "opc = 16 \<and> Op_write_buf \<in> set (se_ops se)")
  case True
  then obtain r act where ra: "ll_do_write_buf (se_conn se) req nid a ibuf = Some (r, act)"
    and out: "out = do_action e u False (r, act) se"
    using d by (auto simp: ll_dispatch_def bind_eq_Some_conv)
  from ra write_buf_faithful [of req "se_conn se" nid a ibuf] have "r_id r = r_id req" "act \<noteq> Answer ReplyNone"
    by (auto simp: faithful_def)
  with req show ?thesis unfolding out by (intro settles_action) simp_all
next
  case False
  consider "opc = 26" | "opc = 38" | "opc = 4096" | (decoded) "opc \<noteq> 26" "opc \<noteq> 38" "opc \<noteq> 4096" by blast
  then show ?thesis
  proof cases
    case decoded
    then obtain dec r act where dec: "map_of (ll_ops_table (le_mem_poll e)) opc = Some dec"
      and ra: "dec (se_conn se) (se_ops se) req nid a = Some (r, act)"
      and out: "out = do_action e u (opc = 53) (r, act) se"
      using d False opc(1) unfolding ll_dispatch_def by (simp split: if_splits add: bind_eq_Some_conv) auto
    from faithful_table [OF map_of_SomeD [OF dec], of req "se_conn se" "se_ops se" nid a] opc(1) ra
    have "r_id r = r_id req" "act \<noteq> Answer ReplyNone" by (auto simp: faithful_def)
    with req show ?thesis unfolding out by (intro settles_action) simp_all
  qed (use d opc in \<open>auto simp: ll_dispatch_def settles_once_def bind_eq_Some_conv\<close>)
qed

lemma settles_req:
  assumes p: "process_req e ibuf bs opc u nid req se = Some out" and req: "r_id req = unat u"
    and fresh: "u \<notin> rq_unique ` set (se_interrupts se)" and opc: "opc \<notin> {2, 42, 36, 41}"
  shows "settles_once u (sent_to u se) (se_cuse se) out"
proof -
  let ?se1 = "if \<not> no_interrupt (se_conn se) \<and> opc \<noteq> 36 then admit (le_known e) u se else se"
  have s1: "sent_to u ?se1 = sent_to u se" by (simp add: sent_to_admit fresh)
  have f: "settles_once u (sent_to u se) (se_cuse se) (fuse_reply_err (le_known e) u err s, Settled)"
    if "sent_to u s = sent_to u se" for err s
    using that by (simp add: settles_Settled)
  have cuse: "opcode_sanity_ok se opc = 0 \<Longrightarrow> opc = 4096 \<Longrightarrow> se_cuse se"
    by (auto simp: opcode_sanity_ok_def EIO_def split: if_splits)
  have d: "settles_once u (sent_to u se) (se_cuse se) out"
    if "opcode_sanity_ok se opc = 0" "ll_dispatch e opc u nid req (drop 40 bs) ibuf ?se1 = Some out"
    using settles_dispatch [OF that(2) req opc cuse [OF that(1)]] by (simp only: s1)
  show ?thesis
    using p f f [OF s1] d unfolding process_req_def Let_def
    by (simp only: not_not simp_thms option.inject split: if_split_asm) metis+
qed

lemma settles_process:
  assumes p: "process_buf e ibuf bs se = Some out"
    and h: "rd32 4 bs = Some opc" "rd64 8 bs = Some u"
    and io: "b_is_fd ibuf \<Longrightarrow> le_mem_header e \<and> le_copy1 e \<ge> 0"
    and fresh: "u \<notin> rq_unique ` set (se_interrupts se)"
    and opc: "opc \<notin> {2, 42, 36, 41}"
  shows "settles_once u (sent_to u se) (se_cuse se) out"
proof (cases "le_mem_req e")
  case True
  with p h io obtain nid uid gid pid where
    "process_req e ibuf bs opc u nid (request_of u uid gid pid) se = Some out"
    unfolding process_buf_def by (fastforce simp: bind_eq_Some_conv split: if_splits)
  then show ?thesis by (rule settles_req [OF _ _ fresh opc]) (simp add: request_of_def)
next
  case False
  with p h io have "out = (fuse_send_msg \<lparr>m_unique = u, m_error = - ENOMEM, m_payload = []\<rparr> se, Settled)"
    unfolding process_buf_def by (fastforce simp: bind_eq_Some_conv split: if_splits)
  then show ?thesis by (simp add: settles_Settled fuse_send_msg_def sent_to_def)
qed


definition demo_env :: ll_env where
  "demo_env = \<lparr>le_known = (\<lambda>n. 0 < n \<and> n < 134), le_data = (\<lambda>_. []), le_statx = (\<lambda>_. []), le_fsinit = (\<lambda>x. x),
     le_mem_header = True, le_mem_req = True, le_mem_grow = True, le_mem_poll = True, le_copy1 = 0, le_copy2 = 0\<rparr>"

text \<open>An ACCESS request, number 7, node 1, mask 4.\<close>

definition demo_bytes :: "byte list" where
  "demo_bytes = le_bytes 4 48 @ le_bytes 4 34 @ le_bytes 8 7 @ le_bytes 8 1 @ le_bytes 16 0 @ le_bytes 8 4"

definition demo_ibuf :: fuse_buf where
  "demo_ibuf = \<lparr>b_size = 48, b_is_fd = False, b_fd_seek = False, b_fd_retry = False, b_mem = 0, b_fd = 0, b_pos = 0\<rparr>"


end
