(* ===== verification/Ll_Roundtrip.thy ===== *)
theory Ll_Roundtrip
  imports Ll_Answers
begin

text \<open>
  The request decoders against the wire format: the structures of \<open>include/fuse_kernel.h\<close> as
  the kernel (protocol 7.12 or later) fills them, field by field, and the proof that every
  decoder reads back the call they encode.
\<close>

section \<open>Reading what was written\<close>

lemma rd_skip: "length xs \<le> off \<Longrightarrow> rd off k (xs @ ys) = rd (off - length xs) k ys"
  by (auto simp: rd_def)

lemma rd_here: "length xs = k \<Longrightarrow> rd 0 k (xs @ ys) = Some xs"
  by (simp add: rd_def)

lemma rd32_skip: "length xs \<le> off \<Longrightarrow> rd32 off (xs @ ys) = rd32 (off - length xs) ys"
  by (simp add: rd32_def rd_skip)

lemma rd64_skip: "length xs \<le> off \<Longrightarrow> rd64 off (xs @ ys) = rd64 (off - length xs) ys"
  by (simp add: rd64_def rd_skip)

lemma le_nat_mod: "le_nat (le_bytes k n) = n mod 256 ^ k"
proof (induction k arbitrary: n)
  case (Suc k)
  have "n mod (256 * 256 ^ k) = n mod 256 + 256 * (n div 256 mod 256 ^ k)"
    by (simp add: mod_mult2_eq)
  then show ?case using Suc.IH [of "n div 256"] by (simp add: unat_of_nat)
qed simp

lemma rd32_here: "rd32 0 (le_bytes 4 n @ ys) = Some (of_nat n)"
proof -
  have "(of_nat (n mod 2 ^ 32) :: u32) = of_nat n" by (simp add: word_unat_eq_iff unat_of_nat)
  then show ?thesis by (simp add: rd32_def rd_here le_nat_mod)
qed

lemma rd64_here: "rd64 0 (le_bytes 8 n @ ys) = Some (of_nat n)"
proof -
  have "(of_nat (n mod 2 ^ 64) :: u64) = of_nat n" by (simp add: word_unat_eq_iff unat_of_nat)
  then show ?thesis by (simp add: rd64_def rd_here le_nat_mod)
qed

lemma rd_last:
  "rd32 0 (le_bytes 4 n) = Some (of_nat n)" "rd64 0 (le_bytes 8 n) = Some (of_nat n)"
  using rd32_here [of n "[]"] rd64_here [of n "[]"] by simp_all

text \<open>A C string: no 0 inside, a 0 at the end.\<close>

definition wire_string :: "string \<Rightarrow> byte list" where
  "wire_string s = of_chars s @ [0]"

definition c_name :: "string \<Rightarrow> bool" where
  "c_name s \<longleftrightarrow> CHR 0x00 \<notin> set s"

lemma length_c_string [simp]: "length (wire_string s) = length s + 1"
  by (simp add: wire_string_def)

lemma unat_of_char: "unat (of_char c :: byte) = of_char c"
proof -
  have "(of_char c :: byte) = of_nat (of_char c)" by (simp add: of_nat_of_char)
  then have "unat (of_char c :: byte) = of_char c mod 256" by (simp add: unat_of_nat)
  then show ?thesis by simp
qed

lemma of_char_zero: "(of_char c :: byte) = 0 \<longleftrightarrow> c = CHR 0x00"
proof
  assume "(of_char c :: byte) = 0"
  then have "(of_char c :: nat) = 0" using unat_of_char [of c] by simp
  moreover have "c = char_of (of_char c :: nat)" by simp
  ultimately have "c = char_of (0 :: nat)" by simp
  then show "c = CHR 0x00" by (simp add: char_of_def)
qed (simp add: of_char_def)

lemma rd_str_here:
  assumes "c_name s"
  shows "rd_str 0 (wire_string s @ ys) = Some s"
proof -
  have t: "takeWhile (\<lambda>b. b \<noteq> 0) (of_chars s @ 0 # ys) = of_chars s"
    using assms by (induction s) (auto simp: of_chars_def c_name_def of_char_zero)
  show ?thesis
    unfolding rd_str_def wire_string_def append_assoc append_Cons append_Nil drop_0 t Let_def
    by (simp add: of_chars_def unat_of_char comp_def)
qed

lemma rd_str_skip: "length xs \<le> off \<Longrightarrow> rd_str off (xs @ ys) = rd_str (off - length xs) ys"
  by (auto simp: rd_str_def Let_def)

lemma rd_str_last: "c_name s \<Longrightarrow> rd_str 0 (wire_string s) = Some s"
  using rd_str_here [of s "[]"] by simp

lemma rd_last_bytes: "length xs = k \<Longrightarrow> rd 0 k xs = Some xs"
  by (simp add: rd_def)

lemmas rd_rules = rd_skip rd_here rd32_skip rd64_skip rd32_here rd64_here rd_last rd_str_skip rd_str_here
  rd_str_last rd_last_bytes

section \<open>The kernel's side\<close>

text \<open>Opcode, node and argument bytes of a call; \<open>um\<close> is the umask of the caller.\<close>

primrec name_wire :: "u32 \<Rightarrow> name_call \<Rightarrow> u32 \<times> fuse_ino \<times> byte list" where
  "name_wire um (CLookup dir name) = (1, dir, wire_string name)"
| "name_wire um (CForget ino n) = (2, ino, le_bytes 8 n)"
| "name_wire um (CForgetMulti fs) =
     (42, 0, le_bytes 4 (length fs) @ le_bytes 4 0 @ concat (map (\<lambda>(i, n). le64 i @ le_bytes 8 n) fs))"
| "name_wire um (CMknod dir name mode rdev) =
     (8, dir, le32 mode @ le32 (ucast rdev) @ le32 um @ le_bytes 4 0 @ wire_string name)"
| "name_wire um (CMkdir dir name mode) = (9, dir, le32 mode @ le32 um @ wire_string name)"
| "name_wire um (CUnlink dir name) = (10, dir, wire_string name)"
| "name_wire um (CRmdir dir name) = (11, dir, wire_string name)"
| "name_wire um (CSymlink linkname dir name) = (6, dir, wire_string name @ wire_string linkname)"
| "name_wire um (CRename olddir oldname newdir newname flags) =
     (if flags = 0 then (12, olddir, le64 newdir @ wire_string oldname @ wire_string newname)
      else (45, olddir, le64 newdir @ le32 flags @ le_bytes 4 0 @ wire_string oldname @ wire_string newname))"
| "name_wire um (CLink ino newdir newname) = (13, newdir, le64 ino @ wire_string newname)"

primrec name_ok :: "name_call \<Rightarrow> bool" where
  "name_ok (CLookup dir name) = c_name name"
| "name_ok (CForget ino n) = (n < 2 ^ 64)"
| "name_ok (CForgetMulti fs) = (length fs < 2 ^ 32 \<and> (\<forall>(i, n)\<in>set fs. n < 2 ^ 64))"
| "name_ok (CMknod dir name mode rdev) = (c_name name \<and> rdev < 2 ^ 32)"
| "name_ok (CMkdir dir name mode) = c_name name"
| "name_ok (CUnlink dir name) = c_name name"
| "name_ok (CRmdir dir name) = c_name name"
| "name_ok (CSymlink linkname dir name) = (c_name name \<and> c_name linkname)"
| "name_ok (CRename olddir oldname newdir newname flags) = (c_name oldname \<and> c_name newname)"
| "name_ok (CLink ino newdir newname) = c_name newname"

text \<open>What the decoder of an opcode does with the bytes.\<close>

definition ll_decode :: "u32 \<Rightarrow> ll_decoder" where
  "ll_decode opc c ops req nid a = do { dec \<leftarrow> map_of (ll_ops_table True) opc; dec c ops req nid a }"

definition wire_conn :: "fuse_conn_info \<Rightarrow> bool" where
  "wire_conn c \<longleftrightarrow> proto_minor c \<ge> 12 \<and> ucast (want c) AND FUSE_CAP_SETXATTR_EXT = 0"

lemma rd_forgets_wire:
  assumes "\<forall>(i, n)\<in>set fs. n < 2 ^ 64"
  shows "rd_forgets (length pre) (length fs) (pre @ concat (map (\<lambda>(i, n). le64 i @ le_bytes 8 n) fs)) = Some fs"
  using assms
proof (induction fs arbitrary: pre)
  case (Cons f fs)
  obtain i n where f: "f = (i, n)" by (cases f)
  have n: "unat (of_nat n :: u64) = n"
    using Cons.prems by (simp add: f unat_of_nat)
  have IH: "rd_forgets (length pre + 16) (length fs) (pre @ le64 i @ le_bytes 8 n @ concat (map (\<lambda>(i, n). le64 i @ le_bytes 8 n) fs)) = Some fs"
    using Cons.IH [of "pre @ le64 i @ le_bytes 8 n"] Cons.prems by simp
  show ?case
    by (simp add: f rd64_skip rd64_here n IH)
qed simp

definition all_ops :: "ll_ops \<Rightarrow> bool" where
  "all_ops ops \<longleftrightarrow> (\<forall>x. x \<in> set ops)"

lemma call_or_all [simp]: "all_ops ops \<Longrightarrow> call_or ops x act r = act"
  by (simp add: call_or_def all_ops_def)

lemma minor_12:
  assumes "wire_conn c"
  shows "proto_minor c \<ge> 12" "proto_minor c \<ge> 9" "proto_minor c \<ge> 8" "proto_minor c \<ge> 7"
    "\<not> proto_minor c < 12" "\<not> proto_minor c < 9"
  using assms by (auto simp: wire_conn_def word_le_nat_alt word_less_nat_alt)

primrec creates :: "name_call \<Rightarrow> bool" where
  "creates (CLookup dir name) = False"
| "creates (CForget ino n) = False"
| "creates (CForgetMulti fs) = False"
| "creates (CMknod dir name mode rdev) = True"
| "creates (CMkdir dir name mode) = True"
| "creates (CUnlink dir name) = False"
| "creates (CRmdir dir name) = False"
| "creates (CSymlink linkname dir name) = False"
| "creates (CRename olddir oldname newdir newname flags) = False"
| "creates (CLink ino newdir newname) = False"

lemma ucast_down_up: "rdev < 2 ^ 32 \<Longrightarrow> ucast (ucast (rdev::u64) :: u32) = rdev"
  by (simp add: word_unat_eq_iff unsigned_ucast_eq unsigned_take_bit_eq word_less_nat_alt take_bit_nat_eq_self)

lemma name_roundtrip:
  assumes "wire_conn c" "all_ops ops" "name_ok nc" "name_wire um nc = (opc, nid, a)"
  shows "ll_decode opc c ops req nid a =
    Some (if creates nc then req\<lparr>r_umask := um\<rparr> else req, Invoke (NameCall nc))"
proof -
  note m = minor_12 [OF assms(1)]
  have mem: "x \<in> set ops" for x using assms(2) by (simp add: all_ops_def)
  have forgets: "rd_forgets 8 (length fs) (le_bytes 4 (length fs) @ le_bytes 4 0 @
      concat (map (\<lambda>(i, n). le64 i @ le_bytes 8 n) fs)) = Some fs"
    if "\<forall>(i, n)\<in>set fs. n < 2 ^ 64" for fs
    using rd_forgets_wire [OF that, of "le_bytes 4 (length fs) @ le_bytes 4 0"] by simp
  show ?thesis
    using assms(2-4)
    by (cases nc) (auto simp: ll_decode_def ll_ops_table_def name_decoders ll_do_forget_def ll_do_batch_forget_def
        rd_rules m set_umask_def unat_of_nat ucast_down_up forgets mem split: if_splits)
qed

text \<open>Values of \<open>off_t\<close> and of a 32-bit signed field.\<close>

definition off_ok :: "int \<Rightarrow> bool" where
  "off_ok i \<longleftrightarrow> - (2 ^ 63) \<le> i \<and> i < 2 ^ 63"

abbreviation le_off :: "int \<Rightarrow> byte list" where
  "le_off i \<equiv> le64 (word_of_int i)"

lemma sint_off: "off_ok i \<Longrightarrow> sint (word_of_int i :: u64) = i"
  by (simp add: off_ok_def signed_of_int signed_take_bit_int_eq_self)

lemma sint_pid: "- (2 ^ 31) \<le> i \<Longrightarrow> i < 2 ^ 31 \<Longrightarrow> sint (word_of_int i :: u32) = i"
  by (simp add: signed_of_int signed_take_bit_int_eq_self)

definition nsec_ok :: "int \<Rightarrow> bool" where
  "nsec_ok i \<longleftrightarrow> 0 \<le> i \<and> i < 2 ^ 32"

lemma uint_nsec: "nsec_ok i \<Longrightarrow> uint (word_of_int i :: u32) = i"
  by (simp add: nsec_ok_def unsigned_of_int take_bit_int_eq_self)

text \<open>A file handle as a request carries it.\<close>

definition plain_fi :: "fuse_file_info \<Rightarrow> bool" where
  "plain_fi fi \<longleftrightarrow> fi = zero_fi\<lparr>fi_fh := fi_fh fi\<rparr>"

definition opt_fh :: "fuse_file_info option \<Rightarrow> u64" where
  "opt_fh fi = (case fi of None \<Rightarrow> 0 | Some f \<Rightarrow> fi_fh f)"

definition opt_plain :: "fuse_file_info option \<Rightarrow> bool" where
  "opt_plain fi = (case fi of None \<Rightarrow> True | Some f \<Rightarrow> plain_fi f)"

primrec attr_wire :: "attr_call \<Rightarrow> u32 \<times> fuse_ino \<times> byte list" where
  "attr_wire (CGetattr ino fi) = (3, ino, le_bytes 4 (if fi = None then 0 else 1) @ le_bytes 4 0 @ le64 (opt_fh fi))"
| "attr_wire (CSetattr ino st valid fi) =
     (4, ino, le32 (if fi = None then valid else valid OR FATTR_FH) @ le_bytes 4 0 @ le64 (opt_fh fi) @
        le_off (st_size st) @ le_bytes 8 0 @
        le_off (fst (st_atim st)) @ le_off (fst (st_mtim st)) @ le_off (fst (st_ctim st)) @
        le32 (word_of_int (snd (st_atim st))) @ le32 (word_of_int (snd (st_mtim st))) @ le32 (word_of_int (snd (st_ctim st))) @
        le32 (st_mode st) @ le_bytes 4 0 @ le32 (st_uid st) @ le32 (st_gid st) @ le_bytes 4 0)"
| "attr_wire (CStatx ino flags msk fi) =
     (52, ino, le_bytes 4 (if fi = None then 0 else 1) @ le_bytes 4 0 @ le64 (opt_fh fi) @ le32 flags @ le32 msk)"
| "attr_wire (CAccess ino msk) = (34, ino, le32 msk @ le_bytes 4 0)"
| "attr_wire (CReadlink ino) = (5, ino, [])"
| "attr_wire (CStatfs ino) = (17, ino, [])"
| "attr_wire (CSetxattr ino name val flags) = (21, ino, le_bytes 4 (length val) @ le32 flags @ wire_string name @ val)"
| "attr_wire (CGetxattr ino name sz) = (22, ino, le_bytes 4 sz @ le_bytes 4 0 @ wire_string name)"
| "attr_wire (CListxattr ino sz) = (23, ino, le_bytes 4 sz @ le_bytes 4 0)"
| "attr_wire (CRemovexattr ino name) = (24, ino, wire_string name)"

definition time_ok :: "timespec \<Rightarrow> bool" where
  "time_ok t \<longleftrightarrow> off_ok (fst t) \<and> nsec_ok (snd t)"

primrec attr_ok :: "attr_call \<Rightarrow> bool" where
  "attr_ok (CGetattr ino fi) = opt_plain fi"
| "attr_ok (CSetattr ino st valid fi) =
     (opt_plain fi \<and> valid AND setattr_valid_mask = valid \<and> off_ok (st_size st) \<and>
      time_ok (st_atim st) \<and> time_ok (st_mtim st) \<and> time_ok (st_ctim st) \<and>
      st = zero_stat\<lparr>st_mode := st_mode st, st_uid := st_uid st, st_gid := st_gid st, st_size := st_size st,
             st_atim := st_atim st, st_mtim := st_mtim st, st_ctim := st_ctim st\<rparr>)"
| "attr_ok (CStatx ino flags msk fi) = opt_plain fi"
| "attr_ok (CAccess ino msk) = True"
| "attr_ok (CReadlink ino) = True"
| "attr_ok (CStatfs ino) = True"
| "attr_ok (CSetxattr ino name val flags) = (c_name name \<and> length val < 2 ^ 32)"
| "attr_ok (CGetxattr ino name sz) = (c_name name \<and> sz < 2 ^ 32)"
| "attr_ok (CListxattr ino sz) = (sz < 2 ^ 32)"
| "attr_ok (CRemovexattr ino name) = c_name name"

lemma valid_fh:
  assumes "(valid::u32) AND setattr_valid_mask = valid"
  shows "\<not> flag_set valid FATTR_FH" "flag_set (valid OR FATTR_FH) FATTR_FH"
    "((valid OR FATTR_FH) AND NOT FATTR_FH) AND setattr_valid_mask = valid"
proof -
  have b: "bit valid n \<Longrightarrow> bit setattr_valid_mask n" for n
    using assms by (metis bit_and_iff)
  have m: "\<not> bit setattr_valid_mask 6" by (simp add: setattr_valid_mask_def)
  have f: "bit FATTR_FH n \<longleftrightarrow> n = 6" for n
  proof -
    have e: "FATTR_FH = 2 ^ 6" by (simp add: FATTR_FH_def)
    have "bit (2 ^ 6 :: u32) n \<longleftrightarrow> possible_bit TYPE(u32) n \<and> n = 6" by (rule bit_exp_iff)
    then show ?thesis unfolding e by auto
  qed
  have "valid AND FATTR_FH = 0"
    by (rule bit_word_eqI) (use b m f in \<open>auto simp: bit_and_iff\<close>)
  then show "\<not> flag_set valid FATTR_FH" by (simp add: flag_set_def)
  have "bit ((valid OR FATTR_FH) AND FATTR_FH) 6" using f [of 6] by (simp add: bit_and_iff bit_or_iff)
  then show "flag_set (valid OR FATTR_FH) FATTR_FH" by (auto simp: flag_set_def)
  show "((valid OR FATTR_FH) AND NOT FATTR_FH) AND setattr_valid_mask = valid"
    by (rule bit_word_eqI) (use b m f in \<open>auto simp: bit_and_iff bit_or_iff bit_not_iff\<close>)
qed

lemma convert_attr_wire:
  assumes "attr_ok (CSetattr ino st valid fi)"
  shows "convert_attr (snd (snd (attr_wire (CSetattr ino st valid fi)))) = Some st"
proof -
  have "(sint (word_of_int (fst t) :: u64), uint (word_of_int (snd t) :: u32)) = t" if "time_ok t" for t
    using that by (cases t) (simp add: time_ok_def sint_off uint_nsec)
  with assms show ?thesis
    by (simp add: convert_attr_def rd_rules sint_off)
qed

lemma attr_roundtrip:
  assumes "wire_conn c" "all_ops ops" "attr_ok ac" "attr_wire ac = (opc, nid, a)"
  shows "ll_decode opc c ops req nid a = Some (req, Invoke (AttrCall ac))"
proof (cases ac)
  case (CSetattr ino st valid fi)
  have mem: "Op_setattr \<in> set ops" using assms(2) by (simp add: all_ops_def)
  have cv: "convert_attr a = Some st"
    using convert_attr_wire [of ino st valid fi] assms(3,4) by (simp add: CSetattr)
  have v: "valid AND setattr_valid_mask = valid" using assms(3) by (simp add: CSetattr)
  show ?thesis
    using assms(3,4) cv valid_fh [OF v] v mem
    by (cases fi) (auto simp: CSetattr ll_decode_def ll_ops_table_def ll_do_setattr_def rd_rules opt_fh_def opt_plain_def plain_fi_def Let_def)
qed (use assms minor_12 [OF assms(1)] in
     \<open>auto simp: ll_decode_def ll_ops_table_def attr_decoders rd_rules opt_fh_def opt_plain_def plain_fi_def
        unat_of_nat flag_set_def FUSE_GETATTR_FH_def wire_conn_def Let_def split: option.splits\<close>)

primrec dir_wire :: "dir_call \<Rightarrow> u32 \<times> fuse_ino \<times> byte list" where
  "dir_wire (COpendir ino fi) = (27, ino, le32 (fi_flags fi) @ le_bytes 4 0)"
| "dir_wire (CReaddir ino sz off fi) =
     (28, ino, le64 (fi_fh fi) @ le_off off @ le_bytes 4 sz @ le_bytes 4 0 @ le_bytes 8 0 @ le_bytes 4 0 @ le_bytes 4 0)"
| "dir_wire (CReaddirplus ino sz off fi) =
     (44, ino, le64 (fi_fh fi) @ le_off off @ le_bytes 4 sz @ le_bytes 4 0 @ le_bytes 8 0 @ le_bytes 4 0 @ le_bytes 4 0)"
| "dir_wire (CReleasedir ino fi) = (29, ino, le64 (fi_fh fi) @ le32 (fi_flags fi) @ le_bytes 4 0 @ le_bytes 8 0)"
| "dir_wire (CFsyncdir ino datasync fi) = (30, ino, le64 (fi_fh fi) @ le_bytes 4 (if datasync then 1 else 0) @ le_bytes 4 0)"

primrec dir_ok :: "dir_call \<Rightarrow> bool" where
  "dir_ok (COpendir ino fi) = (fi = zero_fi\<lparr>fi_flags := fi_flags fi\<rparr>)"
| "dir_ok (CReaddir ino sz off fi) = (plain_fi fi \<and> sz < 2 ^ 32 \<and> off_ok off)"
| "dir_ok (CReaddirplus ino sz off fi) = (plain_fi fi \<and> sz < 2 ^ 32 \<and> off_ok off)"
| "dir_ok (CReleasedir ino fi) = (fi = zero_fi\<lparr>fi_flags := fi_flags fi, fi_fh := fi_fh fi\<rparr>)"
| "dir_ok (CFsyncdir ino datasync fi) = plain_fi fi"

lemma dir_roundtrip:
  assumes "wire_conn c" "all_ops ops" "dir_ok dc" "dir_wire dc = (opc, nid, a)"
  shows "ll_decode opc c ops req nid a = Some (req, Invoke (DirCall dc))"
proof -
  have mem: "Op_opendir \<in> set ops" using assms(2) by (simp add: all_ops_def)
  show ?thesis
    using assms(2-4)
    by (cases dc) (auto simp: ll_decode_def ll_ops_table_def misc_decoders rd_rules plain_fi_def mem
        unat_of_nat sint_off flag_set_def Let_def)
qed

text \<open>The opcodes that create a file carry the umask; WRITE is decoded by \<open>ll_do_write_buf\<close>.\<close>

primrec data_wire :: "u32 \<Rightarrow> data_call \<Rightarrow> u32 \<times> fuse_ino \<times> byte list" where
  "data_wire um (CCreate dir name mode fi) =
     (35, dir, le32 (fi_flags fi) @ le32 mode @ le32 um @ le_bytes 4 0 @ wire_string name)"
| "data_wire um (COpen ino fi) = (14, ino, le32 (fi_flags fi) @ le_bytes 4 0)"
| "data_wire um (CRead ino sz off fi) =
     (15, ino, le64 (fi_fh fi) @ le_off off @ le_bytes 4 sz @ le_bytes 4 0 @ le64 (fi_lock_owner fi) @
        le32 (fi_flags fi) @ le_bytes 4 0)"
| "data_wire um (CWriteBuf ino buf off fi) = (16, ino, [])"
| "data_wire um (CFlush ino fi) = (25, ino, le64 (fi_fh fi) @ le_bytes 4 0 @ le_bytes 4 0 @ le64 (fi_lock_owner fi))"
| "data_wire um (CRelease ino fi) =
     (18, ino, le64 (fi_fh fi) @ le32 (fi_flags fi) @
        le_bytes 4 ((if fi_flush fi then 1 else 0) + (if fi_flock_release fi then 2 else 0)) @ le64 (fi_lock_owner fi))"
| "data_wire um (CFsync ino datasync fi) = (20, ino, le64 (fi_fh fi) @ le_bytes 4 (if datasync then 1 else 0) @ le_bytes 4 0)"
| "data_wire um (CLseek ino off whence fi) = (46, ino, le64 (fi_fh fi) @ le_off off @ le32 whence @ le_bytes 4 0)"
| "data_wire um (CCopyFileRange ino_in off_in fi_in ino_out off_out fi_out len flags) =
     (53, ino_in, le64 (fi_fh fi_in) @ le_off off_in @ le64 ino_out @ le64 (fi_fh fi_out) @ le_off off_out @
        le_bytes 8 len @ le64 (ucast flags))"
| "data_wire um (CFallocate ino mode off len fi) =
     (43, ino, le64 (fi_fh fi) @ le_off off @ le_off len @ le32 mode @ le_bytes 4 0)"

primrec data_ok :: "data_call \<Rightarrow> bool" where
  "data_ok (CCreate dir name mode fi) = (c_name name \<and> fi = zero_fi\<lparr>fi_flags := fi_flags fi\<rparr>)"
| "data_ok (COpen ino fi) = (fi = zero_fi\<lparr>fi_flags := fi_flags fi\<rparr>)"
| "data_ok (CRead ino sz off fi) =
     (sz < 2 ^ 32 \<and> off_ok off \<and>
      fi = zero_fi\<lparr>fi_fh := fi_fh fi, fi_lock_owner := fi_lock_owner fi, fi_flags := fi_flags fi\<rparr>)"
| "data_ok (CWriteBuf ino buf off fi) = False"
| "data_ok (CFlush ino fi) = (fi = zero_fi\<lparr>fi_fh := fi_fh fi, fi_flush := True, fi_lock_owner := fi_lock_owner fi\<rparr>)"
| "data_ok (CRelease ino fi) =
     (fi = zero_fi\<lparr>fi_flags := fi_flags fi, fi_fh := fi_fh fi, fi_flush := fi_flush fi,
             fi_flock_release := fi_flock_release fi, fi_lock_owner := fi_lock_owner fi\<rparr>)"
| "data_ok (CFsync ino datasync fi) = plain_fi fi"
| "data_ok (CLseek ino off whence fi) = (plain_fi fi \<and> off_ok off)"
| "data_ok (CCopyFileRange ino_in off_in fi_in ino_out off_out fi_out len flags) =
     (plain_fi fi_in \<and> plain_fi fi_out \<and> off_ok off_in \<and> off_ok off_out \<and> len < 2 ^ 64)"
| "data_ok (CFallocate ino mode off len fi) = (plain_fi fi \<and> off_ok off \<and> off_ok len)"

primrec data_creates :: "data_call \<Rightarrow> bool" where
  "data_creates (CCreate dir name mode fi) = True"
| "data_creates (COpen ino fi) = False"
| "data_creates (CRead ino sz off fi) = False"
| "data_creates (CWriteBuf ino buf off fi) = False"
| "data_creates (CFlush ino fi) = False"
| "data_creates (CRelease ino fi) = False"
| "data_creates (CFsync ino datasync fi) = False"
| "data_creates (CLseek ino off whence fi) = False"
| "data_creates (CCopyFileRange ino_in off_in fi_in ino_out off_out fi_out len flags) = False"
| "data_creates (CFallocate ino mode off len fi) = False"

lemma ucast_up_down: "ucast (ucast (w::u32) :: u64) = w"
  by (rule bit_word_eqI) (simp add: bit_ucast_iff)

lemma release_roundtrip:
  assumes "wire_conn c" "all_ops ops" "data_ok (CRelease ino fi)" "data_wire um (CRelease ino fi) = (opc, nid, a)"
  shows "ll_decode opc c ops req nid a = Some (req, Invoke (DataCall (CRelease ino fi)))"
proof -
  obtain fl fh fu fr lo where fi: "fi = zero_fi\<lparr>fi_flags := fl, fi_fh := fh, fi_flush := fu,
             fi_flock_release := fr, fi_lock_owner := lo\<rparr>"
    using assms(3) by (metis data_ok.simps(6))
  show ?thesis
    using assms(2,4) minor_12 [OF assms(1)]
    by (cases fu; cases fr) (auto simp: fi ll_decode_def ll_ops_table_def ll_do_release_def rd_rules zero_fi_def Let_def
      flag_set_def FUSE_RELEASE_FLUSH_def FUSE_RELEASE_FLOCK_UNLOCK_def)
qed

lemma data_roundtrip:
  assumes "wire_conn c" "all_ops ops" "data_ok dc" "data_wire um dc = (opc, nid, a)"
  shows "ll_decode opc c ops req nid a =
    Some (if data_creates dc then req\<lparr>r_umask := um\<rparr> else req, Invoke (DataCall dc))"
proof (cases dc)
  case (CRelease ino fi)
  then show ?thesis using release_roundtrip [OF assms(1,2), of ino fi um opc nid a] assms(3,4) by simp
next
  case (COpen ino fi)
  have "Op_open \<in> set ops" using assms(2) by (simp add: all_ops_def)
  then show ?thesis using assms(3,4)
    by (auto simp: COpen ll_decode_def ll_ops_table_def file_decoders rd_rules Let_def)
next
  case (CCreate dir name mode fi)
  have "Op_create \<in> set ops" using assms(2) by (simp add: all_ops_def)
  then show ?thesis using assms(3,4) minor_12 [OF assms(1)]
    by (auto simp: CCreate ll_decode_def ll_ops_table_def file_decoders rd_rules set_umask_def)
next
  case (CRead ino sz off fi)
  have "Op_read \<in> set ops" using assms(2) by (simp add: all_ops_def)
  then show ?thesis using assms(3,4) minor_12 [OF assms(1)]
    by (auto simp: CRead ll_decode_def ll_ops_table_def file_decoders rd_rules rd_owner_def unat_of_nat sint_off)
qed (use assms minor_12 [OF assms(1)] in
     \<open>auto simp: ll_decode_def ll_ops_table_def file_decoders rd_rules plain_fi_def unat_of_nat sint_off flag_set_def
        ucast_up_down Let_def\<close>)

text \<open>\<open>struct fuse_file_lock\<close> and the lock structure around it; \<open>lf\<close> are the lock flags.\<close>

definition lock_stop :: "flock \<Rightarrow> int" where
  "lock_stop fl = (if l_len fl = 0 then 2 ^ 63 - 1 else l_start fl + l_len fl - 1)"

definition lk_wire :: "fuse_file_info \<Rightarrow> int \<Rightarrow> int \<Rightarrow> nat \<Rightarrow> int \<Rightarrow> nat \<Rightarrow> byte list" where
  "lk_wire fi start stop t pid lf =
     le64 (fi_fh fi) @ le64 (fi_lock_owner fi) @ le_off start @ le_off stop @ le_bytes 4 t @
     le32 (word_of_int pid) @ le_bytes 4 lf @ le_bytes 4 0"

definition flock_ok :: "flock \<Rightarrow> bool" where
  "flock_ok fl \<longleftrightarrow> l_whence fl = 0 \<and> off_ok (l_start fl) \<and> off_ok (l_len fl) \<and>
     - (2 ^ 31) \<le> l_pid fl \<and> l_pid fl < 2 ^ 31 \<and>
     (l_len fl \<noteq> 0 \<longrightarrow> off_ok (l_start fl + l_len fl - 1) \<and> l_start fl + l_len fl \<noteq> 2 ^ 63)"

definition owner_fi :: "fuse_file_info \<Rightarrow> bool" where
  "owner_fi fi \<longleftrightarrow> fi = zero_fi\<lparr>fi_fh := fi_fh fi, fi_lock_owner := fi_lock_owner fi\<rparr>"

primrec misc_wire :: "misc_call \<Rightarrow> u32 \<times> fuse_ino \<times> byte list" where
  "misc_wire (CGetlk ino fi fl) =
     (31, ino, lk_wire fi (l_start fl) (lock_stop fl) (lock_type_code (l_type fl)) (l_pid fl) 0)"
| "misc_wire (CSetlk ino fi fl sleep) =
     (if sleep then 33 else 32, ino, lk_wire fi (l_start fl) (lock_stop fl) (lock_type_code (l_type fl)) (l_pid fl) 0)"
| "misc_wire (CFlock ino fi lop) =
     (if lop AND 4 = 0 then 33 else 32, ino,
      lk_wire fi 0 0 (if lop = 1 \<or> lop = 5 then 0 else if lop = 2 \<or> lop = 6 then 1 else 2) 0 1)"
| "misc_wire (CBmap ino bs idx) = (37, ino, le64 idx @ le_bytes 4 bs @ le_bytes 4 0)"
| "misc_wire (CIoctl ino cmd arg fi flags in_buf out_bufsz) =
     (39, ino, le64 (fi_fh fi) @ le32 flags @ le32 cmd @ le64 arg @ le_bytes 4 (length in_buf) @ le_bytes 4 out_bufsz @ in_buf)"
| "misc_wire (CPoll ino fi ph) =
     (40, ino, le64 (fi_fh fi) @ le_bytes 8 (case ph of None \<Rightarrow> 0 | Some k \<Rightarrow> k) @
        le_bytes 4 (if ph = None then 0 else 1) @ le32 (fi_poll_events fi))"

primrec misc_ok :: "fuse_conn_info \<Rightarrow> misc_call \<Rightarrow> bool" where
  "misc_ok c (CGetlk ino fi fl) = (owner_fi fi \<and> flock_ok fl)"
| "misc_ok c (CSetlk ino fi fl sleep) = (owner_fi fi \<and> flock_ok fl)"
| "misc_ok c (CFlock ino fi lop) = (owner_fi fi \<and> lop \<in> {1, 2, 8, 5, 6, 12})"
| "misc_ok c (CBmap ino bs idx) = (bs < 2 ^ 32)"
| "misc_ok c (CIoctl ino cmd arg fi flags in_buf out_bufsz) =
     (plain_fi fi \<and> length in_buf < 2 ^ 32 \<and> out_bufsz < 2 ^ 32 \<and>
      (flag_set flags FUSE_IOCTL_DIR \<longrightarrow> want_ext c AND FUSE_CAP_IOCTL_DIR \<noteq> 0))"
| "misc_ok c (CPoll ino fi ph) =
     (fi = zero_fi\<lparr>fi_fh := fi_fh fi, fi_poll_events := fi_poll_events fi\<rparr> \<and>
      (case ph of None \<Rightarrow> True | Some k \<Rightarrow> k < 2 ^ 64))"

lemma lk_wire_reads:
  "rd64 0 (lk_wire fi start stop t pid lf) = Some (fi_fh fi)"
  "rd64 8 (lk_wire fi start stop t pid lf) = Some (fi_lock_owner fi)"
  "rd64 16 (lk_wire fi start stop t pid lf) = Some (word_of_int start)"
  "rd64 24 (lk_wire fi start stop t pid lf) = Some (word_of_int stop)"
  "rd32 32 (lk_wire fi start stop t pid lf) = Some (of_nat t)"
  "rd32 36 (lk_wire fi start stop t pid lf) = Some (word_of_int pid)"
  "rd32 40 (lk_wire fi start stop t pid lf) = Some (of_nat lf)"
  by (simp_all add: lk_wire_def rd_rules)

lemma lock_type_of_code: "lock_type_of (of_nat (lock_type_code t)) = Some t"
  by (cases t) (simp_all add: lock_type_of_def)

lemma convert_lock_wire:
  assumes "flock_ok fl"
  shows "convert_fuse_file_lock 16 (lk_wire fi (l_start fl) (lock_stop fl) (lock_type_code (l_type fl)) (l_pid fl) lf) = Some fl"
proof -
  let ?stop = "word_of_int (lock_stop fl) :: u64"
  have "off_ok (lock_stop fl)" using assms by (auto simp: flock_ok_def lock_stop_def off_ok_def)
  then have "?stop = 0x7fffffffffffffff \<longleftrightarrow> lock_stop fl = 2 ^ 63 - 1"
    using sint_off [of "lock_stop fl"] sint_off [of "2 ^ 63 - 1"] by (auto simp: off_ok_def)
  moreover have "lock_stop fl = 2 ^ 63 - 1 \<longleftrightarrow> l_len fl = 0"
    using assms by (auto simp: flock_ok_def lock_stop_def)
  moreover have "sint (?stop - word_of_int (l_start fl) + 1) = l_len fl" if "l_len fl \<noteq> 0"
  proof -
    have "?stop - word_of_int (l_start fl) + 1 = word_of_int (l_len fl)"
      using that by (simp add: lock_stop_def)
    then show ?thesis using assms by (simp add: flock_ok_def sint_off)
  qed
  ultimately show ?thesis
    using assms by (auto simp: convert_fuse_file_lock_def lk_wire_reads lock_type_of_code flock_ok_def sint_off sint_pid)
qed

lemma lk_fi_wire:
  assumes "owner_fi fi"
  shows "lk_fi (lk_wire fi start stop t pid lf) = Some fi"
proof -
  have "zero_fi\<lparr>fi_fh := fi_fh fi, fi_lock_owner := fi_lock_owner fi\<rparr> = fi"
    using assms unfolding owner_fi_def by simp
  then show ?thesis by (simp add: lk_fi_def lk_wire_reads)
qed

lemma setlk_flock_wire:
  assumes "owner_fi fi" "all_ops ops"
  shows "do_setlk_common ops req nid (lk_wire fi start stop t pid 1) sleep =
    Some (req, Invoke (MiscCall (CFlock nid fi (flock_op (of_nat t) sleep))))"
  using assms by (simp add: do_setlk_common_def lk_fi_wire lk_wire_reads flag_set_def FUSE_LK_FLOCK_def)

lemma setlk_posix_wire:
  assumes "owner_fi fi" "all_ops ops" "flock_ok fl"
  shows "do_setlk_common ops req nid
      (lk_wire fi (l_start fl) (lock_stop fl) (lock_type_code (l_type fl)) (l_pid fl) 0) sleep =
    Some (req, Invoke (MiscCall (CSetlk nid fi fl sleep)))"
  using assms by (simp add: do_setlk_common_def lk_fi_wire lk_wire_reads flag_set_def convert_lock_wire)

lemma ll_decode_locks:
  "ll_decode 31 = ll_do_getlk" "ll_decode 32 = ll_do_setlk" "ll_decode 33 = ll_do_setlkw"
  by (intro ext, simp add: ll_decode_def ll_ops_table_def)+

lemma lock_roundtrip:
  assumes "all_ops ops" "misc_ok c mc" "misc_wire mc = (opc, nid, a)" "31 \<le> opc" "opc \<le> 33"
  shows "ll_decode opc c ops req nid a = Some (req, Invoke (MiscCall mc))"
proof (cases mc)
  case (CGetlk ino fi fl)
  then show ?thesis using assms(1-3)
    by (clarsimp simp: ll_decode_locks ll_do_getlk_def lk_fi_wire convert_lock_wire)
next
  case (CSetlk ino fi fl sleep)
  then show ?thesis using assms(1-3)
    by (cases sleep) (clarsimp simp: ll_decode_locks ll_do_setlk_def ll_do_setlkw_def setlk_posix_wire)+
next
  case (CFlock ino fi lop)
  then have "owner_fi fi" "lop \<in> {1, 2, 8, 5, 6, 12}" using assms(2) by simp_all
  then show ?thesis using assms(1,3) unfolding CFlock
    by (elim insertE emptyE; hypsubst)
       (clarsimp simp: ll_decode_locks ll_do_setlk_def ll_do_setlkw_def setlk_flock_wire [simplified] flock_op_def Let_def)+
qed (use assms(3-5) in auto)

lemma misc_roundtrip:
  assumes "wire_conn c" "all_ops ops" "misc_ok c mc" "misc_wire mc = (opc, nid, a)"
  shows "ll_decode opc c ops req nid a = Some (req, Invoke (MiscCall mc))"
proof (cases "31 \<le> opc \<and> opc \<le> 33")
  case True
  then show ?thesis using lock_roundtrip assms(2-4) by blast
next
  case False
  have mem: "Op_poll \<in> set ops" using assms(2) by (simp add: all_ops_def)
  note d = ll_decode_def ll_ops_table_def
  show ?thesis
  proof (cases mc)
    case (CBmap ino bs idx)
    then show ?thesis
      using assms(2-4) by (clarsimp simp: d ll_do_bmap_def rd_rules unat_of_nat)
  next
    case (CIoctl ino cmd arg fi flags in_buf out_bufsz)
    have "(of_nat (length in_buf) :: u32) \<noteq> 0" if "in_buf \<noteq> []"
      using assms(3) that by (simp add: CIoctl word_unat_eq_iff unat_of_nat)
    then show ?thesis
      using assms(2-4)
      by (cases "in_buf = []") (auto simp: CIoctl d ll_do_ioctl_def rd_rules unat_of_nat plain_fi_def)
  next
    case (CPoll ino fi ph)
    then obtain fh ev where fi: "fi = zero_fi\<lparr>fi_fh := fh, fi_poll_events := ev\<rparr>"
      using assms(3) by (metis misc_ok.simps(6))
    show ?thesis
      using assms(2-4) mem
      by (cases ph) (auto simp: CPoll fi d ll_do_poll_def rd_rules unat_of_nat flag_set_def FUSE_POLL_SCHEDULE_NOTIFY_def Let_def zero_fi_def)
  qed (use assms(4) False in \<open>auto split: if_splits\<close>)
qed

section \<open>All calls\<close>

primrec wire :: "u32 \<Rightarrow> fuse_call \<Rightarrow> u32 \<times> fuse_ino \<times> byte list" where
  "wire um (NameCall nc) = name_wire um nc"
| "wire um (AttrCall ac) = attr_wire ac"
| "wire um (DirCall dc) = dir_wire dc"
| "wire um (DataCall dc) = data_wire um dc"
| "wire um (MiscCall mc) = misc_wire mc"

primrec wire_ok :: "fuse_conn_info \<Rightarrow> fuse_call \<Rightarrow> bool" where
  "wire_ok c (NameCall nc) = name_ok nc"
| "wire_ok c (AttrCall ac) = attr_ok ac"
| "wire_ok c (DirCall dc) = dir_ok dc"
| "wire_ok c (DataCall dc) = data_ok dc"
| "wire_ok c (MiscCall mc) = misc_ok c mc"

primrec has_umask :: "fuse_call \<Rightarrow> bool" where
  "has_umask (NameCall nc) = creates nc"
| "has_umask (AttrCall ac) = False"
| "has_umask (DirCall dc) = False"
| "has_umask (DataCall dc) = data_creates dc"
| "has_umask (MiscCall mc) = False"

text \<open>
  C8: The decoders read the kernel's requests correctly: for every operation but WRITE, the
  structure of \<open>fuse_kernel.h\<close> filled with the arguments of a call, decoded by the function the
  table has for the opcode, gives exactly that call on that node, and the umask goes into the
  request where one is sent. The protocol is 7.12 or later, without SETXATTR\_EXT, and the
  arguments fit their fields (names without a 0 byte, offsets of 64 bits, and so on).
\<close>

theorem decode_reads_wire:
  assumes "wire_conn c" and "all_ops ops" and "wire_ok c call" and "wire um call = (opc, nid, a)"
  shows "ll_decode opc c ops req nid a = Some (if has_umask call then req\<lparr>r_umask := um\<rparr> else req, Invoke call)"
proof (cases call)
  case (NameCall nc)
  then show ?thesis using assms name_roundtrip [of c ops nc um opc nid a req] by simp
next
  case (AttrCall ac)
  then show ?thesis using assms attr_roundtrip [of c ops ac opc nid a req] by simp
next
  case (DirCall dc)
  then show ?thesis using assms dir_roundtrip [of c ops dc opc nid a req] by simp
next
  case (DataCall dc)
  then show ?thesis using assms data_roundtrip [of c ops dc um opc nid a req] by simp
next
  case (MiscCall mc)
  then show ?thesis using assms misc_roundtrip [of c ops mc opc nid a req] by simp
qed

definition every_op :: ll_ops where
  "every_op = [Op_init, Op_destroy, Op_lookup, Op_forget, Op_getattr, Op_setattr, Op_readlink, Op_mknod,
     Op_mkdir, Op_unlink, Op_rmdir, Op_symlink, Op_rename, Op_link, Op_open, Op_read, Op_write,
     Op_flush, Op_release, Op_fsync, Op_opendir, Op_readdir, Op_releasedir, Op_fsyncdir, Op_statfs,
     Op_setxattr, Op_getxattr, Op_listxattr, Op_removexattr, Op_access, Op_create, Op_getlk, Op_setlk,
     Op_bmap, Op_ioctl, Op_poll, Op_write_buf, Op_forget_multi, Op_flock, Op_fallocate,
     Op_readdirplus, Op_copy_file_range, Op_lseek, Op_tmpfile, Op_statx]"

theorem decode_reads_wire_witness:
  "ll_decode 45 demo_conn every_op (request_of 7 1000 1000 4242) 1
     (le64 5 @ le32 2 @ le_bytes 4 0 @ wire_string ''a'' @ wire_string ''b'') =
   Some (request_of 7 1000 1000 4242, Invoke (NameCall (CRename 1 ''a'' 5 ''b'' 2)))"
proof -
  have "x \<in> set every_op" for x by (cases x) (simp_all add: every_op_def)
  then have all: "all_ops every_op" by (simp add: all_ops_def)
  have c: "wire_conn demo_conn" by (simp add: wire_conn_def demo_conn_def)
  have ok: "wire_ok demo_conn (NameCall (CRename 1 ''a'' 5 ''b'' 2))" by (simp add: c_name_def)
  have w: "wire 0 (NameCall (CRename 1 ''a'' 5 ''b'' 2)) =
      (45, 1, le64 5 @ le32 2 @ le_bytes 4 0 @ wire_string ''a'' @ wire_string ''b'')" by simp
  show ?thesis
    using decode_reads_wire [OF c all ok w, of "request_of 7 1000 1000 4242"] by simp
qed

end
