(* ===== verification/Ll_Negotiation.thy ===== *)
theory Ll_Negotiation
  imports Ll_Properties
begin

text \<open>
  The connection set-up: what the answer to INIT enables and the limits it fixes.
\<close>

section \<open>Flag tables\<close>

lemma bit_set_if: "bit (set_if b k w) n \<longleftrightarrow> bit w n \<or> b \<and> k = n \<and> n < 64"
  by (auto simp: set_if_def bit_set_bit_iff)

lemma bit_capable_fold:
  "bit (fold (\<lambda>(_, f, c). set_if (bit inflags f) c) tbl w) n \<longleftrightarrow>
     bit w n \<or> (\<exists>(_, f, c)\<in>set tbl. bit inflags f \<and> c = n \<and> n < 64)"
  by (induction tbl arbitrary: w) (auto simp: bit_set_if)

lemma bit_wanted_fold:
  "bit (fold (\<lambda>(_, f, k). set_if (bit we k) f) tbl w) n \<longleftrightarrow>
     bit w n \<or> (\<exists>(_, f, k)\<in>set tbl. bit we k \<and> f = n \<and> n < 64)"
  by (induction tbl arbitrary: w) (auto simp: bit_set_if)

text \<open>The two tables agree: a capability the answer asks for comes from the same flag of the offer.\<close>

lemma tables_agree:
  "(nm, f, k) \<in> set wanted_table \<Longrightarrow> k \<notin> {7, 8, 9, 11, 26} \<and> (\<forall>(_, f', k')\<in>set capable_table. k' = k \<longrightarrow> f' = f)"
  unfolding wanted_table_def capable_table_def by auto

lemma uring_flag: "(nm, f, 31) \<in> set capable_table \<Longrightarrow> f = 41"
  unfolding capable_table_def by auto

lemma init_capable_source:
  assumes "bit (init_capable minor inflags s r) k" "k \<notin> {7, 8, 9, 11, 26}"
  shows "\<exists>nm f. (nm, f, k) \<in> set capable_table \<and> bit inflags f"
  using assms by (auto simp: init_capable_def Let_def bit_set_if bit_capable_fold split: if_splits)

lemma outflags_offered:
  assumes valid: "want_flags_valid (capable_ext (se_conn se)) (want_ext (se_conn se))"
    and cap: "capable_ext (se_conn se) = init_capable minor inflags s r"
    and b: "bit (init_outflags arg inflags se) n"
  shows "n = 5 \<or> n = 22 \<and> bit (ii_flags arg) 22 \<or> bit inflags n"
proof -
  have w: "bit (capable_ext (se_conn se)) k" if "bit (want_ext (se_conn se)) k" for k
  proof -
    have "\<not> bit (want_ext (se_conn se) AND NOT (capable_ext (se_conn se))) k"
      using valid by (simp add: want_flags_valid_def)
    moreover have "k < 64" using that by (rule bit_imp_le_length [where ?'a = 64, simplified])
    ultimately show ?thesis using that by (simp add: bit_and_iff bit_not_iff)
  qed
  from b consider "n = 5" | "n = 22 \<and> bit (ii_flags arg) 22" | "bit inflags n"
    | (table) nm k where "(nm, n, k) \<in> set wanted_table" "bit (want_ext (se_conn se)) k"
    | (uring) "n = 41" "bit (want_ext (se_conn se)) 31"
    by (auto simp: init_outflags_def Let_def bit_set_if bit_set_bit_iff bit_wanted_fold)
  then show ?thesis
  proof cases
    case table
    note ag = tables_agree [OF table(1)]
    from init_capable_source [of minor inflags s r k] w [OF table(2)] cap ag
    obtain nm' f where "(nm', f, k) \<in> set capable_table" "bit inflags f" by auto
    with ag show ?thesis by auto
  next
    case uring
    from init_capable_source [of minor inflags s r 31] w [OF uring(2)] cap
    obtain nm' f where "(nm', f, 31) \<in> set capable_table" "bit inflags f" by auto
    with uring_flag uring(1) show ?thesis by auto
  qed auto
qed

lemma bit_inflags:
  assumes "bit (init_inflags arg) n"
  shows "n < 32 \<and> bit (ii_flags arg) n \<or> n \<ge> 32 \<and> bit (ii_flags arg) 30 \<and> bit (ii_flags2 arg) (n - 32)"
proof -
  have l: "bit (ii_flags arg) n \<Longrightarrow> n < 32"
    by (rule bit_imp_le_length [where ?'a = 32, simplified])
  show ?thesis
    using assms l
    by (auto simp: init_inflags_def Let_def bit_or_iff bit_push_bit_iff bit_ucast_iff split: if_splits)
qed

section \<open>What the set-up keeps\<close>

lemma set_feature_frame:
  "capable_ext (se_conn (snd (set_feature_flag fl se))) = capable_ext (se_conn se)"
  "proto_minor (se_conn (snd (set_feature_flag fl se))) = proto_minor (se_conn se)"
  "se_bufsize (snd (set_feature_flag fl se)) = se_bufsize se"
  by (simp_all add: set_feature_flag_def Let_def)

lemma features_frame:
  "capable_ext (se_conn (fold (\<lambda>n s. snd (set_feature_flag (2 ^ n) s)) ns se)) = capable_ext (se_conn se)"
  "proto_minor (se_conn (fold (\<lambda>n s. snd (set_feature_flag (2 ^ n) s)) ns se)) = proto_minor (se_conn se)"
  "se_bufsize (fold (\<lambda>n s. snd (set_feature_flag (2 ^ n) s)) ns se) = se_bufsize se"
  by (induction ns arbitrary: se) (simp_all add: set_feature_frame)

text \<open>The file system leaves the fields that are read-only for it.\<close>

definition fs_keeps :: "fs_init \<Rightarrow> bool" where
  "fs_keeps fsinit \<longleftrightarrow> (\<forall>c w we. capable_ext (fst (fsinit (c, w, we))) = capable_ext c \<and>
     proto_minor (fst (fsinit (c, w, we))) = proto_minor c)"

lemma offer_frame:
  "capable_ext (se_conn (init_offer arg se)) =
     init_capable (ii_minor arg) (init_inflags arg) (se_splice_send se) (se_splice_receive se)"
  "proto_minor (se_conn (init_offer arg se)) = proto_minor (se_conn se)"
  "se_bufsize (init_offer arg se) = se_bufsize se"
  by (simp_all add: init_offer_def Let_def features_frame)

lemma convert_frame:
  "capable_ext (se_conn (snd (convert_to_conn_want_ext se))) = capable_ext (se_conn se)"
  "proto_minor (se_conn (snd (convert_to_conn_want_ext se))) = proto_minor (se_conn se)"
  "se_bufsize (snd (convert_to_conn_want_ext se)) = se_bufsize se"
  by (simp_all add: convert_to_conn_want_ext_def Let_def)

lemma call_frame:
  assumes "fs_keeps fsinit"
  shows "capable_ext (se_conn (init_call fsinit se)) = capable_ext (se_conn se)"
    "proto_minor (se_conn (init_call fsinit se)) = proto_minor (se_conn se)"
    "se_bufsize (init_call fsinit se) = se_bufsize se"
proof -
  obtain c w we where f: "fsinit ((se_conn se)\<lparr>capable := lower_32_bits (capable_ext (se_conn se))\<rparr>,
      se_conn_want se, se_conn_want_ext se) = (c, w, we)" by (metis prod.exhaust)
  have "capable_ext c = capable_ext (se_conn se)" "proto_minor c = proto_minor (se_conn se)"
    using assms [unfolded fs_keeps_def, rule_format, of "(se_conn se)\<lparr>capable := lower_32_bits (capable_ext (se_conn se))\<rparr>"
        "se_conn_want se" "se_conn_want_ext se"] f by simp_all
  then show "capable_ext (se_conn (init_call fsinit se)) = capable_ext (se_conn se)"
    "proto_minor (se_conn (init_call fsinit se)) = proto_minor (se_conn se)"
    "se_bufsize (init_call fsinit se) = se_bufsize se"
    by (simp_all add: init_call_def f convert_frame)
qed

lemma limits_frame:
  "capable_ext (se_conn (init_limits inflags se)) = capable_ext (se_conn se)"
  "want_ext (se_conn (init_limits inflags se)) = want_ext (se_conn se)"
  "proto_minor (se_conn (init_limits inflags se)) = proto_minor (se_conn se)"
  by (simp_all add: init_limits_def Let_def)

lemma unat_up: "unat (ucast (w::u32) :: u64) = unat w"
  using unsigned_less [of w, where ?'a = nat] by (simp add: unsigned_ucast_eq take_bit_nat_eq_self)

lemma bufsize_bounds:
  assumes "se_bufsize se \<le> 0xffffffff"
  shows "8192 \<le> init_bufsize inflags se" "init_bufsize inflags se \<le> 0xffffffff"
  using assms by (auto simp: init_bufsize_def Let_def not_less)

lemma limits_bounds:
  assumes "se_bufsize se \<le> 0xffffffff"
  shows "max_write (se_conn (init_limits inflags se)) \<le> max_write (se_conn se)"
    "unat (se_bufsize (init_limits inflags se)) = unat (max_write (se_conn (init_limits inflags se))) + 4096"
proof -
  let ?b = "init_bufsize inflags se" and ?w = "max_write (se_conn se)"
  let ?m = "min (ucast ?w) (?b - 0x1000) :: u64"
  have b: "8192 \<le> unat ?b" "unat ?b \<le> 0xffffffff"
    using bufsize_bounds [OF assms, of inflags] by (simp_all add: word_le_nat_alt)
  then have d: "unat (?b - 0x1000) = unat ?b - 0x1000"
    by (subst unat_sub) (auto simp: word_le_nat_alt)
  have w: "unat (ucast ?w :: u64) = unat ?w"
    by (rule unat_up)
  have m: "unat ?m = min (unat ?w) (unat ?b - 0x1000)"
    using w d by (auto simp: min_def word_le_nat_alt)
  then have m32: "unat (ucast ?m :: u32) = unat ?m"
    using b by (simp add: unsigned_ucast_eq take_bit_nat_eq_self)
  show "max_write (se_conn (init_limits inflags se)) \<le> ?w"
    using m m32 by (simp add: init_limits_def Let_def word_le_nat_alt)
  have "unat ((ucast ?m :: u32) + 0x1000) = unat ?m + 0x1000"
    using m m32 b by (subst unat_add_lem [THEN iffD1]) auto
  then show "unat (se_bufsize (init_limits inflags se)) = unat (max_write (se_conn (init_limits inflags se))) + 4096"
    using m32 by (simp add: init_limits_def Let_def unat_up)
qed

lemma background_ordered:
  "proto_minor c \<ge> 13 \<Longrightarrow> unat (congestion_threshold (init_background c)) \<le> unat (max_background (init_background c)) \<and>
     unat (max_background (init_background c)) < 65536"
proof -
  assume m: "proto_minor c \<ge> 13"
  define mb where "mb = (if max_background c \<ge> 0x10000 then 0xffff else max_background c)"
  have mb: "unat mb < 65536"
    by (auto simp: mb_def word_le_nat_alt not_le split: if_splits)
  have "unat (mb * 3 div 4) = unat mb * 3 div 4"
    using mb by (simp add: unat_div unat_mult_lem [THEN iffD1])
  then have "unat (mb * 3 div 4) \<le> unat mb" by simp
  moreover have "init_background c = c\<lparr>max_background := mb, congestion_threshold :=
      (if (if congestion_threshold c > mb then mb else congestion_threshold c) = 0 then mb * 3 div 4
       else if congestion_threshold c > mb then mb else congestion_threshold c)\<rparr>"
    using m by (simp add: init_background_def mb_def Let_def)
  ultimately show ?thesis
    using mb by (simp add: word_le_nat_alt not_less)
qed

section \<open>The answer to INIT\<close>

definition reply_size :: "u32 \<Rightarrow> nat" where
  "reply_size minor = (if minor < 5 then 8 else if minor < 23 then 24 else 64)"

text \<open>The session after the file system's \<open>init\<close>, and whether the set-up goes on from there.\<close>

definition after_init :: "fs_init \<Rightarrow> init_in \<Rightarrow> ll_session \<Rightarrow> ll_session" where
  "after_init fsinit arg se =
     init_call fsinit (init_offer arg (se\<lparr>se_conn := (se_conn se)\<lparr>proto_major := ii_major arg,
       proto_minor := ii_minor arg, capable_ext := 0, want_ext := 0\<rparr>\<rparr>))"

definition init_accepted :: "ll_session \<Rightarrow> bool" where
  "init_accepted se \<longleftrightarrow> (\<forall>k. bit (want_ext (se_conn se)) k \<longrightarrow> bit (capable_ext (se_conn se)) k) \<and>
     max_read (se_conn se) = se_max_read_mo se"

lemma want_flags_valid_bits: "want_flags_valid c w \<longleftrightarrow> (\<forall>k. bit w k \<longrightarrow> bit c k)"
proof -
  have "w AND NOT c = 0 \<longleftrightarrow> (\<forall>k<64. bit w k \<longrightarrow> bit c k)"
  proof
    assume "w AND NOT c = 0"
    then have "\<not> bit (w AND NOT c) k" for k by simp
    then show "\<forall>k<64. bit w k \<longrightarrow> bit c k" by (simp add: bit_and_iff bit_not_iff)
  qed (auto intro!: bit_word_eqI simp: bit_and_iff bit_not_iff)
  moreover have "k < 64" if "bit w k" for k
    using that by (rule bit_imp_le_length [where ?'a = 64, simplified])
  ultimately show ?thesis by (auto simp: want_flags_valid_def)
qed

lemma outflags_wanted:
  assumes "(nm, f, k) \<in> set wanted_table" "bit (want_ext (se_conn se)) k"
  shows "bit (init_outflags arg inflags se) f"
proof -
  have "f < 64" using assms(1) by (auto simp: wanted_table_def)
  then show ?thesis using assms
    by (auto simp: init_outflags_def Let_def bit_set_if bit_wanted_fold)
qed

lemma do_init_cases:
  assumes "ii_major arg = 7"
  shows "do_init known fsinit u arg se =
    (let se1 = after_init fsinit arg se; fl = init_inflags arg; se2 = init_limits fl se1
     in if init_accepted se1
        then send_reply known u 0 (take (reply_size (ii_minor arg)) (init_out_bytes (init_outarg arg fl se2)))
               (se2\<lparr>se_conn := init_background (se_conn se2)\<rparr>)
        else fail_init known u se1)"
proof -
  have acc: "init_accepted s \<longleftrightarrow> want_flags_valid (capable_ext (se_conn s)) (want_ext (se_conn s)) \<and>
      max_read (se_conn s) = se_max_read_mo s" for s
    by (simp add: init_accepted_def want_flags_valid_bits)
  show ?thesis
    unfolding do_init_def Let_def acc after_init_def [symmetric] reply_size_def using assms by simp
qed

text \<open>
  C32: An INIT of protocol 7 is refused with EPROTO, which ends the session, exactly when the
  file system wants a capability the kernel does not have or another read size than the mount
  has. Otherwise the answer asks for every capability of the table that is wanted, and enables
  only what the kernel offered: apart from BIG\_WRITES (bit 5) every flag of the answer is set in
  the request, the upper flags only with INIT\_EXT (bit 30). The receive buffer then holds
  exactly a write of the announced size with its header, and from 7.13 on the congestion
  threshold is at most the background limit. The file system leaves the fields that are
  read-only for it, and the buffer size of the session is below 4 GiB.
\<close>

theorem init_negotiates:
  assumes "ii_major arg = 7" and "fs_keeps fsinit" and "se_bufsize se \<le> 0xffffffff"
  shows "(\<not> init_accepted (after_init fsinit arg se) \<longrightarrow>
      do_init known fsinit u arg se = fail_init known u (after_init fsinit arg se)) \<and>
    (init_accepted (after_init fsinit arg se) \<longrightarrow> (\<exists>se3 out.
      do_init known fsinit u arg se = send_reply known u 0 (take (reply_size (ii_minor arg)) (init_out_bytes out)) se3 \<and>
      (\<forall>(nm, f, k)\<in>set wanted_table. f < 32 \<longrightarrow> bit (want_ext (se_conn (after_init fsinit arg se))) k \<longrightarrow> bit (io_flags out) f) \<and>
      (\<forall>n<32. bit (io_flags out) n \<longrightarrow> n = 5 \<or> bit (ii_flags arg) n) \<and>
      (\<forall>n<32. bit (io_flags2 out) n \<longrightarrow> bit (ii_flags arg) 30 \<and> bit (ii_flags2 arg) n) \<and>
      unat (se_bufsize se3) = unat (io_max_write out) + 4096 \<and>
      (ii_minor arg \<ge> 13 \<longrightarrow> io_congestion_threshold out \<le> io_max_background out)))"
proof (intro conjI impI)
  assume "\<not> init_accepted (after_init fsinit arg se)"
  then show "do_init known fsinit u arg se = fail_init known u (after_init fsinit arg se)"
    by (simp add: do_init_cases [OF assms(1)] Let_def)
next
  assume ok: "init_accepted (after_init fsinit arg se)"
  define fl where "fl = init_inflags arg"
  define se1 where "se1 = after_init fsinit arg se"
  define se2 where "se2 = init_limits fl se1"
  define out where "out = init_outarg arg fl se2"
  define se3 where "se3 = se2\<lparr>se_conn := init_background (se_conn se2)\<rparr>"
  let ?of = "init_outflags arg fl se2"
  have do: "do_init known fsinit u arg se = send_reply known u 0 (take (reply_size (ii_minor arg)) (init_out_bytes out)) se3"
    using ok by (simp add: do_init_cases [OF assms(1)] Let_def out_def se3_def se2_def se1_def fl_def)
  have want: "want_ext (se_conn se2) = want_ext (se_conn se1)"
    by (simp add: se2_def limits_frame)
  have cap: "capable_ext (se_conn se2) = init_capable (ii_minor arg) fl (se_splice_send se) (se_splice_receive se)"
    and minor: "proto_minor (se_conn se2) = ii_minor arg"
    by (simp_all add: se2_def limits_frame se1_def after_init_def call_frame [OF assms(2)] offer_frame fl_def)
  have valid: "want_flags_valid (capable_ext (se_conn se2)) (want_ext (se_conn se2))"
    using ok by (simp add: se2_def limits_frame want_flags_valid_bits init_accepted_def se1_def)
  have of: "n = 5 \<or> n < 32 \<and> bit (ii_flags arg) n \<or> n \<ge> 32 \<and> bit (ii_flags arg) 30 \<and> bit (ii_flags2 arg) (n - 32)"
    if "bit ?of n" for n
    using outflags_offered [OF valid cap that] bit_inflags [of arg n] by (auto simp: fl_def)
  have flags: "io_flags out = ucast ?of" by (simp add: out_def init_outarg_def Let_def)
  have f0: "\<forall>(nm, f, k)\<in>set wanted_table. f < 32 \<longrightarrow> bit (want_ext (se_conn se1)) k \<longrightarrow> bit (io_flags out) f"
    using outflags_wanted [of _ _ _ se2 arg fl] by (auto simp: flags want bit_ucast_iff)
  have f1: "\<forall>n<32. bit (io_flags out) n \<longrightarrow> n = 5 \<or> bit (ii_flags arg) n"
    by (auto simp: flags bit_ucast_iff dest: of)
  have f2: "\<forall>n<32. bit (io_flags2 out) n \<longrightarrow> bit (ii_flags arg) 30 \<and> bit (ii_flags2 arg) n"
    using of [of "_ + 32"] by (auto simp: out_def init_outarg_def Let_def bit_ucast_iff bit_drop_bit_eq add.commute split: if_splits)
  have "se_bufsize se1 \<le> 0xffffffff"
    using assms(3) by (simp add: se1_def after_init_def call_frame [OF assms(2)] offer_frame)
  then have b: "unat (se_bufsize se3) = unat (io_max_write out) + 4096"
    using limits_bounds(2) [of se1 fl] by (simp add: se3_def out_def init_outarg_def Let_def se2_def)
  have c: "io_congestion_threshold out \<le> io_max_background out" if "ii_minor arg \<ge> 13"
    using background_ordered [of "se_conn se2"] that minor
    by (simp add: out_def init_outarg_def Let_def word_le_nat_alt unsigned_ucast_eq take_bit_nat_eq_self)
  show "\<exists>se3 out.
      do_init known fsinit u arg se = send_reply known u 0 (take (reply_size (ii_minor arg)) (init_out_bytes out)) se3 \<and>
      (\<forall>(nm, f, k)\<in>set wanted_table. f < 32 \<longrightarrow> bit (want_ext (se_conn (after_init fsinit arg se))) k \<longrightarrow> bit (io_flags out) f) \<and>
      (\<forall>n<32. bit (io_flags out) n \<longrightarrow> n = 5 \<or> bit (ii_flags arg) n) \<and>
      (\<forall>n<32. bit (io_flags2 out) n \<longrightarrow> bit (ii_flags arg) 30 \<and> bit (ii_flags2 arg) n) \<and>
      unat (se_bufsize se3) = unat (io_max_write out) + 4096 \<and>
      (ii_minor arg \<ge> 13 \<longrightarrow> io_congestion_threshold out \<le> io_max_background out)"
    using do f0 f1 f2 b c unfolding se1_def by blast
qed

definition demo_init :: init_in where
  "demo_init = \<lparr>ii_major = 7, ii_minor = 31, ii_max_readahead = 131072, ii_flags = 0x3ffffb, ii_flags2 = 0\<rparr>"

theorem init_negotiates_witness:
  "\<exists>se3 out.
    do_init (\<lambda>_. True) (\<lambda>x. x) 1 demo_init (demo_se\<lparr>se_got_init := False\<rparr>) =
      send_reply (\<lambda>_. True) 1 0 (take 64 (init_out_bytes out)) se3 \<and>
    bit (io_flags out) 15 \<and> \<not> bit (io_flags out) 25 \<and>
    unat (se_bufsize se3) = unat (io_max_write out) + 4096"
proof -
  let ?se = "demo_se\<lparr>se_got_init := False\<rparr>"
  let ?s = "after_init (\<lambda>x. x) demo_init ?se"
  have h: "ii_major demo_init = 7" "fs_keeps (\<lambda>x. x)" "se_bufsize ?se \<le> 0xffffffff"
    by (simp_all add: demo_init_def fs_keeps_def demo_se_def)
  have "want_flags_valid (capable_ext (se_conn ?s)) (want_ext (se_conn ?s))" "max_read (se_conn ?s) = se_max_read_mo ?s"
    "bit (want_ext (se_conn ?s)) 15" by code_simp+
  then have ok: "init_accepted ?s" "bit (want_ext (se_conn ?s)) 15"
    by (simp_all add: init_accepted_def want_flags_valid_bits)
  have dio: "(''ASYNC_DIO'', 15, 15) \<in> set wanted_table" by (simp add: wanted_table_def)
  have r: "reply_size (ii_minor demo_init) = 64" by code_simp
  obtain se3 out where
      d: "do_init (\<lambda>_. True) (\<lambda>x. x) 1 demo_init ?se = send_reply (\<lambda>_. True) 1 0 (take 64 (init_out_bytes out)) se3"
      and w: "\<forall>(nm, f, k)\<in>set wanted_table. f < 32 \<longrightarrow> bit (want_ext (se_conn ?s)) k \<longrightarrow> bit (io_flags out) f"
      and o: "\<forall>n<32. bit (io_flags out) n \<longrightarrow> n = 5 \<or> bit (ii_flags demo_init) n"
      and b: "unat (se_bufsize se3) = unat (io_max_write out) + 4096"
    using init_negotiates [OF h, of "\<lambda>_. True" 1, THEN conjunct2, rule_format, OF ok(1)] unfolding r by blast
  have "bit (io_flags out) 15"
    using bspec [OF w dio] ok(2) by simp
  moreover have "\<not> bit (ii_flags demo_init) 25" by code_simp
  then have "\<not> bit (io_flags out) 25"
    using o [rule_format, of 25] by auto
  ultimately show ?thesis using d b by blast
qed

end
