(* ===== verification/Fuse_Opt.thy ===== *)
theory Fuse_Opt
  imports Fuse_Prelude
begin

text \<open>
  Option parsing, \<open>lib/fuse_opt.c\<close> with \<open>include/fuse_opt.h\<close>: argument vectors, comma separated
  option groups with their escapes, option templates, and \<open>fuse_opt_parse\<close>.

  An argument vector is a list (\<open>None\<close> for a null pointer) with its \<open>allocated\<close> flag. The
  variables behind the \<open>data\<close> pointer are a map from offsets to values. The processing function
  of the caller (\<open>proc\<close>) and \<open>sscanf\<close> with the formats of the caller's templates (\<open>scan\<close>) are
  parameters. Allocations take their results from a tape; \<open>None\<close> is a failed assertion. Strings
  are shorter than 4 GiB, so that lengths do not wrap. Messages are left out.
\<close>

section \<open>Data\<close>

record fuse_args =
  a_argv :: "string list option"
  a_allocated :: bool

datatype optval = VInt int | VStr string

type_synonym opt_data = "u64 \<Rightarrow> optval"

record fuse_opt =
  o_templ :: string
  o_offset :: u64
  o_value :: int

type_synonym opt_proc = "opt_data \<Rightarrow> string \<Rightarrow> int \<Rightarrow> fuse_args \<Rightarrow> int \<times> opt_data \<times> fuse_args"
type_synonym opt_scan = "string \<Rightarrow> string \<Rightarrow> optval option"

record opt_context =
  x_data :: opt_data
  x_argctr :: nat
  x_argv :: "string list"
  x_outargs :: fuse_args
  x_opts :: "string option"
  x_nonopt :: nat
  x_tape :: tape

type_synonym opt_result = "(int \<times> opt_context) option"

definition FUSE_OPT_KEY_OPT :: int where "FUSE_OPT_KEY_OPT = -1"
definition FUSE_OPT_KEY_NONOPT :: int where "FUSE_OPT_KEY_NONOPT = -2"
definition FUSE_OPT_KEY_KEEP :: int where "FUSE_OPT_KEY_KEEP = -3"
definition FUSE_OPT_KEY_DISCARD :: int where "FUSE_OPT_KEY_DISCARD = -4"
definition no_offset :: u64 where "no_offset = 0xffffffff"

lemmas opt_keys = FUSE_OPT_KEY_OPT_def FUSE_OPT_KEY_NONOPT_def FUSE_OPT_KEY_KEEP_def FUSE_OPT_KEY_DISCARD_def

definition comma :: char where "comma = CHR '',''"
definition backslash :: char where "backslash = CHR 0x5C"
definition dash :: char where "dash = CHR ''-''"

section \<open>Argument vectors\<close>

definition arg_list :: "fuse_args \<Rightarrow> string list" where
  "arg_list args = (case a_argv args of None \<Rightarrow> [] | Some l \<Rightarrow> l)"

definition fuse_opt_free_args :: "fuse_args \<Rightarrow> fuse_args" where
  "fuse_opt_free_args args = \<lparr>a_argv = None, a_allocated = False\<rparr>"

definition fuse_opt_add_arg :: "tape \<Rightarrow> fuse_args \<Rightarrow> string \<Rightarrow> (int \<times> tape \<times> fuse_args) option" where
  "fuse_opt_add_arg tp args arg =
     (if a_argv args \<noteq> None \<and> \<not> a_allocated args then None
      else case alloc_pop tp of (newarg, tp1) \<Rightarrow>
        if \<not> newarg then Some (-1, tp1, args)
        else case alloc_pop tp1 of (newargv, tp2) \<Rightarrow>
          if \<not> newargv then Some (-1, tp2, args)
          else Some (0, tp2, \<lparr>a_argv = Some (arg_list args @ [arg]), a_allocated = True\<rparr>))"

definition fuse_opt_insert_arg_common :: "tape \<Rightarrow> fuse_args \<Rightarrow> nat \<Rightarrow> string \<Rightarrow> (int \<times> tape \<times> fuse_args) option" where
  "fuse_opt_insert_arg_common tp args pos arg =
     (if length (arg_list args) < pos then None
      else do {
        (res, tp1, args1) \<leftarrow> fuse_opt_add_arg tp args arg;
        if res = -1 then Some (-1, tp1, args1)
        else let l = arg_list args1
             in Some (0, tp1, if pos \<noteq> length l - 1
                              then args1\<lparr>a_argv := Some (take pos l @ [last l] @ drop pos (butlast l))\<rparr>
                              else args1) })"

definition fuse_opt_insert_arg :: "tape \<Rightarrow> fuse_args \<Rightarrow> nat \<Rightarrow> string \<Rightarrow> (int \<times> tape \<times> fuse_args) option" where
  "fuse_opt_insert_arg = fuse_opt_insert_arg_common"

definition next_arg :: "opt_context \<Rightarrow> int \<times> opt_context" where
  "next_arg ctx =
     (if x_argctr ctx + 1 \<ge> length (x_argv ctx) then (-1, ctx) else (0, ctx\<lparr>x_argctr := x_argctr ctx + 1\<rparr>))"

definition add_arg :: "opt_context \<Rightarrow> string \<Rightarrow> opt_result" where
  "add_arg ctx arg = do {
     (res, tp, out) \<leftarrow> fuse_opt_add_arg (x_tape ctx) (x_outargs ctx) arg;
     Some (res, ctx\<lparr>x_tape := tp, x_outargs := out\<rparr>) }"

section \<open>Option groups\<close>

text \<open>The copy loop of \<open>add_opt_common\<close>.\<close>

fun escape_opt :: "bool \<Rightarrow> string \<Rightarrow> string" where
  "escape_opt esc [] = []"
| "escape_opt esc (c # cs) =
     (if esc \<and> (c = comma \<or> c = backslash) then backslash # c # escape_opt esc cs else c # escape_opt esc cs)"

definition add_opt_common :: "tape \<Rightarrow> string option \<Rightarrow> string \<Rightarrow> bool \<Rightarrow> int \<times> tape \<times> string option" where
  "add_opt_common tp opts opt esc =
     (case alloc_pop tp of (d, tp1) \<Rightarrow>
        if \<not> d then (-1, tp1, opts)
        else let old = (case opts of None \<Rightarrow> [] | Some s \<Rightarrow> s)
             in (0, tp1, Some ((if old \<noteq> [] then old @ [comma] else old) @ escape_opt esc opt)))"

definition fuse_opt_add_opt :: "tape \<Rightarrow> string option \<Rightarrow> string \<Rightarrow> int \<times> tape \<times> string option" where
  "fuse_opt_add_opt tp opts opt = add_opt_common tp opts opt False"

definition fuse_opt_add_opt_escaped :: "tape \<Rightarrow> string option \<Rightarrow> string \<Rightarrow> int \<times> tape \<times> string option" where
  "fuse_opt_add_opt_escaped tp opts opt = add_opt_common tp opts opt True"

definition add_opt :: "opt_context \<Rightarrow> string \<Rightarrow> int \<times> opt_context" where
  "add_opt ctx opt =
     (case add_opt_common (x_tape ctx) (x_opts ctx) opt True of
        (res, tp, opts) \<Rightarrow> (res, ctx\<lparr>x_tape := tp, x_opts := opts\<rparr>))"

section \<open>Templates\<close>

fun strchr :: "string \<Rightarrow> char \<Rightarrow> nat option" where
  "strchr [] c = None"
| "strchr (a # as) c = (if a = c then Some 0 else map_option Suc (strchr as c))"

definition match_template :: "string \<Rightarrow> string \<Rightarrow> nat option" where
  "match_template t arg =
     (let exact = (if t = arg then Some 0 else None)
      in case (case strchr t (CHR ''='') of Some i \<Rightarrow> Some i | None \<Rightarrow> strchr t (CHR '' '')) of
           None \<Rightarrow> exact
         | Some i \<Rightarrow>
             if length t \<le> i + 1 \<or> t ! (i + 1) = CHR ''%'' then
               (let tlen = (if t ! i = CHR ''='' then i + 1 else i)
                in if tlen \<le> length arg \<and> take tlen arg = take tlen t then Some i else exact)
             else exact)"

fun find_opt :: "fuse_opt list \<Rightarrow> string \<Rightarrow> (fuse_opt \<times> nat) option" where
  "find_opt [] arg = None"
| "find_opt (t # ts) arg = (case match_template (o_templ t) arg of Some sep \<Rightarrow> Some (t, sep) | None \<Rightarrow> find_opt ts arg)"

definition fuse_opt_match :: "fuse_opt list \<Rightarrow> string \<Rightarrow> bool" where
  "fuse_opt_match opts opt \<longleftrightarrow> find_opt opts opt \<noteq> None"

section \<open>Processing\<close>

definition call_proc :: "opt_proc option \<Rightarrow> opt_context \<Rightarrow> string \<Rightarrow> int \<Rightarrow> bool \<Rightarrow> opt_result" where
  "call_proc proc ctx arg key grp =
     (let keep = (\<lambda>c. if grp then Some (add_opt c arg) else add_arg c arg)
      in if key = FUSE_OPT_KEY_DISCARD then Some (0, ctx)
         else if key = FUSE_OPT_KEY_KEEP then keep ctx
         else case proc of
                None \<Rightarrow> keep ctx
              | Some p \<Rightarrow>
                  (case p (x_data ctx) arg key (x_outargs ctx) of
                     (res, d, out) \<Rightarrow>
                       let ctx1 = ctx\<lparr>x_data := d, x_outargs := out\<rparr>
                       in if res = -1 \<or> res = 0 then Some (res, ctx1) else keep ctx1))"

definition process_opt_param :: "opt_scan \<Rightarrow> opt_context \<Rightarrow> u64 \<Rightarrow> string \<Rightarrow> string \<Rightarrow> opt_result" where
  "process_opt_param scan ctx off format param =
     (case format of
        [] \<Rightarrow> None
      | c # cs \<Rightarrow>
          if c \<noteq> CHR ''%'' then None
          else if take 1 cs = ''s'' then
            (case alloc_pop (x_tape ctx) of (copy, tp) \<Rightarrow>
               if \<not> copy then Some (-1, ctx\<lparr>x_tape := tp\<rparr>)
               else Some (0, ctx\<lparr>x_tape := tp, x_data := (x_data ctx)(off := VStr param)\<rparr>))
          else (case scan format param of
                  None \<Rightarrow> Some (-1, ctx)
                | Some v \<Rightarrow> Some (0, ctx\<lparr>x_data := (x_data ctx)(off := v)\<rparr>)))"

definition process_opt :: "opt_scan \<Rightarrow> opt_proc option \<Rightarrow> opt_context \<Rightarrow> fuse_opt \<Rightarrow> nat \<Rightarrow> string \<Rightarrow> bool \<Rightarrow> opt_result" where
  "process_opt scan proc ctx opt sep arg grp =
     (if o_offset opt = no_offset then do {
        (res, ctx1) \<leftarrow> call_proc proc ctx arg (o_value opt) grp;
        Some (if res = -1 then -1 else 0, ctx1) }
      else if sep \<noteq> 0 \<and> sep + 1 < length (o_templ opt) then
        process_opt_param scan ctx (o_offset opt) (drop (sep + 1) (o_templ opt))
          (drop (if o_templ opt ! sep = CHR ''='' then sep + 1 else sep) arg)
      else Some (0, ctx\<lparr>x_data := (x_data ctx)(o_offset opt := VInt (o_value opt))\<rparr>))"

definition process_opt_sep_arg :: "opt_scan \<Rightarrow> opt_proc option \<Rightarrow> opt_context \<Rightarrow> fuse_opt \<Rightarrow> nat \<Rightarrow> string \<Rightarrow> bool \<Rightarrow> opt_result" where
  "process_opt_sep_arg scan proc ctx opt sep arg grp =
     (case next_arg ctx of (res, ctx1) \<Rightarrow>
        if res = -1 then Some (-1, ctx1)
        else case alloc_pop (x_tape ctx1) of (newarg, tp) \<Rightarrow>
          let ctx2 = ctx1\<lparr>x_tape := tp\<rparr>
          in if \<not> newarg then Some (-1, ctx2)
             else process_opt scan proc ctx2 opt sep (take sep arg @ x_argv ctx2 ! x_argctr ctx2) grp)"

text \<open>The loop of \<open>process_gopt\<close> over the templates that match.\<close>

fun gopt_loop :: "opt_scan \<Rightarrow> opt_proc option \<Rightarrow> fuse_opt list \<Rightarrow> string \<Rightarrow> bool \<Rightarrow> opt_context \<Rightarrow> opt_result" where
  "gopt_loop scan proc [] arg grp ctx = Some (0, ctx)"
| "gopt_loop scan proc (t # ts) arg grp ctx =
     (case match_template (o_templ t) arg of
        None \<Rightarrow> gopt_loop scan proc ts arg grp ctx
      | Some sep \<Rightarrow> do {
          (res, ctx1) \<leftarrow> (if sep \<noteq> 0 \<and> o_templ t ! sep = CHR '' '' \<and> length arg \<le> sep
                         then process_opt_sep_arg scan proc ctx t sep arg grp
                         else process_opt scan proc ctx t sep arg grp);
          if res = -1 then Some (-1, ctx1) else gopt_loop scan proc ts arg grp ctx1 })"

definition process_gopt :: "opt_scan \<Rightarrow> opt_proc option \<Rightarrow> fuse_opt list \<Rightarrow> opt_context \<Rightarrow> string \<Rightarrow> bool \<Rightarrow> opt_result" where
  "process_gopt scan proc table ctx arg grp =
     (if find_opt table arg \<noteq> None then gopt_loop scan proc table arg grp ctx
      else call_proc proc ctx arg FUSE_OPT_KEY_OPT grp)"

definition octal :: "string \<Rightarrow> char option" where
  "octal s =
     (let v = (\<lambda>i. of_char (s ! i) :: nat)
      in if 3 \<le> length s \<and> 48 \<le> v 0 \<and> v 0 \<le> 51 \<and> 48 \<le> v 1 \<and> v 1 \<le> 55 \<and> 48 \<le> v 2 \<and> v 2 \<le> 55
         then Some (char_of ((v 0 - 48) * 64 + (v 1 - 48) * 8 + (v 2 - 48))) else None)"

text \<open>What a function that takes a C string sees of the buffer.\<close>

definition c_str :: "string \<Rightarrow> string" where
  "c_str s = takeWhile (\<lambda>c. c \<noteq> CHR 0x00) s"

text \<open>The loop of \<open>process_real_option_group\<close>: \<open>s\<close> is what is left to read, \<open>d\<close> what is written.\<close>

fun group_loop :: "(opt_context \<Rightarrow> string \<Rightarrow> opt_result) \<Rightarrow> string \<Rightarrow> string \<Rightarrow> opt_context \<Rightarrow> opt_result" where
  "group_loop f [] d ctx = do { (res, ctx1) \<leftarrow> f ctx (c_str d); Some (if res = -1 then -1 else 0, ctx1) }"
| "group_loop f (c # s) d ctx =
     (if c = comma then do {
        (res, ctx1) \<leftarrow> f ctx (c_str d);
        if res = -1 then Some (-1, ctx1) else group_loop f s [] ctx1 }
      else if c = backslash \<and> s \<noteq> [] then
        (case octal s of
           Some v \<Rightarrow> group_loop f (drop 3 s) (d @ [v]) ctx
         | None \<Rightarrow> group_loop f (tl s) (d @ [hd s]) ctx)
      else group_loop f s (d @ [c]) ctx)"

definition process_real_option_group ::
  "opt_scan \<Rightarrow> opt_proc option \<Rightarrow> fuse_opt list \<Rightarrow> opt_context \<Rightarrow> string \<Rightarrow> opt_result" where
  "process_real_option_group scan proc table ctx opts =
     group_loop (\<lambda>c arg. process_gopt scan proc table c arg True) opts [] ctx"

definition process_option_group ::
  "opt_scan \<Rightarrow> opt_proc option \<Rightarrow> fuse_opt list \<Rightarrow> opt_context \<Rightarrow> string \<Rightarrow> opt_result" where
  "process_option_group scan proc table ctx opts =
     (case alloc_pop (x_tape ctx) of (copy, tp) \<Rightarrow>
        let ctx1 = ctx\<lparr>x_tape := tp\<rparr>
        in if \<not> copy then Some (-1, ctx1) else process_real_option_group scan proc table ctx1 opts)"

definition process_one :: "opt_scan \<Rightarrow> opt_proc option \<Rightarrow> fuse_opt list \<Rightarrow> opt_context \<Rightarrow> string \<Rightarrow> opt_result" where
  "process_one scan proc table ctx arg =
     (if x_nonopt ctx \<noteq> 0 \<or> take 1 arg \<noteq> [dash] then call_proc proc ctx arg FUSE_OPT_KEY_NONOPT False
      else if take 1 (drop 1 arg) = ''o'' then
        (if drop 2 arg \<noteq> [] then process_option_group scan proc table ctx (drop 2 arg)
         else case next_arg ctx of (res, ctx1) \<Rightarrow>
                if res = -1 then Some (-1, ctx1)
                else process_option_group scan proc table ctx1 (x_argv ctx1 ! x_argctr ctx1))
      else if arg = [dash, dash] then do {
        (res, ctx1) \<leftarrow> add_arg ctx arg;
        if res = -1 then Some (-1, ctx1)
        else Some (0, ctx1\<lparr>x_nonopt := length (arg_list (x_outargs ctx1))\<rparr>) }
      else process_gopt scan proc table ctx arg False)"

text \<open>The argument counter never goes back, so that the loop over the arguments ends.\<close>

definition advances :: "opt_context \<Rightarrow> opt_result \<Rightarrow> bool" where
  "advances ctx r \<longleftrightarrow> (\<forall>res ctx'. r = Some (res, ctx') \<longrightarrow> x_argv ctx' = x_argv ctx \<and> x_argctr ctx \<le> x_argctr ctx')"

lemma advances_bind:
  assumes "advances ctx r"
    and "\<And>res ctx1. r = Some (res, ctx1) \<Longrightarrow> advances ctx1 (g (res, ctx1))"
  shows "advances ctx (Option.bind r g)"
  using assms by (cases r) (fastforce simp: advances_def)+

lemma advances_ret: "x_argv ctx' = x_argv ctx \<Longrightarrow> x_argctr ctx \<le> x_argctr ctx' \<Longrightarrow> advances ctx (Some (res, ctx'))"
  by (simp add: advances_def)

lemma advances_trans:
  "x_argv ctx1 = x_argv ctx \<Longrightarrow> x_argctr ctx \<le> x_argctr ctx1 \<Longrightarrow> advances ctx1 r \<Longrightarrow> advances ctx r"
  by (auto simp: advances_def)

lemma advances_add_arg: "advances ctx (add_arg ctx arg)"
  by (auto simp: add_arg_def advances_def split: bind_splits)

lemma advances_add_opt: "advances ctx (Some (add_opt ctx arg))"
  by (auto simp: add_opt_def advances_def split: prod.splits)

lemma advances_call_proc: "advances ctx (call_proc proc ctx arg key grp)"
  by (auto simp: call_proc_def Let_def split: option.split prod.split
    intro: advances_trans [OF _ _ advances_add_opt] advances_trans [OF _ _ advances_add_arg] advances_ret)

lemma advances_process_opt: "advances ctx (process_opt scan proc ctx opt sep arg grp)"
  unfolding process_opt_def
  by (auto simp: process_opt_param_def split: list.splits option.splits prod.splits
    intro!: advances_bind advances_call_proc advances_ret)
     (simp add: advances_def)+

lemma next_arg_advances:
  "next_arg ctx = (res, ctx1) \<Longrightarrow> x_argv ctx1 = x_argv ctx \<and> x_argctr ctx \<le> x_argctr ctx1"
  by (auto simp: next_arg_def split: if_splits)

lemma advances_sep_arg: "advances ctx (process_opt_sep_arg scan proc ctx opt sep arg grp)"
proof -
  obtain res ctx1 where n: "next_arg ctx = (res, ctx1)" by fastforce
  obtain b tp where a: "alloc_pop (x_tape ctx1) = (b, tp)" by fastforce
  note n' = next_arg_advances [OF n]
  have "advances ctx (process_opt scan proc (ctx1\<lparr>x_tape := tp\<rparr>) opt sep arg' grp)" for arg'
    using n' by (intro advances_trans [OF _ _ advances_process_opt]) simp_all
  then show ?thesis
    using n' by (auto simp: process_opt_sep_arg_def n a Let_def intro: advances_ret)
qed

lemma advances_gopt_loop: "advances ctx (gopt_loop scan proc ts arg grp ctx)"
  by (induction ts arbitrary: ctx)
     (auto split: option.splits intro!: advances_bind advances_process_opt advances_sep_arg advances_ret)

lemma advances_process_gopt: "advances ctx (process_gopt scan proc table ctx arg grp)"
  by (simp add: process_gopt_def advances_gopt_loop advances_call_proc)

lemma advances_group_loop:
  "(\<And>c arg. advances c (f c arg)) \<Longrightarrow> advances ctx (group_loop f s d ctx)"
  by (induction f s d ctx rule: group_loop.induct)
     (auto split: option.splits intro!: advances_bind advances_ret)

lemma advances_option_group: "advances ctx (process_option_group scan proc table ctx opts)"
proof -
  obtain b tp where a: "alloc_pop (x_tape ctx) = (b, tp)" by fastforce
  have "advances ctx (process_real_option_group scan proc table (ctx\<lparr>x_tape := tp\<rparr>) opts)"
    unfolding process_real_option_group_def
    by (intro advances_trans [OF _ _ advances_group_loop] advances_process_gopt) simp_all
  then show ?thesis by (auto simp: process_option_group_def a Let_def intro: advances_ret)
qed

lemma advances_process_one: "advances ctx (process_one scan proc table ctx arg)"
proof -
  obtain res ctx1 where n: "next_arg ctx = (res, ctx1)" by fastforce
  note n' = next_arg_advances [OF n]
  have "advances ctx (process_option_group scan proc table ctx1 g)" for g
    using n' by (intro advances_trans [OF _ _ advances_option_group]) simp_all
  then show ?thesis
    using n' by (auto simp: process_one_def n intro!: advances_call_proc advances_option_group advances_process_gopt
      advances_bind advances_add_arg advances_ret)
qed

section \<open>The parser\<close>

function args_loop :: "opt_scan \<Rightarrow> opt_proc option \<Rightarrow> fuse_opt list \<Rightarrow> opt_context \<Rightarrow> opt_result" where
  "args_loop scan proc table ctx =
     (if x_argctr ctx < length (x_argv ctx) then do {
        (res, ctx1) \<leftarrow> process_one scan proc table ctx (x_argv ctx ! x_argctr ctx);
        if res = -1 then Some (-1, ctx1)
        else args_loop scan proc table (ctx1\<lparr>x_argctr := x_argctr ctx1 + 1\<rparr>) }
      else Some (0, ctx))"
  by pat_completeness auto
termination
proof (relation "measure (\<lambda>(scan, proc, table, ctx). length (x_argv ctx) - x_argctr ctx)", goal_cases)
  case (2 scan proc table ctx z res ctx1)
  then show ?case
    using advances_process_one [of ctx scan proc table "x_argv ctx ! x_argctr ctx"] by (auto simp: advances_def)
qed simp

declare args_loop.simps [simp del]

text \<open>The end of \<open>opt_parse\<close>: the collected options become a second argument, and a \<open>--\<close> at the end goes.\<close>

definition insert_opts :: "opt_context \<Rightarrow> opt_result" where
  "insert_opts ctx =
     (case x_opts ctx of
        None \<Rightarrow> Some (0, ctx)
      | Some opts \<Rightarrow> do {
          (res, tp, out) \<leftarrow> fuse_opt_insert_arg (x_tape ctx) (x_outargs ctx) 1 [dash, CHR ''o''];
          if res = -1 then Some (-1, ctx\<lparr>x_tape := tp, x_outargs := out\<rparr>)
          else do {
            (res2, tp2, out2) \<leftarrow> fuse_opt_insert_arg tp out 2 opts;
            Some (res2, ctx\<lparr>x_tape := tp2, x_outargs := out2\<rparr>) } })"

definition drop_separator :: "opt_context \<Rightarrow> opt_context" where
  "drop_separator ctx =
     (let l = arg_list (x_outargs ctx)
      in if x_nonopt ctx \<noteq> 0 \<and> x_nonopt ctx = length l \<and> last l = [dash, dash]
         then ctx\<lparr>x_outargs := (x_outargs ctx)\<lparr>a_argv := Some (butlast l)\<rparr>\<rparr> else ctx)"

definition opt_parse :: "opt_scan \<Rightarrow> opt_proc option \<Rightarrow> fuse_opt list \<Rightarrow> opt_context \<Rightarrow> opt_result" where
  "opt_parse scan proc table ctx = do {
     (res, ctx1) \<leftarrow> (if x_argv ctx \<noteq> [] then add_arg ctx (x_argv ctx ! 0) else Some (0, ctx));
     if res = -1 then Some (-1, ctx1)
     else do {
       (res2, ctx2) \<leftarrow> args_loop scan proc table (ctx1\<lparr>x_argctr := 1\<rparr>);
       if res2 = -1 then Some (-1, ctx2)
       else do {
         (res3, ctx3) \<leftarrow> insert_opts ctx2;
         if res3 = -1 then Some (-1, ctx3) else Some (0, drop_separator ctx3) } } }"

definition fuse_opt_parse ::
  "opt_scan \<Rightarrow> tape \<Rightarrow> fuse_args \<Rightarrow> opt_data \<Rightarrow> fuse_opt list \<Rightarrow> opt_proc option \<Rightarrow> (int \<times> opt_data \<times> fuse_args) option" where
  "fuse_opt_parse scan tp args data table proc =
     (if arg_list args = [] then Some (0, data, args)
      else do {
        (res, ctx) \<leftarrow> opt_parse scan proc table \<lparr>x_data = data, x_argctr = 0, x_argv = arg_list args,
          x_outargs = \<lparr>a_argv = None, a_allocated = False\<rparr>, x_opts = None, x_nonopt = 0, x_tape = tp\<rparr>;
        Some (res, x_data ctx, if res \<noteq> -1 then x_outargs ctx else args) })"

end
