(* ===== verification/Fuse_Opt_Properties.thy ===== *)
theory Fuse_Opt_Properties
  imports Fuse_Opt
begin

text \<open>
  Option parsing: the escapes of option groups are undone when a group is processed, and what
  \<open>fuse_opt_parse\<close> makes of an argument vector in which every option is kept.
\<close>

section \<open>Splitting a group\<close>

fun split_from :: "string \<Rightarrow> string \<Rightarrow> string list" where
  "split_from [] d = [c_str d]"
| "split_from (c # s) d =
     (if c = comma then c_str d # split_from s []
      else if c = backslash \<and> s \<noteq> [] then
        (case octal s of Some v \<Rightarrow> split_from (drop 3 s) (d @ [v]) | None \<Rightarrow> split_from (tl s) (d @ [hd s]))
      else split_from s (d @ [c]))"

text \<open>The options of a list one after the other, up to the first error.\<close>

primrec opt_seq :: "(opt_context \<Rightarrow> string \<Rightarrow> opt_result) \<Rightarrow> string list \<Rightarrow> opt_context \<Rightarrow> opt_result" where
  "opt_seq f [] ctx = Some (0, ctx)"
| "opt_seq f (t # ts) ctx = do { (res, ctx1) \<leftarrow> f ctx t; if res = -1 then Some (-1, ctx1) else opt_seq f ts ctx1 }"

lemma group_loop_split: "group_loop f s d ctx = opt_seq f (split_from s d) ctx"
  by (induction f s d ctx rule: group_loop.induct)
     (auto split: option.split bind_split)

lemma octal_none: "c = comma \<or> c = backslash \<Longrightarrow> octal (c # s) = None"
  by (auto simp: octal_def comma_def backslash_def Let_def)

lemma split_escaped: "split_from (escape_opt True t @ r) d = split_from r (d @ t)"
proof (induction t arbitrary: d)
  case Nil
  then show ?case by simp
next
  case (Cons c t)
  have "comma \<noteq> backslash" by (simp add: comma_def backslash_def)
  with Cons octal_none [of c] show ?case by auto
qed

section \<open>Joining options\<close>

definition join_step :: "string option \<Rightarrow> string \<Rightarrow> string option" where
  "join_step opts t = snd (snd (fuse_opt_add_opt_escaped [] opts t))"

definition escaped_list :: "string list \<Rightarrow> string option" where
  "escaped_list ts = foldl join_step None ts"

definition tail_opts :: "string list \<Rightarrow> string" where
  "tail_opts ts = concat (map (\<lambda>t. comma # escape_opt True t) ts)"

lemma escape_empty [simp]: "escape_opt esc t = [] \<longleftrightarrow> t = []"
  by (cases t) auto

lemma join_step_simps:
  "join_step None t = Some (escape_opt True t)"
  "join_step (Some s) t = Some (if s = [] then escape_opt True t else s @ comma # escape_opt True t)"
  by (simp_all add: join_step_def fuse_opt_add_opt_escaped_def add_opt_common_def Let_def)

lemma join_from: "s \<noteq> [] \<Longrightarrow> foldl join_step (Some s) ts = Some (s @ tail_opts ts)"
  by (induction ts arbitrary: s) (auto simp: tail_opts_def join_step_simps)

lemma escaped_list_Cons: "t \<noteq> [] \<Longrightarrow> escaped_list (t # ts) = Some (escape_opt True t @ tail_opts ts)"
  by (simp add: escaped_list_def join_step_simps join_from)

lemma escaped_list_skip: "ts \<noteq> [] \<Longrightarrow> escaped_list ([] # ts) = escaped_list ts"
  by (cases ts) (simp_all add: escaped_list_def join_step_simps)

definition no_nul :: "string \<Rightarrow> bool" where
  "no_nul t \<longleftrightarrow> CHR 0x00 \<notin> set t"

lemma c_str_id: "no_nul t \<Longrightarrow> c_str t = t"
  by (auto simp: c_str_def no_nul_def intro!: takeWhile_eq_all_conv [THEN iffD2])

lemma no_nul_c_str: "no_nul (c_str t)"
  by (auto simp: no_nul_def c_str_def dest: set_takeWhileD)

lemma split_tail: "\<forall>t\<in>set ts. no_nul t \<Longrightarrow> split_from (tail_opts ts) d = c_str d # ts"
proof (induction ts arbitrary: d)
  case Nil
  then show ?case by (simp add: tail_opts_def)
next
  case (Cons t ts)
  have "tail_opts (t # ts) = comma # escape_opt True t @ tail_opts ts" by (simp add: tail_opts_def)
  with Cons show ?case by (simp add: split_escaped c_str_id)
qed

lemma split_joined:
  assumes "t \<noteq> []" "\<forall>x\<in>set (t # ts). no_nul x" "escaped_list (t # ts) = Some s"
  shows "split_from s [] = t # ts"
  using assms by (auto simp: escaped_list_Cons split_escaped split_tail c_str_id)

text \<open>
  C33: Escaping and splitting are inverse: the options \<open>t # ts\<close> (without 0 bytes, the first not
  empty), put together one by one with \<open>fuse_opt_add_opt_escaped\<close>, whatever commas and
  backslashes they contain, are processed by \<open>process_option_group\<close> as exactly these options in
  this order, up to the first error, with every template table and every processing function.
\<close>

theorem option_group_roundtrip:
  assumes "t \<noteq> []" and "\<forall>x\<in>set (t # ts). CHR 0x00 \<notin> set x" and "escaped_list (t # ts) = Some s"
  shows "process_option_group scan proc table (ctx\<lparr>x_tape := True # tp\<rparr>) s =
    opt_seq (\<lambda>c x. process_gopt scan proc table c x True) (t # ts) (ctx\<lparr>x_tape := tp\<rparr>)"
  using split_joined [of t ts s] assms
  by (simp add: process_option_group_def process_real_option_group_def group_loop_split no_nul_def)

definition demo_ctx :: opt_context where
  "demo_ctx = \<lparr>x_data = (\<lambda>_. VInt 0), x_argctr = 1, x_argv = [''prog''], x_outargs = \<lparr>a_argv = Some [''prog''], a_allocated = True\<rparr>,
     x_opts = None, x_nonopt = 0, x_tape = []\<rparr>"

definition demo_opt_table :: "fuse_opt list" where
  "demo_opt_table = [\<lparr>o_templ = ''a=%s'', o_offset = 8, o_value = 0\<rparr>]"

theorem option_group_roundtrip_witness:
  "(case process_option_group (\<lambda>_ _. None) None demo_opt_table (demo_ctx\<lparr>x_tape := [True]\<rparr>)
       (''a=x'' @ [backslash, comma] @ ''y,c'') of
      Some (res, ctx) \<Rightarrow> res = 0 \<and> x_data ctx 8 = VStr ''x,y'' \<and> x_opts ctx = Some ''c''
    | None \<Rightarrow> False)"
proof -
  have "escaped_list [''a=x,y'', ''c''] = Some (''a=x'' @ [backslash, comma] @ ''y,c'')" by code_simp
  from option_group_roundtrip [OF _ _ this, where scan = "\<lambda>_ _. None" and proc = None and table = demo_opt_table and ctx = demo_ctx and tp = "[]"]
  have "process_option_group (\<lambda>_ _. None) None demo_opt_table (demo_ctx\<lparr>x_tape := [True]\<rparr>)
       (''a=x'' @ [backslash, comma] @ ''y,c'') =
     opt_seq (\<lambda>c x. process_gopt (\<lambda>_ _. None) None demo_opt_table c x True) [''a=x,y'', ''c''] (demo_ctx\<lparr>x_tape := []\<rparr>)"
    by simp
  moreover have "(case opt_seq (\<lambda>c x. process_gopt (\<lambda>_ _. None) None demo_opt_table c x True) [''a=x,y'', ''c'']
       (demo_ctx\<lparr>x_tape := []\<rparr>) of
      Some (res, ctx) \<Rightarrow> res = 0 \<and> x_data ctx 8 = VStr ''x,y'' \<and> x_opts ctx = Some ''c''
    | None \<Rightarrow> False)" by code_simp
  ultimately show ?thesis by (simp only:)
qed

section \<open>Keeping every option\<close>

text \<open>
  The reference for a parse in which all options are kept: the options of all groups, the other
  arguments before \<open>--\<close>, and those behind it. \<open>None\<close>: a final \<open>-o\<close> without its argument.
\<close>

definition add_group :: "string \<Rightarrow> (string list \<times> 'a \<times> 'b) option \<Rightarrow> (string list \<times> 'a \<times> 'b) option" where
  "add_group g = map_option (\<lambda>(os, pre, post). (split_from g [] @ os, pre, post))"

definition add_plain :: "string \<Rightarrow> ('a \<times> string list \<times> 'b) option \<Rightarrow> ('a \<times> string list \<times> 'b) option" where
  "add_plain a = map_option (\<lambda>(os, pre, post). (os, a # pre, post))"

fun sort_args :: "string list \<Rightarrow> (string list \<times> string list \<times> string list option) option" where
  "sort_args [] = Some ([], [], None)"
| "sort_args (a # as) =
     (if take 1 a = [dash] \<and> take 1 (drop 1 a) = ''o'' then
        (if drop 2 a \<noteq> [] then add_group (drop 2 a) (sort_args as)
         else case as of [] \<Rightarrow> None | g # as' \<Rightarrow> add_group g (sort_args as'))
      else if a = [dash, dash] then Some ([], [], Some as)
      else add_plain a (sort_args as))"

definition joined :: "string list \<Rightarrow> string" where
  "joined os = (case escaped_list os of None \<Rightarrow> [] | Some s \<Rightarrow> s)"

text \<open>
  The result: the program name, one group with all options, the other arguments. A final \<open>--\<close>
  is dropped, but only when there are no options.
\<close>

fun canonical :: "string \<Rightarrow> string list \<times> string list \<times> string list option \<Rightarrow> string list" where
  "canonical p (os, pre, post) =
     p # (if os = [] then [] else [[dash, CHR ''o''], joined os]) @ pre @
     (case post of None \<Rightarrow> [] | Some ps \<Rightarrow> if ps = [] \<and> os = [] then [] else [dash, dash] # ps)"

lemma keep_opt:
  "x_tape ctx = [] \<Longrightarrow> process_gopt scan None [] ctx t True = Some (0, ctx\<lparr>x_opts := join_step (x_opts ctx) t\<rparr>)"
  by (simp add: process_gopt_def call_proc_def opt_keys add_opt_def join_step_def fuse_opt_add_opt_escaped_def
    add_opt_common_def Let_def)

lemma keep_seq:
  "x_tape ctx = [] \<Longrightarrow> opt_seq (\<lambda>c x. process_gopt scan None [] c x True) ts ctx =
     Some (0, ctx\<lparr>x_opts := foldl join_step (x_opts ctx) ts\<rparr>)"
  by (induction ts arbitrary: ctx) (simp_all add: keep_opt)

text \<open>A context on which everything is kept; \<open>l\<close> is the output so far.\<close>

definition keeping :: "opt_data \<Rightarrow> string list \<Rightarrow> nat \<Rightarrow> string list \<Rightarrow> string option \<Rightarrow> nat \<Rightarrow> opt_context" where
  "keeping d argv ctr l opts sep =
     \<lparr>x_data = d, x_argctr = ctr, x_argv = argv, x_outargs = \<lparr>a_argv = Some l, a_allocated = True\<rparr>,
      x_opts = opts, x_nonopt = sep, x_tape = []\<rparr>"

lemma keep_group:
  "process_option_group scan None [] (keeping d argv ctr l opts sep) g =
     Some (0, keeping d argv ctr l (foldl join_step opts (split_from g [])) sep)"
  using keep_seq [of "keeping d argv ctr l opts sep" scan "split_from g []"]
  by (simp add: process_option_group_def process_real_option_group_def group_loop_split keeping_def)

lemma keep_arg:
  "add_arg (keeping d argv ctr l opts sep) a = Some (0, keeping d argv ctr (l @ [a]) opts sep)"
  by (simp add: add_arg_def fuse_opt_add_arg_def arg_list_def keeping_def)

lemma keep_one:
  "process_one scan None [] (keeping d argv ctr l opts sep) a =
     (if sep = 0 \<and> take 1 a = [dash] \<and> take 1 (drop 1 a) = ''o'' then
        (if drop 2 a \<noteq> [] then Some (0, keeping d argv ctr l (foldl join_step opts (split_from (drop 2 a) [])) sep)
         else if ctr + 1 \<ge> length argv then Some (-1, keeping d argv ctr l opts sep)
         else Some (0, keeping d argv (ctr + 1) l (foldl join_step opts (split_from (argv ! (ctr + 1)) [])) sep))
      else if sep = 0 \<and> a = [dash, dash] then Some (0, keeping d argv ctr (l @ [a]) opts (length l + 1))
      else Some (0, keeping d argv ctr (l @ [a]) opts sep))"
proof -
  have k: "x_argctr (keeping d argv ctr l opts sep) = ctr" "x_argv (keeping d argv ctr l opts sep) = argv"
      "x_nonopt (keeping d argv ctr l opts sep) = sep"
      "(keeping d argv ctr l opts sep)\<lparr>x_argctr := n\<rparr> = keeping d argv n l opts sep"
      "(keeping d argv ctr l opts sep)\<lparr>x_nonopt := n\<rparr> = keeping d argv ctr l opts n"
      "arg_list (x_outargs (keeping d argv ctr l opts sep)) = l" for d argv ctr l opts sep n
    by (simp_all add: keeping_def arg_list_def)
  show ?thesis
    by (auto simp: process_one_def next_arg_def k keep_group keep_arg call_proc_def opt_keys process_gopt_def)
qed

lemma keep_ctr: "(keeping d argv ctr l opts sep)\<lparr>x_argctr := n\<rparr> = keeping d argv n l opts sep"
  by (simp add: keeping_def)

lemma keeping_sel:
  "x_argctr (keeping d argv ctr l opts sep) = ctr" "x_argv (keeping d argv ctr l opts sep) = argv"
  "x_opts (keeping d argv ctr l opts sep) = opts" "x_data (keeping d argv ctr l opts sep) = d"
  "x_tape (keeping d argv ctr l opts sep) = []" "x_nonopt (keeping d argv ctr l opts sep) = sep"
  "x_outargs (keeping d argv ctr l opts sep) = \<lparr>a_argv = Some l, a_allocated = True\<rparr>"
  by (simp_all add: keeping_def)

lemma drop_Cons_facts:
  assumes "drop n xs = a # as"
  shows "n < length xs" "xs ! n = a" "drop (n + 1) xs = as"
proof -
  show "n < length xs" using assms by (auto intro: ccontr)
  show "xs ! n = a" using assms by (rule nth_via_drop)
  show "drop (n + 1) xs = as" using assms by (metis Suc_eq_plus1 drop_Suc list.sel(3) tl_drop)
qed

lemma keep_behind:
  assumes "sep \<noteq> 0" "drop ctr argv = as" "ctr \<le> length argv"
  shows "args_loop scan None [] (keeping d argv ctr l opts sep) = Some (0, keeping d argv (length argv) (l @ as) opts sep)"
  using assms(2,3)
proof (induction as arbitrary: ctr l)
  case Nil
  then show ?case by (subst args_loop.simps) (simp add: keeping_sel)
next
  case (Cons a as)
  note d = drop_Cons_facts [OF Cons.prems(1)]
  from Cons.IH [OF d(3), of "l @ [a]"] d(1,2) assms(1) show ?case
    by (subst args_loop.simps) (simp add: keeping_sel keep_one keep_ctr)
qed

definition behind :: "string list option \<Rightarrow> string list" where
  "behind post = (case post of None \<Rightarrow> [] | Some ps \<Rightarrow> [dash, dash] # ps)"

lemma keep_loop:
  assumes "drop ctr argv = as" "ctr \<le> length argv"
  shows "case sort_args as of
      None \<Rightarrow> \<exists>ctx. args_loop scan None [] (keeping d argv ctr l opts 0) = Some (-1, ctx) \<and> x_data ctx = d
    | Some (os, pre, post) \<Rightarrow> args_loop scan None [] (keeping d argv ctr l opts 0) =
        Some (0, keeping d argv (length argv) (l @ pre @ behind post) (foldl join_step opts os)
                   (if post = None then 0 else length l + length pre + 1))"
  using assms
proof (induction as arbitrary: ctr l opts rule: sort_args.induct)
  case 1
  then show ?case by (subst args_loop.simps) (simp add: keeping_sel behind_def)
next
  case (2 a as)
  note d = drop_Cons_facts [OF 2(4)]
  have step: "args_loop scan None [] (keeping d argv ctr l opts 0) = do {
      (res, ctx1) \<leftarrow> process_one scan None [] (keeping d argv ctr l opts 0) a;
      if res = -1 then Some (-1, ctx1) else args_loop scan None [] (ctx1\<lparr>x_argctr := x_argctr ctx1 + 1\<rparr>) }"
    using d by (subst args_loop.simps) (simp add: keeping_sel)
  consider (attached) "take 1 a = [dash]" "take 1 (drop 1 a) = ''o''" "drop 2 a \<noteq> []"
    | (apart) "take 1 a = [dash]" "take 1 (drop 1 a) = ''o''" "drop 2 a = []"
    | (separator) "\<not> (take 1 a = [dash] \<and> take 1 (drop 1 a) = ''o'')" "a = [dash, dash]"
    | (plain) "\<not> (take 1 a = [dash] \<and> take 1 (drop 1 a) = ''o'')" "a \<noteq> [dash, dash]" by blast
  then show ?case
  proof cases
    case attached
    from 2(1) [OF conjI [OF attached(1,2)] attached(3) d(3), of l "foldl join_step opts (split_from (drop 2 a) [])"] d(1)
    show ?thesis using attached
      by (auto simp: step keep_one keep_ctr keeping_sel add_group_def split: option.splits)
  next
    case apart
    show ?thesis
    proof (cases as)
      case Nil
      with d have "length argv \<le> ctr + 1" by simp
      with apart Nil show ?thesis by (simp add: step keep_one keeping_sel)
    next
      case (Cons g as')
      note d2 = drop_Cons_facts [OF d(3) [unfolded Cons]]
      from 2(2) [OF conjI [OF apart(1,2)] _ Cons _, of "ctr + 2" l "foldl join_step opts (split_from g [])"] apart d2
      show ?thesis
        by (auto simp: Cons step keep_one keep_ctr keeping_sel add_group_def split: option.splits)
    qed
  next
    case separator
    from keep_behind [of "length l + 1" "ctr + 1" argv as scan d "l @ [a]" opts] d(1,3) separator show ?thesis
      by (simp add: step keep_one keep_ctr keeping_sel behind_def)
  next
    case plain
    have one: "process_one scan None [] (keeping d argv ctr l opts 0) a = Some (0, keeping d argv ctr (l @ [a]) opts 0)"
      using plain unfolding keep_one by metis
    have sorted: "sort_args (a # as) = add_plain a (sort_args as)"
      using plain unfolding sort_args.simps by metis
    from 2(3) [OF plain d(3), of "l @ [a]" opts] d(1) show ?thesis
      unfolding sorted step one by (auto simp: keep_ctr keeping_sel add_plain_def split: option.splits)
  qed
qed

lemma escaped_list_joined: "escaped_list os = (if os = [] then None else Some (joined os))"
proof (cases os rule: rev_cases)
  case Nil
  then show ?thesis by (simp add: escaped_list_def)
next
  case (snoc ts t)
  then have "escaped_list os \<noteq> None"
    by (cases "foldl join_step None ts") (simp_all add: escaped_list_def join_step_simps)
  with snoc show ?thesis by (auto simp: joined_def)
qed

lemma insert_kept:
  "insert_opts (keeping d argv n (p # r) opts sep) =
     Some (0, keeping d argv n (p # (case opts of None \<Rightarrow> [] | Some s \<Rightarrow> [[dash, CHR ''o''], s]) @ r) opts sep)"
proof -
  have add: "fuse_opt_add_arg [] \<lparr>a_argv = Some l, a_allocated = True\<rparr> a = Some (0, [], \<lparr>a_argv = Some (l @ [a]), a_allocated = True\<rparr>)"
    for l a by (simp add: fuse_opt_add_arg_def arg_list_def)
  have ins: "fuse_opt_insert_arg [] \<lparr>a_argv = Some (l1 @ l2), a_allocated = True\<rparr> (length l1) a =
      Some (0, [], \<lparr>a_argv = Some (l1 @ a # l2), a_allocated = True\<rparr>)" for l1 l2 a
    by (simp add: fuse_opt_insert_arg_def fuse_opt_insert_arg_common_def add arg_list_def butlast_append Let_def)
  from ins [of "[p]" r "[dash, CHR ''o'']"] ins [of "[p, [dash, CHR ''o'']]" r] show ?thesis
    by (cases opts) (simp_all add: insert_opts_def keeping_def numeral_2_eq_2)
qed

lemma drop_kept:
  "drop_separator (keeping d argv n (p # h @ pre @ behind post) opts (if post = None then 0 else length pre + 2)) =
     keeping d argv n (p # h @ pre @ (case post of None \<Rightarrow> [] | Some ps \<Rightarrow> if ps = [] \<and> h = [] then [] else [dash, dash] # ps))
       opts (if post = None then 0 else length pre + 2)"
proof (cases post)
  case None
  then show ?thesis by (simp add: drop_separator_def behind_def keeping_sel Let_def)
next
  case (Some ps)
  show ?thesis
  proof (cases "ps = [] \<and> h = []")
    case True
    then show ?thesis
      by (simp add: Some drop_separator_def behind_def keeping_def arg_list_def Let_def butlast_append)
  next
    case False
    then have "length pre + 2 \<noteq> length (p # h @ pre @ behind post) \<or> ps \<noteq> [] \<and> h = []"
      by (cases h) (auto simp: Some behind_def)
    with False show ?thesis
      by (auto simp: Some drop_separator_def behind_def keeping_def arg_list_def Let_def)
  qed
qed

lemma parse_closed:
  "fuse_opt_parse scan [] args data [] None =
     (case arg_list args of
        [] \<Rightarrow> Some (0, data, args)
      | p # as \<Rightarrow>
         (case sort_args as of
            None \<Rightarrow> Some (-1, data, args)
          | Some x \<Rightarrow> Some (0, data, \<lparr>a_argv = Some (canonical p x), a_allocated = True\<rparr>)))"
proof (cases "arg_list args")
  case Nil
  then show ?thesis by (simp add: fuse_opt_parse_def)
next
  case (Cons p as)
  let ?ctx = "\<lparr>x_data = data, x_argctr = 0, x_argv = p # as, x_outargs = \<lparr>a_argv = None, a_allocated = False\<rparr>,
    x_opts = None, x_nonopt = 0, x_tape = []\<rparr>"
  have start: "add_arg ?ctx p = Some (0, keeping data (p # as) 0 [p] None 0)"
    by (simp add: add_arg_def fuse_opt_add_arg_def arg_list_def keeping_def)
  note loop = keep_loop [of 1 "p # as" as scan data "[p]" None]
  show ?thesis
  proof (cases "sort_args as")
    case None
    with loop obtain ctx where "args_loop scan None [] (keeping data (p # as) 1 [p] None 0) = Some (-1, ctx)" "x_data ctx = data"
      by auto
    then show ?thesis
      by (simp add: Cons None fuse_opt_parse_def opt_parse_def start keep_ctr)
  next
    case (Some x)
    obtain os pre post where x: "x = (os, pre, post)" by (cases x)
    have opts: "foldl join_step None os = (if os = [] then None else Some (joined os))"
      using escaped_list_joined by (simp add: escaped_list_def)
    have "args_loop scan None [] (keeping data (p # as) 1 [p] None 0) =
        Some (0, keeping data (p # as) (length (p # as)) (p # pre @ behind post) (if os = [] then None else Some (joined os))
                   (if post = None then 0 else length pre + 2))"
      using loop Some x opts by (cases post) simp_all
    then show ?thesis
      using drop_kept [of data "p # as" "length (p # as)" p "if os = [] then [] else [[dash, CHR ''o''], joined os]" pre post]
      by (simp add: Cons Some x fuse_opt_parse_def opt_parse_def start keep_ctr insert_kept keeping_sel if_distrib [of "case_option _ _"]
        split: if_splits)
  qed
qed

section \<open>Parsing again\<close>

definition plain_arg :: "string \<Rightarrow> bool" where
  "plain_arg a \<longleftrightarrow> \<not> (take 1 a = [dash] \<and> take 1 (drop 1 a) = ''o'') \<and> a \<noteq> [dash, dash]"

lemma sort_plain: "\<forall>a\<in>set pre. plain_arg a \<Longrightarrow> sort_args (pre @ as) = map_option (\<lambda>(os, pre', post). (os, pre @ pre', post)) (sort_args as)"
proof (induction pre)
  case Nil
  then show ?case by (simp add: option.map_ident)
next
  case (Cons a pre)
  then have "sort_args (a # pre @ as) = add_plain a (sort_args (pre @ as))"
    unfolding sort_args.simps by (metis list.set_intros(1) plain_arg_def)
  with Cons show ?case by (simp add: add_plain_def option.map_comp comp_def case_prod_unfold)
qed

lemma split_no_nul: "\<forall>t\<in>set (split_from s d). no_nul t"
  by (induction s d rule: split_from.induct) (auto simp: no_nul_c_str split: option.split)

lemma split_not_empty: "split_from s d \<noteq> []"
  by (induction s d rule: split_from.induct) (auto split: option.split)

lemma sort_result:
  "sort_args as = Some (os, pre, post) \<Longrightarrow> (\<forall>a\<in>set pre. plain_arg a) \<and> (\<forall>t\<in>set os. no_nul t)"
proof (induction as arbitrary: os pre post rule: sort_args.induct)
  case 1
  then show ?case by simp
next
  case (2 a as)
  show ?case
  proof (cases "take 1 a = [dash] \<and> take 1 (drop 1 a) = ''o''")
    case True
    then obtain g bs os' where "sort_args bs = Some (os', pre, post)" "os = split_from g [] @ os'"
        "(\<forall>a\<in>set pre. plain_arg a) \<and> (\<forall>t\<in>set os'. no_nul t)"
      using 2 by (cases "drop 2 a = []") (auto simp: add_group_def split: list.splits)
    then show ?thesis using split_no_nul [of g "[]"] by auto
  next
    case False
    show ?thesis
    proof (cases "a = [dash, dash]")
      case True
      then show ?thesis using 2(4) False by auto
    next
      case sep: False
      have "sort_args (a # as) = add_plain a (sort_args as)"
        using False sep unfolding sort_args.simps by metis
      then obtain pre' where "pre = a # pre'" "sort_args as = Some (os, pre', post)"
        using 2(4) by (auto simp: add_plain_def)
      with 2(3) [OF False sep] False sep show ?thesis by (simp add: plain_arg_def)
    qed
  qed
qed

lemma joined_split:
  assumes "os \<noteq> []" "\<forall>t\<in>set os. no_nul t"
  shows "joined (split_from (joined os) []) = joined os"
  using assms
proof (induction os)
  case (Cons t ts)
  show ?case
  proof (cases "t = []")
    case True
    show ?thesis
    proof (cases "ts = []")
      case True
      with \<open>t = []\<close> show ?thesis by (simp add: joined_def escaped_list_def join_step_simps c_str_def)
    next
      case False
      then have "joined (t # ts) = joined ts" using \<open>t = []\<close> by (simp add: joined_def escaped_list_skip)
      then show ?thesis using Cons False by simp
    qed
  next
    case False
    then have "split_from (joined (t # ts)) [] = t # ts"
      using Cons.prems(2) split_joined [of t ts "joined (t # ts)"] escaped_list_joined [of "t # ts"] by simp
    then show ?thesis by simp
  qed
qed simp

lemma canonical_again:
  assumes "sort_args as = Some x"
  shows "\<exists>y. sort_args (tl (canonical p x)) = Some y \<and> canonical p y = canonical p x"
proof -
  obtain os pre post where x: "x = (os, pre, post)" by (cases x)
  note r = sort_result [OF assms [unfolded x]]
  let ?rest = "case post of None \<Rightarrow> [] | Some ps \<Rightarrow> if ps = [] \<and> os = [] then [] else [dash, dash] # ps"
  define post' where "post' = (if post = Some [] \<and> os = [] then None else post)"
  have e: "sort_args ?rest = Some ([], [], post')"
    by (auto simp: post'_def dash_def split: option.split)
  have p: "sort_args (pre @ ?rest) = Some ([], pre, post')"
    using sort_plain [of pre ?rest] r e by simp
  show ?thesis
  proof (cases "os = []")
    case True
    then have "tl (canonical p x) = pre @ ?rest" by (cases post) (simp_all add: x)
    with p have "sort_args (tl (canonical p x)) = Some ([], pre, post')" by simp
    moreover have "canonical p ([], pre, post') = canonical p x"
      using True by (simp add: x post'_def split: option.split)
    ultimately show ?thesis by blast
  next
    case False
    let ?os = "split_from (joined os) []"
    have "sort_args ([dash, CHR ''o''] # joined os # pre @ ?rest) = Some (?os, pre, post')"
      using p by (simp add: add_group_def)
    moreover have "joined ?os = joined os" "?os \<noteq> []" "post' = post"
      using False r joined_split split_not_empty by (auto simp: post'_def)
    ultimately have "sort_args (tl (canonical p x)) = Some (?os, pre, post)" "canonical p (?os, pre, post) = canonical p x"
      using False by (cases post; simp add: x)+
    then show ?thesis by blast
  qed
qed


end
