(* ===== verification/Tsfn_Dispatcher.thy ===== *)
theory Tsfn_Dispatcher
  imports Complex_Main Priority_Queue Fuse_Prelude
begin

text \<open>
  The dispatcher of the addon (\<open>src/src/tsfn_dispatcher.cc\<close>), which carries the callbacks of
  the FUSE threads to the JavaScript thread: requests wait in a priority queue, worker threads
  hand them to the thread-safe function of their operation, and the JavaScript thread runs them.

  The state has the members of \<open>TSFNDispatcher\<close>. A \<open>std::function\<close> is present or null; calling
  one is an event in the log. Request numbers come from a 64-bit counter that does not wrap in
  practice, they are natural numbers here. The flag \<open>completed\<close> of a callback is read only through
  \<open>pending_requests_\<close> and kept there. N-API is outside: whether creating a thread-safe function
  and \<open>NonBlockingCall\<close> succeed, and whether the JavaScript code throws, are parameters; the
  calls handed over and not yet run are the list \<open>d_posted\<close>. The average latency is a real number.
\<close>

section \<open>State\<close>

datatype CallbackPriority = HIGH | NORMAL | LOW

fun callback_priority_int :: "CallbackPriority \<Rightarrow> int" where
  "callback_priority_int HIGH = 0"
| "callback_priority_int NORMAL = 1"
| "callback_priority_int LOW = 2"

record CallbackContext =
  operation_name :: string
  request_id :: nat
  cc_priority :: CallbackPriority
  cc_timestamp :: int
  callback_fn :: bool
  cc_error_callback :: bool

record PendingCallback =
  pc_context :: CallbackContext
  pc_completion_callback :: bool
  pc_completed :: bool

abbreviation pc_id :: "PendingCallback \<Rightarrow> nat" where "pc_id p \<equiv> request_id (pc_context p)"

record DispatcherStats =
  total_dispatched :: nat
  total_completed :: nat
  total_errors :: nat
  ds_queue_size :: nat
  ds_max_queue_size :: nat
  ds_avg_latency_ms :: real
  start_time :: int

datatype DispatcherState = UNINITIALIZED | INITIALIZING | RUNNING | SHUTTING_DOWN | SHUTDOWN

datatype tsfn_event =
    Ran nat bool
  | CompletionCall nat bool
  | ErrorCall nat int

record TSFNDispatcher =
  d_state :: DispatcherState
  d_max_queue_size :: nat
  d_worker_threads :: nat
  d_tsfn :: bool
  handlers :: "string list"
  callback_queue :: "PendingCallback list"
  next_request_id :: nat
  pending_requests :: "(nat \<times> PendingCallback) list"
  workers_running :: bool
  d_workers :: nat
  accepting :: bool
  d_inflight :: int
  d_stats :: DispatcherStats
  d_priority_ordering :: bool
  d_posted :: "PendingCallback list"
  d_log :: "tsfn_event list"

definition new_dispatcher_stats :: "int \<Rightarrow> DispatcherStats" where
  "new_dispatcher_stats now = \<lparr>total_dispatched = 0, total_completed = 0, total_errors = 0, ds_queue_size = 0,
     ds_max_queue_size = 0, ds_avg_latency_ms = 0, start_time = now\<rparr>"

definition new_dispatcher :: "int \<Rightarrow> nat \<Rightarrow> nat \<Rightarrow> TSFNDispatcher" where
  "new_dispatcher now mx threads =
     \<lparr>d_state = UNINITIALIZED, d_max_queue_size = mx, d_worker_threads = (if threads = 0 then 1 else threads),
      d_tsfn = False, handlers = [], callback_queue = [], next_request_id = 1, pending_requests = [],
      workers_running = False, d_workers = 0, accepting = True, d_inflight = 0, d_stats = new_dispatcher_stats now,
      d_priority_ordering = True, d_posted = [], d_log = []\<rparr>"

text \<open>\<open>created\<close>: the thread-safe function and the threads could be created.\<close>

definition Initialize :: "bool \<Rightarrow> int \<Rightarrow> TSFNDispatcher \<Rightarrow> bool \<times> TSFNDispatcher" where
  "Initialize created now d =
     (if d_state d \<noteq> UNINITIALIZED then (False, d)
      else if created then
        (True, d\<lparr>d_state := RUNNING, d_tsfn := True, workers_running := True, d_workers := d_worker_threads d,
                 accepting := True, d_stats := new_dispatcher_stats now, next_request_id := 1\<rparr>)
      else (False, d\<lparr>d_state := UNINITIALIZED, d_tsfn := False\<rparr>))"

definition IsReady :: "TSFNDispatcher \<Rightarrow> bool" where
  "IsReady d \<longleftrightarrow> d_state d = RUNNING \<and> workers_running d"

section \<open>Handlers\<close>

definition RegisterHandler :: "bool \<Rightarrow> string \<Rightarrow> TSFNDispatcher \<Rightarrow> bool \<times> TSFNDispatcher" where
  "RegisterHandler created opn d =
     (if d_state d \<noteq> RUNNING \<or> \<not> created then (False, d)
      else (True, d\<lparr>handlers := (if opn \<in> set (handlers d) then handlers d else handlers d @ [opn])\<rparr>))"

definition UnregisterHandler :: "string \<Rightarrow> TSFNDispatcher \<Rightarrow> bool \<times> TSFNDispatcher" where
  "UnregisterHandler opn d =
     (if opn \<notin> set (handlers d) then (False, d) else (True, d\<lparr>handlers := removeAll opn (handlers d)\<rparr>))"

section \<open>Taking in requests\<close>

definition pending_emplace :: "PendingCallback \<Rightarrow> (nat \<times> PendingCallback) list \<Rightarrow> (nat \<times> PendingCallback) list" where
  "pending_emplace p ps = (if pc_id p \<in> fst ` set ps then ps else ps @ [(pc_id p, p)])"

definition pending_erase :: "nat \<Rightarrow> (nat \<times> PendingCallback) list \<Rightarrow> (nat \<times> PendingCallback) list" where
  "pending_erase i ps = filter (\<lambda>e. fst e \<noteq> i) ps"

text \<open>
  The three parts of \<open>Dispatch\<close> and \<open>DispatchCustom\<close> between which other threads may run: the
  request is created and entered into \<open>pending_requests_\<close>, it is queued (or rejected), and it is
  counted as in flight.
\<close>

definition dispatch_enter :: "(nat \<Rightarrow> PendingCallback) \<Rightarrow> TSFNDispatcher \<Rightarrow> PendingCallback \<times> TSFNDispatcher" where
  "dispatch_enter mk d =
     (let p = mk (next_request_id d)
      in (p, d\<lparr>next_request_id := next_request_id d + 1, pending_requests := pending_emplace p (pending_requests d)\<rparr>))"

definition dispatch_push :: "PendingCallback \<Rightarrow> TSFNDispatcher \<Rightarrow> bool \<times> TSFNDispatcher" where
  "dispatch_push p d =
     (if d_max_queue_size d > 0 \<and> length (callback_queue d) \<ge> d_max_queue_size d
      then (False, d\<lparr>pending_requests := pending_erase (pc_id p) (pending_requests d)\<rparr>)
      else let q = callback_queue d @ [p]; st = (d_stats d)\<lparr>ds_queue_size := length q\<rparr>
           in (True, d\<lparr>callback_queue := q,
                       d_stats := st\<lparr>ds_max_queue_size := max (ds_max_queue_size st) (ds_queue_size st)\<rparr>\<rparr>))"

definition dispatch_count :: "TSFNDispatcher \<Rightarrow> TSFNDispatcher" where
  "dispatch_count d = d\<lparr>d_inflight := d_inflight d + 1\<rparr>"

definition dispatch_request :: "(nat \<Rightarrow> PendingCallback) \<Rightarrow> TSFNDispatcher \<Rightarrow> nat \<times> TSFNDispatcher" where
  "dispatch_request mk d =
     (case dispatch_enter mk d of (p, d1) \<Rightarrow>
        (case dispatch_push p d1 of
           (False, d2) \<Rightarrow> (0, d2)
         | (True, d2) \<Rightarrow> (pc_id p, dispatch_count d2)))"

definition dispatch_callback :: "string \<Rightarrow> CallbackPriority \<Rightarrow> bool \<Rightarrow> int \<Rightarrow> nat \<Rightarrow> PendingCallback" where
  "dispatch_callback opn prio completion now i =
     \<lparr>pc_context = \<lparr>operation_name = opn, request_id = i, cc_priority = prio, cc_timestamp = now,
                    callback_fn = True, cc_error_callback = False\<rparr>,
      pc_completion_callback = completion, pc_completed = False\<rparr>"

definition custom_callback :: "string \<Rightarrow> CallbackPriority \<Rightarrow> bool \<Rightarrow> bool \<Rightarrow> int \<Rightarrow> nat \<Rightarrow> PendingCallback" where
  "custom_callback opn prio fn err now i =
     \<lparr>pc_context = \<lparr>operation_name = opn, request_id = i, cc_priority = prio, cc_timestamp = now,
                    callback_fn = fn, cc_error_callback = err\<rparr>,
      pc_completion_callback = False, pc_completed = False\<rparr>"

definition Dispatch :: "string \<Rightarrow> CallbackPriority \<Rightarrow> bool \<Rightarrow> int \<Rightarrow> TSFNDispatcher \<Rightarrow> nat \<times> TSFNDispatcher" where
  "Dispatch opn prio completion now d =
     (if d_state d \<noteq> RUNNING \<or> \<not> accepting d then (0, d)
      else if opn \<notin> set (handlers d) then (0, d)
      else dispatch_request (dispatch_callback opn prio completion now) d)"

definition DispatchCustom :: "string \<Rightarrow> CallbackPriority \<Rightarrow> bool \<Rightarrow> bool \<Rightarrow> int \<Rightarrow> TSFNDispatcher \<Rightarrow> nat \<times> TSFNDispatcher" where
  "DispatchCustom opn prio fn err now d =
     (if d_state d \<noteq> RUNNING \<or> \<not> accepting d then (0, d)
      else dispatch_request (custom_callback opn prio fn err now) d)"

section \<open>Serving requests\<close>

definition tsfn_ComparePriority :: "PendingCallback \<Rightarrow> PendingCallback \<Rightarrow> bool" where
  "tsfn_ComparePriority a b =
     (if cc_priority (pc_context a) \<noteq> cc_priority (pc_context b)
      then callback_priority_int (cc_priority (pc_context a)) > callback_priority_int (cc_priority (pc_context b))
      else cc_timestamp (pc_context a) > cc_timestamp (pc_context b))"

definition DecInflight :: "TSFNDispatcher \<Rightarrow> TSFNDispatcher" where
  "DecInflight d = d\<lparr>d_inflight := d_inflight d - 1\<rparr>"

definition tsfn_UpdateStats :: "real \<Rightarrow> bool \<Rightarrow> TSFNDispatcher \<Rightarrow> TSFNDispatcher" where
  "tsfn_UpdateStats latency_ms success d =
     (let st = (d_stats d)\<lparr>total_dispatched := total_dispatched (d_stats d) + 1\<rparr>;
          n = total_completed st + 1
      in d\<lparr>d_stats := (if success
             then st\<lparr>total_completed := n,
                     ds_avg_latency_ms := (ds_avg_latency_ms st * (real n - 1) + latency_ms) / real n\<rparr>
             else st)\<rparr>)"

definition call_error :: "CallbackContext \<Rightarrow> int \<Rightarrow> TSFNDispatcher \<Rightarrow> TSFNDispatcher" where
  "call_error c e d = (if cc_error_callback c then d\<lparr>d_log := d_log d @ [ErrorCall (request_id c) e]\<rparr> else d)"

definition mark_completed :: "nat \<Rightarrow> (nat \<times> PendingCallback) list \<Rightarrow> (nat \<times> PendingCallback) list" where
  "mark_completed i ps = map (\<lambda>(k, p). (k, if k = i then p\<lparr>pc_completed := True\<rparr> else p)) ps"

text \<open>The error code the caller passes is not used.\<close>

definition HandleCallbackError :: "nat \<Rightarrow> int \<Rightarrow> TSFNDispatcher \<Rightarrow> TSFNDispatcher" where
  "HandleCallbackError i code d =
     (let d1 = d\<lparr>d_stats := (d_stats d)\<lparr>total_errors := total_errors (d_stats d) + 1\<rparr>\<rparr>
      in case map_of (pending_requests d1) i of
           None \<Rightarrow> d1
         | Some p \<Rightarrow> call_error (pc_context p) (- EIO) (d1\<lparr>pending_requests := mark_completed i (pending_requests d1)\<rparr>))"

text \<open>The locked section of a worker; \<open>c\<close> settles ties.\<close>

definition worker_take :: "nat \<Rightarrow> TSFNDispatcher \<Rightarrow> (PendingCallback \<times> TSFNDispatcher) option" where
  "worker_take c d =
     (if \<not> workers_running d \<or> callback_queue d = [] then None
      else case take_best tsfn_ComparePriority c (callback_queue d) of
             (p, q) \<Rightarrow> Some (p, d\<lparr>callback_queue := q, d_stats := (d_stats d)\<lparr>ds_queue_size := length q\<rparr>\<rparr>))"

text \<open>\<open>call_ok\<close>: \<open>NonBlockingCall\<close> returned \<open>napi_ok\<close>.\<close>

definition ProcessCallback :: "bool \<Rightarrow> PendingCallback \<Rightarrow> TSFNDispatcher \<Rightarrow> TSFNDispatcher" where
  "ProcessCallback call_ok p d =
     (if d_state d \<noteq> RUNNING then DecInflight (HandleCallbackError (pc_id p) (-1) d)
      else if operation_name (pc_context p) \<notin> set (handlers d) then DecInflight (HandleCallbackError (pc_id p) (- ENOSYS) d)
      else if call_ok then d\<lparr>d_posted := d_posted d @ [p]\<rparr>
      else DecInflight (HandleCallbackError (pc_id p) (- EIO) d))"

text \<open>
  The function that runs on the JavaScript thread. \<open>fn_ok\<close> and \<open>comp_ok\<close>: the callback and the
  completion callback return without an exception.
\<close>

definition js_body :: "bool \<Rightarrow> bool \<Rightarrow> PendingCallback \<Rightarrow> TSFNDispatcher \<Rightarrow> bool \<times> TSFNDispatcher" where
  "js_body fn_ok comp_ok p d =
     (let c = pc_context p; i = request_id c;
          d1 = (if callback_fn c then d\<lparr>d_log := d_log d @ [Ran i fn_ok]\<rparr> else d)
      in if callback_fn c \<and> \<not> fn_ok then (False, call_error c (- EIO) d1)
         else let d2 = d1\<lparr>pending_requests := mark_completed i (pending_requests d1)\<rparr>;
                  d3 = (if pc_completion_callback p then d2\<lparr>d_log := d_log d2 @ [CompletionCall i comp_ok]\<rparr> else d2)
              in if pc_completion_callback p \<and> \<not> comp_ok then (False, call_error c (- EIO) d3) else (True, d3))"

definition js_call :: "bool \<Rightarrow> bool \<Rightarrow> real \<Rightarrow> PendingCallback \<Rightarrow> TSFNDispatcher \<Rightarrow> TSFNDispatcher" where
  "js_call fn_ok comp_ok latency_ms p d =
     (case js_body fn_ok comp_ok p d of (ok, d1) \<Rightarrow>
        let d2 = tsfn_UpdateStats latency_ms ok d1
        in DecInflight (d2\<lparr>pending_requests := pending_erase (pc_id p) (pending_requests d2)\<rparr>))"

section \<open>Waiting, statistics, configuration\<close>

text \<open>One round of the loops of \<open>WaitForCompletion\<close> and \<open>WaitForAllCompletion\<close>.\<close>

definition completion_poll :: "nat \<Rightarrow> TSFNDispatcher \<Rightarrow> bool" where
  "completion_poll i d = (case map_of (pending_requests d) i of None \<Rightarrow> True | Some p \<Rightarrow> pc_completed p)"

definition all_completion_poll :: "TSFNDispatcher \<Rightarrow> bool" where
  "all_completion_poll d \<longleftrightarrow> pending_requests d = [] \<and> callback_queue d = []"

text \<open>The states the poller sees, at intervals of 5 ms until the time is over.\<close>

definition WaitForCompletion :: "nat \<Rightarrow> TSFNDispatcher list \<Rightarrow> bool" where
  "WaitForCompletion i ds = list_ex (completion_poll i) ds"

definition WaitForAllCompletion :: "TSFNDispatcher list \<Rightarrow> bool" where
  "WaitForAllCompletion ds = list_ex all_completion_poll ds"

definition tsfn_GetQueueSize :: "TSFNDispatcher \<Rightarrow> nat" where
  "tsfn_GetQueueSize d = length (callback_queue d)"

definition tsfn_ResetStats :: "int \<Rightarrow> TSFNDispatcher \<Rightarrow> TSFNDispatcher" where
  "tsfn_ResetStats now d = d\<lparr>d_stats := new_dispatcher_stats now\<rparr>"

definition tsfn_SetMaxQueueSize :: "nat \<Rightarrow> TSFNDispatcher \<Rightarrow> TSFNDispatcher" where
  "tsfn_SetMaxQueueSize n d = d\<lparr>d_max_queue_size := n\<rparr>"

definition tsfn_SetPriorityOrdering :: "bool \<Rightarrow> TSFNDispatcher \<Rightarrow> TSFNDispatcher" where
  "tsfn_SetPriorityOrdering b d = d\<lparr>d_priority_ordering := b\<rparr>"

section \<open>Shutdown\<close>

definition cancel_one :: "PendingCallback \<Rightarrow> TSFNDispatcher \<Rightarrow> TSFNDispatcher" where
  "cancel_one p d =
     DecInflight (call_error (pc_context p) (- EIO) (d\<lparr>pending_requests := mark_completed (pc_id p) (pending_requests d)\<rparr>))"

text \<open>The queue in the order of \<open>top\<close> and \<open>pop\<close> (the first of equals), then the pending requests.\<close>

function cancel_queue :: "TSFNDispatcher \<Rightarrow> TSFNDispatcher" where
  "cancel_queue d =
     (if callback_queue d = [] then d
      else case take_best tsfn_ComparePriority 0 (callback_queue d) of
             (p, q) \<Rightarrow> cancel_queue (cancel_one p (d\<lparr>callback_queue := q\<rparr>)))"
  by pat_completeness auto

lemma tsfn_ComparePriority_iff:
  "tsfn_ComparePriority a b \<longleftrightarrow>
     callback_priority_int (cc_priority (pc_context b)) < callback_priority_int (cc_priority (pc_context a)) \<or>
     cc_priority (pc_context a) = cc_priority (pc_context b) \<and> cc_timestamp (pc_context b) < cc_timestamp (pc_context a)"
  by (cases "cc_priority (pc_context a)"; cases "cc_priority (pc_context b)") (auto simp: tsfn_ComparePriority_def)

lemma callback_priority_inj: "callback_priority_int p = callback_priority_int r \<longleftrightarrow> p = r"
  by (cases p; cases r) auto

interpretation dq: ranking tsfn_ComparePriority
  by unfold_locales (auto simp: tsfn_ComparePriority_iff not_less le_less callback_priority_inj)

lemma cancel_one_frame [simp]: "callback_queue (cancel_one p d) = callback_queue d"
  by (simp add: cancel_one_def DecInflight_def call_error_def)

termination cancel_queue
proof (relation "measure (\<lambda>d. length (callback_queue d))", goal_cases)
  case (2 d p q)
  then show ?case
    using dq.take_best_spec [of "callback_queue d" 0 p q] by (auto dest: length_remove1_less)
qed simp

declare cancel_queue.simps [simp del]

definition cancel_pending :: "TSFNDispatcher \<Rightarrow> TSFNDispatcher" where
  "cancel_pending d = (fold (\<lambda>e. cancel_one (snd e)) (pending_requests d) d)\<lparr>pending_requests := []\<rparr>"

definition cancel_all_callbacks :: "TSFNDispatcher \<Rightarrow> TSFNDispatcher" where
  "cancel_all_callbacks d =
     (let d1 = cancel_queue d
      in cancel_pending (d1\<lparr>d_stats := (d_stats d1)\<lparr>ds_queue_size := 0\<rparr>\<rparr>))"

definition DrainWorkerThreads :: "TSFNDispatcher \<Rightarrow> TSFNDispatcher" where
  "DrainWorkerThreads d = d\<lparr>d_workers := 0\<rparr>"

text \<open>
  \<open>Shutdown\<close> from its first line to its last; the workers end when they are joined, and the calls
  that N-API has not run when the handlers are aborted are dropped there.
\<close>

definition Shutdown :: "TSFNDispatcher \<Rightarrow> bool \<times> TSFNDispatcher" where
  "Shutdown d =
     (if d_state d = SHUTDOWN then (True, DrainWorkerThreads d)
      else if d_state d = UNINITIALIZED then (True, DrainWorkerThreads (d\<lparr>d_state := SHUTDOWN\<rparr>))
      else let d1 = DrainWorkerThreads (d\<lparr>d_state := SHUTTING_DOWN, accepting := False, workers_running := False, d_posted := []\<rparr>);
               d2 = cancel_all_callbacks d1;
               d3 = (if d_inflight d2 \<noteq> 0 then cancel_all_callbacks d2 else d2)
           in (True, d3\<lparr>handlers := [], d_tsfn := False, callback_queue := [], pending_requests := [], d_state := SHUTDOWN\<rparr>))"

section \<open>The dispatcher of the process\<close>

definition InitializeGlobalDispatcher :: "bool \<Rightarrow> int \<Rightarrow> nat \<Rightarrow> nat \<Rightarrow> TSFNDispatcher option \<Rightarrow> bool \<times> TSFNDispatcher option" where
  "InitializeGlobalDispatcher created now mx threads g =
     (if g \<noteq> None then (False, g)
      else case Initialize created now (new_dispatcher now mx threads) of
             (True, d) \<Rightarrow> (True, Some d)
           | (False, d) \<Rightarrow> (False, None))"

definition ShutdownGlobalDispatcher :: "TSFNDispatcher option \<Rightarrow> bool \<times> TSFNDispatcher option" where
  "ShutdownGlobalDispatcher g = (case g of None \<Rightarrow> (True, None) | Some d \<Rightarrow> (fst (Shutdown d), None))"

end
