(* ===== verification/Tsfn_Properties.thy ===== *)
theory Tsfn_Properties
  imports Tsfn_Dispatcher
begin

text \<open>
  The dispatcher under any interleaving of the threads that dispatch, the workers and the
  JavaScript thread: every accepted request has one outcome, and \<open>inflight_\<close> counts the requests
  that have none yet. The last section is about \<open>Shutdown\<close>, where this does not hold.
\<close>

section \<open>Threads\<close>

text \<open>
  The dispatcher with the threads at work: requests between their entry and the queue, the
  number of queued ones that are not counted yet, and the requests a worker has taken.
  \<open>ts_accepted\<close> are the requests for which the caller gets a number.
\<close>

record tsfn_sys =
  ts_d :: TSFNDispatcher
  ts_entering :: "PendingCallback list"
  ts_uncounted :: nat
  ts_taken :: "PendingCallback list"
  ts_accepted :: "PendingCallback list"

definition shaped :: "PendingCallback \<Rightarrow> bool" where
  "shaped p \<longleftrightarrow> \<not> (pc_completion_callback p \<and> cc_error_callback (pc_context p))"

inductive tsfn_step :: "tsfn_sys \<Rightarrow> tsfn_sys \<Rightarrow> bool" where
  step_dispatch: "accepting (ts_d s) \<Longrightarrow> d_state (ts_d s) = RUNNING \<Longrightarrow> opn \<in> set (handlers (ts_d s)) \<Longrightarrow>
    dispatch_enter (dispatch_callback opn prio completion now) (ts_d s) = (p, d') \<Longrightarrow>
    tsfn_step s (s\<lparr>ts_d := d', ts_entering := p # ts_entering s\<rparr>)"
| step_custom: "accepting (ts_d s) \<Longrightarrow> d_state (ts_d s) = RUNNING \<Longrightarrow>
    dispatch_enter (custom_callback opn prio fn err now) (ts_d s) = (p, d') \<Longrightarrow>
    tsfn_step s (s\<lparr>ts_d := d', ts_entering := p # ts_entering s\<rparr>)"
| step_push: "p \<in> set (ts_entering s) \<Longrightarrow> dispatch_push p (ts_d s) = (True, d') \<Longrightarrow>
    tsfn_step s (s\<lparr>ts_d := d', ts_entering := remove1 p (ts_entering s), ts_uncounted := ts_uncounted s + 1,
                   ts_accepted := ts_accepted s @ [p]\<rparr>)"
| step_full: "p \<in> set (ts_entering s) \<Longrightarrow> dispatch_push p (ts_d s) = (False, d') \<Longrightarrow>
    tsfn_step s (s\<lparr>ts_d := d', ts_entering := remove1 p (ts_entering s)\<rparr>)"
| step_count: "ts_uncounted s = Suc n \<Longrightarrow> tsfn_step s (s\<lparr>ts_d := dispatch_count (ts_d s), ts_uncounted := n\<rparr>)"
| step_take: "worker_take c (ts_d s) = Some (p, d') \<Longrightarrow> tsfn_step s (s\<lparr>ts_d := d', ts_taken := p # ts_taken s\<rparr>)"
| step_process: "p \<in> set (ts_taken s) \<Longrightarrow>
    tsfn_step s (s\<lparr>ts_d := ProcessCallback call_ok p (ts_d s), ts_taken := remove1 p (ts_taken s)\<rparr>)"
| step_js: "p \<in> set (d_posted (ts_d s)) \<Longrightarrow>
    tsfn_step s (s\<lparr>ts_d := js_call fn_ok comp_ok lat p ((ts_d s)\<lparr>d_posted := remove1 p (d_posted (ts_d s))\<rparr>)\<rparr>)"
| step_handler: "RegisterHandler created opn (ts_d s) = (b, d') \<Longrightarrow> tsfn_step s (s\<lparr>ts_d := d'\<rparr>)"
| step_unhandler: "UnregisterHandler opn (ts_d s) = (b, d') \<Longrightarrow> tsfn_step s (s\<lparr>ts_d := d'\<rparr>)"
| step_limit: "tsfn_step s (s\<lparr>ts_d := tsfn_SetMaxQueueSize n (ts_d s)\<rparr>)"
| step_reset: "tsfn_step s (s\<lparr>ts_d := tsfn_ResetStats now (ts_d s)\<rparr>)"

definition tsfn_start :: "TSFNDispatcher \<Rightarrow> tsfn_sys" where
  "tsfn_start d = \<lparr>ts_d = d, ts_entering = [], ts_uncounted = 0, ts_taken = [], ts_accepted = []\<rparr>"

section \<open>Outcomes\<close>

text \<open>The requests that are accepted and not finished.\<close>

definition unfinished :: "tsfn_sys \<Rightarrow> PendingCallback multiset" where
  "unfinished s = mset (callback_queue (ts_d s)) + mset (ts_taken s) + mset (d_posted (ts_d s))"

text \<open>What the caller hears of a request: its callback ran to its end, or its error callback was called.\<close>

fun is_outcome :: "nat \<Rightarrow> tsfn_event \<Rightarrow> bool" where
  "is_outcome i (Ran k ok) \<longleftrightarrow> k = i \<and> ok"
| "is_outcome i (CompletionCall k ok) \<longleftrightarrow> False"
| "is_outcome i (ErrorCall k e) \<longleftrightarrow> k = i"

definition outcomes :: "nat \<Rightarrow> tsfn_event list \<Rightarrow> nat" where
  "outcomes i es = length (filter (is_outcome i) es)"

definition watched :: "PendingCallback \<Rightarrow> bool" where
  "watched p \<longleftrightarrow> callback_fn (pc_context p) \<and> cc_error_callback (pc_context p)"

lemma outcomes_append [simp]: "outcomes i (xs @ ys) = outcomes i xs + outcomes i ys"
  by (simp add: outcomes_def)

lemma outcomes_simps [simp]:
  "outcomes i [] = 0"
  "outcomes i (e # es) = (if is_outcome i e then Suc (outcomes i es) else outcomes i es)"
  by (simp_all add: outcomes_def)

section \<open>The invariant\<close>

definition uniq :: "PendingCallback multiset \<Rightarrow> bool" where
  "uniq M \<longleftrightarrow> (\<forall>i. count (image_mset pc_id M) i \<le> 1)"

definition known :: "(nat \<times> PendingCallback) list \<Rightarrow> PendingCallback \<Rightarrow> bool" where
  "known ps p \<longleftrightarrow> (\<exists>p'. map_of ps (pc_id p) = Some p' \<and> pc_context p' = pc_context p)"

definition outcome_settled :: "PendingCallback multiset \<Rightarrow> tsfn_event list \<Rightarrow> PendingCallback \<Rightarrow> bool" where
  "outcome_settled N es p \<longleftrightarrow>
     (if p \<in># N then outcomes (pc_id p) es = 0
      else outcomes (pc_id p) es \<le> 1 \<and> (watched p \<longrightarrow> outcomes (pc_id p) es = 1))"

definition core where
  "core E N acc unc nxt pend infl es \<longleftrightarrow>
     uniq (E + N) \<and>
     (\<forall>p \<in># E + N. pc_id p < nxt \<and> shaped p \<and> known pend p) \<and>
     (\<forall>p\<in>set acc. pc_id p < nxt) \<and> (\<forall>e\<in>set pend. fst e < nxt) \<and>
     infl + int unc = int (size N) \<and> set_mset N \<subseteq> set acc \<and>
     (\<forall>p \<in># E. pc_id p \<notin> pc_id ` set acc) \<and> inj_on pc_id (set acc) \<and>
     (\<forall>i. i \<notin> pc_id ` set acc \<longrightarrow> outcomes i es = 0) \<and> (\<forall>p\<in>set acc. outcome_settled N es p)"

definition tsfn_inv :: "tsfn_sys \<Rightarrow> bool" where
  "tsfn_inv s \<longleftrightarrow>
     core (mset (ts_entering s)) (unfinished s) (ts_accepted s) (ts_uncounted s) (next_request_id (ts_d s))
       (pending_requests (ts_d s)) (d_inflight (ts_d s)) (d_log (ts_d s))"

lemma uniqD:
  assumes "uniq M" "p \<in># M" "q \<in># M - {#p#}"
  shows "pc_id q \<noteq> pc_id p"
proof
  assume eq: "pc_id q = pc_id p"
  obtain K where "M = add_mset p (add_mset q K)"
    using assms(2,3) by (metis insert_DiffM)
  with assms(1) [unfolded uniq_def, rule_format, of "pc_id p"] eq show False by simp
qed

lemma uniq_add: "uniq M \<Longrightarrow> (\<And>q. q \<in># M \<Longrightarrow> pc_id q \<noteq> pc_id p) \<Longrightarrow> uniq (add_mset p M)"
  unfolding uniq_def by (auto simp: not_in_iff [symmetric]) blast

lemma uniq_sub: "uniq M \<Longrightarrow> N \<subseteq># M \<Longrightarrow> uniq N"
  unfolding uniq_def by (meson image_mset_subseteq_mono mset_subset_eq_count order_trans)

lemma known_emplace:
  assumes "pc_id p \<notin> fst ` set ps"
  shows "known (pending_emplace p ps) p" "known ps q \<Longrightarrow> known (pending_emplace p ps) q"
  using assms by (auto simp: known_def pending_emplace_def map_add_def split: option.split dest: map_of_SomeD weak_map_of_SomeI
    intro: rev_image_eqI)

lemma known_mark: "known ps q \<Longrightarrow> known (mark_completed i ps) q"
  unfolding known_def mark_completed_def
  by (induction ps) (auto split: if_splits)

lemma known_erase: "known ps q \<Longrightarrow> pc_id q \<noteq> i \<Longrightarrow> known (pending_erase i ps) q"
  unfolding known_def pending_erase_def by (induction ps) (auto split: if_splits)

lemma keys_emplace: "fst ` set (pending_emplace p ps) = insert (pc_id p) (fst ` set ps)"
  by (auto simp: pending_emplace_def)

lemma keys_mark: "fst ` set (mark_completed i ps) = fst ` set ps"
  by (force simp: mark_completed_def)

lemma core_enter:
  assumes c: "core E N acc unc nxt pend infl es" and p: "pc_id p = nxt" "shaped p"
  shows "core (add_mset p E) N acc unc (Suc nxt) (pending_emplace p pend) infl es"
proof -
  have less: "\<forall>e\<in>set pend. fst e < nxt" "\<forall>q\<in>#E + N. pc_id q < nxt" "\<forall>q\<in>set acc. pc_id q < nxt"
    using c by (simp_all add: core_def)
  have fresh: "nxt \<notin> fst ` set pend" "\<And>q. q \<in># E + N \<Longrightarrow> pc_id q \<noteq> pc_id p" "pc_id p \<notin> pc_id ` set acc"
    using less p by (auto dest: bspec)
  have "uniq (add_mset p (E + N))" using c fresh(2) by (intro uniq_add) (auto simp: core_def)
  moreover have "known (pending_emplace p pend) q" if "q \<in># add_mset p (E + N)" for q
    using that c fresh(1) p known_emplace [of p pend] by (auto simp: core_def)
  moreover have "\<forall>e\<in>set (pending_emplace p pend). fst e < Suc nxt"
  proof
    fix e
    assume "e \<in> set (pending_emplace p pend)"
    then have "fst e \<in> insert (pc_id p) (fst ` set pend)" using keys_emplace [of p pend] by blast
    with less(1) p show "fst e < Suc nxt" by auto
  qed
  ultimately show ?thesis
    using c p fresh(3) unfolding core_def by (auto simp: less_Suc_eq)
qed

lemma core_push:
  assumes c: "core (add_mset p E) N acc unc nxt pend infl es"
  shows "core E (add_mset p N) (acc @ [p]) (unc + 1) nxt pend infl es"
proof -
  have p: "pc_id p \<notin> pc_id ` set acc" "pc_id p < nxt" using c by (auto simp: core_def)
  have E: "pc_id q \<noteq> pc_id p" if "q \<in># E" for q
    using uniqD [of "add_mset p E + N" p q] c that by (auto simp: core_def)
  have "outcomes (pc_id p) es = 0" using c p by (auto simp: core_def)
  then have "outcome_settled (add_mset p N) es q" if "q \<in> set (acc @ [p])" for q
    using c that p(1) by (auto simp: core_def outcome_settled_def)
  then show ?thesis using c p E unfolding core_def by (auto simp: inj_on_insert)
qed

lemma core_drop:
  assumes c: "core (add_mset p E) N acc unc nxt pend infl es"
  shows "core E N acc unc nxt (pending_erase (pc_id p) pend) infl es"
proof -
  have "uniq (E + N)" using c by (auto simp: core_def intro: uniq_sub)
  moreover have "known (pending_erase (pc_id p) pend) q" if "q \<in># E + N" for q
  proof -
    have "pc_id q \<noteq> pc_id p" using uniqD [of "add_mset p E + N" p q] c that by (auto simp: core_def)
    then show ?thesis using c that by (auto simp: core_def intro: known_erase)
  qed
  moreover have "\<forall>e\<in>set (pending_erase (pc_id p) pend). fst e < nxt"
    using c by (auto simp: core_def pending_erase_def)
  ultimately show ?thesis using c unfolding core_def by auto
qed

lemma core_finish:
  assumes c: "core E (add_mset p N) acc unc nxt pend infl es"
    and pend': "\<And>q. known pend q \<Longrightarrow> pc_id q \<noteq> pc_id p \<Longrightarrow> known pend' q" "fst ` set pend' \<subseteq> fst ` set pend"
    and es': "\<And>i. i \<noteq> pc_id p \<Longrightarrow> outcomes i es' = 0" "outcomes (pc_id p) es' \<le> 1"
      "watched p \<Longrightarrow> outcomes (pc_id p) es' = 1"
  shows "core E N acc unc nxt pend' (infl - 1) (es @ es')"
proof -
  have other: "pc_id q \<noteq> pc_id p" if "q \<in># E + N" for q
    using uniqD [of "E + add_mset p N" p q] c that by (auto simp: core_def)
  have pN: "p \<notin># N" using other by auto
  have acc: "p \<in> set acc" "inj_on pc_id (set acc)" using c by (auto simp: core_def)
  have "uniq (E + N)" using c by (auto simp: core_def intro: uniq_sub)
  moreover have "known pend' q" if "q \<in># E + N" for q
    using that c other [OF that] pend'(1) by (auto simp: core_def)
  moreover have "\<forall>e\<in>set pend'. fst e < nxt"
    using c pend'(2) by (fastforce simp: core_def)
  moreover have "outcome_settled N (es @ es') q" if "q \<in> set acc" for q
  proof (cases "q = p")
    case True
    then show ?thesis using c acc(1) pN es'(2,3) by (auto simp: core_def outcome_settled_def)
  next
    case False
    then have "pc_id q \<noteq> pc_id p" using acc that by (auto dest: inj_onD)
    then show ?thesis using c that False es'(1) by (auto simp: core_def outcome_settled_def)
  qed
  moreover have "outcomes i (es @ es') = 0" if "i \<notin> pc_id ` set acc" for i
    using c that acc(1) es'(1) [of i] by (auto simp: core_def)
  ultimately show ?thesis using c unfolding core_def by auto
qed

section \<open>Steps\<close>

lemma call_error_sel [simp]:
  "d_state (call_error c e d) = d_state d" "callback_queue (call_error c e d) = callback_queue d"
  "d_posted (call_error c e d) = d_posted d" "pending_requests (call_error c e d) = pending_requests d"
  "d_inflight (call_error c e d) = d_inflight d" "next_request_id (call_error c e d) = next_request_id d"
  "d_log (call_error c e d) = d_log d @ (if cc_error_callback c then [ErrorCall (request_id c) e] else [])"
  by (simp_all add: call_error_def)

lemma handle_error_sel [simp]:
  "d_posted (HandleCallbackError i e d) = d_posted d" "callback_queue (HandleCallbackError i e d) = callback_queue d"
  "d_inflight (HandleCallbackError i e d) = d_inflight d" "next_request_id (HandleCallbackError i e d) = next_request_id d"
  by (simp_all add: HandleCallbackError_def Let_def split: option.split)

lemma handle_error_known:
  assumes "known (pending_requests d) p"
  shows "pending_requests (HandleCallbackError (pc_id p) e d) = mark_completed (pc_id p) (pending_requests d)"
    "d_log (HandleCallbackError (pc_id p) e d) =
       d_log d @ (if cc_error_callback (pc_context p) then [ErrorCall (pc_id p) (- EIO)] else [])"
  using assms by (auto simp: HandleCallbackError_def Let_def known_def)

lemma core_fail:
  assumes c: "core E (add_mset p N) acc unc (next_request_id d) (pending_requests d) (d_inflight d) (d_log d)"
  shows "core E N acc unc (next_request_id d) (pending_requests (HandleCallbackError (pc_id p) e d)) (d_inflight d - 1)
    (d_log (HandleCallbackError (pc_id p) e d))"
proof -
  have k: "known (pending_requests d) p" using c by (auto simp: core_def)
  show ?thesis
    unfolding handle_error_known [OF k]
    by (rule core_finish [OF c]) (auto simp: keys_mark known_mark watched_def)
qed

lemma core_js:
  assumes c: "core E (add_mset p N) acc unc (next_request_id d) (pending_requests d) (d_inflight d) (d_log d)"
  shows "core E N acc unc (next_request_id (js_call fn_ok comp_ok lat p d)) (pending_requests (js_call fn_ok comp_ok lat p d))
    (d_inflight (js_call fn_ok comp_ok lat p d)) (d_log (js_call fn_ok comp_ok lat p d))"
proof -
  have sh: "shaped p" using c by (auto simp: core_def)
  obtain ok d1 where b: "js_body fn_ok comp_ok p d = (ok, d1)" by fastforce
  obtain es' where log: "d_log d1 = d_log d @ es'" and es': "\<And>i. i \<noteq> pc_id p \<Longrightarrow> outcomes i es' = 0"
      "outcomes (pc_id p) es' \<le> 1" "watched p \<Longrightarrow> outcomes (pc_id p) es' = 1"
    using b sh by (auto simp: js_body_def Let_def shaped_def watched_def split: if_splits)
  have pend: "known (pending_erase (pc_id p) (pending_requests d1)) q" if "known (pending_requests d) q" "pc_id q \<noteq> pc_id p" for q
    using b that by (auto simp: js_body_def Let_def known_mark known_erase split: if_splits)
  have keys: "fst ` set (pending_erase (pc_id p) (pending_requests d1)) \<subseteq> fst ` set (pending_requests d)"
  proof -
    have "pending_requests d1 = pending_requests d \<or> pending_requests d1 = mark_completed (pc_id p) (pending_requests d)"
      using b by (auto simp: js_body_def Let_def split: if_splits)
    then have "fst ` set (pending_requests d1) = fst ` set (pending_requests d)" using keys_mark by metis
    then show ?thesis by (auto simp: pending_erase_def)
  qed
  have rest: "next_request_id d1 = next_request_id d" "d_inflight d1 = d_inflight d"
    using b by (auto simp: js_body_def Let_def split: if_splits)
  show ?thesis
    using core_finish [OF c pend keys es'] log rest
    by (simp add: js_call_def b Let_def DecInflight_def tsfn_UpdateStats_def)
qed

lemma entering_step: "p \<in> set xs \<Longrightarrow> mset xs = add_mset p (mset (remove1 p xs))"
  by simp

lemma inv_push:
  assumes inv: "tsfn_inv s" and p: "p \<in> set (ts_entering s)" and push: "dispatch_push p (ts_d s) = (b, d')"
  shows "b \<Longrightarrow> tsfn_inv (s\<lparr>ts_d := d', ts_entering := remove1 p (ts_entering s), ts_uncounted := ts_uncounted s + 1,
        ts_accepted := ts_accepted s @ [p]\<rparr>)"
    and "\<not> b \<Longrightarrow> tsfn_inv (s\<lparr>ts_d := d', ts_entering := remove1 p (ts_entering s)\<rparr>)"
proof -
  have c: "core (add_mset p (mset (remove1 p (ts_entering s)))) (unfinished s) (ts_accepted s) (ts_uncounted s)
      (next_request_id (ts_d s)) (pending_requests (ts_d s)) (d_inflight (ts_d s)) (d_log (ts_d s))"
    unfolding entering_step [OF p, symmetric] by (rule inv [unfolded tsfn_inv_def])
  have same: "d_posted d' = d_posted (ts_d s) \<and> d_inflight d' = d_inflight (ts_d s) \<and> d_log d' = d_log (ts_d s) \<and>
      next_request_id d' = next_request_id (ts_d s)"
    using push by (auto simp: dispatch_push_def Let_def split: if_splits)
  have ok: "callback_queue d' = callback_queue (ts_d s) @ [p] \<and> pending_requests d' = pending_requests (ts_d s)" if b
    using push that by (auto simp: dispatch_push_def Let_def split: if_splits)
  have full: "callback_queue d' = callback_queue (ts_d s) \<and> pending_requests d' = pending_erase (pc_id p) (pending_requests (ts_d s))" if "\<not> b"
    using push that by (auto simp: dispatch_push_def Let_def split: if_splits)
  show "tsfn_inv (s\<lparr>ts_d := d', ts_entering := remove1 p (ts_entering s), ts_uncounted := ts_uncounted s + 1,
        ts_accepted := ts_accepted s @ [p]\<rparr>)" if b
    using core_push [OF c] ok [OF that] same by (simp add: tsfn_inv_def unfinished_def)
  show "tsfn_inv (s\<lparr>ts_d := d', ts_entering := remove1 p (ts_entering s)\<rparr>)" if "\<not> b"
    using core_drop [OF c] full [OF that] same by (simp add: tsfn_inv_def unfinished_def)
qed

lemma inv_enter:
  assumes "tsfn_inv s" "dispatch_enter mk (ts_d s) = (p, d')" "\<And>i. pc_id (mk i) = i" "\<And>i. shaped (mk i)"
  shows "tsfn_inv (s\<lparr>ts_d := d', ts_entering := p # ts_entering s\<rparr>)"
proof -
  have p: "p = mk (next_request_id (ts_d s))" using assms(2) by (simp add: dispatch_enter_def Let_def)
  then have d': "d' = (ts_d s)\<lparr>next_request_id := next_request_id (ts_d s) + 1,
      pending_requests := pending_emplace p (pending_requests (ts_d s))\<rparr>"
    using assms(2) by (simp add: dispatch_enter_def Let_def)
  show ?thesis
    using core_enter [OF assms(1) [unfolded tsfn_inv_def], of p] assms(3,4)
    by (simp add: tsfn_inv_def unfinished_def d' p)
qed

lemma inv_process:
  assumes inv: "tsfn_inv s" and p: "p \<in> set (ts_taken s)"
  shows "tsfn_inv (s\<lparr>ts_d := ProcessCallback call_ok p (ts_d s), ts_taken := remove1 p (ts_taken s)\<rparr>)"
proof -
  let ?d = "ts_d s"
  define N where "N = mset (callback_queue ?d) + mset (remove1 p (ts_taken s)) + mset (d_posted ?d)"
  have "unfinished s = add_mset p N"
    using entering_step [OF p] by (simp add: unfinished_def N_def)
  then have c: "core (mset (ts_entering s)) (add_mset p N) (ts_accepted s) (ts_uncounted s)
      (next_request_id ?d) (pending_requests ?d) (d_inflight ?d) (d_log ?d)"
    using inv by (simp add: tsfn_inv_def)
  consider "ProcessCallback call_ok p ?d = ?d\<lparr>d_posted := d_posted ?d @ [p]\<rparr>"
    | e where "ProcessCallback call_ok p ?d = DecInflight (HandleCallbackError (pc_id p) e ?d)"
    by (cases "d_state ?d = RUNNING"; cases "operation_name (pc_context p) \<in> set (handlers ?d)"; cases call_ok)
       (auto simp: ProcessCallback_def)
  then show ?thesis
  proof cases
    case 1
    then show ?thesis using c by (simp add: tsfn_inv_def unfinished_def N_def)
  next
    case 2
    then show ?thesis using core_fail [OF c, of e]
      by (simp add: tsfn_inv_def unfinished_def N_def DecInflight_def)
  qed
qed

lemma inv_js:
  assumes inv: "tsfn_inv s" and p: "p \<in> set (d_posted (ts_d s))"
  shows "tsfn_inv (s\<lparr>ts_d := js_call fn_ok comp_ok lat p ((ts_d s)\<lparr>d_posted := remove1 p (d_posted (ts_d s))\<rparr>)\<rparr>)"
proof -
  let ?d = "(ts_d s)\<lparr>d_posted := remove1 p (d_posted (ts_d s))\<rparr>"
  define N where "N = mset (callback_queue ?d) + mset (ts_taken s) + mset (d_posted ?d)"
  have "unfinished s = add_mset p N"
    using entering_step [OF p] by (simp add: unfinished_def N_def)
  then have c: "core (mset (ts_entering s)) (add_mset p N) (ts_accepted s) (ts_uncounted s)
      (next_request_id ?d) (pending_requests ?d) (d_inflight ?d) (d_log ?d)"
    using inv by (simp add: tsfn_inv_def)
  have "callback_queue (js_call fn_ok comp_ok lat p ?d) = callback_queue ?d"
    "d_posted (js_call fn_ok comp_ok lat p ?d) = d_posted ?d"
    by (auto simp: js_call_def js_body_def Let_def DecInflight_def tsfn_UpdateStats_def split: prod.split)
  then show ?thesis
    using core_js [OF c, of fn_ok comp_ok lat] by (simp add: tsfn_inv_def unfinished_def N_def)
qed

lemma inv_take:
  assumes inv: "tsfn_inv s" and t: "worker_take c (ts_d s) = Some (p, d')"
  shows "tsfn_inv (s\<lparr>ts_d := d', ts_taken := p # ts_taken s\<rparr>)"
proof -
  let ?d = "ts_d s"
  obtain q where q: "callback_queue ?d \<noteq> []" "take_best tsfn_ComparePriority c (callback_queue ?d) = (p, q)"
    "d' = ?d\<lparr>callback_queue := q, d_stats := (d_stats ?d)\<lparr>ds_queue_size := length q\<rparr>\<rparr>"
    using t by (auto simp: worker_take_def split: if_splits prod.splits)
  have "mset (callback_queue ?d) = add_mset p (mset q)"
    by (rule dq.take_one_mem [OF q(1,2)])
  then show ?thesis using inv q(3) by (simp add: tsfn_inv_def unfinished_def)
qed

lemma new_callbacks:
  "pc_id (dispatch_callback opn prio completion now i) = i" "shaped (dispatch_callback opn prio completion now i)"
  "pc_id (custom_callback opn prio fn err now i) = i" "shaped (custom_callback opn prio fn err now i)"
  by (simp_all add: dispatch_callback_def custom_callback_def shaped_def)

lemma inv_step: "tsfn_step s s' \<Longrightarrow> tsfn_inv s \<Longrightarrow> tsfn_inv s'"
proof (induction rule: tsfn_step.induct)
  case step_dispatch
  then show ?case by (intro inv_enter [OF _ step_dispatch(4) new_callbacks(1,2)])
next
  case step_custom
  then show ?case by (intro inv_enter [OF _ step_custom(3) new_callbacks(3,4)])
next
  case (step_push p s d')
  then show ?case using inv_push(1) by blast
next
  case (step_full p s d')
  then show ?case using inv_push(2) by blast
next
  case (step_count s n)
  then show ?case by (simp add: tsfn_inv_def unfinished_def dispatch_count_def core_def)
next
  case step_take
  then show ?case by (intro inv_take)
next
  case step_process
  then show ?case by (intro inv_process)
next
  case step_js
  then show ?case by (intro inv_js)
next
  case step_handler
  then show ?case by (auto simp: RegisterHandler_def tsfn_inv_def unfinished_def split: if_splits)
next
  case step_unhandler
  then show ?case by (auto simp: UnregisterHandler_def tsfn_inv_def unfinished_def split: if_splits)
next
  case step_limit
  then show ?case by (simp add: tsfn_SetMaxQueueSize_def tsfn_inv_def unfinished_def)
next
  case step_reset
  then show ?case by (simp add: tsfn_ResetStats_def tsfn_inv_def unfinished_def)
qed

lemma inv_reach: "tsfn_step\<^sup>*\<^sup>* s s' \<Longrightarrow> tsfn_inv s \<Longrightarrow> tsfn_inv s'"
  by (induction rule: rtranclp_induct) (auto dest: inv_step)

lemma inv_start:
  "Initialize True now (new_dispatcher now mx n) = (True, d) \<Longrightarrow> tsfn_inv (tsfn_start d)"
  by (auto simp: Initialize_def new_dispatcher_def tsfn_start_def tsfn_inv_def unfinished_def core_def uniq_def)

text \<open>
  C9: While the dispatcher runs, whatever the interleaving of dispatching threads, workers and
  the JavaScript thread, whether calls of N-API fail, callbacks throw or handlers come and go:
  \<open>inflight_\<close>, with the increments still to come, is the number of the accepted requests that
  are not finished. The caller of an accepted request hears nothing before it is finished and
  at most once in all; exactly once, by the end of its callback or by its error callback, when
  it has both. Nothing is heard of a rejected request.
\<close>

theorem dispatcher_one_outcome:
  assumes "Initialize True now (new_dispatcher now mx n) = (True, d)" and "tsfn_step\<^sup>*\<^sup>* (tsfn_start d) s"
  shows "d_inflight (ts_d s) + int (ts_uncounted s) = int (size (unfinished s)) \<and>
    (\<forall>p\<in>set (ts_accepted s).
       if p \<in># unfinished s then outcomes (pc_id p) (d_log (ts_d s)) = 0
       else outcomes (pc_id p) (d_log (ts_d s)) \<le> 1 \<and> (watched p \<longrightarrow> outcomes (pc_id p) (d_log (ts_d s)) = 1)) \<and>
    (\<forall>i. i \<notin> pc_id ` set (ts_accepted s) \<longrightarrow> outcomes i (d_log (ts_d s)) = 0)"
  using inv_reach [OF assms(2) inv_start [OF assms(1)]]
  unfolding tsfn_inv_def core_def outcome_settled_def by (elim conjE) (intro conjI)

definition demo_p :: PendingCallback where
  "demo_p = custom_callback ''getattr'' NORMAL True True 5 1"

definition demo_t0 :: tsfn_sys where "demo_t0 = tsfn_start (snd (Initialize True 0 (new_dispatcher 0 10 1)))"
definition demo_t1 :: tsfn_sys where "demo_t1 = demo_t0\<lparr>ts_d := snd (RegisterHandler True ''getattr'' (ts_d demo_t0))\<rparr>"
definition demo_t2 :: tsfn_sys where
  "demo_t2 = demo_t1\<lparr>ts_d := snd (dispatch_enter (custom_callback ''getattr'' NORMAL True True 5) (ts_d demo_t1)), ts_entering := [demo_p]\<rparr>"
definition demo_t3 :: tsfn_sys where
  "demo_t3 = demo_t2\<lparr>ts_d := snd (dispatch_push demo_p (ts_d demo_t2)), ts_entering := [], ts_uncounted := 1, ts_accepted := [demo_p]\<rparr>"
definition demo_t4 :: tsfn_sys where "demo_t4 = demo_t3\<lparr>ts_d := dispatch_count (ts_d demo_t3), ts_uncounted := 0\<rparr>"
definition demo_t5 :: tsfn_sys where "demo_t5 = demo_t4\<lparr>ts_d := snd (the (worker_take 0 (ts_d demo_t4))), ts_taken := [demo_p]\<rparr>"
definition demo_t6 :: tsfn_sys where "demo_t6 = demo_t5\<lparr>ts_d := ProcessCallback True demo_p (ts_d demo_t5), ts_taken := []\<rparr>"
definition demo_t7 :: tsfn_sys where
  "demo_t7 = demo_t6\<lparr>ts_d := js_call False True 2 demo_p ((ts_d demo_t6)\<lparr>d_posted := []\<rparr>)\<rparr>"

lemmas demo_ts = demo_t0_def demo_t1_def demo_t2_def demo_t3_def demo_t4_def demo_t5_def demo_t6_def demo_p_def
  custom_callback_def tsfn_start_def Initialize_def new_dispatcher_def new_dispatcher_stats_def RegisterHandler_def dispatch_enter_def
  dispatch_push_def dispatch_count_def worker_take_def take_best_def best_of_def ProcessCallback_def Let_def
  pending_emplace_def tsfn_ComparePriority_def

lemma demo_run: "tsfn_step\<^sup>*\<^sup>* demo_t0 demo_t7"
proof -
  have 1: "tsfn_step demo_t0 demo_t1"
    unfolding demo_t1_def by (rule step_handler [where b = True and created = True and opn = "''getattr''"]) (simp add: demo_ts)
  have 2: "tsfn_step demo_t1 demo_t2"
    using step_custom [of demo_t1 "''getattr''" NORMAL True True 5 demo_p "ts_d demo_t2"] by (simp add: demo_ts)
  have 3: "tsfn_step demo_t2 demo_t3"
    using step_push [of demo_p demo_t2 "ts_d demo_t3"] by (simp add: demo_ts)
  have 4: "tsfn_step demo_t3 demo_t4"
    using step_count [of demo_t3 0] by (simp add: demo_ts)
  have 5: "tsfn_step demo_t4 demo_t5"
    using step_take [of 0 demo_t4 demo_p "ts_d demo_t5"] by (simp add: demo_ts)
  have 6: "tsfn_step demo_t5 demo_t6"
    using step_process [of demo_p demo_t5 True] by (simp add: demo_ts)
  have 7: "tsfn_step demo_t6 demo_t7"
    using step_js [of demo_p demo_t6 False True 2] unfolding demo_t7_def by (simp add: demo_ts)
  from 1 2 3 4 5 6 7 show ?thesis by (meson converse_rtranclp_into_rtranclp rtranclp.rtrancl_refl)
qed

theorem dispatcher_one_outcome_witness:
  "d_inflight (ts_d demo_t7) = 0 \<and> d_log (ts_d demo_t7) = [Ran 1 False, ErrorCall 1 (-5)] \<and> outcomes 1 (d_log (ts_d demo_t7)) = 1"
proof -
  have u: "unfinished demo_t7 = {#}" "ts_uncounted demo_t7 = 0" "demo_p \<in> set (ts_accepted demo_t7)" "watched demo_p" "pc_id demo_p = 1"
    by (simp_all add: unfinished_def watched_def demo_t7_def js_call_def js_body_def DecInflight_def tsfn_UpdateStats_def call_error_def demo_ts)
  have l: "d_log (ts_d demo_t7) = [Ran 1 False, ErrorCall 1 (-5)]"
    by (simp add: demo_t7_def js_call_def js_body_def DecInflight_def tsfn_UpdateStats_def call_error_def EIO_def demo_ts)
  have "Initialize True 0 (new_dispatcher 0 10 1) = (True, ts_d demo_t0)" "tsfn_start (ts_d demo_t0) = demo_t0"
    by (simp_all add: demo_ts)
  from dispatcher_one_outcome [OF this(1), unfolded this(2), OF demo_run] u l
  show ?thesis by simp
qed

section \<open>Shutdown\<close>

text \<open>
  A request that is still queued is in \<open>pending_requests_\<close> too, and \<open>Shutdown\<close> goes through both:
  its error callback is called twice and it is counted down twice.
\<close>

lemma shutdown_notifies_twice:
  "outcomes 1 (d_log (snd (Shutdown (ts_d demo_t4)))) = 2 \<and> d_inflight (snd (Shutdown (ts_d demo_t4))) = -1"
  by (simp add: Shutdown_def cancel_all_callbacks_def cancel_pending_def cancel_queue.simps cancel_one_def DecInflight_def call_error_def
    DrainWorkerThreads_def mark_completed_def demo_ts)

end
