(* ===== verification/Session_Manager.thy ===== *)
theory Session_Manager
  imports Fuse_Prelude
begin

text \<open>
  The session manager of the addon (\<open>src/src/session_manager.cc\<close>): the life of one FUSE session
  from its creation to its destruction, the loop that reads requests, and the registry of
  sessions behind the functions exposed to JavaScript.

  A session of libfuse is a record with the flag \<open>mt_exited\<close>, which \<open>fuse_session_exit\<close> sets, and
  whether it has a mount point. The results of the calls into libfuse, into the bridge and of
  the allocations are parameters. \<open>None\<close> is a manager that hangs (it locks \<open>state_mutex_\<close>, which
  is not recursive, twice), a process that \<open>std::terminate\<close> ends (a joinable thread is replaced
  or destroyed), or a null pointer handed to libfuse. Logging is left out.
\<close>

section \<open>State\<close>

datatype SessionState = CREATED | INITIALIZED | MOUNTED | UNMOUNTING | UNMOUNTED | DESTROYED

record SessionOptions =
  so_debug :: bool
  so_foreground :: bool
  so_single_threaded :: bool
  so_allow_other :: bool
  so_allow_root :: bool
  so_auto_unmount :: bool
  so_install_signal_handlers :: bool

record fuse_session =
  fs_args :: "string list"
  fs_exited :: bool
  fs_mounted :: bool

record SessionManager =
  sm_mountpoint :: string
  sm_options :: SessionOptions
  sm_id :: u64
  sm_state :: SessionState
  sm_session :: "fuse_session option"
  sm_bridge :: bool
  sm_thread :: bool
  sm_running :: bool
  sm_locked :: bool

definition new_session_manager :: "string \<Rightarrow> SessionOptions \<Rightarrow> u64 \<Rightarrow> SessionManager" where
  "new_session_manager mnt opts i =
     \<lparr>sm_mountpoint = mnt, sm_options = opts, sm_id = i, sm_state = CREATED, sm_session = None, sm_bridge = False,
      sm_thread = False, sm_running = False, sm_locked = False\<rparr>"

text \<open>\<open>std::lock_guard\<close> on \<open>state_mutex_\<close>: the body runs with the lock, which is released at its end.\<close>

definition with_state_lock :: "(SessionManager \<Rightarrow> ('a \<times> SessionManager) option) \<Rightarrow> SessionManager \<Rightarrow> ('a \<times> SessionManager) option" where
  "with_state_lock body sm =
     (if sm_locked sm then None
      else map_option (\<lambda>(r, sm1). (r, sm1\<lparr>sm_locked := False\<rparr>)) (body (sm\<lparr>sm_locked := True\<rparr>)))"

definition GetState :: "SessionManager \<Rightarrow> SessionState option" where
  "GetState sm = (if sm_locked sm then None else Some (sm_state sm))"

definition session_IsReady :: "SessionManager \<Rightarrow> bool option" where
  "session_IsReady sm = (if sm_locked sm then None else Some (sm_state sm = MOUNTED \<and> sm_session sm \<noteq> None))"

section \<open>Initialize\<close>

definition session_args :: "SessionOptions \<Rightarrow> string list" where
  "session_args opts =
     [''fuse-native''] @
     (if so_debug opts then [''-d''] else []) @
     (if so_foreground opts then [''-f''] else []) @
     (if so_single_threaded opts then [''-s''] else []) @
     (if so_allow_other opts then [''-o'', ''allow_other''] else []) @
     (if so_allow_root opts then [''-o'', ''allow_root''] else []) @
     (if so_auto_unmount opts then [''-o'', ''auto_unmount''] else [])"

text \<open>What the calls during the initialization return.\<close>

record init_env =
  ie_bridge :: bool
  ie_parse :: bool
  ie_strdup :: bool
  ie_session :: bool

definition session_initialize_body :: "init_env \<Rightarrow> SessionManager \<Rightarrow> (bool \<times> SessionManager) option" where
  "session_initialize_body e sm =
     (if sm_state sm \<noteq> CREATED then Some (False, sm)
      else let sm1 = sm\<lparr>sm_bridge := True\<rparr>
           in if \<not> ie_bridge e then Some (False, sm1)
              else if \<not> ie_parse e then Some (False, sm1)
              else if \<not> ie_strdup e then Some (False, sm1)
              else if \<not> ie_session e then Some (False, sm1\<lparr>sm_session := None\<rparr>)
              else Some (True, sm1\<lparr>sm_session := Some \<lparr>fs_args = session_args (sm_options sm), fs_exited = False, fs_mounted = False\<rparr>,
                                   sm_state := INITIALIZED\<rparr>))"

definition session_Initialize :: "init_env \<Rightarrow> SessionManager \<Rightarrow> (bool \<times> SessionManager) option" where
  "session_Initialize e = with_state_lock (session_initialize_body e)"

section \<open>Mount and unmount\<close>

text \<open>\<open>mnt\<close>: \<open>fuse_session_mount\<close> succeeds. The result of \<open>fuse_set_signal_handlers\<close> changes nothing.\<close>

definition session_do_mount :: "bool \<Rightarrow> SessionManager \<Rightarrow> (bool \<times> SessionManager) option" where
  "session_do_mount mnt sm =
     (case sm_session sm of
        None \<Rightarrow> None
      | Some se \<Rightarrow>
          if \<not> mnt then Some (False, sm)
          else if sm_thread sm then None
          else Some (True, sm\<lparr>sm_session := Some (se\<lparr>fs_mounted := True\<rparr>), sm_state := MOUNTED, sm_running := True, sm_thread := True\<rparr>))"

definition session_Mount :: "init_env \<Rightarrow> bool \<Rightarrow> SessionManager \<Rightarrow> (bool \<times> SessionManager) option" where
  "session_Mount e mnt =
     with_state_lock (\<lambda>sm.
       if sm_state sm \<noteq> INITIALIZED then
         (if sm_state sm = CREATED then
            (case session_Initialize e sm of
               None \<Rightarrow> None
             | Some (False, sm1) \<Rightarrow> Some (False, sm1)
             | Some (True, sm1) \<Rightarrow> if sm_state sm1 \<noteq> INITIALIZED then Some (False, sm1) else session_do_mount mnt sm1)
          else Some (False, sm))
       else session_do_mount mnt sm)"

definition session_stop :: "SessionManager \<Rightarrow> (unit \<times> SessionManager) option" where
  "session_stop sm =
     (let sm1 = (if sm_state sm = MOUNTED
                 then sm\<lparr>sm_session := map_option (\<lambda>se. se\<lparr>fs_exited := True, fs_mounted := False\<rparr>) (sm_session sm),
                         sm_state := INITIALIZED\<rparr>
                 else sm)
      in Some ((), sm1\<lparr>sm_running := False\<rparr>))"

text \<open>\<open>own\<close>: the caller is the thread of the loop, which does not join itself.\<close>

definition session_Unmount :: "bool \<Rightarrow> SessionManager \<Rightarrow> (bool \<times> SessionManager) option" where
  "session_Unmount own sm = do {
     (_, sm1) \<leftarrow> with_state_lock session_stop sm;
     if sm_thread sm1 then (if own then Some (False, sm1) else Some (True, sm1\<lparr>sm_thread := False\<rparr>))
     else Some (True, sm1) }"

definition session_release :: "SessionManager \<Rightarrow> (unit \<times> SessionManager) option" where
  "session_release sm = Some ((), sm\<lparr>sm_session := None, sm_bridge := False, sm_state := DESTROYED\<rparr>)"

definition session_Destroy :: "bool \<Rightarrow> SessionManager \<Rightarrow> (unit \<times> SessionManager) option" where
  "session_Destroy own sm = do {
     st \<leftarrow> GetState sm;
     (_, sm1) \<leftarrow> (if st = MOUNTED then session_Unmount own sm else Some (True, sm));
     with_state_lock session_release sm1 }"

text \<open>The destructor; a thread that is still joinable ends the process.\<close>

definition delete_session_manager :: "SessionManager \<Rightarrow> unit option" where
  "delete_session_manager sm = do {
     sm1 \<leftarrow> (if sm_state sm \<noteq> DESTROYED then map_option snd (session_Destroy False sm) else Some sm);
     if sm_thread sm1 then None else Some () }"

section \<open>The loop\<close>

datatype poll_result = PollError bool | PollTimeout | PollOther | PollIn int

text \<open>
  A round of \<open>RunFuseLoop\<close>: the flags \<open>mount_thread_running_\<close> and \<open>exited\<close> as they are read at its
  head and after an interrupted read, and what \<open>poll\<close> and \<open>fuse_session_receive_buf\<close> return.
\<close>

record loop_round =
  lr_running :: bool
  lr_exited :: bool
  lr_poll :: poll_result
  lr_running2 :: bool
  lr_exited2 :: bool

text \<open>The number of requests handed to \<open>fuse_session_process_buf\<close>.\<close>

fun RunFuseLoop :: "loop_round list \<Rightarrow> nat" where
  "RunFuseLoop [] = 0"
| "RunFuseLoop (r # rs) =
     (if \<not> lr_running r \<or> lr_exited r then 0
      else case lr_poll r of
             PollError eintr \<Rightarrow> if eintr then RunFuseLoop rs else 0
           | PollTimeout \<Rightarrow> RunFuseLoop rs
           | PollOther \<Rightarrow> RunFuseLoop rs
           | PollIn res \<Rightarrow>
               if res \<le> 0 then
                 (if res = - EINTR \<or> res = 0 then (if \<not> lr_running2 r \<or> lr_exited2 r then 0 else RunFuseLoop rs) else 0)
               else Suc (RunFuseLoop rs))"

section \<open>The registry\<close>

record session_registry =
  active_sessions :: "u64 \<Rightarrow> SessionManager option"
  next_session_id :: u64

text \<open>\<open>CreateSession\<close> behind its argument checks: \<open>None\<close> in the first component is the exception.\<close>

definition CreateSession :: "init_env \<Rightarrow> string \<Rightarrow> SessionOptions \<Rightarrow> session_registry \<Rightarrow> (u64 option \<times> session_registry) option" where
  "CreateSession e mnt opts g =
     (let i = next_session_id g; g1 = g\<lparr>next_session_id := i + 1\<rparr>
      in case session_Initialize e (new_session_manager mnt opts i) of
           None \<Rightarrow> None
         | Some (False, sm) \<Rightarrow> (case delete_session_manager sm of None \<Rightarrow> None | Some _ \<Rightarrow> Some (None, g1))
         | Some (True, sm) \<Rightarrow> Some (Some i, g1\<lparr>active_sessions := (active_sessions g1)(i := Some sm)\<rparr>))"

definition DestroySession :: "u64 \<Rightarrow> session_registry \<Rightarrow> (bool \<times> session_registry) option" where
  "DestroySession i g =
     (case active_sessions g i of
        None \<Rightarrow> Some (False, g)
      | Some sm \<Rightarrow> do {
          (_, sm1) \<leftarrow> session_Destroy False sm;
          delete_session_manager sm1;
          Some (True, g\<lparr>active_sessions := (active_sessions g)(i := None)\<rparr>) })"

definition MountSession :: "init_env \<Rightarrow> bool \<Rightarrow> u64 \<Rightarrow> session_registry \<Rightarrow> (bool option \<times> session_registry) option" where
  "MountSession e mnt i g =
     (case active_sessions g i of
        None \<Rightarrow> Some (None, g)
      | Some sm \<Rightarrow> do {
          (ok, sm1) \<leftarrow> session_Mount e mnt sm;
          Some (Some ok, g\<lparr>active_sessions := (active_sessions g)(i := Some sm1)\<rparr>) })"

definition UnmountSession :: "u64 \<Rightarrow> session_registry \<Rightarrow> (bool option \<times> session_registry) option" where
  "UnmountSession i g =
     (case active_sessions g i of
        None \<Rightarrow> Some (None, g)
      | Some sm \<Rightarrow> do {
          (ok, sm1) \<leftarrow> session_Unmount False sm;
          Some (Some ok, g\<lparr>active_sessions := (active_sessions g)(i := Some sm1)\<rparr>) })"

definition IsReadySession :: "u64 \<Rightarrow> session_registry \<Rightarrow> bool option" where
  "IsReadySession i g = (case active_sessions g i of None \<Rightarrow> Some False | Some sm \<Rightarrow> session_IsReady sm)"

section \<open>Well-formed sessions\<close>

text \<open>The resources a manager holds in each of its states, between two calls.\<close>

definition session_wf :: "SessionManager \<Rightarrow> bool" where
  "session_wf sm \<longleftrightarrow> \<not> sm_locked sm \<and>
     (case sm_state sm of
        CREATED \<Rightarrow> sm_session sm = None \<and> \<not> sm_thread sm \<and> \<not> sm_running sm
      | INITIALIZED \<Rightarrow> (\<exists>se. sm_session sm = Some se \<and> \<not> fs_mounted se \<and> fs_args se = session_args (sm_options sm)) \<and>
                       sm_bridge sm \<and> \<not> sm_thread sm \<and> \<not> sm_running sm
      | MOUNTED \<Rightarrow> (\<exists>se. sm_session sm = Some se \<and> fs_mounted se \<and> fs_args se = session_args (sm_options sm)) \<and>
                   sm_bridge sm \<and> sm_thread sm \<and> sm_running sm
      | UNMOUNTING \<Rightarrow> False
      | UNMOUNTED \<Rightarrow> False
      | DESTROYED \<Rightarrow> sm_session sm = None \<and> \<not> sm_bridge sm \<and> \<not> sm_thread sm)"

lemma wf_new: "session_wf (new_session_manager mnt opts i)"
  by (simp add: session_wf_def new_session_manager_def)

lemma wf_initialize:
  assumes "session_wf sm"
  shows "\<exists>b sm1. session_Initialize e sm = Some (b, sm1) \<and> session_wf sm1 \<and> sm_id sm1 = sm_id sm \<and>
    (sm_state sm = CREATED \<longrightarrow> sm_state sm1 = (if b then INITIALIZED else CREATED))"
  using assms
  by (cases "sm_state sm") (auto simp: session_Initialize_def with_state_lock_def session_initialize_body_def session_wf_def Let_def)

text \<open>\<open>Mount\<close> works from every state but \<open>CREATED\<close>, where it locks the mutex a second time.\<close>

lemma wf_mount:
  assumes "session_wf sm" "sm_state sm \<noteq> CREATED"
  shows "\<exists>b sm1. session_Mount e mnt sm = Some (b, sm1) \<and> session_wf sm1 \<and> sm_id sm1 = sm_id sm \<and>
    sm_state sm1 = (if sm_state sm = INITIALIZED \<and> mnt then MOUNTED else sm_state sm) \<and>
    b = (sm_state sm = INITIALIZED \<and> mnt)"
  using assms
  by (cases "sm_state sm") (auto simp: session_Mount_def with_state_lock_def session_do_mount_def session_wf_def)

lemma mount_created_hangs: "sm_state sm = CREATED \<Longrightarrow> session_Mount e mnt sm = None"
  by (simp add: session_Mount_def with_state_lock_def session_Initialize_def)

lemma wf_unmount:
  assumes "session_wf sm"
  shows "\<exists>sm1. session_Unmount False sm = Some (True, sm1) \<and> session_wf sm1 \<and> sm_id sm1 = sm_id sm \<and>
    sm_state sm1 = (if sm_state sm = MOUNTED then INITIALIZED else sm_state sm)"
  using assms
  by (cases "sm_state sm") (auto simp: session_Unmount_def with_state_lock_def session_stop_def session_wf_def Let_def)

lemma wf_destroy:
  assumes "session_wf sm"
  shows "\<exists>sm1. session_Destroy False sm = Some ((), sm1) \<and> session_wf sm1 \<and> sm_state sm1 = DESTROYED"
proof -
  obtain sm1 where u: "session_Unmount False sm = Some (True, sm1)" "session_wf sm1" "sm_state sm1 = (if sm_state sm = MOUNTED then INITIALIZED else sm_state sm)"
    using wf_unmount [OF assms] by blast
  have rel: "\<exists>sm2. with_state_lock session_release s = Some ((), sm2) \<and> session_wf sm2 \<and> sm_state sm2 = DESTROYED"
    if "session_wf s" "sm_state s \<noteq> MOUNTED" for s
    using that by (cases "sm_state s") (auto simp: with_state_lock_def session_release_def session_wf_def)
  have "\<not> sm_locked sm" using assms by (simp add: session_wf_def)
  then show ?thesis
    using u rel [of sm] rel [of sm1] assms by (cases "sm_state sm = MOUNTED") (auto simp: session_Destroy_def GetState_def)
qed

lemma wf_delete: "session_wf sm \<Longrightarrow> delete_session_manager sm = Some ()"
  using wf_destroy [of sm] by (auto simp: delete_session_manager_def session_wf_def)

section \<open>The functions exposed to JavaScript\<close>

datatype session_op =
    ApiCreate init_env string SessionOptions
  | ApiDestroy u64
  | ApiMount init_env bool u64
  | ApiUnmount u64

primrec session_call :: "session_op \<Rightarrow> session_registry \<Rightarrow> session_registry option" where
  "session_call (ApiCreate e mnt opts) g = map_option snd (CreateSession e mnt opts g)"
| "session_call (ApiDestroy i) g = map_option snd (DestroySession i g)"
| "session_call (ApiMount e mnt i) g = map_option snd (MountSession e mnt i g)"
| "session_call (ApiUnmount i) g = map_option snd (UnmountSession i g)"

primrec session_calls :: "session_op list \<Rightarrow> session_registry \<Rightarrow> session_registry option" where
  "session_calls [] g = Some g"
| "session_calls (p # ps) g = Option.bind (session_call p g) (session_calls ps)"

definition empty_registry :: session_registry where
  "empty_registry = \<lparr>active_sessions = (\<lambda>_. None), next_session_id = 1\<rparr>"

definition registry_wf :: "session_registry \<Rightarrow> bool" where
  "registry_wf g \<longleftrightarrow> (\<forall>i sm. active_sessions g i = Some sm \<longrightarrow>
     session_wf sm \<and> sm_state sm \<in> {INITIALIZED, MOUNTED} \<and> sm_id sm = i)"

lemma registry_update:
  "registry_wf g \<Longrightarrow> session_wf sm \<Longrightarrow> sm_state sm \<in> {INITIALIZED, MOUNTED} \<Longrightarrow> sm_id sm = i \<Longrightarrow>
    registry_wf (g\<lparr>active_sessions := (active_sessions g)(i := Some sm)\<rparr>)"
  by (simp add: registry_wf_def)

lemma call_create:
  assumes "registry_wf g"
  shows "\<exists>g'. session_call (ApiCreate e mnt opts) g = Some g' \<and> registry_wf g'"
proof -
  let ?g = "g\<lparr>next_session_id := next_session_id g + 1\<rparr>"
  obtain b sm where i: "session_Initialize e (new_session_manager mnt opts (next_session_id g)) = Some (b, sm)" "session_wf sm"
      "sm_id sm = next_session_id g" "sm_state sm = (if b then INITIALIZED else CREATED)"
    using wf_initialize [OF wf_new, of e mnt opts "next_session_id g"] by (auto simp: new_session_manager_def)
  have g: "registry_wf ?g" using assms by (simp add: registry_wf_def)
  show ?thesis
    using i wf_delete [OF i(2)] g registry_update [OF g i(2)] by (cases b) (auto simp: CreateSession_def Let_def)
qed

lemma call_keeps:
  assumes "registry_wf g"
  shows "\<exists>g'. session_call p g = Some g' \<and> registry_wf g'"
proof (cases p)
  case (ApiCreate e mnt opts)
  then show ?thesis using call_create [OF assms] by simp
next
  case (ApiDestroy i)
  show ?thesis
  proof (cases "active_sessions g i")
    case None
    then show ?thesis using assms by (simp add: ApiDestroy DestroySession_def)
  next
    case (Some sm)
    then have "session_wf sm" using assms by (simp add: registry_wf_def)
    then obtain sm1 where "session_Destroy False sm = Some ((), sm1)" "session_wf sm1"
      using wf_destroy by blast
    then show ?thesis using assms wf_delete by (auto simp: ApiDestroy DestroySession_def Some registry_wf_def)
  qed
next
  case (ApiMount e mnt i)
  show ?thesis
  proof (cases "active_sessions g i")
    case None
    then show ?thesis using assms by (simp add: ApiMount MountSession_def)
  next
    case (Some sm)
    then have sm: "session_wf sm" "sm_state sm \<in> {INITIALIZED, MOUNTED}" "sm_id sm = i" using assms by (auto simp: registry_wf_def)
    then have "sm_state sm \<noteq> CREATED" by auto
    with wf_mount [OF sm(1), of e mnt] sm(3) obtain b sm1 where "session_Mount e mnt sm = Some (b, sm1)" "session_wf sm1" "sm_id sm1 = i"
        "sm_state sm1 = (if sm_state sm = INITIALIZED \<and> mnt then MOUNTED else sm_state sm)"
      by blast
    moreover from this(4) sm(2) have "sm_state sm1 \<in> {INITIALIZED, MOUNTED}" by auto
    ultimately show ?thesis using registry_update [OF assms] by (simp add: ApiMount MountSession_def Some)
  qed
next
  case (ApiUnmount i)
  show ?thesis
  proof (cases "active_sessions g i")
    case None
    then show ?thesis using assms by (simp add: ApiUnmount UnmountSession_def)
  next
    case (Some sm)
    then have sm: "session_wf sm" "sm_state sm \<in> {INITIALIZED, MOUNTED}" "sm_id sm = i" using assms by (auto simp: registry_wf_def)
    then obtain sm1 where "session_Unmount False sm = Some (True, sm1)" "session_wf sm1" "sm_id sm1 = i" "sm_state sm1 \<in> {INITIALIZED, MOUNTED}"
      using wf_unmount [of sm] by (auto split: if_splits)
    then show ?thesis using registry_update [OF assms] by (simp add: ApiUnmount UnmountSession_def Some)
  qed
qed

lemma calls_keep: "registry_wf g \<Longrightarrow> \<exists>g'. session_calls ps g = Some g' \<and> registry_wf g'"
proof (induction ps arbitrary: g)
  case (Cons p ps)
  then show ?case using call_keeps [OF Cons.prems, of p] by auto
qed simp


definition demo_options :: SessionOptions where
  "demo_options = \<lparr>so_debug = False, so_foreground = True, so_single_threaded = False, so_allow_other = False,
     so_allow_root = False, so_auto_unmount = True, so_install_signal_handlers = True\<rparr>"

definition demo_init_env :: init_env where
  "demo_init_env = \<lparr>ie_bridge = True, ie_parse = True, ie_strdup = True, ie_session = True\<rparr>"


section \<open>Mounting again\<close>

text \<open>
  \<open>Unmount\<close> ends the libfuse session with \<open>fuse_session_exit\<close>, and nothing resets it: after
  another \<open>Mount\<close>, which succeeds, the loop ends before it has served a request.
\<close>

lemma remount_serves_nothing:
  assumes "session_wf sm" "sm_state sm = MOUNTED"
  obtains sm1 sm2 se where "session_Unmount False sm = Some (True, sm1)" "session_Mount e True sm1 = Some (True, sm2)"
    "sm_session sm2 = Some se" "fs_exited se" "\<And>r rs. lr_exited r = fs_exited se \<Longrightarrow> RunFuseLoop (r # rs) = 0"
  using assms
  by (auto simp: session_Unmount_def session_Mount_def session_do_mount_def with_state_lock_def session_stop_def session_wf_def Let_def)

end
