(* ===== verification/Subdir.thy ===== *)
theory Subdir
  imports Fuse_Ops Fuse_Opt
begin

text \<open>
  The stacking module \<open>lib/modules/subdir.c\<close>: a file system that hands every call to the next
  one with a base directory put in front of the path, and can turn absolute links that point
  below the base into relative ones.

  \<open>struct subdir\<close> is found through the private data of the context, which \<open>fuse_fs_*\<close> sets before
  each call: the operations take the memory \<open>D\<close> from addresses to such structures. The path is
  allocated from the tape of the environment. \<open>init\<close> is left out with \<open>fuse_fs_init\<close>.
\<close>

record 'w subdir =
  sd_base :: string
  sd_baselen :: nat
  sd_rellinks :: bool
  sd_next :: "'w fuse_fs"

section \<open>Paths\<close>

definition slash :: char where "slash = CHR ''/''"

definition subdir_get :: "(nat \<Rightarrow> 'w subdir) \<Rightarrow> 'w env \<Rightarrow> 'w subdir" where
  "subdir_get D e = D (private_data (e_ctx e))"

definition subdir_addpath :: "'w subdir \<Rightarrow> string option \<Rightarrow> 'w env \<Rightarrow> int \<times> string option \<times> 'w env" where
  "subdir_addpath d path e =
     (case path of
        None \<Rightarrow> (0, None, e)
      | Some p \<Rightarrow>
          (case alloc_pop (e_allocs e) of
             (False, t) \<Rightarrow> (- ENOMEM, None, e\<lparr>e_allocs := t\<rparr>)
           | (True, t) \<Rightarrow>
               let newpath = sd_base d @ (if take 1 p = [slash] then tl p else p)
               in (0, Some (if newpath = [] then ''.'' else newpath), e\<lparr>e_allocs := t\<rparr>)))"

text \<open>What all operations do: the path is extended and the next file system called with it.\<close>

definition with_newpath ::
  "(nat \<Rightarrow> 'w subdir) \<Rightarrow> string option \<Rightarrow> (int \<Rightarrow> 'w env \<Rightarrow> 'r) \<Rightarrow> ('w subdir \<Rightarrow> string option \<Rightarrow> 'w env \<Rightarrow> 'r) \<Rightarrow> 'w env \<Rightarrow> 'r" where
  "with_newpath D path fail call e =
     (let d = subdir_get D e
      in case subdir_addpath d path e of (err, newpath, e1) \<Rightarrow>
           if err = 0 then call d newpath e1 else fail err e1)"

section \<open>Relative links\<close>

text \<open>A pointer into a string is the rest of the string from there on.\<close>

definition skip_slashes :: "string \<Rightarrow> string" where
  "skip_slashes s = dropWhile (\<lambda>c. c = slash) s"

definition skip_name :: "string \<Rightarrow> string" where
  "skip_name s = dropWhile (\<lambda>c. c \<noteq> slash) s"

lemma skip_shorter: "length (skip_slashes s) \<le> length s" "length (skip_name s) \<le> length s"
  by (simp_all add: skip_slashes_def skip_name_def length_dropWhile_le)

lemma skip_component_shorter: "s \<noteq> [] \<Longrightarrow> length (skip_slashes (skip_name s)) < length s"
proof (cases s)
  case (Cons c cs)
  show ?thesis
  proof (cases "c = slash")
    case True
    then have "skip_slashes (skip_name s) = skip_slashes cs" by (simp add: Cons skip_slashes_def skip_name_def)
    then show ?thesis using skip_shorter(1) [of cs] by (simp add: Cons)
  next
    case False
    then have "skip_name s = skip_name cs" by (simp add: Cons skip_name_def)
    then show ?thesis using skip_shorter(1) [of "skip_name cs"] skip_shorter(2) [of cs] by (simp add: Cons)
  qed
qed simp

function count_loop :: "string \<Rightarrow> nat" where
  "count_loop s = (if s = [] then 0 else 1 + count_loop (skip_slashes (skip_name s)))"
  by auto
termination by (relation "measure length") (auto dest: skip_component_shorter)

declare count_loop.simps [simp del]

definition count_components :: "string \<Rightarrow> nat" where
  "count_components p = count_loop (skip_slashes p)"

fun match_names :: "string \<Rightarrow> string \<Rightarrow> string \<times> string" where
  "match_names (a # s) (b # t) = (if a = b \<and> a \<noteq> slash then match_names s t else (a # s, b # t))"
| "match_names s t = (s, t)"

definition strip_more :: "string \<Rightarrow> string \<Rightarrow> bool" where
  "strip_more s t \<longleftrightarrow> take 1 s = take 1 t \<and> s \<noteq> [] \<or> s = [] \<and> take 1 t = [slash] \<or> take 1 s = [slash] \<and> t = []"

lemma match_names_append: "match_names s t = (s', t') \<Longrightarrow> \<exists>u. s = u @ s' \<and> t = u @ t' \<and> slash \<notin> set u"
proof (induction s t rule: match_names.induct)
  case (1 a s b t)
  show ?case
  proof (cases "a = b \<and> a \<noteq> slash")
    case True
    then obtain u where "s = u @ s'" "t = u @ t'" "slash \<notin> set u" using 1 by auto
    then show ?thesis using True by (intro exI [of _ "a # u"]) auto
  qed (use 1 in auto)
qed auto

lemma match_names_maximal: "match_names s t = (a # s', a # t') \<Longrightarrow> a = slash"
  by (induction s t rule: match_names.induct) (auto split: if_splits)

lemma skip_slashes_head: "skip_slashes s \<noteq> slash # t"
  unfolding skip_slashes_def by (metis (mono_tags, lifting) hd_dropWhile list.sel(1) list.distinct(1))

text \<open>A round that is repeated has found a common component.\<close>

lemma strip_more_name:
  assumes "match_names (skip_slashes s) (skip_slashes t) = (s', t')" "strip_more s' t'"
  obtains u where "skip_slashes s = u @ s'" "skip_slashes t = u @ t'" "slash \<notin> set u" "u \<noteq> []"
    "take 1 s' \<in> {[], [slash]}" "take 1 t' \<in> {[], [slash]}"
proof -
  obtain u where u: "skip_slashes s = u @ s'" "skip_slashes t = u @ t'" "slash \<notin> set u"
    using match_names_append [OF assms(1)] by blast
  have e: "take 1 s' \<in> {[], [slash]}" "take 1 t' \<in> {[], [slash]}"
    using assms(2) match_names_maximal [of "skip_slashes s" "skip_slashes t"] assms(1)
    unfolding strip_more_def by (cases s'; cases t'; auto)+
  have "u \<noteq> []"
    using u assms(2) e skip_slashes_head [of s] skip_slashes_head [of t]
    unfolding strip_more_def by (cases s'; cases t') auto
  then show ?thesis using that u e by blast
qed

function strip_common :: "string \<Rightarrow> string \<Rightarrow> string \<times> string" where
  "strip_common s t =
     (let s1 = skip_slashes s; t1 = skip_slashes t
      in case match_names s1 t1 of (s2, t2) \<Rightarrow> if strip_more s2 t2 then strip_common s2 t2 else (s1, t1))"
  by auto
termination
proof (relation "measure (\<lambda>(s, t). length s)", goal_cases)
  case (2 s t s1 t1 s2 t2)
  then obtain u where "skip_slashes s = u @ s2" "u \<noteq> []" by (metis strip_more_name)
  then show ?case using skip_shorter(1) [of s] by (cases u) auto
qed simp

declare strip_common.simps [simp del]

text \<open>\<open>l - buf\<close> is the length of what was stripped.\<close>

definition transform_symlink :: "'w subdir \<Rightarrow> string \<Rightarrow> string \<Rightarrow> nat \<Rightarrow> string" where
  "transform_symlink d path buf sz =
     (if take 1 buf \<noteq> [slash] \<or> take 1 (sd_base d) \<noteq> [slash] then buf
      else case strip_common buf path of (l, p) \<Rightarrow>
        if length buf - length l < sd_baselen d then buf
        else if count_components p = 0 then buf
        else let dotdots = count_components p - 1; llen = length l
             in if dotdots * 3 + llen + 2 > sz then buf
                else concat (replicate dotdots ''../'')
                       @ (if llen \<noteq> 0 then l else if dotdots = 0 then ''.'' else []))"

section \<open>Operations\<close>

definition subdir_getattr ::
  "(nat \<Rightarrow> 'w subdir) \<Rightarrow> string option \<Rightarrow> stat \<Rightarrow> fuse_file_info option \<Rightarrow> 'w env \<Rightarrow> (int \<times> stat) \<times> 'w env" where
  "subdir_getattr D path stbuf fi =
     with_newpath D path (\<lambda>err. Pair (err, stbuf)) (\<lambda>d newpath. fuse_fs_getattr (sd_next d) newpath stbuf fi)"

definition subdir_access ::
  "(nat \<Rightarrow> 'w subdir) \<Rightarrow> string option \<Rightarrow> u32 \<Rightarrow> 'w env \<Rightarrow> int \<times> 'w env" where
  "subdir_access D path msk =
     with_newpath D path Pair (\<lambda>d newpath. fuse_fs_access (sd_next d) newpath msk)"

text \<open>The library calls \<open>readlink\<close> with a path only.\<close>

definition subdir_readlink ::
  "(nat \<Rightarrow> 'w subdir) \<Rightarrow> string option \<Rightarrow> nat \<Rightarrow> 'w env \<Rightarrow> (int \<times> string) \<times> 'w env" where
  "subdir_readlink D path sz =
     with_newpath D path (\<lambda>err. Pair (err, []))
       (\<lambda>d newpath e1. case fuse_fs_readlink (sd_next d) newpath sz e1 of ((err, buf), e2) \<Rightarrow>
          ((err, case newpath of None \<Rightarrow> buf
                 | Some p \<Rightarrow> if err = 0 \<and> sd_rellinks d then transform_symlink d p buf sz else buf), e2))"

definition subdir_opendir ::
  "(nat \<Rightarrow> 'w subdir) \<Rightarrow> string option \<Rightarrow> fuse_file_info \<Rightarrow> 'w env \<Rightarrow> (int \<times> fuse_file_info) \<times> 'w env" where
  "subdir_opendir D path fi =
     with_newpath D path (\<lambda>err. Pair (err, fi)) (\<lambda>d newpath. fuse_fs_opendir (sd_next d) newpath fi)"

definition subdir_readdir ::
  "(nat \<Rightarrow> 'w subdir) \<Rightarrow> string option \<Rightarrow> int \<Rightarrow> fuse_file_info \<Rightarrow> u32 \<Rightarrow> 'w env \<Rightarrow> 'w fill_prog" where
  "subdir_readdir D path off fi flags =
     with_newpath D path FillEnd (\<lambda>d newpath. fuse_fs_readdir (sd_next d) newpath off fi flags)"

definition subdir_releasedir ::
  "(nat \<Rightarrow> 'w subdir) \<Rightarrow> string option \<Rightarrow> fuse_file_info \<Rightarrow> 'w env \<Rightarrow> int \<times> 'w env" where
  "subdir_releasedir D path fi =
     with_newpath D path Pair (\<lambda>d newpath. fuse_fs_releasedir (sd_next d) newpath fi)"

definition subdir_mknod ::
  "(nat \<Rightarrow> 'w subdir) \<Rightarrow> string option \<Rightarrow> u32 \<Rightarrow> u64 \<Rightarrow> 'w env \<Rightarrow> int \<times> 'w env" where
  "subdir_mknod D path mode rdev =
     with_newpath D path Pair (\<lambda>d newpath. fuse_fs_mknod (sd_next d) newpath mode rdev)"

definition subdir_mkdir ::
  "(nat \<Rightarrow> 'w subdir) \<Rightarrow> string option \<Rightarrow> u32 \<Rightarrow> 'w env \<Rightarrow> int \<times> 'w env" where
  "subdir_mkdir D path mode =
     with_newpath D path Pair (\<lambda>d newpath. fuse_fs_mkdir (sd_next d) newpath mode)"

definition subdir_unlink ::
  "(nat \<Rightarrow> 'w subdir) \<Rightarrow> string option \<Rightarrow> 'w env \<Rightarrow> int \<times> 'w env" where
  "subdir_unlink D path =
     with_newpath D path Pair (\<lambda>d newpath. fuse_fs_unlink (sd_next d) newpath)"

definition subdir_rmdir ::
  "(nat \<Rightarrow> 'w subdir) \<Rightarrow> string option \<Rightarrow> 'w env \<Rightarrow> int \<times> 'w env" where
  "subdir_rmdir D path =
     with_newpath D path Pair (\<lambda>d newpath. fuse_fs_rmdir (sd_next d) newpath)"

definition subdir_symlink ::
  "(nat \<Rightarrow> 'w subdir) \<Rightarrow> string \<Rightarrow> string option \<Rightarrow> 'w env \<Rightarrow> int \<times> 'w env" where
  "subdir_symlink D from path =
     with_newpath D path Pair (\<lambda>d newpath. fuse_fs_symlink (sd_next d) from newpath)"

text \<open>Two paths; \<open>d\<close> is read once, from the context of the call.\<close>

definition with_newpaths ::
  "(nat \<Rightarrow> 'w subdir) \<Rightarrow> string option \<Rightarrow> string option \<Rightarrow> ('w subdir \<Rightarrow> string option \<Rightarrow> string option \<Rightarrow> 'w env \<Rightarrow> int \<times> 'w env) \<Rightarrow>
   'w env \<Rightarrow> int \<times> 'w env" where
  "with_newpaths D from to call e =
     (let d = subdir_get D e
      in case subdir_addpath d from e of (err, newfrom, e1) \<Rightarrow>
           if err = 0 then
             (case subdir_addpath d to e1 of (err2, newto, e2) \<Rightarrow>
                if err2 = 0 then call d newfrom newto e2 else (err2, e2))
           else (err, e1))"

definition subdir_rename ::
  "(nat \<Rightarrow> 'w subdir) \<Rightarrow> string option \<Rightarrow> string option \<Rightarrow> u32 \<Rightarrow> 'w env \<Rightarrow> int \<times> 'w env" where
  "subdir_rename D from to flags =
     with_newpaths D from to (\<lambda>d newfrom newto. fuse_fs_rename (sd_next d) newfrom newto flags)"

definition subdir_link ::
  "(nat \<Rightarrow> 'w subdir) \<Rightarrow> string option \<Rightarrow> string option \<Rightarrow> 'w env \<Rightarrow> int \<times> 'w env" where
  "subdir_link D from to = with_newpaths D from to (\<lambda>d newfrom newto. fuse_fs_link (sd_next d) newfrom newto)"

definition subdir_chmod ::
  "(nat \<Rightarrow> 'w subdir) \<Rightarrow> string option \<Rightarrow> u32 \<Rightarrow> fuse_file_info option \<Rightarrow> 'w env \<Rightarrow> int \<times> 'w env" where
  "subdir_chmod D path mode fi =
     with_newpath D path Pair (\<lambda>d newpath. fuse_fs_chmod (sd_next d) newpath mode fi)"

definition subdir_chown ::
  "(nat \<Rightarrow> 'w subdir) \<Rightarrow> string option \<Rightarrow> u32 \<Rightarrow> u32 \<Rightarrow> fuse_file_info option \<Rightarrow> 'w env \<Rightarrow> int \<times> 'w env" where
  "subdir_chown D path uid gid fi =
     with_newpath D path Pair (\<lambda>d newpath. fuse_fs_chown (sd_next d) newpath uid gid fi)"

definition subdir_truncate ::
  "(nat \<Rightarrow> 'w subdir) \<Rightarrow> string option \<Rightarrow> int \<Rightarrow> fuse_file_info option \<Rightarrow> 'w env \<Rightarrow> int \<times> 'w env" where
  "subdir_truncate D path sz fi =
     with_newpath D path Pair (\<lambda>d newpath. fuse_fs_truncate (sd_next d) newpath sz fi)"

definition subdir_utimens ::
  "(nat \<Rightarrow> 'w subdir) \<Rightarrow> string option \<Rightarrow> timespec \<Rightarrow> timespec \<Rightarrow> fuse_file_info option \<Rightarrow> 'w env \<Rightarrow> int \<times> 'w env" where
  "subdir_utimens D path atime mt fi =
     with_newpath D path Pair (\<lambda>d newpath. fuse_fs_utimens (sd_next d) newpath atime mt fi)"

definition subdir_create ::
  "(nat \<Rightarrow> 'w subdir) \<Rightarrow> string option \<Rightarrow> u32 \<Rightarrow> fuse_file_info \<Rightarrow> 'w env \<Rightarrow> (int \<times> fuse_file_info) \<times> 'w env" where
  "subdir_create D path mode fi =
     with_newpath D path (\<lambda>err. Pair (err, fi)) (\<lambda>d newpath. fuse_fs_create (sd_next d) newpath mode fi)"

definition subdir_open ::
  "(nat \<Rightarrow> 'w subdir) \<Rightarrow> string option \<Rightarrow> fuse_file_info \<Rightarrow> 'w env \<Rightarrow> (int \<times> fuse_file_info) \<times> 'w env" where
  "subdir_open D path fi =
     with_newpath D path (\<lambda>err. Pair (err, fi)) (\<lambda>d newpath. fuse_fs_open (sd_next d) newpath fi)"

definition subdir_read_buf ::
  "(nat \<Rightarrow> 'w subdir) \<Rightarrow> string option \<Rightarrow> nat \<Rightarrow> int \<Rightarrow> fuse_file_info \<Rightarrow> 'w env \<Rightarrow> ((int \<times> fuse_bufvec option) \<times> 'w env) option" where
  "subdir_read_buf D path sz off fi =
     with_newpath D path (\<lambda>err e1. Some ((err, None), e1))
       (\<lambda>d newpath. fuse_fs_read_buf (sd_next d) newpath sz off fi)"

definition subdir_write_buf ::
  "(nat \<Rightarrow> 'w subdir) \<Rightarrow> string option \<Rightarrow> fuse_bufvec \<Rightarrow> int \<Rightarrow> fuse_file_info \<Rightarrow> 'w env \<Rightarrow> (int \<times> 'w env) option" where
  "subdir_write_buf D path buf off fi =
     with_newpath D path (\<lambda>err e1. Some (err, e1))
       (\<lambda>d newpath. fuse_fs_write_buf (sd_next d) newpath buf off fi)"

definition subdir_statfs ::
  "(nat \<Rightarrow> 'w subdir) \<Rightarrow> string option \<Rightarrow> statvfs \<Rightarrow> 'w env \<Rightarrow> (int \<times> statvfs) \<times> 'w env" where
  "subdir_statfs D path stbuf =
     with_newpath D path (\<lambda>err. Pair (err, stbuf)) (\<lambda>d newpath. fuse_fs_statfs (sd_next d) newpath stbuf)"

definition subdir_flush ::
  "(nat \<Rightarrow> 'w subdir) \<Rightarrow> string option \<Rightarrow> fuse_file_info \<Rightarrow> 'w env \<Rightarrow> int \<times> 'w env" where
  "subdir_flush D path fi =
     with_newpath D path Pair (\<lambda>d newpath. fuse_fs_flush (sd_next d) newpath fi)"

definition subdir_release ::
  "(nat \<Rightarrow> 'w subdir) \<Rightarrow> string option \<Rightarrow> fuse_file_info \<Rightarrow> 'w env \<Rightarrow> int \<times> 'w env" where
  "subdir_release D path fi =
     with_newpath D path Pair (\<lambda>d newpath. fuse_fs_release (sd_next d) newpath fi)"

definition subdir_fsync ::
  "(nat \<Rightarrow> 'w subdir) \<Rightarrow> string option \<Rightarrow> bool \<Rightarrow> fuse_file_info \<Rightarrow> 'w env \<Rightarrow> int \<times> 'w env" where
  "subdir_fsync D path datasync fi =
     with_newpath D path Pair (\<lambda>d newpath. fuse_fs_fsync (sd_next d) newpath datasync fi)"

definition subdir_fsyncdir ::
  "(nat \<Rightarrow> 'w subdir) \<Rightarrow> string option \<Rightarrow> bool \<Rightarrow> fuse_file_info \<Rightarrow> 'w env \<Rightarrow> int \<times> 'w env" where
  "subdir_fsyncdir D path datasync fi =
     with_newpath D path Pair (\<lambda>d newpath. fuse_fs_fsyncdir (sd_next d) newpath datasync fi)"

definition subdir_setxattr ::
  "(nat \<Rightarrow> 'w subdir) \<Rightarrow> string option \<Rightarrow> string \<Rightarrow> byte list \<Rightarrow> u32 \<Rightarrow> 'w env \<Rightarrow> int \<times> 'w env" where
  "subdir_setxattr D path name val flags =
     with_newpath D path Pair (\<lambda>d newpath. fuse_fs_setxattr (sd_next d) newpath name val flags)"

definition subdir_getxattr ::
  "(nat \<Rightarrow> 'w subdir) \<Rightarrow> string option \<Rightarrow> string \<Rightarrow> nat \<Rightarrow> 'w env \<Rightarrow> (int \<times> byte list) \<times> 'w env" where
  "subdir_getxattr D path name sz =
     with_newpath D path (\<lambda>err. Pair (err, [])) (\<lambda>d newpath. fuse_fs_getxattr (sd_next d) newpath name sz)"

definition subdir_listxattr ::
  "(nat \<Rightarrow> 'w subdir) \<Rightarrow> string option \<Rightarrow> nat \<Rightarrow> 'w env \<Rightarrow> (int \<times> byte list) \<times> 'w env" where
  "subdir_listxattr D path sz =
     with_newpath D path (\<lambda>err. Pair (err, [])) (\<lambda>d newpath. fuse_fs_listxattr (sd_next d) newpath sz)"

definition subdir_removexattr ::
  "(nat \<Rightarrow> 'w subdir) \<Rightarrow> string option \<Rightarrow> string \<Rightarrow> 'w env \<Rightarrow> int \<times> 'w env" where
  "subdir_removexattr D path name =
     with_newpath D path Pair (\<lambda>d newpath. fuse_fs_removexattr (sd_next d) newpath name)"

definition subdir_lock ::
  "(nat \<Rightarrow> 'w subdir) \<Rightarrow> string option \<Rightarrow> fuse_file_info \<Rightarrow> lock_cmd \<Rightarrow> flock \<Rightarrow> 'w env \<Rightarrow> (int \<times> flock) \<times> 'w env" where
  "subdir_lock D path fi cmd lk =
     with_newpath D path (\<lambda>err. Pair (err, lk)) (\<lambda>d newpath. fuse_fs_lock (sd_next d) newpath fi cmd lk)"

definition subdir_flock ::
  "(nat \<Rightarrow> 'w subdir) \<Rightarrow> string option \<Rightarrow> fuse_file_info \<Rightarrow> u32 \<Rightarrow> 'w env \<Rightarrow> int \<times> 'w env" where
  "subdir_flock D path fi lop =
     with_newpath D path Pair (\<lambda>d newpath. fuse_fs_flock (sd_next d) newpath fi lop)"

definition subdir_bmap ::
  "(nat \<Rightarrow> 'w subdir) \<Rightarrow> string option \<Rightarrow> nat \<Rightarrow> u64 \<Rightarrow> 'w env \<Rightarrow> (int \<times> u64) \<times> 'w env" where
  "subdir_bmap D path blocksize idx =
     with_newpath D path (\<lambda>err. Pair (err, idx)) (\<lambda>d newpath. fuse_fs_bmap (sd_next d) newpath blocksize idx)"

text \<open>The resulting offset passes through a variable of type \<open>int\<close>.\<close>

definition subdir_lseek ::
  "(nat \<Rightarrow> 'w subdir) \<Rightarrow> string option \<Rightarrow> int \<Rightarrow> u32 \<Rightarrow> fuse_file_info \<Rightarrow> 'w env \<Rightarrow> int \<times> 'w env" where
  "subdir_lseek D path off whence fi =
     with_newpath D path Pair
       (\<lambda>d newpath e1. case fuse_fs_lseek (sd_next d) newpath off whence fi e1 of
          (res, e2) \<Rightarrow> (sint (word_of_int res :: u32), e2))"

definition subdir_statx ::
  "(nat \<Rightarrow> 'w subdir) \<Rightarrow> string option \<Rightarrow> u32 \<Rightarrow> u32 \<Rightarrow> statx \<Rightarrow> fuse_file_info option \<Rightarrow> 'w env \<Rightarrow> (int \<times> statx) \<times> 'w env" where
  "subdir_statx D path flags msk stx fi =
     with_newpath D path (\<lambda>err. Pair (err, stx)) (\<lambda>d newpath. fuse_fs_statx (sd_next d) newpath flags msk stx fi)"

definition subdir_destroy ::
  "(nat \<Rightarrow> 'w subdir) \<Rightarrow> nat \<Rightarrow> 'w env \<Rightarrow> unit \<times> 'w env" where
  "subdir_destroy D data = fuse_fs_destroy (sd_next (D data))"

definition subdir_oper :: "(nat \<Rightarrow> 'w subdir) \<Rightarrow> 'w fuse_operations" where
  "subdir_oper D = \<lparr>op_getattr = Some (subdir_getattr D), op_readlink = Some (subdir_readlink D), op_mknod = Some (subdir_mknod D),
     op_mkdir = Some (subdir_mkdir D), op_unlink = Some (subdir_unlink D), op_rmdir = Some (subdir_rmdir D),
     op_symlink = Some (subdir_symlink D), op_rename = Some (subdir_rename D), op_link = Some (subdir_link D),
     op_chmod = Some (subdir_chmod D), op_chown = Some (subdir_chown D), op_truncate = Some (subdir_truncate D),
     op_open = Some (subdir_open D), op_read = None, op_write = None,
     op_statfs = Some (subdir_statfs D), op_flush = Some (subdir_flush D), op_release = Some (subdir_release D),
     op_fsync = Some (subdir_fsync D), op_setxattr = Some (subdir_setxattr D), op_getxattr = Some (subdir_getxattr D),
     op_listxattr = Some (subdir_listxattr D), op_removexattr = Some (subdir_removexattr D), op_opendir = Some (subdir_opendir D),
     op_readdir = Some (subdir_readdir D), op_releasedir = Some (subdir_releasedir D), op_fsyncdir = Some (subdir_fsyncdir D),
     op_destroy = Some (subdir_destroy D), op_access = Some (subdir_access D), op_create = Some (subdir_create D),
     op_lock = Some (subdir_lock D), op_utimens = Some (subdir_utimens D), op_bmap = Some (subdir_bmap D),
     op_ioctl = None, op_poll = None, op_write_buf = Some (subdir_write_buf D),
     op_read_buf = Some (subdir_read_buf D), op_flock = Some (subdir_flock D), op_fallocate = None,
     op_copy_file_range = None, op_lseek = Some (subdir_lseek D), op_statx = Some (subdir_statx D)\<rparr>"

section \<open>Creation\<close>

text \<open>The offsets of \<open>base\<close> and \<open>rellinks\<close> in the structure.\<close>

definition subdir_opts :: "fuse_opt list" where
  "subdir_opts =
     [\<lparr>o_templ = ''-h'', o_offset = no_offset, o_value = 0\<rparr>,
      \<lparr>o_templ = ''--help'', o_offset = no_offset, o_value = 0\<rparr>,
      \<lparr>o_templ = ''subdir=%s'', o_offset = 0, o_value = 0\<rparr>,
      \<lparr>o_templ = ''rellinks'', o_offset = 16, o_value = 1\<rparr>,
      \<lparr>o_templ = ''norellinks'', o_offset = 16, o_value = 0\<rparr>]"

definition subdir_opt_proc :: opt_proc where
  "subdir_opt_proc data arg key outargs = (if key = 0 then (-1, data, outargs) else (1, data, outargs))"

definition fuse_fs_new :: "'w sys \<Rightarrow> tape \<Rightarrow> 'w fuse_operations \<Rightarrow> nat \<Rightarrow> 'w fuse_fs option" where
  "fuse_fs_new sys t op data =
     (if fst (alloc_pop t) then Some \<lparr>fs_op = op, user_data = data, fs_sys = sys\<rparr> else None)"

text \<open>
  The structure is put at the address \<open>p\<close>; the tape \<open>t\<close> is for the module's own allocations, \<open>tp\<close> for
  those of the option parser. The result has the memory with the new structure in it; \<open>None\<close> in it
  is the null pointer.
\<close>

definition subdir_new ::
  "opt_scan \<Rightarrow> 'w sys \<Rightarrow> tape \<Rightarrow> tape \<Rightarrow> fuse_args \<Rightarrow> 'w fuse_fs list \<Rightarrow> nat \<Rightarrow> (nat \<Rightarrow> 'w subdir) \<Rightarrow>
   (((nat \<Rightarrow> 'w subdir) \<times> 'w fuse_fs) option \<times> fuse_args) option" where
  "subdir_new scan sys t tp args next p D =
     (case alloc_pop t of (mem, t1) \<Rightarrow>
        if \<not> mem then Some (None, args)
        else do {
          (res, data, args1) \<leftarrow> fuse_opt_parse scan tp args (\<lambda>_. VInt 0) subdir_opts (Some subdir_opt_proc);
          if res = -1 then Some (None, args1)
          else Some (case (next, data 0) of
            ([nx], VStr b) \<Rightarrow>
              let add = (b \<noteq> [] \<and> last b \<noteq> slash);
                  t2 = (if add then snd (alloc_pop t1) else t1);
                  base = (if add then b @ [slash] else b);
                  D1 = D(p := \<lparr>sd_base = base, sd_baselen = length base, sd_rellinks = data 16 \<noteq> VInt 0, sd_next = nx\<rparr>)
              in if add \<and> \<not> fst (alloc_pop t1) then None
                 else map_option (Pair D1) (fuse_fs_new sys t2 (subdir_oper D1) p)
          | _ \<Rightarrow> None, args1) })"

end
