(* ===== verification/Subdir_Properties.thy ===== *)
theory Subdir_Properties
  imports Subdir
begin

text \<open>
  The module \<open>subdir\<close> as a file system: every operation is the operation of the next file system
  on the path below the base directory, and a link that is made relative keeps its target.
\<close>

section \<open>Names of a path\<close>

text \<open>The names between the slashes.\<close>

fun pieces :: "string \<Rightarrow> string list" where
  "pieces [] = [[]]"
| "pieces (c # s) = (if c = slash then [] # pieces s else (c # hd (pieces s)) # tl (pieces s))"

definition names :: "string \<Rightarrow> string list" where
  "names s = filter (\<lambda>n. n \<noteq> []) (pieces s)"

lemma pieces_not_Nil [simp]: "pieces s \<noteq> []"
  by (cases s) auto

lemma pieces_append: "pieces (b @ slash # s) = pieces b @ pieces s"
  by (induction b) auto

lemma pieces_name: "slash \<notin> set u \<Longrightarrow> pieces u = [u]"
  by (induction u) auto

lemma names_Nil [simp]: "names [] = []"
  by (simp add: names_def)

lemma names_slash [simp]: "names (slash # s) = names s"
  by (simp add: names_def)

lemma names_skip [simp]: "names (skip_slashes s) = names s"
  by (induction s) (auto simp: skip_slashes_def)

lemma skip_slashes_twice [simp]: "skip_slashes (skip_slashes s) = skip_slashes s"
  by (induction s) (auto simp: skip_slashes_def)

lemma take_skip_slashes [simp]: "take n (skip_slashes s) \<noteq> [slash]"
  using skip_slashes_head [of s] by (cases "skip_slashes s"; cases n) auto

lemma names_append:
  assumes "b = [] \<or> last b = slash"
  shows "names (b @ s) = names b @ names s"
proof (cases b rule: rev_cases)
  case (snoc c x)
  then have "b = c @ [slash]" using assms by simp
  then show ?thesis using pieces_append [of c s] pieces_append [of c "[]"] by (simp add: names_def)
qed simp

lemma names_name:
  assumes "slash \<notin> set u" "u \<noteq> []" "take 1 s \<in> {[], [slash]}"
  shows "names (u @ s) = u # names s"
proof (cases s)
  case (Cons c t)
  then show ?thesis using assms pieces_append [of u t] by (simp add: names_def pieces_name)
qed (use assms in \<open>simp add: names_def pieces_name\<close>)

lemma names_component:
  assumes "skip_slashes s \<noteq> []"
  obtains u where "names s = u # names (skip_slashes (skip_name (skip_slashes s)))"
proof -
  let ?r = "skip_slashes s"
  let ?u = "takeWhile (\<lambda>c. c \<noteq> slash) ?r"
  have s: "?r = ?u @ skip_name ?r" by (simp add: skip_name_def)
  have u: "slash \<notin> set ?u" by (auto dest: set_takeWhileD)
  have n: "?u \<noteq> []" using assms skip_slashes_head [of s] by (cases ?r) auto
  have e: "take 1 (skip_name ?r) \<in> {[], [slash]}"
  proof (cases "skip_name ?r")
    case (Cons c t)
    then have "c = slash" using hd_dropWhile [of "\<lambda>c. c \<noteq> slash" ?r] by (simp add: skip_name_def)
    then show ?thesis using Cons by simp
  qed simp
  have "names ?r = ?u # names (skip_name ?r)" using names_name [OF u n e] s by simp
  then show ?thesis by (intro that [of ?u]) simp
qed

lemma count_components_names: "count_components s = length (names s)"
  unfolding count_components_def
proof (induction "skip_slashes s" arbitrary: s rule: count_loop.induct)
  case 1
  show ?case
  proof (cases "skip_slashes s = []")
    case True
    then have "names s = []" using names_skip [of s] by simp
    then show ?thesis using True by (simp add: count_loop.simps)
  next
    case False
    let ?t = "skip_name (skip_slashes s)"
    obtain u where u: "names s = u # names ?t" by (rule names_component [OF False]) simp
    have "count_loop (skip_slashes ?t) = length (names ?t)" using 1 [OF False, of ?t] by simp
    then show ?thesis using False u by (simp add: count_loop.simps [of "skip_slashes s"])
  qed
qed

text \<open>
  What \<open>strip_common\<close> takes off is a list of names common to both paths, and the first rest does
  not start with a slash.
\<close>

lemma strip_common_names:
  "strip_common s t = (l, p) \<Longrightarrow>
     (\<exists>cs. names s = cs @ names l \<and> names t = cs @ names p) \<and> take 1 l \<noteq> [slash] \<and> length l \<le> length s"
proof (induction s t rule: strip_common.induct)
  case (1 s t)
  obtain s2 t2 where m: "match_names (skip_slashes s) (skip_slashes t) = (s2, t2)" by fastforce
  show ?case
  proof (cases "strip_more s2 t2")
    case True
    obtain u where u: "skip_slashes s = u @ s2" "skip_slashes t = u @ t2" "slash \<notin> set u" "u \<noteq> []"
      "take 1 s2 \<in> {[], [slash]}" "take 1 t2 \<in> {[], [slash]}"
      by (rule strip_more_name [OF m True])
    have "strip_common s2 t2 = (l, p)" using 1(2) True by (simp add: strip_common.simps [of s] m)
    then obtain cs where cs: "names s2 = cs @ names l" "names t2 = cs @ names p" "take 1 l \<noteq> [slash]" "length l \<le> length s2"
      using 1(1) [OF refl refl m [symmetric] True] by blast
    have "names s = u # names s2" "names t = u # names t2"
      using names_name [OF u(3,4,5)] names_name [OF u(3,4,6)] u(1,2) names_skip [of s] names_skip [of t] by simp_all
    moreover have "length s2 \<le> length s" using u(1) skip_shorter(1) [of s] by simp
    ultimately show ?thesis using cs by (auto intro: exI [of _ "u # cs"])
  next
    case False
    then have "l = skip_slashes s" "p = skip_slashes t" using 1(2) by (simp_all add: strip_common.simps [of s] m)
    then show ?thesis using skip_shorter(1) [of s] by simp
  qed
qed

text \<open>A common directory in front of both paths is taken off.\<close>

lemma match_names_common: "slash \<notin> set u \<Longrightarrow> match_names (u @ s) (u @ t) = match_names s t"
  by (induction u) auto

lemma strip_common_skip: "strip_common (skip_slashes s) (skip_slashes t) = strip_common s t"
  by (simp add: strip_common.simps [of s] strip_common.simps [of "skip_slashes s"])

lemma strip_common_slash: "strip_common (slash # s) (slash # t) = strip_common s t"
  using strip_common_skip [of "slash # s" "slash # t"] strip_common_skip [of s t] by (simp add: skip_slashes_def)

lemma strip_common_name:
  assumes "slash \<notin> set u" "u \<noteq> []"
  shows "strip_common (u @ slash # s) (u @ slash # t) = strip_common s t"
proof -
  have n: "skip_slashes (u @ x) = u @ x" for x using assms by (cases u) (auto simp: skip_slashes_def)
  show ?thesis
    using strip_common_slash [of s t]
    by (simp add: strip_common.simps [of "u @ slash # s"] n match_names_common [OF assms(1)] strip_more_def)
qed

lemma strip_common_append: "strip_common (b @ slash # s) (b @ slash # t) = strip_common s t"
proof (induction "length b" arbitrary: b rule: less_induct)
  case less
  show ?case
  proof (cases "slash \<in> set b")
    case True
    then obtain u v where b: "b = u @ slash # v" "slash \<notin> set u" by (meson split_list_first)
    have v: "strip_common (v @ slash # s) (v @ slash # t) = strip_common s t" using less b by simp
    show ?thesis
    proof (cases "u = []")
      case True
      then show ?thesis using b v strip_common_slash by simp
    next
      case False
      then show ?thesis using b v strip_common_name [of u "v @ slash # s" "v @ slash # t"] by simp
    qed
  next
    case False
    then show ?thesis using strip_common_name [of b] strip_common_slash by (cases "b = []") auto
  qed
qed

section \<open>Links\<close>

text \<open>
  Where a link leads: its names one after the other, from the root or from the directory of the
  link.
\<close>

definition enter_name :: "string list \<Rightarrow> string \<Rightarrow> string list" where
  "enter_name dir n = (if n = ''.'' then dir else if n = ''..'' then butlast dir else dir @ [n])"

definition link_target :: "string list \<Rightarrow> string \<Rightarrow> string list" where
  "link_target dir link = foldl enter_name (if take 1 link = [slash] then [] else dir) (names link)"

definition plain_names :: "string list \<Rightarrow> bool" where
  "plain_names ns \<longleftrightarrow> ''.'' \<notin> set ns \<and> ''..'' \<notin> set ns"

lemma enter_plain: "plain_names ns \<Longrightarrow> foldl enter_name dir ns = dir @ ns"
  by (induction ns arbitrary: dir) (auto simp: plain_names_def enter_name_def)

lemma enter_dotdots: "foldl enter_name (dir @ ds) (replicate (length ds) ''..'') = dir"
proof (induction ds rule: rev_induct)
  case (snoc d ds)
  then show ?case by (simp add: enter_name_def flip: append_assoc)
qed simp

lemma names_dotdots: "names (concat (replicate n ''../'') @ l) = replicate n ''..'' @ names l"
proof (induction n)
  case (Suc n)
  have "names (''..'' @ slash # x) = ''..'' # names x" for x
    using names_name [of "''..''" "slash # x"] names_slash [of x] by (simp add: slash_def)
  then show ?case using Suc by (simp add: slash_def)
qed simp

lemma transform_symlink_changed:
  assumes "transform_symlink d path buf sz \<noteq> buf"
  obtains cs l p k where "take 1 buf = [slash]" "names buf = cs @ names l" "names path = cs @ names p"
    "length (names p) = Suc k" "take 1 l \<noteq> [slash]" "k * 3 + length l + 2 \<le> sz"
    "transform_symlink d path buf sz = concat (replicate k ''../'') @ (if l \<noteq> [] then l else if k = 0 then ''.'' else [])"
proof -
  obtain l p where lp: "strip_common buf path = (l, p)" by fastforce
  obtain cs where cs: "names buf = cs @ names l" "names path = cs @ names p" "take 1 l \<noteq> [slash]"
    using strip_common_names [OF lp] by blast
  note t = assms [unfolded transform_symlink_def lp split_conv count_components_names]
  then obtain k where k: "length (names p) = Suc k" by (cases "length (names p)") (auto split: if_splits)
  show ?thesis
    using t that [OF _ cs(1,2) k cs(3)] unfolding transform_symlink_def lp split_conv count_components_names k
    by (auto split: if_splits simp: Let_def not_less)
qed

lemma transform_symlink_target:
  assumes "plain_names (names path)"
  shows "link_target (butlast (names path)) (transform_symlink d path buf sz) = link_target (butlast (names path)) buf"
proof (cases "transform_symlink d path buf sz = buf")
  case False
  then obtain cs l p k where t: "take 1 buf = [slash]" "names buf = cs @ names l" "names path = cs @ names p"
    "length (names p) = Suc k" "take 1 l \<noteq> [slash]"
    "transform_symlink d path buf sz = concat (replicate k ''../'') @ (if l \<noteq> [] then l else if k = 0 then ''.'' else [])"
    by (rule transform_symlink_changed)
  let ?r = "if l \<noteq> [] then l else if k = 0 then ''.'' else []"
  have b: "butlast (names path) = cs @ butlast (names p)" "length (butlast (names p)) = k"
    using t(3,4) by (auto simp: butlast_append)
  have "take 1 (concat (replicate k ''../'') @ ?r) \<noteq> [slash]"
    using t(5) by (cases k) (auto simp: slash_def)
  moreover have "foldl enter_name cs (names ?r) = foldl enter_name cs (names l)"
    using names_name [of "''.''" "[]"] by (auto simp: slash_def enter_name_def)
  moreover have "foldl enter_name (butlast (names path)) (replicate k ''..'') = cs"
    using enter_dotdots [of cs "butlast (names p)"] b by simp
  moreover have "foldl enter_name [] cs = cs" using assms t(3) enter_plain [of cs "[]"] by (simp add: plain_names_def)
  ultimately show ?thesis using t(1,2,6) by (simp add: link_target_def names_dotdots)
qed simp

lemma transform_symlink_fits: "length buf < sz \<Longrightarrow> length (transform_symlink d path buf sz) < sz"
proof (cases "transform_symlink d path buf sz = buf")
  case False
  then show ?thesis by (rule transform_symlink_changed) (auto simp: length_concat sum_list_replicate)
qed simp

text \<open>A link to a place below the base becomes relative, unless it leads below itself.\<close>

lemma transform_symlink_relative:
  assumes d: "sd_base d = b @ [slash]" "sd_baselen d = length (sd_base d)" "take 1 (sd_base d) = [slash]"
    and link: "link = sd_base d @ l" and path: "path = sd_base d @ p"
    and self: "\<not> (\<exists>ns. names link = names path @ ns)" and fits: "3 * length (names path) + length link + 2 \<le> sz"
  shows "take 1 (transform_symlink d path link sz) \<noteq> [slash]"
proof -
  obtain l' p' where lp: "strip_common link path = (l', p')" by fastforce
  then have lp': "strip_common l p = (l', p')" using strip_common_append [of b l p] by (simp add: link path d(1))
  note n = strip_common_names [OF lp] strip_common_names [OF lp']
  obtain cs where cs: "names link = cs @ names l'" "names path = cs @ names p'" using n(1) by blast
  have "names p' \<noteq> []" using self cs by auto
  then obtain k where k: "length (names p') = Suc k" by (cases "names p'") auto
  have "length l' \<le> length l" using n(2) by blast
  then have far: "\<not> length link - length l' < sd_baselen d" using link d(2) by simp
  have "k \<le> length (names path)" using cs(2) k by simp
  then have "\<not> sz < k * 3 + length l' + 2" using fits n(1) by simp
  moreover have "take 1 link = [slash]" using d(3) link by (cases "sd_base d") auto
  ultimately show ?thesis
    using far k d(3) n(1)
    by (cases k) (auto simp: transform_symlink_def lp count_components_names Let_def slash_def)
qed

section \<open>Every operation\<close>

definition walk :: "string list \<Rightarrow> string \<Rightarrow> string list" where
  "walk dir s = foldl enter_name dir (names s)"

definition rebased :: "string \<Rightarrow> string \<Rightarrow> string" where
  "rebased b path = (let q = b @ (if take 1 path = [slash] then tl path else path) in if q = [] then ''.'' else q)"

text \<open>
  A call is handed on with the path below the base; without memory for the path it fails, and
  nothing is called.
\<close>

definition rebases ::
  "'w fuse_fs \<Rightarrow> string \<Rightarrow> (string option \<Rightarrow> 'w env \<Rightarrow> 'r) \<Rightarrow> (string option \<Rightarrow> 'w env \<Rightarrow> 'r) \<Rightarrow> (int \<Rightarrow> 'w env \<Rightarrow> 'r) \<Rightarrow> bool" where
  "rebases fs b outer inner fail \<longleftrightarrow> (\<forall>path e t.
     (alloc_pop (e_allocs e) = (True, t) \<longrightarrow> outer (Some path) e = inner (Some (rebased b path)) (e\<lparr>e_allocs := t\<rparr>)) \<and>
     (alloc_pop (e_allocs e) = (False, t) \<longrightarrow> outer (Some path) e = fail (- ENOMEM) (enter_fs fs (e\<lparr>e_allocs := t\<rparr>))))"

definition sd_ok :: "'w subdir \<Rightarrow> bool" where
  "sd_ok d \<longleftrightarrow> (sd_base d = [] \<or> last (sd_base d) = slash) \<and> sd_baselen d = length (sd_base d)"

lemma walk_rebased:
  assumes "b = [] \<or> last b = slash"
  shows "walk dir (rebased b path) = walk (walk dir b) path"
proof -
  have r: "names (b @ (if take 1 path = [slash] then tl path else path)) = names b @ names path"
    using names_append [OF assms] by (cases path) auto
  show ?thesis
  proof (cases "b @ (if take 1 path = [slash] then tl path else path) = []")
    case True
    then have "names b @ names path = []" using r by simp
    moreover have "names ''.'' = [''.'']" using names_name [of "''.''" "[]"] by (simp add: slash_def)
    ultimately show ?thesis using True by (simp add: rebased_def walk_def enter_name_def)
  next
    case False
    then have "rebased b path = b @ (if take 1 path = [slash] then tl path else path)" by (simp only: rebased_def Let_def if_False)
    then show ?thesis using r by (simp add: walk_def)
  qed
qed

lemma enter_again [simp]: "enter_fs nx (enter_fs fs e) = enter_fs nx e"
  by (simp add: enter_fs_def)

lemma enter_allocs: "enter_fs fs (e\<lparr>e_allocs := t\<rparr>) = (enter_fs fs e)\<lparr>e_allocs := t\<rparr>" "e_allocs (enter_fs fs e) = e_allocs e"
  by (simp_all add: enter_fs_def)

lemma call_op_enter [simp]: "call_op nx op dflt c (enter_fs fs e) = call_op nx op dflt c e"
  by (simp add: call_op_def split: option.split)

lemma call_op_Some: "call_op fs (Some h) dflt c e = c h (enter_fs fs e)"
  by (simp add: call_op_def)

lemma addpath_rebased:
  "alloc_pop (e_allocs e) = (True, t) \<Longrightarrow> subdir_addpath d (Some path) e = (0, Some (rebased (sd_base d) path), e\<lparr>e_allocs := t\<rparr>)"
  "alloc_pop (e_allocs e) = (False, t) \<Longrightarrow> subdir_addpath d (Some path) e = (- ENOMEM, None, e\<lparr>e_allocs := t\<rparr>)"
  by (simp_all add: subdir_addpath_def rebased_def Let_def)

lemma rebases_call:
  assumes "\<And>q e. outer q e = with_newpath D q fail call (enter_fs fs e)" "D (user_data fs) = d"
    and "\<And>q e. call d q (enter_fs fs e) = inner q e"
  shows "rebases fs (sd_base d) outer inner fail"
proof -
  have g: "subdir_get D (enter_fs fs e) = d" for e using assms(2) by (simp add: subdir_get_def enter_fs_def)
  have n: "ENOMEM \<noteq> 0" by (simp add: ENOMEM_def)
  show ?thesis
    unfolding rebases_def assms(1) with_newpath_def g Let_def
    by (auto simp: addpath_rebased enter_allocs(2) n assms(3) simp flip: enter_allocs(1))
qed

lemmas subdir_ops_defs =
  subdir_getattr_def fuse_fs_getattr_def subdir_access_def fuse_fs_access_def subdir_opendir_def fuse_fs_opendir_def
  subdir_releasedir_def fuse_fs_releasedir_def subdir_mknod_def fuse_fs_mknod_def subdir_mkdir_def fuse_fs_mkdir_def
  subdir_unlink_def fuse_fs_unlink_def subdir_rmdir_def fuse_fs_rmdir_def subdir_chmod_def fuse_fs_chmod_def
  subdir_chown_def fuse_fs_chown_def subdir_truncate_def fuse_fs_truncate_def subdir_utimens_def fuse_fs_utimens_def
  subdir_create_def fuse_fs_create_def subdir_open_def fuse_fs_open_def subdir_statfs_def fuse_fs_statfs_def
  subdir_flush_def fuse_fs_flush_def subdir_release_def fuse_fs_release_def subdir_fsync_def fuse_fs_fsync_def
  subdir_fsyncdir_def fuse_fs_fsyncdir_def subdir_setxattr_def fuse_fs_setxattr_def subdir_getxattr_def fuse_fs_getxattr_def
  subdir_listxattr_def fuse_fs_listxattr_def subdir_removexattr_def fuse_fs_removexattr_def subdir_lock_def fuse_fs_lock_def
  subdir_flock_def fuse_fs_flock_def subdir_bmap_def fuse_fs_bmap_def subdir_statx_def fuse_fs_statx_def
  subdir_symlink_def fuse_fs_symlink_def subdir_readdir_def fuse_fs_readdir_def

text \<open>The operations that hand their result on unchanged.\<close>

lemma subdir_calls:
  assumes fs: "fs_op fs = subdir_oper D" "D (user_data fs) = d"
  defines "nx \<equiv> sd_next d" and "b \<equiv> sd_base d"
  shows
    "rebases fs b (\<lambda>q. fuse_fs_getattr fs q st ofi) (\<lambda>q. fuse_fs_getattr nx q st ofi) (\<lambda>err. Pair (err, st))"
    "rebases fs b (\<lambda>q. fuse_fs_access fs q msk) (\<lambda>q. fuse_fs_access nx q msk) Pair"
    "rebases fs b (\<lambda>q. fuse_fs_opendir fs q fi) (\<lambda>q. fuse_fs_opendir nx q fi) (\<lambda>err. Pair (err, fi))"
    "rebases fs b (\<lambda>q. fuse_fs_releasedir fs q fi) (\<lambda>q. fuse_fs_releasedir nx q fi) Pair"
    "rebases fs b (\<lambda>q. fuse_fs_mknod fs q mode rdev) (\<lambda>q. fuse_fs_mknod nx q mode rdev) Pair"
    "rebases fs b (\<lambda>q. fuse_fs_mkdir fs q mode) (\<lambda>q. fuse_fs_mkdir nx q mode) Pair"
    "rebases fs b (\<lambda>q. fuse_fs_unlink fs q) (\<lambda>q. fuse_fs_unlink nx q) Pair"
    "rebases fs b (\<lambda>q. fuse_fs_rmdir fs q) (\<lambda>q. fuse_fs_rmdir nx q) Pair"
    "rebases fs b (\<lambda>q. fuse_fs_chmod fs q mode ofi) (\<lambda>q. fuse_fs_chmod nx q mode ofi) Pair"
    "rebases fs b (\<lambda>q. fuse_fs_chown fs q uid gid ofi) (\<lambda>q. fuse_fs_chown nx q uid gid ofi) Pair"
    "rebases fs b (\<lambda>q. fuse_fs_truncate fs q off ofi) (\<lambda>q. fuse_fs_truncate nx q off ofi) Pair"
    "rebases fs b (\<lambda>q. fuse_fs_utimens fs q atime mt ofi) (\<lambda>q. fuse_fs_utimens nx q atime mt ofi) Pair"
    "rebases fs b (\<lambda>q. fuse_fs_create fs q mode fi) (\<lambda>q. fuse_fs_create nx q mode fi) (\<lambda>err. Pair (err, fi))"
    "rebases fs b (\<lambda>q. fuse_fs_open fs q fi) (\<lambda>q. fuse_fs_open nx q fi) (\<lambda>err. Pair (err, fi))"
    "rebases fs b (\<lambda>q. fuse_fs_statfs fs q stv) (\<lambda>q. fuse_fs_statfs nx q stv) (\<lambda>err. Pair (err, stv))"
    "rebases fs b (\<lambda>q. fuse_fs_flush fs q fi) (\<lambda>q. fuse_fs_flush nx q fi) Pair"
    "rebases fs b (\<lambda>q. fuse_fs_release fs q fi) (\<lambda>q. fuse_fs_release nx q fi) Pair"
    "rebases fs b (\<lambda>q. fuse_fs_fsync fs q ds fi) (\<lambda>q. fuse_fs_fsync nx q ds fi) Pair"
    "rebases fs b (\<lambda>q. fuse_fs_fsyncdir fs q ds fi) (\<lambda>q. fuse_fs_fsyncdir nx q ds fi) Pair"
    "rebases fs b (\<lambda>q. fuse_fs_setxattr fs q name val flags) (\<lambda>q. fuse_fs_setxattr nx q name val flags) Pair"
    "rebases fs b (\<lambda>q. fuse_fs_getxattr fs q name sz) (\<lambda>q. fuse_fs_getxattr nx q name sz) (\<lambda>err. Pair (err, []))"
    "rebases fs b (\<lambda>q. fuse_fs_listxattr fs q sz) (\<lambda>q. fuse_fs_listxattr nx q sz) (\<lambda>err. Pair (err, []))"
    "rebases fs b (\<lambda>q. fuse_fs_removexattr fs q name) (\<lambda>q. fuse_fs_removexattr nx q name) Pair"
    "rebases fs b (\<lambda>q. fuse_fs_lock fs q fi cmd lk) (\<lambda>q. fuse_fs_lock nx q fi cmd lk) (\<lambda>err. Pair (err, lk))"
    "rebases fs b (\<lambda>q. fuse_fs_flock fs q fi lop) (\<lambda>q. fuse_fs_flock nx q fi lop) Pair"
    "rebases fs b (\<lambda>q. fuse_fs_bmap fs q bs idx) (\<lambda>q. fuse_fs_bmap nx q bs idx) (\<lambda>err. Pair (err, idx))"
    "rebases fs b (\<lambda>q. fuse_fs_statx fs q flags msk stx ofi) (\<lambda>q. fuse_fs_statx nx q flags msk stx ofi) (\<lambda>err. Pair (err, stx))"
    "rebases fs b (fuse_fs_symlink fs target) (fuse_fs_symlink nx target) Pair"
    "rebases fs b (\<lambda>q. fuse_fs_readdir fs q off fi flags) (\<lambda>q. fuse_fs_readdir nx q off fi flags) FillEnd"
  unfolding nx_def b_def
  by (rule rebases_call [where D = D and d = d], simp add: fs call_op_Some subdir_oper_def subdir_ops_defs,
      rule fs(2), simp add: subdir_ops_defs split: option.split)+

lemma subdir_rename_link:
  assumes fs: "fs_op fs = subdir_oper D" "D (user_data fs) = d"
    and "alloc_pop (e_allocs e) = (True, t)" "alloc_pop t = (True, u)"
  shows "fuse_fs_rename fs (Some from) (Some to) flags e =
      fuse_fs_rename (sd_next d) (Some (rebased (sd_base d) from)) (Some (rebased (sd_base d) to)) flags (e\<lparr>e_allocs := u\<rparr>)"
    "fuse_fs_link fs (Some from) (Some to) e =
      fuse_fs_link (sd_next d) (Some (rebased (sd_base d) from)) (Some (rebased (sd_base d) to)) (e\<lparr>e_allocs := u\<rparr>)"
proof -
  have g: "subdir_get D (enter_fs fs e) = d" using fs(2) by (simp add: subdir_get_def enter_fs_def)
  have a: "subdir_addpath d (Some p) (enter_fs fs e) = (0, Some (rebased (sd_base d) p), enter_fs fs (e\<lparr>e_allocs := t\<rparr>))" for p
    using addpath_rebased(1) [of "enter_fs fs e" t] assms(3) by (simp add: enter_allocs)
  have c: "subdir_addpath d (Some p) (enter_fs fs (e\<lparr>e_allocs := t\<rparr>)) =
      (0, Some (rebased (sd_base d) p), enter_fs fs (e\<lparr>e_allocs := u\<rparr>))" for p
    using addpath_rebased(1) [of "enter_fs fs (e\<lparr>e_allocs := t\<rparr>)" u] assms(4) by (simp add: enter_allocs)
  show "fuse_fs_rename fs (Some from) (Some to) flags e =
      fuse_fs_rename (sd_next d) (Some (rebased (sd_base d) from)) (Some (rebased (sd_base d) to)) flags (e\<lparr>e_allocs := u\<rparr>)"
    by (simp add: fuse_fs_rename_def [of fs] call_op_def [of fs] fs(1) subdir_oper_def subdir_rename_def with_newpaths_def g a c Let_def)
      (simp add: fuse_fs_rename_def)
  show "fuse_fs_link fs (Some from) (Some to) e =
      fuse_fs_link (sd_next d) (Some (rebased (sd_base d) from)) (Some (rebased (sd_base d) to)) (e\<lparr>e_allocs := u\<rparr>)"
    by (simp add: fuse_fs_link_def [of fs] call_op_def [of fs] fs(1) subdir_oper_def subdir_link_def with_newpaths_def g a c Let_def)
      (simp add: fuse_fs_link_def)
qed

lemma subdir_data_calls:
  assumes fs: "fs_op fs = subdir_oper D" "D (user_data fs) = d"
  defines "nx \<equiv> sd_next d" and "b \<equiv> sd_base d"
  shows
    "rebases fs b (\<lambda>q. fuse_fs_read_buf fs q sz off fi) (\<lambda>q. fuse_fs_read_buf nx q sz off fi) (\<lambda>err e. Some ((err, None), e))"
    "rebases fs b (\<lambda>q. fuse_fs_write fs q mem sz off fi) (\<lambda>q. fuse_fs_write nx q mem sz off fi) (\<lambda>err e. Some (err, e))"
proof -
  have o: "op_read_buf (fs_op fs) = Some (subdir_read_buf D)" "op_write_buf (fs_op fs) = Some (subdir_write_buf D)"
    by (simp_all add: fs subdir_oper_def)
  have e: "fuse_fs_read_buf nx q sz off fi (enter_fs fs e) = fuse_fs_read_buf nx q sz off fi e"
    "fuse_fs_write_buf nx q v off fi (enter_fs fs e) = fuse_fs_write_buf nx q v off fi e" for q v e
    by (simp_all add: fuse_fs_read_buf_def fuse_fs_write_buf_def)
  have r: "fuse_fs_read_buf nx q sz off fi e = Some ((res, buf), e') \<Longrightarrow> \<not> (res \<ge> 0 \<and> buf = None) \<and> res \<le> 0" for q e res buf e'
    by (auto simp: fuse_fs_read_buf_def Let_def ENOSYS_def ENOMEM_def split: option.splits prod.splits bool.splits if_splits bind_splits)
  have o1: "fuse_fs_read_buf fs q sz off fi e =
      with_newpath D q (\<lambda>err e. if err < 0 then Some ((err, None), e) else None)
        (\<lambda>d q e. fuse_fs_read_buf (sd_next d) q sz off fi e \<bind>
           (\<lambda>((res, buf), e1). if res \<ge> 0 \<and> buf = None then None else Some ((if res < 0 then res else 0, buf), e1)))
        (enter_fs fs e)" for q e
    by (auto simp: fuse_fs_read_buf_def [of fs] o subdir_read_buf_def with_newpath_def Let_def split: prod.split)
  have "rebases fs b (\<lambda>q. fuse_fs_read_buf fs q sz off fi) (\<lambda>q. fuse_fs_read_buf nx q sz off fi)
     (\<lambda>err e. if err < 0 then Some ((err, None), e) else None)"
    unfolding b_def
  proof (rule rebases_call [OF o1 fs(2)])
    show "fuse_fs_read_buf (sd_next d) q sz off fi (enter_fs fs e) \<bind>
       (\<lambda>((res, buf), e1). if res \<ge> 0 \<and> buf = None then None else Some ((if res < 0 then res else 0, buf), e1)) =
       fuse_fs_read_buf nx q sz off fi e" for q e
      using r [of q e] by (cases "fuse_fs_read_buf nx q sz off fi e") (auto simp: e(1) simp flip: nx_def)
  qed
  then show "rebases fs b (\<lambda>q. fuse_fs_read_buf fs q sz off fi) (\<lambda>q. fuse_fs_read_buf nx q sz off fi) (\<lambda>err e. Some ((err, None), e))"
    by (simp add: rebases_def ENOMEM_def)
  have o2: "fuse_fs_write fs q mem sz off fi e =
      with_newpath D q (\<lambda>err e. Some (err, e)) (\<lambda>d q. fuse_fs_write (sd_next d) q mem sz off fi) (enter_fs fs e)" for q e
    by (simp add: fuse_fs_write_def fuse_fs_write_buf_def [of fs] o subdir_write_buf_def one_buf_def Let_def)
  show "rebases fs b (\<lambda>q. fuse_fs_write fs q mem sz off fi) (\<lambda>q. fuse_fs_write nx q mem sz off fi) (\<lambda>err e. Some (err, e))"
    unfolding b_def nx_def using e(2) by (intro rebases_call [OF o2 fs(2)]) (simp add: fuse_fs_write_def nx_def)
qed

text \<open>What \<open>subdir_new\<close> makes of its options.\<close>

lemma subdir_new_fs:
  assumes "subdir_new scan sys t tp args next p D0 = Some (Some (D, fs), args')"
  obtains nx res data b0 where "next = [nx]"
    "fuse_opt_parse scan tp args (\<lambda>_. VInt 0) subdir_opts (Some subdir_opt_proc) = Some (res, data, args')"
    "data 0 = VStr b0" "names (sd_base (D p)) = names b0" "sd_ok (D p)" "sd_next (D p) = nx"
    "fs_op fs = subdir_oper D" "user_data fs = p"
proof -
  obtain mem t1 where a: "alloc_pop t = (mem, t1)" by fastforce
  obtain res data where f: "fuse_opt_parse scan tp args (\<lambda>_. VInt 0) subdir_opts (Some subdir_opt_proc) = Some (res, data, args')"
    using assms by (auto simp: subdir_new_def a bind_eq_Some_conv split: if_splits prod.splits)
  obtain nx where n: "next = [nx]" using assms by (auto simp: subdir_new_def a f split: if_splits list.splits)
  obtain b0 where b: "data 0 = VStr b0" using assms by (auto simp: subdir_new_def a f n split: if_splits optval.splits)
  have "names (b0 @ [slash]) = names b0" if "b0 \<noteq> []" using pieces_append [of b0 "[]"] by (simp add: names_def)
  then show ?thesis
    using assms by (intro that [OF n f b])
      (auto simp: subdir_new_def a f n b Let_def fuse_fs_new_def sd_ok_def split: if_splits)
qed

section \<open>Properties\<close>


text \<open>A next file system whose world is the list of directories made.\<close>

definition base_ops :: "string list fuse_operations" where
  "base_ops = no_ops\<lparr>
     op_mkdir := Some (\<lambda>path mode e. (0, e\<lparr>e_world := the path # e_world e\<rparr>)),
     op_readlink := Some (\<lambda>path sz e. ((0, ''/b/c/x''), e))\<rparr>"

definition base_fs :: "string list fuse_fs" where
  "base_fs = \<lparr>fs_op = base_ops, user_data = 1, fs_sys = demo_sys\<rparr>"

definition base_env :: "string list env" where
  "base_env = \<lparr>e_ctx = \<lparr>ctx_uid = 0, ctx_gid = 0, ctx_pid = 0, ctx_umask = 0, private_data = 0\<rparr>, e_world = [],
     e_mem = (\<lambda>_. 0), e_brk = 0, e_allocs = []\<rparr>"

definition subdir_args :: fuse_args where
  "subdir_args = \<lparr>a_argv = Some [''fs'', ''-orellinks,subdir=/b''], a_allocated = True\<rparr>"

definition subdir_memory :: "nat \<Rightarrow> string list subdir" where
  "subdir_memory = (\<lambda>_. \<lparr>sd_base = ''/b/'', sd_baselen = 3, sd_rellinks = True, sd_next = base_fs\<rparr>)"

lemma subdir_args_parsed:
  "map_option (\<lambda>(res, data, args). (res, data 0, data 16))
     (fuse_opt_parse (\<lambda>_ _. None) [] subdir_args (\<lambda>_. VInt 0) subdir_opts (Some subdir_opt_proc)) =
   Some (0, VStr ''/b'', VInt 1)"
  by code_simp

lemma subdir_made:
  "\<exists>D fs args'. subdir_new (\<lambda>_ _. None) demo_sys [] [] subdir_args [base_fs] 5 subdir_memory = Some (Some (D, fs), args')"
  using subdir_args_parsed by (auto simp: subdir_new_def fuse_fs_new_def slash_def Let_def)


text \<open>
  C31: The option \<open>rellinks\<close>: \<open>readlink\<close> gives the link of the next file system or a link that leads to
  the same place from the directory of the link, and still fits the buffer. Without the option
  the link is unchanged; with it, a link to a place below an absolute base becomes relative,
  unless it leads below itself or the buffer is too small.
\<close>

theorem rellinks_same_target:
  assumes "fs_op fs = subdir_oper D" "D (user_data fs) = d" "sd_ok d"
    and "alloc_pop (e_allocs e) = (True, t)" "q = rebased (sd_base d) path" "plain_names (names q)"
    and "fuse_fs_readlink (sd_next d) (Some q) sz (e\<lparr>e_allocs := t\<rparr>) = ((err, link), e')"
  shows "\<exists>link'. fuse_fs_readlink fs (Some path) sz e = ((err, link'), e') \<and>
     link_target (butlast (names q)) link' = link_target (butlast (names q)) link \<and>
     (length link < sz \<longrightarrow> length link' < sz) \<and>
     (err \<noteq> 0 \<or> \<not> sd_rellinks d \<longrightarrow> link' = link) \<and>
     (err = 0 \<and> sd_rellinks d \<and> take 1 (sd_base d) = [slash] \<and> (\<exists>l. link = sd_base d @ l) \<and>
        \<not> (\<exists>ns. names link = names q @ ns) \<and> 3 * length (names q) + length link + 2 \<le> sz \<longrightarrow> take 1 link' \<noteq> [slash])"
proof -
  let ?link = "if err = 0 \<and> sd_rellinks d then transform_symlink d q link sz else link"
  have g: "subdir_get D (enter_fs fs e) = d" using assms(2) by (simp add: subdir_get_def enter_fs_def)
  have a: "subdir_addpath d (Some path) (enter_fs fs e) = (0, Some q, enter_fs fs (e\<lparr>e_allocs := t\<rparr>))"
    using addpath_rebased(1) [of "enter_fs fs e" t d path] assms(4,5) by (simp add: enter_allocs)
  have i: "fuse_fs_readlink (sd_next d) (Some q) sz (enter_fs fs (e\<lparr>e_allocs := t\<rparr>)) = ((err, link), e')"
    using assms(7) by (simp add: fuse_fs_readlink_def)
  have r: "fuse_fs_readlink fs (Some path) sz e = ((err, ?link), e')"
    by (simp add: fuse_fs_readlink_def [of fs] call_op_Some assms(1) subdir_oper_def subdir_readlink_def with_newpath_def g a Let_def i)
  have rel: "take 1 (transform_symlink d q link sz) \<noteq> [slash]"
    if c: "take 1 (sd_base d) = [slash]" "link = sd_base d @ l" "\<not> (\<exists>ns. names link = names q @ ns)"
      "3 * length (names q) + length link + 2 \<le> sz" for l
  proof -
    have ne: "sd_base d \<noteq> []" using c(1) by auto
    then have b: "sd_base d = butlast (sd_base d) @ [slash]" using assms(3) by (metis sd_ok_def append_butlast_last_id)
    have "q = sd_base d @ (if take 1 path = [slash] then tl path else path)" using ne assms(5) by (simp add: rebased_def)
    then show ?thesis using transform_symlink_relative [OF b _ c(1,2) _ c(3,4)] assms(3) by (simp add: sd_ok_def)
  qed
  show ?thesis
    by (intro exI [of _ ?link] conjI r) (use rel in \<open>auto simp: transform_symlink_target [OF assms(6)] transform_symlink_fits\<close>)
qed

theorem rellinks_same_target_witness:
  "\<exists>link'. fuse_fs_readlink \<lparr>fs_op = subdir_oper subdir_memory, user_data = 5, fs_sys = demo_sys\<rparr> (Some ''/d/l'') 100 base_env =
       ((0, link'), enter_fs base_fs base_env) \<and>
     link_target [''b'', ''d''] link' = [''b'', ''c'', ''x''] \<and> take 1 link' \<noteq> [slash]"
proof -
  let ?fs = "\<lparr>fs_op = subdir_oper subdir_memory, user_data = 5, fs_sys = demo_sys\<rparr>"
  let ?d = "subdir_memory 5"
  have q: "''/b/d/l'' = rebased (sd_base ?d) ''/d/l''" by code_simp
  have n: "names ''/b/d/l'' = [''b'', ''d'', ''l'']" "names ''/b/c/x'' = [''b'', ''c'', ''x'']" by code_simp+
  have l: "link_target [''b'', ''d''] ''/b/c/x'' = [''b'', ''c'', ''x'']" by code_simp
  have i: "fuse_fs_readlink (sd_next ?d) (Some ''/b/d/l'') 100 (base_env\<lparr>e_allocs := []\<rparr>) = ((0, ''/b/c/x''), enter_fs base_fs base_env)"
    by (simp add: fuse_fs_readlink_def subdir_memory_def base_fs_def base_ops_def call_op_def base_env_def)
  have c: "sd_ok ?d" "plain_names (names ''/b/d/l'')" "sd_rellinks ?d" "take 1 (sd_base ?d) = [slash]"
    by (simp_all add: sd_ok_def plain_names_def n subdir_memory_def slash_def)
  have b: "\<exists>l. ''/b/c/x'' = sd_base ?d @ l" by (rule exI [of _ "''c/x''"]) (simp add: subdir_memory_def)
  show ?thesis
    using rellinks_same_target [of ?fs subdir_memory ?d base_env "[]", OF _ _ c(1) _ q c(2) i] b c(3,4)
    by (simp add: base_env_def n l) blast
qed

section \<open>Offsets\<close>

text \<open>\<open>subdir_lseek\<close> keeps the result in an \<open>int\<close>: an offset of 2 GiB comes back as a negative number.\<close>

lemma subdir_lseek_wraps:
  assumes "fs_op fs = subdir_oper D" "D (user_data fs) = d" "alloc_pop (e_allocs e) = (True, t)"
    and "fuse_fs_lseek (sd_next d) (Some (rebased (sd_base d) path)) off wh fi (e\<lparr>e_allocs := t\<rparr>) = (2 ^ 31, e')"
  shows "fuse_fs_lseek fs (Some path) off wh fi e = (- (2 ^ 31), e')"
proof -
  let ?inner = "\<lambda>q e. case fuse_fs_lseek (sd_next d) q off wh fi e of (res, e2) \<Rightarrow> (sint (word_of_int res :: u32), e2)"
  have "rebases fs (sd_base d) (\<lambda>q. fuse_fs_lseek fs q off wh fi) ?inner Pair"
    by (rule rebases_call [where D = D and d = d], simp add: assms(1) call_op_Some subdir_oper_def subdir_lseek_def fuse_fs_lseek_def,
        rule assms(2), simp add: fuse_fs_lseek_def)
  then show ?thesis using assms(3,4) by (simp add: rebases_def)
qed

end
