(* ===== verification/Js_Value.thy ===== *)
theory Js_Value
  imports Complex_Main Fuse_Lib
begin

text \<open>
  JavaScript values as the addon sees them through N-API. A number is a rational (every finite
  double is one) or NaN (\<open>None\<close>; the infinities are left out, the addon converts them like
  NaN); a BigInt is an integer; strings are the bytes of their UTF-8
  form. Objects are lists of properties without getters, functions are opaque. A typed array is
  a view of bytes; Node's buffers are typed arrays, and \<open>IsBuffer\<close> accepts every view. A promise has a
  number. The addon is built without C++ exceptions: a call of a function that throws yields an
  empty value, for which every type test fails as for \<open>undefined\<close>.
\<close>

section \<open>Values\<close>

datatype jsval =
    JUndefined
  | JNull
  | JBool bool
  | JNum "rat option"
  | JBigInt int
  | JString string
  | JArrayBuffer "byte list"
  | JTyped "byte list"
  | JArray "jsval list"
  | JObject "(string \<times> jsval) list"
  | JFunction
  | JPromise nat

fun IsObject :: "jsval \<Rightarrow> bool" where
  "IsObject JUndefined = False"
| "IsObject JNull = False"
| "IsObject (JBool _) = False"
| "IsObject (JNum _) = False"
| "IsObject (JBigInt _) = False"
| "IsObject (JString _) = False"
| "IsObject _ = True"

text \<open>
  Properties, the inherited ones included: of the names the addon asks for, only \<open>entries\<close> is
  inherited, by arrays and views, and it is a function there.
\<close>

fun property_of :: "jsval \<Rightarrow> string \<Rightarrow> jsval option" where
  "property_of (JObject fs) k = map_of fs k"
| "property_of (JArray _) k = (if k = ''entries'' then Some JFunction else None)"
| "property_of (JTyped _) k = (if k = ''entries'' then Some JFunction else None)"
| "property_of _ k = None"

definition Has :: "jsval \<Rightarrow> string \<Rightarrow> bool" where
  "Has v k \<longleftrightarrow> property_of v k \<noteq> None"

definition Get :: "jsval \<Rightarrow> string \<Rightarrow> jsval" where
  "Get v k = (case property_of v k of None \<Rightarrow> JUndefined | Some w \<Rightarrow> w)"

section \<open>Numbers\<close>

definition trunc :: "rat \<Rightarrow> int" where
  "trunc r = (if 0 \<le> r then \<lfloor>r\<rfloor> else \<lceil>r\<rceil>)"

text \<open>
  The conversions of N-API: 32-bit ones take the low bits, the 64-bit one is clamped; numbers
  that are not finite give 0.
\<close>

definition Int32Value :: "rat option \<Rightarrow> int" where
  "Int32Value n = (case n of None \<Rightarrow> 0 | Some r \<Rightarrow> sint (word_of_int (trunc r) :: u32))"

definition Uint32Value :: "rat option \<Rightarrow> u32" where
  "Uint32Value n = (case n of None \<Rightarrow> 0 | Some r \<Rightarrow> word_of_int (trunc r))"

definition Int64Value :: "rat option \<Rightarrow> int" where
  "Int64Value n = (case n of None \<Rightarrow> 0 | Some r \<Rightarrow> max (- (2 ^ 63)) (min (2 ^ 63 - 1) (trunc r)))"

text \<open>\<open>Uint64Value(&lossless)\<close> and \<open>Int64Value(&lossless)\<close> of a BigInt.\<close>

definition big_u64 :: "int \<Rightarrow> u64 option" where
  "big_u64 i = (if 0 \<le> i \<and> i < 2 ^ 64 then Some (word_of_int i) else None)"

definition big_i64 :: "int \<Rightarrow> int option" where
  "big_i64 i = (if - (2 ^ 63) \<le> i \<and> i < 2 ^ 63 then Some i else None)"

definition js_num :: "int \<Rightarrow> jsval" where
  "js_num i = JNum (Some (of_int i))"

lemma trunc_of_int [simp]: "trunc (of_int i) = i"
  by (simp add: trunc_def)

lemma Int32Value_num: "- (2 ^ 31) \<le> i \<Longrightarrow> i < 2 ^ 31 \<Longrightarrow> Int32Value (Some (of_int i)) = i"
  by (simp add: Int32Value_def sint_sbintrunc' signed_take_bit_int_eq_self_iff)

lemma Uint32Value_num [simp]: "Uint32Value (Some (of_int i)) = word_of_int i"
  by (simp add: Uint32Value_def)

lemma big_u64_uint [simp]: "big_u64 (uint (w :: u64)) = Some w"
  using uint_lt2p [of w] by (simp add: big_u64_def)

lemma big_i64_sint [simp]: "big_i64 (sint (w :: u64)) = Some (sint w)"
  using sint_ge [of w] sint_lt [of w] by (simp add: big_i64_def)

end
