(* ===== verification/Napi_Helpers.thy ===== *)
theory Napi_Helpers
  imports Js_Value
begin

text \<open>
  Conversions between C structures and JavaScript values (\<open>src/src/napi_helpers.cc\<close>) and the
  names of errno values (\<open>src/src/errno_mapping.cc\<close>).

  Functions that may throw return whether an exception is pending; while one is, every test
  for a property fails (N-API refuses the call). Numbers made from 64-bit integers are exact up
  to \<open>2 ^ 53\<close>. The fields of \<open>struct statvfs\<close> are those libfuse sends to the kernel.
\<close>

section \<open>Errno values\<close>

definition errno_to_string_map :: "(int \<times> string) list" where
  "errno_to_string_map =
     [(1, ''EPERM''), (2, ''ENOENT''), (3, ''ESRCH''), (4, ''EINTR''), (5, ''EIO''), (6, ''ENXIO''), (7, ''E2BIG''),
      (8, ''ENOEXEC''), (9, ''EBADF''), (10, ''ECHILD''), (11, ''EAGAIN''), (12, ''ENOMEM''), (13, ''EACCES''),
      (14, ''EFAULT''), (15, ''ENOTBLK''), (16, ''EBUSY''), (17, ''EEXIST''), (18, ''EXDEV''), (19, ''ENODEV''),
      (20, ''ENOTDIR''), (21, ''EISDIR''), (22, ''EINVAL''), (23, ''ENFILE''), (24, ''EMFILE''), (25, ''ENOTTY''),
      (26, ''ETXTBSY''), (27, ''EFBIG''), (28, ''ENOSPC''), (29, ''ESPIPE''), (30, ''EROFS''), (31, ''EMLINK''),
      (32, ''EPIPE''), (33, ''EDOM''), (34, ''ERANGE''), (35, ''EDEADLK''), (36, ''ENAMETOOLONG''), (37, ''ENOLCK''),
      (38, ''ENOSYS''), (39, ''ENOTEMPTY''), (40, ''ELOOP''), (42, ''ENOMSG''), (43, ''EIDRM''), (95, ''ENOTSUP''),
      (110, ''ETIMEDOUT'')]"

definition errno_to_string :: "int \<Rightarrow> string" where
  "errno_to_string err = (case map_of errno_to_string_map err of Some s \<Rightarrow> s | None \<Rightarrow> ''UNKNOWN'')"

definition is_valid_errno :: "int \<Rightarrow> bool" where
  "is_valid_errno err \<longleftrightarrow> map_of errno_to_string_map err \<noteq> None"

definition string_to_errno :: "string \<Rightarrow> int" where
  "string_to_errno s = (case find (\<lambda>p. snd p = s) errno_to_string_map of Some p \<Rightarrow> fst p | None \<Rightarrow> 0)"

definition normalize_fuse_errno :: "int \<Rightarrow> int" where
  "normalize_fuse_errno err = (if err = 0 then 0 else if err > 0 then - err else err)"

section \<open>Integers\<close>

text \<open>The first component is the value, the second whether an exception is pending.\<close>

definition GetBigUint64 :: "jsval \<Rightarrow> u64 \<times> bool" where
  "GetBigUint64 v =
     (case v of JBigInt i \<Rightarrow> (case big_u64 i of Some w \<Rightarrow> (w, False) | None \<Rightarrow> (0, True)) | _ \<Rightarrow> (0, True))"

definition SafeGetBigInt64 :: "jsval \<Rightarrow> int option" where
  "SafeGetBigInt64 v = (case v of JBigInt i \<Rightarrow> big_i64 i | _ \<Rightarrow> None)"

definition SafeGetBigIntU64 :: "jsval \<Rightarrow> u64 option" where
  "SafeGetBigIntU64 v = (case v of JBigInt i \<Rightarrow> big_u64 i | _ \<Rightarrow> None)"

definition CreateBigUint64 :: "u64 \<Rightarrow> jsval" where
  "CreateBigUint64 w = JBigInt (uint w)"

definition CreateBigInt64 :: "int \<Rightarrow> jsval" where
  "CreateBigInt64 i = JBigInt i"

section \<open>Times\<close>

definition TimespecToNsBigInt :: "timespec \<Rightarrow> jsval" where
  "TimespecToNsBigInt ts = CreateBigUint64 (word_of_int (fst ts) * 1000000000 + word_of_int (snd ts))"

definition NsBigIntToTimespec :: "jsval \<Rightarrow> timespec option" where
  "NsBigIntToTimespec v =
     map_option (\<lambda>ns. (uint ns div 1000000000, uint ns mod 1000000000)) (SafeGetBigIntU64 v)"

section \<open>Attributes\<close>

definition StatToObject :: "stat \<Rightarrow> jsval" where
  "StatToObject st = JObject
     [(''ino'', CreateBigUint64 (st_ino st)), (''mode'', js_num (uint (st_mode st))), (''nlink'', js_num (uint (st_nlink st))),
      (''uid'', js_num (uint (st_uid st))), (''gid'', js_num (uint (st_gid st))), (''rdev'', CreateBigUint64 (st_rdev st)),
      (''size'', CreateBigUint64 (word_of_int (st_size st))), (''blksize'', js_num (uint (st_blksize st))),
      (''blocks'', CreateBigUint64 (st_blocks st)),
      (''atime'', TimespecToNsBigInt (fst (st_atim st), 0)), (''mtime'', TimespecToNsBigInt (fst (st_mtim st), 0)),
      (''ctime'', TimespecToNsBigInt (fst (st_ctim st), 0))]"

text \<open>The value of a property that is a number, and of a BigInt or a number.\<close>

definition number_or :: "'a \<Rightarrow> (rat option \<Rightarrow> 'a) \<Rightarrow> jsval \<Rightarrow> 'a" where
  "number_or dflt f v = (case v of JNum n \<Rightarrow> f n | _ \<Rightarrow> dflt)"

definition int64_or_zero :: "jsval \<Rightarrow> int" where
  "int64_or_zero v = (case SafeGetBigInt64 v of Some i \<Rightarrow> i | None \<Rightarrow> number_or 0 Int64Value v)"

definition AssignTimespecField :: "jsval \<Rightarrow> timespec" where
  "AssignTimespecField v = (case NsBigIntToTimespec v of Some ts \<Rightarrow> ts | None \<Rightarrow> (0, 0))"

definition ObjectToStat :: "jsval \<Rightarrow> stat option" where
  "ObjectToStat obj =
     (if \<not> IsObject obj then None
      else Some \<lparr>st_ino = (case SafeGetBigIntU64 (Get obj ''ino'') of Some w \<Rightarrow> w | None \<Rightarrow> 0),
        st_mode = number_or 0 Uint32Value (Get obj ''mode''),
        st_nlink = ucast (number_or 0 Uint32Value (Get obj ''nlink'')),
        st_uid = number_or 0 Uint32Value (Get obj ''uid''),
        st_gid = number_or 0 Uint32Value (Get obj ''gid''),
        st_rdev = (case SafeGetBigIntU64 (Get obj ''rdev'') of Some w \<Rightarrow> w | None \<Rightarrow> 0),
        st_size = int64_or_zero (Get obj ''size''),
        st_blksize = word_of_int (number_or 0 Int32Value (Get obj ''blksize'')),
        st_blocks = word_of_int (int64_or_zero (Get obj ''blocks'')),
        st_atim = AssignTimespecField (Get obj ''atime''),
        st_mtim = AssignTimespecField (Get obj ''mtime''),
        st_ctim = AssignTimespecField (Get obj ''ctime'')\<rparr>)"

section \<open>File system statistics\<close>

text \<open>The properties are read in order; the first one with a wrong type leaves an exception pending.\<close>

definition statvfs_num :: "string \<Rightarrow> (u64 \<Rightarrow> statvfs \<Rightarrow> statvfs) \<Rightarrow> jsval \<Rightarrow> statvfs \<times> bool \<Rightarrow> statvfs \<times> bool" where
  "statvfs_num k upd obj s =
     (case s of (st, pending) \<Rightarrow>
        if pending \<or> \<not> Has obj k then (st, pending)
        else case Get obj k of JNum n \<Rightarrow> (upd (ucast (Uint32Value n)) st, False) | _ \<Rightarrow> (upd 0 st, True))"

definition statvfs_big :: "string \<Rightarrow> (u64 \<Rightarrow> statvfs \<Rightarrow> statvfs) \<Rightarrow> jsval \<Rightarrow> statvfs \<times> bool \<Rightarrow> statvfs \<times> bool" where
  "statvfs_big k upd obj s =
     (case s of (st, pending) \<Rightarrow>
        if pending \<or> \<not> Has obj k then (st, pending)
        else case GetBigUint64 (Get obj k) of (w, thrown) \<Rightarrow> (upd w st, thrown))"

definition ObjectToStatvfs :: "jsval \<Rightarrow> statvfs" where
  "ObjectToStatvfs obj = fst (fold (\<lambda>f. f obj)
     [statvfs_num ''bsize'' (\<lambda>w st. st\<lparr>f_bsize := w\<rparr>), statvfs_num ''frsize'' (\<lambda>w st. st\<lparr>f_frsize := w\<rparr>),
      statvfs_big ''blocks'' (\<lambda>w st. st\<lparr>f_blocks := w\<rparr>), statvfs_big ''bfree'' (\<lambda>w st. st\<lparr>f_bfree := w\<rparr>),
      statvfs_big ''bavail'' (\<lambda>w st. st\<lparr>f_bavail := w\<rparr>), statvfs_big ''files'' (\<lambda>w st. st\<lparr>f_files := w\<rparr>),
      statvfs_big ''ffree'' (\<lambda>w st. st\<lparr>f_ffree := w\<rparr>), statvfs_big ''favail'' (\<lambda>w st. st), statvfs_big ''fsid'' (\<lambda>w st. st),
      statvfs_num ''flag'' (\<lambda>w st. st), statvfs_num ''namemax'' (\<lambda>w st. st\<lparr>f_namemax := w\<rparr>)]
     (zero_statvfs, False))"

section \<open>File information\<close>

definition FileInfoToObject :: "fuse_file_info \<Rightarrow> jsval" where
  "FileInfoToObject fi = JObject
     [(''flags'', js_num (sint (fi_flags fi))), (''writepage'', JBool (fi_writepage fi)), (''direct_io'', JBool (fi_direct_io fi)),
      (''keep_cache'', JBool (fi_keep_cache fi)), (''flush'', JBool (fi_flush fi)), (''nonseekable'', JBool (fi_nonseekable fi)),
      (''flock_release'', JBool (fi_flock_release fi)), (''cache_readdir'', JBool (fi_cache_readdir fi)),
      (''fh'', CreateBigUint64 (fi_fh fi)), (''lock_owner'', CreateBigUint64 (fi_lock_owner fi)),
      (''poll_events'', js_num (uint (fi_poll_events fi)))]"

definition bool_or_false :: "jsval \<Rightarrow> bool" where
  "bool_or_false v = (case v of JBool b \<Rightarrow> b | _ \<Rightarrow> False)"

text \<open>A number of \<open>2 ^ 64\<close> or more has no defined conversion in C++; here it is refused like a fraction.\<close>

definition read_u64_bigint_or_number :: "jsval \<Rightarrow> u64 option" where
  "read_u64_bigint_or_number v =
     (case v of
        JBigInt i \<Rightarrow> big_u64 i
      | JNum (Some d) \<Rightarrow> (if d < 0 \<or> of_int \<lfloor>d\<rfloor> \<noteq> d \<or> \<lfloor>d\<rfloor> \<ge> 2 ^ 64 then None else Some (word_of_int \<lfloor>d\<rfloor>))
      | _ \<Rightarrow> None)"

definition ObjectToFileInfo :: "jsval \<Rightarrow> fuse_file_info option" where
  "ObjectToFileInfo obj =
     (if \<not> IsObject obj then None
      else Some (zero_fi\<lparr>fi_flags := word_of_int (number_or 0 Int32Value (Get obj ''flags'')),
        fi_writepage := bool_or_false (Get obj ''writepage''), fi_direct_io := bool_or_false (Get obj ''direct_io''),
        fi_keep_cache := bool_or_false (Get obj ''keep_cache''), fi_flush := bool_or_false (Get obj ''flush''),
        fi_nonseekable := bool_or_false (Get obj ''nonseekable''), fi_flock_release := bool_or_false (Get obj ''flock_release''),
        fi_cache_readdir := bool_or_false (Get obj ''cache_readdir''),
        fi_fh := (case read_u64_bigint_or_number (Get obj ''fh'') of Some w \<Rightarrow> w | None \<Rightarrow> 0),
        fi_lock_owner := (case read_u64_bigint_or_number (Get obj ''lock_owner'') of Some w \<Rightarrow> w | None \<Rightarrow> 0),
        fi_poll_events := number_or 0 Uint32Value (Get obj ''poll_events'')\<rparr>))"

end
