(* ===== verification/Bridge_Context.thy ===== *)
theory Bridge_Context
  imports Napi_Helpers
begin

text \<open>
  The core of the addon's bridge (\<open>src/src/fuse_bridge.cc\<close>): the context of a request with the
  guard that lets one reply through, the registry of handlers, the way from a request to the
  JavaScript thread and back, and the registry of poll handles.

  Contexts are shared objects (\<open>std::shared_ptr\<close>), so they live in a heap \<open>br_ctxs\<close>. The function that
  is dispatched to the JavaScript thread is a value of type \<open>invoker\<close>, one per lambda of the source;
  what it does is in \<open>Fuse_Bridge\<close>. The dispatcher (\<open>Tsfn_Dispatcher\<close>) gives every request it accepts
  a number and later either runs it or reports an error for it, once: \<open>br_jobs\<close> are the accepted
  requests without an outcome. \<open>br_waiting\<close> are the reactions on promises that handlers returned,
  \<open>br_calls\<close> the calls of handlers with their arguments. Replies go to libfuse with the request they
  answer (\<open>br_sent\<close>). Keeping buffers alive until the reply and logging are left out.
\<close>

section \<open>Operations\<close>

datatype (plugins only: code size) FuseOpType =
    INIT | DESTROY | FORGET | FORGET_MULTI | LOOKUP | GETATTR | SETATTR | READLINK | MKNOD | MKDIR | UNLINK
  | RMDIR | SYMLINK | RENAME | LINK | SETXATTR | GETXATTR | LISTXATTR | REMOVEXATTR | OPEN | READ | WRITE
  | WRITE_BUF | READ_BUF | FLUSH | RELEASE | FSYNC | FALLOCATE | LSEEK | COPY_FILE_RANGE | OPENDIR | READDIR
  | READDIRPLUS | RELEASEDIR | FSYNCDIR | STATFS | ACCESS | CREATE | BMAP | IOCTL | POLL | FLOCK | GETLK | SETLK
  | RETRIEVE_REPLY | TRUNCATE | CHMOD | CHOWN | UNKNOWN

definition kOperationMappings :: "(string \<times> FuseOpType) list" where
  "kOperationMappings =
     [(''init'', INIT), (''destroy'', DESTROY), (''forget'', FORGET), (''forget_multi'', FORGET_MULTI), (''lookup'', LOOKUP),
      (''getattr'', GETATTR), (''setattr'', SETATTR), (''readlink'', READLINK), (''mknod'', MKNOD), (''mkdir'', MKDIR),
      (''unlink'', UNLINK), (''rmdir'', RMDIR), (''symlink'', SYMLINK), (''rename'', RENAME), (''link'', LINK),
      (''setxattr'', SETXATTR), (''getxattr'', GETXATTR), (''listxattr'', LISTXATTR), (''removexattr'', REMOVEXATTR),
      (''open'', OPEN), (''read'', READ), (''write'', WRITE), (''write_buf'', WRITE_BUF), (''read_buf'', READ_BUF),
      (''flush'', FLUSH), (''release'', RELEASE), (''fsync'', FSYNC), (''fallocate'', FALLOCATE), (''lseek'', LSEEK),
      (''copy_file_range'', COPY_FILE_RANGE), (''opendir'', OPENDIR), (''readdir'', READDIR),
      (''readdirplus'', READDIRPLUS), (''releasedir'', RELEASEDIR), (''fsyncdir'', FSYNCDIR), (''statfs'', STATFS),
      (''access'', ACCESS), (''create'', CREATE), (''bmap'', BMAP), (''ioctl'', IOCTL), (''poll'', POLL), (''flock'', FLOCK),
      (''getlk'', GETLK), (''setlk'', SETLK), (''retrieve_reply'', RETRIEVE_REPLY)]"

definition kOperationAliasMappings :: "(string \<times> FuseOpType) list" where
  "kOperationAliasMappings =
     [(''truncate'', TRUNCATE), (''chmod'', CHMOD), (''chown'', CHOWN), (''utimens'', SETATTR),
      (''copyFileRange'', COPY_FILE_RANGE)]"

text \<open>\<open>tolower\<close> in the C locale.\<close>

definition to_lower :: "char \<Rightarrow> char" where
  "to_lower c = (let n = of_char c :: nat in if 65 \<le> n \<and> n \<le> 90 then char_of (n + 32) else c)"

definition StringToFuseOpType :: "string \<Rightarrow> FuseOpType" where
  "StringToFuseOpType name =
     (let lowered = map to_lower name
      in case map_of kOperationMappings lowered of
           Some t \<Rightarrow> t
         | None \<Rightarrow> (case map_of kOperationAliasMappings lowered of Some t \<Rightarrow> t | None \<Rightarrow> UNKNOWN))"

definition FuseOpTypeToString :: "FuseOpType \<Rightarrow> string" where
  "FuseOpTypeToString t =
     (case find (\<lambda>p. snd p = t) (kOperationMappings @ kOperationAliasMappings) of
        Some p \<Rightarrow> fst p | None \<Rightarrow> ''unknown'')"

section \<open>State\<close>

record FuseRequestContext =
  rc_op :: FuseOpType
  rc_request :: "request option"
  rc_ino :: u64
  rc_parent :: u64
  rc_new_parent :: u64
  rc_name :: string
  rc_new_name :: string
  rc_link_target :: string
  rc_mode :: u32
  rc_rdev :: u64
  rc_valid :: u32
  rc_attr :: "stat option"
  rc_fi :: "fuse_file_info option"
  rc_fi_out :: "fuse_file_info option"
  rc_offset :: u64
  rc_new_offset :: u64
  rc_size :: nat
  rc_flags :: int
  rc_datasync :: bool
  rc_access_mask :: u32
  rc_data :: "byte list"
  rc_lock :: "flock option"
  rc_sleep :: bool
  rc_replied :: bool

definition new_context :: "FuseOpType \<Rightarrow> request option \<Rightarrow> FuseRequestContext" where
  "new_context op req =
     \<lparr>rc_op = op, rc_request = req, rc_ino = 0, rc_parent = 0, rc_new_parent = 0, rc_name = [], rc_new_name = [],
      rc_link_target = [], rc_mode = 0, rc_rdev = 0, rc_valid = 0, rc_attr = None, rc_fi = None, rc_fi_out = None,
      rc_offset = 0, rc_new_offset = 0, rc_size = 0, rc_flags = 0, rc_datasync = False, rc_access_mask = 0,
      rc_data = [], rc_lock = None, rc_sleep = False, rc_replied = False\<rparr>"

text \<open>One value for every function that is handed to the JavaScript thread, with what it captures.\<close>

datatype (plugins only: code size) invoker =
    IUnlink | IRmdir | IFlush | IRelease | IFsync | IReleasedir | IFsyncdir | IAccess | IRename | ILink | ILookup
  | IGetattr | ITruncate stat | ISetattr | IReadlink | IMknod | IMkdir | IChmod | IChown | ISymlink | IOpen
  | IOpendir | IReadBuf | IRead | IWriteOne | IWrite | IReaddir | IReaddirplus | IReaddirFallback nat | IStatfs
  | ICreate | ICopyFileRange | IGetlk | ISetlk | IBmap | IIoctl nat | IPoll "u64 option" u32 | IInit u32 u32
  | IDestroy | ISetxattr | IGetxattr | IListxattr | IRemovexattr
  | IWriteBuf nat nat "(u32 \<times> byte list) list" | IWriteLinear "byte list"

record bridge =
  br_this :: nat
  br_handlers :: "FuseOpType list"
  br_polls :: "(u64 \<times> nat) list"
  br_ctxs :: "nat \<rightharpoonup> FuseRequestContext"
  br_next :: nat
  br_jobs :: "(nat \<times> nat \<times> invoker) list"
  br_waiting :: "(nat \<times> nat \<times> invoker) list"
  br_calls :: "(FuseOpType \<times> jsval list) list"
  br_sent :: "(nat \<times> reply) list"
  br_notified :: "u64 list"
  br_destroyed :: "u64 list"

section \<open>Replies\<close>

definition CreateContext :: "FuseRequestContext \<Rightarrow> bridge \<Rightarrow> nat \<times> bridge" where
  "CreateContext ctx b = (br_next b, b\<lparr>br_ctxs := (br_ctxs b)(br_next b \<mapsto> ctx), br_next := br_next b + 1\<rparr>)"

definition TryMarkReplied :: "nat \<Rightarrow> bridge \<Rightarrow> bool \<times> bridge" where
  "TryMarkReplied c b =
     (case br_ctxs b c of
        None \<Rightarrow> (False, b)
      | Some ctx \<Rightarrow> (\<not> rc_replied ctx, b\<lparr>br_ctxs := (br_ctxs b)(c \<mapsto> ctx\<lparr>rc_replied := True\<rparr>)\<rparr>))"

text \<open>A call \<open>fuse_reply_*(context->request, ...)\<close>; there is no request for \<open>init\<close> and \<open>destroy\<close>.\<close>

definition fuse_reply :: "nat \<Rightarrow> reply \<Rightarrow> bridge \<Rightarrow> bridge" where
  "fuse_reply c r b =
     (case Option.bind (br_ctxs b c) rc_request of
        None \<Rightarrow> b
      | Some req \<Rightarrow> b\<lparr>br_sent := br_sent b @ [(r_id req, r)]\<rparr>)"

text \<open>\<open>ReplyError\<close>, \<open>ReplyOk\<close>, \<open>ReplyEntry\<close> and the others differ in the reply only.\<close>

definition ReplyGuarded :: "nat \<Rightarrow> reply \<Rightarrow> bridge \<Rightarrow> bridge" where
  "ReplyGuarded c r b = (case TryMarkReplied c b of (won, b1) \<Rightarrow> if won then fuse_reply c r b1 else b1)"

definition error_reply :: "int \<Rightarrow> reply" where
  "error_reply code = ReplyErr (if code < 0 then - code else code)"

definition ReplyError :: "nat \<Rightarrow> int \<Rightarrow> bridge \<Rightarrow> bridge" where
  "ReplyError c code = ReplyGuarded c (error_reply code)"

definition ReplyOk :: "nat \<Rightarrow> bridge \<Rightarrow> bridge" where
  "ReplyOk c = ReplyGuarded c (ReplyErr 0)"

section \<open>Handlers\<close>

definition HasOperationHandler :: "FuseOpType \<Rightarrow> bridge \<Rightarrow> bool" where
  "HasOperationHandler op b \<longleftrightarrow> op \<noteq> UNKNOWN \<and> op \<in> set (br_handlers b)"

text \<open>\<open>registered\<close>: the dispatcher exists or could be made, and took the handler.\<close>

definition RegisterOperationHandler :: "bool \<Rightarrow> FuseOpType \<Rightarrow> bridge \<Rightarrow> bool \<times> bridge" where
  "RegisterOperationHandler registered op b =
     (if op = UNKNOWN \<or> \<not> registered then (False, b) else (True, b\<lparr>br_handlers := List.insert op (br_handlers b)\<rparr>))"

definition RemoveOperationHandler :: "bool \<Rightarrow> FuseOpType \<Rightarrow> bridge \<Rightarrow> bool \<times> bridge" where
  "RemoveOperationHandler unregistered op b =
     (if op = UNKNOWN \<or> \<not> unregistered then (False, b) else (True, b\<lparr>br_handlers := removeAll op (br_handlers b)\<rparr>))"

text \<open>
  What \<open>ProcessRequest\<close> finds: whether there is a dispatcher, an environment to make one, whether
  making one works, and the number \<open>DispatchCustom\<close> returns (0 when it refuses).
\<close>

record dispatch_env =
  de_dispatcher :: bool
  de_env :: bool
  de_init :: bool
  de_id :: nat

definition ProcessRequest :: "dispatch_env \<Rightarrow> nat \<Rightarrow> invoker \<Rightarrow> bridge \<Rightarrow> bridge" where
  "ProcessRequest de c k b =
     (case br_ctxs b c of
        None \<Rightarrow> b
      | Some ctx \<Rightarrow>
          if \<not> HasOperationHandler (rc_op ctx) b then ReplyError c ENOSYS b
          else if \<not> de_dispatcher de \<and> rc_op ctx = DESTROY then ReplyOk c b
          else if \<not> de_dispatcher de \<and> \<not> de_env de then ReplyError c EINVAL b
          else if \<not> de_dispatcher de \<and> \<not> de_init de then ReplyError c EIO b
          else if de_id de = 0 then ReplyError c EAGAIN b
          else b\<lparr>br_jobs := br_jobs b @ [(de_id de, c, k)]\<rparr>)"

text \<open>The error callback given to the dispatcher.\<close>

definition dispatch_error :: "nat \<Rightarrow> int \<Rightarrow> bridge \<Rightarrow> bridge" where
  "dispatch_error c code b =
     (if map_option rc_replied (br_ctxs b c) = Some False then ReplyError c (if code = 0 then EIO else code) b else b)"

section \<open>Poll handles\<close>

text \<open>A handle is its address; the registry maps it to the bridge that owns it.\<close>

definition polls_erase :: "u64 \<Rightarrow> (u64 \<times> nat) list \<Rightarrow> (u64 \<times> nat) list" where
  "polls_erase k ps = filter (\<lambda>p. fst p \<noteq> k) ps"

definition RegisterPollHandle :: "u64 \<Rightarrow> bridge \<Rightarrow> bridge" where
  "RegisterPollHandle h b = b\<lparr>br_polls := (h, br_this b) # polls_erase h (br_polls b)\<rparr>"

definition fuse_pollhandle_destroy :: "u64 \<Rightarrow> bridge \<Rightarrow> bridge" where
  "fuse_pollhandle_destroy h b = b\<lparr>br_destroyed := br_destroyed b @ [h]\<rparr>"

definition ReleasePollHandle :: "u64 \<Rightarrow> bool \<Rightarrow> bridge \<Rightarrow> bridge" where
  "ReleasePollHandle h destroy b =
     (let b1 = b\<lparr>br_polls := polls_erase h (br_polls b)\<rparr> in if destroy then fuse_pollhandle_destroy h b1 else b1)"

definition CleanupPollHandles :: "bridge \<Rightarrow> bridge" where
  "CleanupPollHandles b =
     b\<lparr>br_polls := filter (\<lambda>p. snd p \<noteq> br_this b) (br_polls b),
       br_destroyed := br_destroyed b @ map fst (filter (\<lambda>p. snd p = br_this b) (br_polls b))\<rparr>"

text \<open>\<open>ok\<close>: \<open>fuse_lowlevel_notify_poll\<close> returned 0.\<close>

definition NotifyPollHandle :: "bool \<Rightarrow> u64 \<Rightarrow> bool \<Rightarrow> bridge \<Rightarrow> bool \<times> bridge" where
  "NotifyPollHandle ok h destroy_after b =
     (if map_of (br_polls b) h = None then (False, b)
      else let b1 = (if destroy_after then b\<lparr>br_polls := polls_erase h (br_polls b)\<rparr> else b);
               b2 = b1\<lparr>br_notified := br_notified b1 @ [h]\<rparr>
           in (ok, if destroy_after then fuse_pollhandle_destroy h b2 else b2))"

definition DestroyPollHandle :: "u64 \<Rightarrow> bridge \<Rightarrow> bool \<times> bridge" where
  "DestroyPollHandle h b =
     (if map_of (br_polls b) h = None then (False, b)
      else (True, fuse_pollhandle_destroy h (b\<lparr>br_polls := polls_erase h (br_polls b)\<rparr>)))"

end
