(* ===== verification/Bridge_Results.thy ===== *)
theory Bridge_Results
  imports Bridge_Context Fuse_Handlers Dirent
begin

text \<open>
  What the bridge makes of the values that JavaScript handlers return (\<open>src/src/fuse_bridge.cc\<close>):
  the conversions of its first part, and one function per kind of result that turns the value
  into the reply. A timeout is in nanoseconds. A conversion that throws leaves an exception
  pending; from then on every property is absent.
\<close>

unbundle bit_operations_syntax

definition ENODEV :: int where "ENODEV = 19"

definition RANGE_ERROR :: int where "RANGE_ERROR = 34"

definition FUSE_SET_ATTR_CTIME :: u32 where "FUSE_SET_ATTR_CTIME = 1024"

section \<open>Errors\<close>

fun ExtractErrnoFromValue :: "jsval \<Rightarrow> int" where
  "ExtractErrnoFromValue (JNum n) = \<bar>Int32Value n\<bar>"
| "ExtractErrnoFromValue (JBigInt i) =
     (case big_i64 i of None \<Rightarrow> EIO | Some err \<Rightarrow> sint (word_of_int \<bar>err\<bar> :: u32))"
| "ExtractErrnoFromValue (JObject fs) =
     (case map_of (map (\<lambda>p. (fst p, ExtractErrnoFromValue (snd p))) fs) ''errno'' of
        Some err \<Rightarrow> err
      | None \<Rightarrow>
          (case map_of fs ''code'' of
             Some (JString code) \<Rightarrow> (let mapped = string_to_errno code in if mapped \<noteq> 0 then mapped else EIO)
           | _ \<Rightarrow> EIO))"
| "ExtractErrnoFromValue v = EIO"

definition error_value_reply :: "jsval \<Rightarrow> reply" where
  "error_value_reply v = (let err = ExtractErrnoFromValue v in error_reply (if err = 0 then EIO else err))"

section \<open>Numbers and timeouts\<close>

definition TryGetSizeT :: "jsval \<Rightarrow> nat option" where
  "TryGetSizeT v =
     (case v of
        JNum (Some r) \<Rightarrow> (if r < 0 \<or> of_int \<lfloor>r\<rfloor> \<noteq> r \<or> \<lfloor>r\<rfloor> \<ge> 2 ^ 64 then None else Some (nat \<lfloor>r\<rfloor>))
      | _ \<Rightarrow> None)"

definition extract_timeout :: "jsval \<Rightarrow> int option" where
  "extract_timeout v =
     (case v of JNum (Some r) \<Rightarrow> (if r < 0 then None else Some \<lfloor>r * 1000000000\<rfloor>) | _ \<Rightarrow> None)"

definition u64_or_int64 :: "jsval \<Rightarrow> u64 option" where
  "u64_or_int64 v =
     (case v of JBigInt i \<Rightarrow> big_u64 i | JNum n \<Rightarrow> Some (word_of_int (Int64Value n)) | _ \<Rightarrow> None)"

section \<open>Entries\<close>

definition PopulateEntryFromResult :: "jsval \<Rightarrow> fuse_entry_param option" where
  "PopulateEntryFromResult v =
     (if \<not> IsObject v \<or> \<not> Has v ''attr'' \<or> \<not> Has v ''ino'' \<or> \<not> Has v ''generation'' \<or>
         \<not> Has v ''entry_timeout'' \<or> \<not> Has v ''attr_timeout'' then None
      else do {
        attr \<leftarrow> ObjectToStat (Get v ''attr'');
        attr_timeout \<leftarrow> extract_timeout (Get v ''attr_timeout'');
        entry_timeout \<leftarrow> extract_timeout (Get v ''entry_timeout'');
        generation \<leftarrow> u64_or_int64 (Get v ''generation'');
        ino \<leftarrow> u64_or_int64 (Get v ''ino'');
        Some \<lparr>e_ino = ino, e_generation = generation, e_attr = attr, e_attr_timeout = attr_timeout,
          e_entry_timeout = entry_timeout\<rparr>
      })"

definition entry_result :: "int \<Rightarrow> jsval \<Rightarrow> reply" where
  "entry_result err v = (case PopulateEntryFromResult v of None \<Rightarrow> error_reply err | Some e \<Rightarrow> ReplyEntry e)"

definition attr_result :: "jsval \<Rightarrow> reply" where
  "attr_result v =
     (if \<not> IsObject v \<or> \<not> Has v ''attr'' then error_reply EIO
      else case ObjectToStat (Get v ''attr'') of
             None \<Rightarrow> error_reply EIO
           | Some attr \<Rightarrow>
               if \<not> Has v ''timeout'' then ReplyAttr attr 1000000000
               else (case extract_timeout (Get v ''timeout'') of
                       None \<Rightarrow> error_reply EIO | Some timeout \<Rightarrow> ReplyAttr attr timeout))"

text \<open>\<open>read_timeout\<close> of \<open>HandleCreate\<close>: a bad value keeps the timeout there is.\<close>

definition read_timeout :: "jsval \<Rightarrow> string \<Rightarrow> int \<Rightarrow> int" where
  "read_timeout v k t =
     (if Has v k then (case extract_timeout (Get v k) of Some t' \<Rightarrow> t' | None \<Rightarrow> t) else t)"

text \<open>After \<open>ino\<close> has thrown, \<open>generation\<close> is not found.\<close>

definition create_result :: "jsval \<Rightarrow> reply" where
  "create_result v =
     (if \<not> IsObject v \<or> \<not> Has v ''fi'' \<or> \<not> Has v ''attr'' then error_reply ENOSYS
      else case (ObjectToFileInfo (Get v ''fi''), ObjectToStat (Get v ''attr'')) of
             (Some fi, Some attr) \<Rightarrow>
               (let attr_timeout = read_timeout v ''timeout'' (read_timeout v ''attr_timeout'' (read_timeout v ''attrTimeout'' 1000000000));
                    entry_timeout = read_timeout v ''timeout'' (read_timeout v ''entry_timeout'' (read_timeout v ''entryTimeout'' 1000000000));
                    (ino, thrown) = (if Has v ''ino'' then GetBigUint64 (Get v ''ino'') else (0, False));
                    derived_ino = (if ino \<noteq> 0 then ino else st_ino attr);
                    generation = (if Has v ''generation'' \<and> \<not> thrown then fst (GetBigUint64 (Get v ''generation'')) else 0)
                in ReplyCreate \<lparr>e_ino = derived_ino, e_generation = generation, e_attr = attr\<lparr>st_ino := derived_ino\<rparr>,
                     e_attr_timeout = attr_timeout, e_entry_timeout = entry_timeout\<rparr> fi)
           | _ \<Rightarrow> error_reply EIO)"

section \<open>Other results\<close>

definition rename_result :: "jsval \<Rightarrow> reply" where
  "rename_result v = (if v = JUndefined \<or> v = JNull then ReplyErr 0 else error_reply EIO)"

text \<open>\<open>flush\<close> and \<open>release\<close>: a number is an error code, everything else is success.\<close>

definition code_result :: "jsval \<Rightarrow> reply" where
  "code_result v = (case v of JNum n \<Rightarrow> error_reply (Int32Value n) | _ \<Rightarrow> ReplyErr 0)"

definition readlink_result :: "jsval \<Rightarrow> reply" where
  "readlink_result v =
     (case v of
        JString s \<Rightarrow> ReplyReadlink (c_string s)
      | _ \<Rightarrow> (case Get v ''target'' of JString s \<Rightarrow> ReplyReadlink (c_string s) | _ \<Rightarrow> error_reply EIO))"

definition open_result :: "jsval \<Rightarrow> reply" where
  "open_result v = (case ObjectToFileInfo v of Some fi \<Rightarrow> ReplyOpen fi | None \<Rightarrow> error_reply ENOSYS)"

definition read_result :: "jsval \<Rightarrow> reply" where
  "read_result v =
     (case v of JArrayBuffer bs \<Rightarrow> ReplyBuf bs | JTyped bs \<Rightarrow> ReplyBuf bs | _ \<Rightarrow> error_reply ENOSYS)"

text \<open>\<open>write\<close> and \<open>copy_file_range\<close>.\<close>

definition count_result :: "jsval \<Rightarrow> reply" where
  "count_result v =
     (case v of
        JNum n \<Rightarrow> ReplyWrite (uint (Uint32Value n))
      | JBigInt i \<Rightarrow> (case big_u64 i of Some w \<Rightarrow> ReplyWrite (uint w) | None \<Rightarrow> error_reply ENOSYS)
      | _ \<Rightarrow> error_reply ENOSYS)"

definition write_one_result :: "jsval \<Rightarrow> reply" where
  "write_one_result v =
     (case v of
        JNum n \<Rightarrow> ReplyWrite (uint (Uint32Value n))
      | JBigInt i \<Rightarrow> (case big_u64 i of Some w \<Rightarrow> ReplyWrite (uint w) | None \<Rightarrow> error_reply ENOSYS)
      | _ \<Rightarrow> (case Get v ''bytes'' of JNum n \<Rightarrow> ReplyWrite (uint (Uint32Value n)) | _ \<Rightarrow> error_reply ENOSYS))"

text \<open>A negative count is an error code, cut to 32 bits.\<close>

definition written_reply :: "int \<Rightarrow> reply" where
  "written_reply n = (if n < 0 then error_reply (sint (word_of_int (- n) :: u32)) else ReplyWrite n)"

definition handle_write_result :: "jsval \<Rightarrow> reply" where
  "handle_write_result v =
     (case v of
        JNum n \<Rightarrow> written_reply (Int64Value n)
      | JBigInt i \<Rightarrow> (case big_u64 i of Some w \<Rightarrow> ReplyWrite (uint w) | None \<Rightarrow> error_reply EIO)
      | _ \<Rightarrow> (case Get v ''bytes'' of JNum n \<Rightarrow> written_reply (Int64Value n) | _ \<Rightarrow> error_reply EIO))"

definition statfs_result :: "jsval \<Rightarrow> reply" where
  "statfs_result v = (if IsObject v then ReplyStatfs (ObjectToStatvfs v) else error_reply EIO)"

definition zero_flock :: flock where
  "zero_flock = \<lparr>l_type = F_RDLCK, l_whence = 0, l_start = 0, l_len = 0, l_pid = 0\<rparr>"

definition getlk_result :: "jsval \<Rightarrow> reply" where
  "getlk_result v = (if IsObject (Get v ''lock'') then ReplyLock zero_flock else error_reply EIO)"

section \<open>Directories\<close>

definition next_offset :: "jsval \<Rightarrow> int option" where
  "next_offset v =
     (case (case v of JBigInt i \<Rightarrow> big_i64 i | JNum n \<Rightarrow> Some (Int64Value n) | _ \<Rightarrow> None) of
        Some off \<Rightarrow> (if off < 0 then None else Some off)
      | None \<Rightarrow> None)"

text \<open>
  One element of the array: name, attributes and offset. A name, inode or type of the wrong kind
  throws, and then \<open>nextOffset\<close> is not found.
\<close>

definition readdir_item :: "jsval \<Rightarrow> (string \<times> stat \<times> int) option" where
  "readdir_item entry =
     (case (Get entry ''name'', GetBigUint64 (Get entry ''ino''), property_of entry ''type'') of
        (JString name, (ino, False), typ) \<Rightarrow>
          (case (case typ of None \<Rightarrow> Some 0 | Some (JNum n) \<Rightarrow> Some (Uint32Value n) | Some _ \<Rightarrow> None) of
             Some t \<Rightarrow> map_option (\<lambda>off. (c_string name, zero_stat\<lparr>st_ino := ino, st_mode := push_bit 12 (t AND 15)\<rparr>, off))
                         (next_offset (Get entry ''nextOffset''))
           | None \<Rightarrow> None)
      | _ \<Rightarrow> None)"

text \<open>The loop over the entries with the room that is left; \<open>None\<close> is the reply \<open>EIO\<close>.\<close>

fun bridge_fill :: "nat \<Rightarrow> jsval list \<Rightarrow> byte list option" where
  "bridge_fill room [] = Some []"
| "bridge_fill room (item # items) =
     (if \<not> IsObject item then bridge_fill room items
      else case readdir_item item of
             None \<Rightarrow> None
           | Some (name, st, off) \<Rightarrow>
               (let (need, bytes) = fuse_add_direntry room name st off
                in if need > room then Some [] else map_option (\<lambda>rest. bytes @ rest) (bridge_fill (room - need) items)))"

definition buf_or_eio :: "byte list option \<Rightarrow> reply" where
  "buf_or_eio r = (case r of Some bs \<Rightarrow> ReplyBuf bs | None \<Rightarrow> error_reply EIO)"

definition readdir_result :: "nat \<Rightarrow> jsval \<Rightarrow> reply" where
  "readdir_result sz v =
     (case Get v ''entries'' of
        JArray entries \<Rightarrow> (if sz = 0 then ReplyBuf [] else buf_or_eio (bridge_fill sz entries))
      | _ \<Rightarrow> error_reply EIO)"

definition make_min_entry :: "u64 \<Rightarrow> int \<Rightarrow> fuse_entry_param" where
  "make_min_entry child_ino dtype =
     \<lparr>e_ino = child_ino, e_generation = 0,
      e_attr = zero_stat\<lparr>st_ino := child_ino,
        st_mode := (if dtype = 4 then 0x4000 OR 0x16D else if dtype = 10 then 0xA000 OR 0x1FF else 0x8000 OR 0x124)\<rparr>,
      e_attr_timeout = 1000000000, e_entry_timeout = 1000000000\<rparr>"

definition plus_entry :: "jsval \<Rightarrow> fuse_entry_param \<times> bool" where
  "plus_entry entry =
     (case PopulateEntryFromResult entry of
        Some e \<Rightarrow> (e, False)
      | None \<Rightarrow>
          (let (child_ino, thrown) = (if Has entry ''ino'' then GetBigUint64 (Get entry ''ino'') else (0, False));
               dtype = (if thrown then 0 else number_or 0 Int32Value (Get entry ''type''))
           in (make_min_entry child_ino dtype, thrown)))"

definition plus_offset :: "u64 \<Rightarrow> nat \<Rightarrow> jsval \<Rightarrow> int option" where
  "plus_offset offset i v =
     (case v of JBigInt _ \<Rightarrow> next_offset v | JNum _ \<Rightarrow> next_offset v | _ \<Rightarrow> Some (sint (offset + of_nat i + 1)))"

text \<open>After an inode has thrown, no further element is found.\<close>

fun plus_fill :: "u64 \<Rightarrow> nat \<Rightarrow> nat \<Rightarrow> jsval list \<Rightarrow> byte list option" where
  "plus_fill offset i room [] = Some []"
| "plus_fill offset i room (item # items) =
     (case Get item ''name'' of
        JString name \<Rightarrow>
          (case plus_offset offset i (Get item ''nextOffset'') of
             None \<Rightarrow> None
           | Some next \<Rightarrow>
               (let (e, thrown) = plus_entry item;
                    (need, bytes) = fuse_add_direntry_plus room (c_string name) e next
                in if need > room then Some []
                   else if thrown then Some bytes
                   else map_option (\<lambda>rest. bytes @ rest) (plus_fill offset (Suc i) (room - need) items)))
      | _ \<Rightarrow> plus_fill offset (Suc i) room items)"

definition write_entries :: "u64 \<Rightarrow> jsval list \<Rightarrow> nat \<Rightarrow> reply" where
  "write_entries offset entries max_size =
     (if max_size = 0 then ReplyBuf [] else buf_or_eio (plus_fill offset 0 max_size entries))"

section \<open>Buffer vectors\<close>

text \<open>
  The addresses in the vector are offsets into \<open>bh_mem\<close>, where the copies of the memory buffers
  lie one behind the other.
\<close>

record BufvecHolder =
  bh_bufvec :: fuse_bufvec
  bh_mem :: "byte list"

definition view_bytes :: "jsval \<Rightarrow> byte list option" where
  "view_bytes v = (case v of JArrayBuffer bs \<Rightarrow> Some bs | JTyped bs \<Rightarrow> Some bs | _ \<Rightarrow> None)"

definition buf_pos :: "jsval \<Rightarrow> int option" where
  "buf_pos entry =
     (case property_of entry ''pos'' of
        None \<Rightarrow> Some 0
      | Some (JBigInt i) \<Rightarrow> big_i64 i
      | Some (JNum n) \<Rightarrow> Some (Int64Value n)
      | Some _ \<Rightarrow> None)"

definition buf_flags_word :: "jsval \<Rightarrow> u32 option" where
  "buf_flags_word entry =
     (case property_of entry ''flags'' of
        None \<Rightarrow> Some 0 | Some (JNum n) \<Rightarrow> Some (Uint32Value n) | Some _ \<Rightarrow> None)"

definition convert_buf :: "nat \<Rightarrow> jsval \<Rightarrow> (fuse_buf \<times> byte list) option" where
  "convert_buf addr entry =
     do {
       sz \<leftarrow> TryGetSizeT (Get entry ''size'');
       flags \<leftarrow> buf_flags_word entry;
       (let native = \<lparr>b_size = sz, b_is_fd = (flags AND 2 \<noteq> 0), b_fd_seek = (flags AND 4 \<noteq> 0),
              b_fd_retry = (flags AND 8 \<noteq> 0), b_mem = 0, b_fd = -1, b_pos = 0\<rparr>
        in if flags AND 2 \<noteq> 0 then
             (case Get entry ''fd'' of
                JNum n \<Rightarrow> map_option (\<lambda>pos. (native\<lparr>b_fd := Int32Value n, b_pos := pos\<rparr>, [])) (buf_pos entry)
              | _ \<Rightarrow> None)
           else
             (case view_bytes (Get entry ''mem'') of
                None \<Rightarrow> None
              | Some src \<Rightarrow> if length src < sz then None else Some (native\<lparr>b_mem := addr\<rparr>, take sz src)))
     }"

fun convert_bufs :: "nat \<Rightarrow> jsval list \<Rightarrow> (fuse_buf list \<times> byte list) option" where
  "convert_bufs addr [] = Some ([], [])"
| "convert_bufs addr (e # es) =
     do {
       (b, bs) \<leftarrow> convert_buf addr e;
       (bufs, rest) \<leftarrow> convert_bufs (addr + length bs) es;
       Some (b # bufs, bs @ rest)
     }"

definition ConvertJsFuseBufvec :: "jsval \<Rightarrow> BufvecHolder option" where
  "ConvertJsFuseBufvec v =
     do {
       cnt \<leftarrow> TryGetSizeT (Get v ''count'');
       idx \<leftarrow> TryGetSizeT (Get v ''idx'');
       off \<leftarrow> TryGetSizeT (Get v ''off'');
       arr \<leftarrow> (case Get v ''buf'' of JArray vs \<Rightarrow> Some vs | _ \<Rightarrow> None);
       (if length arr < cnt then None
        else do {
          (bufs, mem) \<leftarrow> convert_bufs 0 (take cnt arr);
          (if cnt = 0 then Some \<lparr>bh_bufvec = \<lparr>bv_idx = 0, bv_off = 0, bv_bufs = []\<rparr>, bh_mem = []\<rparr>
           else if idx \<ge> cnt \<or> off > b_size (bufs ! idx) then None
           else Some \<lparr>bh_bufvec = \<lparr>bv_idx = idx, bv_off = off, bv_bufs = bufs\<rparr>, bh_mem = mem\<rparr>)
        })
     }"

section \<open>What a result does\<close>

text \<open>
  A reply through the guard of a context, one that goes to libfuse directly, \<open>fuse_reply_data\<close>
  (which is followed by the guard), and the release of a poll handle.
\<close>

datatype act =
    AReply nat reply
  | ADirect nat reply
  | AData nat fuse_bufvec
  | ARelease u64

definition read_buf_acts :: "nat \<Rightarrow> jsval \<Rightarrow> act list" where
  "read_buf_acts c v =
     (case ConvertJsFuseBufvec v of
        None \<Rightarrow> [AReply c (error_reply EINVAL)]
      | Some holder \<Rightarrow> [AData c (bh_bufvec holder)])"

definition bmap_acts :: "nat \<Rightarrow> jsval \<Rightarrow> act list" where
  "bmap_acts c v =
     (if Has v ''block'' then [ADirect c (ReplyBmap (fst (GetBigUint64 (Get v ''block''))))]
      else [AReply c (error_reply EIO)])"

definition ioctl_acts :: "nat \<Rightarrow> nat \<Rightarrow> jsval \<Rightarrow> act list" where
  "ioctl_acts c out_bufsz v =
     (case Get v ''result'' of
        JTyped buf \<Rightarrow> (if length buf > out_bufsz then [AReply c (error_reply RANGE_ERROR)] else [ADirect c (ReplyIoctl 0 buf)])
      | _ \<Rightarrow> [AReply c (error_reply EIO)])"

fun ToBoolean :: "jsval \<Rightarrow> bool" where
  "ToBoolean JUndefined = False"
| "ToBoolean JNull = False"
| "ToBoolean (JBool b) = b"
| "ToBoolean (JNum n) = (n \<noteq> None \<and> n \<noteq> Some 0)"
| "ToBoolean (JBigInt i) = (i \<noteq> 0)"
| "ToBoolean (JString s) = (s \<noteq> [])"
| "ToBoolean _ = True"

definition release_acts :: "u64 option \<Rightarrow> act list" where
  "release_acts ph = (case ph of None \<Rightarrow> [] | Some h \<Rightarrow> [ARelease h])"

definition poll_acts :: "nat \<Rightarrow> u64 option \<Rightarrow> jsval \<Rightarrow> act list" where
  "poll_acts c ph v =
     (case Get v ''revents'' of
        JNum n \<Rightarrow> ADirect c (ReplyPoll (Uint32Value n)) # (if ToBoolean (Get v ''keepPolling'') then [] else release_acts ph)
      | _ \<Rightarrow> AReply c (error_reply EIO) # release_acts ph)"

text \<open>A size of 0 asks for the length.\<close>

definition xattr_acts :: "nat \<Rightarrow> nat \<Rightarrow> byte list \<Rightarrow> act list" where
  "xattr_acts c sz bs =
     (if sz = 0 then [ADirect c (ReplyXattr (int (length bs)))]
      else if length bs > sz then [AReply c (error_reply RANGE_ERROR)]
      else [AReply c (ReplyBuf bs)])"

definition getxattr_acts :: "nat \<Rightarrow> nat \<Rightarrow> jsval \<Rightarrow> act list" where
  "getxattr_acts c sz v =
     (case v of
        JTyped bs \<Rightarrow> xattr_acts c sz bs
      | JNum n \<Rightarrow> [ADirect c (ReplyXattr (uint (Uint32Value n)))]
      | _ \<Rightarrow> [AReply c (error_reply EIO)])"

text \<open>The names with their terminators; after an element that is no string, only terminators.\<close>

fun xattr_names :: "jsval list \<Rightarrow> byte list" where
  "xattr_names [] = []"
| "xattr_names (v # vs) =
     (case v of JString s \<Rightarrow> of_chars s @ 0 # xattr_names vs | _ \<Rightarrow> replicate (Suc (length vs)) 0)"

definition listxattr_acts :: "nat \<Rightarrow> nat \<Rightarrow> jsval \<Rightarrow> act list" where
  "listxattr_acts c sz v =
     (case v of
        JArray vs \<Rightarrow> xattr_acts c sz (xattr_names vs)
      | JNum n \<Rightarrow> [ADirect c (ReplyXattr (uint (Uint32Value n)))]
      | _ \<Rightarrow> [AReply c (error_reply EIO)])"

text \<open>
  \<open>readdirplus\<close>, and its substitute through \<open>readdir\<close>, which answers through the context of the
  original request.
\<close>

definition readdirplus_acts :: "nat \<Rightarrow> FuseRequestContext \<Rightarrow> jsval \<Rightarrow> act list" where
  "readdirplus_acts c ctx v =
     (case Get v ''entries'' of
        JArray entries \<Rightarrow> [AReply c (write_entries (rc_offset ctx) entries (rc_size ctx))]
      | _ \<Rightarrow> [AReply c (error_reply EIO)])"

definition fallback_acts :: "nat \<Rightarrow> nat \<Rightarrow> FuseRequestContext \<Rightarrow> jsval \<Rightarrow> act list" where
  "fallback_acts c outer ctx v =
     (case v of
        JArray entries \<Rightarrow> [AReply outer (write_entries (rc_offset ctx) entries (rc_size ctx))]
      | _ \<Rightarrow> (case Get v ''entries'' of
                JArray entries \<Rightarrow> [AReply outer (write_entries (rc_offset ctx) entries (rc_size ctx))]
              | _ \<Rightarrow> [AReply c (error_reply EIO)]))"

text \<open>The function \<open>on_resolve\<close> of each handler.\<close>

fun on_resolve :: "nat \<Rightarrow> FuseRequestContext \<Rightarrow> invoker \<Rightarrow> jsval \<Rightarrow> act list" where
  "on_resolve c ctx IFlush v = [AReply c (code_result v)]"
| "on_resolve c ctx IRelease v = [AReply c (code_result v)]"
| "on_resolve c ctx IRename v = [AReply c (rename_result v)]"
| "on_resolve c ctx ILookup v = [AReply c (entry_result ENOENT v)]"
| "on_resolve c ctx ILink v = [AReply c (entry_result EIO v)]"
| "on_resolve c ctx IMknod v = [AReply c (entry_result EIO v)]"
| "on_resolve c ctx IMkdir v = [AReply c (entry_result EIO v)]"
| "on_resolve c ctx ISymlink v = [AReply c (entry_result EIO v)]"
| "on_resolve c ctx IGetattr v = [AReply c (attr_result v)]"
| "on_resolve c ctx (ITruncate _) v = [AReply c (attr_result v)]"
| "on_resolve c ctx ISetattr v = [AReply c (attr_result v)]"
| "on_resolve c ctx IChmod v = [AReply c (attr_result v)]"
| "on_resolve c ctx IChown v = [AReply c (attr_result v)]"
| "on_resolve c ctx IReadlink v = [AReply c (readlink_result v)]"
| "on_resolve c ctx IOpen v = [AReply c (open_result v)]"
| "on_resolve c ctx IOpendir v = [AReply c (open_result v)]"
| "on_resolve c ctx IReadBuf v = read_buf_acts c v"
| "on_resolve c ctx IRead v = [AReply c (read_result v)]"
| "on_resolve c ctx IWriteOne v = [AReply c (write_one_result v)]"
| "on_resolve c ctx IWrite v = [AReply c (count_result v)]"
| "on_resolve c ctx IReaddir v = [AReply c (readdir_result (rc_size ctx) v)]"
| "on_resolve c ctx IReaddirplus v = readdirplus_acts c ctx v"
| "on_resolve c ctx (IReaddirFallback outer) v = fallback_acts c outer ctx v"
| "on_resolve c ctx IStatfs v = [AReply c (statfs_result v)]"
| "on_resolve c ctx ICreate v = [AReply c (create_result v)]"
| "on_resolve c ctx ICopyFileRange v = [AReply c (count_result v)]"
| "on_resolve c ctx IGetlk v = [AReply c (getlk_result v)]"
| "on_resolve c ctx IBmap v = bmap_acts c v"
| "on_resolve c ctx (IIoctl out_bufsz) v = ioctl_acts c out_bufsz v"
| "on_resolve c ctx (IPoll ph _) v = poll_acts c ph v"
| "on_resolve c ctx IDestroy v = [ADirect c (ReplyErr 0)]"
| "on_resolve c ctx IGetxattr v = getxattr_acts c (rc_size ctx) v"
| "on_resolve c ctx IListxattr v = listxattr_acts c (rc_size ctx) v"
| "on_resolve c ctx (IWriteBuf _ _ _) v = [AReply c (handle_write_result v)]"
| "on_resolve c ctx (IWriteLinear _) v = [AReply c (handle_write_result v)]"
| "on_resolve c ctx _ v = [AReply c (ReplyErr 0)]"

definition on_reject :: "nat \<Rightarrow> invoker \<Rightarrow> jsval \<Rightarrow> act list" where
  "on_reject c k reason =
     (case k of IPoll ph _ \<Rightarrow> release_acts ph | _ \<Rightarrow> []) @ [AReply c (error_value_reply reason)]"

end
