(* ===== verification/Fuse_Bridge.thy ===== *)
theory Fuse_Bridge
  imports Bridge_Results
begin

text \<open>
  The bridge from the FUSE threads to the JavaScript handlers (\<open>src/src/fuse_bridge.cc\<close>): the
  arguments of the handlers, a handler's run on the JavaScript thread and the reactions on
  its promise, the functions \<open>Handle*\<close> for the operations and the callbacks that libfuse calls.

  The function a \<open>Handle*\<close> gives to \<open>ProcessRequest\<close> is in three places: its arguments in
  \<open>invoke_args\<close>, the success case in \<open>on_resolve\<close> and the failure case in \<open>on_reject\<close> (\<open>Bridge_Results\<close>).
  A pointer that the kernel side may leave out is an option.
\<close>

section \<open>Arguments of the handlers\<close>

definition js_u64 :: "u64 \<Rightarrow> jsval" where
  "js_u64 w = CreateBigUint64 w"

definition js_u32 :: "u32 \<Rightarrow> jsval" where
  "js_u32 w = js_num (uint w)"

definition js_size :: "nat \<Rightarrow> jsval" where
  "js_size n = js_num (int n)"

definition CreateRequestContextObject :: "FuseRequestContext \<Rightarrow> jsval" where
  "CreateRequestContextObject ctx =
     (case rc_request ctx of
        None \<Rightarrow> JObject [(''uid'', js_num 0), (''gid'', js_num 0), (''pid'', js_num 0), (''umask'', js_num 0)]
      | Some req \<Rightarrow> JObject [(''uid'', js_u32 (r_uid req)), (''gid'', js_u32 (r_gid req)), (''pid'', js_num (r_pid req)),
                              (''umask'', js_u32 (r_umask req))])"

definition fi_or_null :: "fuse_file_info option \<Rightarrow> jsval" where
  "fi_or_null fi = (case fi of Some x \<Rightarrow> FileInfoToObject x | None \<Rightarrow> JNull)"

definition fi_option :: "fuse_file_info option \<Rightarrow> (string \<times> jsval) list" where
  "fi_option fi = (case fi of Some x \<Rightarrow> [(''fi'', FileInfoToObject x)] | None \<Rightarrow> [])"

definition fi_flags_or_0 :: "fuse_file_info option \<Rightarrow> jsval" where
  "fi_flags_or_0 fi = (case fi of Some x \<Rightarrow> js_num (sint (fi_flags x)) | None \<Rightarrow> js_num 0)"

definition when_set :: "u32 \<Rightarrow> u32 \<Rightarrow> 'a \<Rightarrow> 'a list" where
  "when_set valid bits x = (if valid AND bits \<noteq> 0 then [x] else [])"

definition setattr_object :: "u32 \<Rightarrow> stat \<Rightarrow> jsval" where
  "setattr_object valid st = JObject
     (when_set valid FUSE_SET_ATTR_MODE (''mode'', js_u32 (st_mode st)) @
      when_set valid FUSE_SET_ATTR_UID (''uid'', js_u32 (st_uid st)) @
      when_set valid FUSE_SET_ATTR_GID (''gid'', js_u32 (st_gid st)) @
      when_set valid FUSE_SET_ATTR_SIZE (''size'', CreateBigInt64 (st_size st)) @
      when_set valid FUSE_SET_ATTR_ATIME (''atime'', TimespecToNsBigInt (st_atim st)) @
      when_set valid FUSE_SET_ATTR_MTIME (''mtime'', TimespecToNsBigInt (st_mtim st)) @
      when_set valid FUSE_SET_ATTR_CTIME (''ctime'', TimespecToNsBigInt (st_ctim st)))"

definition setattr_options :: "FuseRequestContext \<Rightarrow> jsval" where
  "setattr_options ctx = JObject
     ((''valid'', js_u32 (rc_valid ctx)) # fi_option (rc_fi ctx) @
      when_set (rc_valid ctx) FUSE_SET_ATTR_ATIME_NOW (''atimeNow'', JBool True) @
      when_set (rc_valid ctx) FUSE_SET_ATTR_MTIME_NOW (''mtimeNow'', JBool True))"

definition valid_options :: "FuseRequestContext \<Rightarrow> jsval" where
  "valid_options ctx = JObject ((''valid'', js_u32 (rc_valid ctx)) # fi_option (rc_fi ctx))"

definition owner_or_null :: "FuseRequestContext \<Rightarrow> u32 \<Rightarrow> (stat \<Rightarrow> u32) \<Rightarrow> jsval" where
  "owner_or_null ctx bits f =
     (case rc_attr ctx of
        Some st \<Rightarrow> (if rc_valid ctx AND bits \<noteq> 0 then js_u32 (f st) else JNull)
      | None \<Rightarrow> JNull)"

definition bufvec_object :: "nat \<Rightarrow> nat \<Rightarrow> (u32 \<times> byte list) list \<Rightarrow> jsval" where
  "bufvec_object idx off bufs = JObject
     [(''count'', js_size (length bufs)), (''idx'', js_size idx), (''off'', js_size off),
      (''buf'', JArray (map (\<lambda>(flags, bs). JObject
         [(''size'', js_size (length bs)), (''flags'', js_u32 flags), (''mem'', JArrayBuffer bs),
          (''memSize'', js_size (length bs))]) bufs))]"

definition offset_options :: "FuseRequestContext \<Rightarrow> jsval" where
  "offset_options ctx = JObject ((''offset'', js_u64 (rc_offset ctx)) # fi_option (rc_fi ctx))"

definition read_options :: "FuseRequestContext \<Rightarrow> jsval" where
  "read_options ctx = JObject
     ((''offset'', js_u64 (rc_offset ctx)) # (''size'', js_size (rc_size ctx)) # fi_option (rc_fi ctx))"

fun l_type_number :: "lock_type \<Rightarrow> int" where
  "l_type_number F_RDLCK = 0"
| "l_type_number F_WRLCK = 1"
| "l_type_number F_UNLCK = 2"

definition lock_object :: "flock option \<Rightarrow> jsval" where
  "lock_object lk =
     (case lk of
        None \<Rightarrow> JObject []
      | Some fl \<Rightarrow> JObject [(''type'', js_num (l_type_number (l_type fl))), (''start'', CreateBigInt64 (l_start fl)),
                             (''len'', CreateBigInt64 (l_len fl)), (''pid'', js_num (l_pid fl))])"

definition poll_object :: "FuseRequestContext \<Rightarrow> u64 option \<Rightarrow> u32 \<Rightarrow> jsval" where
  "poll_object ctx ph events =
     (case ph of
        None \<Rightarrow> JObject []
      | Some h \<Rightarrow> JObject ((''kh'', js_u64 h) #
                   (case rc_fi ctx of Some fi \<Rightarrow> [(''fh'', js_u64 (fi_fh fi))] | None \<Rightarrow> []) @ [(''events'', js_u32 events)]))"

definition no_options :: jsval where
  "no_options = JObject []"

definition size_options :: "string \<Rightarrow> nat \<Rightarrow> jsval" where
  "size_options k n = JObject [(k, js_size n)]"

abbreviation js_ino :: "FuseRequestContext \<Rightarrow> jsval" where "js_ino ctx \<equiv> js_u64 (rc_ino ctx)"

abbreviation js_parent :: "FuseRequestContext \<Rightarrow> jsval" where "js_parent ctx \<equiv> js_u64 (rc_parent ctx)"

abbreviation js_name :: "FuseRequestContext \<Rightarrow> jsval" where "js_name ctx \<equiv> JString (rc_name ctx)"

abbreviation js_fi :: "FuseRequestContext \<Rightarrow> jsval" where "js_fi ctx \<equiv> fi_or_null (rc_fi ctx)"

abbreviation js_ctx :: "FuseRequestContext \<Rightarrow> jsval" where "js_ctx ctx \<equiv> CreateRequestContextObject ctx"

fun invoke_args :: "FuseRequestContext \<Rightarrow> invoker \<Rightarrow> jsval list" where
  "invoke_args ctx IUnlink = [js_parent ctx, js_name ctx, js_ctx ctx, no_options]"
| "invoke_args ctx IRmdir = [js_parent ctx, js_name ctx, js_ctx ctx, no_options]"
| "invoke_args ctx IFlush = [js_ino ctx, js_fi ctx, js_ctx ctx, no_options]"
| "invoke_args ctx IRelease = [js_ino ctx, js_fi ctx, js_ctx ctx, no_options]"
| "invoke_args ctx IFsync = [js_ino ctx, JBool (rc_datasync ctx), js_fi ctx, js_ctx ctx, no_options]"
| "invoke_args ctx IReleasedir = [js_ino ctx, js_fi ctx, js_ctx ctx, no_options]"
| "invoke_args ctx IFsyncdir = [js_ino ctx, JBool (rc_datasync ctx), js_fi ctx, js_ctx ctx, no_options]"
| "invoke_args ctx IAccess = [js_ino ctx, js_u32 (rc_access_mask ctx), js_ctx ctx, no_options]"
| "invoke_args ctx IRename = [js_parent ctx, js_name ctx, js_u64 (rc_new_parent ctx), JString (rc_new_name ctx),
     js_num (rc_flags ctx), js_ctx ctx, no_options]"
| "invoke_args ctx ILink = [js_ino ctx, js_u64 (rc_new_parent ctx), JString (rc_new_name ctx), js_ctx ctx, no_options]"
| "invoke_args ctx ILookup = [js_parent ctx, js_name ctx, js_ctx ctx, no_options]"
| "invoke_args ctx IGetattr = [js_ino ctx, js_ctx ctx, js_fi ctx, no_options]"
| "invoke_args ctx (ITruncate attr) = [js_ino ctx, CreateBigInt64 (st_size attr), js_ctx ctx, JObject (fi_option (rc_fi ctx))]"
| "invoke_args ctx ISetattr = [js_ino ctx,
     (case rc_attr ctx of Some st \<Rightarrow> setattr_object (rc_valid ctx) st | None \<Rightarrow> JObject []), js_ctx ctx, setattr_options ctx]"
| "invoke_args ctx IReadlink = [js_ino ctx, js_ctx ctx, no_options]"
| "invoke_args ctx IMknod = [js_parent ctx, js_name ctx, js_u32 (rc_mode ctx), js_u64 (rc_rdev ctx), js_ctx ctx, no_options]"
| "invoke_args ctx IMkdir = [js_parent ctx, js_name ctx, js_u32 (rc_mode ctx), js_ctx ctx, no_options]"
| "invoke_args ctx IChmod = [js_ino ctx, js_u32 (rc_mode ctx), js_ctx ctx, valid_options ctx]"
| "invoke_args ctx IChown = [js_ino ctx, owner_or_null ctx FUSE_SET_ATTR_UID st_uid, owner_or_null ctx FUSE_SET_ATTR_GID st_gid,
     js_ctx ctx, valid_options ctx]"
| "invoke_args ctx ISymlink = [JString (rc_link_target ctx), js_parent ctx, js_name ctx, js_ctx ctx, no_options]"
| "invoke_args ctx IOpen = [js_ino ctx, js_ctx ctx, JObject [(''flags'', fi_flags_or_0 (rc_fi ctx))]]"
| "invoke_args ctx IOpendir = [js_ino ctx, js_ctx ctx, JObject [(''flags'', fi_flags_or_0 (rc_fi ctx))]]"
| "invoke_args ctx IReadBuf = [js_ino ctx, js_ctx ctx, read_options ctx]"
| "invoke_args ctx IRead = [js_ino ctx, js_ctx ctx, read_options ctx]"
| "invoke_args ctx IWriteOne = [js_ino ctx, bufvec_object 0 0 [(0, rc_data ctx)], js_ctx ctx, offset_options ctx]"
| "invoke_args ctx IWrite = [js_ino ctx, JArrayBuffer (rc_data ctx), js_ctx ctx, offset_options ctx]"
| "invoke_args ctx IReaddir = [js_ino ctx, js_u64 (rc_offset ctx), js_ctx ctx, js_fi ctx, size_options ''size'' (rc_size ctx)]"
| "invoke_args ctx IReaddirplus = [js_ino ctx, js_u64 (rc_offset ctx), js_ctx ctx, js_fi ctx, size_options ''size'' (rc_size ctx)]"
| "invoke_args ctx (IReaddirFallback _) = [js_ino ctx, js_u64 (rc_offset ctx), js_ctx ctx, js_fi ctx, size_options ''size'' (rc_size ctx)]"
| "invoke_args ctx IStatfs = [js_ino ctx, js_ctx ctx, no_options]"
| "invoke_args ctx ICreate = [js_parent ctx, js_name ctx, js_u32 (rc_mode ctx), js_ctx ctx, JObject (fi_option (rc_fi ctx))]"
| "invoke_args ctx ICopyFileRange = [js_ino ctx, js_u64 (rc_offset ctx), js_fi ctx, js_u64 (rc_new_parent ctx),
     js_u64 (rc_new_offset ctx), fi_or_null (rc_fi_out ctx), js_u64 (of_nat (rc_size ctx)), js_num (rc_flags ctx), js_ctx ctx, no_options]"
| "invoke_args ctx IGetlk = [js_ino ctx, js_fi ctx, lock_object (rc_lock ctx), js_ctx ctx, no_options]"
| "invoke_args ctx ISetlk = [js_ino ctx, js_fi ctx, lock_object (rc_lock ctx), JBool (rc_sleep ctx), js_ctx ctx, no_options]"
| "invoke_args ctx IBmap = [js_ino ctx, js_size (rc_size ctx), js_u64 (rc_offset ctx), js_ctx ctx, no_options]"
| "invoke_args ctx (IIoctl out_bufsz) = [js_ino ctx, js_num (rc_flags ctx), js_fi ctx,
     (if rc_data ctx = [] then JNull else JArrayBuffer (rc_data ctx)), js_ctx ctx, size_options ''out_bufsz'' out_bufsz]"
| "invoke_args ctx (IPoll ph events) = [js_ino ctx, js_fi ctx, poll_object ctx ph events, js_u32 events, js_ctx ctx, no_options]"
| "invoke_args ctx (IInit major minor) = [JObject [(''protoMajor'', js_u32 major), (''protoMinor'', js_u32 minor)], js_ctx ctx]"
| "invoke_args ctx IDestroy = [js_ctx ctx]"
| "invoke_args ctx ISetxattr = [js_ino ctx, js_name ctx, JTyped (rc_data ctx), js_num (rc_flags ctx), js_ctx ctx]"
| "invoke_args ctx IGetxattr = [js_ino ctx, js_name ctx, js_ctx ctx, size_options ''size'' (rc_size ctx)]"
| "invoke_args ctx IListxattr = [js_ino ctx, js_ctx ctx, size_options ''size'' (rc_size ctx)]"
| "invoke_args ctx IRemovexattr = [js_ino ctx, js_name ctx, js_ctx ctx, no_options]"
| "invoke_args ctx (IWriteBuf idx off bufs) = [js_ino ctx, bufvec_object idx off bufs, js_ctx ctx, offset_options ctx]"
| "invoke_args ctx (IWriteLinear bs) = [js_ino ctx, JArrayBuffer bs, js_ctx ctx, offset_options ctx]"

section \<open>On the JavaScript thread\<close>

text \<open>\<open>rc\<close> is the result of \<open>fuse_reply_data\<close>.\<close>

fun perform :: "int \<Rightarrow> act \<Rightarrow> bridge \<Rightarrow> bridge" where
  "perform rc (AReply c r) b = ReplyGuarded c r b"
| "perform rc (ADirect c r) b = fuse_reply c r b"
| "perform rc (AData c bv) b =
     (let b1 = fuse_reply c (ReplyData bv) b
      in if rc \<noteq> 0 then ReplyError c (- rc) b1 else snd (TryMarkReplied c b1))"
| "perform rc (ARelease h) b = ReleasePollHandle h True b"

definition perform_all :: "int \<Rightarrow> act list \<Rightarrow> bridge \<Rightarrow> bridge" where
  "perform_all rc acts b = fold (perform rc) acts b"

text \<open>
  A handler returns a value, perhaps a promise, or throws: then the value is empty. \<open>release\<close> does
  not wait for its promise.
\<close>

datatype js_outcome = Returned jsval | Thrown

fun outcome_value :: "js_outcome \<Rightarrow> jsval" where
  "outcome_value (Returned v) = v"
| "outcome_value Thrown = JUndefined"

definition ResolvePromiseOrValue :: "int \<Rightarrow> nat \<Rightarrow> FuseRequestContext \<Rightarrow> invoker \<Rightarrow> jsval \<Rightarrow> bridge \<Rightarrow> bridge" where
  "ResolvePromiseOrValue rc c ctx k v b =
     (case v of
        JPromise p \<Rightarrow>
          (let b1 = b\<lparr>br_waiting := br_waiting b @ [(p, c, k)]\<rparr>
           in if k = IRelease then ReplyOk c b1 else b1)
      | _ \<Rightarrow> perform_all rc (on_resolve c ctx k v) b)"

text \<open>The function given to \<open>DispatchCustom\<close>; \<open>is_function\<close>: the dispatcher's handler is one.\<close>

definition run_invoker :: "int \<Rightarrow> bool \<Rightarrow> js_outcome \<Rightarrow> nat \<Rightarrow> invoker \<Rightarrow> bridge \<Rightarrow> bridge" where
  "run_invoker rc is_function out c k b =
     (case br_ctxs b c of
        None \<Rightarrow> b
      | Some ctx \<Rightarrow>
          if \<not> is_function then ReplyError c EIO b
          else ResolvePromiseOrValue rc c ctx k (outcome_value out)
                 (b\<lparr>br_calls := br_calls b @ [(rc_op ctx, invoke_args ctx k)]\<rparr>))"

definition remove_nth :: "nat \<Rightarrow> 'a list \<Rightarrow> 'a list" where
  "remove_nth i xs = take i xs @ drop (Suc i) xs"

text \<open>The dispatcher runs the \<open>i\<close>-th accepted request, or reports an error for it.\<close>

definition job_runs :: "int \<Rightarrow> bool \<Rightarrow> js_outcome \<Rightarrow> nat \<Rightarrow> bridge \<Rightarrow> bridge" where
  "job_runs rc is_function out i b =
     (case br_jobs b ! i of (_, c, k) \<Rightarrow> run_invoker rc is_function out c k (b\<lparr>br_jobs := remove_nth i (br_jobs b)\<rparr>))"

definition job_fails :: "int \<Rightarrow> nat \<Rightarrow> bridge \<Rightarrow> bridge" where
  "job_fails code i b =
     (case br_jobs b ! i of (_, c, k) \<Rightarrow> dispatch_error c code (b\<lparr>br_jobs := remove_nth i (br_jobs b)\<rparr>))"

text \<open>The \<open>i\<close>-th reaction: \<open>resolve_cb\<close> with the value or \<open>reject_cb\<close> with the reason.\<close>

definition promise_settles :: "int \<Rightarrow> bool \<Rightarrow> jsval \<Rightarrow> nat \<Rightarrow> bridge \<Rightarrow> bridge" where
  "promise_settles rc fulfilled v i b =
     (case br_waiting b ! i of
        (_, c, k) \<Rightarrow>
          (let b1 = b\<lparr>br_waiting := remove_nth i (br_waiting b)\<rparr>
           in case br_ctxs b c of
                None \<Rightarrow> b1
              | Some ctx \<Rightarrow> perform_all rc (if fulfilled then on_resolve c ctx k v else on_reject c k v) b1))"

end
