(* ===== verification/Bridge_Handlers.thy ===== *)
theory Bridge_Handlers
  imports Fuse_Bridge
begin

text \<open>
  The functions \<open>Handle*\<close> of \<open>src/src/fuse_bridge.cc\<close>, which make the context of a request and
  hand it to \<open>ProcessRequest\<close>, and the callbacks of libfuse, with the table that
  \<open>InitializeFuseOperations\<close> fills. Names are never null pointers; data comes with its length.
  \<open>truncate\<close> and \<open>init\<close> capture a pointer of their caller; here they capture what it points to.
\<close>

section \<open>Requests\<close>

definition submit :: "dispatch_env \<Rightarrow> FuseRequestContext \<Rightarrow> invoker \<Rightarrow> bridge \<Rightarrow> bridge" where
  "submit de ctx k b = (case CreateContext ctx b of (c, b1) \<Rightarrow> ProcessRequest de c k b1)"

definition refuse :: "FuseRequestContext \<Rightarrow> reply \<Rightarrow> bridge \<Rightarrow> bridge" where
  "refuse ctx r b = (case CreateContext ctx b of (c, b1) \<Rightarrow> ReplyGuarded c r b1)"

definition send_now :: "request \<Rightarrow> reply \<Rightarrow> bridge \<Rightarrow> bridge" where
  "send_now req r b = b\<lparr>br_sent := br_sent b @ [(r_id req, r)]\<rparr>"

section \<open>Operations\<close>

definition HandleUnlink :: "dispatch_env \<Rightarrow> request \<Rightarrow> u64 \<Rightarrow> string \<Rightarrow> bridge \<Rightarrow> bridge" where
  "HandleUnlink de req dir nm =
     submit de ((new_context UNLINK (Some req))\<lparr>rc_parent := dir, rc_name := nm\<rparr>) IUnlink"

definition HandleRmdir :: "dispatch_env \<Rightarrow> request \<Rightarrow> u64 \<Rightarrow> string \<Rightarrow> bridge \<Rightarrow> bridge" where
  "HandleRmdir de req dir nm =
     submit de ((new_context RMDIR (Some req))\<lparr>rc_parent := dir, rc_name := nm\<rparr>) IRmdir"

definition HandleFlush :: "dispatch_env \<Rightarrow> request \<Rightarrow> u64 \<Rightarrow> fuse_file_info option \<Rightarrow> bridge \<Rightarrow> bridge" where
  "HandleFlush de req ino fi b =
     (if \<not> HasOperationHandler FLUSH b then refuse ((new_context FLUSH (Some req))\<lparr>rc_ino := ino\<rparr>) (ReplyErr 0) b
      else submit de ((new_context FLUSH (Some req))\<lparr>rc_ino := ino, rc_fi := fi\<rparr>) IFlush b)"

text \<open>The test is for \<open>flush\<close>, as in the source.\<close>

definition HandleRelease :: "dispatch_env \<Rightarrow> request \<Rightarrow> u64 \<Rightarrow> fuse_file_info option \<Rightarrow> bridge \<Rightarrow> bridge" where
  "HandleRelease de req ino fi b =
     (if \<not> HasOperationHandler FLUSH b then refuse (new_context RELEASE (Some req)) (ReplyErr 0) b
      else submit de ((new_context RELEASE (Some req))\<lparr>rc_ino := ino, rc_fi := fi\<rparr>) IRelease b)"

definition HandleFsync :: "dispatch_env \<Rightarrow> request \<Rightarrow> u64 \<Rightarrow> bool \<Rightarrow> fuse_file_info option \<Rightarrow> bridge \<Rightarrow> bridge" where
  "HandleFsync de req ino datasync fi =
     submit de ((new_context FSYNC (Some req))\<lparr>rc_ino := ino, rc_datasync := datasync, rc_fi := fi\<rparr>) IFsync"

definition HandleReleasedir :: "dispatch_env \<Rightarrow> request \<Rightarrow> u64 \<Rightarrow> fuse_file_info option \<Rightarrow> bridge \<Rightarrow> bridge" where
  "HandleReleasedir de req ino fi =
     submit de ((new_context RELEASEDIR (Some req))\<lparr>rc_ino := ino, rc_fi := fi\<rparr>) IReleasedir"

definition HandleFsyncdir :: "dispatch_env \<Rightarrow> request \<Rightarrow> u64 \<Rightarrow> bool \<Rightarrow> fuse_file_info option \<Rightarrow> bridge \<Rightarrow> bridge" where
  "HandleFsyncdir de req ino datasync fi =
     submit de ((new_context FSYNCDIR (Some req))\<lparr>rc_ino := ino, rc_datasync := datasync, rc_fi := fi\<rparr>) IFsyncdir"

definition HandleAccess :: "dispatch_env \<Rightarrow> request \<Rightarrow> u64 \<Rightarrow> u32 \<Rightarrow> bridge \<Rightarrow> bridge" where
  "HandleAccess de req ino acc =
     submit de ((new_context ACCESS (Some req))\<lparr>rc_ino := ino, rc_access_mask := acc\<rparr>) IAccess"

definition HandleRename :: "dispatch_env \<Rightarrow> request \<Rightarrow> u64 \<Rightarrow> string \<Rightarrow> u64 \<Rightarrow> string \<Rightarrow> u32 \<Rightarrow> bridge \<Rightarrow> bridge" where
  "HandleRename de req dir nm newparent newname flags =
     submit de ((new_context RENAME (Some req))\<lparr>rc_parent := dir, rc_name := nm, rc_new_parent := newparent,
         rc_new_name := newname, rc_flags := sint flags\<rparr>) IRename"

definition HandleLink :: "dispatch_env \<Rightarrow> request \<Rightarrow> u64 \<Rightarrow> u64 \<Rightarrow> string \<Rightarrow> bridge \<Rightarrow> bridge" where
  "HandleLink de req ino newparent newname =
     submit de ((new_context LINK (Some req))\<lparr>rc_ino := ino, rc_new_parent := newparent, rc_new_name := newname\<rparr>) ILink"

definition HandleLookup :: "dispatch_env \<Rightarrow> request \<Rightarrow> u64 \<Rightarrow> string \<Rightarrow> bridge \<Rightarrow> bridge" where
  "HandleLookup de req dir nm =
     submit de ((new_context LOOKUP (Some req))\<lparr>rc_parent := dir, rc_name := nm\<rparr>) ILookup"

definition HandleGetattr :: "dispatch_env \<Rightarrow> request \<Rightarrow> u64 \<Rightarrow> fuse_file_info option \<Rightarrow> bridge \<Rightarrow> bridge" where
  "HandleGetattr de req ino fi =
     submit de ((new_context GETATTR (Some req))\<lparr>rc_ino := ino, rc_fi := fi\<rparr>) IGetattr"

definition HandleChmod :: "dispatch_env \<Rightarrow> request \<Rightarrow> u64 \<Rightarrow> u32 \<Rightarrow> fuse_file_info option \<Rightarrow> u32 \<Rightarrow> bridge \<Rightarrow> bridge" where
  "HandleChmod de req ino mode fi to_set =
     submit de ((new_context CHMOD (Some req))\<lparr>rc_ino := ino, rc_mode := mode, rc_valid := to_set, rc_fi := fi\<rparr>) IChmod"

definition HandleChown :: "dispatch_env \<Rightarrow> request \<Rightarrow> u64 \<Rightarrow> stat option \<Rightarrow> u32 \<Rightarrow> fuse_file_info option \<Rightarrow> bridge \<Rightarrow> bridge" where
  "HandleChown de req ino attr to_set fi =
     submit de ((new_context CHOWN (Some req))\<lparr>rc_ino := ino, rc_valid := to_set, rc_attr := attr, rc_fi := fi\<rparr>) IChown"

definition HandleSetattr :: "dispatch_env \<Rightarrow> request \<Rightarrow> u64 \<Rightarrow> stat option \<Rightarrow> u32 \<Rightarrow> fuse_file_info option \<Rightarrow> bridge \<Rightarrow> bridge" where
  "HandleSetattr de req ino attr to_set fi b =
     (let chown_mask = FUSE_SET_ATTR_UID OR FUSE_SET_ATTR_GID
      in if to_set AND chown_mask \<noteq> 0 \<and> to_set AND NOT chown_mask = 0 \<and> attr \<noteq> None \<and> HasOperationHandler CHOWN b
         then HandleChown de req ino attr to_set fi b
         else case attr of
                None \<Rightarrow> refuse (new_context SETATTR (Some req)) (error_reply EINVAL) b
              | Some st \<Rightarrow>
                  if to_set AND FUSE_SET_ATTR_MODE \<noteq> 0 \<and> to_set AND NOT FUSE_SET_ATTR_MODE = 0 \<and> HasOperationHandler CHMOD b
                  then HandleChmod de req ino (st_mode st) fi to_set b
                  else if to_set AND FUSE_SET_ATTR_SIZE \<noteq> 0 \<and> to_set AND NOT FUSE_SET_ATTR_SIZE = 0 \<and> HasOperationHandler TRUNCATE b
                  then submit de ((new_context TRUNCATE (Some req))\<lparr>rc_ino := ino, rc_fi := fi\<rparr>) (ITruncate st) b
                  else submit de ((new_context SETATTR (Some req))\<lparr>rc_ino := ino, rc_valid := to_set, rc_attr := Some st, rc_fi := fi\<rparr>)
                         ISetattr b)"

definition HandleReadlink :: "dispatch_env \<Rightarrow> request \<Rightarrow> u64 \<Rightarrow> bridge \<Rightarrow> bridge" where
  "HandleReadlink de req ino =
     submit de ((new_context READLINK (Some req))\<lparr>rc_ino := ino\<rparr>) IReadlink"

definition HandleMknod :: "dispatch_env \<Rightarrow> request \<Rightarrow> u64 \<Rightarrow> string \<Rightarrow> u32 \<Rightarrow> u64 \<Rightarrow> bridge \<Rightarrow> bridge" where
  "HandleMknod de req dir nm mode rdev =
     submit de ((new_context MKNOD (Some req))\<lparr>rc_parent := dir, rc_name := nm, rc_mode := mode, rc_rdev := rdev\<rparr>) IMknod"

definition HandleMkdir :: "dispatch_env \<Rightarrow> request \<Rightarrow> u64 \<Rightarrow> string \<Rightarrow> u32 \<Rightarrow> bridge \<Rightarrow> bridge" where
  "HandleMkdir de req dir nm mode =
     submit de ((new_context MKDIR (Some req))\<lparr>rc_parent := dir, rc_name := nm, rc_mode := mode\<rparr>) IMkdir"

definition HandleSymlink :: "dispatch_env \<Rightarrow> request \<Rightarrow> string \<Rightarrow> u64 \<Rightarrow> string \<Rightarrow> bridge \<Rightarrow> bridge" where
  "HandleSymlink de req link dir nm =
     submit de ((new_context SYMLINK (Some req))\<lparr>rc_link_target := link, rc_parent := dir, rc_name := nm\<rparr>) ISymlink"

definition HandleOpen :: "dispatch_env \<Rightarrow> request \<Rightarrow> u64 \<Rightarrow> fuse_file_info option \<Rightarrow> bridge \<Rightarrow> bridge" where
  "HandleOpen de req ino fi =
     submit de ((new_context OPEN (Some req))\<lparr>rc_ino := ino, rc_fi := fi\<rparr>) IOpen"

definition HandleOpendir :: "dispatch_env \<Rightarrow> request \<Rightarrow> u64 \<Rightarrow> fuse_file_info option \<Rightarrow> bridge \<Rightarrow> bridge" where
  "HandleOpendir de req ino fi =
     submit de ((new_context OPENDIR (Some req))\<lparr>rc_ino := ino, rc_fi := fi\<rparr>) IOpendir"

definition DispatchReadBuf :: "dispatch_env \<Rightarrow> FuseRequestContext \<Rightarrow> bridge \<Rightarrow> bridge" where
  "DispatchReadBuf de ctx =
     submit de ctx IReadBuf"

definition HandleRead :: "dispatch_env \<Rightarrow> request \<Rightarrow> u64 \<Rightarrow> nat \<Rightarrow> int \<Rightarrow> fuse_file_info option \<Rightarrow> bridge \<Rightarrow> bridge" where
  "HandleRead de req ino sz off fi b =
     (let ctx = (new_context READ (Some req))\<lparr>rc_ino := ino, rc_size := sz, rc_offset := word_of_int off, rc_fi := fi\<rparr>
      in if HasOperationHandler READ_BUF b then DispatchReadBuf de (ctx\<lparr>rc_op := READ_BUF\<rparr>) b
         else if \<not> HasOperationHandler READ b then refuse ctx (error_reply ENOSYS) b
         else submit de ctx IRead b)"

definition HandleWrite :: "dispatch_env \<Rightarrow> request \<Rightarrow> u64 \<Rightarrow> byte list \<Rightarrow> int \<Rightarrow> fuse_file_info option \<Rightarrow> bridge \<Rightarrow> bridge" where
  "HandleWrite de req ino buf off fi b =
     (let ctx = (new_context WRITE (Some req))\<lparr>rc_ino := ino, rc_size := length buf, rc_offset := word_of_int off, rc_fi := fi, rc_data := buf\<rparr>
      in if HasOperationHandler WRITE_BUF b then submit de (ctx\<lparr>rc_op := WRITE_BUF\<rparr>) IWriteOne b
         else if \<not> HasOperationHandler WRITE b then refuse ctx (error_reply ENOSYS) b
         else submit de ctx IWrite b)"

definition HandleReaddir :: "dispatch_env \<Rightarrow> request \<Rightarrow> u64 \<Rightarrow> nat \<Rightarrow> int \<Rightarrow> fuse_file_info option \<Rightarrow> bridge \<Rightarrow> bridge" where
  "HandleReaddir de req ino sz off fi =
     submit de ((new_context READDIR (Some req))\<lparr>rc_ino := ino, rc_size := sz, rc_offset := word_of_int off, rc_fi := fi\<rparr>) IReaddir"

text \<open>Without a handler for \<open>readdirplus\<close>, the one for \<open>readdir\<close> is asked, with a context of its own.\<close>

definition HandleReaddirplus :: "dispatch_env \<Rightarrow> request \<Rightarrow> u64 \<Rightarrow> nat \<Rightarrow> int \<Rightarrow> fuse_file_info option \<Rightarrow> bridge \<Rightarrow> bridge" where
  "HandleReaddirplus de req ino sz off fi b =
     (let ctx = (new_context READDIRPLUS (Some req))\<lparr>rc_ino := ino, rc_size := sz, rc_offset := word_of_int off, rc_fi := fi\<rparr>
      in if \<not> HasOperationHandler READDIRPLUS b \<and> \<not> HasOperationHandler READDIR b then refuse ctx (error_reply ENOSYS) b
         else if HasOperationHandler READDIRPLUS b then submit de ctx IReaddirplus b
         else case CreateContext ctx b of
                (outer, b1) \<Rightarrow> submit de (ctx\<lparr>rc_op := READDIR\<rparr>) (IReaddirFallback outer) b1)"

definition HandleStatfs :: "dispatch_env \<Rightarrow> request \<Rightarrow> u64 \<Rightarrow> bridge \<Rightarrow> bridge" where
  "HandleStatfs de req ino =
     submit de ((new_context STATFS (Some req))\<lparr>rc_ino := ino\<rparr>) IStatfs"

definition HandleCreate :: "dispatch_env \<Rightarrow> request \<Rightarrow> u64 \<Rightarrow> string \<Rightarrow> u32 \<Rightarrow> fuse_file_info option \<Rightarrow> bridge \<Rightarrow> bridge" where
  "HandleCreate de req dir nm mode fi =
     submit de ((new_context CREATE (Some req))\<lparr>rc_parent := dir, rc_name := nm, rc_mode := mode, rc_fi := fi\<rparr>) ICreate"

definition HandleCopyFileRange :: "dispatch_env \<Rightarrow> request \<Rightarrow> u64 \<Rightarrow> int \<Rightarrow> fuse_file_info option \<Rightarrow> u64 \<Rightarrow> int \<Rightarrow> fuse_file_info option \<Rightarrow> nat \<Rightarrow> int \<Rightarrow> bridge \<Rightarrow> bridge" where
  "HandleCopyFileRange de req ino_in off_in fi_in ino_out off_out fi_out len flags =
     submit de ((new_context COPY_FILE_RANGE (Some req))\<lparr>rc_ino := ino_in, rc_offset := word_of_int off_in,
         rc_new_parent := ino_out, rc_new_offset := word_of_int off_out, rc_size := len, rc_flags := flags, rc_fi := fi_in,
         rc_fi_out := fi_out\<rparr>) ICopyFileRange"

definition HandleGetlk :: "dispatch_env \<Rightarrow> request \<Rightarrow> u64 \<Rightarrow> fuse_file_info option \<Rightarrow> flock option \<Rightarrow> bridge \<Rightarrow> bridge" where
  "HandleGetlk de req ino fi lk =
     submit de ((new_context GETLK (Some req))\<lparr>rc_ino := ino, rc_fi := fi, rc_lock := lk\<rparr>) IGetlk"

definition HandleSetlk :: "dispatch_env \<Rightarrow> request \<Rightarrow> u64 \<Rightarrow> fuse_file_info option \<Rightarrow> flock option \<Rightarrow> bool \<Rightarrow> bridge \<Rightarrow> bridge" where
  "HandleSetlk de req ino fi lk sleep =
     submit de ((new_context SETLK (Some req))\<lparr>rc_ino := ino, rc_sleep := sleep, rc_fi := fi, rc_lock := lk\<rparr>) ISetlk"

definition HandleBmap :: "dispatch_env \<Rightarrow> request \<Rightarrow> u64 \<Rightarrow> nat \<Rightarrow> u64 \<Rightarrow> bridge \<Rightarrow> bridge" where
  "HandleBmap de req ino blocksize idx =
     submit de ((new_context BMAP (Some req))\<lparr>rc_ino := ino, rc_size := blocksize, rc_offset := idx\<rparr>) IBmap"

definition HandleIoctl :: "dispatch_env \<Rightarrow> request \<Rightarrow> u64 \<Rightarrow> int \<Rightarrow> fuse_file_info option \<Rightarrow> byte list \<Rightarrow> nat \<Rightarrow> bridge \<Rightarrow> bridge" where
  "HandleIoctl de req ino cmd fi in_buf out_bufsz =
     submit de ((new_context IOCTL (Some req))\<lparr>rc_ino := ino, rc_flags := cmd, rc_fi := fi, rc_data := in_buf\<rparr>) (IIoctl out_bufsz)"

definition HandlePoll :: "dispatch_env \<Rightarrow> request \<Rightarrow> u64 \<Rightarrow> fuse_file_info option \<Rightarrow> u64 option \<Rightarrow> bridge \<Rightarrow> bridge" where
  "HandlePoll de req ino fi ph b =
     (let ctx = (new_context POLL (Some req))\<lparr>rc_ino := ino, rc_fi := fi\<rparr>;
          requested_events = (case fi of Some x \<Rightarrow> fi_poll_events x | None \<Rightarrow> 0);
          b1 = (case ph of Some handle \<Rightarrow> RegisterPollHandle handle b | None \<Rightarrow> b)
      in submit de ctx (IPoll ph requested_events) b1)"

record bridge_conn =
  bc_proto_major :: u32
  bc_proto_minor :: u32
  bc_want :: u32
  bc_max_write :: u32
  bc_max_readahead :: u32

definition HandleInit :: "dispatch_env \<Rightarrow> request option \<Rightarrow> bridge_conn \<Rightarrow> bridge \<Rightarrow> bridge_conn \<times> bridge" where
  "HandleInit de req conn b =
     (let conn1 = conn\<lparr>bc_want := bc_want conn OR 1 OR 0x10000 OR 0x200, bc_max_write := 4096 * 4, bc_max_readahead := 4096 * 4\<rparr>
      in (conn1, submit de (new_context INIT req) (IInit (bc_proto_major conn1) (bc_proto_minor conn1)) b))"

definition HandleDestroy :: "dispatch_env \<Rightarrow> request option \<Rightarrow> bridge \<Rightarrow> bridge" where
  "HandleDestroy de req b =
     (let b1 = b\<lparr>br_handlers := []\<rparr>
      in if \<not> de_dispatcher de \<or> \<not> HasOperationHandler DESTROY b1
         then (case req of None \<Rightarrow> b1 | Some r \<Rightarrow> send_now r (ReplyErr 0) b1)
         else submit de (new_context DESTROY req) IDestroy b1)"

definition HandleForget :: "request \<Rightarrow> u64 \<Rightarrow> u64 \<Rightarrow> bridge \<Rightarrow> bridge" where
  "HandleForget req ino forgotten =
     send_now req ReplyNone"

definition HandleForgetMulti :: "request \<Rightarrow> (u64 \<times> u64) list \<Rightarrow> bridge \<Rightarrow> bridge" where
  "HandleForgetMulti req forgets =
     send_now req ReplyNone"

definition HandleReadBuf :: "dispatch_env \<Rightarrow> request \<Rightarrow> u64 \<Rightarrow> nat \<Rightarrow> int \<Rightarrow> fuse_file_info option \<Rightarrow> bridge \<Rightarrow> bridge" where
  "HandleReadBuf de req ino sz off fi =
     HandleRead de req ino sz off fi"

definition HandleSetxattr :: "dispatch_env \<Rightarrow> request \<Rightarrow> u64 \<Rightarrow> string \<Rightarrow> byte list \<Rightarrow> int \<Rightarrow> bridge \<Rightarrow> bridge" where
  "HandleSetxattr de req ino nm val flags =
     submit de ((new_context SETXATTR (Some req))\<lparr>rc_ino := ino, rc_name := nm, rc_size := length val, rc_flags := flags, rc_data := val\<rparr>) ISetxattr"

definition HandleGetxattr :: "dispatch_env \<Rightarrow> request \<Rightarrow> u64 \<Rightarrow> string \<Rightarrow> nat \<Rightarrow> bridge \<Rightarrow> bridge" where
  "HandleGetxattr de req ino nm sz =
     submit de ((new_context GETXATTR (Some req))\<lparr>rc_ino := ino, rc_name := nm, rc_size := sz\<rparr>) IGetxattr"

definition HandleListxattr :: "dispatch_env \<Rightarrow> request \<Rightarrow> u64 \<Rightarrow> nat \<Rightarrow> bridge \<Rightarrow> bridge" where
  "HandleListxattr de req ino sz =
     submit de ((new_context LISTXATTR (Some req))\<lparr>rc_ino := ino, rc_size := sz\<rparr>) IListxattr"

definition HandleRemovexattr :: "dispatch_env \<Rightarrow> request \<Rightarrow> u64 \<Rightarrow> string \<Rightarrow> bridge \<Rightarrow> bridge" where
  "HandleRemovexattr de req ino nm =
     submit de ((new_context REMOVEXATTR (Some req))\<lparr>rc_ino := ino, rc_name := nm\<rparr>) IRemovexattr"

section \<open>Writing a buffer vector\<close>

text \<open>
  \<open>m\<close> is the memory of the process, where the address 0 is the null pointer; \<open>pread\<close> gives an
  error or the bytes it read (none at the end of the file).
\<close>

definition buf_flags :: "fuse_buf \<Rightarrow> u32" where
  "buf_flags x = (if b_is_fd x then 2 else 0) OR (if b_fd_seek x then 4 else 0) OR (if b_fd_retry x then 8 else 0)"

definition mem_bytes :: "memory \<Rightarrow> fuse_buf \<Rightarrow> byte list option" where
  "mem_bytes m x = (if b_size x > 0 \<and> b_mem x = 0 then None else Some (bytes_at m (b_mem x) (b_size x)))"

function pread_all :: "(int \<Rightarrow> nat \<Rightarrow> int \<Rightarrow> int + byte list) \<Rightarrow> int \<Rightarrow> nat \<Rightarrow> int \<Rightarrow> byte list option" where
  "pread_all pread fd n pos =
     (if n = 0 then Some []
      else case pread fd n pos of
             Inl err \<Rightarrow> None
           | Inr bs \<Rightarrow> if bs = [] then None
                        else map_option (\<lambda>rest. bs @ rest) (pread_all pread fd (n - length bs) (pos + int (length bs))))"
  by pat_completeness auto
termination
  by (relation "measure (\<lambda>(_, _, n, _). n)") auto

declare pread_all.simps [simp del]

fun copy_bufs :: "memory \<Rightarrow> fuse_buf list \<Rightarrow> (u32 \<times> byte list) list option" where
  "copy_bufs m [] = Some []"
| "copy_bufs m (x # xs) =
     do { bs \<leftarrow> mem_bytes m x; rest \<leftarrow> copy_bufs m xs; Some ((buf_flags x, bs) # rest) }"

fun linear_bufs :: "memory \<Rightarrow> (int \<Rightarrow> nat \<Rightarrow> int \<Rightarrow> int + byte list) \<Rightarrow> fuse_buf list \<Rightarrow> byte list option" where
  "linear_bufs m pread [] = Some []"
| "linear_bufs m pread (x # xs) =
     do {
       bs \<leftarrow> (if b_size x = 0 then Some []
              else if b_is_fd x then pread_all pread (b_fd x) (b_size x) (b_pos x) else mem_bytes m x);
       rest \<leftarrow> linear_bufs m pread xs;
       Some (bs @ rest)
     }"

definition HandleWriteBuf ::
  "dispatch_env \<Rightarrow> request \<Rightarrow> memory \<Rightarrow> (int \<Rightarrow> nat \<Rightarrow> int \<Rightarrow> int + byte list) \<Rightarrow> u64 \<Rightarrow> fuse_bufvec \<Rightarrow> int \<Rightarrow>
   fuse_file_info option \<Rightarrow> bridge \<Rightarrow> bridge" where
  "HandleWriteBuf de req m pread ino bufv off fi b =
     (let ctx = (new_context WRITE_BUF (Some req))\<lparr>rc_ino := ino, rc_offset := word_of_int off, rc_size := fuse_buf_size bufv,
                  rc_fi := fi\<rparr>;
          has_write_buf = HasOperationHandler WRITE_BUF b;
          contains_fd = (\<exists>x \<in> set (bv_bufs bufv). b_is_fd x)
      in if \<not> has_write_buf \<and> \<not> HasOperationHandler WRITE b then refuse ctx (error_reply ENOSYS) b
         else if has_write_buf \<and> \<not> contains_fd then
           (case copy_bufs m (bv_bufs bufv) of
              None \<Rightarrow> refuse ctx (error_reply EIO) b
            | Some copies \<Rightarrow> submit de ctx (IWriteBuf (bv_idx bufv) (bv_off bufv) copies) b)
         else
           (case linear_bufs m pread (bv_bufs bufv) of
              None \<Rightarrow> refuse (ctx\<lparr>rc_op := WRITE\<rparr>) (error_reply EIO) b
            | Some flat \<Rightarrow> submit de (ctx\<lparr>rc_op := WRITE\<rparr>) (IWriteLinear flat) b))"

section \<open>Callbacks\<close>

text \<open>\<open>has_bridge\<close>: \<open>GetBridgeFromRequest\<close> finds the bridge in the session's user data.\<close>

definition callback :: "bool \<Rightarrow> request \<Rightarrow> (bridge \<Rightarrow> bridge) \<Rightarrow> bridge \<Rightarrow> bridge" where
  "callback has_bridge req handle b = (if has_bridge then handle b else send_now req (ReplyErr ENODEV) b)"

definition ReaddirplusCallback :: "bool \<Rightarrow> dispatch_env \<Rightarrow> request \<Rightarrow> u64 \<Rightarrow> nat \<Rightarrow> int \<Rightarrow> fuse_file_info option \<Rightarrow> bridge \<Rightarrow> bridge" where
  "ReaddirplusCallback has_bridge de req ino sz off fi = callback has_bridge req (HandleReaddirplus de req ino sz off fi)"

definition BmapCallback :: "bool \<Rightarrow> dispatch_env \<Rightarrow> request \<Rightarrow> u64 \<Rightarrow> nat \<Rightarrow> u64 \<Rightarrow> bridge \<Rightarrow> bridge" where
  "BmapCallback has_bridge de req ino blocksize idx = callback has_bridge req (HandleBmap de req ino blocksize idx)"

definition IoctlCallback :: "bool \<Rightarrow> dispatch_env \<Rightarrow> request \<Rightarrow> u64 \<Rightarrow> int \<Rightarrow> fuse_file_info option \<Rightarrow> byte list \<Rightarrow> nat \<Rightarrow> bridge \<Rightarrow> bridge" where
  "IoctlCallback has_bridge de req ino cmd fi in_buf out_bufsz = callback has_bridge req (HandleIoctl de req ino cmd fi in_buf out_bufsz)"

definition PollCallback :: "bool \<Rightarrow> dispatch_env \<Rightarrow> request \<Rightarrow> u64 \<Rightarrow> fuse_file_info option \<Rightarrow> u64 option \<Rightarrow> bridge \<Rightarrow> bridge" where
  "PollCallback has_bridge de req ino fi ph = callback has_bridge req (HandlePoll de req ino fi ph)"

definition LookupCallback :: "bool \<Rightarrow> dispatch_env \<Rightarrow> request \<Rightarrow> u64 \<Rightarrow> string \<Rightarrow> bridge \<Rightarrow> bridge" where
  "LookupCallback has_bridge de req dir nm = callback has_bridge req (HandleLookup de req dir nm)"

definition GetattrCallback :: "bool \<Rightarrow> dispatch_env \<Rightarrow> request \<Rightarrow> u64 \<Rightarrow> fuse_file_info option \<Rightarrow> bridge \<Rightarrow> bridge" where
  "GetattrCallback has_bridge de req ino fi = callback has_bridge req (HandleGetattr de req ino fi)"

definition SetattrCallback :: "bool \<Rightarrow> dispatch_env \<Rightarrow> request \<Rightarrow> u64 \<Rightarrow> stat option \<Rightarrow> u32 \<Rightarrow> fuse_file_info option \<Rightarrow> bridge \<Rightarrow> bridge" where
  "SetattrCallback has_bridge de req ino attr to_set fi = callback has_bridge req (HandleSetattr de req ino attr to_set fi)"

definition ReadlinkCallback :: "bool \<Rightarrow> dispatch_env \<Rightarrow> request \<Rightarrow> u64 \<Rightarrow> bridge \<Rightarrow> bridge" where
  "ReadlinkCallback has_bridge de req ino = callback has_bridge req (HandleReadlink de req ino)"

definition MknodCallback :: "bool \<Rightarrow> dispatch_env \<Rightarrow> request \<Rightarrow> u64 \<Rightarrow> string \<Rightarrow> u32 \<Rightarrow> u64 \<Rightarrow> bridge \<Rightarrow> bridge" where
  "MknodCallback has_bridge de req dir nm mode rdev = callback has_bridge req (HandleMknod de req dir nm mode rdev)"

definition MkdirCallback :: "bool \<Rightarrow> dispatch_env \<Rightarrow> request \<Rightarrow> u64 \<Rightarrow> string \<Rightarrow> u32 \<Rightarrow> bridge \<Rightarrow> bridge" where
  "MkdirCallback has_bridge de req dir nm mode = callback has_bridge req (HandleMkdir de req dir nm mode)"

definition SymlinkCallback :: "bool \<Rightarrow> dispatch_env \<Rightarrow> request \<Rightarrow> string \<Rightarrow> u64 \<Rightarrow> string \<Rightarrow> bridge \<Rightarrow> bridge" where
  "SymlinkCallback has_bridge de req link dir nm = callback has_bridge req (HandleSymlink de req link dir nm)"

definition UnlinkCallback :: "bool \<Rightarrow> dispatch_env \<Rightarrow> request \<Rightarrow> u64 \<Rightarrow> string \<Rightarrow> bridge \<Rightarrow> bridge" where
  "UnlinkCallback has_bridge de req dir nm = callback has_bridge req (HandleUnlink de req dir nm)"

definition RmdirCallback :: "bool \<Rightarrow> dispatch_env \<Rightarrow> request \<Rightarrow> u64 \<Rightarrow> string \<Rightarrow> bridge \<Rightarrow> bridge" where
  "RmdirCallback has_bridge de req dir nm = callback has_bridge req (HandleRmdir de req dir nm)"

definition RenameCallback :: "bool \<Rightarrow> dispatch_env \<Rightarrow> request \<Rightarrow> u64 \<Rightarrow> string \<Rightarrow> u64 \<Rightarrow> string \<Rightarrow> u32 \<Rightarrow> bridge \<Rightarrow> bridge" where
  "RenameCallback has_bridge de req dir nm newparent newname flags = callback has_bridge req (HandleRename de req dir nm newparent newname flags)"

definition LinkCallback :: "bool \<Rightarrow> dispatch_env \<Rightarrow> request \<Rightarrow> u64 \<Rightarrow> u64 \<Rightarrow> string \<Rightarrow> bridge \<Rightarrow> bridge" where
  "LinkCallback has_bridge de req ino newparent newname = callback has_bridge req (HandleLink de req ino newparent newname)"

definition OpenCallback :: "bool \<Rightarrow> dispatch_env \<Rightarrow> request \<Rightarrow> u64 \<Rightarrow> fuse_file_info option \<Rightarrow> bridge \<Rightarrow> bridge" where
  "OpenCallback has_bridge de req ino fi = callback has_bridge req (HandleOpen de req ino fi)"

definition ReadCallback :: "bool \<Rightarrow> dispatch_env \<Rightarrow> request \<Rightarrow> u64 \<Rightarrow> nat \<Rightarrow> int \<Rightarrow> fuse_file_info option \<Rightarrow> bridge \<Rightarrow> bridge" where
  "ReadCallback has_bridge de req ino sz off fi = callback has_bridge req (HandleRead de req ino sz off fi)"

definition WriteCallback :: "bool \<Rightarrow> dispatch_env \<Rightarrow> request \<Rightarrow> u64 \<Rightarrow> byte list \<Rightarrow> int \<Rightarrow> fuse_file_info option \<Rightarrow> bridge \<Rightarrow> bridge" where
  "WriteCallback has_bridge de req ino buf off fi = callback has_bridge req (HandleWrite de req ino buf off fi)"

definition FlushCallback :: "bool \<Rightarrow> dispatch_env \<Rightarrow> request \<Rightarrow> u64 \<Rightarrow> fuse_file_info option \<Rightarrow> bridge \<Rightarrow> bridge" where
  "FlushCallback has_bridge de req ino fi = callback has_bridge req (HandleFlush de req ino fi)"

definition ReleaseCallback :: "bool \<Rightarrow> dispatch_env \<Rightarrow> request \<Rightarrow> u64 \<Rightarrow> fuse_file_info option \<Rightarrow> bridge \<Rightarrow> bridge" where
  "ReleaseCallback has_bridge de req ino fi = callback has_bridge req (HandleRelease de req ino fi)"

definition FsyncCallback :: "bool \<Rightarrow> dispatch_env \<Rightarrow> request \<Rightarrow> u64 \<Rightarrow> bool \<Rightarrow> fuse_file_info option \<Rightarrow> bridge \<Rightarrow> bridge" where
  "FsyncCallback has_bridge de req ino datasync fi = callback has_bridge req (HandleFsync de req ino datasync fi)"

definition OpendirCallback :: "bool \<Rightarrow> dispatch_env \<Rightarrow> request \<Rightarrow> u64 \<Rightarrow> fuse_file_info option \<Rightarrow> bridge \<Rightarrow> bridge" where
  "OpendirCallback has_bridge de req ino fi = callback has_bridge req (HandleOpendir de req ino fi)"

definition ReaddirCallback :: "bool \<Rightarrow> dispatch_env \<Rightarrow> request \<Rightarrow> u64 \<Rightarrow> nat \<Rightarrow> int \<Rightarrow> fuse_file_info option \<Rightarrow> bridge \<Rightarrow> bridge" where
  "ReaddirCallback has_bridge de req ino sz off fi = callback has_bridge req (HandleReaddir de req ino sz off fi)"

definition ReleasedirCallback :: "bool \<Rightarrow> dispatch_env \<Rightarrow> request \<Rightarrow> u64 \<Rightarrow> fuse_file_info option \<Rightarrow> bridge \<Rightarrow> bridge" where
  "ReleasedirCallback has_bridge de req ino fi = callback has_bridge req (HandleReleasedir de req ino fi)"

definition FsyncdirCallback :: "bool \<Rightarrow> dispatch_env \<Rightarrow> request \<Rightarrow> u64 \<Rightarrow> bool \<Rightarrow> fuse_file_info option \<Rightarrow> bridge \<Rightarrow> bridge" where
  "FsyncdirCallback has_bridge de req ino datasync fi = callback has_bridge req (HandleFsyncdir de req ino datasync fi)"

definition StatfsCallback :: "bool \<Rightarrow> dispatch_env \<Rightarrow> request \<Rightarrow> u64 \<Rightarrow> bridge \<Rightarrow> bridge" where
  "StatfsCallback has_bridge de req ino = callback has_bridge req (HandleStatfs de req ino)"

definition AccessCallback :: "bool \<Rightarrow> dispatch_env \<Rightarrow> request \<Rightarrow> u64 \<Rightarrow> u32 \<Rightarrow> bridge \<Rightarrow> bridge" where
  "AccessCallback has_bridge de req ino acc = callback has_bridge req (HandleAccess de req ino acc)"

definition CreateCallback :: "bool \<Rightarrow> dispatch_env \<Rightarrow> request \<Rightarrow> u64 \<Rightarrow> string \<Rightarrow> u32 \<Rightarrow> fuse_file_info option \<Rightarrow> bridge \<Rightarrow> bridge" where
  "CreateCallback has_bridge de req dir nm mode fi = callback has_bridge req (HandleCreate de req dir nm mode fi)"

definition CopyFileRangeCallback :: "bool \<Rightarrow> dispatch_env \<Rightarrow> request \<Rightarrow> u64 \<Rightarrow> int \<Rightarrow> fuse_file_info option \<Rightarrow> u64 \<Rightarrow> int \<Rightarrow> fuse_file_info option \<Rightarrow> nat \<Rightarrow> int \<Rightarrow> bridge \<Rightarrow> bridge" where
  "CopyFileRangeCallback has_bridge de req ino_in off_in fi_in ino_out off_out fi_out len flags = callback has_bridge req (HandleCopyFileRange de req ino_in off_in fi_in ino_out off_out fi_out len flags)"

definition InitCallback :: "bool \<Rightarrow> dispatch_env \<Rightarrow> bridge_conn \<Rightarrow> bridge \<Rightarrow> bridge_conn \<times> bridge" where
  "InitCallback has_bridge de conn b = (if has_bridge then HandleInit de None conn b else (conn, b))"

definition DestroyCallback :: "bool \<Rightarrow> dispatch_env \<Rightarrow> bridge \<Rightarrow> bridge" where
  "DestroyCallback has_bridge de b = (if has_bridge then HandleDestroy de None b else b)"

definition ForgetCallback :: "bool \<Rightarrow> request \<Rightarrow> u64 \<Rightarrow> u64 \<Rightarrow> bridge \<Rightarrow> bridge" where
  "ForgetCallback has_bridge req ino forgotten =
     (if has_bridge then HandleForget req ino forgotten else send_now req ReplyNone)"

definition ForgetMultiCallback :: "bool \<Rightarrow> request \<Rightarrow> (u64 \<times> u64) list \<Rightarrow> bridge \<Rightarrow> bridge" where
  "ForgetMultiCallback has_bridge req forgets =
     (if has_bridge then HandleForgetMulti req forgets else send_now req ReplyNone)"

definition WriteBufCallback :: "bool \<Rightarrow> dispatch_env \<Rightarrow> request \<Rightarrow> memory \<Rightarrow> (int \<Rightarrow> nat \<Rightarrow> int \<Rightarrow> int + byte list) \<Rightarrow> u64 \<Rightarrow> fuse_bufvec \<Rightarrow> int \<Rightarrow>
   fuse_file_info option \<Rightarrow> bridge \<Rightarrow> bridge" where
  "WriteBufCallback has_bridge de req m pread ino bufv off fi = callback has_bridge req (HandleWriteBuf de req m pread ino bufv off fi)"

definition SetxattrCallback :: "bool \<Rightarrow> dispatch_env \<Rightarrow> request \<Rightarrow> u64 \<Rightarrow> string \<Rightarrow> byte list \<Rightarrow> int \<Rightarrow> bridge \<Rightarrow> bridge" where
  "SetxattrCallback has_bridge de req ino nm val flags = callback has_bridge req (HandleSetxattr de req ino nm val flags)"

definition GetxattrCallback :: "bool \<Rightarrow> dispatch_env \<Rightarrow> request \<Rightarrow> u64 \<Rightarrow> string \<Rightarrow> nat \<Rightarrow> bridge \<Rightarrow> bridge" where
  "GetxattrCallback has_bridge de req ino nm sz = callback has_bridge req (HandleGetxattr de req ino nm sz)"

definition ListxattrCallback :: "bool \<Rightarrow> dispatch_env \<Rightarrow> request \<Rightarrow> u64 \<Rightarrow> nat \<Rightarrow> bridge \<Rightarrow> bridge" where
  "ListxattrCallback has_bridge de req ino sz = callback has_bridge req (HandleListxattr de req ino sz)"

definition RemovexattrCallback :: "bool \<Rightarrow> dispatch_env \<Rightarrow> request \<Rightarrow> u64 \<Rightarrow> string \<Rightarrow> bridge \<Rightarrow> bridge" where
  "RemovexattrCallback has_bridge de req ino nm = callback has_bridge req (HandleRemovexattr de req ino nm)"

definition GetlkCallback :: "bool \<Rightarrow> dispatch_env \<Rightarrow> request \<Rightarrow> u64 \<Rightarrow> fuse_file_info option \<Rightarrow> flock option \<Rightarrow> bridge \<Rightarrow> bridge" where
  "GetlkCallback has_bridge de req ino fi lk = callback has_bridge req (HandleGetlk de req ino fi lk)"

definition SetlkCallback :: "bool \<Rightarrow> dispatch_env \<Rightarrow> request \<Rightarrow> u64 \<Rightarrow> fuse_file_info option \<Rightarrow> flock option \<Rightarrow> bool \<Rightarrow> bridge \<Rightarrow> bridge" where
  "SetlkCallback has_bridge de req ino fi lk sleep = callback has_bridge req (HandleSetlk de req ino fi lk sleep)"

section \<open>The table of operations\<close>

text \<open>A call of libfuse with its arguments; \<open>init\<close> and \<open>destroy\<close>, which have no request, are separate.\<close>

datatype (plugins only: code size) ll_call =
    CReaddirplus u64 nat int "fuse_file_info option"
  | CBmap u64 nat u64
  | CIoctl u64 int "fuse_file_info option" "byte list" nat
  | CPoll u64 "fuse_file_info option" "u64 option"
  | CLookup u64 string
  | CGetattr u64 "fuse_file_info option"
  | CSetattr u64 "stat option" u32 "fuse_file_info option"
  | CReadlink u64
  | CMknod u64 string u32 u64
  | CMkdir u64 string u32
  | CSymlink string u64 string
  | CUnlink u64 string
  | CRmdir u64 string
  | CRename u64 string u64 string u32
  | CLink u64 u64 string
  | COpen u64 "fuse_file_info option"
  | CRead u64 nat int "fuse_file_info option"
  | CWrite u64 "byte list" int "fuse_file_info option"
  | CFlush u64 "fuse_file_info option"
  | CRelease u64 "fuse_file_info option"
  | CFsync u64 bool "fuse_file_info option"
  | COpendir u64 "fuse_file_info option"
  | CReaddir u64 nat int "fuse_file_info option"
  | CReleasedir u64 "fuse_file_info option"
  | CFsyncdir u64 bool "fuse_file_info option"
  | CStatfs u64
  | CAccess u64 u32
  | CCreate u64 string u32 "fuse_file_info option"
  | CCopyFileRange u64 int "fuse_file_info option" u64 int "fuse_file_info option" nat int
  | CWriteBuf memory "(int \<Rightarrow> nat \<Rightarrow> int \<Rightarrow> int + byte list)" u64 fuse_bufvec int "fuse_file_info option"
  | CSetxattr u64 string "byte list" int
  | CGetxattr u64 string nat
  | CListxattr u64 nat
  | CRemovexattr u64 string
  | CGetlk u64 "fuse_file_info option" "flock option"
  | CSetlk u64 "fuse_file_info option" "flock option" bool
  | CForget u64 u64
  | CForgetMulti "(u64 \<times> u64) list"

fun fuse_ops :: "bool \<Rightarrow> dispatch_env \<Rightarrow> request \<Rightarrow> ll_call \<Rightarrow> bridge \<Rightarrow> bridge" where
  "fuse_ops has_bridge de req (CReaddirplus ino sz off fi) = ReaddirplusCallback has_bridge de req ino sz off fi"
| "fuse_ops has_bridge de req (CBmap ino blocksize idx) = BmapCallback has_bridge de req ino blocksize idx"
| "fuse_ops has_bridge de req (CIoctl ino cmd fi in_buf out_bufsz) = IoctlCallback has_bridge de req ino cmd fi in_buf out_bufsz"
| "fuse_ops has_bridge de req (CPoll ino fi ph) = PollCallback has_bridge de req ino fi ph"
| "fuse_ops has_bridge de req (CLookup dir nm) = LookupCallback has_bridge de req dir nm"
| "fuse_ops has_bridge de req (CGetattr ino fi) = GetattrCallback has_bridge de req ino fi"
| "fuse_ops has_bridge de req (CSetattr ino attr to_set fi) = SetattrCallback has_bridge de req ino attr to_set fi"
| "fuse_ops has_bridge de req (CReadlink ino) = ReadlinkCallback has_bridge de req ino"
| "fuse_ops has_bridge de req (CMknod dir nm mode rdev) = MknodCallback has_bridge de req dir nm mode rdev"
| "fuse_ops has_bridge de req (CMkdir dir nm mode) = MkdirCallback has_bridge de req dir nm mode"
| "fuse_ops has_bridge de req (CSymlink link dir nm) = SymlinkCallback has_bridge de req link dir nm"
| "fuse_ops has_bridge de req (CUnlink dir nm) = UnlinkCallback has_bridge de req dir nm"
| "fuse_ops has_bridge de req (CRmdir dir nm) = RmdirCallback has_bridge de req dir nm"
| "fuse_ops has_bridge de req (CRename dir nm newparent newname flags) = RenameCallback has_bridge de req dir nm newparent newname flags"
| "fuse_ops has_bridge de req (CLink ino newparent newname) = LinkCallback has_bridge de req ino newparent newname"
| "fuse_ops has_bridge de req (COpen ino fi) = OpenCallback has_bridge de req ino fi"
| "fuse_ops has_bridge de req (CRead ino sz off fi) = ReadCallback has_bridge de req ino sz off fi"
| "fuse_ops has_bridge de req (CWrite ino buf off fi) = WriteCallback has_bridge de req ino buf off fi"
| "fuse_ops has_bridge de req (CFlush ino fi) = FlushCallback has_bridge de req ino fi"
| "fuse_ops has_bridge de req (CRelease ino fi) = ReleaseCallback has_bridge de req ino fi"
| "fuse_ops has_bridge de req (CFsync ino datasync fi) = FsyncCallback has_bridge de req ino datasync fi"
| "fuse_ops has_bridge de req (COpendir ino fi) = OpendirCallback has_bridge de req ino fi"
| "fuse_ops has_bridge de req (CReaddir ino sz off fi) = ReaddirCallback has_bridge de req ino sz off fi"
| "fuse_ops has_bridge de req (CReleasedir ino fi) = ReleasedirCallback has_bridge de req ino fi"
| "fuse_ops has_bridge de req (CFsyncdir ino datasync fi) = FsyncdirCallback has_bridge de req ino datasync fi"
| "fuse_ops has_bridge de req (CStatfs ino) = StatfsCallback has_bridge de req ino"
| "fuse_ops has_bridge de req (CAccess ino acc) = AccessCallback has_bridge de req ino acc"
| "fuse_ops has_bridge de req (CCreate dir nm mode fi) = CreateCallback has_bridge de req dir nm mode fi"
| "fuse_ops has_bridge de req (CCopyFileRange ino_in off_in fi_in ino_out off_out fi_out len flags) = CopyFileRangeCallback has_bridge de req ino_in off_in fi_in ino_out off_out fi_out len flags"
| "fuse_ops has_bridge de req (CWriteBuf m pread ino bufv off fi) = WriteBufCallback has_bridge de req m pread ino bufv off fi"
| "fuse_ops has_bridge de req (CSetxattr ino nm val flags) = SetxattrCallback has_bridge de req ino nm val flags"
| "fuse_ops has_bridge de req (CGetxattr ino nm sz) = GetxattrCallback has_bridge de req ino nm sz"
| "fuse_ops has_bridge de req (CListxattr ino sz) = ListxattrCallback has_bridge de req ino sz"
| "fuse_ops has_bridge de req (CRemovexattr ino nm) = RemovexattrCallback has_bridge de req ino nm"
| "fuse_ops has_bridge de req (CGetlk ino fi lk) = GetlkCallback has_bridge de req ino fi lk"
| "fuse_ops has_bridge de req (CSetlk ino fi lk sleep) = SetlkCallback has_bridge de req ino fi lk sleep"
| "fuse_ops has_bridge de req (CForget ino forgotten) = ForgetCallback has_bridge req ino forgotten"
| "fuse_ops has_bridge de req (CForgetMulti forgets) = ForgetMultiCallback has_bridge req forgets"

end
