(* ===== verification/Bridge_Once.thy ===== *)
theory Bridge_Once
  imports Bridge_Handlers "HOL-Library.Multiset"
begin

text \<open>
  Every request of the kernel is answered once. The requests that are not answered yet are the
  tokens: accepted by the dispatcher, or waiting for a promise. The invariant says that
  contexts belong to one token each, that only \<open>release\<close> waits after its answer, and that the
  answers and the open tokens together are the requests received, as multisets.
\<close>

section \<open>Steps\<close>

definition new_bridge :: "nat \<Rightarrow> bridge" where
  "new_bridge this = \<lparr>br_this = this, br_handlers = [], br_polls = [], br_ctxs = Map.empty, br_next = 0, br_jobs = [],
     br_waiting = [], br_calls = [], br_sent = [], br_notified = [], br_destroyed = []\<rparr>"

text \<open>
  What happens to the bridge, in any order: calls of libfuse, outcomes of dispatched requests,
  settled promises, and the functions exported to JavaScript. The second component collects
  the requests. \<open>fuse_reply_data\<close> succeeds in these steps.
\<close>

inductive bridge_step :: "bridge \<times> nat list \<Rightarrow> bridge \<times> nat list \<Rightarrow> bool" where
  request: "bridge_step (b, rs) (fuse_ops has_bridge de req call b, r_id req # rs)"
| init: "bridge_step (b, rs) (snd (InitCallback has_bridge de conn b), rs)"
| destroy: "bridge_step (b, rs) (DestroyCallback has_bridge de b, rs)"
| job_runs: "i < length (br_jobs b) \<Longrightarrow> bridge_step (b, rs) (job_runs 0 is_function out i b, rs)"
| job_fails: "i < length (br_jobs b) \<Longrightarrow> bridge_step (b, rs) (job_fails code i b, rs)"
| settles: "i < length (br_waiting b) \<Longrightarrow> bridge_step (b, rs) (promise_settles 0 fulfilled v i b, rs)"
| register: "bridge_step (b, rs) (snd (RegisterOperationHandler ok op b), rs)"
| remove: "bridge_step (b, rs) (snd (RemoveOperationHandler ok op b), rs)"
| notify: "bridge_step (b, rs) (snd (NotifyPollHandle ok h destroy_after b), rs)"
| destroy_handle: "bridge_step (b, rs) (snd (DestroyPollHandle h b), rs)"
| cleanup: "bridge_step (b, rs) (CleanupPollHandles b, rs)"

section \<open>The invariant\<close>

type_synonym token = "nat \<times> nat \<times> invoker"

fun tok_ctxs :: "token \<Rightarrow> nat list" where
  "tok_ctxs (j, c, IReaddirFallback n) = [c, n]"
| "tok_ctxs (j, c, k) = [c]"

definition open_req :: "bridge \<Rightarrow> token \<Rightarrow> nat multiset" where
  "open_req b t =
     (case br_ctxs b (fst (snd t)) of
        None \<Rightarrow> {#}
      | Some ctx \<Rightarrow> if rc_replied ctx then {#} else (case rc_request ctx of None \<Rightarrow> {#} | Some r \<Rightarrow> {#r_id r#}))"

definition tok_ok :: "bridge \<Rightarrow> token \<Rightarrow> bool" where
  "tok_ok b t \<longleftrightarrow>
     (\<exists>ctx. br_ctxs b (fst (snd t)) = Some ctx \<and> (rc_replied ctx \<longrightarrow> snd (snd t) = IRelease) \<and>
        (\<forall>n. snd (snd t) = IReaddirFallback n \<longrightarrow>
           (\<exists>octx. br_ctxs b n = Some octx \<and> \<not> rc_replied octx \<and> rc_request octx = rc_request ctx)))"

definition tokens :: "token multiset \<Rightarrow> bridge \<Rightarrow> token multiset" where
  "tokens T b = T + mset (br_jobs b) + mset (br_waiting b)"

definition owners_once :: "token multiset \<Rightarrow> bool" where
  "owners_once M \<longleftrightarrow> (\<forall>c. (\<Sum>t\<in>#M. count_list (tok_ctxs t) c) \<le> 1)"

text \<open>\<open>T\<close> are tokens that are being worked on.\<close>

definition bridge_inv :: "token multiset \<Rightarrow> bridge \<Rightarrow> nat multiset \<Rightarrow> bool" where
  "bridge_inv T b rs \<longleftrightarrow>
     (\<forall>c. br_ctxs b c \<noteq> None \<longrightarrow> c < br_next b) \<and>
     owners_once (tokens T b) \<and> (\<forall>t\<in>#tokens T b. tok_ok b t) \<and>
     mset (map fst (br_sent b)) + (\<Sum>t\<in>#tokens T b. open_req b t) = rs"

lemma inv_new: "bridge_inv {#} (new_bridge this) {#}"
  by (simp add: bridge_inv_def new_bridge_def tokens_def owners_once_def)

lemma tok_ctxs_mem: "c \<in> set (tok_ctxs (j, a, k)) \<longleftrightarrow> c = a \<or> k = IReaddirFallback c"
  by (cases k) auto

lemma owners_apart:
  assumes "owners_once (add_mset t M)" "t' \<in># M" "c \<in> set (tok_ctxs t')"
  shows "c \<notin> set (tok_ctxs t)"
proof
  assume "c \<in> set (tok_ctxs t)"
  then have "count_list (tok_ctxs t) c \<noteq> 0" "count_list (tok_ctxs t') c \<noteq> 0"
    using assms(3) by (simp_all add: count_list_0_iff)
  moreover obtain N where "M = add_mset t' N" using assms(2) by (meson mset_add)
  ultimately show False using assms(1) by (auto simp: owners_once_def dest: spec [of _ c])
qed

lemma owners_less: "owners_once (add_mset t M) \<Longrightarrow> owners_once M"
  unfolding owners_once_def by simp (metis add_leD2)

lemma tok_local:
  assumes "\<And>c. c \<in> set (tok_ctxs t) \<Longrightarrow> br_ctxs b' c = br_ctxs b c"
  shows "open_req b' t = open_req b t" "tok_ok b' t = tok_ok b t"
proof -
  obtain j a k where t: "t = (j, a, k)" by (cases t) auto
  have "br_ctxs b' a = br_ctxs b a" using assms [of a] t by (simp add: tok_ctxs_mem)
  moreover have "k = IReaddirFallback n \<Longrightarrow> br_ctxs b' n = br_ctxs b n" for n
    using assms [of n] t by simp
  ultimately show "open_req b' t = open_req b t" "tok_ok b' t = tok_ok b t"
    using t by (auto simp: open_req_def tok_ok_def)
qed

lemma tok_ctxs_known:
  assumes "bridge_inv T b rs" "t \<in># tokens T b" "c \<in> set (tok_ctxs t)"
  shows "c < br_next b"
proof -
  obtain j a k where t: "t = (j, a, k)" by (cases t) auto
  have "tok_ok b t" using assms by (simp add: bridge_inv_def)
  then have "br_ctxs b c \<noteq> None" using assms(3) t by (auto simp: tok_ok_def tok_ctxs_mem)
  then show ?thesis using assms(1) by (simp add: bridge_inv_def)
qed

text \<open>Only the parts of the state in the invariant matter.\<close>

lemma inv_frame:
  assumes "bridge_inv T b rs" "br_ctxs b' = br_ctxs b" "br_next b' = br_next b" "tokens T' b' = tokens T b"
    "br_sent b' = br_sent b"
  shows "bridge_inv T' b' rs"
proof -
  have "open_req b' t = open_req b t" "tok_ok b' t = tok_ok b t" for t
    using assms(2) by (simp_all add: open_req_def tok_ok_def)
  then show ?thesis using assms by (simp add: bridge_inv_def)
qed

text \<open>The answer to a token ends it.\<close>

lemma inv_consume:
  assumes inv: "bridge_inv (add_mset t T) b rs"
    and same: "br_jobs b' = br_jobs b" "br_waiting b' = br_waiting b" "br_next b' = br_next b"
    and dom: "dom (br_ctxs b') = dom (br_ctxs b)"
    and ctxs: "\<And>c. c \<notin> set (tok_ctxs t) \<Longrightarrow> br_ctxs b' c = br_ctxs b c"
    and sent: "mset (map fst (br_sent b')) = mset (map fst (br_sent b)) + open_req b t"
  shows "bridge_inv T b' rs"
proof -
  have toks: "tokens (add_mset t T) b = add_mset t (tokens T b')" using same by (simp add: tokens_def)
  have own: "owners_once (add_mset t (tokens T b'))" using inv toks by (simp add: bridge_inv_def)
  have loc: "open_req b' t' = open_req b t'" "tok_ok b' t' = tok_ok b t'" if "t' \<in># tokens T b'" for t'
    using tok_local [of t' b' b] ctxs owners_apart [OF own that] by blast+
  have "(\<Sum>t\<in>#tokens T b'. open_req b' t) = (\<Sum>t\<in>#tokens T b'. open_req b t)"
    by (intro arg_cong [of _ _ sum_mset] image_mset_cong) (simp add: loc)
  moreover have "br_ctxs b' c \<noteq> None \<Longrightarrow> c < br_next b'" for c
    using inv dom same by (metis bridge_inv_def domIff)
  ultimately show ?thesis
    using inv toks loc owners_less [OF own] sent by (simp add: bridge_inv_def ac_simps)
qed

text \<open>A new context without a token, and a token for contexts that have none.\<close>

lemma inv_context:
  assumes inv: "bridge_inv T b rs" and "CreateContext ctx b = (c, b')"
  shows "bridge_inv T b' rs" "c = br_next b" "br_ctxs b' = (br_ctxs b)(c \<mapsto> ctx)" "br_next b' = Suc c"
proof -
  show c: "c = br_next b" "br_ctxs b' = (br_ctxs b)(c \<mapsto> ctx)" "br_next b' = Suc c"
    using assms(2) by (auto simp: CreateContext_def)
  have toks: "tokens T b' = tokens T b" "br_sent b' = br_sent b" using assms(2) by (auto simp: CreateContext_def tokens_def)
  have loc: "open_req b' t' = open_req b t'" "tok_ok b' t' = tok_ok b t'" if "t' \<in># tokens T b" for t'
    using tok_local [of t' b' b] tok_ctxs_known [OF inv that] c by (auto simp: less_le)
  have "(\<Sum>t\<in>#tokens T b. open_req b' t) = (\<Sum>t\<in>#tokens T b. open_req b t)"
    by (intro arg_cong [of _ _ sum_mset] image_mset_cong) (simp add: loc)
  then show "bridge_inv T b' rs"
    using inv c toks loc by (auto simp: bridge_inv_def less_Suc_eq)
qed

lemma inv_token:
  assumes inv: "bridge_inv T b rs" and ok: "tok_ok b t" and dis: "distinct (tok_ctxs t)"
    and new: "\<And>t' c. t' \<in># tokens T b \<Longrightarrow> c \<in> set (tok_ctxs t) \<Longrightarrow> c \<notin> set (tok_ctxs t')"
  shows "bridge_inv (add_mset t T) b (rs + open_req b t)"
proof -
  have toks: "tokens (add_mset t T) b = add_mset t (tokens T b)" by (simp add: tokens_def)
  have "owners_once (add_mset t (tokens T b))"
    unfolding owners_once_def
  proof
    fix c
    show "(\<Sum>t\<in>#add_mset t (tokens T b). count_list (tok_ctxs t) c) \<le> 1"
    proof (cases "c \<in> set (tok_ctxs t)")
      case True
      then have "\<And>t'. t' \<in># tokens T b \<Longrightarrow> count_list (tok_ctxs t') c = 0" using new by (simp add: count_list_0_iff)
      then have "(\<Sum>t\<in>#tokens T b. count_list (tok_ctxs t) c) = 0" by (simp add: sum_mset_0_iff)
      moreover have "count_list (tok_ctxs t) c \<le> 1" using dis by (metis count_mset distinct_count_atmost_1 le_refl zero_le)
      ultimately show ?thesis unfolding image_mset_add_mset sum_mset.add_mset by linarith
    next
      case False
      then show ?thesis using inv by (simp add: bridge_inv_def owners_once_def count_list_0_iff)
    qed
  qed
  then show ?thesis using inv ok toks by (simp add: bridge_inv_def ac_simps)
qed

section \<open>Answers\<close>

lemma fuse_reply_frame [simp]:
  "br_jobs (fuse_reply c r b) = br_jobs b" "br_waiting (fuse_reply c r b) = br_waiting b"
  "br_next (fuse_reply c r b) = br_next b" "br_ctxs (fuse_reply c r b) = br_ctxs b"
  by (auto simp: fuse_reply_def split: option.split)

lemma sent_reply:
  assumes "br_ctxs b c = Some ctx"
  shows "map fst (br_sent (fuse_reply c r b)) =
    map fst (br_sent b) @ (case rc_request ctx of None \<Rightarrow> [] | Some q \<Rightarrow> [r_id q])"
  using assms by (auto simp: fuse_reply_def split: option.split)

lemma mark_replied:
  assumes "TryMarkReplied c b = (won, b')" "br_ctxs b c = Some ctx"
  shows "won \<longleftrightarrow> \<not> rc_replied ctx" "br_ctxs b' = (br_ctxs b)(c \<mapsto> ctx\<lparr>rc_replied := True\<rparr>)"
    "br_jobs b' = br_jobs b" "br_waiting b' = br_waiting b" "br_next b' = br_next b" "br_sent b' = br_sent b"
  using assms by (auto simp: TryMarkReplied_def)

text \<open>The guarded reply through a context of the token whose request is the token's.\<close>

lemma inv_guarded_at:
  assumes inv: "bridge_inv (add_mset t T) b rs" and x: "x \<in> set (tok_ctxs t)" "br_ctxs b x = Some xctx"
    and same: "open_req b t = (if rc_replied xctx then {#} else case rc_request xctx of None \<Rightarrow> {#} | Some q \<Rightarrow> {#r_id q#})"
  shows "bridge_inv T (ReplyGuarded x r b) rs"
proof -
  obtain won b1 where m: "TryMarkReplied x b = (won, b1)" by (cases "TryMarkReplied x b") auto
  note m' = mark_replied [OF m x(2)]
  show ?thesis
  proof (rule inv_consume [OF inv])
    show "mset (map fst (br_sent (ReplyGuarded x r b))) = mset (map fst (br_sent b)) + open_req b t"
      using m m' same sent_reply [of b1 x "xctx\<lparr>rc_replied := True\<rparr>" r]
      by (auto simp: ReplyGuarded_def simp del: mset_map split: option.split)
  qed (use m m' x in \<open>auto simp: ReplyGuarded_def\<close>)
qed

lemma inv_guarded:
  assumes "bridge_inv (add_mset (j, c, k) T) b rs"
  shows "bridge_inv T (ReplyGuarded c r b) rs"
proof -
  obtain ctx where "br_ctxs b c = Some ctx"
    using assms by (auto simp: bridge_inv_def tokens_def tok_ok_def)
  then show ?thesis by (intro inv_guarded_at [OF assms]) (auto simp: tok_ctxs_mem open_req_def)
qed

lemma inv_guarded_outer:
  assumes "bridge_inv (add_mset (j, c, IReaddirFallback n) T) b rs"
  shows "bridge_inv T (ReplyGuarded n r b) rs"
proof -
  obtain ctx octx where "br_ctxs b c = Some ctx" "\<not> rc_replied ctx" "br_ctxs b n = Some octx"
    "\<not> rc_replied octx" "rc_request octx = rc_request ctx"
    using assms by (auto simp: bridge_inv_def tokens_def tok_ok_def)
  then show ?thesis by (intro inv_guarded_at [OF assms, of n octx]) (auto simp: open_req_def)
qed

lemma inv_direct:
  assumes inv: "bridge_inv (add_mset (j, c, k) T) b rs" and k: "k \<noteq> IRelease"
  shows "bridge_inv T (fuse_reply c r b) rs"
proof -
  obtain ctx where "br_ctxs b c = Some ctx" "\<not> rc_replied ctx"
    using inv k by (auto simp: bridge_inv_def tokens_def tok_ok_def)
  then show ?thesis
    by (intro inv_consume [OF inv]) (auto simp: sent_reply open_req_def simp del: map_append split: option.split)
qed

lemma inv_data:
  assumes inv: "bridge_inv (add_mset (j, c, k) T) b rs" and k: "k \<noteq> IRelease"
  shows "bridge_inv T (perform 0 (AData c bv) b) rs"
proof -
  obtain ctx where ctx: "br_ctxs b c = Some ctx" "\<not> rc_replied ctx"
    using inv k by (auto simp: bridge_inv_def tokens_def tok_ok_def)
  obtain won b1 where m: "TryMarkReplied c (fuse_reply c (ReplyData bv) b) = (won, b1)"
    by (cases "TryMarkReplied c (fuse_reply c (ReplyData bv) b)") auto
  note m' = mark_replied [OF m, of ctx]
  show ?thesis
    using ctx m m' by (intro inv_consume [OF inv])
      (auto simp: sent_reply open_req_def tok_ctxs_mem simp del: map_append split: option.split)
qed

section \<open>Results answer once\<close>

definition act_answers :: "nat \<Rightarrow> invoker \<Rightarrow> act \<Rightarrow> bool" where
  "act_answers c k a \<longleftrightarrow>
     (case a of
        AReply x _ \<Rightarrow> x = c \<or> k = IReaddirFallback x
      | ADirect x _ \<Rightarrow> x = c \<and> k \<noteq> IRelease
      | AData x _ \<Rightarrow> x = c \<and> k \<noteq> IRelease
      | ARelease _ \<Rightarrow> False)"

fun is_release :: "act \<Rightarrow> bool" where
  "is_release (ARelease _) = True"
| "is_release _ = False"

definition one_answer :: "nat \<Rightarrow> invoker \<Rightarrow> act list \<Rightarrow> bool" where
  "one_answer c k acts \<longleftrightarrow>
     (\<exists>a. filter (\<lambda>x. \<not> is_release x) acts = [a] \<and> act_answers c k a)"

lemma one_reply:
  "one_answer c k [AReply c r]"
  "one_answer c (IReaddirFallback n) [AReply n r]"
  "k \<noteq> IRelease \<Longrightarrow> one_answer c k [ADirect c r]"
  "k \<noteq> IRelease \<Longrightarrow> one_answer c k [AData c bv]"
  "one_answer c k (AReply c r # release_acts ph)"
  "k \<noteq> IRelease \<Longrightarrow> one_answer c k (ADirect c r # release_acts ph)"
  "one_answer c k (release_acts ph @ [AReply c r])"
  by (auto simp: one_answer_def act_answers_def release_acts_def split: option.split)

lemma xattr_answers: "k \<noteq> IRelease \<Longrightarrow> one_answer c k (xattr_acts c sz bs)"
  by (simp add: xattr_acts_def one_reply)

lemma read_buf_answers: "one_answer c IReadBuf (read_buf_acts c v)"
  by (cases "ConvertJsFuseBufvec v") (simp_all add: read_buf_acts_def one_reply)

lemma bmap_answers: "one_answer c IBmap (bmap_acts c v)"
  by (simp add: bmap_acts_def one_reply)

lemma ioctl_answers: "one_answer c (IIoctl n) (ioctl_acts c n v)"
  by (cases "Get v ''result''") (simp_all add: ioctl_acts_def one_reply)

lemma poll_answers: "one_answer c (IPoll ph ev) (poll_acts c ph v)"
  by (cases "Get v ''revents''") (simp_all add: poll_acts_def one_reply)

lemma getxattr_answers: "one_answer c IGetxattr (getxattr_acts c n v)"
  by (cases v) (simp_all add: getxattr_acts_def one_reply xattr_answers)

lemma listxattr_answers: "one_answer c IListxattr (listxattr_acts c n v)"
  by (cases v) (simp_all add: listxattr_acts_def one_reply xattr_answers)

lemma readdirplus_answers: "one_answer c IReaddirplus (readdirplus_acts c ctx v)"
  by (cases "Get v ''entries''") (simp_all add: readdirplus_acts_def one_reply)

lemma fallback_answers: "one_answer c (IReaddirFallback out) (fallback_acts c out ctx v)"
proof -
  have "one_answer c (IReaddirFallback out) (case w of
          JArray es \<Rightarrow> [AReply out (f es)] | _ \<Rightarrow> [AReply c r])" for w f r
    by (cases w) (simp_all add: one_reply)
  then show ?thesis by (cases v) (simp_all add: fallback_acts_def one_reply)
qed

lemmas special_answers = read_buf_answers bmap_answers ioctl_answers poll_answers getxattr_answers listxattr_answers
  readdirplus_answers fallback_answers

lemma resolve_answers: "one_answer c k (on_resolve c ctx k v)"
  by (cases k) (simp_all add: one_reply special_answers)

lemma reject_answers: "one_answer c k (on_reject c k v)"
  using one_reply(1) one_reply(7) by (cases k) (simp_all add: on_reject_def)

lemma inv_release: "is_release a \<Longrightarrow> bridge_inv T b rs \<Longrightarrow> bridge_inv T (perform rc a b) rs"
  by (cases a) (auto simp: ReleasePollHandle_def fuse_pollhandle_destroy_def Let_def tokens_def elim: inv_frame)

lemma inv_releases:
  "filter (\<lambda>x. \<not> is_release x) acts = [] \<Longrightarrow> bridge_inv T b rs \<Longrightarrow> bridge_inv T (perform_all rc acts b) rs"
  by (induction acts arbitrary: b) (auto simp: perform_all_def inv_release split: if_splits)

lemma inv_answer:
  assumes "bridge_inv (add_mset (j, c, k) T) b rs" "act_answers c k a"
  shows "bridge_inv T (perform 0 a b) rs"
proof (cases a)
  case (AReply x r)
  with assms show ?thesis using inv_guarded inv_guarded_outer by (auto simp: act_answers_def)
next
  case (ADirect x r)
  with assms show ?thesis using inv_direct by (auto simp: act_answers_def)
next
  case (AData x bv)
  with assms show ?thesis using inv_data by (auto simp: act_answers_def)
next
  case (ARelease h)
  with assms show ?thesis by (simp add: act_answers_def)
qed

lemma inv_acts:
  assumes "bridge_inv (add_mset (j, c, k) T) b rs" "one_answer c k acts"
  shows "bridge_inv T (perform_all 0 acts b) rs"
  using assms
proof (induction acts arbitrary: b)
  case Nil
  then show ?case by (simp add: one_answer_def)
next
  case (Cons a acts)
  show ?case
  proof (cases "is_release a")
    case True
    with Cons show ?thesis using inv_release by (auto simp: perform_all_def one_answer_def)
  next
    case False
    then have "act_answers c k a" "filter (\<lambda>x. \<not> is_release x) acts = []"
      using Cons.prems(2) by (auto simp: one_answer_def)
    then show ?thesis
      using inv_releases inv_answer [OF Cons.prems(1)] by (auto simp: perform_all_def)
  qed
qed

section \<open>Steps keep the invariant\<close>

lemma mset_remove_nth: "i < length xs \<Longrightarrow> mset xs = add_mset (xs ! i) (mset (remove_nth i xs))"
  by (metis add_mset_add_single id_take_nth_drop mset.simps(2) mset_append remove_nth_def union_mset_add_mset_right)

lemma inv_take_job:
  assumes "bridge_inv {#} b rs" "i < length (br_jobs b)" "br_jobs b ! i = t"
  shows "bridge_inv {#t#} (b\<lparr>br_jobs := remove_nth i (br_jobs b)\<rparr>) rs"
  using assms mset_remove_nth [OF assms(2)] by (auto simp: tokens_def elim!: inv_frame)

lemma inv_take_waiting:
  assumes "bridge_inv {#} b rs" "i < length (br_waiting b)" "br_waiting b ! i = t"
  shows "bridge_inv {#t#} (b\<lparr>br_waiting := remove_nth i (br_waiting b)\<rparr>) rs"
  using assms mset_remove_nth [OF assms(2)] by (auto simp: tokens_def elim!: inv_frame)

lemma inv_job:
  assumes "bridge_inv (add_mset (j, c, k) T) b rs"
  shows "bridge_inv T (b\<lparr>br_jobs := br_jobs b @ [(j, c, k)]\<rparr>) rs"
  using assms by (auto simp: tokens_def elim!: inv_frame)

lemma inv_context_of:
  assumes "bridge_inv (add_mset (j, c, k) T) b rs"
  obtains ctx where "br_ctxs b c = Some ctx"
  using assms by (auto simp: bridge_inv_def tokens_def tok_ok_def)

lemma bridge_process:
  assumes "\<And>j. bridge_inv (add_mset (j, c, k) T) b rs"
  shows "bridge_inv T (ProcessRequest de c k b) rs"
proof -
  obtain ctx where "br_ctxs b c = Some ctx" using inv_context_of [OF assms] by blast
  then show ?thesis
    using inv_guarded [OF assms] inv_job [OF assms] by (simp add: ProcessRequest_def ReplyError_def ReplyOk_def)
qed

lemma inv_failed:
  assumes "bridge_inv (add_mset (j, c, k) T) b rs"
  shows "bridge_inv T (dispatch_error c code b) rs"
proof -
  obtain ctx where ctx: "br_ctxs b c = Some ctx" using inv_context_of [OF assms] by blast
  show ?thesis
  proof (cases "rc_replied ctx")
    case True
    have "bridge_inv T b rs" using ctx True by (intro inv_consume [OF assms]) (auto simp: open_req_def)
    then show ?thesis using ctx True by (simp add: dispatch_error_def)
  next
    case False
    then show ?thesis using ctx inv_guarded [OF assms] by (simp add: dispatch_error_def ReplyError_def)
  qed
qed

text \<open>The requests of contexts.\<close>

definition ctx_req :: "FuseRequestContext \<Rightarrow> nat multiset" where
  "ctx_req ctx = (case rc_request ctx of None \<Rightarrow> {#} | Some q \<Rightarrow> {#r_id q#})"

lemma inv_opened:
  assumes inv: "bridge_inv {#} b rs" and cr: "CreateContext ctx b = (c, b1)" and new: "\<not> rc_replied ctx"
    and k: "\<And>n. k \<noteq> IReaddirFallback n"
  shows "bridge_inv {#(j, c, k)#} b1 (rs + ctx_req ctx)"
proof -
  note c = inv_context [OF inv cr]
  have "bridge_inv (add_mset (j, c, k) {#}) b1 (rs + open_req b1 (j, c, k))"
  proof (rule inv_token [OF c(1)])
    show "tok_ok b1 (j, c, k)" using c new k by (simp add: tok_ok_def)
    show "distinct (tok_ctxs (j, c, k))" using k by (cases k) auto
    fix t' x assume "t' \<in># tokens {#} b1" "x \<in> set (tok_ctxs (j, c, k))"
    moreover have "tokens {#} b1 = tokens {#} b" using cr by (auto simp: CreateContext_def tokens_def)
    ultimately show "x \<notin> set (tok_ctxs t')"
      using tok_ctxs_known [OF inv, of t' x] c(2) k by (auto simp: tok_ctxs_mem)
  qed
  then show ?thesis using c new by (simp add: open_req_def ctx_req_def)
qed

lemma inv_submit:
  assumes "bridge_inv {#} b rs" "\<not> rc_replied ctx" "\<And>n. k \<noteq> IReaddirFallback n"
  shows "bridge_inv {#} (submit de ctx k b) (rs + ctx_req ctx)"
  using bridge_process [OF inv_opened [OF assms(1) _ assms(2,3)]] by (auto simp: submit_def split: prod.split)

lemma inv_refuse:
  assumes "bridge_inv {#} b rs" "\<not> rc_replied ctx"
  shows "bridge_inv {#} (refuse ctx r b) (rs + ctx_req ctx)"
  using inv_guarded [OF inv_opened [OF assms(1) _ assms(2), of _ _ IUnlink]] by (auto simp: refuse_def split: prod.split)

lemma inv_send: "bridge_inv {#} b rs \<Longrightarrow> bridge_inv {#} (send_now req r b) (add_mset (r_id req) rs)"
  by (auto simp: bridge_inv_def send_now_def tokens_def open_req_def tok_ok_def)

text \<open>The substitute for \<open>readdirplus\<close>: the second context is answered through the first.\<close>

lemma inv_fallback:
  assumes inv: "bridge_inv {#} b rs" and cr: "CreateContext octx b = (n, b1)" "\<not> rc_replied octx" "\<not> rc_replied ctx"
    and req: "rc_request octx = rc_request ctx"
  shows "bridge_inv {#} (submit de ctx (IReaddirFallback n) b1) (rs + ctx_req ctx)"
proof -
  obtain c b2 where cr2: "CreateContext ctx b1 = (c, b2)" by (cases "CreateContext ctx b1") auto
  note n = inv_context [OF inv cr(1)]
  note c = inv_context [OF n(1) cr2]
  have "bridge_inv (add_mset (j, c, IReaddirFallback n) {#}) b2 (rs + open_req b2 (j, c, IReaddirFallback n))" for j
  proof (rule inv_token [OF c(1)])
    show "tok_ok b2 (j, c, IReaddirFallback n)" using n c cr req by (simp add: tok_ok_def)
    show "distinct (tok_ctxs (j, c, IReaddirFallback n))" using n c by simp
    fix t' x assume "t' \<in># tokens {#} b2" "x \<in> set (tok_ctxs (j, c, IReaddirFallback n))"
    moreover have "tokens {#} b2 = tokens {#} b" using cr(1) cr2 by (auto simp: CreateContext_def tokens_def)
    ultimately show "x \<notin> set (tok_ctxs t')"
      using tok_ctxs_known [OF inv, of t' x] n(2,4) c(2) by auto
  qed
  then have "bridge_inv {#(j, c, IReaddirFallback n)#} b2 (rs + ctx_req ctx)" for j
    using c cr by (simp add: open_req_def ctx_req_def)
  then show ?thesis using bridge_process cr2 by (simp add: submit_def)
qed

text \<open>\<open>release\<close> answers and stays as a token that is already answered.\<close>

lemma guarded_frame:
  "br_jobs (ReplyGuarded c r b) = br_jobs b" "br_waiting (ReplyGuarded c r b) = br_waiting b"
  "ReplyGuarded c r (b\<lparr>br_waiting := w\<rparr>) = (ReplyGuarded c r b)\<lparr>br_waiting := w\<rparr>"
  by (auto simp: ReplyGuarded_def TryMarkReplied_def fuse_reply_def split: option.split)

lemma guarded_marks:
  "br_ctxs b c = Some ctx \<Longrightarrow> br_ctxs (ReplyGuarded c r b) c = Some (ctx\<lparr>rc_replied := True\<rparr>)"
  by (simp add: ReplyGuarded_def TryMarkReplied_def)

lemma inv_release_now:
  assumes inv: "bridge_inv {#(p, c, IRelease)#} b rs"
  shows "bridge_inv {#} (ReplyOk c (b\<lparr>br_waiting := br_waiting b @ [(p, c, IRelease)]\<rparr>)) rs"
proof -
  let ?t = "(p, c, IRelease)" and ?b = "ReplyGuarded c (ReplyErr 0) b"
  obtain ctx where ctx: "br_ctxs b c = Some ctx" using inv_context_of [OF inv] by blast
  have toks: "tokens {#} ?b = tokens {#} b" "tokens {#?t#} b = add_mset ?t (tokens {#} b)"
    by (simp_all add: tokens_def guarded_frame)
  have "bridge_inv (add_mset ?t {#}) ?b (rs + open_req ?b ?t)"
  proof (rule inv_token [OF inv_guarded [OF inv]])
    show "tok_ok ?b ?t" using guarded_marks [OF ctx] by (simp add: tok_ok_def)
    fix t' x assume "t' \<in># tokens {#} ?b" "x \<in> set (tok_ctxs ?t)"
    then show "x \<notin> set (tok_ctxs t')"
      using owners_apart [of ?t "tokens {#} b" t' x] inv toks by (auto simp: bridge_inv_def)
  qed simp
  then have "bridge_inv {#?t#} ?b rs" using guarded_marks [OF ctx] by (simp add: open_req_def)
  then show ?thesis by (auto simp: ReplyOk_def guarded_frame tokens_def elim!: inv_frame)
qed

lemma inv_resolve:
  assumes "\<And>j. bridge_inv {#(j, c, k)#} b rs"
  shows "bridge_inv {#} (ResolvePromiseOrValue 0 c ctx k v b) rs"
proof (cases "\<exists>p. v = JPromise p")
  case False
  then have "ResolvePromiseOrValue 0 c ctx k v b = perform_all 0 (on_resolve c ctx k v) b"
    by (cases v) (auto simp: ResolvePromiseOrValue_def)
  then show ?thesis using inv_acts [OF assms resolve_answers] by simp
next
  case True
  then obtain p where p: "v = JPromise p" by blast
  have "bridge_inv {#} (b\<lparr>br_waiting := br_waiting b @ [(p, c, k)]\<rparr>) rs"
    using assms [of p] by (auto simp: tokens_def elim!: inv_frame)
  then show ?thesis using p inv_release_now assms [of p] by (auto simp: ResolvePromiseOrValue_def Let_def)
qed

lemma inv_number: "bridge_inv (add_mset (j, c, k) T) b rs \<Longrightarrow> bridge_inv (add_mset (i, c, k) T) b rs"
proof -
  have "tok_ctxs (i, c, k) = tok_ctxs (j, c, k)" by (cases k) auto
  moreover have "open_req b (i, c, k) = open_req b (j, c, k)" "tok_ok b (i, c, k) = tok_ok b (j, c, k)"
    by (simp_all add: open_req_def tok_ok_def)
  moreover assume "bridge_inv (add_mset (j, c, k) T) b rs"
  ultimately show ?thesis by (simp add: bridge_inv_def tokens_def owners_once_def)
qed

lemma inv_job_runs:
  assumes inv: "bridge_inv {#} b rs" and i: "i < length (br_jobs b)"
  shows "bridge_inv {#} (job_runs 0 is_function out i b) rs"
proof -
  obtain j c k where t: "br_jobs b ! i = (j, c, k)" by (cases "br_jobs b ! i") auto
  let ?b = "b\<lparr>br_jobs := remove_nth i (br_jobs b)\<rparr>"
  note held = inv_take_job [OF inv i t]
  obtain ctx where ctx: "br_ctxs ?b c = Some ctx" using inv_context_of [OF held] by blast
  have "bridge_inv {#(n, c, k)#} (?b\<lparr>br_calls := br_calls ?b @ [(rc_op ctx, invoke_args ctx k)]\<rparr>) rs" for n
    using inv_number [OF held, of n] by (auto simp: tokens_def elim!: inv_frame)
  from inv_resolve [OF this] show ?thesis
    using inv_guarded [OF held] ctx by (simp add: job_runs_def t run_invoker_def ReplyError_def)
qed

lemma inv_job_fails:
  assumes inv: "bridge_inv {#} b rs" and i: "i < length (br_jobs b)"
  shows "bridge_inv {#} (job_fails code i b) rs"
proof -
  obtain j c k where t: "br_jobs b ! i = (j, c, k)" by (cases "br_jobs b ! i") auto
  show ?thesis using inv_failed [OF inv_take_job [OF inv i t]] by (simp add: job_fails_def t)
qed

lemma inv_settles:
  assumes inv: "bridge_inv {#} b rs" and i: "i < length (br_waiting b)"
  shows "bridge_inv {#} (promise_settles 0 fulfilled v i b) rs"
proof -
  obtain j c k where t: "br_waiting b ! i = (j, c, k)" by (cases "br_waiting b ! i") auto
  note held = inv_take_waiting [OF inv i t]
  obtain ctx where ctx: "br_ctxs b c = Some ctx" using inv_context_of [OF held] by auto
  show ?thesis
    using inv_acts [OF held resolve_answers] inv_acts [OF held reject_answers] ctx
    by (simp add: promise_settles_def t)
qed

section \<open>Requests\<close>

lemma new_context_fields [simp]: "rc_request (new_context op q) = q" "\<not> rc_replied (new_context op q)"
  by (simp_all add: new_context_def)

lemma ctx_req_request: "rc_request ctx = Some req \<Longrightarrow> rs + ctx_req ctx = add_mset (r_id req) rs"
  by (simp add: ctx_req_def)

lemma request_submit:
  assumes "bridge_inv {#} b rs" "\<not> rc_replied ctx" "rc_request ctx = Some req" "\<And>n. k \<noteq> IReaddirFallback n"
  shows "bridge_inv {#} (submit de ctx k b) (add_mset (r_id req) rs)"
  using inv_submit [OF assms(1,2,4)] ctx_req_request [OF assms(3)] by simp

lemma request_refuse:
  assumes "bridge_inv {#} b rs" "\<not> rc_replied ctx" "rc_request ctx = Some req"
  shows "bridge_inv {#} (refuse ctx r b) (add_mset (r_id req) rs)"
  using inv_refuse [OF assms(1,2)] ctx_req_request [OF assms(3)] by simp

lemma request_callback:
  assumes "bridge_inv {#} b rs" "bridge_inv {#} (handle b) (add_mset (r_id req) rs)"
  shows "bridge_inv {#} (callback has_bridge req handle b) (add_mset (r_id req) rs)"
  using assms inv_send by (simp add: callback_def)

lemma request_fallback:
  assumes "bridge_inv {#} b rs" "\<not> rc_replied octx" "\<not> rc_replied ctx" "rc_request octx = Some req" "rc_request ctx = Some req"
  shows "bridge_inv {#} (case CreateContext octx b of (n, b1) \<Rightarrow> submit de ctx (IReaddirFallback n) b1) (add_mset (r_id req) rs)"
  using inv_fallback [OF assms(1) _ assms(2,3), of _ _ de] ctx_req_request [OF assms(5)] assms(4,5)
  by (auto split: prod.split)

lemmas handler_defs = HandleUnlink_def HandleRmdir_def HandleFlush_def HandleRelease_def HandleFsync_def HandleReleasedir_def
  HandleFsyncdir_def HandleAccess_def HandleRename_def HandleLink_def HandleLookup_def HandleGetattr_def HandleChmod_def
  HandleChown_def HandleSetattr_def HandleReadlink_def HandleMknod_def HandleMkdir_def HandleSymlink_def HandleOpen_def
  HandleOpendir_def DispatchReadBuf_def HandleRead_def HandleWrite_def HandleReaddir_def HandleReaddirplus_def HandleStatfs_def
  HandleCreate_def HandleCopyFileRange_def HandleGetlk_def HandleSetlk_def HandleBmap_def HandleIoctl_def HandlePoll_def
  HandleSetxattr_def HandleGetxattr_def HandleListxattr_def HandleRemovexattr_def HandleWriteBuf_def

lemmas callback_defs = ReaddirplusCallback_def BmapCallback_def IoctlCallback_def PollCallback_def LookupCallback_def
  GetattrCallback_def SetattrCallback_def ReadlinkCallback_def MknodCallback_def MkdirCallback_def SymlinkCallback_def
  UnlinkCallback_def RmdirCallback_def RenameCallback_def LinkCallback_def OpenCallback_def ReadCallback_def WriteCallback_def
  FlushCallback_def ReleaseCallback_def FsyncCallback_def OpendirCallback_def ReaddirCallback_def ReleasedirCallback_def
  FsyncdirCallback_def StatfsCallback_def AccessCallback_def CreateCallback_def CopyFileRangeCallback_def WriteBufCallback_def
  SetxattrCallback_def GetxattrCallback_def ListxattrCallback_def RemovexattrCallback_def GetlkCallback_def SetlkCallback_def

lemma inv_register: "bridge_inv T b rs \<Longrightarrow> bridge_inv T (RegisterPollHandle h b) rs"
  by (auto simp: RegisterPollHandle_def tokens_def elim!: inv_frame)

lemma inv_request:
  assumes inv: "bridge_inv {#} b rs"
  shows "bridge_inv {#} (fuse_ops has_bridge de req call b) (add_mset (r_id req) rs)"
proof (cases call)
  case (CPoll ino fi ph)
  then show ?thesis
    using inv by (cases ph) (auto simp: PollCallback_def HandlePoll_def Let_def inv_register intro!: request_callback request_submit)
next
  case (CForget ino n)
  then show ?thesis using inv by (simp add: ForgetCallback_def HandleForget_def inv_send)
next
  case (CForgetMulti fs)
  then show ?thesis using inv by (simp add: ForgetMultiCallback_def HandleForgetMulti_def inv_send)
next
  case (CReaddirplus ino sz off fi)
  then show ?thesis
    using inv by (auto simp: ReaddirplusCallback_def HandleReaddirplus_def Let_def
        intro!: request_callback request_submit request_refuse request_fallback)
next
  case (CSetattr ino attr to_set fi)
  then show ?thesis
    using inv by (cases attr) (auto simp: SetattrCallback_def HandleSetattr_def HandleChown_def HandleChmod_def Let_def
        intro!: request_callback request_submit request_refuse)
next
  case (CWriteBuf m pread ino bufv off fi)
  then show ?thesis
    using inv by (cases "copy_bufs m (bv_bufs bufv)"; cases "linear_bufs m pread (bv_bufs bufv)")
      (auto simp: WriteBufCallback_def HandleWriteBuf_def Let_def intro!: request_callback request_submit request_refuse)
qed (use inv in \<open>auto simp: callback_defs handler_defs Let_def intro!: request_callback request_submit request_refuse\<close>)

lemma bridge_inv_step: "bridge_step s s' \<Longrightarrow> bridge_inv {#} (fst s) (mset (snd s)) \<Longrightarrow> bridge_inv {#} (fst s') (mset (snd s'))"
proof (induction rule: bridge_step.induct)
  case (init b rs has_bridge de conn)
  then show ?case using inv_submit [of b _ "new_context INIT None"]
    by (simp add: InitCallback_def HandleInit_def Let_def ctx_req_def)
next
  case (destroy b rs has_bridge de)
  then show ?case
    by (auto simp: DestroyCallback_def HandleDestroy_def HasOperationHandler_def tokens_def elim!: inv_frame)
qed (auto simp: inv_request inv_job_runs inv_job_fails inv_settles RegisterOperationHandler_def RemoveOperationHandler_def
    NotifyPollHandle_def DestroyPollHandle_def CleanupPollHandles_def fuse_pollhandle_destroy_def Let_def tokens_def
    elim!: inv_frame)

end
