(* ===== verification/Bridge_Properties.thy ===== *)
theory Bridge_Properties
  imports Bridge_Once Dirent_Records Bufvec_Properties
begin

text \<open>
  The properties of the bridge between libfuse and JavaScript: one answer for every request,
  errors of handlers as errno values, the conversions of structures and buffer vectors,
  and directory listings.
\<close>

section \<open>One answer for every request\<close>

lemma inv_reachable: "bridge_step\<^sup>*\<^sup>* s s' \<Longrightarrow> bridge_inv {#} (fst s) (mset (snd s)) \<Longrightarrow> bridge_inv {#} (fst s') (mset (snd s'))"
  by (induction rule: rtranclp_induct) (auto simp: bridge_inv_step)


definition demo_bridge_request :: request where
  "demo_bridge_request = \<lparr>r_id = 7, r_uid = 0, r_gid = 0, r_pid = 1, r_umask = 0\<rparr>"

definition demo_dispatch :: dispatch_env where
  "demo_dispatch = \<lparr>de_dispatcher = True, de_env = True, de_init = True, de_id = 1\<rparr>"

definition demo_received :: bridge where
  "demo_received = fuse_ops True demo_dispatch demo_bridge_request (CLookup 1 ''a'')
     (snd (RegisterOperationHandler True LOOKUP (new_bridge 0)))"

definition demo_answered :: bridge where
  "demo_answered = promise_settles 0 False (JObject [(''code'', JString ''ENOENT'')]) 0
     (job_runs 0 True (Returned (JPromise 3)) 0 demo_received)"

lemma demo_bridge_run: "bridge_step\<^sup>*\<^sup>* (new_bridge 0, []) (demo_answered, [7])"
proof -
  have reg: "bridge_step (new_bridge 0, []) (snd (RegisterOperationHandler True LOOKUP (new_bridge 0)), [])"
    by (rule bridge_step.register)
  have req: "bridge_step (snd (RegisterOperationHandler True LOOKUP (new_bridge 0)), []) (demo_received, [7])"
    using bridge_step.request [of _ "[]" True demo_dispatch demo_bridge_request "CLookup 1 ''a''"]
    by (simp add: demo_received_def demo_bridge_request_def)
  have run: "bridge_step (demo_received, [7]) (job_runs 0 True (Returned (JPromise 3)) 0 demo_received, [7])"
    by (rule bridge_step.job_runs) code_simp
  have set: "bridge_step (job_runs 0 True (Returned (JPromise 3)) 0 demo_received, [7]) (demo_answered, [7])"
    unfolding demo_answered_def by (rule bridge_step.settles) code_simp
  show ?thesis using reg req run set by (meson converse_rtranclp_into_rtranclp rtranclp.rtrancl_refl)
qed


section \<open>Errors of handlers\<close>

lemma error_reply_positive: "e \<noteq> 0 \<Longrightarrow> error_reply e = ReplyErr \<bar>e\<bar>"
  by (simp add: error_reply_def)

lemma errno_names:
  "list_all (\<lambda>p. 0 < fst p \<and> fst p < 2 ^ 31 \<and> map_of errno_to_string_map (fst p) = Some (snd p) \<and>
     string_to_errno (snd p) = fst p) errno_to_string_map"
  by code_simp

lemma valid_errno:
  assumes "is_valid_errno e"
  shows "0 < e" "e < 2 ^ 31" "string_to_errno (errno_to_string e) = e"
proof -
  obtain s where s: "map_of errno_to_string_map e = Some s" using assms by (auto simp: is_valid_errno_def)
  have "0 < e \<and> e < 2 ^ 31 \<and> map_of errno_to_string_map e = Some s \<and> string_to_errno s = e"
    using errno_names map_of_SomeD [OF s] by (auto simp: list_all_iff)
  then show "0 < e" "e < 2 ^ 31" "string_to_errno (errno_to_string e) = e" by (simp_all add: errno_to_string_def)
qed



section \<open>Structures\<close>

lemma number_or_sint [simp]: "number_or d Int32Value (js_num (sint (w :: u32))) = sint w"
  using sint_ge [of w] sint_lt [of w] Int32Value_num [of "sint w"]
  by (simp add: number_or_def js_num_def del: of_int_sint)

lemma number_or_uint [simp]: "number_or d Uint32Value (js_num (uint (w :: 'a::len word))) = word_of_int (uint w)"
  by (simp add: number_or_def js_num_def del: of_int_uint)

lemma number_or_int32: "- (2 ^ 31) \<le> i \<Longrightarrow> i < 2 ^ 31 \<Longrightarrow> number_or d Int32Value (js_num i) = i"
  by (simp add: number_or_def js_num_def Int32Value_num)

lemma read_u64_CreateBig [simp]: "read_u64_bigint_or_number (CreateBigUint64 w) = Some w"
  by (simp add: read_u64_bigint_or_number_def CreateBigUint64_def)

lemma SafeGetBigIntU64_Create [simp]: "SafeGetBigIntU64 (CreateBigUint64 w) = Some w"
  by (simp add: SafeGetBigIntU64_def CreateBigUint64_def)

lemma int64_Create: "uint w < 2 ^ 63 \<Longrightarrow> int64_or_zero (CreateBigUint64 (w :: u64)) = uint w"
  by (simp add: int64_or_zero_def SafeGetBigInt64_def CreateBigUint64_def big_i64_def order_trans [OF _ uint_ge_0])

lemma file_info_back:
  "ObjectToFileInfo (FileInfoToObject fi) =
     Some (fi\<lparr>fi_noflush := False, fi_parallel_direct_writes := False, fi_backing_id := 0\<rparr>)"
  by (cases fi) (simp add: ObjectToFileInfo_def FileInfoToObject_def Get_def zero_fi_def bool_or_false_def)

text \<open>Times of day that a 64-bit count of nanoseconds holds, up to the year 2554.\<close>

definition seconds_ok :: "int \<Rightarrow> bool" where
  "seconds_ok s \<longleftrightarrow> 0 \<le> s \<and> s < 2 ^ 64 div 1000000000"

lemma time_back:
  assumes "seconds_ok s"
  shows "AssignTimespecField (TimespecToNsBigInt (s, 0)) = (s, 0)"
proof -
  have "uint (word_of_int s * 1000000000 :: u64) = s * 1000000000"
    using assms by (simp add: seconds_ok_def uint_word_ariths uint_word_of_int)
  then show ?thesis by (simp add: AssignTimespecField_def NsBigIntToTimespec_def TimespecToNsBigInt_def)
qed

definition stat_ok :: "stat \<Rightarrow> bool" where
  "stat_ok st \<longleftrightarrow> st_nlink st < 2 ^ 32 \<and> 0 \<le> st_size st \<and> st_size st < 2 ^ 63 \<and> st_blksize st < 2 ^ 31 \<and>
     st_blocks st < 2 ^ 63 \<and> seconds_ok (fst (st_atim st)) \<and> seconds_ok (fst (st_mtim st)) \<and> seconds_ok (fst (st_ctim st))"

lemma ucast_back:
  assumes "(n :: u64) < 2 ^ 32"
  shows "ucast (ucast n :: u32) = n"
proof -
  have "uint n < 2 ^ 32" using assms by (simp add: word_less_def)
  then have "take_bit 32 (uint n) = uint n" by (simp add: take_bit_int_eq_self)
  then have "uint (ucast (ucast n :: u32) :: u64) = uint n" by transfer simp
  then show ?thesis by (simp add: word_uint_eq_iff)
qed

lemma stat_back:
  assumes "stat_ok st"
  shows "ObjectToStat (StatToObject st) =
    Some (st\<lparr>st_atim := (fst (st_atim st), 0), st_mtim := (fst (st_mtim st), 0), st_ctim := (fst (st_ctim st), 0)\<rparr>)"
proof -
  have nlink: "ucast (word_of_int (uint (st_nlink st)) :: u32) = st_nlink st"
    using assms ucast_back by (simp add: stat_ok_def)
  have size: "int64_or_zero (CreateBigUint64 (word_of_int (st_size st))) = st_size st"
    using assms int64_Create [of "word_of_int (st_size st)"] by (simp add: stat_ok_def uint_word_of_int)
  have blocks: "int64_or_zero (CreateBigUint64 (st_blocks st)) = uint (st_blocks st)"
    using assms by (intro int64_Create) (simp add: stat_ok_def word_less_def)
  have blk: "number_or 0 Int32Value (js_num (uint (st_blksize st))) = uint (st_blksize st)"
    using assms by (intro number_or_int32) (simp_all add: stat_ok_def word_less_def order_trans [OF _ uint_ge_0])
  show ?thesis
    using assms nlink size blocks blk time_back
    by (cases st) (simp add: stat_ok_def ObjectToStat_def StatToObject_def Get_def)
qed



section \<open>Buffer vectors\<close>

text \<open>The bytes a vector still covers, in the memory of the process or in the copies of a holder.\<close>

definition vec_data :: "memory \<Rightarrow> fuse_bufvec \<Rightarrow> byte list" where
  "vec_data m v = map m (addr_list v)"

definition holder_data :: "BufvecHolder \<Rightarrow> byte list" where
  "holder_data h = vec_data (\<lambda>a. bh_mem h ! a) (bh_bufvec h)"

text \<open>A vector of memory buffers as libfuse gives it to \<open>write_buf\<close>.\<close>

definition vec_ok :: "fuse_bufvec \<Rightarrow> bool" where
  "vec_ok v \<longleftrightarrow> mem_only v \<and> bv_idx v < length (bv_bufs v) \<and> bv_off v \<le> b_size (bv_bufs v ! bv_idx v) \<and>
     length (bv_bufs v) < 2 ^ 64 \<and>
     list_all (\<lambda>x. b_size x < 2 ^ 64 \<and> (b_mem x = 0 \<longrightarrow> b_size x = 0)) (bv_bufs v)"

lemma copy_bufs_mem:
  assumes "list_all (\<lambda>x. b_mem x = 0 \<longrightarrow> b_size x = 0) xs"
  shows "copy_bufs m xs = Some (map (\<lambda>x. (buf_flags x, bytes_at m (b_mem x) (b_size x))) xs)"
  using assms by (induction xs) (auto simp: mem_bytes_def)

lemma TryGetSizeT_size [simp]: "n < 2 ^ 64 \<Longrightarrow> TryGetSizeT (js_size n) = Some n"
  by (simp add: TryGetSizeT_def js_size_def js_num_def)

definition js_buf :: "u32 \<times> byte list \<Rightarrow> jsval" where
  "js_buf p = JObject [(''size'', js_size (length (snd p))), (''flags'', js_u32 (fst p)), (''mem'', JArrayBuffer (snd p)),
     (''memSize'', js_size (length (snd p)))]"

lemma bufvec_object_bufs:
  "bufvec_object idx off bufs = JObject [(''count'', js_size (length bufs)), (''idx'', js_size idx), (''off'', js_size off),
     (''buf'', JArray (map js_buf bufs))]"
  by (simp add: bufvec_object_def js_buf_def case_prod_unfold)

text \<open>The native buffer for one copy that lies at the offset \<open>addr\<close>.\<close>

definition native_buf :: "nat \<Rightarrow> u32 \<times> byte list \<Rightarrow> fuse_buf" where
  "native_buf addr p = \<lparr>b_size = length (snd p), b_is_fd = False, b_fd_seek = (fst p AND 4 \<noteq> 0), b_fd_retry = (fst p AND 8 \<noteq> 0),
     b_mem = addr, b_fd = -1, b_pos = 0\<rparr>"

lemma convert_buf_js:
  assumes "fst p AND 2 = 0" "length (snd p) < 2 ^ 64"
  shows "convert_buf addr (js_buf p) = Some (native_buf addr p, snd p)"
proof -
  have "buf_flags_word (js_buf p) = Some (fst p)"
    by (simp add: buf_flags_word_def js_buf_def js_u32_def js_num_def word_of_int_uint del: of_int_uint)
  then show ?thesis using assms
    by (simp add: convert_buf_def js_buf_def Get_def view_bytes_def native_buf_def)
qed

fun natives :: "nat \<Rightarrow> (u32 \<times> byte list) list \<Rightarrow> fuse_buf list" where
  "natives addr [] = []"
| "natives addr (p # ps) = native_buf addr p # natives (addr + length (snd p)) ps"

lemma convert_bufs_js:
  assumes "list_all (\<lambda>p. fst p AND 2 = 0 \<and> length (snd p) < 2 ^ 64) ps"
  shows "convert_bufs addr (map js_buf ps) = Some (natives addr ps, concat (map snd ps))"
  using assms by (induction ps arbitrary: addr) (auto simp: convert_buf_js)

lemma nth_slice: "map (\<lambda>a. (pre @ xs @ post) ! a) [length pre..<length pre + length xs] = xs"
  by (rule nth_equalityI) (auto simp: nth_append)

lemma natives_data:
  "map (\<lambda>x. map (\<lambda>a. (pre @ concat (map snd ps)) ! a) (buf_addrs x)) (natives (length pre) ps) = map snd ps"
proof (induction ps arbitrary: pre)
  case (Cons p ps)
  have "map (\<lambda>a. (pre @ snd p @ concat (map snd ps)) ! a) (buf_addrs (native_buf (length pre) p)) = snd p"
    using nth_slice by (simp add: buf_addrs_def native_buf_def)
  then show ?case using Cons [of "pre @ snd p"] by simp
qed simp

lemma natives_simps [simp]: "length (natives addr ps) = length ps" "map b_size (natives addr ps) = map (length \<circ> snd) ps"
  by (induction ps arbitrary: addr) (auto simp: native_buf_def)

lemma natives_nth: "i < length ps \<Longrightarrow> b_size (natives addr ps ! i) = length (snd (ps ! i))"
  by (induction ps arbitrary: addr i) (auto simp: native_buf_def nth_Cons split: nat.split)

text \<open>The data of a vector from the contents of its buffers.\<close>

definition data_from :: "nat \<Rightarrow> nat \<Rightarrow> byte list list \<Rightarrow> byte list" where
  "data_from idx off bss = drop off (bss ! idx) @ concat (drop (idx + 1) bss)"

lemma vec_data_from:
  assumes "bv_idx v < length (bv_bufs v)"
  shows "vec_data m v = data_from (bv_idx v) (bv_off v) (map (\<lambda>x. map m (buf_addrs x)) (bv_bufs v))"
  using assms by (simp add: vec_data_def addr_list_def data_from_def drop_map map_concat comp_def)

lemma not_fd_flags: "\<not> b_is_fd x \<Longrightarrow> buf_flags x AND 2 = 0"
  by (simp add: buf_flags_def)

lemma convert_copies:
  fixes ps :: "(u32 \<times> byte list) list"
  assumes "list_all (\<lambda>p. fst p AND 2 = 0 \<and> length (snd p) < 2 ^ 64) ps" "idx < length ps" "off \<le> length (snd (ps ! idx))"
    "length ps < 2 ^ 64"
  shows "ConvertJsFuseBufvec (bufvec_object idx off ps) =
    Some \<lparr>bh_bufvec = \<lparr>bv_idx = idx, bv_off = off, bv_bufs = natives 0 ps\<rparr>, bh_mem = concat (map snd ps)\<rparr>"
proof -
  have "length (snd (ps ! idx)) < 2 ^ 64" using assms(1,2) by (simp add: list_all_length)
  then have "off < 2 ^ 64" "idx < 2 ^ 64" using assms by simp_all
  moreover have "b_size (natives 0 ps ! idx) = length (snd (ps ! idx))"
    using assms(2) by (rule natives_nth)
  ultimately show ?thesis
    using assms convert_bufs_js [OF assms(1), of 0]
    by (auto simp: ConvertJsFuseBufvec_def bufvec_object_bufs Get_def)
qed

text \<open>
  C37: The vector of memory buffers that a \<open>write_buf\<close> handler receives carries the data of the
  kernel's vector: returned from \<open>read_buf\<close> as it is, it is accepted and stands for the same bytes,
  from the same position on.
\<close>

theorem bufvec_roundtrip:
  assumes "vec_ok v"
  shows "\<exists>copies h. copy_bufs m (bv_bufs v) = Some copies \<and>
    ConvertJsFuseBufvec (bufvec_object (bv_idx v) (bv_off v) copies) = Some h \<and>
    holder_data h = vec_data m v \<and> bv_idx (bh_bufvec h) = bv_idx v \<and> bv_off (bh_bufvec h) = bv_off v \<and>
    map b_size (bv_bufs (bh_bufvec h)) = map b_size (bv_bufs v)"
proof -
  let ?ps = "map (\<lambda>x. (buf_flags x, bytes_at m (b_mem x) (b_size x))) (bv_bufs v)"
  let ?h = "\<lparr>bh_bufvec = \<lparr>bv_idx = bv_idx v, bv_off = bv_off v, bv_bufs = natives 0 ?ps\<rparr>, bh_mem = concat (map snd ?ps)\<rparr>"
  have copies: "copy_bufs m (bv_bufs v) = Some ?ps"
    using assms by (intro copy_bufs_mem) (auto simp: vec_ok_def list_all_iff)
  have conv: "ConvertJsFuseBufvec (bufvec_object (bv_idx v) (bv_off v) ?ps) = Some ?h"
    using assms by (intro convert_copies) (auto simp: vec_ok_def mem_only_def list_all_iff not_fd_flags)
  have "holder_data ?h = data_from (bv_idx v) (bv_off v) (map snd ?ps)"
    using assms natives_data [of "[]" ?ps] unfolding holder_data_def by (subst vec_data_from) (simp_all add: vec_ok_def)
  also have "\<dots> = vec_data m v"
    using assms by (simp add: vec_data_from vec_ok_def bytes_at_def buf_addrs_def comp_def)
  finally show ?thesis using copies conv by (simp add: comp_def)
qed

theorem bufvec_roundtrip_witness:
  "\<exists>copies h. copy_bufs (\<lambda>a. of_nat a) (bv_bufs sample_src) = Some copies \<and>
    ConvertJsFuseBufvec (bufvec_object (bv_idx sample_src) (bv_off sample_src) copies) = Some h \<and>
    holder_data h = [10, 11, 12]"
proof -
  have "vec_ok sample_src" by (simp add: vec_ok_def sample_ok) (simp add: sample_src_def mem_buf_def)
  moreover have "vec_data (\<lambda>a. of_nat a) sample_src = [10, 11, 12]" by (simp add: vec_data_def sample_addrs)
  ultimately show ?thesis using bufvec_roundtrip [of sample_src "\<lambda>a. of_nat a"] by metis
qed

section \<open>Directory listings\<close>

text \<open>The kernel's view of one element, and the length of its record.\<close>

definition item_view :: "jsval \<Rightarrow> dirent_view" where
  "item_view item = (case the (readdir_item item) of (name, st, off) \<Rightarrow> view_of name st off)"

definition item_fits :: "nat \<Rightarrow> jsval \<Rightarrow> bool" where
  "item_fits room item = (case readdir_item item of None \<Rightarrow> False | Some (name, st, off) \<Rightarrow> entry_len name \<le> room)"

definition short_name :: "jsval \<Rightarrow> bool" where
  "short_name item = (case readdir_item item of None \<Rightarrow> True | Some (name, _, _) \<Rightarrow> length name < 2 ^ 32)"

text \<open>\<open>bs\<close> holds the first entries, as many as fit.\<close>

definition lists_prefix :: "nat \<Rightarrow> jsval list \<Rightarrow> byte list \<Rightarrow> bool" where
  "lists_prefix room items bs \<longleftrightarrow>
     (\<exists>n \<le> length items. length bs \<le> room \<and> parse_dirents bs = map item_view (take n items) \<and>
        (n = length items \<or> \<not> item_fits (room - length bs) (items ! n)))"

lemma lists_prefix_Cons:
  assumes "lists_prefix (room - length rec) items bs" "length rec \<le> room"
    "parse_dirents (rec @ bs) = item_view item # parse_dirents bs"
  shows "lists_prefix room (item # items) (rec @ bs)"
proof -
  obtain n where "n \<le> length items" "length bs \<le> room - length rec" "parse_dirents bs = map item_view (take n items)"
    "n = length items \<or> \<not> item_fits (room - length rec - length bs) (items ! n)"
    using assms(1) by (auto simp: lists_prefix_def)
  then show ?thesis using assms(2,3) by (auto simp: lists_prefix_def intro!: exI [of _ "Suc n"])
qed

lemma fill_lists:
  assumes "bridge_fill room items = Some bs" "list_all short_name items"
  shows "lists_prefix room (filter IsObject items) bs"
  using assms
proof (induction items arbitrary: room bs)
  case Nil
  then show ?case by (simp add: lists_prefix_def)
next
  case (Cons item items)
  show ?case
  proof (cases "IsObject item")
    case False
    with Cons show ?thesis by simp
  next
    case True
    then obtain name st off where it: "readdir_item item = Some (name, st, off)"
      using Cons.prems(1) by (auto split: option.splits)
    have short: "length name < 2 ^ 32" using Cons.prems(2) it by (simp add: short_name_def)
    show ?thesis
    proof (cases "entry_len name \<le> room")
      case False
      with Cons.prems(1) True it have "bs = []" by (simp add: add_direntry_record)
      with False True it show ?thesis by (auto simp: lists_prefix_def item_fits_def intro!: exI [of _ 0])
    next
      case fits: True
      then obtain rest where rest: "bridge_fill (room - entry_len name) items = Some rest"
        "bs = dirent_record name st off @ rest"
        using Cons.prems(1) True it by (auto simp: add_direntry_record)
      have "lists_prefix (room - entry_len name) (filter IsObject items) rest"
        using Cons.IH [OF rest(1)] Cons.prems(2) by simp
      then show ?thesis
        using True fits it rest(2) parse_record [OF short, of st off rest]
        by (auto simp: item_view_def intro!: lists_prefix_Cons)
    qed
  qed
qed

text \<open>
  C39: The reply the bridge builds from the entries of a \<open>readdir\<close> handler fits into the buffer of the
  kernel, and the kernel reads from it the first of these entries (the elements that are no
  objects left out), as many as there is room for, with their names, inodes, types and offsets.
\<close>

theorem bridge_readdir_prefix:
  assumes "Get v ''entries'' = JArray entries" "readdir_result sz v = ReplyBuf bs" "list_all short_name entries"
  shows "\<exists>n \<le> length (filter IsObject entries). length bs \<le> sz \<and>
    parse_dirents bs = map item_view (take n (filter IsObject entries)) \<and>
    (n = length (filter IsObject entries) \<or> \<not> item_fits (sz - length bs) (filter IsObject entries ! n))"
proof (cases "sz = 0")
  case True
  have "entry_len name \<noteq> 0" for name using entry_len_ge [of name] by simp
  then have "\<not> item_fits 0 item" for item by (auto simp: item_fits_def split: option.split)
  then show ?thesis using True assms by (auto simp: readdir_result_def intro!: exI [of _ 0])
next
  case False
  then have "bridge_fill sz entries = Some bs"
    using assms by (auto simp: readdir_result_def buf_or_eio_def error_reply_def split: option.splits)
  then show ?thesis using fill_lists assms(3) by (simp add: lists_prefix_def)
qed

definition demo_item :: "string \<Rightarrow> int \<Rightarrow> jsval" where
  "demo_item name n = JObject [(''name'', JString name), (''ino'', JBigInt n), (''type'', js_num 8), (''nextOffset'', JBigInt n)]"

definition demo_entries :: "jsval list" where
  "demo_entries = [demo_item ''a'' 1, JNull, demo_item ''bc'' 2, demo_item ''d'' 3]"

theorem bridge_readdir_prefix_witness:
  "\<exists>bs. readdir_result 70 (JObject [(''entries'', JArray demo_entries)]) = ReplyBuf bs \<and> length bs = 64 \<and>
     (\<exists>n \<le> 3. parse_dirents bs = map item_view (take n (filter IsObject demo_entries)))"
proof -
  let ?v = "JObject [(''entries'', JArray demo_entries)]"
  have "(case readdir_result 70 ?v of ReplyBuf bs \<Rightarrow> length bs = 64 | _ \<Rightarrow> False)" by code_simp
  then obtain bs where bs: "readdir_result 70 ?v = ReplyBuf bs" "length bs = 64" by (auto split: reply.splits)
  have "list_all short_name demo_entries"
    by (simp add: demo_entries_def demo_item_def short_name_def readdir_item_def Get_def GetBigUint64_def big_u64_def
        js_num_def next_offset_def big_i64_def c_string_def)
  moreover have "length (filter IsObject demo_entries) = 3" by code_simp
  ultimately show ?thesis using bridge_readdir_prefix [of ?v demo_entries 70 bs] bs by (auto simp: Get_def)
qed

end
