(* ===== verification/Copy_File_Range.thy ===== *)
theory Copy_File_Range
  imports Bufvec
begin

text \<open>
  Copying between descriptors in the addon (\<open>src/src/copy_file_range.cc\<close>): the system call
  \<open>copy_file_range\<close>, and chunks of \<open>read\<close> and \<open>write\<close> where it is not available.

  A result is \<open>Inl\<close> with the errno or \<open>Inr\<close> with the number of bytes. Offsets are options, \<open>None\<close>
  for a null pointer, and are returned with the result. An interrupted write is repeated, so
  the loops are partial functions: \<open>None\<close> is a copy that never ends. \<open>kcopy\<close> is the system
  call; \<open>alloc\<close> tells whether the chunk can be allocated. The functions exported to JavaScript
  check their arguments and are left out.
\<close>

definition EOPNOTSUPP :: int where "EOPNOTSUPP = 95"

definition EXDEV :: int where "EXDEV = 18"

definition ENOSPC :: int where "ENOSPC = 28"

definition DEFAULT_CHUNK_SIZE :: nat where "DEFAULT_CHUNK_SIZE = 4 * 1024 * 1024"

definition MAX_CHUNK_SIZE :: nat where "MAX_CHUNK_SIZE = 8 * 1024 * 1024"

definition MIN_CHUNK_SIZE :: nat where "MIN_CHUNK_SIZE = 64 * 1024"

record copier =
  chunkSize :: nat
  useKernelCopy :: bool

type_synonym offsets = "int option \<times> int option"

type_synonym 'w kernel_copy = "int \<Rightarrow> int option \<Rightarrow> int \<Rightarrow> int option \<Rightarrow> nat \<Rightarrow> u32 \<Rightarrow> 'w \<Rightarrow> (int + nat) \<times> offsets \<times> 'w"

definition testKernelSupport :: "'w kernel_copy \<Rightarrow> copier \<Rightarrow> 'w \<Rightarrow> copier \<times> 'w" where
  "testKernelSupport kcopy cp w =
     (case kcopy (-1) None (-1) None 0 0 w of
        (r, _, w1) \<Rightarrow> (if r = Inl ENOSYS then cp\<lparr>useKernelCopy := False\<rparr> else cp, w1))"

definition new_copier :: "'w kernel_copy \<Rightarrow> 'w \<Rightarrow> copier \<times> 'w" where
  "new_copier kcopy w = testKernelSupport kcopy \<lparr>chunkSize = DEFAULT_CHUNK_SIZE, useKernelCopy = True\<rparr> w"

definition setChunkSize :: "nat \<Rightarrow> copier \<Rightarrow> copier" where
  "setChunkSize n cp = cp\<lparr>chunkSize := min (max n MIN_CHUNK_SIZE) MAX_CHUNK_SIZE\<rparr>"

text \<open>The inner loop: all bytes of a chunk, or the errno of the write that failed.\<close>

partial_function (option) write_chunk ::
  "'w sys \<Rightarrow> int \<Rightarrow> int option \<Rightarrow> byte list \<Rightarrow> 'w \<Rightarrow> (int option \<times> 'w) option" where
  "write_chunk sys fd pos bs w =
     (if bs = [] then Some (None, w)
      else case sys_write sys fd pos bs w of
             (Inl err, w1) \<Rightarrow> (if err = EINTR then write_chunk sys fd pos bs w1 else Some (Some err, w1))
           | (Inr n, w1) \<Rightarrow>
               (if n = 0 then Some (Some ENOSPC, w1)
                else write_chunk sys fd (map_option (\<lambda>p. p + int n) pos) (drop n bs) w1))"

definition partial_result :: "nat \<Rightarrow> int \<Rightarrow> int + nat" where
  "partial_result copied err = (if copied > 0 then Inr copied else Inl err)"

text \<open>
  The outer loop with the offsets of the caller (\<open>given\<close>), which it updates only at the regular
  end.
\<close>

partial_function (option) copy_chunks ::
  "'w sys \<Rightarrow> int \<Rightarrow> int \<Rightarrow> nat \<Rightarrow> offsets \<Rightarrow> int option \<Rightarrow> int option \<Rightarrow> nat \<Rightarrow> nat \<Rightarrow> 'w \<Rightarrow> ((int + nat) \<times> offsets \<times> 'w) option" where
  "copy_chunks sys fd_in fd_out chunk given off_in off_out copied len w =
     (if len \<le> copied then Some (Inr copied, (off_in, off_out), w)
      else case sys_read sys fd_in off_in (min (len - copied) chunk) w of
             (Inl err, w1) \<Rightarrow> Some (partial_result copied err, given, w1)
           | (Inr bs, w1) \<Rightarrow>
               (if bs = [] then Some (Inr copied, (off_in, off_out), w1)
                else case write_chunk sys fd_out off_out bs w1 of
                       None \<Rightarrow> None
                     | Some (Some err, w2) \<Rightarrow> Some (partial_result copied err, given, w2)
                     | Some (None, w2) \<Rightarrow>
                         (let adv = map_option (\<lambda>p. p + int (length bs));
                              copied1 = copied + length bs
                          in if length bs < min (len - copied) chunk
                             then Some (Inr copied1, (adv off_in, adv off_out), w2)
                             else copy_chunks sys fd_in fd_out chunk given (adv off_in) (adv off_out) copied1 len w2)))"

definition chunkedCopyFileRange ::
  "bool \<Rightarrow> 'w sys \<Rightarrow> copier \<Rightarrow> int \<Rightarrow> int option \<Rightarrow> int \<Rightarrow> int option \<Rightarrow> nat \<Rightarrow> 'w \<Rightarrow> ((int + nat) \<times> offsets \<times> 'w) option" where
  "chunkedCopyFileRange alloc sys cp fd_in off_in fd_out off_out len w =
     (if len = 0 then Some (Inr 0, (off_in, off_out), w)
      else if \<not> alloc then Some (Inl ENOMEM, (off_in, off_out), w)
      else copy_chunks sys fd_in fd_out (min (max len MIN_CHUNK_SIZE) (chunkSize cp)) (off_in, off_out) off_in off_out 0 len w)"

definition copyFileRange ::
  "bool \<Rightarrow> 'w sys \<Rightarrow> 'w kernel_copy \<Rightarrow> copier \<Rightarrow> int \<Rightarrow> int option \<Rightarrow> int \<Rightarrow> int option \<Rightarrow> nat \<Rightarrow> u32 \<Rightarrow> 'w \<Rightarrow>
   (((int + nat) \<times> offsets \<times> 'w) \<times> copier) option" where
  "copyFileRange alloc sys kcopy cp fd_in off_in fd_out off_out len flags w =
     (if len = 0 then Some ((Inr 0, (off_in, off_out), w), cp)
      else if useKernelCopy cp then
        (case kcopy fd_in off_in fd_out off_out len flags w of
           (Inl err, offs, w1) \<Rightarrow>
             (if err \<noteq> ENOSYS \<and> err \<noteq> EOPNOTSUPP \<and> err \<noteq> EXDEV then Some ((Inl err, offs, w1), cp)
              else map_option (\<lambda>r. (r, cp\<lparr>useKernelCopy := (err = EXDEV)\<rparr>))
                     (chunkedCopyFileRange alloc sys cp fd_in (fst offs) fd_out (snd offs) len w1))
         | (Inr n, offs, w1) \<Rightarrow> Some ((Inr n, offs, w1), cp))
      else map_option (\<lambda>r. (r, cp)) (chunkedCopyFileRange alloc sys cp fd_in off_in fd_out off_out len w))"

section \<open>Regular files\<close>

text \<open>Writing at an offset, the gap filled with zeros.\<close>

definition overwrite :: "nat \<Rightarrow> byte list \<Rightarrow> byte list \<Rightarrow> byte list" where
  "overwrite p bs xs = take p xs @ replicate (p - length xs) 0 @ bs @ drop (p + length bs) xs"

lemma overwrite_append: "overwrite (p + length a) b (overwrite p a xs) = overwrite p (a @ b) xs"
proof -
  have len: "length (take p xs @ replicate (p - length xs) 0) = p" by simp
  have "take (p + length a) (overwrite p a xs) = take p xs @ replicate (p - length xs) 0 @ a"
    using len by (simp add: overwrite_def)
  moreover have "p + length a \<le> length (overwrite p a xs)" using len by (simp add: overwrite_def)
  moreover have "drop (p + length a + length b) (overwrite p a xs) = drop (p + length a + length b) xs"
    using len by (simp add: overwrite_def ac_simps)
  ultimately show ?thesis unfolding overwrite_def [of "p + length a"] by (simp add: overwrite_def add.assoc)
qed

text \<open>
  The source reads like a regular file: as much as there is. The target takes at least a byte
  of every write, or the write is interrupted, which happens finitely often.
\<close>

definition reads_file :: "'w sys \<Rightarrow> int \<Rightarrow> byte list \<Rightarrow> bool" where
  "reads_file sys fd file \<longleftrightarrow> (\<forall>p n w. sys_read sys fd (Some (int p)) n w = (Inr (take n (drop p file)), w))"

definition writes_file :: "'w sys \<Rightarrow> int \<Rightarrow> ('w \<Rightarrow> byte list) \<Rightarrow> ('w \<Rightarrow> nat) \<Rightarrow> bool" where
  "writes_file sys fd content patience \<longleftrightarrow>
     (\<forall>p bs w. bs \<noteq> [] \<longrightarrow>
        (case sys_write sys fd (Some (int p)) bs w of
           (Inl err, w1) \<Rightarrow> err = EINTR \<and> content w1 = content w \<and> patience w1 < patience w
         | (Inr n, w1) \<Rightarrow> 0 < n \<and> n \<le> length bs \<and> content w1 = overwrite p (take n bs) (content w)))"

lemma overwrite_nil: "p \<le> length xs \<Longrightarrow> overwrite p [] xs = xs"
  by (simp add: overwrite_def)

lemma write_chunk_ok:
  assumes "writes_file sys fd content patience" "bs \<noteq> []"
  shows "\<exists>w1. write_chunk sys fd (Some (int p)) bs w = Some (None, w1) \<and> content w1 = overwrite p bs (content w)"
  using assms(2)
proof (induction "(length bs, patience w)" arbitrary: p bs w rule: wf_induct [OF wf_lex_prod [OF wf_less wf_less]])
  case hyp: (1 bs w p)
  have wr: "case sys_write sys fd (Some (int p)) bs w of
      (Inl err, w1) \<Rightarrow> err = EINTR \<and> content w1 = content w \<and> patience w1 < patience w
    | (Inr n, w1) \<Rightarrow> 0 < n \<and> n \<le> length bs \<and> content w1 = overwrite p (take n bs) (content w)"
    using assms(1) [unfolded writes_file_def, THEN spec, THEN spec, THEN spec, THEN mp, OF hyp.prems] .
  obtain r w1 where r: "sys_write sys fd (Some (int p)) bs w = (r, w1)" by (cases "sys_write sys fd (Some (int p)) bs w") auto
  show ?case
  proof (cases r)
    case (Inl err)
    then have e: "err = EINTR" "content w1 = content w" "patience w1 < patience w" using wr r by auto
    then have "write_chunk sys fd (Some (int p)) bs w = write_chunk sys fd (Some (int p)) bs w1"
      using hyp.prems r Inl by (subst write_chunk.simps) simp
    then show ?thesis using hyp.hyps [rule_format, of "(length bs, patience w1)" bs w1 p] hyp.prems e by simp
  next
    case (Inr n)
    then have n: "0 < n" "n \<le> length bs" "content w1 = overwrite p (take n bs) (content w)" using wr r by auto
    have step: "write_chunk sys fd (Some (int p)) bs w = write_chunk sys fd (Some (int (p + n))) (drop n bs) w1"
      using hyp.prems r Inr n by (subst write_chunk.simps) simp
    show ?thesis
    proof (cases "n = length bs")
      case True
      then show ?thesis using step n by (simp add: write_chunk.simps)
    next
      case False
      have "length bs - n < length bs" using n hyp.prems by simp
      with False have "\<exists>w2. write_chunk sys fd (Some (int (p + n))) (drop n bs) w1 = Some (None, w2) \<and>
          content w2 = overwrite (p + n) (drop n bs) (content w1)"
        using hyp.hyps [rule_format, of "(length (drop n bs), patience w1)" "drop n bs" w1 "p + n"] n by simp
      moreover have "overwrite (p + n) (drop n bs) (overwrite p (take n bs) xs) = overwrite p bs xs" for xs
        using overwrite_append [of p "take n bs" "drop n bs" xs] n by simp
      ultimately show ?thesis using step n by auto
    qed
  qed
qed

text \<open>The target after a copy of \<open>bs\<close>; a copy of nothing does not extend it.\<close>

definition copied_to :: "nat \<Rightarrow> byte list \<Rightarrow> byte list \<Rightarrow> byte list" where
  "copied_to q bs xs = (if bs = [] then xs else overwrite q bs xs)"

lemma copied_to_append: "a \<noteq> [] \<Longrightarrow> copied_to (q + length a) b (copied_to q a xs) = copied_to q (a @ b) xs"
  by (simp add: copied_to_def overwrite_append)

lemma take_split: "take n xs @ take m (drop (length (take n xs)) xs) = take (length (take n xs) + m) xs"
  by (simp add: take_add min_def)

lemma copy_chunks_ok:
  assumes "reads_file sys fd_in file" "writes_file sys fd_out content patience" "0 < chunk"
  shows "\<exists>w1 bs. bs = take (len - copied) (drop p file) \<and>
    copy_chunks sys fd_in fd_out chunk given (Some (int p)) (Some (int q)) copied len w =
      Some (Inr (copied + length bs), (Some (int (p + length bs)), Some (int (q + length bs))), w1) \<and>
    content w1 = copied_to q bs (content w)"
proof (induction "len - copied" arbitrary: copied p q w rule: less_induct)
  case less
  show ?case
  proof (cases "len \<le> copied")
    case True
    then show ?thesis by (subst copy_chunks.simps) (simp add: copied_to_def)
  next
    case False
    let ?n = "min (len - copied) chunk" and ?rest = "drop p file"
    define bs where "bs = take ?n ?rest"
    have rd: "sys_read sys fd_in (Some (int p)) ?n w = (Inr bs, w)" using assms(1) by (simp add: reads_file_def bs_def)
    show ?thesis
    proof (cases "bs = []")
      case True
      then have "?rest = []" using False assms(3) by (auto simp: bs_def)
      then show ?thesis using False True rd by (subst copy_chunks.simps) (simp add: copied_to_def)
    next
      case ne: False
      obtain w1 where w1: "write_chunk sys fd_out (Some (int q)) bs w = Some (None, w1)"
        "content w1 = copied_to q bs (content w)"
        using write_chunk_ok [OF assms(2) ne, of q w] ne by (auto simp: copied_to_def)
      have step: "copy_chunks sys fd_in fd_out chunk given (Some (int p)) (Some (int q)) copied len w =
        (if length bs < ?n then Some (Inr (copied + length bs), (Some (int (p + length bs)), Some (int (q + length bs))), w1)
         else copy_chunks sys fd_in fd_out chunk given (Some (int (p + length bs))) (Some (int (q + length bs))) (copied + length bs) len w1)"
        using False ne rd w1(1) by (subst copy_chunks.simps) (simp add: Let_def)
      show ?thesis
      proof (cases "length bs < ?n")
        case True
        then have "length ?rest < ?n" unfolding bs_def length_take by linarith
        then have "bs = take (len - copied) ?rest" by (simp add: bs_def)
        then show ?thesis using step True w1(2) by auto
      next
        case full: False
        have "len - (copied + length bs) < len - copied" using False ne by (simp add: diff_less_mono2)
        from less.hyps [OF this, of "p + length bs" "q + length bs" w1]
        obtain w2 cs where cs: "cs = take (len - (copied + length bs)) (drop (p + length bs) file)"
          "copy_chunks sys fd_in fd_out chunk given (Some (int (p + length bs))) (Some (int (q + length bs))) (copied + length bs) len w1 =
            Some (Inr (copied + length bs + length cs), (Some (int (p + length bs + length cs)), Some (int (q + length bs + length cs))), w2)"
          "content w2 = copied_to (q + length bs) cs (content w1)" by blast
        have "bs @ cs = take (length bs + (len - (copied + length bs))) ?rest"
          using take_split [of ?n ?rest] by (simp add: bs_def [symmetric] cs(1) add.commute)
        moreover have "length bs + (len - (copied + length bs)) = len - copied" using False full by (simp add: bs_def)
        ultimately have all: "bs @ cs = take (len - copied) ?rest" by simp
        have "content w2 = copied_to q (bs @ cs) (content w)" using cs(3) w1(2) copied_to_append [OF ne] by simp
        moreover have "copy_chunks sys fd_in fd_out chunk given (Some (int p)) (Some (int q)) copied len w =
            Some (Inr (copied + length (bs @ cs)), (Some (int (p + length (bs @ cs))), Some (int (q + length (bs @ cs)))), w2)"
          unfolding step if_not_P [OF full] cs(2) by (simp add: add.assoc)
        ultimately show ?thesis using all by blast
      qed
    qed
  qed
qed


definition demo_copy_sys :: "(byte list \<times> nat) sys" where
  "demo_copy_sys = \<lparr>
     sys_write = (\<lambda>fd pos bs w. if snd w > 0 then (Inl EINTR, (fst w, snd w - 1))
        else (Inr (min 2 (length bs)), (overwrite (nat (the pos)) (take (min 2 (length bs)) bs) (fst w), 0))),
     sys_read = (\<lambda>fd pos n w. (Inr (take n (drop (nat (the pos)) [1, 2, 3, 4, 5, 6])), w)),
     sys_splice = (\<lambda>_ _ _ _ _ _ _ w. (Inl ENOSYS, w))\<rparr>"


end
