(* ===== verification/Loop_Mt.thy ===== *)
theory Loop_Mt
  imports Fuse_Prelude
begin

text \<open>
  The multi-threaded loop of libfuse (\<open>lib/fuse_loop_mt.c\<close>): workers that receive and process
  requests, started when none is left to receive, perhaps ended when too many are idle, and the main
  thread that waits for the end of the session, cancels the workers and joins them.

  A thread is its program counter; each critical section under \<open>mt_lock\<close> is one step, as is every
  access outside of it. Structures are in heaps: workers by address, with the state of their
  thread, channels by address with their counter. Allocations, thread creation and what a worker
  receives are parameters of the steps. Using a structure that was freed sets \<open>mt_bad\<close>. A thread can be
  cancelled while it receives only. Processing a request is one step, which handlers are taken to finish;
  cloning the descriptor of the device succeeds or fails.
\<close>

section \<open>State\<close>

text \<open>The flag of three of the states is \<open>isforget\<close>.\<close>

datatype worker_pc = W_Loop | W_Recv | W_Got bool | W_Process bool | W_Done bool | W_Post | W_Finished

record fuse_worker =
  w_ch :: "nat option"
  w_pc :: worker_pc
  w_cancelled :: bool

datatype main_pc = M_Start | M_Check | M_Wait | M_Cancel | M_Join | M_End int

record fuse_mt =
  numworker :: int
  numavail :: int
  mt_error :: int
  mt_clone_fd :: bool
  max_idle :: int
  max_threads :: int
  mt_list :: "nat list"
  mt_heap :: "nat \<rightharpoonup> fuse_worker"
  mt_chans :: "nat \<rightharpoonup> nat"
  mt_closed :: "nat list"
  mt_bad :: bool
  mt_exited :: bool
  se_error :: int
  mt_finish :: nat
  mt_main :: main_pc

record fuse_loop_config =
  version_id :: int
  cfg_max_idle :: int
  cfg_max_threads :: int
  cfg_clone_fd :: bool

definition FUSE_LOOP_MT_V2_IDENTIFIER :: int where
  "FUSE_LOOP_MT_V2_IDENTIFIER = 2 ^ 31 - 1 - 2"

definition fuse_loop_cfg_create :: fuse_loop_config where
  "fuse_loop_cfg_create = \<lparr>version_id = FUSE_LOOP_MT_V2_IDENTIFIER, cfg_max_idle = -1, cfg_max_threads = 10, cfg_clone_fd = False\<rparr>"

definition fuse_loop_cfg_verify :: "fuse_loop_config \<Rightarrow> int" where
  "fuse_loop_cfg_verify cfg = (if version_id cfg = FUSE_LOOP_MT_V2_IDENTIFIER then 0 else - EINVAL)"

definition fuse_loop_cfg_set_idle_threads :: "u32 \<Rightarrow> fuse_loop_config \<Rightarrow> fuse_loop_config" where
  "fuse_loop_cfg_set_idle_threads v cfg = (if v > 100000 then cfg else cfg\<lparr>cfg_max_idle := uint v\<rparr>)"

definition fuse_loop_cfg_set_max_threads :: "u32 \<Rightarrow> fuse_loop_config \<Rightarrow> fuse_loop_config" where
  "fuse_loop_cfg_set_max_threads v cfg = cfg\<lparr>cfg_max_threads := sint v\<rparr>"

definition fuse_loop_cfg_set_clone_fd :: "u32 \<Rightarrow> fuse_loop_config \<Rightarrow> fuse_loop_config" where
  "fuse_loop_cfg_set_clone_fd v cfg = cfg\<lparr>cfg_clone_fd := (v \<noteq> 0)\<rparr>"

definition fuse_loop_cfg_convert :: "u32 \<Rightarrow> u32 \<Rightarrow> fuse_loop_config \<Rightarrow> fuse_loop_config" where
  "fuse_loop_cfg_convert idle clone cfg = fuse_loop_cfg_set_clone_fd clone (fuse_loop_cfg_set_idle_threads idle cfg)"

text \<open>The state of \<open>fuse_session_loop_mt\<close> before it starts the first thread.\<close>

definition new_mt :: "fuse_loop_config \<Rightarrow> bool \<Rightarrow> fuse_mt" where
  "new_mt cfg exited = \<lparr>numworker = 0, numavail = 0, mt_error = 0, mt_clone_fd = cfg_clone_fd cfg, max_idle = cfg_max_idle cfg,
     max_threads = cfg_max_threads cfg, mt_list = [], mt_heap = Map.empty, mt_chans = Map.empty, mt_closed = [],
     mt_bad = False, mt_exited = exited, se_error = 0, mt_finish = 0, mt_main = M_Start\<rparr>"

section \<open>Channels, workers\<close>

definition fuse_chan_put :: "nat option \<Rightarrow> fuse_mt \<Rightarrow> fuse_mt" where
  "fuse_chan_put ch s =
     (case ch of
        None \<Rightarrow> s
      | Some c \<Rightarrow>
          (case mt_chans s c of
             None \<Rightarrow> s\<lparr>mt_bad := True\<rparr>
           | Some ctr \<Rightarrow>
               (if ctr = 1 then s\<lparr>mt_chans := (mt_chans s)(c := None), mt_closed := mt_closed s @ [c]\<rparr>
                else s\<lparr>mt_chans := (mt_chans s)(c \<mapsto> ctr - 1)\<rparr>)))"

definition set_pc :: "nat \<Rightarrow> worker_pc \<Rightarrow> fuse_mt \<Rightarrow> fuse_mt" where
  "set_pc w pc s =
     (case mt_heap s w of
        None \<Rightarrow> s\<lparr>mt_bad := True\<rparr>
      | Some x \<Rightarrow> s\<lparr>mt_heap := (mt_heap s)(w \<mapsto> x\<lparr>w_pc := pc\<rparr>)\<rparr>)"

text \<open>The end of a worker structure: its channel is released and the memory freed.\<close>

definition free_worker :: "nat \<Rightarrow> fuse_mt \<Rightarrow> fuse_mt" where
  "free_worker w s =
     (case mt_heap s w of
        None \<Rightarrow> s\<lparr>mt_bad := True\<rparr>
      | Some x \<Rightarrow> fuse_chan_put (w_ch x) (s\<lparr>mt_heap := (mt_heap s)(w := None)\<rparr>))"

definition list_del_worker :: "nat \<Rightarrow> fuse_mt \<Rightarrow> fuse_mt" where
  "list_del_worker w s = s\<lparr>mt_list := remove1 w (mt_list s)\<rparr>"

definition fuse_session_exit :: "fuse_mt \<Rightarrow> fuse_mt" where
  "fuse_session_exit s = s\<lparr>mt_exited := True, mt_finish := mt_finish s + 1\<rparr>"

text \<open>
  \<open>alloc\<close> and \<open>clone\<close> are the addresses of the new worker and of the new channel, \<open>None\<close> for a
  failure; \<open>created\<close>: \<open>pthread_create\<close> succeeded.
\<close>

definition worker_chan :: "nat option \<Rightarrow> fuse_mt \<Rightarrow> nat option \<times> fuse_mt" where
  "worker_chan clone s =
     (if \<not> mt_clone_fd s then (None, s)
      else case clone of
             None \<Rightarrow> (None, s\<lparr>mt_clone_fd := False\<rparr>)
           | Some c \<Rightarrow> (Some c, s\<lparr>mt_chans := (mt_chans s)(c \<mapsto> 1)\<rparr>))"

definition fuse_loop_start_thread :: "nat option \<Rightarrow> nat option \<Rightarrow> bool \<Rightarrow> fuse_mt \<Rightarrow> int \<times> fuse_mt" where
  "fuse_loop_start_thread alloc clone created s =
     (case alloc of
        None \<Rightarrow> (-1, s)
      | Some w \<Rightarrow>
          (case worker_chan clone s of
             (ch, s1) \<Rightarrow>
               if \<not> created then (-1, fuse_chan_put ch s1)
               else (0, s1\<lparr>mt_heap := (mt_heap s1)(w \<mapsto> \<lparr>w_ch = ch, w_pc = W_Loop, w_cancelled = False\<rparr>),
                       mt_list := mt_list s1 @ [w], numavail := numavail s1 + 1, numworker := numworker s1 + 1\<rparr>)))"

section \<open>Workers\<close>

text \<open>\<open>fuse_do_work\<close>: the condition of the loop, and what follows the receiving.\<close>

definition work_loop :: "nat \<Rightarrow> fuse_mt \<Rightarrow> fuse_mt" where
  "work_loop w s = set_pc w (if mt_exited s then W_Post else W_Recv) s"

text \<open>
  What \<open>fuse_session_receive_buf_internal\<close> returns: \<open>-EINTR\<close>, another error, 0 as it finds the session
  ended, 0 after \<open>ENODEV\<close> made it end the session, or the length of a request.
\<close>

datatype received = R_Interrupted | R_Error int | R_Exited | R_Unmounted | R_Request bool

fun work_received :: "nat \<Rightarrow> received \<Rightarrow> fuse_mt \<Rightarrow> fuse_mt" where
  "work_received w R_Interrupted s = set_pc w W_Loop s"
| "work_received w (R_Error err) s = set_pc w W_Post ((fuse_session_exit s)\<lparr>mt_error := err\<rparr>)"
| "work_received w R_Exited s = set_pc w W_Post s"
| "work_received w R_Unmounted s = set_pc w W_Post (fuse_session_exit s)"
| "work_received w (R_Request isforget) s = set_pc w (W_Got isforget) s"

definition work_got :: "nat option \<Rightarrow> nat option \<Rightarrow> bool \<Rightarrow> nat \<Rightarrow> bool \<Rightarrow> fuse_mt \<Rightarrow> fuse_mt" where
  "work_got alloc clone created w isforget s =
     (if mt_exited s then set_pc w W_Finished s
      else let s1 = set_pc w (W_Process isforget) (if isforget then s else s\<lparr>numavail := numavail s - 1\<rparr>)
           in if numavail s1 = 0 \<and> numworker s1 < max_threads s1
              then snd (fuse_loop_start_thread alloc clone created s1) else s1)"

definition work_done :: "nat \<Rightarrow> bool \<Rightarrow> fuse_mt \<Rightarrow> fuse_mt" where
  "work_done w isforget s =
     (let s1 = (if isforget then s else s\<lparr>numavail := numavail s + 1\<rparr>)
      in if max_idle s1 \<noteq> -1 \<and> numavail s1 > max_idle s1 \<and> numworker s1 > 1
         then if mt_exited s1 then set_pc w W_Finished s1
              else free_worker w ((list_del_worker w s1)\<lparr>numavail := numavail s1 - 1, numworker := numworker s1 - 1\<rparr>)
         else set_pc w W_Loop s1)"

definition work_post :: "nat \<Rightarrow> fuse_mt \<Rightarrow> fuse_mt" where
  "work_post w s = set_pc w W_Finished (s\<lparr>mt_finish := mt_finish s + 1\<rparr>)"

section \<open>The main thread\<close>

text \<open>An error of the session, such as the signal that ended it, replaces the error of the loop.\<close>

definition final_error :: "int \<Rightarrow> fuse_mt \<Rightarrow> int" where
  "final_error err s = (if se_error s \<noteq> 0 then se_error s else err)"

definition main_start :: "nat option \<Rightarrow> nat option \<Rightarrow> bool \<Rightarrow> fuse_mt \<Rightarrow> fuse_mt" where
  "main_start alloc clone created s =
     (case fuse_loop_start_thread alloc clone created s of
        (err, s1) \<Rightarrow> s1\<lparr>mt_main := (if err = 0 then M_Check else M_End (final_error err s1))\<rparr>)"

definition main_check :: "fuse_mt \<Rightarrow> fuse_mt" where
  "main_check s = s\<lparr>mt_main := (if mt_exited s then M_Cancel else M_Wait)\<rparr>"

definition main_wait :: "fuse_mt \<Rightarrow> fuse_mt" where
  "main_wait s = s\<lparr>mt_finish := mt_finish s - 1, mt_main := M_Check\<rparr>"

definition main_cancel :: "fuse_mt \<Rightarrow> fuse_mt" where
  "main_cancel s =
     s\<lparr>mt_heap := (\<lambda>w. if w \<in> set (mt_list s) then map_option (\<lambda>x. x\<lparr>w_cancelled := True\<rparr>) (mt_heap s w) else mt_heap s w),
       mt_main := M_Join\<rparr>"

definition fuse_join_worker :: "nat \<Rightarrow> fuse_mt \<Rightarrow> fuse_mt" where
  "fuse_join_worker w s = free_worker w (list_del_worker w s)"

definition main_end :: "fuse_mt \<Rightarrow> fuse_mt" where
  "main_end s = s\<lparr>mt_main := M_End (final_error (mt_error s) s)\<rparr>"

section \<open>Steps\<close>

abbreviation pc_is :: "fuse_mt \<Rightarrow> nat \<Rightarrow> worker_pc \<Rightarrow> bool" where
  "pc_is s w pc \<equiv> map_option w_pc (mt_heap s w) = Some pc"

definition fresh_addrs :: "nat option \<Rightarrow> nat option \<Rightarrow> fuse_mt \<Rightarrow> bool" where
  "fresh_addrs alloc clone s \<longleftrightarrow>
     (\<forall>w. alloc = Some w \<longrightarrow> mt_heap s w = None) \<and> (\<forall>c. clone = Some c \<longrightarrow> mt_chans s c = None)"

text \<open>The steps the threads can take by themselves.\<close>

inductive thread_step :: "fuse_mt \<Rightarrow> fuse_mt \<Rightarrow> bool" where
  w_loop: "pc_is s w W_Loop \<Longrightarrow> thread_step s (work_loop w s)"
| w_cancel: "mt_heap s w = Some x \<Longrightarrow> w_pc x = W_Recv \<Longrightarrow> w_cancelled x \<Longrightarrow> thread_step s (set_pc w W_Finished s)"
| w_got: "pc_is s w (W_Got f) \<Longrightarrow> fresh_addrs alloc clone s \<Longrightarrow> thread_step s (work_got alloc clone created w f s)"
| w_process: "pc_is s w (W_Process f) \<Longrightarrow> thread_step s (set_pc w (W_Done f) s)"
| w_done: "pc_is s w (W_Done f) \<Longrightarrow> thread_step s (work_done w f s)"
| w_post: "pc_is s w W_Post \<Longrightarrow> thread_step s (work_post w s)"
| m_start: "mt_main s = M_Start \<Longrightarrow> fresh_addrs alloc clone s \<Longrightarrow> thread_step s (main_start alloc clone created s)"
| m_check: "mt_main s = M_Check \<Longrightarrow> thread_step s (main_check s)"
| m_wait: "mt_main s = M_Wait \<Longrightarrow> 0 < mt_finish s \<Longrightarrow> thread_step s (main_wait s)"
| m_cancel: "mt_main s = M_Cancel \<Longrightarrow> thread_step s (main_cancel s)"
| m_join: "mt_main s = M_Join \<Longrightarrow> mt_list s = w # ws \<Longrightarrow> pc_is s w W_Finished \<Longrightarrow> thread_step s (fuse_join_worker w s)"
| m_end: "mt_main s = M_Join \<Longrightarrow> mt_list s = [] \<Longrightarrow> thread_step s (main_end s)"

text \<open>With those that need the kernel: a receive that returns, a signal that interrupts \<open>sem_wait\<close>.\<close>

inductive run_step :: "fuse_mt \<Rightarrow> fuse_mt \<Rightarrow> bool" where
  thread: "thread_step s s' \<Longrightarrow> run_step s s'"
| w_recv: "pc_is s w W_Recv \<Longrightarrow> (r = R_Exited \<longrightarrow> mt_exited s) \<Longrightarrow> run_step s (work_received w r s)"
| m_interrupted: "mt_main s = M_Wait \<Longrightarrow> run_step s (s\<lparr>mt_main := M_Check\<rparr>)"

text \<open>With the end of the session and its error by a signal handler, a request or another thread.\<close>

inductive loop_step :: "fuse_mt \<Rightarrow> fuse_mt \<Rightarrow> bool" where
  run: "run_step s s' \<Longrightarrow> loop_step s s'"
| exits: "loop_step s (fuse_session_exit s)"
| fails: "loop_step s (s\<lparr>se_error := e\<rparr>)"

text \<open>The handler of the signals that end the session (\<open>lib/fuse_signals.c\<close>); \<open>None\<close> is \<open>abort\<close>.\<close>

definition exit_handler :: "int \<Rightarrow> fuse_mt \<Rightarrow> fuse_mt option" where
  "exit_handler sig s = (let s1 = fuse_session_exit s in if sig < 0 then None else Some (s1\<lparr>se_error := sig\<rparr>))"

section \<open>Starting the loop\<close>

text \<open>Without a configuration the default is used; one of another version is refused.\<close>

definition fuse_session_loop_mt_312 :: "fuse_loop_config option \<Rightarrow> bool \<Rightarrow> int + fuse_mt" where
  "fuse_session_loop_mt_312 config exited =
     (case config of
        None \<Rightarrow> Inr (new_mt fuse_loop_cfg_create exited)
      | Some cfg \<Rightarrow> (let err = fuse_loop_cfg_verify cfg in if err \<noteq> 0 then Inl err else Inr (new_mt cfg exited)))"

definition fuse_session_loop_mt_32 :: "(u32 \<times> u32) option \<Rightarrow> bool \<Rightarrow> int + fuse_mt" where
  "fuse_session_loop_mt_32 config_v1 exited =
     fuse_session_loop_mt_312 (map_option (\<lambda>(idle, clone). fuse_loop_cfg_convert idle clone fuse_loop_cfg_create) config_v1) exited"

definition fuse_session_loop_mt_31 :: "u32 \<Rightarrow> bool \<Rightarrow> int + fuse_mt" where
  "fuse_session_loop_mt_31 clone exited =
     fuse_session_loop_mt_312
       (Some (if 0 < sint clone then fuse_loop_cfg_set_clone_fd clone fuse_loop_cfg_create else fuse_loop_cfg_create)) exited"

section \<open>The loop with one thread\<close>

text \<open>
  \<open>fuse_session_loop\<close> on the values its receives return, each with whether the session has ended when
  its condition is checked next; \<open>None\<close> when it still waits after them.
\<close>

fun session_loop :: "bool \<Rightarrow> int \<Rightarrow> (int \<times> bool) list \<Rightarrow> int option" where
  "session_loop True res rs = Some res"
| "session_loop False res [] = None"
| "session_loop False res ((r, exited) # rs) =
     (if r = - EINTR then session_loop exited r rs else if r \<le> 0 then Some r else session_loop exited r rs)"

definition fuse_session_loop :: "bool \<Rightarrow> (int \<times> bool) list \<Rightarrow> int \<Rightarrow> int option" where
  "fuse_session_loop exited rs err =
     map_option (\<lambda>res. if err \<noteq> 0 then err else if res > 0 then 0 else res) (session_loop exited 0 rs)"

end
