(* ===== verification/Loop_Properties.thy ===== *)
theory Loop_Properties
  imports Loop_Mt
begin

text \<open>
  The multi-threaded loop keeps count of its workers, uses no structure after it is freed, and
  returns with everything released once the session has ended, under every interleaving.
\<close>

section \<open>Sums over the list of workers\<close>

lemma sum_upd:
  fixes f :: "nat \<Rightarrow> int"
  assumes "distinct xs" "w \<in> set xs"
  shows "sum_list (map (f(w := y)) xs) = sum_list (map f xs) - f w + y"
proof -
  have "w \<notin> set (remove1 w xs)" using assms(1) by simp
  then have e: "map (f(w := y)) (remove1 w xs) = map f (remove1 w xs)" by (intro map_cong) auto
  show ?thesis
    unfolding sum_list_map_remove1 [OF assms(2), of f] sum_list_map_remove1 [OF assms(2), of "f(w := y)"] e by simp
qed

definition serving :: "worker_pc \<Rightarrow> bool" where
  "serving pc \<longleftrightarrow> pc = W_Process False \<or> pc = W_Done False"

definition avail :: "fuse_mt \<Rightarrow> nat \<Rightarrow> int" where
  "avail s w = (case mt_heap s w of None \<Rightarrow> 0 | Some x \<Rightarrow> if serving (w_pc x) then 0 else 1)"

text \<open>The workers that do not process a request other than \<open>FORGET\<close>.\<close>

definition idle_count :: "fuse_mt \<Rightarrow> int" where
  "idle_count s = (\<Sum>w\<leftarrow>mt_list s. avail s w)"

section \<open>The invariant\<close>

definition ch_of :: "fuse_mt \<Rightarrow> nat \<Rightarrow> nat option" where
  "ch_of s w = Option.bind (mt_heap s w) w_ch"

text \<open>Every open channel belongs to one worker, which holds its only reference.\<close>

definition owns :: "(nat \<Rightarrow> nat option) \<Rightarrow> (nat \<rightharpoonup> nat) \<Rightarrow> bool" where
  "owns ch cs \<longleftrightarrow> (\<forall>c. cs c = (if \<exists>w. ch w = Some c then Some 1 else None)) \<and>
     (\<forall>w w' c. ch w = Some c \<longrightarrow> ch w' = Some c \<longrightarrow> w = w')"

definition heap_ok :: "fuse_mt \<Rightarrow> bool" where
  "heap_ok s \<longleftrightarrow> distinct (mt_list s) \<and> set (mt_list s) = dom (mt_heap s) \<and> owns (ch_of s) (mt_chans s) \<and> \<not> mt_bad s"

definition pool_counts :: "int \<Rightarrow> fuse_mt \<Rightarrow> bool" where
  "pool_counts d s \<longleftrightarrow> numworker s = int (length (mt_list s)) \<and> numavail s = idle_count s + d"

definition joining :: "main_pc \<Rightarrow> bool" where
  "joining m \<longleftrightarrow> (case m of M_Join \<Rightarrow> True | M_End _ \<Rightarrow> True | _ \<Rightarrow> False)"

definition main_ok :: "fuse_mt \<Rightarrow> bool" where
  "main_ok s \<longleftrightarrow>
     (case mt_main s of
        M_Start \<Rightarrow> mt_list s = []
      | M_Check \<Rightarrow> mt_list s \<noteq> []
      | M_Wait \<Rightarrow> mt_list s \<noteq> [] \<and> (mt_exited s \<longrightarrow> 0 < mt_finish s)
      | M_Cancel \<Rightarrow> mt_list s \<noteq> [] \<and> mt_exited s
      | M_Join \<Rightarrow> mt_exited s \<and> (\<forall>w x. mt_heap s w = Some x \<longrightarrow> w_cancelled x)
      | M_End _ \<Rightarrow> mt_list s = [])"

definition loop_inv :: "fuse_mt \<Rightarrow> bool" where
  "loop_inv s \<longleftrightarrow> heap_ok s \<and> (\<not> joining (mt_main s) \<longrightarrow> pool_counts 0 s) \<and> main_ok s \<and>
     int (length (mt_list s)) \<le> max 1 (max_threads s)"

lemma inv_new_mt: "loop_inv (new_mt cfg exited)"
  by (simp add: loop_inv_def heap_ok_def new_mt_def owns_def ch_of_def pool_counts_def idle_count_def main_ok_def)

section \<open>Changing the state of a thread\<close>

lemma set_pc_frame [simp]:
  "mt_list (set_pc w pc s) = mt_list s" "mt_chans (set_pc w pc s) = mt_chans s" "numworker (set_pc w pc s) = numworker s"
  "numavail (set_pc w pc s) = numavail s" "max_threads (set_pc w pc s) = max_threads s" "max_idle (set_pc w pc s) = max_idle s"
  "mt_exited (set_pc w pc s) = mt_exited s" "mt_finish (set_pc w pc s) = mt_finish s" "mt_main (set_pc w pc s) = mt_main s"
  by (auto simp: set_pc_def split: option.split)

lemma set_pc_heap:
  assumes "mt_heap s w = Some x"
  shows "mt_heap (set_pc w pc s) = (mt_heap s)(w \<mapsto> x\<lparr>w_pc := pc\<rparr>)" "mt_bad (set_pc w pc s) = mt_bad s"
  using assms by (simp_all add: set_pc_def)

lemma set_pc_ok:
  assumes "heap_ok s" "mt_heap s w = Some x"
  shows "heap_ok (set_pc w pc s)"
proof -
  have "ch_of (set_pc w pc s) = ch_of s" using assms(2) by (auto simp: ch_of_def set_pc_heap)
  then show ?thesis using assms by (auto simp: heap_ok_def set_pc_heap)
qed

lemma set_pc_main:
  assumes "main_ok s" "mt_heap s w = Some x"
  shows "main_ok (set_pc w pc s)"
  using assms by (auto simp: main_ok_def set_pc_heap split: main_pc.splits)

lemma set_pc_counts:
  assumes "heap_ok s" "mt_heap s w = Some x" "pool_counts d s"
  shows "pool_counts (d + avail s w - (if serving pc then 0 else 1)) (set_pc w pc s)"
proof -
  have "avail (set_pc w pc s) = (avail s)(w := if serving pc then 0 else 1)"
    using assms(2) by (auto simp: avail_def set_pc_heap)
  moreover have "w \<in> set (mt_list s)" "distinct (mt_list s)" using assms by (auto simp: heap_ok_def)
  ultimately have "idle_count (set_pc w pc s) = idle_count s - avail s w + (if serving pc then 0 else 1)"
    by (simp only: idle_count_def set_pc_frame sum_upd)
  then show ?thesis using assms(3) by (simp add: pool_counts_def)
qed

lemma avail_pc: "pc_is s w pc \<Longrightarrow> avail s w = (if serving pc then 0 else 1)"
  by (auto simp: avail_def)

text \<open>A step of one worker that takes no lock, and does not change the counts.\<close>

lemma inv_set_pc:
  assumes "loop_inv s" "pc_is s w pc" "serving pc' = serving pc"
  shows "loop_inv (set_pc w pc' s)"
proof -
  obtain x where x: "mt_heap s w = Some x" using assms(2) by auto
  have "pool_counts 0 s \<Longrightarrow> pool_counts 0 (set_pc w pc' s)"
    using set_pc_counts [of s w x 0 pc'] assms x avail_pc [OF assms(2)] by (simp add: loop_inv_def)
  then show ?thesis using assms x set_pc_ok set_pc_main by (simp add: loop_inv_def)
qed

text \<open>Only some members matter.\<close>

lemma inv_frame_mt:
  assumes "loop_inv s" "mt_list s' = mt_list s" "mt_heap s' = mt_heap s" "mt_chans s' = mt_chans s" "mt_bad s' = mt_bad s"
    "numworker s' = numworker s" "numavail s' = numavail s" "max_threads s' = max_threads s" "mt_main s' = mt_main s"
    "mt_exited s \<longrightarrow> mt_exited s'" "mt_finish s \<le> mt_finish s'" "mt_exited s' \<longrightarrow> mt_exited s \<or> 0 < mt_finish s'"
  shows "loop_inv s'"
proof -
  have "avail s' = avail s" "ch_of s' = ch_of s" using assms(3) by (auto simp: avail_def ch_of_def)
  then show ?thesis
    using assms by (auto simp: loop_inv_def heap_ok_def pool_counts_def idle_count_def main_ok_def split: main_pc.splits)
qed

lemma inv_exit: "loop_inv s \<Longrightarrow> loop_inv (fuse_session_exit s)"
  by (erule inv_frame_mt) (auto simp: fuse_session_exit_def)

section \<open>Starting and ending workers\<close>

lemma put_frame [simp]:
  "mt_list (fuse_chan_put ch s) = mt_list s" "mt_heap (fuse_chan_put ch s) = mt_heap s"
  "numworker (fuse_chan_put ch s) = numworker s" "numavail (fuse_chan_put ch s) = numavail s"
  "max_threads (fuse_chan_put ch s) = max_threads s" "mt_exited (fuse_chan_put ch s) = mt_exited s"
  "mt_finish (fuse_chan_put ch s) = mt_finish s" "mt_main (fuse_chan_put ch s) = mt_main s"
  by (auto simp: fuse_chan_put_def split: option.split)

lemma owns_free:
  assumes "owns ch cs" "ch w = Some c"
  shows "cs c = Some 1" "owns (ch(w := None)) (cs(c := None))"
  using assms unfolding owns_def by (auto split: if_splits) (metis option.inject)

lemma owns_new: "owns ch cs \<Longrightarrow> cs c = None \<Longrightarrow> ch w = None \<Longrightarrow> owns (ch(w \<mapsto> c)) (cs(c \<mapsto> 1))"
  unfolding owns_def by (auto split: if_splits) (metis option.distinct(1))

lemma free_ok:
  assumes ok: "heap_ok s" and x: "mt_heap s w = Some x"
    and s': "mt_heap s' = mt_heap s" "mt_chans s' = mt_chans s" "mt_bad s' = mt_bad s" "mt_list s' = remove1 w (mt_list s)"
  shows "heap_ok (free_worker w s')" "mt_heap (free_worker w s') = (mt_heap s)(w := None)"
    "mt_list (free_worker w s') = remove1 w (mt_list s)"
proof -
  let ?t = "s'\<lparr>mt_heap := (mt_heap s')(w := None)\<rparr>"
  have fr: "free_worker w s' = fuse_chan_put (w_ch x) ?t" using x s' by (simp add: free_worker_def)
  show h: "mt_heap (free_worker w s') = (mt_heap s)(w := None)" "mt_list (free_worker w s') = remove1 w (mt_list s)"
    using s' by (simp_all add: fr)
  have ch: "ch_of (free_worker w s') = (ch_of s)(w := None)" using h by (auto simp: ch_of_def)
  have "owns (ch_of (free_worker w s')) (mt_chans (free_worker w s')) \<and> mt_bad (free_worker w s') = mt_bad s"
  proof (cases "w_ch x")
    case None
    then have "(ch_of s)(w := None) = ch_of s" using x by (auto simp: ch_of_def)
    then show ?thesis using ok None s' ch by (simp add: fr fuse_chan_put_def heap_ok_def)
  next
    case (Some c)
    then have "ch_of s w = Some c" using x by (simp add: ch_of_def)
    then show ?thesis using ok Some s' ch owns_free [of "ch_of s" "mt_chans s" w c]
      by (simp add: fr fuse_chan_put_def heap_ok_def)
  qed
  then show "heap_ok (free_worker w s')"
    using ok h s' x by (auto simp: heap_ok_def set_remove1_eq)
qed

lemma free_counts:
  assumes ok: "heap_ok s" and w: "w \<in> set (mt_list s)"
    and s': "mt_heap s' = (mt_heap s)(w := None)" "mt_list s' = remove1 w (mt_list s)"
  shows "int (length (mt_list s')) = int (length (mt_list s)) - 1" "idle_count s' = idle_count s - avail s w"
proof -
  have "Suc (length (remove1 w (mt_list s))) = length (mt_list s)"
    using w by (metis One_nat_def Suc_pred length_pos_if_in_set length_remove1)
  then show "int (length (mt_list s')) = int (length (mt_list s)) - 1" using s'(2) by simp
  have "w \<notin> set (remove1 w (mt_list s))" using ok by (simp add: heap_ok_def)
  then have "sum_list (map (avail s') (remove1 w (mt_list s))) = sum_list (map (avail s) (remove1 w (mt_list s)))"
    using s' by (intro arg_cong [of _ _ sum_list] map_cong) (auto simp: avail_def)
  then show "idle_count s' = idle_count s - avail s w"
    using sum_list_map_remove1 [OF w, of "avail s"] s' by (simp add: idle_count_def)
qed

lemma start_thread_cases:
  assumes "fuse_loop_start_thread alloc clone created s = (err, s')" "heap_ok s" "fresh_addrs alloc clone s"
  obtains (failed) "err = -1" "heap_ok s'" "mt_list s' = mt_list s" "mt_heap s' = mt_heap s"
      "numworker s' = numworker s" "numavail s' = numavail s"
    | (started) w ch where "err = 0" "heap_ok s'" "mt_heap s w = None" "mt_list s' = mt_list s @ [w]"
      "mt_heap s' = (mt_heap s)(w \<mapsto> \<lparr>w_ch = ch, w_pc = W_Loop, w_cancelled = False\<rparr>)"
      "numworker s' = numworker s + 1" "numavail s' = numavail s + 1"
proof (cases alloc)
  case None
  then show ?thesis using assms by (intro failed) (auto simp: fuse_loop_start_thread_def)
next
  case (Some w)
  have w: "mt_heap s w = None" using assms(3) Some by (simp add: fresh_addrs_def)
  obtain ch s1 where s1: "worker_chan clone s = (ch, s1)" by (cases "worker_chan clone s") auto
  have fr: "mt_list s1 = mt_list s" "mt_heap s1 = mt_heap s" "numworker s1 = numworker s" "numavail s1 = numavail s"
    "mt_bad s1 = mt_bad s" "\<And>c. ch = Some c \<Longrightarrow> mt_chans s c = None"
    "mt_chans s1 = (case ch of None \<Rightarrow> mt_chans s | Some c \<Rightarrow> (mt_chans s)(c \<mapsto> 1))"
    using s1 assms(3) by (auto simp: worker_chan_def fresh_addrs_def split: if_splits option.splits)
  show ?thesis
  proof (cases created)
    case False
    then have s': "err = -1" "s' = fuse_chan_put ch s1" using assms(1) Some s1 by (auto simp: fuse_loop_start_thread_def)
    have "mt_chans s' = mt_chans s" "mt_bad s' = mt_bad s"
      using s' fr by (auto simp: fuse_chan_put_def split: option.splits)
    moreover have "ch_of s' = ch_of s" using s' fr by (auto simp: ch_of_def)
    ultimately show ?thesis using s' fr assms(2) by (intro failed) (auto simp: heap_ok_def)
  next
    case True
    let ?x = "\<lparr>w_ch = ch, w_pc = W_Loop, w_cancelled = False\<rparr>"
    have s': "err = 0" "s' = s1\<lparr>mt_heap := (mt_heap s1)(w \<mapsto> ?x), mt_list := mt_list s1 @ [w],
        numavail := numavail s1 + 1, numworker := numworker s1 + 1\<rparr>"
      using assms(1) Some s1 True by (auto simp: fuse_loop_start_thread_def)
    have ch: "ch_of s' = (ch_of s)(w := ch)" using s' fr by (auto simp: ch_of_def)
    have "ch_of s w = None" using w by (simp add: ch_of_def)
    then have "owns (ch_of s') (mt_chans s')"
      using assms(2) fr s' ch owns_new [of "ch_of s" "mt_chans s" _ w]
      by (cases ch) (auto simp: heap_ok_def fun_upd_idem)
    then show ?thesis
      using s' fr w assms(2) by (intro started) (auto simp: heap_ok_def)
  qed
qed

section \<open>Steps keep the invariant\<close>

lemma start_frame:
  assumes "fuse_loop_start_thread alloc clone created s = (err, s')"
  shows "max_threads s' = max_threads s" "mt_exited s' = mt_exited s" "mt_finish s' = mt_finish s" "mt_main s' = mt_main s"
  using assms
  by (auto simp: fuse_loop_start_thread_def worker_chan_def split: option.splits prod.splits if_splits)

lemma start_counts:
  assumes "mt_heap s w = None" "mt_list s' = mt_list s @ [w]" "mt_heap s' = (mt_heap s)(w \<mapsto> x)" "\<not> serving (w_pc x)"
    "heap_ok s"
  shows "idle_count s' = idle_count s + 1"
proof -
  have "w \<notin> set (mt_list s)" using assms(1,5) by (auto simp: heap_ok_def)
  then have "sum_list (map (avail s') (mt_list s)) = sum_list (map (avail s) (mt_list s))"
    using assms(3) by (intro arg_cong [of _ _ sum_list] map_cong) (auto simp: avail_def)
  moreover have "avail s' w = 1" using assms(3,4) by (simp add: avail_def)
  ultimately show ?thesis using assms(2) by (simp add: idle_count_def)
qed

text \<open>A new worker, started by a thread that runs while the main thread waits or by the main thread.\<close>

lemma inv_started:
  assumes inv: "loop_inv s" "\<not> joining (mt_main s)" and st: "fuse_loop_start_thread alloc clone created s = (err, s')"
    and fresh: "fresh_addrs alloc clone s" and room: "mt_list s = [] \<or> numworker s < max_threads s"
  shows "heap_ok s' \<and> pool_counts 0 s' \<and> int (length (mt_list s')) \<le> max 1 (max_threads s') \<and>
    (if err = 0 then mt_list s' \<noteq> [] else err = -1 \<and> mt_list s' = mt_list s \<and> mt_heap s' = mt_heap s)"
proof -
  have ok: "heap_ok s" "pool_counts 0 s" using inv by (simp_all add: loop_inv_def)
  show ?thesis using st ok(1) fresh
  proof (cases rule: start_thread_cases)
    case failed
    have "avail s' = avail s" using failed by (auto simp: avail_def)
    then show ?thesis using failed inv ok start_frame [OF st] by (simp add: pool_counts_def idle_count_def loop_inv_def)
  next
    case (started w ch)
    have "idle_count s' = idle_count s + 1"
      using start_counts [of s w s'] started ok(1) by (simp add: serving_def)
    then show ?thesis using started room ok start_frame [OF st] by (auto simp: pool_counts_def)
  qed
qed

lemma inv_got:
  assumes inv: "loop_inv s" and w: "pc_is s w (W_Got f)" and fresh: "fresh_addrs alloc clone s"
  shows "loop_inv (work_got alloc clone created w f s)"
proof (cases "mt_exited s")
  case True
  then show ?thesis using inv_set_pc [OF inv w, of W_Finished] by (simp add: work_got_def serving_def)
next
  case False
  then have nj: "\<not> joining (mt_main s)" "mt_main s \<noteq> M_Start"
    using inv w by (auto simp: loop_inv_def main_ok_def joining_def heap_ok_def split: main_pc.splits)
  obtain x where x: "mt_heap s w = Some x" using w by auto
  define s0 where "s0 = (if f then s else s\<lparr>numavail := numavail s - 1\<rparr>)"
  define s1 where "s1 = set_pc w (W_Process f) s0"
  have s0: "mt_heap s0 = mt_heap s" "mt_list s0 = mt_list s" "mt_chans s0 = mt_chans s" "mt_bad s0 = mt_bad s" "mt_main s0 = mt_main s"
    "mt_exited s0 = mt_exited s" "mt_finish s0 = mt_finish s" "max_threads s0 = max_threads s"
    by (simp_all add: s0_def)
  have same: "avail s0 = avail s" "ch_of s0 = ch_of s" using s0(1) by (auto simp: avail_def ch_of_def)
  have ok0: "heap_ok s0" "main_ok s0" "pool_counts (if f then 0 else -1) s0"
    using inv nj s0 same by (auto simp: loop_inv_def heap_ok_def main_ok_def pool_counts_def idle_count_def s0_def split: main_pc.splits)
  have "avail s0 w = 1" using avail_pc [OF w] same by (simp add: serving_def)
  then have "pool_counts 0 s1" using set_pc_counts [of s0 w x "if f then 0 else -1" "W_Process f"] ok0 x s0 by (cases f) (simp_all add: s1_def serving_def)
  then have i1: "loop_inv s1"
    using ok0 x s0 set_pc_ok [of s0 w x] set_pc_main [of s0 w x] inv by (simp add: loop_inv_def s1_def)
  have w1: "mt_heap s1 = (mt_heap s)(w \<mapsto> x\<lparr>w_pc := W_Process f\<rparr>)" "mt_chans s1 = mt_chans s" "mt_main s1 = mt_main s"
    using x s0 by (simp_all add: s1_def set_pc_heap)
  have fresh1: "fresh_addrs alloc clone s1" using fresh w1 x by (auto simp: fresh_addrs_def)
  have eq: "work_got alloc clone created w f s =
      (if numavail s1 = 0 \<and> numworker s1 < max_threads s1 then snd (fuse_loop_start_thread alloc clone created s1) else s1)"
    using False by (simp add: work_got_def Let_def s1_def s0_def)
  show ?thesis
  proof (cases "numavail s1 = 0 \<and> numworker s1 < max_threads s1")
    case True
    obtain err s2 where st: "fuse_loop_start_thread alloc clone created s1 = (err, s2)"
      by (cases "fuse_loop_start_thread alloc clone created s1") auto
    note r = inv_started [OF i1 _ st fresh1]
    have "main_ok s2"
      using r i1 nj w1 True start_frame [OF st] by (auto simp: main_ok_def loop_inv_def joining_def split: main_pc.splits if_splits)
    then show ?thesis using r nj w1 eq st True start_frame [OF st] by (simp add: loop_inv_def)
  next
    case False
    then show ?thesis using eq i1 by auto
  qed
qed

lemma inv_done:
  assumes inv: "loop_inv s" and w: "pc_is s w (W_Done f)"
  shows "loop_inv (work_done w f s)"
proof -
  obtain x where x: "mt_heap s w = Some x" using w by auto
  define s1 where "s1 = (if f then s else s\<lparr>numavail := numavail s + 1\<rparr>)"
  have s1: "mt_heap s1 = mt_heap s" "mt_list s1 = mt_list s" "mt_chans s1 = mt_chans s" "mt_bad s1 = mt_bad s" "mt_main s1 = mt_main s"
    "mt_exited s1 = mt_exited s" "mt_finish s1 = mt_finish s" "max_threads s1 = max_threads s" "numworker s1 = numworker s"
    by (simp_all add: s1_def)
  have same: "avail s1 = avail s" "ch_of s1 = ch_of s" using s1(1) by (auto simp: avail_def ch_of_def)
  have ok1: "heap_ok s1" "main_ok s1" "\<not> joining (mt_main s) \<Longrightarrow> pool_counts (if f then 0 else 1) s1"
    using inv s1 same by (auto simp: loop_inv_def heap_ok_def main_ok_def pool_counts_def idle_count_def s1_def split: main_pc.splits)
  have av: "avail s1 w = (if f then 1 else 0)" using avail_pc [OF w] same by (simp add: serving_def)
  have stay: "loop_inv (set_pc w pc s1)" if "\<not> serving pc" for pc
  proof -
    have "\<not> joining (mt_main s) \<Longrightarrow> pool_counts 0 (set_pc w pc s1)"
      using set_pc_counts [of s1 w x "if f then 0 else 1" pc] ok1 x s1 av that by (cases f) simp_all
    then show ?thesis
      using ok1 x s1 set_pc_ok [of s1 w x] set_pc_main [of s1 w x] inv by (simp add: loop_inv_def)
  qed
  let ?many = "max_idle s1 \<noteq> -1 \<and> numavail s1 > max_idle s1 \<and> numworker s1 > 1"
  have eq: "work_done w f s = (if ?many then if mt_exited s1 then set_pc w W_Finished s1
      else free_worker w ((list_del_worker w s1)\<lparr>numavail := numavail s1 - 1, numworker := numworker s1 - 1\<rparr>)
    else set_pc w W_Loop s1)"
    by (simp add: work_done_def Let_def s1_def)
  show ?thesis
  proof (cases "?many \<and> \<not> mt_exited s")
    case False
    then show ?thesis using eq stay [of W_Finished] stay [of W_Loop] s1 by (auto simp: serving_def)
  next
    case True
    let ?d = "(list_del_worker w s1)\<lparr>numavail := numavail s1 - 1, numworker := numworker s1 - 1\<rparr>"
    have win: "w \<in> set (mt_list s1)" using ok1(1) x s1 by (auto simp: heap_ok_def)
    have nj: "\<not> joining (mt_main s)"
      using True ok1(2) win s1 by (auto simp: main_ok_def joining_def split: main_pc.splits)
    note fr = free_ok [of s1 w x ?d] and fc = free_counts [of s1 w "free_worker w ?d"]
    have h: "heap_ok (free_worker w ?d)" "mt_heap (free_worker w ?d) = (mt_heap s1)(w := None)"
      "mt_list (free_worker w ?d) = remove1 w (mt_list s1)"
      using fr ok1(1) x s1 by (simp_all add: list_del_worker_def)
    have c: "int (length (mt_list (free_worker w ?d))) = int (length (mt_list s1)) - 1"
      "idle_count (free_worker w ?d) = idle_count s1 - avail s1 w"
      using fc ok1(1) win h by simp_all
    have f: "numworker (free_worker w ?d) = numworker s1 - 1" "numavail (free_worker w ?d) = numavail s1 - 1"
      "mt_main (free_worker w ?d) = mt_main s" "max_threads (free_worker w ?d) = max_threads s"
      "mt_exited (free_worker w ?d) = mt_exited s" "mt_finish (free_worker w ?d) = mt_finish s"
      using x s1 by (simp_all add: free_worker_def list_del_worker_def)
    have cn: "pool_counts 0 (free_worker w ?d)" using ok1(3) [OF nj] c f av by (cases f) (simp_all add: pool_counts_def)
    have "1 < int (length (mt_list s1))" using True ok1(3) [OF nj] by (simp add: pool_counts_def)
    then have "mt_list (free_worker w ?d) \<noteq> []" using c by auto
    then have "main_ok (free_worker w ?d)"
      using ok1(2) f s1 nj True win by (auto simp: main_ok_def joining_def split: main_pc.splits)
    then show ?thesis using eq True h(1) cn c(1) f s1 inv by (simp add: loop_inv_def)
  qed
qed

lemma inv_main_start:
  assumes inv: "loop_inv s" and m: "mt_main s = M_Start" and fresh: "fresh_addrs alloc clone s"
  shows "loop_inv (main_start alloc clone created s)"
proof -
  obtain err s1 where st: "fuse_loop_start_thread alloc clone created s = (err, s1)"
    by (cases "fuse_loop_start_thread alloc clone created s") auto
  have e: "mt_list s = []" using inv m by (simp add: loop_inv_def main_ok_def)
  have r: "heap_ok s1" "pool_counts 0 s1" "int (length (mt_list s1)) \<le> max 1 (max_threads s1)"
    "if err = 0 then mt_list s1 \<noteq> [] else err = -1 \<and> mt_list s1 = mt_list s \<and> mt_heap s1 = mt_heap s"
    using inv_started [OF inv _ st fresh] m e by (simp_all add: joining_def)
  let ?s = "s1\<lparr>mt_main := (if err = 0 then M_Check else M_End (final_error err s1))\<rparr>"
  have "avail ?s = avail s1" "ch_of ?s = ch_of s1" by (auto simp: avail_def ch_of_def)
  then have "heap_ok ?s" "pool_counts 0 ?s" using r(1,2) by (simp_all add: heap_ok_def pool_counts_def idle_count_def)
  then show ?thesis using r(3,4) e st by (auto simp: loop_inv_def main_ok_def main_start_def split: if_splits)
qed

lemma inv_main:
  assumes "loop_inv s"
  shows "mt_main s = M_Check \<Longrightarrow> loop_inv (main_check s)"
    "mt_main s = M_Wait \<Longrightarrow> loop_inv (main_wait s)"
    "mt_main s = M_Join \<Longrightarrow> mt_list s = [] \<Longrightarrow> loop_inv (main_end s)"
  using assms
  by (auto simp: loop_inv_def main_ok_def heap_ok_def pool_counts_def idle_count_def avail_def [abs_def] ch_of_def [abs_def] joining_def
      main_check_def main_wait_def main_end_def)

lemma inv_main_cancel:
  assumes "loop_inv s" "mt_main s = M_Cancel"
  shows "loop_inv (main_cancel s)"
proof -
  have "ch_of (main_cancel s) = ch_of s"
  proof
    show "ch_of (main_cancel s) w = ch_of s w" for w by (cases "mt_heap s w") (simp_all add: ch_of_def main_cancel_def)
  qed
  moreover have "dom (mt_heap (main_cancel s)) = dom (mt_heap s)" by (auto simp: main_cancel_def split: if_splits)
  moreover have "w_cancelled x" if "mt_heap (main_cancel s) w = Some x" for w x
  proof -
    have "mt_heap s w \<noteq> None" using that by (auto simp: main_cancel_def split: if_splits)
    then have "w \<in> set (mt_list s)" using assms(1) by (auto simp: loop_inv_def heap_ok_def)
    then show ?thesis using that by (auto simp: main_cancel_def)
  qed
  moreover have "mt_main (main_cancel s) = M_Join" "mt_list (main_cancel s) = mt_list s" "mt_chans (main_cancel s) = mt_chans s"
    "mt_bad (main_cancel s) = mt_bad s" "mt_exited (main_cancel s) = mt_exited s" "max_threads (main_cancel s) = max_threads s"
    by (simp_all add: main_cancel_def)
  ultimately show ?thesis
    using assms by (auto simp: loop_inv_def heap_ok_def main_ok_def joining_def)
qed

lemma inv_join:
  assumes inv: "loop_inv s" and m: "mt_main s = M_Join" "mt_list s = w # ws" "pc_is s w W_Finished"
  shows "loop_inv (fuse_join_worker w s)"
proof -
  obtain x where x: "mt_heap s w = Some x" using m(3) by auto
  have f: "mt_main (fuse_join_worker w s) = M_Join" "max_threads (fuse_join_worker w s) = max_threads s"
    "mt_exited (fuse_join_worker w s) = mt_exited s"
    using x m by (simp_all add: fuse_join_worker_def free_worker_def list_del_worker_def)
  have h: "heap_ok (fuse_join_worker w s)" "mt_heap (fuse_join_worker w s) = (mt_heap s)(w := None)"
    "mt_list (fuse_join_worker w s) = ws"
    using free_ok [of s w x "list_del_worker w s"] inv x m(2)
    by (simp_all add: fuse_join_worker_def list_del_worker_def loop_inv_def)
  then show ?thesis using inv m f by (auto simp: loop_inv_def main_ok_def joining_def split: if_splits)
qed

lemma inv_thread_step: "thread_step s s' \<Longrightarrow> loop_inv s \<Longrightarrow> loop_inv s'"
proof (induction rule: thread_step.induct)
  case (w_loop s w)
  then show ?case by (auto simp: work_loop_def serving_def intro!: inv_set_pc [of s w W_Loop])
next
  case (w_cancel s w x)
  then show ?case by (auto simp: serving_def intro!: inv_set_pc [of s w W_Recv])
next
  case (w_process s w f)
  then show ?case by (auto simp: serving_def intro!: inv_set_pc [of s w "W_Process f"])
next
  case (w_post s w)
  have "loop_inv (s\<lparr>mt_finish := mt_finish s + 1\<rparr>)" using w_post(2) by (rule inv_frame_mt) auto
  then show ?case using w_post(1) by (auto simp: work_post_def serving_def intro!: inv_set_pc [of _ w W_Post])
qed (simp_all add: inv_got inv_done inv_main_start inv_main inv_main_cancel inv_join)

lemma inv_received:
  assumes inv: "loop_inv s" and w: "pc_is s w W_Recv"
  shows "loop_inv (work_received w r s)"
proof -
  have "loop_inv (set_pc w W_Post (fuse_session_exit s\<lparr>mt_error := err\<rparr>))" for err
    using w inv_frame_mt [OF inv_exit [OF inv], of "fuse_session_exit s\<lparr>mt_error := err\<rparr>"]
    by (intro inv_set_pc [of _ w W_Recv]) (auto simp: serving_def fuse_session_exit_def)
  moreover have "loop_inv (set_pc w W_Post (fuse_session_exit s))"
    using w inv_exit [OF inv] by (intro inv_set_pc [of _ w W_Recv]) (auto simp: serving_def fuse_session_exit_def)
  ultimately show ?thesis
    using inv w by (cases r) (auto simp: serving_def intro!: inv_set_pc [of s w W_Recv])
qed

lemma inv_interrupted: "loop_inv s \<Longrightarrow> mt_main s = M_Wait \<Longrightarrow> loop_inv (s\<lparr>mt_main := M_Check\<rparr>)"
  by (auto simp: loop_inv_def main_ok_def heap_ok_def pool_counts_def idle_count_def avail_def [abs_def] ch_of_def [abs_def] joining_def)

lemma inv_fails: "loop_inv s \<Longrightarrow> loop_inv (s\<lparr>se_error := e\<rparr>)"
  by (erule inv_frame_mt) auto

lemma inv_run_step: "run_step s s' \<Longrightarrow> loop_inv s \<Longrightarrow> loop_inv s'"
  by (induction rule: run_step.induct) (simp_all add: inv_thread_step inv_received inv_interrupted)

lemma inv_loop_step: "loop_step s s' \<Longrightarrow> loop_inv s \<Longrightarrow> loop_inv s'"
  by (induction rule: loop_step.induct) (simp_all add: inv_run_step inv_exit inv_fails)

lemma inv_loop_reachable: "loop_step\<^sup>*\<^sup>* s s' \<Longrightarrow> loop_inv s \<Longrightarrow> loop_inv s'"
  by (induction rule: rtranclp_induct) (auto simp: inv_loop_step)

section \<open>Signals, and the loop with one thread\<close>

text \<open>A signal ends the session, and its number is what the loop returns.\<close>

lemma exit_handler_steps:
  assumes "exit_handler sig s = Some s'" "sig \<noteq> 0"
  shows "loop_step\<^sup>*\<^sup>* s s' \<and> mt_exited s' \<and> final_error err s' = sig"
proof -
  have s': "s' = (fuse_session_exit s)\<lparr>se_error := sig\<rparr>" using assms(1) by (auto simp: exit_handler_def split: if_splits)
  have "loop_step\<^sup>*\<^sup>* s (fuse_session_exit s)" by (intro r_into_rtranclp loop_step.exits)
  then have "loop_step\<^sup>*\<^sup>* s s'" unfolding s' using loop_step.fails by (rule rtranclp.rtrancl_into_rtrancl)
  then show ?thesis using assms(2) by (simp add: s' fuse_session_exit_def final_error_def)
qed

text \<open>One receive that ends the session, or that fails, is enough for the loop with one thread to return.\<close>

lemma session_loop_returns:
  "(r, exited') \<in> set rs \<Longrightarrow> r \<le> 0 \<and> r \<noteq> - EINTR \<or> exited' \<Longrightarrow> \<exists>res'. session_loop exited res rs = Some res'"
  by (induction exited res rs rule: session_loop.induct) (auto split: if_splits)

text \<open>It never returns the length of a request.\<close>

lemma fuse_session_loop_result: "fuse_session_loop exited rs err = Some res \<Longrightarrow> res = err \<or> err = 0 \<and> res \<le> 0"
  by (auto simp: fuse_session_loop_def split: if_splits)

end
