(* ===== verification/Loop_Returns.thy ===== *)
theory Loop_Returns
  imports Loop_Properties
begin

text \<open>
  Once the session has ended, the multi-threaded loop returns: a rank falls with every step, and until
  the main thread has returned some thread can take a step without the kernel.
\<close>

section \<open>The rank of a state\<close>

fun worker_rank :: "worker_pc \<Rightarrow> int" where
  "worker_rank W_Finished = 0"
| "worker_rank W_Post = 1"
| "worker_rank (W_Got _) = 1"
| "worker_rank W_Loop = 2"
| "worker_rank W_Recv = 3"
| "worker_rank (W_Done _) = 3"
| "worker_rank (W_Process _) = 4"

fun main_rank :: "main_pc \<Rightarrow> int" where
  "main_rank M_Start = 8"
| "main_rank M_Wait = 4"
| "main_rank M_Check = 3"
| "main_rank M_Cancel = 2"
| "main_rank M_Join = 1"
| "main_rank (M_End _) = 0"

definition rank_of :: "fuse_mt \<Rightarrow> nat \<Rightarrow> int" where
  "rank_of s w = (case mt_heap s w of None \<Rightarrow> 0 | Some x \<Rightarrow> 1 + worker_rank (w_pc x))"

definition loop_rank :: "fuse_mt \<Rightarrow> int" where
  "loop_rank s = main_rank (mt_main s) + (\<Sum>w\<leftarrow>mt_list s. rank_of s w)"

lemma worker_rank_nonneg [simp]: "0 \<le> worker_rank pc"
  by (cases pc) auto

lemma loop_rank_nonneg: "0 \<le> loop_rank s"
proof -
  have "0 \<le> rank_of s w" for w by (simp add: rank_of_def split: option.split)
  then have "0 \<le> (\<Sum>w\<leftarrow>mt_list s. rank_of s w)" by (intro sum_list_nonneg) auto
  moreover have "0 \<le> main_rank (mt_main s)" by (cases "mt_main s") auto
  ultimately show ?thesis by (simp add: loop_rank_def)
qed

lemma loop_rank_set_pc:
  assumes "heap_ok s" "pc_is s w pc"
  shows "loop_rank (set_pc w pc' s) = loop_rank s - worker_rank pc + worker_rank pc'"
proof -
  obtain x where x: "mt_heap s w = Some x" "w_pc x = pc" using assms(2) by auto
  have "rank_of (set_pc w pc' s) = (rank_of s)(w := 1 + worker_rank pc')" using x by (auto simp: rank_of_def set_pc_heap)
  moreover have "w \<in> set (mt_list s)" "distinct (mt_list s)" using assms(1) x by (auto simp: heap_ok_def)
  moreover have "rank_of s w = 1 + worker_rank pc" using x by (simp add: rank_of_def)
  ultimately have "(\<Sum>v\<leftarrow>mt_list s. rank_of (set_pc w pc' s) v) = (\<Sum>v\<leftarrow>mt_list s. rank_of s v) - worker_rank pc + worker_rank pc'"
    by (simp only: sum_upd)
  then show ?thesis by (simp add: loop_rank_def)
qed

text \<open>A step that sets the state of one worker and changes nothing else the rank is made of.\<close>

lemma set_pc_falls:
  assumes "heap_ok s" "pc_is s w pc" "worker_rank pc' < worker_rank pc"
    and "mt_list s1 = mt_list s" "mt_heap s1 = mt_heap s" "mt_main s1 = mt_main s" "mt_chans s1 = mt_chans s" "mt_bad s1 = mt_bad s"
  shows "loop_rank (set_pc w pc' s1) < loop_rank s"
proof -
  have "rank_of s1 = rank_of s" "ch_of s1 = ch_of s" using assms(5) by (auto simp: rank_of_def ch_of_def)
  then have "heap_ok s1" "loop_rank s1 = loop_rank s" using assms by (auto simp: heap_ok_def loop_rank_def)
  then show ?thesis using loop_rank_set_pc [of s1 w pc pc'] assms by simp
qed

section \<open>Every step lowers the rank\<close>

lemma start_falls:
  assumes inv: "loop_inv s" and m: "mt_main s = M_Start" and fresh: "fresh_addrs alloc clone s"
  shows "loop_rank (main_start alloc clone created s) < loop_rank s"
proof -
  obtain err s1 where st: "fuse_loop_start_thread alloc clone created s = (err, s1)"
    by (cases "fuse_loop_start_thread alloc clone created s") auto
  have e: "mt_list s = []" "heap_ok s" using inv m by (simp_all add: loop_inv_def main_ok_def)
  show ?thesis using st e(2) fresh
    by (cases rule: start_thread_cases) (use st e m in \<open>auto simp: main_start_def loop_rank_def rank_of_def\<close>)
qed

lemma join_falls:
  assumes inv: "loop_inv s" and m: "mt_main s = M_Join" "mt_list s = w # ws" "pc_is s w W_Finished"
  shows "loop_rank (fuse_join_worker w s) < loop_rank s"
proof -
  obtain x where x: "mt_heap s w = Some x" "w_pc x = W_Finished" using m(3) by auto
  have h: "mt_heap (fuse_join_worker w s) = (mt_heap s)(w := None)" "mt_list (fuse_join_worker w s) = ws"
    "mt_main (fuse_join_worker w s) = M_Join"
    using free_ok [of s w x "list_del_worker w s"] inv x m
    by (simp_all add: fuse_join_worker_def list_del_worker_def loop_inv_def free_worker_def)
  have "w \<notin> set ws" using inv m(2) by (simp add: loop_inv_def heap_ok_def)
  then have "(\<Sum>v\<leftarrow>ws. rank_of (fuse_join_worker w s) v) = (\<Sum>v\<leftarrow>ws. rank_of s v)"
    using h by (intro arg_cong [of _ _ sum_list] map_cong) (auto simp: rank_of_def)
  moreover have "rank_of s w = 1" using x by (simp add: rank_of_def)
  ultimately show ?thesis using h m by (simp add: loop_rank_def)
qed

lemma main_falls:
  "mt_main s = M_Check \<Longrightarrow> mt_exited s \<Longrightarrow> loop_rank (main_check s) < loop_rank s"
  "mt_main s = M_Wait \<Longrightarrow> loop_rank (main_wait s) < loop_rank s"
  "mt_main s = M_Wait \<Longrightarrow> loop_rank (s\<lparr>mt_main := M_Check\<rparr>) < loop_rank s"
  "mt_main s = M_Join \<Longrightarrow> loop_rank (main_end s) < loop_rank s"
  by (simp_all add: loop_rank_def rank_of_def [abs_def] main_check_def main_wait_def main_end_def)

lemma cancel_falls: "mt_main s = M_Cancel \<Longrightarrow> loop_rank (main_cancel s) < loop_rank s"
proof -
  assume m: "mt_main s = M_Cancel"
  have "rank_of (main_cancel s) w = rank_of s w" for w by (cases "mt_heap s w") (simp_all add: rank_of_def main_cancel_def)
  then have "rank_of (main_cancel s) = rank_of s" ..
  then show ?thesis using m by (simp add: loop_rank_def) (simp add: main_cancel_def)
qed

lemma thread_step_falls: "thread_step s s' \<Longrightarrow> loop_inv s \<Longrightarrow> mt_exited s \<Longrightarrow> loop_rank s' < loop_rank s"
proof (induction rule: thread_step.induct)
  case (w_loop s w)
  then show ?case by (auto simp: work_loop_def loop_inv_def intro!: set_pc_falls [of s w W_Loop])
next
  case (w_cancel s w x)
  then show ?case by (auto simp: loop_inv_def intro!: set_pc_falls [of s w W_Recv])
next
  case (w_got s w f alloc clone created)
  then show ?case by (auto simp: work_got_def loop_inv_def intro!: set_pc_falls [of s w "W_Got f"])
next
  case (w_process s w f)
  then show ?case by (auto simp: loop_inv_def intro!: set_pc_falls [of s w "W_Process f"])
next
  case (w_done s w f)
  then show ?case by (auto simp: work_done_def Let_def loop_inv_def intro!: set_pc_falls [of s w "W_Done f"])
next
  case (w_post s w)
  then show ?case by (auto simp: work_post_def loop_inv_def intro!: set_pc_falls [of s w W_Post])
qed (simp_all add: start_falls join_falls main_falls cancel_falls)

lemma received_falls:
  assumes "loop_inv s" "pc_is s w W_Recv"
  shows "loop_rank (work_received w r s) < loop_rank s"
  using assms
  by (cases r) (auto simp: loop_inv_def fuse_session_exit_def intro!: set_pc_falls [of s w W_Recv])

lemma run_step_falls: "run_step s s' \<Longrightarrow> loop_inv s \<Longrightarrow> mt_exited s \<Longrightarrow> loop_rank s' < loop_rank s"
  by (induction rule: run_step.induct) (simp_all add: thread_step_falls received_falls main_falls)

section \<open>The session does not start again\<close>

lemma free_exited [simp]: "mt_exited (free_worker w s) = mt_exited s"
  by (simp add: free_worker_def split: option.split)

lemma start_exited [simp]: "mt_exited (snd (fuse_loop_start_thread alloc clone created s)) = mt_exited s"
  using start_frame(2) [OF prod.collapse [symmetric]] .

lemma thread_step_exited: "thread_step s s' \<Longrightarrow> mt_exited s' = mt_exited s"
  by (induction rule: thread_step.induct)
     (auto simp: work_loop_def work_got_def work_done_def work_post_def main_start_def main_check_def main_wait_def
        main_cancel_def main_end_def fuse_join_worker_def list_del_worker_def Let_def start_frame(2) split: prod.split)

lemma run_step_exited: "run_step s s' \<Longrightarrow> mt_exited s \<Longrightarrow> mt_exited s'"
proof (induction rule: run_step.induct)
  case (w_recv s w r)
  then show ?case by (cases r) (auto simp: fuse_session_exit_def)
qed (auto simp: thread_step_exited)

section \<open>No deadlock\<close>

lemma joined_worker_steps:
  assumes inv: "loop_inv s" and m: "mt_main s = M_Join" "mt_list s = w # ws"
  shows "\<exists>s'. thread_step s s'"
proof -
  have "w \<in> dom (mt_heap s)" using inv m by (auto simp: loop_inv_def heap_ok_def)
  then obtain x where x: "mt_heap s w = Some x" by auto
  then have pc: "pc_is s w (w_pc x)" and c: "w_cancelled x" using inv m by (auto simp: loop_inv_def main_ok_def)
  have fresh: "fresh_addrs None None s" by (simp add: fresh_addrs_def)
  show ?thesis
    using pc x c m fresh by (cases "w_pc x") (auto intro: thread_step.intros)
qed

lemma loop_not_stuck:
  assumes inv: "loop_inv s" and ex: "mt_exited s" and m: "\<And>e. mt_main s \<noteq> M_End e"
  shows "\<exists>s'. thread_step s s'"
proof (cases "mt_main s")
  case M_Start
  moreover have "fresh_addrs None None s" by (simp add: fresh_addrs_def)
  ultimately show ?thesis by (auto intro: thread_step.m_start)
next
  case M_Wait
  then have "0 < mt_finish s" using inv ex by (simp add: loop_inv_def main_ok_def)
  then show ?thesis using M_Wait by (auto intro: thread_step.m_wait)
next
  case M_Join
  then show ?thesis using joined_worker_steps [OF inv M_Join] by (cases "mt_list s") (auto intro: thread_step.m_end)
qed (use m in \<open>auto intro: thread_step.m_check thread_step.m_cancel\<close>)

text \<open>When the main thread has returned, nothing of the loop is left.\<close>

lemma loop_end_empty:
  assumes "loop_inv s" "mt_main s = M_End e"
  shows "mt_heap s = Map.empty" "mt_chans s = Map.empty"
proof -
  have "mt_list s = []" "set (mt_list s) = dom (mt_heap s)" and own: "owns (ch_of s) (mt_chans s)"
    using assms unfolding loop_inv_def main_ok_def heap_ok_def by (auto simp only: main_pc.case)
  then have h: "dom (mt_heap s) = {}" by (metis list.set(1))
  then show "mt_heap s = Map.empty" by auto
  then have "ch_of s w = None" for w by (simp add: ch_of_def)
  then show "mt_chans s = Map.empty" using own by (auto simp: owns_def)
qed

lemma run_bounded:
  assumes "(run_step ^^ k) s s'" "loop_inv s" "mt_exited s"
  shows "loop_inv s' \<and> mt_exited s' \<and> int k + loop_rank s' \<le> loop_rank s"
  using assms
proof (induction k arbitrary: s')
  case (Suc k)
  then obtain t where t: "(run_step ^^ k) s t" "run_step t s'" by auto
  then have "loop_inv t" "mt_exited t" "int k + loop_rank t \<le> loop_rank s" using Suc by auto
  then show ?case using inv_run_step [OF t(2)] run_step_exited [OF t(2)] run_step_falls [OF t(2)] by simp
qed simp

section \<open>Properties\<close>


text \<open>A run in which the first worker receives a request and starts a second one.\<close>

definition demo_loop :: fuse_mt where
  "demo_loop = work_got (Some 2) None True 1 False (work_received 1 (R_Request False)
     (work_loop 1 (main_start (Some 1) None True (new_mt fuse_loop_cfg_create False))))"

lemmas loop_eval = demo_loop_def work_got_def work_loop_def main_start_def new_mt_def fuse_loop_cfg_create_def
  fuse_loop_start_thread_def worker_chan_def set_pc_def fresh_addrs_def

lemma demo_loop_run: "loop_step\<^sup>*\<^sup>* (new_mt fuse_loop_cfg_create False) demo_loop"
proof -
  let ?s0 = "new_mt fuse_loop_cfg_create False"
  let ?s1 = "main_start (Some 1) None True ?s0"
  let ?s2 = "work_loop 1 ?s1"
  let ?s3 = "work_received 1 (R_Request False) ?s2"
  have "loop_step ?s0 ?s1" by (intro loop_step.run run_step.thread thread_step.m_start) (simp_all add: loop_eval)
  moreover have "loop_step ?s1 ?s2" by (intro loop_step.run run_step.thread thread_step.w_loop) (simp add: loop_eval)
  moreover have "loop_step ?s2 ?s3" by (intro loop_step.run run_step.w_recv) (simp_all add: loop_eval)
  moreover have "loop_step ?s3 demo_loop"
    unfolding demo_loop_def by (intro loop_step.run run_step.thread thread_step.w_got) (simp_all add: loop_eval)
  ultimately show ?thesis by (meson converse_rtranclp_into_rtranclp r_into_rtranclp)
qed




end
