(* ===== verification/Spec2Isabelle.thy ===== *)
theory Spec2Isabelle
  imports Node_Properties Path_Properties Bufvec_Properties Lock_Properties Dirent_Properties
    Write_Queue_Properties Ll_Roundtrip Ll_Negotiation Fuse_Opt_Properties Tsfn_Properties
    Session_Manager Subdir_Properties Bridge_Properties Copy_File_Range Loop_Returns
begin

text \<open>
  Verification of fuse-native: a Node.js addon in C++ (\<open>src/src\<close>) on top of libfuse 3, whose
  sources are in \<open>src/fuse-docs\<close>. Paths below are relative to \<open>src/fuse-docs\<close> (\<open>lib\<close>, \<open>include\<close>)
  or to the repository (\<open>src/src\<close>).

  \<^bold>\<open>The program.\<close> The kernel writes a request to the FUSE device. The session of
  \<open>lib/fuse_lowlevel.c\<close> checks the header, registers the request, decodes its argument bytes and
  calls a low-level operation. In the path library \<open>lib/fuse.c\<close> that operation is a handler
  \<open>fuse_lib_*\<close>: it builds the path of the node while it locks the tree, calls the operation of
  the file system through \<open>fuse_fs_*\<close>, updates the store of nodes, releases the path and
  answers; the answer goes through the session back to the device. The addon has low-level
  operations of its own: \<open>fuse_bridge.cc\<close> turns a request into a call of a JavaScript handler and
  the value or promise it returns into the answer, \<open>tsfn_dispatcher.cc\<close> carries these calls from
  the FUSE threads to the JavaScript thread, \<open>session_manager.cc\<close> creates, mounts and stops
  sessions, and \<open>write_queue.cc\<close> orders the writes of one descriptor. Command lines are taken apart by
  \<open>lib/fuse_opt.c\<close>.

  \<^bold>\<open>Conventions.\<close> A C structure or C++ class is a record, an operation a function that takes the
  state and returns the new one. Memory that is freed is a heap, a map from addresses. A result
  \<open>None\<close> of an operation on such a state is the end of the process (abort, failed assertion, null
  dereference, use after free), a hang, or an endless loop, as the introduction of the theory
  says; theorems that give \<open>Some\<close> exclude it. A negative errno is an ordinary value. What the code
  gets from outside is a parameter: the operations of the file system, system calls, N-API,
  and as tapes (lists consumed from the front) the results of allocations, the clock and the
  return values of replies. A hypothesis about a parameter is a named predicate (\<open>sys_ok\<close>: no
  system call transfers more than asked for). Machine integers are words where they are compared
  with wire data or may wrap, otherwise numbers, with the range stated. No operation uses
  fuel: the loops without an evident measure are \<open>partial_function\<close>s in \<open>option\<close> (\<open>grow_size\<close>,
  \<open>unlock_loop\<close>, \<open>path_loop\<close>, \<open>next_id\<close>, \<open>hidden_next\<close>, \<open>write_chunk\<close>, \<open>copy_chunks\<close>), and the lemmas show
  that the first four return on every well-formed state, \<open>next_id\<close> while fewer than \<open>2 ^ 32 - 2\<close>
  nodes exist, and the last two while writes are interrupted finitely often; all others are total. The reader of a directory in the properties (\<open>kernel_list\<close>) sends a bounded number
  of requests; one more than there are entries is enough. Threads: an operation under a mutex is
  one step; where the code releases the mutex in between, each critical section is a step of an
  \<open>inductive\<close> relation, and the theorems hold for every interleaving. The machine is little endian
  with 64-bit words. Debug output and logging are left out throughout.

  \<^bold>\<open>The path library, \<open>lib/fuse.c\<close>.\<close>
  \<^item> \<open>Node_Table\<close>: \<open>struct node_table\<close>, linear hashing with incremental growth and shrinking
    (\<open>hash_id\<close>, \<open>hash_name\<close>, \<open>unhash_*\<close>, \<open>rehash_*\<close>, \<open>remerge_*\<close>, \<open>node_table_resize\<close>). The locale
    \<open>node_index\<close> states what the store needs of an index; the hash table is its interpretation.
  \<^item> \<open>Fuse_State\<close>: \<open>struct fuse\<close>, \<open>struct node\<close> and the node operations, from \<open>get_node\<close> to
    \<open>rename_node\<close>. \<open>Node_Refs\<close> has the invariant (tables, parent links, reference counts, no
    cycles), \<open>Node_Ops\<close>, \<open>Node_Create\<close>, \<open>Node_Rename\<close> prove that operations keep it,
    \<open>Node_Protocol\<close> is the kernel as the client that counts its lookups. \<open>Node_Properties\<close>: the
    counts of kernel and library agree in every reachable state, no allowed request ends the process,
    and what each operation does to the names. \<open>Node_Demo\<close> is the store of the witnesses.
  \<^item> \<open>Fuse_Path\<close>: paths in a growing buffer, tree locks, the queue of waiting requests
    (\<open>add_name\<close>, \<open>try_get_path\<close>, \<open>try_get_path2\<close>, \<open>get_path_common\<close>, \<open>free_path\<close>). \<open>Path_Locks\<close> and
    \<open>Path_Properties\<close>: the path spells the way from the root and resolves to its node, a refused
    attempt changes no lock, releasing undoes taking, conflicting requests exclude each other.
  \<^item> \<open>Posix_Locks\<close>: the byte-range locks of a node. \<open>Lock_Properties\<close>: the sorted list
    implements a map from owner and byte to lock type.
  \<^item> \<open>Fuse_Ops\<close>: \<open>struct fuse_operations\<close> and \<open>fuse_fs_*\<close>. \<open>Fuse_Lib\<close>, \<open>Fuse_Handlers\<close>,
    \<open>Fuse_Files\<close>, \<open>Fuse_Dirs\<close>: all request handlers, hiding of open files included. \<open>Fuse_Dispatch\<close>:
    the table \<open>fuse_path_ops\<close> and that each handler answers once. \<open>Handler_Paths\<close>: the locale
    \<open>path_handler\<close> for the handlers that take one path and make one call, interpreted for ten of
    them. \<open>Handler_Lookup\<close>, \<open>Handler_Properties\<close>: lookup, mkdir and symlink from request to reply.
  \<^item> \<open>Dirent\<close>, \<open>Dirent_Records\<close>, \<open>Dirent_Properties\<close>: the bytes of directory entries, which read back,
    and that successive \<open>readdir\<close> requests deliver each entry once.
  \<^item> \<open>Subdir\<close>: the stacking module \<open>lib/modules/subdir.c\<close>, a file system that hands every call to the
    next one with a base directory in front of the path. \<open>Subdir_Properties\<close>: each operation is the one
    of the next file system on the rebased path, and a rewritten symbolic link names the same target.

  \<^bold>\<open>Buffers and options.\<close> \<open>Bufvec\<close> is \<open>lib/buffer.c\<close> with memory and file descriptors;
  \<open>Bufvec_Properties\<close>: a copy stays in both vectors for every behaviour of the system calls, and
  between memory vectors moves exactly the bytes. \<open>Fuse_Opt\<close> is \<open>lib/fuse_opt.c\<close>;
  \<open>Fuse_Opt_Properties\<close>: escaped option groups are taken apart into the options they were joined
  from, and \<open>fuse_opt_parse\<close> agrees with a reference definition of the canonical command line.

  \<^bold>\<open>The session, \<open>lib/fuse_lowlevel.c\<close>.\<close> \<open>Ll_Decode\<close>: a decoder for each opcode of
  \<open>fuse_ll_ops\<close>. \<open>Ll_Session\<close>: live requests, interrupts, replies and notifications as bytes.
  \<open>Ll_Process\<close>: INIT, DESTROY and \<open>fuse_session_process_buf_internal\<close>. \<open>Ll_Properties\<close>: an
  interrupt reaches its request whatever the order. \<open>Ll_Answers\<close>: the session and the handlers of
  \<open>Fuse_Dispatch\<close> composed; a request is answered once by one of them. \<open>Ll_Negotiation\<close>: the
  answer to INIT asks only for what was offered and keeps the limits. \<open>Ll_Roundtrip\<close>: encoding a call
  as the kernel does and decoding it is the identity.

  \<^bold>\<open>The event loops.\<close> \<open>Loop_Mt\<close>: \<open>lib/fuse_loop_mt.c\<close> as steps of its workers and its main thread, with
  \<open>lib/fuse_loop.c\<close> and the signal handler that ends a session. \<open>Loop_Properties\<close> has the invariant of the
  pool and \<open>Loop_Returns\<close> the rank: nothing is used after it was freed, the counters of the pool are right,
  and once the session has ended the loop returns with every worker and channel released.

  \<^bold>\<open>The addon, \<open>src/src\<close>.\<close> \<open>Priority_Queue\<close>: \<open>std::priority_queue\<close> with the locales \<open>ranking\<close> (the
  comparator) and \<open>priority_queue\<close> (what users get), interpreted for the comparators of the next
  two. \<open>Write_Queue\<close>, \<open>Write_Queue_Properties\<close>: writes are served by priority and age, none is lost or
  duplicated, owned buffers are freed once. \<open>Tsfn_Dispatcher\<close>, \<open>Tsfn_Properties\<close>: each accepted
  callback has one outcome while the dispatcher runs, and what goes wrong at shutdown.
  \<open>Js_Value\<close>, \<open>Napi_Helpers\<close>: JavaScript values, \<open>napi_helpers.cc\<close> and \<open>errno_mapping.cc\<close>.
  \<open>Bridge_Context\<close>, \<open>Bridge_Results\<close>, \<open>Fuse_Bridge\<close>, \<open>Bridge_Handlers\<close>: \<open>fuse_bridge.cc\<close>, that is request
  contexts with the guard for one reply, the results of handlers, their arguments and their
  run on the JavaScript thread, and all operations and callbacks. \<open>Bridge_Once\<close> has the steps of the
  bridge and the invariant that the answers and the open requests are the requests received.
  \<open>Bridge_Properties\<close>: each request is answered once, rejections become errno values, structures
  and buffer vectors survive the way through JavaScript, a listing is read back by the kernel.
  \<open>Copy_File_Range\<close>: \<open>copy_file_range.cc\<close>; the chunked copy is exact and ends.
  \<open>Session_Manager\<close>: all calls of the exposed functions keep a session in agreement with its
  state, and what a second mount does.

  \<^bold>\<open>Shared.\<close> \<open>Fuse_Prelude\<close> has machine types, errno values, the tape of allocations and
  generic lemmas.

  \<^bold>\<open>Not modelled.\<close> Moving file data through pipes (\<open>fuse_send_data_iov\<close>), receiving requests and
  creating sessions (system calls); io-uring and CUSE; the attributes of threads; mounting and
  \<open>fusermount\<close>; the module \<open>iconv\<close>; \<open>helper.c\<close> (process control around the option parser); in the
  addon the functions exported to JavaScript that check and convert their arguments
  (\<open>buffer_bridge.cc\<close>, \<open>napi_bigint.cc\<close>, \<open>timespec_codec.cc\<close>, \<open>xattr_bridge.cc\<close>, \<open>init_bridge.cc\<close>),
  \<open>shutdown.cc\<close>; the TypeScript layer; examples and tests. In what is
  modelled, the signals by which an interrupted handler is woken, reference counts above
  \<open>2 ^ 31\<close>, and the rounding of \<open>double\<close> values are left out. \<open>fuse_fs_init\<close>
  and the handlers for init and destroy of the path library are not part of the model.
\<close>

end
